(* ===== verification/Prelude.thy ===== *)
theory Prelude
  imports Main "HOL-Library.Word" "HOL-Library.Sublist" "HOL-Library.While_Combinator"
begin

text \<open>
  Shared ground of the development: the outcomes a piece of C code can have besides returning
  (\<open>fault\<close>), the sum type that carries them (\<open>res\<close>) with its sequencing operator, the guarded
  reads of arrays and pointers, the errno constants, the linear scan that several components
  use to look a key up in an array of slots (stated as the interface \<open>slot_scan\<close>), and the
  invariant rule for step relations (\<open>step_invariant\<close>).
\<close>

named_theorems res_elims \<open>rules that invert a computation that returned\<close>

section \<open>Outcomes of C code\<close>

text \<open>
  What the source does where the C standard gives no value: it reads through a null pointer,
  indexes an array past its end, fails an \<^verbatim>\<open>assert\<close>, reads a member of a union that is
  not the one stored, reads memory nobody wrote, touches a block that was freed, recurses
  until the stack runs out, runs a loop that never ends, divides by zero, or leaves the range of a signed integer.
\<close>

datatype fault =
    Null_Deref
  | Out_Of_Bounds
  | Assert_Failure
  | Type_Confusion
  | Uninitialised
  | Use_After_Free
  | Stack_Overflow
  | Endless_Loop
  | Division_By_Zero
  | Integer_Overflow

type_synonym 'a res = "fault + 'a"

definition rbind :: "'a res \<Rightarrow> ('a \<Rightarrow> 'b res) \<Rightarrow> 'b res" where
  "rbind r f = (case r of Inl e \<Rightarrow> Inl e | Inr x \<Rightarrow> f x)"

lemma rbind_Inr [simp]: "rbind (Inr x) f = f x"
  by (simp add: rbind_def)

lemma rbind_Inl [simp]: "rbind (Inl e) f = Inl e"
  by (simp add: rbind_def)

lemma rbind_eq_Inr [simp]: "rbind r f = Inr y \<longleftrightarrow> (\<exists>x. r = Inr x \<and> f x = Inr y)"
  by (cases r) simp_all

lemma rbind_eq_Inl: "rbind r f = Inl e \<longleftrightarrow> r = Inl e \<or> (\<exists>x. r = Inr x \<and> f x = Inl e)"
  by (cases r) simp_all

lemma rbind_cong [fundef_cong]:
  "r = r' \<Longrightarrow> (\<And>x. r' = Inr x \<Longrightarrow> f x = g x) \<Longrightarrow> rbind r f = rbind r' g"
  by (cases r') simp_all

text \<open>A pointer is \<open>'a option\<close> with \<open>None\<close> for NULL; \<open>deref\<close> follows it.\<close>

definition deref :: "'a option \<Rightarrow> 'a res" where
  "deref p = (case p of None \<Rightarrow> Inl Null_Deref | Some x \<Rightarrow> Inr x)"

lemma deref_simps [simp]: "deref None = Inl Null_Deref" "deref (Some x) = Inr x"
  by (simp_all add: deref_def)

lemma deref_eq_Inr [simp]: "deref p = Inr x \<longleftrightarrow> p = Some x"
  by (cases p) simp_all

text \<open>Array reads and writes with the bound the C code relies on.\<close>

definition nth_res :: "'a list \<Rightarrow> nat \<Rightarrow> 'a res" where
  "nth_res xs i = (if i < length xs then Inr (xs ! i) else Inl Out_Of_Bounds)"

lemma nth_res_in [simp]: "i < length xs \<Longrightarrow> nth_res xs i = Inr (xs ! i)"
  by (simp add: nth_res_def)

lemma nth_res_out [simp]: "length xs \<le> i \<Longrightarrow> nth_res xs i = Inl Out_Of_Bounds"
  by (simp add: nth_res_def)

lemma nth_res_eq_Inr: "nth_res xs i = Inr x \<longleftrightarrow> i < length xs \<and> xs ! i = x"
  by (simp add: nth_res_def)

definition upd_res :: "'a list \<Rightarrow> nat \<Rightarrow> 'a \<Rightarrow> 'a list res" where
  "upd_res xs i x = (if i < length xs then Inr (xs[i := x]) else Inl Out_Of_Bounds)"

lemma upd_res_in [simp]: "i < length xs \<Longrightarrow> upd_res xs i x = Inr (xs[i := x])"
  by (simp add: upd_res_def)

lemma upd_res_out [simp]: "length xs \<le> i \<Longrightarrow> upd_res xs i x = Inl Out_Of_Bounds"
  by (simp add: upd_res_def)

text \<open>
  A loop whose condition may stay true for ever: the body is fallible, and not ending is the outcome
  \<open>Endless_Loop\<close>.
\<close>

definition cwhile :: "('s \<Rightarrow> bool) \<Rightarrow> ('s \<Rightarrow> 's res) \<Rightarrow> 's \<Rightarrow> 's res" where
  "cwhile b c s = (case while_option (\<lambda>r. case r of Inl e \<Rightarrow> False | Inr x \<Rightarrow> b x) (\<lambda>r. rbind r c) (Inr s) of
     None \<Rightarrow> Inl Endless_Loop | Some r \<Rightarrow> r)"

lemma cwhile_stop: "\<not> b s \<Longrightarrow> cwhile b c s = Inr s"
  by (simp add: cwhile_def while_option_unfold)

lemma cwhile_step: "b s \<Longrightarrow> cwhile b c s = rbind (c s) (cwhile b c)"
  by (cases "c s") (simp_all add: cwhile_def while_option_unfold [of _ _ "Inr s"]
      while_option_unfold [of _ _ "Inl _"])

lemma cwhile_unfold: "cwhile b c s = (if b s then rbind (c s) (cwhile b c) else Inr s)"
  by (simp add: cwhile_stop cwhile_step)

text \<open>A loop that runs one fallible body per element and keeps the results in order.\<close>

fun rmap :: "('a \<Rightarrow> 'b res) \<Rightarrow> 'a list \<Rightarrow> 'b list res" where
  "rmap f [] = Inr []"
| "rmap f (x # xs) = rbind (f x) (\<lambda>y. rbind (rmap f xs) (\<lambda>ys. Inr (y # ys)))"

lemma rmap_cong [fundef_cong]:
  "xs = ys \<Longrightarrow> (\<And>x. x \<in> set ys \<Longrightarrow> f x = g x) \<Longrightarrow> rmap f xs = rmap g ys"
proof -
  have "(\<And>x. x \<in> set ys \<Longrightarrow> f x = g x) \<Longrightarrow> rmap f ys = rmap g ys"
    by (induction ys) simp_all
  then show "xs = ys \<Longrightarrow> (\<And>x. x \<in> set ys \<Longrightarrow> f x = g x) \<Longrightarrow> rmap f xs = rmap g ys"
    by simp
qed

lemma rmap_eq_Inr: "rmap f xs = Inr ys \<longleftrightarrow> list_all2 (\<lambda>x y. f x = Inr y) xs ys"
proof (induction xs arbitrary: ys)
  case Nil
  show ?case by auto
next
  case (Cons x xs)
  show ?case by (auto simp: list_all2_Cons1 Cons.IH)
qed

lemma rmap_total:
  assumes "\<And>x. x \<in> set xs \<Longrightarrow> f x = Inr (g x)"
  shows "rmap f xs = Inr (map g xs)"
  using assms by (induction xs) simp_all

lemma rmap_fault:
  assumes "x \<in> set xs" and "f x = Inl e" and "\<And>y e'. y \<in> set xs \<Longrightarrow> f y = Inl e' \<Longrightarrow> e' = e"
  shows "rmap f xs = Inl e"
  using assms
proof (induction xs)
  case Nil
  then show ?case by simp
next
  case (Cons a xs)
  show ?case
  proof (cases "f a")
    case (Inl e')
    then have "e' = e" by (rule Cons.prems(3) [OF list.set_intros(1)])
    with Inl show ?thesis by simp
  next
    case (Inr y)
    with Cons.prems(1,2) have "x \<in> set xs" by auto
    then have "rmap f xs = Inl e"
      using Cons.prems(2) by (rule Cons.IH) (rule Cons.prems(3) [OF list.set_intros(2)])
    with Inr show ?thesis by simp
  qed
qed

lemma rmap_map [simp]: "rmap f (map g xs) = rmap (\<lambda>x. f (g x)) xs"
  by (induction xs) simp_all

section \<open>errno\<close>

text \<open>The Linux values of the errno names the source returns negated.\<close>

abbreviation (input) ENOENT :: int where "ENOENT \<equiv> 2"
abbreviation (input) EIO :: int where "EIO \<equiv> 5"
abbreviation (input) ENOMEM :: int where "ENOMEM \<equiv> 12"
abbreviation (input) EFAULT :: int where "EFAULT \<equiv> 14"
abbreviation (input) EBUSY :: int where "EBUSY \<equiv> 16"
abbreviation (input) EEXIST :: int where "EEXIST \<equiv> 17"
abbreviation (input) EINVAL :: int where "EINVAL \<equiv> 22"
abbreviation (input) ENOSPC :: int where "ENOSPC \<equiv> 28"
abbreviation (input) ETIMEDOUT :: int where "ETIMEDOUT \<equiv> 110"

section \<open>Linear scans over slots\<close>

text \<open>
  The symbol table, the module's array of test cases and the table of barriers are all searched
  by a loop that returns the first slot that matches the key. \<open>slot_scan\<close> is that contract: the
  loop's result is the least matching index, and there is none only if no slot matches.
\<close>

locale slot_scan =
  fixes scan :: "'k \<Rightarrow> 'e list \<Rightarrow> nat option"
    and matches :: "'k \<Rightarrow> 'e \<Rightarrow> bool"
  assumes scan_Some: "scan k es = Some i \<Longrightarrow>
      i < length es \<and> matches k (es ! i) \<and> (\<forall>j<i. \<not> matches k (es ! j))"
    and scan_None: "scan k es = None \<Longrightarrow> \<forall>e\<in>set es. \<not> matches k e"
begin

lemma scan_bound: "scan k es = Some i \<Longrightarrow> i < length es"
  using scan_Some by blast

lemma scan_matches: "scan k es = Some i \<Longrightarrow> matches k (es ! i)"
  using scan_Some by blast

lemma scan_least: "scan k es = Some i \<Longrightarrow> j < i \<Longrightarrow> \<not> matches k (es ! j)"
  using scan_Some by blast

lemma scan_complete:
  assumes "i < length es" and "matches k (es ! i)"
  obtains j where "scan k es = Some j" and "j \<le> i"
proof (cases "scan k es")
  case None
  then have "\<not> matches k (es ! i)" using scan_None assms(1) nth_mem by blast
  with assms(2) show ?thesis by contradiction
next
  case (Some j)
  then have "j \<le> i" using scan_least [of k es j i] assms by (meson not_le)
  with Some show ?thesis by (rule that)
qed

lemma scan_eqI:
  assumes "i < length es" and "matches k (es ! i)" and "\<And>j. j < i \<Longrightarrow> \<not> matches k (es ! j)"
  shows "scan k es = Some i"
  using assms scan_complete [of i es k] scan_matches [of k es] by (metis le_neq_implies_less)

lemma scan_NoneI: "(\<And>e. e \<in> set es \<Longrightarrow> \<not> matches k e) \<Longrightarrow> scan k es = None"
  using scan_Some [of k es] by (cases "scan k es") (auto dest: nth_mem)

lemma scan_append:
  "scan k (es @ fs) = (case scan k es of Some i \<Rightarrow> Some i
     | None \<Rightarrow> map_option (\<lambda>i. length es + i) (scan k fs))"
proof (cases "scan k es")
  case (Some i)
  then show ?thesis
    using scan_Some [OF Some] by (auto intro!: scan_eqI simp: nth_append)
next
  case None
  note no = scan_None [OF None]
  show ?thesis
  proof (cases "scan k fs")
    case None
    with no scan_None [OF None] \<open>scan k es = None\<close> show ?thesis
      by (auto intro!: scan_NoneI)
  next
    case (Some i)
    have "scan k (es @ fs) = Some (length es + i)"
    proof (rule scan_eqI)
      show "length es + i < length (es @ fs)" using scan_bound [OF Some] by simp
      show "matches k ((es @ fs) ! (length es + i))" using scan_matches [OF Some] by simp
    next
      fix j assume "j < length es + i"
      then show "\<not> matches k ((es @ fs) ! j)"
        using no scan_least [OF Some, of "j - length es"] by (auto simp: nth_append)
    qed
    with Some \<open>scan k es = None\<close> show ?thesis by simp
  qed
qed

lemma scan_update_other:
  assumes "i < length es" and "matches k x = matches k (es ! i)"
  shows "scan k (es[i := x]) = scan k es"
proof (cases "scan k es")
  case None
  then have "\<forall>e\<in>set es. \<not> matches k e" by (rule scan_None)
  with assms have "\<forall>e\<in>set (es[i := x]). \<not> matches k e"
    by (metis insertE nth_mem set_update_subset_insert subsetD)
  with None show ?thesis by (auto intro!: scan_NoneI)
next
  case (Some j)
  then have "scan k (es[i := x]) = Some j"
    using scan_Some [OF Some] assms
    by (intro scan_eqI) (auto simp: nth_list_update)
  with Some show ?thesis by simp
qed

end

section \<open>Invariants of step relations\<close>

text \<open>
  A predicate that holds in the start states and is kept by every step holds in every state a
  run can reach; the reachable states are the reflexive transitive closure of the steps.
\<close>

locale step_invariant =
  fixes start :: "'s \<Rightarrow> bool"
    and step :: "'s \<Rightarrow> 's \<Rightarrow> bool"
    and inv :: "'s \<Rightarrow> bool"
  assumes inv_start: "start s \<Longrightarrow> inv s"
    and inv_step: "inv s \<Longrightarrow> step s t \<Longrightarrow> inv t"
begin

lemma inv_run: "step\<^sup>*\<^sup>* s t \<Longrightarrow> inv s \<Longrightarrow> inv t"
  by (induction rule: rtranclp_induct) (auto intro: inv_step)

lemma inv_reachable: "start s \<Longrightarrow> step\<^sup>*\<^sup>* s t \<Longrightarrow> inv t"
  by (blast intro: inv_run inv_start)

end

end
