(* ===== verification/C_Text.thy ===== *)
theory C_Text
  imports Prelude
begin

text \<open>
  C strings and the pieces of \<^verbatim>\<open>printf\<close>, \<^verbatim>\<open>strtol\<close> and \<^verbatim>\<open>string.h\<close> the sources use. A C string
  is its list of characters up to the terminating NUL, which is not part of the list, so
  \<^verbatim>\<open>strlen\<close> is \<open>length\<close> and \<^verbatim>\<open>strcmp(a, b) == 0\<close> is equality. A double is its IEEE 754 bit
  pattern, so that the members of a C union can be read as each other.
\<close>

section \<open>Decimal numbers\<close>

definition digit_char :: "nat \<Rightarrow> char" where
  "digit_char d = char_of (48 + d)"

definition is_digit :: "char \<Rightarrow> bool" where
  "is_digit c \<longleftrightarrow> 48 \<le> (of_char c :: nat) \<and> (of_char c :: nat) \<le> 57"

definition digit_value :: "char \<Rightarrow> nat" where
  "digit_value c = of_char c - 48"

lemma digit_char_props:
  "d < 10 \<Longrightarrow> is_digit (digit_char d)" "d < 10 \<Longrightarrow> digit_value (digit_char d) = d"
  by (simp_all add: is_digit_def digit_char_def digit_value_def)

text \<open>The digits of \<^verbatim>\<open>%u\<close>, most significant first.\<close>

fun show_nat :: "nat \<Rightarrow> string" where
  "show_nat n = (if n < 10 then [digit_char n] else show_nat (n div 10) @ [digit_char (n mod 10)])"

declare show_nat.simps [simp del]

definition show_int :: "int \<Rightarrow> string" where
  "show_int i = (if i < 0 then CHR ''-'' # show_nat (nat (- i)) else show_nat (nat i))"

definition zero_pad :: "nat \<Rightarrow> string \<Rightarrow> string" where
  "zero_pad w s = replicate (w - length s) (CHR ''0'') @ s"

text \<open>\<^verbatim>\<open>%0wd\<close>: the sign counts toward the width and comes before the zeros.\<close>

definition show_int_pad :: "nat \<Rightarrow> int \<Rightarrow> string" where
  "show_int_pad w i = (if i < 0 then CHR ''-'' # zero_pad (w - 1) (show_nat (nat (- i)))
     else zero_pad w (show_nat (nat i)))"

lemma show_nat_digits: "\<forall>c\<in>set (show_nat n). is_digit c"
proof (induction n rule: show_nat.induct)
  case (1 n)
  then show ?case by (subst show_nat.simps) (auto simp: digit_char_props)
qed

lemma show_nat_length: "n < 10 ^ k \<Longrightarrow> 0 < k \<Longrightarrow> length (show_nat n) \<le> k"
proof (induction n arbitrary: k rule: show_nat.induct)
  case (1 n)
  show ?case
  proof (cases "n < 10")
    case True
    with "1.prems" show ?thesis by (subst show_nat.simps) simp
  next
    case False
    then obtain j where k: "k = Suc j" "0 < j"
      using "1.prems" by (cases k; cases "k - 1") auto
    then have "n div 10 < 10 ^ j" using "1.prems"(1) by (simp add: less_mult_imp_div_less mult.commute)
    with "1.IH" [OF False this k(2)] k(1) False show ?thesis by (subst show_nat.simps) simp
  qed
qed

lemma show_nat_nonempty: "show_nat n \<noteq> []"
  by (subst show_nat.simps) simp

text \<open>Reading the leading digits of a string, as \<^verbatim>\<open>strtol\<close> does in base 10.\<close>

fun read_digits :: "nat \<Rightarrow> string \<Rightarrow> nat" where
  "read_digits acc [] = acc"
| "read_digits acc (c # cs) = (if is_digit c then read_digits (10 * acc + digit_value c) cs else acc)"

lemma read_digits_append:
  "\<forall>c\<in>set ds. is_digit c \<Longrightarrow> read_digits acc (ds @ cs) = read_digits (read_digits acc ds) cs"
  by (induction ds arbitrary: acc) simp_all

lemma read_digits_show: "read_digits 0 (show_nat n) = n"
proof (induction n rule: show_nat.induct)
  case (1 n)
  show ?case
  proof (cases "n < 10")
    case True
    then show ?thesis by (subst show_nat.simps) (simp add: digit_char_props)
  next
    case False
    with 1 show ?thesis
      by (subst show_nat.simps) (simp add: read_digits_append show_nat_digits digit_char_props)
  qed
qed

definition is_space :: "char \<Rightarrow> bool" where
  "is_space c \<longleftrightarrow> of_char c \<in> {9::nat, 10, 11, 12, 13, 32}"

text \<open>
  \<^verbatim>\<open>atoi\<close>: leading white space, an optional sign, then digits; 0 when there is none. On the
  LP64 systems glibc runs on it is \<^verbatim>\<open>(int) strtol\<close>, so the value is clamped to a long and then
  cut to 32 bits.
\<close>

definition clamp_long :: "int \<Rightarrow> int" where
  "clamp_long i = max (- (2 ^ 63)) (min (2 ^ 63 - 1) i)"

definition to_int32 :: "int \<Rightarrow> int" where
  "to_int32 i = sint (word_of_int i :: 32 word)"

definition read_signed :: "string \<Rightarrow> int" where
  "read_signed s = (case dropWhile is_space s of
       [] \<Rightarrow> 0
     | c # cs \<Rightarrow> if c = CHR ''-'' then - int (read_digits 0 cs)
                 else if c = CHR ''+'' then int (read_digits 0 cs)
                 else int (read_digits 0 (c # cs)))"

definition atoi :: "string \<Rightarrow> int" where
  "atoi s = to_int32 (clamp_long (read_signed s))"

lemma to_int32_id: "- (2 ^ 31) \<le> i \<Longrightarrow> i < 2 ^ 31 \<Longrightarrow> to_int32 i = i"
  by (simp add: to_int32_def sint_sbintrunc' signed_take_bit_int_eq_self)

lemma to_int32_range: "- (2 ^ 31) \<le> to_int32 i \<and> to_int32 i < 2 ^ 31"
proof -
  have "to_int32 i = signed_take_bit 31 i" by (simp add: to_int32_def sint_sbintrunc')
  then show ?thesis
    using signed_take_bit_int_less_exp [of 31 i] signed_take_bit_int_greater_eq_minus_exp [of 31 i]
    by simp
qed

lemma digit_not_space_sign:
  "is_digit c \<Longrightarrow> \<not> is_space c" "is_digit c \<Longrightarrow> c \<noteq> CHR ''-''" "is_digit c \<Longrightarrow> c \<noteq> CHR ''+''"
  by (auto simp: is_digit_def is_space_def)

lemma read_signed_digits:
  assumes "\<forall>c\<in>set s. is_digit c"
  shows "read_signed s = int (read_digits 0 s)"
proof (cases s)
  case Nil
  then show ?thesis by (simp add: read_signed_def)
next
  case (Cons c cs)
  with assms digit_not_space_sign [of c] show ?thesis by (simp add: read_signed_def)
qed

text \<open>Printing a number and reading it back.\<close>

lemma atoi_show_nat:
  assumes "n < 2 ^ 31"
  shows "atoi (show_nat n) = int n"
proof -
  have "read_signed (show_nat n) = int n"
    by (simp add: read_signed_digits show_nat_digits read_digits_show)
  moreover have "clamp_long (int n) = int n" using assms by (simp add: clamp_long_def)
  moreover have "to_int32 (int n) = int n" using assms by (intro to_int32_id) auto
  ultimately show ?thesis by (simp add: atoi_def)
qed

section \<open>string.h\<close>

text \<open>\<^verbatim>\<open>strncmp(a, b, n) == 0\<close>\<close>

definition strn_eq :: "string \<Rightarrow> string \<Rightarrow> nat \<Rightarrow> bool" where
  "strn_eq a b n \<longleftrightarrow> take n a = take n b"

text \<open>\<^verbatim>\<open>strchr\<close> and \<^verbatim>\<open>strrchr\<close> as the offset of the character found.\<close>

fun strchr :: "string \<Rightarrow> char \<Rightarrow> nat option" where
  "strchr [] c = None"
| "strchr (x # xs) c = (if x = c then Some 0 else map_option Suc (strchr xs c))"

fun strrchr :: "string \<Rightarrow> char \<Rightarrow> nat option" where
  "strrchr [] c = None"
| "strrchr (x # xs) c = (case strrchr xs c of Some i \<Rightarrow> Some (Suc i)
     | None \<Rightarrow> if x = c then Some 0 else None)"

text \<open>\<^verbatim>\<open>strsep\<close>: the token up to the first delimiter, and what follows it (NULL at the end).\<close>

fun strsep :: "(char \<Rightarrow> bool) \<Rightarrow> string \<Rightarrow> string \<times> string option" where
  "strsep d [] = ([], None)"
| "strsep d (c # cs) = (if d c then ([], Some cs) else
     (case strsep d cs of (tok, rest) \<Rightarrow> (c # tok, rest)))"

lemma strchr_Some: "strchr s c = Some i \<Longrightarrow> i < length s \<and> s ! i = c \<and> c \<notin> set (take i s)"
  by (induction s c arbitrary: i rule: strchr.induct) (auto split: if_splits)

lemma strchr_None: "strchr s c = None \<longleftrightarrow> c \<notin> set s"
  by (induction s c rule: strchr.induct) auto

lemma strrchr_Some:
  "strrchr s c = Some i \<Longrightarrow> i < length s \<and> s ! i = c \<and> c \<notin> set (drop (Suc i) s)"
proof (induction s c arbitrary: i rule: strrchr.induct)
  case (2 x xs c)
  then show ?case
  proof (cases "strrchr xs c")
    case None
    moreover have "strrchr xs c = None \<Longrightarrow> c \<notin> set xs"
      by (induction xs) (auto split: option.splits if_splits)
    ultimately show ?thesis using "2.prems" by (auto split: if_splits)
  qed auto
qed simp

lemma strrchr_None: "strrchr s c = None \<longleftrightarrow> c \<notin> set s"
  by (induction s c rule: strrchr.induct) (auto split: option.splits)

lemma strsep_split:
  "strsep d s = (tok, rest) \<Longrightarrow>
     (\<forall>c\<in>set tok. \<not> d c) \<and> (case rest of None \<Rightarrow> s = tok | Some r \<Rightarrow> \<exists>c. d c \<and> s = tok @ c # r)"
proof (induction d s arbitrary: tok rest rule: strsep.induct)
  case (2 d c cs)
  obtain tok' rest' where rec: "strsep d cs = (tok', rest')" by fastforce
  show ?case
  proof (cases "d c")
    case True
    with "2.prems" show ?thesis by auto
  next
    case False
    note IH = "2.IH" [OF False rec]
    from False rec "2.prems" have *: "tok = c # tok'" "rest = rest'" by auto
    from IH False show ?thesis unfolding * by (cases rest') auto
  qed
qed simp

lemma strsep_join: "d c \<Longrightarrow> \<forall>x\<in>set tok. \<not> d x \<Longrightarrow> strsep d (tok @ c # r) = (tok, Some r)"
  by (induction tok) simp_all

section \<open>Bounded printing\<close>

text \<open>\<^verbatim>\<open>snprintf(buf, n, ...)\<close> leaves the first \<open>n - 1\<close> characters in \<^verbatim>\<open>buf\<close>.\<close>

definition snprintf :: "nat \<Rightarrow> string \<Rightarrow> string" where
  "snprintf n s = take (n - 1) s"

section \<open>Doubles\<close>

type_synonym double = "64 word"
type_synonym single = "32 word"

definition dbl_sign :: "double \<Rightarrow> bool" where
  "dbl_sign w \<longleftrightarrow> bit w 63"

definition dbl_exponent :: "double \<Rightarrow> nat" where
  "dbl_exponent w = unat (drop_bit 52 w) mod 2048"

definition dbl_fraction :: "double \<Rightarrow> nat" where
  "dbl_fraction w = unat w mod 2 ^ 52"

text \<open>Round \<open>n / d\<close> to the nearest integer, ties to even.\<close>

definition round_half_even :: "nat \<Rightarrow> nat \<Rightarrow> nat" where
  "round_half_even n d = (let q = n div d; r = n mod d in
     if 2 * r < d then q else if d < 2 * r then q + 1 else if even q then q else q + 1)"

text \<open>
  \<^verbatim>\<open>%lf\<close>: six decimals of the exact binary value, correctly rounded. A finite double is
  \<open>m * 2 ^ e\<close> with an integer \<open>m\<close>; \<open>dbl_micros\<close> is its magnitude in millionths.
\<close>

definition dbl_micros :: "double \<Rightarrow> nat" where
  "dbl_micros w = (let e = dbl_exponent w; f = dbl_fraction w;
       m = (if e = 0 then f else 2 ^ 52 + f); x = max 1 e
     in if 1075 \<le> x then m * 10 ^ 6 * 2 ^ (x - 1075)
        else round_half_even (m * 10 ^ 6) (2 ^ (1075 - x)))"

definition show_double :: "double \<Rightarrow> string" where
  "show_double w = (if dbl_sign w then ''-'' else '''') @
     (if dbl_exponent w = 2047 then (if dbl_fraction w = 0 then ''inf'' else ''nan'')
      else (let u = dbl_micros w in show_nat (u div 10 ^ 6) @ ''.'' @ zero_pad 6 (show_nat (u mod 10 ^ 6))))"

text \<open>\<^verbatim>\<open>(float) d\<close>: rounding to the 24 bits of a single, ties to even.\<close>

definition dbl_to_single_bits :: "double \<Rightarrow> nat" where
  "dbl_to_single_bits w = (let e = dbl_exponent w; f = dbl_fraction w; m = 2 ^ 52 + f in
     if e = 2047 then (if f = 0 then 0x7F800000 else 0x7FC00000 + (f div 2 ^ 29) mod 2 ^ 22)
     else if e = 0 then 0
     else if 897 \<le> e then min 0x7F800000 ((e - 896) * 2 ^ 23 + round_half_even m (2 ^ 29) - 2 ^ 23)
     else round_half_even m (2 ^ (29 + (897 - e))))"

definition dbl_to_single :: "double \<Rightarrow> single" where
  "dbl_to_single w = word_of_nat (dbl_to_single_bits w + (if dbl_sign w then 2 ^ 31 else 0))"

end
