(* ===== verification/Boxed_Values.thy ===== *)
theory Boxed_Values
  imports C_Text
begin

text \<open>
  Boxed values, \<^verbatim>\<open>blts-common/src/blts_params.c\<close>: the tagged union every configuration value
  travels in, its constructors and checked getters, and the functions that turn values and
  labelled lists of values into text. The \<^verbatim>\<open>next\<close> links of the C struct appear here as HOL
  lists; the theory \<open>Boxed_Heap\<close> shows that the pointer code implements these lists.
\<close>

section \<open>Types and the tagged union\<close>

datatype config_param_type =
    CONFIG_PARAM_INT
  | CONFIG_PARAM_LONG
  | CONFIG_PARAM_FLOAT
  | CONFIG_PARAM_DOUBLE
  | CONFIG_PARAM_STRING
  | CONFIG_PARAM_BOOL
  | CONFIG_PARAM_NONE

text \<open>
  \<^verbatim>\<open>int_val\<close> (long) and \<^verbatim>\<open>float_val\<close> (double) share eight bytes of the union, so both are the same
  64 bits; \<^verbatim>\<open>str_val\<close> is a pointer, never NULL, and its bits are not a value of the model.
\<close>

datatype boxed_value =
    Boxed_Int "64 word"
  | Boxed_Long "64 word"
  | Boxed_Bool "64 word"
  | Boxed_Float double
  | Boxed_Double double
  | Boxed_String string

fun bv_type :: "boxed_value \<Rightarrow> config_param_type" where
  "bv_type (Boxed_Int _) = CONFIG_PARAM_INT"
| "bv_type (Boxed_Long _) = CONFIG_PARAM_LONG"
| "bv_type (Boxed_Bool _) = CONFIG_PARAM_BOOL"
| "bv_type (Boxed_Float _) = CONFIG_PARAM_FLOAT"
| "bv_type (Boxed_Double _) = CONFIG_PARAM_DOUBLE"
| "bv_type (Boxed_String _) = CONFIG_PARAM_STRING"

fun num_bits :: "boxed_value \<Rightarrow> 64 word res" where
  "num_bits (Boxed_Int w) = Inr w"
| "num_bits (Boxed_Long w) = Inr w"
| "num_bits (Boxed_Bool w) = Inr w"
| "num_bits (Boxed_Float w) = Inr w"
| "num_bits (Boxed_Double w) = Inr w"
| "num_bits (Boxed_String _) = Inl Type_Confusion"

fun str_val :: "boxed_value \<Rightarrow> string res" where
  "str_val (Boxed_String s) = Inr s"
| "str_val _ = Inl Type_Confusion"

section \<open>Constructors\<close>

definition boxed_value_new_int :: "64 word \<Rightarrow> boxed_value" where
  "boxed_value_new_int v = Boxed_Int v"

definition boxed_value_new_long :: "64 word \<Rightarrow> boxed_value" where
  "boxed_value_new_long v = Boxed_Long v"

definition boxed_value_new_bool :: "64 word \<Rightarrow> boxed_value" where
  "boxed_value_new_bool v = Boxed_Bool v"

definition boxed_value_new_float :: "double \<Rightarrow> boxed_value" where
  "boxed_value_new_float v = Boxed_Float v"

text \<open>The source tags a double as \<^verbatim>\<open>CONFIG_PARAM_FLOAT\<close>.\<close>

definition boxed_value_new_double :: "double \<Rightarrow> boxed_value" where
  "boxed_value_new_double v = Boxed_Float v"

definition boxed_value_new_string_take :: "string \<Rightarrow> boxed_value" where
  "boxed_value_new_string_take v = Boxed_String v"

definition boxed_value_new_string :: "string \<Rightarrow> boxed_value" where
  "boxed_value_new_string v = boxed_value_new_string_take v"

lemmas boxed_value_new_defs = boxed_value_new_int_def boxed_value_new_long_def
  boxed_value_new_bool_def boxed_value_new_float_def boxed_value_new_double_def
  boxed_value_new_string_take_def boxed_value_new_string_def

section \<open>Checked getters\<close>

text \<open>
  The switch on \<open>new_type\<close>: the integral cases have no \<^verbatim>\<open>break\<close>, so a type that fails their test
  falls through to the test of the floating cases.
\<close>

definition boxed_value_can_cast :: "config_param_type \<Rightarrow> config_param_type \<Rightarrow> bool" where
  "boxed_value_can_cast ty new_type =
     (let integral = ty = CONFIG_PARAM_INT \<or> ty = CONFIG_PARAM_LONG \<or> ty = CONFIG_PARAM_BOOL;
          floating = ty = CONFIG_PARAM_FLOAT \<or> ty = CONFIG_PARAM_DOUBLE
      in case new_type of
           CONFIG_PARAM_INT \<Rightarrow> integral \<or> floating
         | CONFIG_PARAM_LONG \<Rightarrow> integral \<or> floating
         | CONFIG_PARAM_BOOL \<Rightarrow> integral \<or> floating
         | CONFIG_PARAM_FLOAT \<Rightarrow> floating
         | CONFIG_PARAM_DOUBLE \<Rightarrow> floating
         | _ \<Rightarrow> False)"

text \<open>
  The common body of the getters: \<^verbatim>\<open>assert(val)\<close>, the assertion that the types convert, then the
  read of the union member, which the caller casts.
\<close>

definition boxed_value_getter :: "config_param_type \<Rightarrow> boxed_value option \<Rightarrow> 64 word res" where
  "boxed_value_getter new_type val = (case val of
       None \<Rightarrow> Inl Assert_Failure
     | Some v \<Rightarrow> if boxed_value_can_cast (bv_type v) new_type then num_bits v else Inl Assert_Failure)"

definition boxed_value_get_int :: "boxed_value option \<Rightarrow> 32 word res" where
  "boxed_value_get_int val = rbind (boxed_value_getter CONFIG_PARAM_INT val) (\<lambda>w. Inr (ucast w))"

definition boxed_value_get_long :: "boxed_value option \<Rightarrow> 64 word res" where
  "boxed_value_get_long val = boxed_value_getter CONFIG_PARAM_LONG val"

definition boxed_value_get_bool :: "boxed_value option \<Rightarrow> 32 word res" where
  "boxed_value_get_bool val = rbind (boxed_value_getter CONFIG_PARAM_BOOL val) (\<lambda>w. Inr (ucast w))"

definition boxed_value_get_float :: "boxed_value option \<Rightarrow> single res" where
  "boxed_value_get_float val =
     rbind (boxed_value_getter CONFIG_PARAM_FLOAT val) (\<lambda>w. Inr (dbl_to_single w))"

definition boxed_value_get_double :: "boxed_value option \<Rightarrow> double res" where
  "boxed_value_get_double val = boxed_value_getter CONFIG_PARAM_DOUBLE val"

definition boxed_value_get_string :: "boxed_value option \<Rightarrow> string res" where
  "boxed_value_get_string val = (case val of
       None \<Rightarrow> Inl Assert_Failure
     | Some v \<Rightarrow> if bv_type v = CONFIG_PARAM_STRING then str_val v else Inl Assert_Failure)"

lemmas boxed_value_get_defs = boxed_value_get_int_def boxed_value_get_long_def
  boxed_value_get_bool_def boxed_value_get_float_def boxed_value_get_double_def
  boxed_value_get_string_def boxed_value_getter_def boxed_value_can_cast_def

lemma bv_type_string: "bv_type v = CONFIG_PARAM_STRING \<longleftrightarrow> (\<exists>s. v = Boxed_String s)"
  by (cases v) simp_all

lemma boxed_value_get_string_eq_Inr:
  "boxed_value_get_string val = Inr s \<longleftrightarrow> val = Some (Boxed_String s)"
  by (cases val; cases "the val") (auto simp: boxed_value_get_string_def)

text \<open>
  Whatever goes in through a constructor comes out through the getter of the same name, cut to
  the width of the C return type.
\<close>

lemma boxed_value_get_new:
  "boxed_value_get_int (Some (boxed_value_new_int w)) = Inr (ucast w)"
  "boxed_value_get_long (Some (boxed_value_new_long w)) = Inr w"
  "boxed_value_get_bool (Some (boxed_value_new_bool w)) = Inr (ucast w)"
  "boxed_value_get_float (Some (boxed_value_new_float w)) = Inr (dbl_to_single w)"
  "boxed_value_get_double (Some (boxed_value_new_double w)) = Inr w"
  "boxed_value_get_string (Some (boxed_value_new_string s)) = Inr s"
  by (simp_all add: boxed_value_get_defs boxed_value_new_defs)

section \<open>Values as text\<close>

text \<open>\<^verbatim>\<open>dump_type\<close>: what goes to the trace log for a type code.\<close>

fun dump_type :: "config_param_type \<Rightarrow> string" where
  "dump_type CONFIG_PARAM_STRING = ''string''"
| "dump_type CONFIG_PARAM_INT = ''int''"
| "dump_type CONFIG_PARAM_LONG = ''long''"
| "dump_type CONFIG_PARAM_BOOL = ''boolean''"
| "dump_type CONFIG_PARAM_FLOAT = ''float''"
| "dump_type CONFIG_PARAM_DOUBLE = ''double''"
| "dump_type _ = ''(UNKNOWN TYPE)''"

text \<open>The string case: quoted, with strings of 80 characters or more cut to their first 40.\<close>

definition dump_string :: "string \<Rightarrow> string" where
  "dump_string s = (if length s < 80 then ''\"'' @ s @ ''\"''
     else ''\"'' @ take 40 s @ ''\"... (total '' @ show_nat (length s) @ '' characters)'')"

text \<open>\<^verbatim>\<open>dump_boxed_value_level\<close>: the one message it logs at the given level.\<close>

fun dump_boxed_value_level :: "boxed_value option \<Rightarrow> string" where
  "dump_boxed_value_level None = ''(nil)''"
| "dump_boxed_value_level (Some (Boxed_String s)) = dump_string s"
| "dump_boxed_value_level (Some (Boxed_Int w)) = show_int (sint w)"
| "dump_boxed_value_level (Some (Boxed_Long w)) = show_int (sint w)"
| "dump_boxed_value_level (Some (Boxed_Bool w)) = (if w \<noteq> 0 then ''true'' else ''false'')"
| "dump_boxed_value_level (Some (Boxed_Float w)) = show_double w"
| "dump_boxed_value_level (Some (Boxed_Double w)) = show_double w"

text \<open>\<^verbatim>\<open>dump_boxed_value_log\<close>: the one message it logs at debug level.\<close>

definition dump_boxed_value_log :: "boxed_value option \<Rightarrow> string" where
  "dump_boxed_value_log v = (case v of None \<Rightarrow> ''(nil)'' | Some b \<Rightarrow>
     (case b of
        Boxed_String s \<Rightarrow> (if length s < 80 then ''\"'' @ s @ ''\"''
          else ''\"'' @ take 40 s @ ''\"... (total '' @ show_nat (length s) @ '' characters)'')
      | Boxed_Int w \<Rightarrow> show_int (sint w)
      | Boxed_Long w \<Rightarrow> show_int (sint w)
      | Boxed_Bool w \<Rightarrow> if w \<noteq> 0 then ''true'' else ''false''
      | Boxed_Float w \<Rightarrow> show_double w
      | Boxed_Double w \<Rightarrow> show_double w))"

text \<open>\<^verbatim>\<open>dump_boxed_value_str\<close>: the string it allocates.\<close>

fun dump_boxed_value_str :: "boxed_value option \<Rightarrow> string" where
  "dump_boxed_value_str None = ''(nil)''"
| "dump_boxed_value_str (Some (Boxed_String s)) =
     (let len = length s in
      if len < 80 then concat [''\"'', s, ''\"'']
      else concat [''\"'', take 40 s, ''\"... (total '', show_nat len, '' characters)''])"
| "dump_boxed_value_str (Some (Boxed_Int w)) = show_int (sint w)"
| "dump_boxed_value_str (Some (Boxed_Long w)) = show_int (sint w)"
| "dump_boxed_value_str (Some (Boxed_Bool w)) = (if w \<noteq> 0 then ''true'' else ''false'')"
| "dump_boxed_value_str (Some (Boxed_Float w)) = show_double w"
| "dump_boxed_value_str (Some (Boxed_Double w)) = show_double w"

lemma dump_boxed_value_log_str: "dump_boxed_value_log v = dump_boxed_value_str v"
  by (cases v rule: dump_boxed_value_str.cases) (simp_all add: dump_boxed_value_log_def)

lemma dump_boxed_value_level_str: "dump_boxed_value_level v = dump_boxed_value_str v"
  by (cases v rule: dump_boxed_value_str.cases) (simp_all add: dump_string_def)

text \<open>
  Dumps of lists, as the sequence of messages logged. \<open>dump_values\<close> is the loop of both
  unlabelled versions.
\<close>

fun dump_values :: "(boxed_value option \<Rightarrow> string) \<Rightarrow> boxed_value list \<Rightarrow> string list" where
  "dump_values d [] = []"
| "dump_values d (v # vs) = d (Some v) # (if vs = [] then [] else '', '' # dump_values d vs)"

definition dump_boxed_value_list_on_loglevel :: "boxed_value list \<Rightarrow> string list" where
  "dump_boxed_value_list_on_loglevel vs =
     (if vs = [] then [''[]''] else [''[''] @ dump_values dump_boxed_value_level vs @ ['']''])"

definition dump_boxed_value_list :: "boxed_value list \<Rightarrow> string list" where
  "dump_boxed_value_list vs = dump_boxed_value_list_on_loglevel vs"

definition dump_boxed_value_list_on_log :: "boxed_value list \<Rightarrow> string list" where
  "dump_boxed_value_list_on_log vs =
     (if vs = [] then [''[]''] else [''[''] @ dump_values dump_boxed_value_log vs @ ['']''])"

text \<open>
  \<^verbatim>\<open>blts_config_dump_labeled_value_list_on_log\<close>: labels are used up one per value and may run out;
  a label that is not a string fails the getter's assertion.
\<close>

fun dump_labeled_loop :: "boxed_value list \<Rightarrow> boxed_value list \<Rightarrow> string list res" where
  "dump_labeled_loop labels [] = Inr []"
| "dump_labeled_loop labels (v # vs) =
     rbind (case labels of [] \<Rightarrow> Inr [] | l # _ \<Rightarrow>
              rbind (boxed_value_get_string (Some l)) (\<lambda>s. Inr [s])) (\<lambda>lab.
     rbind (dump_labeled_loop (tl labels) vs) (\<lambda>rest.
     Inr (lab @ ['':'', dump_boxed_value_log (Some v)] @ (if vs = [] then [] else ['', '']) @ rest)))"

definition dump_labeled_value_list_on_log :: "boxed_value list \<Rightarrow> boxed_value list \<Rightarrow> string list res" where
  "dump_labeled_value_list_on_log labels vs =
     (if vs = [] then Inr [''[]'']
      else rbind (dump_labeled_loop labels vs) (\<lambda>body. Inr ([''[''] @ body @ ['']''])))"

text \<open>
  \<^verbatim>\<open>stracat\<close> appends to a string that may be NULL; \<^verbatim>\<open>blts_config_dump_labeled_value_list_to_str\<close>
  grows its result with it.
\<close>

definition stracat :: "string option \<Rightarrow> string \<Rightarrow> string" where
  "stracat src str = (case src of None \<Rightarrow> str | Some s \<Rightarrow> s @ str)"

fun labeled_to_str_loop :: "string \<Rightarrow> boxed_value list \<Rightarrow> boxed_value list \<Rightarrow> string res" where
  "labeled_to_str_loop str labels [] = Inr str"
| "labeled_to_str_loop str labels (v # vs) =
     rbind (case labels of [] \<Rightarrow> Inr str | l # _ \<Rightarrow>
              rbind (boxed_value_get_string (Some l)) (\<lambda>s. Inr (stracat (Some str) s))) (\<lambda>str.
     let str = stracat (Some str) '':'';
         str = stracat (Some str) (dump_boxed_value_str (Some v));
         str = (if vs = [] then str else stracat (Some str) '', '')
     in labeled_to_str_loop str (tl labels) vs)"

definition dump_labeled_value_list_to_str :: "boxed_value list \<Rightarrow> boxed_value list \<Rightarrow> string res" where
  "dump_labeled_value_list_to_str labels vs =
     (if vs = [] then Inr ''[]''
      else rbind (labeled_to_str_loop ''['' labels vs) (\<lambda>str. Inr (stracat (Some str) '']'')))"

lemma labeled_to_str_loop_log:
  "labeled_to_str_loop str labels vs =
     rbind (dump_labeled_loop labels vs) (\<lambda>body. Inr (str @ concat body))"
proof (induction vs arbitrary: str labels)
  case Nil
  show ?case by simp
next
  case (Cons v vs)
  show ?case
  proof (cases labels)
    case Nil
    show ?thesis
      by (cases "dump_labeled_loop [] vs")
        (simp_all add: Nil Cons.IH stracat_def dump_boxed_value_log_str Let_def)
  next
    case (Cons l ls)
    show ?thesis
      by (cases "boxed_value_get_string (Some l)"; cases "dump_labeled_loop ls vs")
        (simp_all add: Cons Cons.IH stracat_def dump_boxed_value_log_str Let_def)
  qed
qed

lemma dump_labeled_log_eq_str:
  "dump_labeled_value_list_to_str labels vs =
     rbind (dump_labeled_value_list_on_log labels vs) (\<lambda>pieces. Inr (concat pieces))"
  by (cases "dump_labeled_loop labels vs")
    (simp_all add: dump_labeled_value_list_to_str_def dump_labeled_value_list_on_log_def
      labeled_to_str_loop_log stracat_def)

text \<open>Labels that are all strings, as the declaration code makes them, never fail.\<close>

lemma dump_labeled_loop_total:
  assumes "\<forall>l\<in>set labels. bv_type l = CONFIG_PARAM_STRING"
  shows "\<exists>body. dump_labeled_loop labels vs = Inr body"
  using assms
proof (induction vs arbitrary: labels)
  case Nil
  show ?case by simp
next
  case (Cons v vs)
  then have "\<forall>l\<in>set (tl labels). bv_type l = CONFIG_PARAM_STRING" by (cases labels) auto
  with Cons.IH obtain rest where "dump_labeled_loop (tl labels) vs = Inr rest" by blast
  with Cons.prems show ?case
    by (cases labels) (auto simp: boxed_value_get_string_def bv_type_string)
qed

end
