(* ===== verification/Boxed_Heap.thy ===== *)
theory Boxed_Heap
  imports Boxed_Values
begin

text \<open>
  The pointer code of the boxed values: cells with a \<^verbatim>\<open>next\<close> link in a heap, and the functions of
  \<^verbatim>\<open>blts_params.c\<close> that allocate, copy, reverse and free linked lists of them in place. A cell owns
  its string (\<^verbatim>\<open>strdup\<close> copies it on every copy of a cell), so the string is part of the cell's
  value. Reading or freeing an address that holds no cell is a fault. The lemmas show that on a
  well-formed list each function returns and does to the represented list what the rest of the
  development uses: \<open>rev\<close>, an equal copy in fresh cells, or no cell left.
\<close>

section \<open>Heap\<close>

type_synonym addr = nat

datatype cell = Cell (cell_value: boxed_value) (cell_next: "addr option")

record heap =
  cells :: "addr \<rightharpoonup> cell"
  brk :: addr

definition heap_ok :: "heap \<Rightarrow> bool" where
  "heap_ok h \<longleftrightarrow> (\<forall>a \<in> dom (cells h). a < brk h)"

definition malloc_cell :: "heap \<Rightarrow> cell \<Rightarrow> heap \<times> addr" where
  "malloc_cell h c = (h\<lparr>cells := (cells h)(brk h \<mapsto> c), brk := Suc (brk h)\<rparr>, brk h)"

definition load_cell :: "heap \<Rightarrow> addr \<Rightarrow> cell res" where
  "load_cell h a = (case cells h a of None \<Rightarrow> Inl Use_After_Free | Some c \<Rightarrow> Inr c)"

definition store_next :: "heap \<Rightarrow> addr \<Rightarrow> addr option \<Rightarrow> heap res" where
  "store_next h a p = (case cells h a of None \<Rightarrow> Inl Use_After_Free
     | Some c \<Rightarrow> Inr (h\<lparr>cells := (cells h)(a \<mapsto> Cell (cell_value c) p)\<rparr>))"

definition free_cell :: "heap \<Rightarrow> addr \<Rightarrow> heap res" where
  "free_cell h a = (case cells h a of None \<Rightarrow> Inl Use_After_Free
     | Some c \<Rightarrow> Inr (h\<lparr>cells := (cells h)(a := None)\<rparr>))"

lemma load_cell_Some: "cells h a = Some c \<Longrightarrow> load_cell h a = Inr c"
  by (simp add: load_cell_def)

lemma malloc_cell_ok: "heap_ok h \<Longrightarrow> malloc_cell h c = (h', a) \<Longrightarrow> heap_ok h'"
  by (auto simp: heap_ok_def malloc_cell_def less_Suc_eq)

section \<open>The functions\<close>

text \<open>\<^verbatim>\<open>blts_config_boxed_value_dup\<close>: a copy with its link cleared; NULL for NULL.\<close>

definition heap_dup :: "heap \<Rightarrow> addr option \<Rightarrow> (heap \<times> addr option) res" where
  "heap_dup h v = (case v of None \<Rightarrow> Inr (h, None) | Some a \<Rightarrow>
     rbind (load_cell h a) (\<lambda>c.
     (case malloc_cell h (Cell (cell_value c) None) of (h', b) \<Rightarrow> Inr (h', Some b))))"

text \<open>
  \<^verbatim>\<open>blts_config_boxed_value_list_dup\<close>: the loop appends a copy of each further cell to the last
  one copied. A cyclic list makes it run forever, hence \<open>option\<close>: \<open>None\<close> is a call that does not
  return.
\<close>

partial_function (option) list_dup_loop ::
    "heap \<Rightarrow> addr \<Rightarrow> addr option \<Rightarrow> heap res option" where
  "list_dup_loop h val v = (case v of None \<Rightarrow> Some (Inr h) | Some a \<Rightarrow>
     (case heap_dup h (Some a) of
        Inl e \<Rightarrow> Some (Inl e)
      | Inr (h1, b) \<Rightarrow>
          (case store_next h1 val b of
             Inl e \<Rightarrow> Some (Inl e)
           | Inr h2 \<Rightarrow>
               (case load_cell h2 a of
                  Inl e \<Rightarrow> Some (Inl e)
                | Inr c \<Rightarrow> list_dup_loop h2 (the b) (cell_next c)))))"

definition heap_list_dup :: "heap \<Rightarrow> addr option \<Rightarrow> (heap \<times> addr option) res option" where
  "heap_list_dup h v =
     (case heap_dup h v of
        Inl e \<Rightarrow> Some (Inl e)
      | Inr (h1, head) \<Rightarrow>
          (case v of
             None \<Rightarrow> Some (Inl Null_Deref)
           | Some a \<Rightarrow>
               (case load_cell h1 a of
                  Inl e \<Rightarrow> Some (Inl e)
                | Inr c \<Rightarrow> map_option (\<lambda>r. rbind r (\<lambda>h2. Inr (h2, head)))
                            (list_dup_loop h1 (the head) (cell_next c)))))"

text \<open>\<^verbatim>\<open>blts_config_boxed_value_free\<close>: frees one cell and returns its link.\<close>

definition heap_free :: "heap \<Rightarrow> addr option \<Rightarrow> (heap \<times> addr option) res" where
  "heap_free h p = (case p of None \<Rightarrow> Inr (h, None) | Some a \<Rightarrow>
     rbind (load_cell h a) (\<lambda>c. rbind (free_cell h a) (\<lambda>h'. Inr (h', cell_next c))))"

text \<open>The idiom \<^verbatim>\<open>while ((p = blts_config_boxed_value_free(p)));\<close>\<close>

partial_function (option) free_all :: "heap \<Rightarrow> addr option \<Rightarrow> heap res option" where
  "free_all h p = (case heap_free h p of
       Inl e \<Rightarrow> Some (Inl e)
     | Inr (h', q) \<Rightarrow> if q = None then Some (Inr h') else free_all h' q)"

text \<open>\<^verbatim>\<open>blts_config_boxed_value_list_reverse\<close>: relinks the cells in place.\<close>

partial_function (option) list_reverse_loop ::
    "heap \<Rightarrow> addr option \<Rightarrow> addr option \<Rightarrow> (heap \<times> addr option) res option" where
  "list_reverse_loop h list prev = (case list of None \<Rightarrow> Some (Inr (h, prev)) | Some a \<Rightarrow>
     (case load_cell h a of
        Inl e \<Rightarrow> Some (Inl e)
      | Inr c \<Rightarrow> (case store_next h a prev of
            Inl e \<Rightarrow> Some (Inl e)
          | Inr h' \<Rightarrow> list_reverse_loop h' (cell_next c) (Some a))))"

definition heap_list_reverse :: "heap \<Rightarrow> addr option \<Rightarrow> (heap \<times> addr option) res option" where
  "heap_list_reverse h list = list_reverse_loop h list None"

section \<open>Lists in the heap\<close>

text \<open>\<open>chain m p as xs\<close>: from \<open>p\<close>, the links run through the cells \<open>as\<close>, which hold \<open>xs\<close>, to NULL.\<close>

fun chain :: "(addr \<rightharpoonup> cell) \<Rightarrow> addr option \<Rightarrow> addr list \<Rightarrow> boxed_value list \<Rightarrow> bool" where
  "chain m p [] [] = (p = None)"
| "chain m p (a # as) (x # xs) = (p = Some a \<and> (\<exists>n. m a = Some (Cell x n) \<and> chain m n as xs))"
| "chain m p _ _ = False"

lemma chain_cong: "\<forall>a\<in>set as. m a = m' a \<Longrightarrow> chain m p as xs = chain m' p as xs"
  by (induction m p as xs rule: chain.induct) auto

lemma chain_dom: "chain m p as xs \<Longrightarrow> set as \<subseteq> dom m"
  by (induction m p as xs rule: chain.induct) auto

lemma chain_length: "chain m p as xs \<Longrightarrow> length as = length xs"
  by (induction m p as xs rule: chain.induct) auto

lemma chain_None [simp]: "chain m None as xs \<longleftrightarrow> as = [] \<and> xs = []"
  by (cases as; cases xs) auto

lemma chain_fun_upd: "a \<notin> set as \<Longrightarrow> chain (m(a := c)) p as xs = chain m p as xs"
  by (rule chain_cong) auto

text \<open>In-place reversal.\<close>

lemma list_reverse_loop_chain:
  assumes "chain (cells h) p as xs" and "chain (cells h) prev bs ys"
    and "distinct as" and "set as \<inter> set bs = {}"
  shows "\<exists>h' q. list_reverse_loop h p prev = Some (Inr (h', q)) \<and>
     chain (cells h') q (rev as @ bs) (rev xs @ ys) \<and> brk h' = brk h \<and>
     (\<forall>a. a \<notin> set as \<longrightarrow> cells h' a = cells h a) \<and> dom (cells h') = dom (cells h)"
  using assms
proof (induction as arbitrary: h p prev xs bs ys)
  case Nil
  then show ?case by (cases xs) (auto simp: list_reverse_loop.simps)
next
  case (Cons a as)
  then obtain x xs' n where xs: "xs = x # xs'" and p: "p = Some a"
    and a: "cells h a = Some (Cell x n)" and rest: "chain (cells h) n as xs'"
    by (cases xs) auto
  define h1 where "h1 = h\<lparr>cells := (cells h)(a \<mapsto> Cell x prev)\<rparr>"
  have st: "store_next h a prev = Inr h1" by (simp add: store_next_def a h1_def)
  have ld: "load_cell h a = Inr (Cell x n)" using a by (rule load_cell_Some)
  have "chain (cells h1) n as xs'"
    using rest Cons.prems(3) by (simp add: h1_def chain_fun_upd)
  moreover have "chain (cells h1) (Some a) (a # bs) (x # ys)"
    using Cons.prems(2,4) by (simp add: h1_def chain_fun_upd)
  moreover have "distinct as" "set as \<inter> set (a # bs) = {}" using Cons.prems(3,4) by auto
  ultimately obtain h' q where IH: "list_reverse_loop h1 n (Some a) = Some (Inr (h', q))"
      "chain (cells h') q (rev as @ a # bs) (rev xs' @ x # ys)" "brk h' = brk h1"
      "\<forall>c. c \<notin> set as \<longrightarrow> cells h' c = cells h1 c" "dom (cells h') = dom (cells h1)"
    using Cons.IH by blast
  have "list_reverse_loop h p prev = Some (Inr (h', q))"
    by (subst list_reverse_loop.simps) (simp add: p ld st IH(1))
  moreover have "dom (cells h1) = dom (cells h)" using a by (auto simp: h1_def)
  ultimately show ?case using IH(2-) by (auto simp: xs h1_def)
qed

lemma heap_list_reverse_chain:
  assumes "chain (cells h) p as xs" and "distinct as"
  shows "\<exists>h' q. heap_list_reverse h p = Some (Inr (h', q)) \<and> chain (cells h') q (rev as) (rev xs) \<and>
     (\<forall>a. a \<notin> set as \<longrightarrow> cells h' a = cells h a) \<and> dom (cells h') = dom (cells h)"
  using list_reverse_loop_chain [of h p as xs None "[]" "[]"] assms
  by (auto simp: heap_list_reverse_def)

text \<open>Freeing a list frees its cells, each once, and nothing else.\<close>

lemma free_all_chain:
  assumes "chain (cells h) p as xs" and "distinct as" and "as \<noteq> []"
  shows "\<exists>h'. free_all h p = Some (Inr h') \<and> cells h' = (cells h) |` (- set as) \<and> brk h' = brk h"
  using assms
proof (induction as arbitrary: h p xs)
  case Nil
  then show ?case by simp
next
  case (Cons a as)
  then obtain x xs' n where p: "p = Some a" and a: "cells h a = Some (Cell x n)"
    and rest: "chain (cells h) n as xs'"
    by (cases xs) auto
  define h1 where "h1 = h\<lparr>cells := (cells h)(a := None)\<rparr>"
  have fr: "heap_free h p = Inr (h1, n)"
    using a by (simp add: heap_free_def p load_cell_def free_cell_def h1_def)
  show ?case
  proof (cases "as = []")
    case True
    with rest have "n = None" by (cases xs') auto
    with True fr show ?thesis
      by (subst free_all.simps) (auto simp: h1_def restrict_map_def fun_eq_iff)
  next
    case False
    then obtain b where n: "n = Some b" using rest by (cases as; cases xs') auto
    have "chain (cells h1) n as xs'" using rest Cons.prems(2) by (simp add: h1_def chain_fun_upd)
    with Cons.IH Cons.prems(2) False obtain h' where
      IH: "free_all h1 n = Some (Inr h')" "cells h' = cells h1 |` (- set as)" "brk h' = brk h1"
      by (metis distinct.simps(2))
    have "free_all h p = Some (Inr h')"
      by (subst free_all.simps) (simp add: fr n IH(1) [unfolded n])
    with IH(2,3) show ?thesis by (auto simp: h1_def restrict_map_def fun_eq_iff)
  qed
qed

text \<open>Copying a list leaves it as it was and builds an equal one in cells that were not in use.\<close>

lemma list_dup_loop_chain:
  assumes "chain (cells h) v as xs" and "cells h val = Some (Cell y None)"
    and "heap_ok h" and "val \<notin> set as"
  shows "\<exists>h' bs. list_dup_loop h val v = Some (Inr h') \<and> chain (cells h') (Some val) (val # bs) (y # xs) \<and>
     (\<forall>a\<in>dom (cells h). a \<noteq> val \<longrightarrow> cells h' a = cells h a) \<and>
     set bs \<inter> dom (cells h) = {} \<and> heap_ok h' \<and> dom (cells h') = dom (cells h) \<union> set bs"
  using assms
proof (induction as arbitrary: h v xs val y)
  case Nil
  then have "v = None" "xs = []" by (cases xs; auto)+
  with Nil.prems show ?case
    by (intro exI [of _ h] exI [of _ "[]"]) (simp add: list_dup_loop.simps)
next
  case (Cons a as)
  then obtain x xs' n where xs: "xs = x # xs'" and v: "v = Some a"
    and a: "cells h a = Some (Cell x n)" and rest: "chain (cells h) n as xs'"
    by (cases xs) auto
  let ?b = "brk h"
  define h1 where "h1 = h\<lparr>cells := (cells h)(?b \<mapsto> Cell x None), brk := Suc ?b\<rparr>"
  define h2 where "h2 = h1\<lparr>cells := (cells h1)(val \<mapsto> Cell y (Some ?b))\<rparr>"
  have fresh: "?b \<notin> dom (cells h)" using Cons.prems(3) by (auto simp: heap_ok_def)
  then have b_ne: "?b \<noteq> val" "?b \<noteq> a" "?b \<notin> set as"
    using Cons.prems(2) a chain_dom [OF rest] by auto
  have dup: "heap_dup h (Some a) = Inr (h1, Some ?b)"
    using a by (simp add: heap_dup_def malloc_cell_def h1_def load_cell_def)
  have st: "store_next h1 val (Some ?b) = Inr h2"
    using Cons.prems(2) b_ne by (simp add: store_next_def h1_def h2_def)
  have ld: "load_cell h2 a = Inr (Cell x n)"
    using a Cons.prems(4) b_ne by (simp add: h2_def h1_def load_cell_def)
  have ok2: "heap_ok h2" using Cons.prems(2,3) by (auto simp: heap_ok_def h2_def h1_def less_Suc_eq)
  have dom2: "dom (cells h2) = insert ?b (dom (cells h))"
    using Cons.prems(2) by (auto simp: h2_def h1_def)
  have "chain (cells h2) n as xs'"
    using rest Cons.prems(4) b_ne by (simp add: h2_def h1_def chain_fun_upd)
  moreover have "cells h2 ?b = Some (Cell x None)" using b_ne by (simp add: h2_def h1_def)
  ultimately obtain h' bs where IH: "list_dup_loop h2 ?b n = Some (Inr h')"
      "chain (cells h') (Some ?b) (?b # bs) (x # xs')"
      "\<forall>c\<in>dom (cells h2). c \<noteq> ?b \<longrightarrow> cells h' c = cells h2 c"
      "set bs \<inter> dom (cells h2) = {}" "heap_ok h'" "dom (cells h') = dom (cells h2) \<union> set bs"
    using Cons.IH [of h2 n xs' ?b x] ok2 b_ne by blast
  have val: "cells h' val = Some (Cell y (Some ?b))"
    using IH(3) Cons.prems(2) b_ne by (auto simp: dom2 h2_def)
  have "list_dup_loop h val v = Some (Inr h')"
    by (subst list_dup_loop.simps) (simp add: v dup st ld IH(1))
  moreover have "chain (cells h') (Some val) (val # ?b # bs) (y # xs)"
    using IH(2) val by (simp add: xs)
  moreover have "cells h' c = cells h c" if c: "c \<in> dom (cells h)" "c \<noteq> val" for c
  proof -
    from c(1) fresh have "c \<noteq> ?b" by blast
    with c IH(3) show ?thesis by (simp add: dom2 h2_def h1_def)
  qed
  moreover have "set (?b # bs) \<inter> dom (cells h) = {}" using IH(4) fresh by (auto simp: dom2)
  moreover have "dom (cells h') = dom (cells h) \<union> set (?b # bs)" using IH(6) by (auto simp: dom2)
  ultimately show ?case using IH(5) by blast
qed

lemma heap_list_dup_chain:
  assumes "chain (cells h) p (a # as) (x # xs)" and "heap_ok h"
  shows "\<exists>h' b bs. heap_list_dup h p = Some (Inr (h', Some b)) \<and> chain (cells h') (Some b) (b # bs) (x # xs) \<and>
     chain (cells h') p (a # as) (x # xs) \<and> set (b # bs) \<inter> dom (cells h) = {} \<and> heap_ok h'"
proof -
  from assms(1) obtain n where p: "p = Some a" and a: "cells h a = Some (Cell x n)"
    and rest: "chain (cells h) n as xs" by auto
  let ?b = "brk h"
  define h1 where "h1 = h\<lparr>cells := (cells h)(?b \<mapsto> Cell x None), brk := Suc ?b\<rparr>"
  have fresh: "?b \<notin> dom (cells h)" using assms(2) by (auto simp: heap_ok_def)
  then have b_ne: "?b \<noteq> a" "?b \<notin> set as" using a chain_dom [OF rest] by auto
  have dup: "heap_dup h p = Inr (h1, Some ?b)"
    using a by (simp add: p heap_dup_def malloc_cell_def h1_def load_cell_def)
  have ld: "load_cell h1 a = Inr (Cell x n)" using a b_ne by (simp add: h1_def load_cell_def)
  have "chain (cells h1) n as xs" using rest b_ne by (simp add: h1_def chain_fun_upd)
  moreover have "cells h1 ?b = Some (Cell x None)" by (simp add: h1_def)
  moreover have "heap_ok h1" using assms(2) by (auto simp: heap_ok_def h1_def less_Suc_eq)
  ultimately obtain h' bs where L: "list_dup_loop h1 ?b n = Some (Inr h')"
      "chain (cells h') (Some ?b) (?b # bs) (x # xs)"
      "\<forall>c\<in>dom (cells h1). c \<noteq> ?b \<longrightarrow> cells h' c = cells h1 c"
      "set bs \<inter> dom (cells h1) = {}" "heap_ok h'"
    using list_dup_loop_chain [of h1 n as xs ?b x] b_ne by blast
  have "heap_list_dup h p = Some (Inr (h', Some ?b))"
    using dup ld L(1) by (simp add: heap_list_dup_def p)
  moreover have "cells h' c = cells h c" if "c \<in> set (a # as)" for c
  proof -
    from that chain_dom [OF assms(1)] have "c \<in> dom (cells h)" by blast
    moreover from this fresh have "c \<noteq> ?b" by blast
    ultimately show ?thesis using L(3) by (simp add: h1_def)
  qed
  then have "chain (cells h') p (a # as) (x # xs)" using assms(1) chain_cong by metis
  moreover have "set (?b # bs) \<inter> dom (cells h) = {}" using L(4) fresh by (auto simp: h1_def)
  ultimately show ?thesis using L(2,5) by blast
qed

text \<open>Copying NULL as a list reads through it.\<close>

lemma heap_list_dup_null: "heap_list_dup h None = Some (Inl Null_Deref)"
  by (simp add: heap_list_dup_def heap_dup_def)

end
