(* ===== verification/Permutations.thy ===== *)
theory Permutations
  imports Boxed_Values "HOL-Library.Multiset"
begin

text \<open>
  The permutation table of \<^verbatim>\<open>blts-common/src/blts_params.c\<close>: how the values of each parameter are
  laid out in arrays, how all index combinations are enumerated into one flat table of
  \<^verbatim>\<open>unsigned\<close> with stride \<^verbatim>\<open>n_variables\<close>, and how each row is turned into a list of values. Sizes
  are computed in 32-bit unsigned arithmetic, as in the source, and a write past the size that
  was allocated is a fault. The lemmas show that the enumeration is the little-endian counter
  with the parameters' sizes as radices, hence exactly the Cartesian product of the values.
\<close>

section \<open>Lists that the C code builds backwards and reverses\<close>

fun reverse_loop :: "'a list \<Rightarrow> 'a list \<Rightarrow> 'a list" where
  "reverse_loop [] prev = prev"
| "reverse_loop (x # xs) prev = reverse_loop xs (x # prev)"

lemma reverse_loop_rev: "reverse_loop xs ys = rev xs @ ys"
  by (induction xs arbitrary: ys) simp_all

record test_param =
  tp_param :: nat
  tp_values :: "boxed_value list"

definition test_param_list_reverse :: "test_param list \<Rightarrow> test_param list" where
  "test_param_list_reverse list = reverse_loop list []"

definition variant_list_reverse :: "boxed_value list list \<Rightarrow> boxed_value list list" where
  "variant_list_reverse list = reverse_loop list []"

lemma list_reverse_simps [simp]:
  "test_param_list_reverse ps = rev ps" "variant_list_reverse vs = rev vs"
  by (simp_all add: test_param_list_reverse_def variant_list_reverse_def reverse_loop_rev)

section \<open>Arrays and the table\<close>

text \<open>\<^verbatim>\<open>struct var_parameter_arrays\<close>; \<^verbatim>\<open>n_params\<close> is the length of both lists.\<close>

record var_parameter_arrays =
  n_values :: "nat list"
  arr_values :: "boxed_value list list"

definition test_param_list_flatten :: "test_param list \<Rightarrow> var_parameter_arrays" where
  "test_param_list_flatten params =
     \<lparr>n_values = map (\<lambda>p. length (tp_values p)) params, arr_values = map tp_values params\<rparr>"

record var_permute_table =
  n_variables :: nat
  n_permutations :: nat
  var_max_indices :: "nat list"
  permutations :: "nat list"

text \<open>Unsigned 32-bit arithmetic.\<close>

definition u32 :: "nat \<Rightarrow> nat" where
  "u32 n = n mod 2 ^ 32"

lemma u32_id [simp]: "n < 2 ^ 32 \<Longrightarrow> u32 n = n"
  by (simp add: u32_def)

lemma u32_less: "u32 n < 2 ^ 32"
  by (simp add: u32_def)

text \<open>\<^verbatim>\<open>generate_next_permutation\<close>\<close>

fun generate_next_permutation :: "nat list \<Rightarrow> nat list \<Rightarrow> nat list" where
  "generate_next_permutation (p # ps) (l # ls) =
     (if p + 1 < l then (p + 1) # ps else 0 # generate_next_permutation ps ls)"
| "generate_next_permutation ps ls = ps"

text \<open>
  The loop that fills the table: \<open>k\<close> rows are left, row \<open>i\<close> is next; the row is copied to
  element \<open>i * n_variables\<close> of an allocation of \<open>table_sz\<close> bytes. Rows are written in order, so
  what is written is the concatenation of the rows.
\<close>

fun fill_table :: "nat \<Rightarrow> nat \<Rightarrow> nat \<Rightarrow> nat \<Rightarrow> nat \<Rightarrow> nat list \<Rightarrow> nat list \<Rightarrow> nat list res" where
  "fill_table 0 i n perm_sz table_sz current limits = Inr []"
| "fill_table (Suc k) i n perm_sz table_sz current limits =
     (if 4 * u32 (i * n) + perm_sz \<le> table_sz
      then rbind (fill_table k (Suc i) n perm_sz table_sz (generate_next_permutation current limits) limits)
             (\<lambda>rest. Inr (current @ rest))
      else Inl Out_Of_Bounds)"

definition count_permutations :: "nat list \<Rightarrow> nat" where
  "count_permutations limits = foldl (\<lambda>c l. u32 (c * (if l \<noteq> 0 then l else 1))) 1 limits"

definition generate_permutation_table :: "var_parameter_arrays \<Rightarrow> var_permute_table res" where
  "generate_permutation_table arrs =
     (let n = length (n_values arrs);
          perm_sz = u32 (n * 4);
          max_indices = n_values arrs;
          n_perms = count_permutations max_indices;
          perm_table_sz = u32 (n_perms * perm_sz)
      in rbind (fill_table n_perms 0 n perm_sz perm_table_sz (replicate n 0) max_indices)
           (\<lambda>perms. Inr \<lparr>n_variables = n, n_permutations = n_perms, var_max_indices = max_indices,
              permutations = perms\<rparr>))"

text \<open>
  \<^verbatim>\<open>generate_permutation_variants\<close>: the variant of row \<open>i\<close>, then all of them; each new variant is
  put in front of the list.
\<close>

definition permutation_variant :: "var_permute_table \<Rightarrow> var_parameter_arrays \<Rightarrow> nat \<Rightarrow> boxed_value list res" where
  "permutation_variant perms param_arrs i =
     rmap (\<lambda>j. rbind (nth_res (permutations perms) (u32 (i * n_variables perms + j))) (\<lambda>p.
               rbind (nth_res (arr_values param_arrs) j) (\<lambda>vs. nth_res vs p)))
       [0..<n_variables perms]"

definition generate_permutation_variants ::
    "var_permute_table \<Rightarrow> var_parameter_arrays \<Rightarrow> boxed_value list list res" where
  "generate_permutation_variants perms param_arrs =
     rbind (rmap (permutation_variant perms param_arrs) [0..<n_permutations perms]) (\<lambda>vs. Inr (rev vs))"

text \<open>The sequence of calls both users of the table make.\<close>

definition all_variants :: "test_param list \<Rightarrow> boxed_value list list res" where
  "all_variants params =
     (let param_arrs = test_param_list_flatten params in
      rbind (generate_permutation_table param_arrs) (\<lambda>perms.
      rbind (generate_permutation_variants perms param_arrs) (\<lambda>variants.
      Inr (variant_list_reverse variants))))"

section \<open>The enumeration is a mixed-radix counter\<close>

fun digits :: "nat list \<Rightarrow> nat \<Rightarrow> nat list" where
  "digits [] i = []"
| "digits (l # ls) i = i mod max 1 l # digits ls (i div max 1 l)"

definition radix_product :: "nat list \<Rightarrow> nat" where
  "radix_product limits = prod_list (map (max 1) limits)"

lemma radix_product_simps [simp]:
  "radix_product [] = 1" "radix_product (l # ls) = max 1 l * radix_product ls"
  by (simp_all add: radix_product_def)

lemma radix_product_pos: "0 < radix_product limits"
  by (induction limits) simp_all

lemma length_digits [simp]: "length (digits ls i) = length ls"
  by (induction ls arbitrary: i) simp_all

lemma digits_zero: "digits ls 0 = replicate (length ls) 0"
  by (induction ls) simp_all

lemma digits_nth_less: "j < length ls \<Longrightarrow> digits ls i ! j < max 1 (ls ! j)"
  by (induction ls arbitrary: i j) (auto simp: nth_Cons split: nat.splits)

lemma next_digits: "generate_next_permutation (digits ls i) ls = digits ls (Suc i)"
proof (induction ls arbitrary: i)
  case Nil
  show ?case by simp
next
  case (Cons l ls)
  show ?case
  proof (cases "i mod max 1 l + 1 < l")
    case True
    then have m: "max 1 l = l" by (cases "l = 0") (auto simp: max_def)
    have "Suc i mod l = Suc (i mod l)" "Suc i div l = i div l"
      using True unfolding m by (simp_all add: mod_Suc div_Suc)
    then show ?thesis using True unfolding digits.simps m by simp
  next
    case False
    have "i mod max 1 l < max 1 l" by simp
    with False have last: "Suc (i mod max 1 l) = max 1 l" by linarith
    have "Suc i mod max 1 l = 0" using last by (simp add: mod_Suc)
    moreover have "Suc i div max 1 l = Suc (i div max 1 l)"
      using last calculation by (auto simp: div_Suc)
    ultimately show ?thesis using False Cons.IH by simp
  qed
qed

lemma count_permutations_product:
  assumes "radix_product limits < 2 ^ 32"
  shows "count_permutations limits = radix_product limits"
proof -
  have "foldl (\<lambda>c l. u32 (c * (if l \<noteq> 0 then l else 1))) c limits = c * radix_product limits"
    if "c * radix_product limits < 2 ^ 32" for c
    using that
  proof (induction limits arbitrary: c)
    case (Cons l ls)
    have m: "(if l \<noteq> 0 then l else 1) = max 1 l" by (simp add: max_def)
    have le: "c * max 1 l \<le> c * max 1 l * radix_product ls"
      using mult_le_mono2 [of 1 "radix_product ls" "c * max 1 l"] radix_product_pos [of ls]
      by (simp add: Suc_le_eq)
    moreover from Cons.prems have "c * max 1 l * radix_product ls < 2 ^ 32"
      by (simp only: radix_product_simps mult.assoc)
    ultimately have "c * max 1 l < 2 ^ 32" by (rule order.strict_trans1)
    moreover from Cons.prems have "c * max 1 l * radix_product ls < 2 ^ 32"
      by (simp add: mult.assoc)
    ultimately show ?case unfolding foldl_Cons m using Cons.IH [of "c * max 1 l"]
      by (simp add: mult.assoc)
  qed simp
  from this [of 1] assms show ?thesis by (simp add: count_permutations_def)
qed

lemma fill_table_rows:
  assumes "4 * ((i + k) * n) \<le> table_sz" and "table_sz < 2 ^ 32" and "n = length limits"
  shows "fill_table k i n (4 * n) table_sz (digits limits i) limits
       = Inr (concat (map (digits limits) [i..<i + k]))"
  using assms(1)
proof (induction k arbitrary: i)
  case 0
  show ?case by simp
next
  case (Suc k)
  have "i * n \<le> (i + Suc k) * n" by (rule mult_le_mono1) simp
  with Suc.prems assms(2) have small: "i * n < 2 ^ 32" by linarith
  have "4 * (i * n) + 4 * n \<le> 4 * ((i + Suc k) * n)" by (simp add: algebra_simps)
  from this Suc.prems have "4 * (i * n) + 4 * n \<le> table_sz" by (rule order_trans)
  then have "4 * u32 (i * n) + 4 * n \<le> table_sz" using small by simp
  moreover have "[i..<i + Suc k] = i # [Suc i..<Suc i + k]" using upt_conv_Cons [of i "i + Suc k"] by simp
  moreover have "4 * ((Suc i + k) * n) \<le> table_sz" using Suc.prems by simp
  ultimately show ?case using Suc.IH [of "Suc i"] by (simp add: next_digits)
qed

text \<open>The condition under which no size computation wraps.\<close>

definition table_fits :: "nat list \<Rightarrow> bool" where
  "table_fits limits \<longleftrightarrow> radix_product limits * (4 * length limits) < 2 ^ 32 \<and> radix_product limits < 2 ^ 32"

lemma generate_permutation_table_fits:
  assumes "table_fits (n_values arrs)"
  shows "generate_permutation_table arrs = Inr \<lparr>n_variables = length (n_values arrs),
     n_permutations = radix_product (n_values arrs), var_max_indices = n_values arrs,
     permutations = concat (map (digits (n_values arrs)) [0..<radix_product (n_values arrs)])\<rparr>"
proof -
  let ?ls = "n_values arrs"
  let ?n = "length ?ls" and ?N = "radix_product ?ls"
  have fits: "?N * (4 * ?n) < 2 ^ 32" "?N < 2 ^ 32" using assms by (auto simp: table_fits_def)
  have cnt: "count_permutations ?ls = ?N" using fits(2) by (rule count_permutations_product)
  have "4 * ?n \<le> ?N * (4 * ?n)" using radix_product_pos [of ?ls] by simp
  with fits(1) have "?n * 4 < 2 ^ 32" by linarith
  then have psz: "u32 (?n * 4) = 4 * ?n" by (simp only: u32_id mult.commute)
  have tsz: "u32 (?N * (4 * ?n)) = ?N * (4 * ?n)" using fits(1) by (rule u32_id)
  have "fill_table ?N 0 ?n (4 * ?n) (?N * (4 * ?n)) (digits ?ls 0) ?ls
      = Inr (concat (map (digits ?ls) [0..<0 + ?N]))"
    using fits(1) by (intro fill_table_rows) (simp_all add: algebra_simps)
  then show ?thesis
    by (simp add: generate_permutation_table_def Let_def cnt psz tsz digits_zero)
qed

text \<open>
  Where the number of bytes wraps, some row is written past the end of the allocation. The bytes
  needed are \<open>c * 4n\<close>; the allocation has that number modulo \<open>2 ^ 32\<close>.
\<close>

lemma fill_table_overflow:
  assumes "table_sz < 4 * ((i + k) * n)" and "table_sz < 2 ^ 32"
    and "4 * (i * n) \<le> table_sz"
  shows "fill_table k i n (4 * n) table_sz current limits = Inl Out_Of_Bounds"
  using assms
proof (induction k arbitrary: i current)
  case 0
  then show ?case by simp
next
  case (Suc k)
  then have small: "i * n < 2 ^ 32" by linarith
  show ?case
  proof (cases "4 * (i * n) + 4 * n \<le> table_sz")
    case False
    with small show ?thesis by simp
  next
    case True
    then have "4 * (Suc i * n) \<le> table_sz" by simp
    moreover have "table_sz < 4 * ((Suc i + k) * n)" using Suc.prems(1) by simp
    ultimately have "fill_table k (Suc i) n (4 * n) table_sz (generate_next_permutation current limits) limits
        = Inl Out_Of_Bounds"
      using Suc.IH Suc.prems(2) by blast
    then show ?thesis using True small by simp
  qed
qed

lemma generate_permutation_table_overflow:
  assumes "length (n_values arrs) * 4 < 2 ^ 32"
    and "2 ^ 32 \<le> count_permutations (n_values arrs) * (4 * length (n_values arrs))"
  shows "generate_permutation_table arrs = Inl Out_Of_Bounds"
proof -
  let ?ls = "n_values arrs" and ?n = "length (n_values arrs)"
  let ?c = "count_permutations ?ls"
  have psz: "u32 (?n * 4) = 4 * ?n" using assms(1) by (simp add: mult.commute)
  have "u32 (?c * (4 * ?n)) < ?c * (4 * ?n)" using u32_less assms(2) by (rule order.strict_trans2)
  then have lt: "u32 (?c * (4 * ?n)) < 4 * ((0 + ?c) * ?n)" by (simp only: add_0 mult.left_commute)
  have "fill_table ?c 0 ?n (4 * ?n) (u32 (?c * (4 * ?n))) (replicate ?n 0) ?ls = Inl Out_Of_Bounds"
    using lt u32_less by (intro fill_table_overflow) simp_all
  then show ?thesis by (simp add: generate_permutation_table_def Let_def psz)
qed

section \<open>Variants\<close>

lemma nth_concat_rows:
  assumes "i < length rows" and "j < n" and "\<forall>r\<in>set rows. length r = n"
  shows "concat rows ! (i * n + j) = rows ! i ! j \<and> i * n + j < length (concat rows)"
  using assms
proof (induction rows arbitrary: i)
  case Nil
  then show ?case by simp
next
  case (Cons r rows)
  then show ?case by (cases i) (auto simp: nth_append)
qed

lemma length_concat_rows: "\<forall>r\<in>set rows. length r = n \<Longrightarrow> length (concat rows) = length rows * n"
  by (induction rows) simp_all

definition pick :: "'a list list \<Rightarrow> nat list \<Rightarrow> 'a list" where
  "pick vss is = map (\<lambda>j. vss ! j ! (is ! j)) [0..<length vss]"

text \<open>The row \<open>i\<close> of the table selects one value of every parameter; it faults at an empty one.\<close>

lemma permutation_variant_row:
  fixes vss :: "boxed_value list list"
  defines "ls \<equiv> map length vss"
  defines "perms \<equiv> \<lparr>n_variables = length ls, n_permutations = radix_product ls, var_max_indices = ls,
     permutations = concat (map (digits ls) [0..<radix_product ls])\<rparr>"
  assumes fits: "table_fits ls" and i: "i < radix_product ls"
  shows "permutation_variant perms \<lparr>n_values = ls, arr_values = vss\<rparr> i =
     (if [] \<in> set vss then Inl Out_Of_Bounds else Inr (pick vss (digits ls i)))"
proof -
  let ?N = "radix_product ls" and ?n = "length ls"
  let ?f = "\<lambda>j. rbind (nth_res (permutations perms) (u32 (i * ?n + j))) (\<lambda>p.
      rbind (nth_res vss j) (\<lambda>vs. nth_res vs p))"
  have n: "?n = length vss" by (simp add: ls_def)
  have cell: "concat (map (digits ls) [0..<?N]) ! (i * ?n + j) = digits ls i ! j
      \<and> i * ?n + j < ?N * ?n" if "j < ?n" for j
    using nth_concat_rows [of i "map (digits ls) [0..<?N]" j ?n] i that
      length_concat_rows [of "map (digits ls) [0..<?N]" ?n] by simp
  have bound: "?N * ?n < 2 ^ 32" using fits unfolding table_fits_def by linarith
  have read: "nth_res (permutations perms) (u32 (i * ?n + j)) = Inr (digits ls i ! j)"
      if "j < ?n" for j
  proof -
    from cell [OF that] bound have "i * ?n + j < 2 ^ 32" by (meson order.strict_trans)
    then show ?thesis
      using cell [OF that] length_concat_rows [of "map (digits ls) [0..<?N]" ?n]
      by (simp add: perms_def nth_res_def)
  qed
  have f: "?f j = (if vss ! j = [] then Inl Out_Of_Bounds else Inr (vss ! j ! (digits ls i ! j)))"
    if "j < ?n" for j
    using that read [OF that] digits_nth_less [OF that, of i]
    by (auto simp: ls_def nth_res_def max_def Suc_le_eq split: if_splits)
  show ?thesis
  proof (cases "[] \<in> set vss")
    case False
    then have "?f j = Inr (vss ! j ! (digits ls i ! j))" if "j \<in> set [0..<?n]" for j
      using that f [of j] n by (auto simp: in_set_conv_nth)
    then have "rmap ?f [0..<?n] = Inr (map (\<lambda>j. vss ! j ! (digits ls i ! j)) [0..<?n])"
      by (rule rmap_total)
    with False show ?thesis by (simp add: permutation_variant_def perms_def pick_def n)
  next
    case True
    from True obtain j where j: "j < ?n" "vss ! j = []" by (auto simp: in_set_conv_nth n)
    have "rmap ?f [0..<?n] = Inl Out_Of_Bounds"
    proof (rule rmap_fault)
      show "j \<in> set [0..<?n]" using j(1) by simp
      show "?f j = Inl Out_Of_Bounds" using f [OF j(1)] j(2) by simp
      show "e = Out_Of_Bounds" if "y \<in> set [0..<?n]" "?f y = Inl e" for y e
        using that f [of y] by (auto split: if_splits)
    qed
    with True show ?thesis by (simp add: permutation_variant_def perms_def)
  qed
qed

lemma generate_permutation_variants_fits:
  fixes vss :: "boxed_value list list"
  defines "ls \<equiv> map length vss"
  defines "arrs \<equiv> \<lparr>n_values = ls, arr_values = vss\<rparr>"
  assumes "table_fits ls"
  shows "rbind (generate_permutation_table arrs) (\<lambda>perms. generate_permutation_variants perms arrs) =
     (if [] \<in> set vss then Inl Out_Of_Bounds
      else Inr (rev (map (\<lambda>i. pick vss (digits ls i)) [0..<radix_product ls])))"
proof -
  define perms where "perms = \<lparr>n_variables = length ls, n_permutations = radix_product ls,
     var_max_indices = ls, permutations = concat (map (digits ls) [0..<radix_product ls])\<rparr>"
  have tbl: "generate_permutation_table arrs = Inr perms"
    using generate_permutation_table_fits [of arrs] assms(3) by (simp add: arrs_def perms_def)
  have row: "permutation_variant perms arrs i =
      (if [] \<in> set vss then Inl Out_Of_Bounds else Inr (pick vss (digits ls i)))"
    if "i < radix_product ls" for i
    using permutation_variant_row [of vss i] assms(3) that by (simp add: perms_def arrs_def ls_def)
  have "rmap (permutation_variant perms arrs) [0..<radix_product ls] =
      (if [] \<in> set vss then Inl Out_Of_Bounds
       else Inr (map (\<lambda>i. pick vss (digits ls i)) [0..<radix_product ls]))"
  proof (cases "[] \<in> set vss")
    case True
    have "rmap (permutation_variant perms arrs) [0..<radix_product ls] = Inl Out_Of_Bounds"
    proof (rule rmap_fault)
      show "0 \<in> set [0..<radix_product ls]" using radix_product_pos by simp
      show "permutation_variant perms arrs 0 = Inl Out_Of_Bounds"
        using row [of 0] radix_product_pos True by simp
      show "e = Out_Of_Bounds"
        if "y \<in> set [0..<radix_product ls]" "permutation_variant perms arrs y = Inl e" for y e
        using that row [of y] True by simp
    qed
    with True show ?thesis by simp
  next
    case False
    then have "rmap (permutation_variant perms arrs) [0..<radix_product ls] =
        Inr (map (\<lambda>i. pick vss (digits ls i)) [0..<radix_product ls])"
      by (intro rmap_total) (simp add: row)
    with False show ?thesis by simp
  qed
  then show ?thesis
    by (simp add: tbl generate_permutation_variants_def perms_def)
qed

section \<open>The variants are the Cartesian product\<close>

text \<open>The product in the order of the counter: the first parameter varies fastest.\<close>

fun odometer :: "'a list list \<Rightarrow> 'a list list" where
  "odometer [] = [[]]"
| "odometer (vs # vss) = concat (map (\<lambda>rest. map (\<lambda>v. v # rest) vs) (odometer vss))"

lemma upt_blocks: "[0..<m * n] = concat (map (\<lambda>q. map (\<lambda>a. m * q + a) [0..<m]) [0..<n])"
proof (induction n)
  case (Suc n)
  have "[0..<m * Suc n] = [0..<m * n] @ [m * n..<m * n + m]"
    using upt_add_eq_append [of 0 "m * n" m] by (simp add: add.commute)
  also have "[m * n..<m * n + m] = map (\<lambda>a. m * n + a) [0..<m]"
    by (rule nth_equalityI) simp_all
  finally show ?case by (simp add: Suc.IH)
qed simp

lemma pick_Cons:
  "pick (vs # vss) (i # is) = vs ! i # pick vss is"
  by (rule nth_equalityI) (auto simp: pick_def nth_Cons simp del: upt_Suc split: nat.splits)

lemma pick_digits_odometer:
  assumes "[] \<notin> set vss"
  shows "map (\<lambda>i. pick vss (digits (map length vss) i)) [0..<radix_product (map length vss)] = odometer vss"
  using assms
proof (induction vss)
  case Nil
  show ?case by (simp add: pick_def)
next
  case (Cons vs vss)
  let ?m = "length vs" and ?ls = "map length vss"
  let ?N = "radix_product ?ls" and ?g = "\<lambda>i. pick vss (digits ?ls i)"
  from Cons.prems have pos: "0 < ?m" and max: "max 1 ?m = ?m"
    by (auto simp: Suc_le_eq max_def)
  have IH: "map ?g [0..<?N] = odometer vss" using Cons by simp
  have "map (\<lambda>i. pick (vs # vss) (digits (map length (vs # vss)) i)) [0..<?m * ?N] =
      map (\<lambda>i. vs ! (i mod ?m) # ?g (i div ?m)) [0..<?m * ?N]"
    using max by (simp add: pick_Cons)
  also have "\<dots> = concat (map (\<lambda>q. map (\<lambda>a. vs ! a # ?g q) [0..<?m]) [0..<?N])"
    using pos unfolding upt_blocks map_concat map_map
    by (intro arg_cong [where f = concat] map_cong refl) (simp add: comp_def)
  also have "\<dots> = concat (map (\<lambda>rest. map (\<lambda>v. v # rest) vs) (map ?g [0..<?N]))"
    unfolding map_map comp_def
    by (intro arg_cong [where f = concat] map_cong refl nth_equalityI) simp_all
  finally show ?case using max unfolding IH by simp
qed

lemma mset_concat_swap:
  "mset (concat (map (\<lambda>r. map (\<lambda>x. f x r) xs) rs)) = mset (concat (map (\<lambda>x. map (\<lambda>r. f x r) rs) xs))"
proof (induction rs)
  case Nil
  show ?case by (induction xs) simp_all
next
  case (Cons r rs)
  have "mset (concat (map (\<lambda>x. f x r # map (f x) rs) xs)) =
      mset (map (\<lambda>x. f x r) xs) + mset (concat (map (\<lambda>x. map (f x) rs) xs))"
    by (induction xs) simp_all
  with Cons.IH show ?case by simp
qed

lemma mset_odometer: "mset (odometer vss) = mset (product_lists vss)"
proof (induction vss)
  case Nil
  show ?case by simp
next
  case (Cons vs vss)
  have "mset (odometer (vs # vss)) = mset (concat (map (\<lambda>v. map ((#) v) (odometer vss)) vs))"
    using mset_concat_swap [of "(#)" vs "odometer vss"] by simp
  also have "\<dots> = mset (concat (map (\<lambda>v. map ((#) v) (product_lists vss)) vs))"
    by (induction vs) (simp_all add: Cons.IH)
  finally show ?case by simp
qed

lemma length_odometer: "length (odometer vss) = prod_list (map length vss)"
  by (induction vss) (simp_all add: length_concat comp_def sum_list_triv)

lemma set_odometer: "set (odometer vss) = {vs. list_all2 (\<lambda>v xs. v \<in> set xs) vs vss}"
  using mset_odometer [of vss] product_lists_set [of vss] by (metis set_mset_mset)

lemma all_variants_alt:
  "all_variants params = (let arrs = test_param_list_flatten params in
     rbind (rbind (generate_permutation_table arrs) (\<lambda>perms. generate_permutation_variants perms arrs))
       (\<lambda>variants. Inr (rev variants)))"
  by (cases "generate_permutation_table (test_param_list_flatten params)")
    (simp_all add: all_variants_def Let_def)

lemma all_variants_fits:
  assumes "table_fits (map (\<lambda>p. length (tp_values p)) params)"
  shows "all_variants params = (if [] \<in> tp_values ` set params then Inl Out_Of_Bounds
     else Inr (odometer (map tp_values params)))"
proof -
  let ?vss = "map tp_values params"
  have arrs: "test_param_list_flatten params = \<lparr>n_values = map length ?vss, arr_values = ?vss\<rparr>"
    by (simp add: test_param_list_flatten_def)
  have "table_fits (map length ?vss)" using assms by (simp add: comp_def)
  from generate_permutation_variants_fits [OF this] pick_digits_odometer [of ?vss]
  show ?thesis unfolding all_variants_alt arrs Let_def by auto
qed

lemma all_variants_overflow:
  assumes "length params * 4 < 2 ^ 32"
    and "2 ^ 32 \<le> count_permutations (map (\<lambda>p. length (tp_values p)) params) * (4 * length params)"
  shows "all_variants params = Inl Out_Of_Bounds"
  using generate_permutation_table_overflow [of "test_param_list_flatten params"] assms
  by (simp add: all_variants_def test_param_list_flatten_def)

end
