(* ===== verification/Cli_Text.thy ===== *)
theory Cli_Text
  imports C_Text Permutations
begin

text \<open>
  The parts of \<^verbatim>\<open>blts-common/src/blts_cli_frontend.c\<close> that read and print text: the list of test
  numbers after \<^verbatim>\<open>-e\<close>, the search for a test by name, the line with the result of a test, and the
  help text with the size of its buffer.
\<close>

section \<open>Test cases\<close>

text \<open>
  The module's array of test cases up to the entry whose name is NULL. The function of a case is
  known by its identity.
\<close>

record testcase =
  case_name :: string
  case_func :: nat
  case_timeout :: nat

definition count_tests :: "testcase list \<Rightarrow> nat" where
  "count_tests tcs = length tcs"

fun find_test_loop :: "string \<Rightarrow> testcase list \<Rightarrow> nat option" where
  "find_test_loop name [] = None"
| "find_test_loop name (tc # tcs) =
     (if case_name tc = name then Some 0 else map_option Suc (find_test_loop name tcs))"

definition find_test_by_name :: "testcase list \<Rightarrow> string \<Rightarrow> int" where
  "find_test_by_name tcs name = (case find_test_loop name tcs of None \<Rightarrow> - 1 | Some t \<Rightarrow> int t)"

interpretation test_scan: slot_scan find_test_loop "\<lambda>name tc. case_name tc = name"
proof
  show "find_test_loop k es = Some i \<Longrightarrow>
      i < length es \<and> case_name (es ! i) = k \<and> (\<forall>j<i. case_name (es ! j) \<noteq> k)" for k es i
  proof (induction k es arbitrary: i rule: find_test_loop.induct)
    case (2 name tc tcs)
    show ?case
    proof (cases "case_name tc = name")
      case False
      with "2.prems" obtain j where "find_test_loop name tcs = Some j" "i = Suc j" by auto
      with "2.IH" [OF False] False show ?thesis by (auto simp: nth_Cons less_Suc_eq_0_disj)
    qed (use "2.prems" in auto)
  qed simp
  show "find_test_loop k es = None \<Longrightarrow> \<forall>e\<in>set es. case_name e \<noteq> k" for k es
    by (induction k es rule: find_test_loop.induct) (auto split: if_splits)
qed

lemma find_test_by_name_found:
  assumes "find_test_by_name tcs name = t" and "0 \<le> t"
  shows "nat t < length tcs \<and> case_name (tcs ! nat t) = name \<and> (\<forall>j<nat t. case_name (tcs ! j) \<noteq> name)"
  using assms test_scan.scan_Some [of name tcs] by (auto simp: find_test_by_name_def split: option.splits)

section \<open>The list of test numbers\<close>

definition MAX_ARGS :: nat where "MAX_ARGS = 256"

text \<open>
  \<open>tmp\<close> is the string in the local buffer of 8 characters, \<open>None\<close> while nothing was written to it;
  \<open>i\<close> is the next position and \<open>out\<close> the numbers so far. Each character is followed by a NUL, which
  for the eighth one is past the buffer. A field without characters converts what \<open>tmp\<close> still
  holds. The result is \<open>None\<close> where the code returns 0 at once.
\<close>

definition atoi_tmp :: "string option \<Rightarrow> int res" where
  "atoi_tmp tmp = (case tmp of None \<Rightarrow> Inl Uninitialised | Some s \<Rightarrow> Inr (atoi s))"

fun parse_test_loop :: "string \<Rightarrow> string option \<Rightarrow> nat \<Rightarrow> int list \<Rightarrow> int list option res" where
  "parse_test_loop [] tmp i out =
     (if i \<noteq> 0 then rbind (atoi_tmp tmp) (\<lambda>n. Inr (Some (out @ [n]))) else Inr (Some out))"
| "parse_test_loop (c # cs) tmp i out =
     (if c = CHR '','' then
        rbind (atoi_tmp tmp) (\<lambda>n.
          if length out + 1 \<ge> MAX_ARGS - 1 then Inr (Some (out @ [n]))
          else parse_test_loop cs tmp 0 (out @ [n]))
      else if i \<ge> 8 then Inr None
      else if i + 1 \<ge> 8 then Inl Out_Of_Bounds
      else parse_test_loop cs (Some (take i (case tmp of None \<Rightarrow> [] | Some s \<Rightarrow> s) @ [c])) (i + 1) out)"

text \<open>The numbers, whose count is the return value; none is an invalid argument.\<close>

definition parse_test_list :: "string \<Rightarrow> int list res" where
  "parse_test_list list =
     rbind (parse_test_loop list None 0 []) (\<lambda>r. Inr (case r of None \<Rightarrow> [] | Some out \<Rightarrow> out))"

fun join_comma :: "string list \<Rightarrow> string" where
  "join_comma [] = []"
| "join_comma [x] = x"
| "join_comma (x # y # xs) = x @ CHR '','' # join_comma (y # xs)"

lemma parse_test_digits:
  assumes "\<forall>c\<in>set ds. c \<noteq> CHR '',''" and "i + length ds \<le> 7" and "i = 0 \<or> (\<exists>s. tmp = Some s \<and> length s = i)"
  shows "parse_test_loop (ds @ rest) tmp i out =
     (if ds = [] then parse_test_loop rest tmp i out
      else parse_test_loop rest (Some (take i (case tmp of None \<Rightarrow> [] | Some s \<Rightarrow> s) @ ds)) (i + length ds) out)"
  using assms
proof (induction ds arbitrary: i tmp)
  case Nil
  show ?case by simp
next
  case (Cons d ds)
  let ?s = "take i (case tmp of None \<Rightarrow> [] | Some s \<Rightarrow> s) @ [d]"
  have len: "length ?s = i + 1" using Cons.prems(3) by auto
  have "parse_test_loop ((d # ds) @ rest) tmp i out = parse_test_loop (ds @ rest) (Some ?s) (i + 1) out"
    using Cons.prems by simp
  also have "\<dots> = (if ds = [] then parse_test_loop rest (Some ?s) (i + 1) out
      else parse_test_loop rest (Some (take (i + 1) ?s @ ds)) (i + 1 + length ds) out)"
    using Cons.IH [of "i + 1" "Some ?s"] Cons.prems len by (simp only: option.case) simp
  also have "take (i + 1) ?s = ?s" using len by simp
  finally show ?case by (cases "ds = []") simp_all
qed

lemma show_nat_no_comma: "\<forall>c\<in>set (show_nat n). c \<noteq> CHR '',''"
  using show_nat_digits [of n] by (auto simp: is_digit_def)

lemma parse_test_number:
  assumes "n < 10 ^ 7"
  shows "parse_test_loop (show_nat n @ rest) tmp 0 out =
     parse_test_loop rest (Some (show_nat n)) (length (show_nat n)) out"
  using parse_test_digits [OF show_nat_no_comma, of 0 n tmp rest out] show_nat_length [OF assms]
    show_nat_nonempty [of n] by simp

lemma parse_test_loop_join:
  assumes "ns \<noteq> []" and "\<forall>n\<in>set ns. n < 10 ^ 7" and "length out + length ns \<le> MAX_ARGS - 1"
  shows "parse_test_loop (join_comma (map show_nat ns)) tmp 0 out = Inr (Some (out @ map int ns))"
  using assms
proof (induction ns arbitrary: tmp out rule: list_nonempty_induct)
  case (single n)
  then have "atoi (show_nat n) = int n" by (intro atoi_show_nat) auto
  with single parse_test_number [of n "[]" tmp out] show_nat_nonempty [of n] show ?case
    by (simp add: atoi_tmp_def)
next
  case (cons n ns)
  then have n: "n < 10 ^ 7" "length out + 1 < MAX_ARGS - 1" by (cases ns; simp)+
  then have a: "atoi (show_nat n) = int n" by (intro atoi_show_nat) simp
  obtain m ms where ns: "ns = m # ms" using cons.hyps by (cases ns) auto
  have "parse_test_loop (join_comma (map show_nat (n # ns))) tmp 0 out =
      parse_test_loop (join_comma (map show_nat ns)) (Some (show_nat n)) 0 (out @ [int n])"
    using parse_test_number [OF n(1), of "CHR '','' # join_comma (map show_nat ns)" tmp out] n(2) a
    by (simp add: ns atoi_tmp_def not_le)
  with cons.IH [of "out @ [int n]" "Some (show_nat n)"] cons.prems show ?case by simp
qed

lemma parse_test_list_numbers:
  assumes "ns \<noteq> []" and "\<forall>n\<in>set ns. n < 10 ^ 7" and "length ns \<le> 255"
  shows "parse_test_list (join_comma (map show_nat ns)) = Inr (map int ns)"
  using parse_test_loop_join [OF assms(1,2), of "[]" None] assms(3)
  by (simp add: parse_test_list_def MAX_ARGS_def)

lemma parse_test_loop_length:
  assumes "parse_test_loop cs tmp i out = Inr (Some ns)" and "length out < MAX_ARGS - 1"
  shows "length ns \<le> MAX_ARGS - 1"
  using assms
proof (induction cs tmp i out rule: parse_test_loop.induct)
  case (1 tmp i out)
  then show ?case by (auto split: if_splits)
next
  case (2 c cs tmp i out)
  show ?case
  proof (cases "c = CHR '',''")
    case True
    with "2.prems" obtain n where n: "atoi_tmp tmp = Inr n" by auto
    show ?thesis
    proof (cases "length out + 1 \<ge> MAX_ARGS - 1")
      case True
      with "2.prems" n \<open>c = CHR '',''\<close> show ?thesis by auto
    next
      case False
      with "2.prems" "2.IH"(1) [OF \<open>c = CHR '',''\<close> n False] n \<open>c = CHR '',''\<close> show ?thesis by auto
    qed
  next
    case False
    with "2.prems" have i: "\<not> i \<ge> 8" "\<not> i + 1 \<ge> 8" by (auto split: if_splits)
    with "2.prems" "2.IH"(2) [OF False i] False show ?thesis by simp
  qed
qed

section \<open>The result line\<close>

definition MAX_LOG_LINE_LEN :: nat where "MAX_LOG_LINE_LEN = 89"

definition ESC :: char where "ESC = CHR 0x1B"

definition passed_txt :: string where
  "passed_txt = ''['' @ [ESC] @ ''[32mPASSED'' @ [ESC] @ ''[0m]''"

definition failed_txt :: string where
  "failed_txt = ''['' @ [ESC] @ ''[31mFAILED'' @ [ESC] @ ''[0m]''"

definition result_prefix :: "string \<Rightarrow> int \<Rightarrow> int \<Rightarrow> string" where
  "result_prefix bin_name test_num var_num =
     snprintf 35 (if test_num \<ge> 0 \<and> var_num \<ge> 0
       then bin_name @ ''-'' @ show_int_pad 3 test_num @ ''-'' @ show_int_pad 3 var_num @ '': ''
       else if test_num \<ge> 0 then bin_name @ ''-'' @ show_int_pad 3 test_num @ '':     ''
       else bin_name @ '':         '')"

text \<open>
  The line as the buffer holds it: the prefix, the name cut to what is left, dots up to the full
  length, and the verdict written over the end. Nothing is printed in manual execution.
\<close>

definition result_line :: "string \<Rightarrow> string \<Rightarrow> int \<Rightarrow> int \<Rightarrow> int \<Rightarrow> string" where
  "result_line bin_name name test_num var_num result =
     (let line = result_prefix bin_name test_num var_num;
          line = line @ snprintf (MAX_LOG_LINE_LEN - length line - length passed_txt) name;
          line = line @ replicate (MAX_LOG_LINE_LEN - length line) (CHR ''.'');
          verdict = (if result \<noteq> 0 then failed_txt else passed_txt)
      in take (MAX_LOG_LINE_LEN - length verdict) line @ verdict)"

definition print_test_case_result ::
    "bool \<Rightarrow> string \<Rightarrow> string \<Rightarrow> int \<Rightarrow> int \<Rightarrow> int \<Rightarrow> string list" where
  "print_test_case_result manual_execution bin_name name test_num var_num result =
     (if manual_execution then [] else [result_line bin_name name test_num var_num result @ ''\<newline>''])"

lemma verdict_length: "length passed_txt = 17" "length failed_txt = 17"
  by (simp_all add: passed_txt_def failed_txt_def)

lemma result_prefix_length: "length (result_prefix b t v) \<le> 34"
  by (simp add: result_prefix_def snprintf_def)

lemma result_line_shape:
  "\<exists>dots. result_line b name t v r =
     result_prefix b t v @ take (71 - length (result_prefix b t v)) name @ replicate dots (CHR ''.'')
       @ (if r \<noteq> 0 then failed_txt else passed_txt)
   \<and> length (result_line b name t v r) = MAX_LOG_LINE_LEN \<and> 1 \<le> dots"
proof -
  define p where "p = result_prefix b t v"
  define nm where "nm = take (71 - length p) name"
  have p: "length p \<le> 34" unfolding p_def by (rule result_prefix_length)
  have nm: "length nm \<le> 71 - length p" by (simp add: nm_def)
  have sn: "snprintf (MAX_LOG_LINE_LEN - length p - length passed_txt) name = nm"
    using p by (simp add: snprintf_def nm_def MAX_LOG_LINE_LEN_def verdict_length)
  define dots where "dots = 72 - (length p + length nm)"
  have d: "1 \<le> dots" using p nm by (simp add: dots_def)
  have len: "length p + length nm \<le> 71" using p nm by simp
  have "take 72 (p @ nm @ replicate (89 - (length p + length nm)) (CHR ''.'')) =
      p @ nm @ replicate dots (CHR ''.'')"
    using len by (simp add: dots_def take_replicate min_def)
  then have "result_line b name t v r = p @ nm @ replicate dots (CHR ''.'')
      @ (if r \<noteq> 0 then failed_txt else passed_txt)"
    using sn by (simp add: result_line_def Let_def p_def [symmetric] MAX_LOG_LINE_LEN_def verdict_length)
  moreover have "length p + length nm + dots = 72" using len by (simp add: dots_def)
  ultimately show ?thesis
    using d by (auto simp: p_def nm_def verdict_length MAX_LOG_LINE_LEN_def)
qed

end
