(* ===== verification/Symbol_Table.thy ===== *)
theory Symbol_Table
  imports Boxed_Values
begin

text \<open>
  The symbol table of \<^verbatim>\<open>blts-common/src/blts_params.c\<close> and its entries (\<^verbatim>\<open>blts_params_local.h\<close>): what a
  configuration file defines, the linear lookup and the insertion, set-up and tear-down of the
  table, and the getters for global values. Entries are never removed one by one, so a pointer
  to an entry is its index (\<open>sym_ref\<close>). The getters' contract and the insert/lookup laws are
  stated as the interface \<open>symbol_store\<close>, interpreted on the table.
\<close>

section \<open>Entries\<close>

type_synonym sym_ref = nat

text \<open>A function the test module registered, known by its identity.\<close>

type_synonym fn_ref = nat

record pgroupdef =
  pgroup_params_syms :: "sym_ref list"

datatype param_mode =
    PARAM_MODE_CONSTLIST "boxed_value list"
  | PARAM_MODE_RANGE (low_bound: "boxed_value option") (high_bound: "boxed_value option")
  | PARAM_MODE_GENERATED (generator_fn_name: string) (generator_fn_params_syms: "sym_ref list")

record paramdef =
  pd_type :: config_param_type
  pd_mode :: param_mode

record fixed_value =
  fix_param :: sym_ref
  fix_value :: "boxed_value option"

datatype test_setting =
    TEST_SETTING_PARAMLIST "pgroupdef option"
  | TEST_SETTING_PGROUP sym_ref
  | TEST_SETTING_FIX fixed_value

record testdef =
  settings :: "test_setting option list"
  param_defaults :: "boxed_value list"
  param_tags :: "boxed_value list"
  arg_handler :: "fn_ref option"
  arg_handler2 :: "fn_ref option"

datatype testset_exec = TESTSET_EXEC_SERIAL | TESTSET_EXEC_PARALLEL | TESTSET_EXEC_THREADS

record testsetdef =
  exec_type :: testset_exec
  ts_settings :: "test_setting option list"
  ts_tests :: "sym_ref list"

text \<open>The union of the entry, keyed on its \<^verbatim>\<open>type\<close>.\<close>

datatype symbol_def =
    SYM_TYPE_NONE
  | SYM_TYPE_BOXED_VALUE boxed_value
  | SYM_TYPE_PARAM paramdef
  | SYM_TYPE_PGROUP "pgroupdef option"
  | SYM_TYPE_TEST testdef
  | SYM_TYPE_TESTSET testsetdef
  | SYM_TYPE_GENERATOR_FN fn_ref

record symbol_table_entry =
  sym_key :: string
  sym_def :: symbol_def

text \<open>
  The statics of the file: the table (NULL until set up; its first \<^verbatim>\<open>symbol_table_top\<close> slots, which
  are the used ones) and the flag that a configuration was loaded.
\<close>

record config_state =
  symbol_table :: "symbol_table_entry list option"
  config_load_complete :: bool

definition SYMBOL_TABLE_MAX :: nat where
  "SYMBOL_TABLE_MAX = 1024"

definition initial_config :: config_state where
  "initial_config = \<lparr>symbol_table = None, config_load_complete = False\<rparr>"

definition empty_testdef :: testdef where
  "empty_testdef = \<lparr>settings = [], param_defaults = [], param_tags = [],
     arg_handler = None, arg_handler2 = None\<rparr>"

section \<open>Operations\<close>

definition symbol_table_init :: "config_state \<Rightarrow> config_state" where
  "symbol_table_init st = (case symbol_table st of Some _ \<Rightarrow> st
     | None \<Rightarrow> st\<lparr>symbol_table := Some []\<rparr>)"

definition symbol_table_free :: "config_state \<Rightarrow> config_state" where
  "symbol_table_free st = st\<lparr>symbol_table := None\<rparr>"

fun lookup_loop :: "string \<Rightarrow> symbol_table_entry list \<Rightarrow> nat option" where
  "lookup_loop key [] = None"
| "lookup_loop key (e # es) = (if key = sym_key e then Some 0 else map_option Suc (lookup_loop key es))"

definition symbol_table_lookup :: "config_state \<Rightarrow> string \<Rightarrow> sym_ref option" where
  "symbol_table_lookup st key =
     (case symbol_table st of None \<Rightarrow> None | Some es \<Rightarrow> lookup_loop key es)"

text \<open>Following a pointer to an entry.\<close>

definition sym_at :: "config_state \<Rightarrow> sym_ref \<Rightarrow> symbol_table_entry res" where
  "sym_at st r = (case symbol_table st of None \<Rightarrow> Inl Null_Deref | Some es \<Rightarrow> nth_res es r)"

definition set_sym :: "config_state \<Rightarrow> sym_ref \<Rightarrow> symbol_def \<Rightarrow> config_state" where
  "set_sym st r d = st\<lparr>symbol_table :=
     map_option (\<lambda>es. es[r := (es ! r)\<lparr>sym_def := d\<rparr>]) (symbol_table st)\<rparr>"

text \<open>
  \<^verbatim>\<open>_blts_conf_symbol_table_insert\<close>: full, null entry, duplicate key, then the store through the
  table pointer, which is NULL when nothing set the table up.
\<close>

definition symbol_table_insert ::
    "config_state \<Rightarrow> symbol_table_entry option \<Rightarrow> (config_state \<times> int) res" where
  "symbol_table_insert st e =
     (if length (case symbol_table st of None \<Rightarrow> [] | Some es \<Rightarrow> es) \<ge> SYMBOL_TABLE_MAX then Inr (st, - ENOMEM)
      else (case e of None \<Rightarrow> Inr (st, - EINVAL) | Some e \<Rightarrow>
        if symbol_table_lookup st (sym_key e) \<noteq> None then Inr (st, - EEXIST)
        else (case symbol_table st of None \<Rightarrow> Inl Null_Deref
          | Some es \<Rightarrow> Inr (st\<lparr>symbol_table := Some (es @ [e])\<rparr>, 0))))"

text \<open>
  \<^verbatim>\<open>blts_config_load_from_file\<close>. \<open>parse\<close> is the generated parser run on the file's contents, which
  are \<open>None\<close> when \<^verbatim>\<open>fopen\<close> fails with \<open>open_errno\<close>.
\<close>

definition config_load_from_file ::
    "(config_state \<Rightarrow> string \<Rightarrow> config_state \<times> int) \<Rightarrow> string option \<Rightarrow> int \<Rightarrow> config_state
       \<Rightarrow> config_state \<times> int" where
  "config_load_from_file parse contents open_errno st =
     (case contents of None \<Rightarrow> (st, - open_errno)
      | Some s \<Rightarrow>
          (let st1 = (if symbol_table st = None then symbol_table_init st else st)
           in case parse st1 s of (st2, ret) \<Rightarrow>
             ((if ret = 0 then st2\<lparr>config_load_complete := True\<rparr> else st2), ret)))"

definition config_free :: "config_state \<Rightarrow> config_state \<times> int" where
  "config_free st = ((symbol_table_free st)\<lparr>config_load_complete := False, symbol_table := None\<rparr>, 0)"

section \<open>Getters for global values\<close>

text \<open>
  Each takes the key and whether the caller's result pointer is non-null, and returns the status
  and the value written through the pointer, if any. \<open>config_value\<close> is the part they share: the
  checks of the arguments, the lookup and the test that the symbol is a value.
\<close>

definition config_value :: "config_state \<Rightarrow> string option \<Rightarrow> bool \<Rightarrow> int + boxed_value" where
  "config_value st key value_ok =
     (case key of None \<Rightarrow> Inl (- EINVAL) | Some k \<Rightarrow>
        if \<not> value_ok then Inl (- EINVAL)
        else (case symbol_table_lookup st k of None \<Rightarrow> Inl (- ENOENT) | Some r \<Rightarrow>
          (case sym_at st r of
             Inr e \<Rightarrow> (case sym_def e of SYM_TYPE_BOXED_VALUE v \<Rightarrow> Inr v | _ \<Rightarrow> Inl (- ENOENT))
           | Inl _ \<Rightarrow> Inl (- ENOENT))))"

definition config_get_value_int :: "config_state \<Rightarrow> string option \<Rightarrow> bool \<Rightarrow> int \<times> 32 word option" where
  "config_get_value_int st key value_ok = (case config_value st key value_ok of
       Inl e \<Rightarrow> (e, None)
     | Inr v \<Rightarrow> (case v of
           Boxed_Int w \<Rightarrow> (0, Some (ucast w))
         | Boxed_Long w \<Rightarrow> (0, Some (ucast w))
         | Boxed_Bool w \<Rightarrow> (0, Some (ucast w))
         | _ \<Rightarrow> (- ENOENT, None)))"

text \<open>\<^verbatim>\<open>!! (int) int_val\<close>: the value is cut to an int before it is tested.\<close>

definition config_get_value_bool :: "config_state \<Rightarrow> string option \<Rightarrow> bool \<Rightarrow> int \<times> bool option" where
  "config_get_value_bool st key value_ok = (case config_value st key value_ok of
       Inl e \<Rightarrow> (e, None)
     | Inr v \<Rightarrow> (case v of
           Boxed_Int w \<Rightarrow> (0, Some ((ucast w :: 32 word) \<noteq> 0))
         | Boxed_Long w \<Rightarrow> (0, Some ((ucast w :: 32 word) \<noteq> 0))
         | Boxed_Bool w \<Rightarrow> (0, Some ((ucast w :: 32 word) \<noteq> 0))
         | _ \<Rightarrow> (- ENOENT, None)))"

definition config_get_value_long :: "config_state \<Rightarrow> string option \<Rightarrow> bool \<Rightarrow> int \<times> 64 word option" where
  "config_get_value_long st key value_ok = (case config_value st key value_ok of
       Inl e \<Rightarrow> (e, None)
     | Inr v \<Rightarrow> (case v of
           Boxed_Int w \<Rightarrow> (0, Some w)
         | Boxed_Long w \<Rightarrow> (0, Some w)
         | Boxed_Bool w \<Rightarrow> (0, Some w)
         | _ \<Rightarrow> (- ENOENT, None)))"

definition config_get_value_float :: "config_state \<Rightarrow> string option \<Rightarrow> bool \<Rightarrow> int \<times> single option" where
  "config_get_value_float st key value_ok = (case config_value st key value_ok of
       Inl e \<Rightarrow> (e, None)
     | Inr v \<Rightarrow> (case v of
           Boxed_Float w \<Rightarrow> (0, Some (dbl_to_single w))
         | Boxed_Double w \<Rightarrow> (0, Some (dbl_to_single w))
         | _ \<Rightarrow> (- ENOENT, None)))"

definition config_get_value_double :: "config_state \<Rightarrow> string option \<Rightarrow> bool \<Rightarrow> int \<times> double option" where
  "config_get_value_double st key value_ok = (case config_value st key value_ok of
       Inl e \<Rightarrow> (e, None)
     | Inr v \<Rightarrow> (case v of
           Boxed_Float w \<Rightarrow> (0, Some w)
         | Boxed_Double w \<Rightarrow> (0, Some w)
         | _ \<Rightarrow> (- ENOENT, None)))"

definition config_get_value_string :: "config_state \<Rightarrow> string option \<Rightarrow> bool \<Rightarrow> int \<times> string option" where
  "config_get_value_string st key value_ok = (case config_value st key value_ok of
       Inl e \<Rightarrow> (e, None)
     | Inr v \<Rightarrow> (case v of Boxed_String s \<Rightarrow> (0, Some s) | _ \<Rightarrow> (- ENOENT, None)))"

lemmas config_get_value_defs = config_get_value_int_def config_get_value_bool_def
  config_get_value_long_def config_get_value_float_def config_get_value_double_def
  config_get_value_string_def

section \<open>Invariant and laws\<close>

text \<open>The table is within its bound and its keys are pairwise distinct.\<close>

definition symtab_ok :: "config_state \<Rightarrow> bool" where
  "symtab_ok st \<longleftrightarrow> (case symbol_table st of None \<Rightarrow> True
     | Some es \<Rightarrow> length es \<le> SYMBOL_TABLE_MAX \<and> distinct (map sym_key es))"

abbreviation entries :: "config_state \<Rightarrow> symbol_table_entry list" where
  "entries st \<equiv> (case symbol_table st of None \<Rightarrow> [] | Some es \<Rightarrow> es)"

interpretation sym_scan: slot_scan lookup_loop "\<lambda>k e. k = sym_key e"
proof
  show "lookup_loop k es = Some i \<Longrightarrow>
      i < length es \<and> k = sym_key (es ! i) \<and> (\<forall>j<i. k \<noteq> sym_key (es ! j))" for k es i
  proof (induction k es arbitrary: i rule: lookup_loop.induct)
    case (2 key e es)
    show ?case
    proof (cases "key = sym_key e")
      case False
      with "2.prems" obtain j where "lookup_loop key es = Some j" "i = Suc j" by auto
      with "2.IH" [OF False] False show ?thesis by (auto simp: nth_Cons less_Suc_eq_0_disj)
    qed (use "2.prems" in auto)
  qed simp
  show "lookup_loop k es = None \<Longrightarrow> \<forall>e\<in>set es. k \<noteq> sym_key e" for k es
    by (induction k es rule: lookup_loop.induct) (auto split: if_splits)
qed

lemma symbol_table_lookup_Some:
  "symbol_table_lookup st k = Some r \<Longrightarrow> \<exists>e. sym_at st r = Inr e \<and> sym_key e = k"
  by (auto simp: symbol_table_lookup_def sym_at_def nth_res_eq_Inr split: option.splits
      dest: sym_scan.scan_Some)

lemma symbol_table_lookup_index:
  assumes "symbol_table st = Some es" and "i < length es" and "symtab_ok st"
  shows "symbol_table_lookup st (sym_key (es ! i)) = Some i"
proof -
  from assms have "distinct (map sym_key es)" by (simp add: symtab_ok_def)
  with assms(2) have "j < i \<Longrightarrow> sym_key (es ! i) \<noteq> sym_key (es ! j)" for j
    using nth_eq_iff_index_eq [of "map sym_key es" i j] by auto
  then have "lookup_loop (sym_key (es ! i)) es = Some i"
    using assms(2) by (intro sym_scan.scan_eqI) auto
  with assms(1) show ?thesis by (simp add: symbol_table_lookup_def)
qed

lemma symbol_table_init_ok: "symtab_ok st \<Longrightarrow> symtab_ok (symbol_table_init st)"
  by (simp add: symtab_ok_def symbol_table_init_def split: option.splits)

lemma symbol_table_insert_inv:
  assumes "symbol_table_insert st e = Inr (st', ret)"
  shows "(ret = 0 \<and> (\<exists>es x. e = Some x \<and> symbol_table st = Some es \<and> lookup_loop (sym_key x) es = None
             \<and> length es < SYMBOL_TABLE_MAX \<and> st' = st\<lparr>symbol_table := Some (es @ [x])\<rparr>))
       \<or> (ret < 0 \<and> st' = st)"
  using assms by (auto simp: symbol_table_insert_def symbol_table_lookup_def split: if_splits option.splits)

lemma symbol_table_insert_ok:
  assumes "symtab_ok st" and "symbol_table_insert st e = Inr (st', ret)"
  shows "symtab_ok st'"
proof -
  have new: "lookup_loop k es = None \<Longrightarrow> k \<notin> sym_key ` set es" for k es
    using sym_scan.scan_None [of k es] by auto
  from symbol_table_insert_inv [OF assms(2)] show ?thesis
    using assms(1) new by (auto simp: symtab_ok_def)
qed

section \<open>The store as an interface\<close>

text \<open>
  What the declaration and generation code relies on: a successful insertion makes the entry
  findable under its key and changes no other key; it succeeds exactly when there is room and
  the key is new, and a refused insertion changes nothing.
\<close>

locale symbol_store =
  fixes find :: "'s \<Rightarrow> 'k \<Rightarrow> 'e option"
    and insert_entry :: "'s \<Rightarrow> 'e \<Rightarrow> ('s \<times> int) res"
    and key :: "'e \<Rightarrow> 'k"
    and room :: "'s \<Rightarrow> nat"
    and ok :: "'s \<Rightarrow> bool"
  assumes insert_new: "ok s \<Longrightarrow> find s (key e) = None \<Longrightarrow> 0 < room s \<Longrightarrow>
      \<exists>t. insert_entry s e = Inr (t, 0) \<and> ok t \<and> find t = (find s)(key e \<mapsto> e) \<and> Suc (room t) = room s"
    and insert_refused: "ok s \<Longrightarrow> find s (key e) \<noteq> None \<or> room s = 0 \<Longrightarrow>
      \<exists>ret. insert_entry s e = Inr (s, ret) \<and> ret < 0"
begin

primrec insert_all :: "'s \<Rightarrow> 'e list \<Rightarrow> 's res" where
  "insert_all s [] = Inr s"
| "insert_all s (e # es) = rbind (insert_entry s e) (\<lambda>(t, _). insert_all t es)"

lemma insert_all_finds:
  assumes "ok s" and "distinct (map key es)" and "\<forall>e\<in>set es. find s (key e) = None"
    and "length es \<le> room s"
  shows "\<exists>t. insert_all s es = Inr t \<and> ok t \<and> find t = find s ++ map_of (map (\<lambda>e. (key e, e)) es)"
  using assms
proof (induction es arbitrary: s)
  case Nil
  then show ?case by simp
next
  case (Cons e es)
  then obtain t where t: "insert_entry s e = Inr (t, 0)" "ok t" "find t = (find s)(key e \<mapsto> e)"
      "Suc (room t) = room s"
    using insert_new [of s e] by auto
  have "\<forall>x\<in>set es. key x \<noteq> key e" using Cons.prems(2) by (auto simp: image_iff)
  then have "\<forall>x\<in>set es. find t (key x) = None" using Cons.prems(3) by (simp add: t(3))
  with Cons.IH [of t] Cons.prems(2,4) t(2,4) obtain u where
    u: "insert_all t es = Inr u" "ok u" "find u = find t ++ map_of (map (\<lambda>e. (key e, e)) es)"
    by auto
  have "key e \<notin> dom (map_of (map (\<lambda>e. (key e, e)) es))"
    using Cons.prems(2) by (auto simp: dom_map_of_conv_image_fst image_image)
  then have "find u = find s ++ map_of (map (\<lambda>e. (key e, e)) (e # es))"
    unfolding u(3) t(3) by (auto simp: map_add_def fun_eq_iff domIff split: option.splits)
  moreover have "insert_all s (e # es) = Inr u" using t(1) u(1) by simp
  ultimately show ?case using u(2) by blast
qed

lemma insert_twice_refused:
  assumes "ok s" and "find s (key e) = None" and "0 < room s" and "key e' = key e"
  shows "\<exists>t ret. insert_entry s e = Inr (t, 0) \<and> insert_entry t e' = Inr (t, ret) \<and> ret < 0"
  using insert_new [OF assms(1-3)] insert_refused assms(4) by fastforce

end

definition find_entry :: "config_state \<Rightarrow> string \<Rightarrow> symbol_table_entry option" where
  "find_entry st k = map_option (\<lambda>r. entries st ! r) (symbol_table_lookup st k)"

interpretation symtab: symbol_store find_entry "\<lambda>st e. symbol_table_insert st (Some e)" sym_key
  "\<lambda>st. SYMBOL_TABLE_MAX - length (entries st)"
  "\<lambda>st. symtab_ok st \<and> symbol_table st \<noteq> None"
proof
  fix s :: config_state and e :: symbol_table_entry
  assume ok: "symtab_ok s \<and> symbol_table s \<noteq> None" and none: "find_entry s (sym_key e) = None"
    and room: "0 < SYMBOL_TABLE_MAX - length (entries s)"
  then obtain es where es: "symbol_table s = Some es" by auto
  define t where "t = s\<lparr>symbol_table := Some (es @ [e])\<rparr>"
  have ins: "symbol_table_insert s (Some e) = Inr (t, 0)"
    using none room by (auto simp: symbol_table_insert_def es t_def find_entry_def)
  moreover have "symtab_ok t" using symbol_table_insert_ok ok ins by blast
  moreover have "find_entry t = (find_entry s)(sym_key e \<mapsto> e)"
  proof
    fix k
    show "find_entry t k = ((find_entry s)(sym_key e \<mapsto> e)) k"
      using none sym_scan.scan_bound [of k es]
      by (auto simp: find_entry_def symbol_table_lookup_def es t_def sym_scan.scan_append nth_append
          split: option.splits)
  qed
  ultimately show "\<exists>t. symbol_table_insert s (Some e) = Inr (t, 0) \<and>
      (symtab_ok t \<and> symbol_table t \<noteq> None) \<and> find_entry t = (find_entry s)(sym_key e \<mapsto> e) \<and>
      Suc (SYMBOL_TABLE_MAX - length (entries t)) = SYMBOL_TABLE_MAX - length (entries s)"
    using room by (auto simp: t_def es)
next
  fix s :: config_state and e :: symbol_table_entry
  assume "symtab_ok s \<and> symbol_table s \<noteq> None"
    and "find_entry s (sym_key e) \<noteq> None \<or> SYMBOL_TABLE_MAX - length (entries s) = 0"
  then show "\<exists>ret. symbol_table_insert s (Some e) = Inr (s, ret) \<and> ret < 0"
    by (auto simp: symbol_table_insert_def find_entry_def split: option.splits)
qed

lemma config_value_find:
  "config_value st (Some k) True = (case find_entry st k of
     Some e \<Rightarrow> (case sym_def e of SYM_TYPE_BOXED_VALUE v \<Rightarrow> Inr v | _ \<Rightarrow> Inl (- ENOENT))
   | None \<Rightarrow> Inl (- ENOENT))"
proof (cases "symbol_table_lookup st k")
  case None
  then show ?thesis by (simp add: config_value_def find_entry_def)
next
  case (Some r)
  then obtain e where e: "sym_at st r = Inr e" using symbol_table_lookup_Some by blast
  then have "entries st ! r = e"
    by (auto simp: sym_at_def nth_res_eq_Inr split: option.splits)
  with Some e show ?thesis by (simp add: config_value_def find_entry_def)
qed

lemma symbol_table_insert_null:
  "symbol_table st = None \<Longrightarrow> symbol_table_insert st (Some e) = Inl Null_Deref"
  by (simp add: symbol_table_insert_def symbol_table_lookup_def SYMBOL_TABLE_MAX_def)

text \<open>How updating the union of one entry in place changes what is found.\<close>

lemma symbol_table_set_sym [simp]:
  "config_load_complete (set_sym st r d) = config_load_complete st"
  "(symbol_table (set_sym st r d) = None) = (symbol_table st = None)"
  by (simp_all add: set_sym_def)

lemma lookup_set_sym [simp]:
  assumes "\<And>es. symbol_table st = Some es \<Longrightarrow> r < length es"
  shows "symbol_table_lookup (set_sym st r d) k = symbol_table_lookup st k"
  using assms by (auto simp: symbol_table_lookup_def set_sym_def sym_scan.scan_update_other
      split: option.splits)

lemma sym_at_set_sym:
  assumes "sym_at st r = Inr e"
  shows "sym_at (set_sym st r d) r' =
    (if r' = r then Inr (e\<lparr>sym_def := d\<rparr>) else sym_at st r')"
  using assms by (auto simp: sym_at_def set_sym_def nth_res_def split: option.splits)

lemma symtab_ok_set_sym: "symtab_ok st \<Longrightarrow> symtab_ok (set_sym st r d)"
proof -
  have "map sym_key (es[r := (es ! r)\<lparr>sym_def := d\<rparr>]) = map sym_key es" for es :: "symbol_table_entry list"
    by (cases "r < length es") (simp_all add: map_update list_update_same_conv list_update_beyond)
  then show "symtab_ok st \<Longrightarrow> symtab_ok (set_sym st r d)"
    by (auto simp: symtab_ok_def set_sym_def split: option.splits)
qed

end
