(* ===== verification/Symbol_Dump.thy ===== *)
theory Symbol_Dump
  imports Symbol_Table
begin

text \<open>
  The trace dump of the symbol table, \<^verbatim>\<open>blts-common/src/blts_params.c\<close>: one function per kind of
  definition, each giving the sequence of messages it logs. References to other entries are
  followed to print their keys, so a dump can fault on a table with dangling references;
  \<open>refs_ok\<close> is the condition under which it does not.
\<close>

section \<open>Messages\<close>

definition newline_tab :: string where
  "newline_tab = [CHR 0x0A, CHR 0x09]"

definition key_at :: "config_state \<Rightarrow> sym_ref \<Rightarrow> string res" where
  "key_at st r = rbind (sym_at st r) (\<lambda>e. Inr (sym_key e))"

definition dump_boxed_value :: "boxed_value option \<Rightarrow> string list" where
  "dump_boxed_value v = [dump_boxed_value_level v]"

definition dump_param_generated_args ::
    "config_state \<Rightarrow> string \<Rightarrow> sym_ref list \<Rightarrow> string list res" where
  "dump_param_generated_args st fname syms =
     rbind (rmap (\<lambda>r. rbind (key_at st r) (\<lambda>k. Inr ('' '' @ k))) syms) (\<lambda>ks. Inr (fname # ks))"

definition dump_paramdef :: "config_state \<Rightarrow> paramdef \<Rightarrow> string list res" where
  "dump_paramdef st p = (case pd_mode p of
       PARAM_MODE_CONSTLIST vs \<Rightarrow> Inr (''const '' # dump_boxed_value_list vs)
     | PARAM_MODE_RANGE low high \<Rightarrow>
         Inr ([''range ('', dump_type (pd_type p), '') ''] @ dump_boxed_value low @ [''..'']
              @ dump_boxed_value high)
     | PARAM_MODE_GENERATED fname syms \<Rightarrow>
         rbind (dump_param_generated_args st fname syms) (\<lambda>m. Inr (''generated '' # m)))"

definition dump_pgroupdef :: "config_state \<Rightarrow> pgroupdef option \<Rightarrow> string list res" where
  "dump_pgroupdef st p = (case p of None \<Rightarrow> Inr [''(nil)'']
     | Some g \<Rightarrow> rmap (\<lambda>r. rbind (key_at st r) (\<lambda>k. Inr ('' '' @ k))) (pgroup_params_syms g))"

definition dump_fixed_value :: "config_state \<Rightarrow> fixed_value \<Rightarrow> string list res" where
  "dump_fixed_value st v =
     rbind (key_at st (fix_param v)) (\<lambda>k. Inr ((k @ '' '') # dump_boxed_value (fix_value v)))"

definition dump_test_setting :: "config_state \<Rightarrow> test_setting option \<Rightarrow> string list res" where
  "dump_test_setting st s = (case s of None \<Rightarrow> Inr [''(nil)''] | Some x \<Rightarrow>
     (case x of
        TEST_SETTING_PARAMLIST pg \<Rightarrow>
          rbind (dump_pgroupdef st pg) (\<lambda>m. Inr (''param '' # m))
      | TEST_SETTING_PGROUP r \<Rightarrow> rbind (key_at st r) (\<lambda>k. Inr [''pgroup '', k])
      | TEST_SETTING_FIX fv \<Rightarrow> rbind (dump_fixed_value st fv) (\<lambda>m. Inr (''fix '' # m))))"

text \<open>The loop over the settings, which tests and test sets share.\<close>

definition dump_settings :: "config_state \<Rightarrow> test_setting option list \<Rightarrow> string list res" where
  "dump_settings st ss =
     rbind (rmap (\<lambda>s. rbind (dump_test_setting st s) (\<lambda>m. Inr (newline_tab # m))) ss) (\<lambda>ms. Inr (concat ms))"

fun dump_defaults_loop :: "boxed_value list \<Rightarrow> string list" where
  "dump_defaults_loop [] = []"
| "dump_defaults_loop (v # vs) = dump_boxed_value (Some v) @ ['' :: '', dump_type (bv_type v)]
     @ (if vs = [] then [] else ['', '']) @ dump_defaults_loop vs"

text \<open>\<open>ptr_text\<close> is what \<^verbatim>\<open>%p\<close> prints for a function pointer.\<close>

definition dump_testdef ::
    "(fn_ref option \<Rightarrow> string) \<Rightarrow> config_state \<Rightarrow> testdef \<Rightarrow> string list res" where
  "dump_testdef ptr_text st t =
     rbind (dump_settings st (settings t)) (\<lambda>ss.
       Inr ((if settings t = [] then [''()''] else []) @ ss
         @ [''\<newline>  Test declaration:'', newline_tab @ ''Param tags: ''] @ dump_boxed_value_list (param_tags t)
         @ [newline_tab @ ''Param defaults and types: ['']
         @ dump_defaults_loop (param_defaults t)
         @ ['']'' @ newline_tab @ ''Arg handler: '' @ ptr_text (arg_handler t) @ ''\<newline>'']))"

definition dump_testsetdef :: "config_state \<Rightarrow> testsetdef \<Rightarrow> string list res" where
  "dump_testsetdef st t =
     rbind (dump_settings st (ts_settings t)) (\<lambda>ss.
     rbind (rmap (\<lambda>r. rbind (key_at st r) (\<lambda>k. Inr ('' \"'' @ k @ ''\"''))) (ts_tests t)) (\<lambda>ks.
       Inr ((if ts_settings t \<noteq> [] then [''\<newline>  Settings:''] else []) @ ss
         @ [case exec_type t of
              TESTSET_EXEC_SERIAL \<Rightarrow> ''\<newline>  serial''
            | TESTSET_EXEC_PARALLEL \<Rightarrow> ''\<newline>  parallel''
            | TESTSET_EXEC_THREADS \<Rightarrow> ''\<newline>  threads'']
         @ ks)))"

definition dump_generator_fn :: "fn_ref \<Rightarrow> string list" where
  "dump_generator_fn g = [''(func)'']"

definition dump_symbol ::
    "(fn_ref option \<Rightarrow> string) \<Rightarrow> config_state \<Rightarrow> symbol_def \<Rightarrow> string list res" where
  "dump_symbol ptr_text st d = (case d of
       SYM_TYPE_NONE \<Rightarrow> Inr [''(NO TYPE)\<newline>'']
     | SYM_TYPE_BOXED_VALUE v \<Rightarrow>
         Inr ([dump_type (bv_type v), '' = ''] @ dump_boxed_value (Some v) @ [''\<newline>''])
     | SYM_TYPE_PARAM p \<Rightarrow>
         rbind (dump_paramdef st p) (\<lambda>m. Inr ([''param = ''] @ m @ [''\<newline>'']))
     | SYM_TYPE_PGROUP p \<Rightarrow>
         rbind (dump_pgroupdef st p) (\<lambda>m. Inr ([''pgroup =''] @ m @ [''\<newline>'']))
     | SYM_TYPE_TEST t \<Rightarrow>
         rbind (dump_testdef ptr_text st t) (\<lambda>m. Inr ([''test = ''] @ m @ [''\<newline>'']))
     | SYM_TYPE_TESTSET t \<Rightarrow>
         rbind (dump_testsetdef st t) (\<lambda>m. Inr ([''testset = ''] @ m @ [''\<newline>'']))
     | SYM_TYPE_GENERATOR_FN g \<Rightarrow> Inr ([''generator_fn = ''] @ dump_generator_fn g @ [''\<newline>'']))"

text \<open>The slots above the top are NULL and skipped.\<close>

fun dump_entries_loop ::
    "(fn_ref option \<Rightarrow> string) \<Rightarrow> config_state \<Rightarrow> nat \<Rightarrow> symbol_table_entry list \<Rightarrow> string list res" where
  "dump_entries_loop ptr_text st i [] = Inr []"
| "dump_entries_loop ptr_text st i (e # es) =
     rbind (dump_symbol ptr_text st (sym_def e)) (\<lambda>m.
     rbind (dump_entries_loop ptr_text st (Suc i) es) (\<lambda>rest.
       Inr ((''('' @ show_nat i @ '') '' @ sym_key e @ '' :: '') # m @ rest)))"

definition dump_symbol_table :: "(fn_ref option \<Rightarrow> string) \<Rightarrow> config_state \<Rightarrow> string list res" where
  "dump_symbol_table ptr_text st =
     rbind (deref (symbol_table st)) (\<lambda>es.
     rbind (dump_entries_loop ptr_text st 0 es) (\<lambda>m.
       Inr ([''********* Symbol table contents:\<newline>''] @ m @ [''*********\<newline>''])))"

section \<open>References between entries\<close>

fun setting_refs :: "test_setting option \<Rightarrow> sym_ref list" where
  "setting_refs None = []"
| "setting_refs (Some (TEST_SETTING_PARAMLIST pg)) =
     (case pg of None \<Rightarrow> [] | Some g \<Rightarrow> pgroup_params_syms g)"
| "setting_refs (Some (TEST_SETTING_PGROUP r)) = [r]"
| "setting_refs (Some (TEST_SETTING_FIX fv)) = [fix_param fv]"

fun symbol_refs :: "symbol_def \<Rightarrow> sym_ref list" where
  "symbol_refs (SYM_TYPE_PARAM p) =
     (case pd_mode p of PARAM_MODE_GENERATED _ syms \<Rightarrow> syms | _ \<Rightarrow> [])"
| "symbol_refs (SYM_TYPE_PGROUP pg) = (case pg of None \<Rightarrow> [] | Some g \<Rightarrow> pgroup_params_syms g)"
| "symbol_refs (SYM_TYPE_TEST t) = concat (map setting_refs (settings t))"
| "symbol_refs (SYM_TYPE_TESTSET t) = concat (map setting_refs (ts_settings t)) @ ts_tests t"
| "symbol_refs _ = []"

definition refs_ok :: "config_state \<Rightarrow> bool" where
  "refs_ok st \<longleftrightarrow> (\<forall>e\<in>set (entries st). \<forall>r\<in>set (symbol_refs (sym_def e)). r < length (entries st))"

lemma key_at_total:
  assumes "r < length (entries st)"
  shows "\<exists>k. key_at st r = Inr k"
  using assms by (auto simp: key_at_def sym_at_def split: option.splits)

lemma rmap_some:
  assumes "\<And>x. x \<in> set xs \<Longrightarrow> \<exists>y. f x = Inr y"
  shows "\<exists>ys. rmap f xs = Inr ys"
  using assms by (induction xs) fastforce+

lemma rmap_keys_total:
  assumes "\<forall>r\<in>set rs. r < length (entries st)"
  shows "\<exists>ys. rmap (\<lambda>r. rbind (key_at st r) (\<lambda>k. Inr (f k))) rs = Inr ys"
  by (rule rmap_some) (use assms key_at_total in fastforce)

lemma dump_pgroupdef_total:
  assumes "\<forall>r\<in>set (case pg of None \<Rightarrow> [] | Some g \<Rightarrow> pgroup_params_syms g). r < length (entries st)"
  shows "\<exists>m. dump_pgroupdef st pg = Inr m"
  using assms rmap_keys_total [of _ st "\<lambda>k. '' '' @ k"] by (cases pg) (auto simp: dump_pgroupdef_def)

lemma dump_test_setting_total:
  assumes "\<forall>r\<in>set (setting_refs s). r < length (entries st)"
  shows "\<exists>m. dump_test_setting st s = Inr m"
  using assms dump_pgroupdef_total key_at_total
  by (cases s rule: setting_refs.cases)
    (fastforce simp: dump_test_setting_def dump_fixed_value_def)+

lemma dump_settings_total:
  assumes "\<forall>r\<in>set (concat (map setting_refs ss)). r < length (entries st)"
  shows "\<exists>m. dump_settings st ss = Inr m"
proof -
  have "\<exists>ms. rmap (\<lambda>s. rbind (dump_test_setting st s) (\<lambda>m. Inr (newline_tab # m))) ss = Inr ms"
  proof (rule rmap_some)
    fix s assume "s \<in> set ss"
    with assms have "\<forall>r\<in>set (setting_refs s). r < length (entries st)" by auto
    from dump_test_setting_total [OF this]
    show "\<exists>y. rbind (dump_test_setting st s) (\<lambda>m. Inr (newline_tab # m)) = Inr y" by auto
  qed
  then show ?thesis by (auto simp: dump_settings_def)
qed

lemma dump_symbol_total:
  assumes "\<forall>r\<in>set (symbol_refs d). r < length (entries st)"
  shows "\<exists>m. dump_symbol ptr_text st d = Inr m"
proof (cases d)
  case (SYM_TYPE_PARAM p)
  then show ?thesis
    using assms rmap_keys_total [of _ st "\<lambda>k. '' '' @ k"]
    by (auto simp: dump_symbol_def dump_paramdef_def dump_param_generated_args_def split: param_mode.splits)
next
  case (SYM_TYPE_PGROUP pg)
  with assms dump_pgroupdef_total [of pg st] show ?thesis by (auto simp: dump_symbol_def)
next
  case (SYM_TYPE_TEST t)
  with assms dump_settings_total [of "settings t" st] show ?thesis
    by (auto simp: dump_symbol_def dump_testdef_def)
next
  case (SYM_TYPE_TESTSET t)
  with assms dump_settings_total [of "ts_settings t" st]
    rmap_keys_total [of "ts_tests t" st "\<lambda>k. '' \"'' @ k @ ''\"''"] show ?thesis
    by (auto simp: dump_symbol_def dump_testsetdef_def)
qed (simp_all add: dump_symbol_def)

lemma dump_symbol_table_returns:
  assumes "symbol_table st \<noteq> None" and "refs_ok st"
  shows "\<exists>m. dump_symbol_table ptr_text st = Inr m"
proof -
  from assms(1) obtain es where es: "symbol_table st = Some es" by blast
  have "\<forall>e\<in>set xs. \<forall>r\<in>set (symbol_refs (sym_def e)). r < length (entries st) \<Longrightarrow>
      \<exists>m. dump_entries_loop ptr_text st i xs = Inr m" for xs i
    by (induction xs arbitrary: i) (use dump_symbol_total in fastforce)+
  then have "\<exists>m. dump_entries_loop ptr_text st 0 es = Inr m"
    using assms(2) es by (auto simp: refs_ok_def)
  with es show ?thesis by (auto simp: dump_symbol_table_def)
qed

end
