(* ===== verification/Variation.thy ===== *)
theory Variation
  imports Symbol_Table Permutations
begin

text \<open>
  Test parameter variation, \<^verbatim>\<open>blts-common/src/blts_params.c\<close>: which parameters a test has, the
  values each can take in the chosen variation style, and the list of variants a test is run
  with. Generating functions are user code: \<open>gen\<close> maps the identity of a registered function to
  what it returns for an argument list (\<open>None\<close> is NULL). Parameters may be generated from other
  parameters, so the generator recurses over the symbol table; \<open>fuel\<close> bounds the C stack and
  running out of it is \<open>Stack_Overflow\<close>. In a table whose generated parameters refer only to
  entries defined before them, as the parser builds it, a stack as deep as the parameter's index
  is enough.
\<close>

type_synonym generators = "fn_ref \<Rightarrow> boxed_value list \<Rightarrow> boxed_value option"

text \<open>The codes of \<^verbatim>\<open>enum config_variation_mode\<close>, and any other int.\<close>

datatype variation_style =
    CONFIG_VARIATION_COMBINATIONS
  | CONFIG_VARIATION_ALLPAIRS
  | CONFIG_VARIATION_FIRST
  | CONFIG_VARIATION_LAST
  | CONFIG_VARIATION_UNKNOWN int

section \<open>Parameters of a test\<close>

text \<open>
  The loop over the settings of a test. The accumulators are the three lists the code builds in
  reverse: the parameters, the fixed parameters and the fixed values. A setting that names a
  group follows \<^verbatim>\<open>pgroup->pgroup_definition\<close> without looking at the type of that symbol.
\<close>

type_synonym collected = "sym_ref list \<times> sym_ref list \<times> boxed_value list"

definition add_pgroup :: "pgroupdef option \<Rightarrow> collected \<Rightarrow> int + collected" where
  "add_pgroup pgroup acc = (case pgroup of None \<Rightarrow> Inl (- EINVAL)
     | Some g \<Rightarrow> (case acc of (ps, fs, vs) \<Rightarrow> Inr (reverse_loop (pgroup_params_syms g) ps, fs, vs)))"

fun collect_loop :: "config_state \<Rightarrow> test_setting option list \<Rightarrow> collected \<Rightarrow> (int + collected) res" where
  "collect_loop st [] acc = Inr (Inr acc)"
| "collect_loop st (None # ss) acc = Inr (Inl (- EINVAL))"
| "collect_loop st (Some (TEST_SETTING_PARAMLIST pg) # ss) acc =
     (case add_pgroup pg acc of Inl e \<Rightarrow> Inr (Inl e) | Inr acc' \<Rightarrow> collect_loop st ss acc')"
| "collect_loop st (Some (TEST_SETTING_PGROUP r) # ss) acc =
     rbind (sym_at st r) (\<lambda>e. case sym_def e of
         SYM_TYPE_PGROUP pg \<Rightarrow>
           (case add_pgroup pg acc of Inl e \<Rightarrow> Inr (Inl e) | Inr acc' \<Rightarrow> collect_loop st ss acc')
       | _ \<Rightarrow> Inl Type_Confusion)"
| "collect_loop st (Some (TEST_SETTING_FIX fv) # ss) acc =
     rbind (deref (fix_value fv)) (\<lambda>v. case acc of (ps, fs, vs) \<Rightarrow>
       collect_loop st ss (ps, fix_param fv # fs, v # vs))"

definition collect_test_params :: "config_state \<Rightarrow> string \<Rightarrow> (int + collected) res" where
  "collect_test_params st testname =
     (case symbol_table_lookup st testname of None \<Rightarrow> Inr (Inl (- ENOENT)) | Some r \<Rightarrow>
        rbind (sym_at st r) (\<lambda>sym. case sym_def sym of
            SYM_TYPE_TEST test \<Rightarrow>
              if settings test = [] then Inr (Inl (- ENOENT))
              else rbind (collect_loop st (settings test) ([], [], []))
                (\<lambda>r. Inr (case r of Inl e \<Rightarrow> Inl e
                   | Inr (ps, fs, vs) \<Rightarrow> Inr (reverse_loop ps [], reverse_loop fs [], reverse_loop vs [])))
          | _ \<Rightarrow> Inr (Inl (- ENOENT))))"

section \<open>Values of one parameter\<close>

text \<open>The copying loop of the constant list: each value is put in front of the copies so far.\<close>

fun prepend_loop :: "'a list \<Rightarrow> 'a list \<Rightarrow> 'a list" where
  "prepend_loop list [] = list"
| "prepend_loop list (v # vs) = prepend_loop (v # list) vs"

lemma prepend_loop_rev: "prepend_loop list vs = rev vs @ list"
  by (induction vs arbitrary: list) simp_all

fun last_cell :: "'a list \<Rightarrow> 'a list" where
  "last_cell [] = []"
| "last_cell [v] = [v]"
| "last_cell (_ # vs) = last_cell vs"

definition generate_constlist_variations :: "boxed_value list \<Rightarrow> variation_style \<Rightarrow> boxed_value list" where
  "generate_constlist_variations source style = (case style of
       CONFIG_VARIATION_COMBINATIONS \<Rightarrow> reverse_loop (prepend_loop [] source) []
     | CONFIG_VARIATION_ALLPAIRS \<Rightarrow> reverse_loop (prepend_loop [] source) []
     | CONFIG_VARIATION_FIRST \<Rightarrow> reverse_loop (take 1 source) []
     | CONFIG_VARIATION_LAST \<Rightarrow> reverse_loop (last_cell source) []
     | CONFIG_VARIATION_UNKNOWN _ \<Rightarrow> [])"

fun opt_list :: "'a option \<Rightarrow> 'a list" where
  "opt_list None = []"
| "opt_list (Some x) = [x]"

definition generate_range_variations ::
    "boxed_value option \<Rightarrow> boxed_value option \<Rightarrow> variation_style \<Rightarrow> boxed_value list res" where
  "generate_range_variations low high style = (case style of
       CONFIG_VARIATION_COMBINATIONS \<Rightarrow> rbind (deref low) (\<lambda>l. Inr (l # opt_list high))
     | CONFIG_VARIATION_ALLPAIRS \<Rightarrow> rbind (deref low) (\<lambda>l. Inr (l # opt_list high))
     | CONFIG_VARIATION_FIRST \<Rightarrow> Inr (opt_list low)
     | CONFIG_VARIATION_LAST \<Rightarrow> Inr (opt_list high)
     | CONFIG_VARIATION_UNKNOWN _ \<Rightarrow> Inr [])"

text \<open>
  \<^verbatim>\<open>generate_variations\<close> and \<^verbatim>\<open>generate_generated_variations\<close>, which call each other. Every failure
  the code reports with a log message makes the list empty. A generator that returns NULL is
  written through when its result is linked into the list.
\<close>

fun generate_variations :: "generators \<Rightarrow> nat \<Rightarrow> config_state \<Rightarrow> sym_ref \<Rightarrow> variation_style \<Rightarrow> boxed_value list res"
  and generate_generated_variations ::
    "generators \<Rightarrow> nat \<Rightarrow> config_state \<Rightarrow> string \<Rightarrow> sym_ref list \<Rightarrow> variation_style \<Rightarrow> boxed_value list res"
where
  "generate_variations gen fuel st r style =
     rbind (sym_at st r) (\<lambda>sym. case sym_def sym of
         SYM_TYPE_PARAM pd \<Rightarrow>
           (case pd_mode pd of
              PARAM_MODE_CONSTLIST source \<Rightarrow> Inr (generate_constlist_variations source style)
            | PARAM_MODE_RANGE low high \<Rightarrow> generate_range_variations low high style
            | PARAM_MODE_GENERATED fname params \<Rightarrow>
                (case fuel of 0 \<Rightarrow> Inl Stack_Overflow
                 | Suc fuel' \<Rightarrow> generate_generated_variations gen fuel' st fname params style))
       | _ \<Rightarrow> Inr [])"
| "generate_generated_variations gen fuel st fname params style =
     (case symbol_table_lookup st fname of None \<Rightarrow> Inr [] | Some fr \<Rightarrow>
        rbind (sym_at st fr) (\<lambda>sym. case sym_def sym of
            SYM_TYPE_GENERATOR_FN gen_func \<Rightarrow>
              rbind (rmap (\<lambda>p. generate_variations gen fuel st p style) params) (\<lambda>vss.
              rbind (all_variants (map2 (\<lambda>p vs. \<lparr>tp_param = p, tp_values = vs\<rparr>) params vss)) (\<lambda>variants.
              rmap (\<lambda>vs. deref (gen gen_func vs)) variants))
          | _ \<Rightarrow> Inr []))"

declare generate_variations.simps [simp del] generate_generated_variations.simps [simp del]

section \<open>Variants of a test\<close>

text \<open>\<^verbatim>\<open>get_fixed_param_value\<close>: the parameters are compared by name.\<close>

fun fixed_loop :: "config_state \<Rightarrow> string \<Rightarrow> sym_ref list \<Rightarrow> boxed_value list \<Rightarrow> boxed_value option res" where
  "fixed_loop st key (f # fs) (v # vs) =
     rbind (sym_at st f) (\<lambda>e. if key = sym_key e then Inr (Some v) else fixed_loop st key fs vs)"
| "fixed_loop st key _ _ = Inr None"

definition get_fixed_param_value ::
    "config_state \<Rightarrow> sym_ref \<Rightarrow> sym_ref list \<Rightarrow> boxed_value list \<Rightarrow> boxed_value option res" where
  "get_fixed_param_value st param fixed_params fixed_values =
     (if fixed_params = [] \<or> fixed_values = [] then Inr None
      else rbind (sym_at st param) (\<lambda>e. fixed_loop st (sym_key e) fixed_params fixed_values))"

text \<open>The values of one parameter of a test: its fixed value, or everything it can vary over.\<close>

definition param_values ::
    "generators \<Rightarrow> nat \<Rightarrow> config_state \<Rightarrow> variation_style \<Rightarrow> sym_ref list \<Rightarrow> boxed_value list
      \<Rightarrow> sym_ref \<Rightarrow> test_param res" where
  "param_values gen fuel st style fixed_params fixed_values p =
     rbind (get_fixed_param_value st p fixed_params fixed_values) (\<lambda>fixed.
     rbind (case fixed of Some v \<Rightarrow> Inr [v] | None \<Rightarrow> generate_variations gen fuel st p style) (\<lambda>vs.
     Inr \<lparr>tp_param = p, tp_values = vs\<rparr>))"

definition config_generate_test_variations ::
    "generators \<Rightarrow> nat \<Rightarrow> config_state \<Rightarrow> string \<Rightarrow> variation_style \<Rightarrow> boxed_value list list res" where
  "config_generate_test_variations gen fuel st testname style =
     rbind (collect_test_params st testname) (\<lambda>c. case c of
         Inl ret \<Rightarrow> Inr []
       | Inr (ps, fs, fvs) \<Rightarrow>
           rbind (rmap (param_values gen fuel st style fs fvs) ps) (\<lambda>params.
             (case style of
                CONFIG_VARIATION_COMBINATIONS \<Rightarrow> all_variants params
              | CONFIG_VARIATION_FIRST \<Rightarrow> all_variants params
              | CONFIG_VARIATION_LAST \<Rightarrow> all_variants params
              | CONFIG_VARIATION_ALLPAIRS \<Rightarrow> Inr []
              | CONFIG_VARIATION_UNKNOWN _ \<Rightarrow> Inr [])))"

definition config_get_test_param_names :: "config_state \<Rightarrow> string \<Rightarrow> boxed_value list res" where
  "config_get_test_param_names st testname =
     rbind (collect_test_params st testname) (\<lambda>c. case c of
         Inl ret \<Rightarrow> Inr []
       | Inr (ps, fs, fvs) \<Rightarrow>
           rbind (rmap (\<lambda>p. rbind (sym_at st p) (\<lambda>e. Inr (boxed_value_new_string (sym_key e)))) ps)
             (\<lambda>names. Inr (reverse_loop (prepend_loop [] names) [])))"

text \<open>
  \<^verbatim>\<open>blts_config_debug_dump_variants\<close>: the trace output for a test's variants; -1 when there are
  none.
\<close>

fun dump_variants_loop :: "nat \<Rightarrow> boxed_value list list \<Rightarrow> string list" where
  "dump_variants_loop i [] = []"
| "dump_variants_loop i (v # vs) =
     (show_int_pad 3 (int (Suc i)) @ '': '') # dump_boxed_value_list v @ [''\<newline>''] @ dump_variants_loop (Suc i) vs"

definition config_debug_dump_variants ::
    "generators \<Rightarrow> nat \<Rightarrow> config_state \<Rightarrow> string \<Rightarrow> variation_style \<Rightarrow> (string list \<times> int) res" where
  "config_debug_dump_variants gen fuel st test style =
     rbind (config_generate_test_variations gen fuel st test style) (\<lambda>variants.
       Inr (if variants = [] then ([''No variants''], - 1)
            else ((''------ Parameter variations for '' @ test @ '': \<newline>'')
                   # dump_variants_loop 0 variants @ [''------\<newline>''], 0)))"

section \<open>Properties of the value lists\<close>

lemma reverse_prepend [simp]: "reverse_loop (prepend_loop [] vs) [] = vs"
  by (simp add: reverse_loop_rev prepend_loop_rev)

lemma last_cell_last: "vs \<noteq> [] \<Longrightarrow> last_cell vs = [last vs]"
  by (induction vs rule: last_cell.induct) simp_all

lemma generate_constlist_variations_values:
  "generate_constlist_variations source CONFIG_VARIATION_COMBINATIONS = source"
  "generate_constlist_variations source CONFIG_VARIATION_ALLPAIRS = source"
  "source \<noteq> [] \<Longrightarrow> generate_constlist_variations source CONFIG_VARIATION_FIRST = [hd source]"
  "source \<noteq> [] \<Longrightarrow> generate_constlist_variations source CONFIG_VARIATION_LAST = [last source]"
  by (simp_all add: generate_constlist_variations_def) (simp_all add: reverse_loop_rev last_cell_last take_Suc)

lemma generate_variations_constlist:
  assumes "sym_at st r = Inr e" and "sym_def e = SYM_TYPE_PARAM pd"
    and "pd_mode pd = PARAM_MODE_CONSTLIST vs"
  shows "generate_variations gen fuel st r style = Inr (generate_constlist_variations vs style)"
  using assms by (simp add: generate_variations.simps)

lemma generate_variations_range:
  assumes "sym_at st r = Inr e" and "sym_def e = SYM_TYPE_PARAM pd"
    and "pd_mode pd = PARAM_MODE_RANGE low high"
  shows "generate_variations gen fuel st r style = generate_range_variations low high style"
  using assms by (simp add: generate_variations.simps)

text \<open>
  A table in which generated parameters use only earlier entries: the depth of the recursion is
  bounded by the parameter's index, and any larger stack gives the same result.
\<close>

definition backward_refs :: "config_state \<Rightarrow> bool" where
  "backward_refs st \<longleftrightarrow> (\<forall>r e pd fname ps. sym_at st r = Inr e \<longrightarrow> sym_def e = SYM_TYPE_PARAM pd \<longrightarrow>
     pd_mode pd = PARAM_MODE_GENERATED fname ps \<longrightarrow> (\<forall>p\<in>set ps. p < r))"

lemma generate_variations_fuel:
  assumes "backward_refs st" and "r \<le> fuel"
  shows "generate_variations gen (Suc fuel) st r style = generate_variations gen (Suc r) st r style"
  using assms(2)
proof (induction r arbitrary: fuel rule: less_induct)
  case (less r)
  show ?case
  proof (cases "sym_at st r")
    case (Inl f)
    then show ?thesis by (simp add: generate_variations.simps)
  next
    case (Inr e)
    show ?thesis
    proof (cases "\<exists>pd fname ps. sym_def e = SYM_TYPE_PARAM pd \<and> pd_mode pd = PARAM_MODE_GENERATED fname ps")
      case False
      then show ?thesis
        by (auto simp: generate_variations.simps Inr split: symbol_def.splits param_mode.splits)
    next
      case True
      then obtain pd fname ps where pd: "sym_def e = SYM_TYPE_PARAM pd"
        and mode: "pd_mode pd = PARAM_MODE_GENERATED fname ps" by blast
      have sub: "generate_variations gen fuel st p style = generate_variations gen r st p style"
        if "p \<in> set ps" for p
      proof -
        have "p < r" using assms(1) Inr pd mode that unfolding backward_refs_def by blast
        then have "p \<le> fuel - 1" "p \<le> r - 1" "fuel = Suc (fuel - 1)" "r = Suc (r - 1)"
          using less.prems by auto
        with less.IH [OF \<open>p < r\<close>] show ?thesis by metis
      qed
      have "rmap (\<lambda>p. generate_variations gen fuel st p style) ps =
          rmap (\<lambda>p. generate_variations gen r st p style) ps"
        by (rule rmap_cong [OF refl]) (rule sub)
      then have "generate_generated_variations gen fuel st fname ps style =
          generate_generated_variations gen r st fname ps style"
        by (simp only: generate_generated_variations.simps)
      then show ?thesis by (simp add: generate_variations.simps [of _ "Suc _"] Inr pd mode)
    qed
  qed
qed

lemma generate_generated_no_overflow:
  assumes "\<And>p f. p \<in> set ps \<Longrightarrow> generate_variations gen fuel st p style \<noteq> Inl Stack_Overflow"
  shows "generate_generated_variations gen fuel st fname ps style \<noteq> Inl Stack_Overflow"
proof -
  have rm: "rmap f xs \<noteq> Inl Stack_Overflow" if "\<And>x. x \<in> set xs \<Longrightarrow> f x \<noteq> Inl Stack_Overflow"
    for f :: "'c \<Rightarrow> 'd res" and xs
    using that by (induction xs) (auto simp: rbind_eq_Inl)
  have nr: "nth_res xs i \<noteq> Inl Stack_Overflow" for xs :: "'c list" and i
    by (simp add: nth_res_def)
  have ft: "fill_table k i n a b c ls \<noteq> Inl Stack_Overflow" for k i n a b c ls
    by (induction k i n a b c ls rule: fill_table.induct) (auto simp: rbind_eq_Inl)
  have pv: "permutation_variant perms arrs i \<noteq> Inl Stack_Overflow" for perms arrs i
    unfolding permutation_variant_def by (rule rm) (auto simp: rbind_eq_Inl nr)
  have gv: "generate_permutation_variants perms arrs \<noteq> Inl Stack_Overflow" for perms arrs
    by (auto simp: generate_permutation_variants_def rbind_eq_Inl rm pv)
  have av: "all_variants params \<noteq> Inl Stack_Overflow" for params
    by (auto simp: all_variants_def generate_permutation_table_def Let_def rbind_eq_Inl ft gv)
  have dr: "deref x \<noteq> Inl Stack_Overflow" for x :: "'c option"
    by (cases x) simp_all
  have sa: "sym_at st r \<noteq> Inl Stack_Overflow" for r
    by (auto simp: sym_at_def nr split: option.splits)
  show ?thesis
    by (subst generate_generated_variations.simps)
      (auto simp: rbind_eq_Inl sa av rm dr assms split: option.splits symbol_def.splits)
qed

lemma generate_variations_no_overflow:
  assumes "backward_refs st" and "r < fuel"
  shows "generate_variations gen fuel st r style \<noteq> Inl Stack_Overflow"
  using assms(2)
proof (induction r arbitrary: fuel rule: less_induct)
  case (less r)
  obtain f where f: "fuel = Suc f" using less.prems by (cases fuel) auto
  have sa: "sym_at st r \<noteq> Inl Stack_Overflow"
    by (auto simp: sym_at_def nth_res_def split: option.splits)
  have rg: "generate_range_variations low high style \<noteq> Inl Stack_Overflow" for low high
    by (cases low) (auto simp: generate_range_variations_def split: variation_style.splits)
  have "generate_generated_variations gen f st fname ps style \<noteq> Inl Stack_Overflow"
    if "sym_at st r = Inr e" "sym_def e = SYM_TYPE_PARAM pd" "pd_mode pd = PARAM_MODE_GENERATED fname ps"
    for e pd fname ps
  proof (rule generate_generated_no_overflow)
    fix p assume "p \<in> set ps"
    then have "p < r" using assms(1) that unfolding backward_refs_def by blast
    then show "generate_variations gen f st p style \<noteq> Inl Stack_Overflow"
      using less.IH [of p f] less.prems f by simp
  qed
  then show ?case
    using sa rg by (subst generate_variations.simps)
      (auto simp: f rbind_eq_Inl split: symbol_def.splits param_mode.splits)
qed

end
