(* ===== verification/Declare_Tests.thy ===== *)
theory Declare_Tests
  imports Symbol_Dump Variation
begin

text \<open>
  How a test module declares its variable tests, \<^verbatim>\<open>blts-common/src/blts_params.c\<close>: the entries
  made when no configuration was loaded, the variadic declaration with default values, the
  declaration that takes everything from the configuration, the registration of generating
  functions, and the calls the command line makes into a declared test. The main theorem is that
  a test declared without configuration has exactly one variant, its default values, under the
  names it was declared with.
\<close>

section \<open>Entries made without a configuration\<close>

text \<open>The result of the insertion is ignored: an existing test, or a full table, stays as it is.\<close>

definition setup_symbol_table_no_config :: "config_state \<Rightarrow> string \<Rightarrow> config_state res" where
  "setup_symbol_table_no_config st testname =
     (let st1 = (if symbol_table st = None then symbol_table_init st else st);
          sym = \<lparr>sym_key = testname, sym_def = SYM_TYPE_TEST empty_testdef\<rparr>
      in rbind (symbol_table_insert st1 (Some sym)) (\<lambda>(st2, _). Inr st2))"

definition c_assert :: "bool \<Rightarrow> unit res" where
  "c_assert b = (if b then Inr () else Inl Assert_Failure)"

lemma c_assert_simps [simp]: "c_assert True = Inr ()" "c_assert False = Inl Assert_Failure"
  by (simp_all add: c_assert_def)

definition symbol_table_add_param_for_test :: "config_state \<Rightarrow> string \<Rightarrow> string \<Rightarrow> config_state res" where
  "symbol_table_add_param_for_test st paramname testname =
     (case (symbol_table_lookup st paramname, symbol_table_lookup st testname) of
        (Some param, Some test) \<Rightarrow>
          rbind (sym_at st param) (\<lambda>pe.
          rbind (sym_at st test) (\<lambda>te.
            (case sym_def pe of
               SYM_TYPE_PARAM _ \<Rightarrow>
                 (case sym_def te of
                    SYM_TYPE_TEST td \<Rightarrow>
                      (let new = TEST_SETTING_PARAMLIST (Some \<lparr>pgroup_params_syms = [param]\<rparr>) in
                       Inr (set_sym st test (SYM_TYPE_TEST (td\<lparr>settings := settings td @ [Some new]\<rparr>))))
                  | _ \<Rightarrow> Inl Assert_Failure)
             | _ \<Rightarrow> Inl Assert_Failure)))
      | _ \<Rightarrow> Inl Assert_Failure)"

definition symbol_table_insert_param_with_default ::
    "config_state \<Rightarrow> string option \<Rightarrow> string \<Rightarrow> boxed_value \<Rightarrow> config_state res" where
  "symbol_table_insert_param_with_default st paramname testname v =
     rbind (c_assert (symbol_table st \<noteq> None)) (\<lambda>_.
     (case paramname of None \<Rightarrow> Inl Assert_Failure | Some name \<Rightarrow>
        rbind (if symbol_table_lookup st name = None
               then rbind (symbol_table_insert st (Some \<lparr>sym_key = name, sym_def =
                      SYM_TYPE_PARAM \<lparr>pd_type = bv_type v, pd_mode = PARAM_MODE_CONSTLIST [v]\<rparr>\<rparr>))
                      (\<lambda>(st1, _). Inr st1)
               else Inr st)
          (\<lambda>st1. symbol_table_add_param_for_test st1 name testname)))"

section \<open>Declaration with default values\<close>

text \<open>
  The variable arguments of a call, in order. Reading one with another type than was passed, or
  past the last one, is undefined behaviour.
\<close>

datatype va_arg =
    VA_Int "32 word"
  | VA_Long "64 word"
  | VA_Double double
  | VA_Str "string option"

fun param_type_of_code :: "int \<Rightarrow> config_param_type option" where
  "param_type_of_code n =
     (if n = 0 then Some CONFIG_PARAM_INT
      else if n = 1 then Some CONFIG_PARAM_LONG
      else if n = 2 then Some CONFIG_PARAM_FLOAT
      else if n = 3 then Some CONFIG_PARAM_DOUBLE
      else if n = 4 then Some CONFIG_PARAM_STRING
      else if n = 5 then Some CONFIG_PARAM_BOOL
      else if n = 6 then Some CONFIG_PARAM_NONE
      else None)"

fun code_of_param_type :: "config_param_type \<Rightarrow> int" where
  "code_of_param_type CONFIG_PARAM_INT = 0"
| "code_of_param_type CONFIG_PARAM_LONG = 1"
| "code_of_param_type CONFIG_PARAM_FLOAT = 2"
| "code_of_param_type CONFIG_PARAM_DOUBLE = 3"
| "code_of_param_type CONFIG_PARAM_STRING = 4"
| "code_of_param_type CONFIG_PARAM_BOOL = 5"
| "code_of_param_type CONFIG_PARAM_NONE = 6"

lemma param_type_of_code_inverse: "param_type_of_code (code_of_param_type t) = Some t"
  by (cases t) simp_all

text \<open>
  The switch on the type: the value read from the arguments, boxed, or \<open>None\<close> for a type that is
  not one of the enumeration's. An int argument is widened to the long member by sign extension.
\<close>

definition read_default :: "config_param_type option \<Rightarrow> va_arg list \<Rightarrow> (boxed_value \<times> va_arg list) option res" where
  "read_default ty va = (case ty of None \<Rightarrow> Inr None | Some t \<Rightarrow> (case t of
       CONFIG_PARAM_INT \<Rightarrow> (case va of VA_Int w # va' \<Rightarrow> Inr (Some (boxed_value_new_int (scast w), va'))
         | _ \<Rightarrow> Inl Type_Confusion)
     | CONFIG_PARAM_LONG \<Rightarrow> (case va of VA_Long w # va' \<Rightarrow> Inr (Some (boxed_value_new_long w, va'))
         | _ \<Rightarrow> Inl Type_Confusion)
     | CONFIG_PARAM_BOOL \<Rightarrow> (case va of VA_Int w # va' \<Rightarrow> Inr (Some (boxed_value_new_bool (scast w), va'))
         | _ \<Rightarrow> Inl Type_Confusion)
     | CONFIG_PARAM_FLOAT \<Rightarrow> (case va of VA_Double w # va' \<Rightarrow> Inr (Some (boxed_value_new_float w, va'))
         | _ \<Rightarrow> Inl Type_Confusion)
     | CONFIG_PARAM_DOUBLE \<Rightarrow> (case va of VA_Double w # va' \<Rightarrow> Inr (Some (boxed_value_new_double w, va'))
         | _ \<Rightarrow> Inl Type_Confusion)
     | CONFIG_PARAM_STRING \<Rightarrow> (case va of VA_Str s # va' \<Rightarrow>
           Inr (Some (boxed_value_new_string (case s of None \<Rightarrow> '''' | Some x \<Rightarrow> x), va'))
         | _ \<Rightarrow> Inl Type_Confusion)
     | CONFIG_PARAM_NONE \<Rightarrow> Inr None))"

lemma read_default_shorter: "read_default t va = Inr (Some (v, va')) \<Longrightarrow> length va' < length va"
  by (auto simp: read_default_def split: option.splits config_param_type.splits list.splits va_arg.splits)

text \<open>Reading and writing the test's definition through \<^verbatim>\<open>sym->test_definition\<close>.\<close>

definition test_at :: "config_state \<Rightarrow> sym_ref \<Rightarrow> testdef res" where
  "test_at st r = rbind (sym_at st r) (\<lambda>e. case sym_def e of
     SYM_TYPE_TEST td \<Rightarrow> Inr td | _ \<Rightarrow> Inl Type_Confusion)"

definition set_test :: "config_state \<Rightarrow> sym_ref \<Rightarrow> (testdef \<Rightarrow> testdef) \<Rightarrow> config_state res" where
  "set_test st r f = rbind (test_at st r) (\<lambda>td. Inr (set_sym st r (SYM_TYPE_TEST (f td))))"

definition push_default :: "boxed_value \<Rightarrow> boxed_value \<Rightarrow> testdef \<Rightarrow> testdef" where
  "push_default tag v td = td\<lparr>param_tags := tag # param_tags td, param_defaults := v # param_defaults td\<rparr>"

definition reverse_declared :: "testdef \<Rightarrow> testdef" where
  "reverse_declared td = td\<lparr>param_tags := reverse_loop (param_tags td) [],
     param_defaults := reverse_loop (param_defaults td) []\<rparr>"

text \<open>
  The check of a tag against a loaded configuration. \<^verbatim>\<open>strcmp\<close> on a NULL tag is a fault as soon
  as there is an entry to compare it with.
\<close>

definition tag_defined :: "config_state \<Rightarrow> string option \<Rightarrow> bool res" where
  "tag_defined st tag = (if \<not> config_load_complete st then Inr True else
     (case tag of None \<Rightarrow> if entries st = [] then Inr False else Inl Null_Deref
      | Some k \<Rightarrow> Inr (symbol_table_lookup st k \<noteq> None)))"

text \<open>The loop over the triplets; on an error the lists stay as far as they were built.\<close>

function declare_loop ::
    "bool \<Rightarrow> sym_ref \<Rightarrow> string \<Rightarrow> config_state \<Rightarrow> va_arg list \<Rightarrow> (config_state \<times> int) res" where
  "declare_loop use_defaults tr key st va = (case va of
       VA_Int w # va1 \<Rightarrow>
         if sint w = 6 then rbind (set_test st tr reverse_declared) (\<lambda>st1. Inr (st1, 0))
         else (case va1 of
            VA_Str param_tag # va2 \<Rightarrow>
              rbind (tag_defined st param_tag) (\<lambda>known.
                if \<not> known then Inr (st, - EINVAL)
                else rbind (read_default (param_type_of_code (sint w)) va2) (\<lambda>d. case d of
                    None \<Rightarrow> Inr (st, - EINVAL)
                  | Some (v, va3) \<Rightarrow>
                      (let tag = boxed_value_new_string (case param_tag of None \<Rightarrow> '''' | Some t \<Rightarrow> t) in
                       rbind (set_test st tr (push_default tag v)) (\<lambda>st1.
                       rbind (if use_defaults
                              then symbol_table_insert_param_with_default st1 param_tag key v
                              else Inr st1)
                         (\<lambda>st2. declare_loop use_defaults tr key st2 va3)))))
          | _ \<Rightarrow> Inl Type_Confusion)
     | _ \<Rightarrow> Inl Type_Confusion)"
  by pat_completeness auto
termination
  by (relation "measure (\<lambda>(_, _, _, _, va). length va)")
    (auto dest: read_default_shorter)

declare declare_loop.simps [simp del]

definition declare_variable_test ::
    "config_state \<Rightarrow> string option \<Rightarrow> fn_ref option \<Rightarrow> va_arg list \<Rightarrow> (config_state \<times> int) res" where
  "declare_variable_test st name handler va =
     (case name of None \<Rightarrow> Inr (st, - EINVAL) | Some name \<Rightarrow>
        rbind (if \<not> config_load_complete st then setup_symbol_table_no_config st name else Inr st) (\<lambda>st1.
        let use_defaults = \<not> config_load_complete st in
        rbind (case symbol_table_lookup st1 name of
            Some r \<Rightarrow> rbind (sym_at st1 r) (\<lambda>e. (case sym_def e of
                SYM_TYPE_TEST _ \<Rightarrow> Inr (st1, Some (r, use_defaults))
              | _ \<Rightarrow> Inr (st1, None)))
          | None \<Rightarrow> rbind (setup_symbol_table_no_config st1 name) (\<lambda>st2.
              Inr (st2, map_option (\<lambda>r. (r, True)) (symbol_table_lookup st2 name))))
        (\<lambda>(st2, found). case found of
            None \<Rightarrow> Inr (st2, - ENOENT)
          | Some (tr, use_defaults) \<Rightarrow>
              rbind (set_test st2 tr (\<lambda>td. td\<lparr>arg_handler := handler\<rparr>)) (\<lambda>st3.
                declare_loop use_defaults tr name st3 va))))"

section \<open>Declaration from the configuration\<close>

text \<open>
  \<^verbatim>\<open>generator_fn_params_syms[0]->value->type\<close>: the symbol's union is read as a value whatever it
  holds. A parameter's definition starts with its type code, so that reads right; an entry with
  no definition holds NULL; what the other kinds give is not a type.
\<close>

definition union_value_type :: "symbol_def \<Rightarrow> config_param_type res" where
  "union_value_type d = (case d of
       SYM_TYPE_BOXED_VALUE v \<Rightarrow> Inr (bv_type v)
     | SYM_TYPE_PARAM p \<Rightarrow> Inr (pd_type p)
     | SYM_TYPE_NONE \<Rightarrow> Inl Null_Deref
     | _ \<Rightarrow> Inl Type_Confusion)"

definition pgroup_param_type :: "config_state \<Rightarrow> symbol_def \<Rightarrow> config_param_type res" where
  "pgroup_param_type st d = (case d of
       SYM_TYPE_PARAM p \<Rightarrow>
         (case pd_mode p of
            PARAM_MODE_CONSTLIST vs \<Rightarrow>
              rbind (deref (case vs of [] \<Rightarrow> None | v # _ \<Rightarrow> Some v)) (\<lambda>v. Inr (bv_type v))
          | PARAM_MODE_RANGE low high \<Rightarrow> rbind (deref low) (\<lambda>v. Inr (bv_type v))
          | PARAM_MODE_GENERATED fname syms \<Rightarrow>
              rbind (nth_res syms 0) (\<lambda>r. rbind (sym_at st r) (\<lambda>e. union_value_type (sym_def e))))
     | _ \<Rightarrow> Inr CONFIG_PARAM_NONE)"

definition zero_default :: "config_param_type \<Rightarrow> boxed_value option" where
  "zero_default ty = (case ty of
       CONFIG_PARAM_INT \<Rightarrow> Some (boxed_value_new_int 0)
     | CONFIG_PARAM_LONG \<Rightarrow> Some (boxed_value_new_long 0)
     | CONFIG_PARAM_BOOL \<Rightarrow> Some (boxed_value_new_bool 0)
     | CONFIG_PARAM_FLOAT \<Rightarrow> Some (boxed_value_new_float 0)
     | CONFIG_PARAM_DOUBLE \<Rightarrow> Some (boxed_value_new_double 0)
     | CONFIG_PARAM_STRING \<Rightarrow> Some (boxed_value_new_string '''')
     | CONFIG_PARAM_NONE \<Rightarrow> None)"

fun process_params_loop :: "config_state \<Rightarrow> sym_ref list \<Rightarrow> testdef \<Rightarrow> (testdef \<times> int) res" where
  "process_params_loop st [] td = Inr (td, 0)"
| "process_params_loop st (r # rs) td =
     rbind (sym_at st r) (\<lambda>e.
     rbind (pgroup_param_type st (sym_def e)) (\<lambda>ty.
       if config_load_complete st \<and> symbol_table_lookup st (sym_key e) = None then Inr (td, - EINVAL)
       else (case zero_default ty of
           None \<Rightarrow> Inr (td, - EINVAL)
         | Some v \<Rightarrow>
             process_params_loop st rs (push_default (boxed_value_new_string (sym_key e)) v td))))"

definition process_pgroup_params :: "config_state \<Rightarrow> pgroupdef option \<Rightarrow> testdef \<Rightarrow> (testdef \<times> int) res" where
  "process_pgroup_params st pgroup td =
     rbind (deref pgroup) (\<lambda>g. process_params_loop st (pgroup_params_syms g) td)"

text \<open>The loop over the settings: \<^verbatim>\<open>ret\<close> is what the last parameter list or group gave.\<close>

fun process_settings_loop ::
    "config_state \<Rightarrow> test_setting option list \<Rightarrow> testdef \<Rightarrow> int \<Rightarrow> (testdef \<times> int) res" where
  "process_settings_loop st [] td ret = Inr (td, ret)"
| "process_settings_loop st (s # ss) td ret =
     rbind (deref s) (\<lambda>setting. case setting of
         TEST_SETTING_PARAMLIST pg \<Rightarrow>
           rbind (process_pgroup_params st pg td) (\<lambda>(td', ret'). process_settings_loop st ss td' ret')
       | TEST_SETTING_PGROUP r \<Rightarrow>
           rbind (sym_at st r) (\<lambda>e. case sym_def e of
               SYM_TYPE_PGROUP pg \<Rightarrow>
                 rbind (process_pgroup_params st pg td) (\<lambda>(td', ret'). process_settings_loop st ss td' ret')
             | _ \<Rightarrow> Inl Type_Confusion)
       | TEST_SETTING_FIX _ \<Rightarrow> process_settings_loop st ss td ret)"

definition declare_variable_test_dynamic ::
    "config_state \<Rightarrow> string option \<Rightarrow> fn_ref option \<Rightarrow> (config_state \<times> int) res" where
  "declare_variable_test_dynamic st name handler =
     (case name of None \<Rightarrow> Inr (st, - EINVAL) | Some name \<Rightarrow>
        rbind (if \<not> config_load_complete st then setup_symbol_table_no_config st name else Inr st) (\<lambda>st1.
        (case symbol_table_lookup st1 name of
           None \<Rightarrow> Inr (st1, - ENOENT)
         | Some r \<Rightarrow> rbind (sym_at st1 r) (\<lambda>e. (case sym_def e of
             SYM_TYPE_TEST td \<Rightarrow>
               rbind (process_settings_loop st1 (settings td) (td\<lparr>arg_handler2 := handler\<rparr>) 0)
                 (\<lambda>(td', ret). Inr (set_sym st1 r (SYM_TYPE_TEST
                    (if ret = 0 then reverse_declared td' else td')), ret))
           | _ \<Rightarrow> Inr (st1, - ENOENT))))))"

section \<open>Uses of a declared test\<close>

definition test_is_variable :: "config_state \<Rightarrow> string \<Rightarrow> bool" where
  "test_is_variable st name =
     (if symbol_table st = None then False
      else (case symbol_table_lookup st name of None \<Rightarrow> False | Some r \<Rightarrow>
        (case sym_at st r of Inl _ \<Rightarrow> False | Inr e \<Rightarrow>
          (case sym_def e of
             SYM_TYPE_TEST t \<Rightarrow>
               \<not> (settings t = [] \<or> hd (settings t) = None \<or> param_defaults t = [] \<or> param_tags t = []
                  \<or> (arg_handler t = None \<and> arg_handler2 t = None))
           | _ \<Rightarrow> False))))"

text \<open>
  The functions a module registers, as the environment the harness calls: an argument handler
  gets the values and the module's user pointer; the tagged one gets the tags too.
\<close>

record 'u handlers =
  call_arg_handler :: "fn_ref \<Rightarrow> boxed_value list \<Rightarrow> 'u option \<Rightarrow> 'u option"
  call_tagged_handler :: "fn_ref \<Rightarrow> boxed_value list \<Rightarrow> boxed_value list \<Rightarrow> 'u option \<Rightarrow> 'u option"

definition mutate_user_params ::
    "'u handlers \<Rightarrow> config_state \<Rightarrow> string \<Rightarrow> boxed_value list \<Rightarrow> 'u option \<Rightarrow> 'u option" where
  "mutate_user_params env st testname values user_ptr =
     (case symbol_table_lookup st testname of None \<Rightarrow> None | Some r \<Rightarrow>
        (case sym_at st r of Inl _ \<Rightarrow> None | Inr e \<Rightarrow>
          (case sym_def e of
             SYM_TYPE_TEST td \<Rightarrow>
               (case arg_handler td of
                  Some h \<Rightarrow> call_arg_handler env h values user_ptr
                | None \<Rightarrow>
                    (case arg_handler2 td of
                       Some h \<Rightarrow> call_tagged_handler env h (param_tags td) values user_ptr
                     | None \<Rightarrow> None))
           | _ \<Rightarrow> None)))"

text \<open>The registration ignores the result of the insertion and dumps the table to the trace.\<close>

definition register_generating_func ::
    "(fn_ref option \<Rightarrow> string) \<Rightarrow> config_state \<Rightarrow> string \<Rightarrow> fn_ref \<Rightarrow> (config_state \<times> int \<times> string list) res" where
  "register_generating_func ptr_text st name func =
     (if symbol_table_lookup st name \<noteq> None then Inr (st, - EINVAL, [])
      else rbind (symbol_table_insert st (Some \<lparr>sym_key = name, sym_def = SYM_TYPE_GENERATOR_FN func\<rparr>))
        (\<lambda>(st1, _). rbind (dump_symbol_table ptr_text st1) (\<lambda>trace. Inr (st1, 0, trace))))"

text \<open>\<^verbatim>\<open>_blts_conf_unquote_string_lit\<close>: NULL for NULL, for no opening and for no closing quote.\<close>

definition unquote_string_lit :: "string option \<Rightarrow> string option" where
  "unquote_string_lit str = (case str of None \<Rightarrow> None | Some [] \<Rightarrow> None
     | Some (c # cs) \<Rightarrow>
         if c \<noteq> CHR 0x22 then None
         else (case strrchr (c # cs) (CHR 0x22) of
             None \<Rightarrow> None
           | Some len \<Rightarrow> if len = 0 then None else Some (take (len - 1) cs)))"

section \<open>A test declared without configuration\<close>

text \<open>The defaults a module can pass, as the arguments of the call and as the values they become.\<close>

datatype default_arg =
    D_Int "32 word"
  | D_Long "64 word"
  | D_Bool "32 word"
  | D_Float double
  | D_Double double
  | D_String string

fun default_value :: "default_arg \<Rightarrow> boxed_value" where
  "default_value (D_Int w) = Boxed_Int (scast w)"
| "default_value (D_Long w) = Boxed_Long w"
| "default_value (D_Bool w) = Boxed_Bool (scast w)"
| "default_value (D_Float w) = Boxed_Float w"
| "default_value (D_Double w) = Boxed_Float w"
| "default_value (D_String s) = Boxed_String s"

fun triplet :: "string \<times> default_arg \<Rightarrow> va_arg list" where
  "triplet (t, D_Int w) = [VA_Int 0, VA_Str (Some t), VA_Int w]"
| "triplet (t, D_Long w) = [VA_Int 1, VA_Str (Some t), VA_Long w]"
| "triplet (t, D_Float w) = [VA_Int 2, VA_Str (Some t), VA_Double w]"
| "triplet (t, D_Double w) = [VA_Int 3, VA_Str (Some t), VA_Double w]"
| "triplet (t, D_String s) = [VA_Int 4, VA_Str (Some t), VA_Str (Some s)]"
| "triplet (t, D_Bool w) = [VA_Int 5, VA_Str (Some t), VA_Int w]"

definition declaration_args :: "(string \<times> default_arg) list \<Rightarrow> va_arg list" where
  "declaration_args ds = concat (map triplet ds) @ [VA_Int 6]"

text \<open>The table after the declaration has read the triplets \<open>ds\<close>: the test, then its parameters.\<close>

definition default_param :: "string \<times> default_arg \<Rightarrow> symbol_table_entry" where
  "default_param d = \<lparr>sym_key = fst d, sym_def = SYM_TYPE_PARAM
     \<lparr>pd_type = bv_type (default_value (snd d)), pd_mode = PARAM_MODE_CONSTLIST [default_value (snd d)]\<rparr>\<rparr>"

definition declared_test :: "fn_ref option \<Rightarrow> (string \<times> default_arg) list \<Rightarrow> testdef" where
  "declared_test h ds = \<lparr>settings = map (\<lambda>i. Some (TEST_SETTING_PARAMLIST (Some \<lparr>pgroup_params_syms = [Suc i]\<rparr>)))
       [0..<length ds],
     param_defaults = rev (map (\<lambda>d. default_value (snd d)) ds),
     param_tags = rev (map (\<lambda>d. Boxed_String (fst d)) ds), arg_handler = h, arg_handler2 = None\<rparr>"

definition table_with :: "string \<Rightarrow> testdef \<Rightarrow> (string \<times> default_arg) list \<Rightarrow> config_state" where
  "table_with name td ds = \<lparr>symbol_table =
     Some (\<lparr>sym_key = name, sym_def = SYM_TYPE_TEST td\<rparr> # map default_param ds), config_load_complete = False\<rparr>"

lemma table_with_simps [simp]:
  "config_load_complete (table_with name td ds) = False"
  "symbol_table (table_with name td ds) \<noteq> None"
  "symbol_table_lookup (table_with name td ds) name = Some 0"
  "sym_at (table_with name td ds) 0 = Inr \<lparr>sym_key = name, sym_def = SYM_TYPE_TEST td\<rparr>"
  "test_at (table_with name td ds) 0 = Inr td"
  "set_sym (table_with name td ds) 0 (SYM_TYPE_TEST td') = table_with name td' ds"
  by (simp_all add: table_with_def symbol_table_lookup_def sym_at_def test_at_def set_sym_def)

lemma set_test_table_with [simp]:
  "set_test (table_with name td ds) 0 f = Inr (table_with name (f td) ds)"
  by (simp add: set_test_def)

lemma sym_at_table_with [simp]:
  "i < length ds \<Longrightarrow> sym_at (table_with name td ds) (Suc i) = Inr (default_param (ds ! i))"
  by (simp add: table_with_def sym_at_def)

lemma lookup_default_params:
  "k \<notin> fst ` set ds \<Longrightarrow> lookup_loop k (map default_param ds) = None"
  by (rule sym_scan.scan_NoneI) (force simp: default_param_def)

lemma insert_default_table_with:
  assumes "distinct (name # map fst (ds @ [d]))" and "Suc (length ds) < SYMBOL_TABLE_MAX"
  shows "symbol_table_insert_param_with_default (table_with name td ds) (Some (fst d)) name
      (default_value (snd d)) =
    Inr (table_with name (td\<lparr>settings := settings td
      @ [Some (TEST_SETTING_PARAMLIST (Some \<lparr>pgroup_params_syms = [Suc (length ds)]\<rparr>))]\<rparr>) (ds @ [d]))"
proof -
  let ?st = "table_with name td ds" and ?st1 = "table_with name td (ds @ [d])"
  have new: "symbol_table_lookup ?st (fst d) = None"
    using assms(1) lookup_default_params [of "fst d" ds] by (auto simp: table_with_def symbol_table_lookup_def)
  have found: "symbol_table_lookup ?st1 (fst d) = Some (Suc (length ds))"
    using assms(1) lookup_default_params [of "fst d" ds]
    by (auto simp: table_with_def symbol_table_lookup_def sym_scan.scan_append default_param_def)
  have ins: "symbol_table_insert ?st (Some (default_param d)) = Inr (?st1, 0)"
    using assms(2) new by (simp add: symbol_table_insert_def default_param_def [of d])
      (simp add: table_with_def default_param_def)
  have "sym_at ?st1 (Suc (length ds)) = Inr (default_param d)"
    using sym_at_table_with [of "length ds" "ds @ [d]" name td] by simp
  then have "symbol_table_add_param_for_test ?st1 (fst d) name =
      Inr (table_with name (td\<lparr>settings := settings td
        @ [Some (TEST_SETTING_PARAMLIST (Some \<lparr>pgroup_params_syms = [Suc (length ds)]\<rparr>))]\<rparr>) (ds @ [d]))"
    by (simp add: symbol_table_add_param_for_test_def found default_param_def)
  with ins new show ?thesis
    by (simp add: symbol_table_insert_param_with_default_def default_param_def)
qed

lemma declare_loop_triplet:
  assumes "distinct (name # map fst (ds @ [d]))" and "Suc (length ds) < SYMBOL_TABLE_MAX"
  shows "declare_loop True 0 name (table_with name (declared_test h ds) ds) (triplet d @ va) =
     declare_loop True 0 name (table_with name (declared_test h (ds @ [d])) (ds @ [d])) va"
proof -
  have "(push_default (Boxed_String (fst d)) (default_value (snd d)) (declared_test h ds))
      \<lparr>settings := settings (declared_test h ds)
        @ [Some (TEST_SETTING_PARAMLIST (Some \<lparr>pgroup_params_syms = [Suc (length ds)]\<rparr>))]\<rparr>
      = declared_test h (ds @ [d])"
    by (simp add: push_default_def declared_test_def)
  with insert_default_table_with [OF assms,
      of "push_default (Boxed_String (fst d)) (default_value (snd d)) (declared_test h ds)"]
  have ins: "symbol_table_insert_param_with_default
      (table_with name (push_default (Boxed_String (fst d)) (default_value (snd d)) (declared_test h ds)) ds)
      (Some (fst d)) name (default_value (snd d)) =
    Inr (table_with name (declared_test h (ds @ [d])) (ds @ [d]))"
    by (simp add: push_default_def declared_test_def)
  have tag: "tag_defined (table_with name (declared_test h ds) ds) t = Inr True" for t
    by (simp add: tag_defined_def)
  obtain t v where d: "d = (t, v)" by (cases d)
  show ?thesis
    using ins unfolding d
    by (cases v; subst declare_loop.simps)
      (simp_all add: tag read_default_def boxed_value_new_defs)
qed

lemma declare_loop_triplets:
  assumes "distinct (name # map fst (pre @ ds))" and "length (pre @ ds) < SYMBOL_TABLE_MAX"
  shows "declare_loop True 0 name (table_with name (declared_test h pre) pre) (declaration_args ds) =
     Inr (table_with name (reverse_declared (declared_test h (pre @ ds))) (pre @ ds), 0)"
  using assms
proof (induction ds arbitrary: pre)
  case Nil
  show ?case by (simp add: declaration_args_def declare_loop.simps)
next
  case (Cons d ds)
  have "declaration_args (d # ds) = triplet d @ declaration_args ds"
    by (simp add: declaration_args_def)
  moreover have "distinct (name # map fst (pre @ [d]))" "Suc (length pre) < SYMBOL_TABLE_MAX"
    using Cons.prems by auto
  ultimately show ?case
    using declare_loop_triplet [of name pre d h "declaration_args ds"] Cons.IH [of "pre @ [d]"] Cons.prems
    by simp
qed

definition declared_config :: "string \<Rightarrow> fn_ref option \<Rightarrow> (string \<times> default_arg) list \<Rightarrow> config_state" where
  "declared_config name h ds = table_with name (reverse_declared (declared_test h ds)) ds"

lemma declare_without_config:
  assumes "distinct (name # map fst ds)" and "length ds < SYMBOL_TABLE_MAX"
  shows "declare_variable_test initial_config (Some name) h (declaration_args ds) =
     Inr (declared_config name h ds, 0)"
proof -
  have "setup_symbol_table_no_config initial_config name = Inr (table_with name empty_testdef [])"
    by (simp add: setup_symbol_table_no_config_def initial_config_def symbol_table_init_def
        symbol_table_insert_def symbol_table_lookup_def SYMBOL_TABLE_MAX_def table_with_def)
  moreover have "empty_testdef\<lparr>arg_handler := h\<rparr> = declared_test h []"
    by (simp add: empty_testdef_def declared_test_def)
  ultimately show ?thesis
    using declare_loop_triplets [of name "[]" ds h] assms
    by (simp add: declare_variable_test_def declared_config_def initial_config_def)
qed

lemma collect_declared_loop:
  "collect_loop st (map (\<lambda>i. Some (TEST_SETTING_PARAMLIST (Some \<lparr>pgroup_params_syms = [f i]\<rparr>))) is)
      (ps, fs, vs) = Inr (Inr (rev (map f is) @ ps, fs, vs))"
  by (induction "is" arbitrary: ps) (simp_all add: add_pgroup_def)

lemma collect_declared:
  assumes "ds \<noteq> []"
  shows "collect_test_params (declared_config name h ds) name =
     Inr (Inr (map Suc [0..<length ds], [], []))"
  using assms by (simp add: collect_test_params_def declared_config_def reverse_declared_def
      declared_test_def collect_declared_loop reverse_loop_rev)

lemma declared_param_values:
  assumes "i < length ds"
  shows "param_values gen fuel (declared_config name h ds) CONFIG_VARIATION_COMBINATIONS [] [] (Suc i) =
     Inr \<lparr>tp_param = Suc i, tp_values = [default_value (snd (ds ! i))]\<rparr>"
  using assms by (simp add: param_values_def get_fixed_param_value_def declared_config_def
      generate_variations.simps default_param_def generate_constlist_variations_values)

lemma odometer_singletons: "odometer (map (\<lambda>x. [f x]) xs) = [map f xs]"
  by (induction xs) simp_all

lemma radix_product_ones: "radix_product (map (\<lambda>x. Suc 0) xs) = 1"
  by (induction xs) simp_all

lemma declared_variants:
  assumes "ds \<noteq> []" and "length ds < SYMBOL_TABLE_MAX"
  shows "config_generate_test_variations gen fuel (declared_config name h ds) name
      CONFIG_VARIATION_COMBINATIONS = Inr [map (\<lambda>d. default_value (snd d)) ds]"
proof -
  let ?params = "map (\<lambda>i. \<lparr>tp_param = Suc i, tp_values = [default_value (snd (ds ! i))]\<rparr>) [0..<length ds]"
  have "rmap (\<lambda>i. param_values gen fuel (declared_config name h ds) CONFIG_VARIATION_COMBINATIONS [] [] (Suc i))
      [0..<length ds] = Inr ?params"
    by (rule rmap_total) (simp add: declared_param_values)
  moreover have "all_variants ?params = Inr [map (\<lambda>d. default_value (snd d)) ds]"
  proof -
    have "table_fits (map (\<lambda>p. length (tp_values p)) ?params)"
      using assms(2) by (simp add: table_fits_def comp_def radix_product_ones SYMBOL_TABLE_MAX_def)
    from all_variants_fits [OF this] have
      "all_variants ?params = Inr (odometer (map (\<lambda>i. [default_value (snd (ds ! i))]) [0..<length ds]))"
      by (auto simp: comp_def)
    also have "\<dots> = Inr [map (\<lambda>d. default_value (snd d)) ds]"
      unfolding odometer_singletons by (auto intro: nth_equalityI)
    finally show ?thesis .
  qed
  ultimately show ?thesis
    by (simp add: config_generate_test_variations_def collect_declared [OF assms(1)])
qed

lemma declared_names:
  assumes "ds \<noteq> []"
  shows "config_get_test_param_names (declared_config name h ds) name =
     Inr (map (\<lambda>d. Boxed_String (fst d)) ds)"
proof -
  have "rmap (\<lambda>i. rbind (sym_at (declared_config name h ds) (Suc i))
        (\<lambda>e. Inr (boxed_value_new_string (sym_key e)))) [0..<length ds] =
      Inr (map (\<lambda>i. Boxed_String (fst (ds ! i))) [0..<length ds])"
    by (rule rmap_total) (simp add: declared_config_def default_param_def boxed_value_new_defs)
  then show ?thesis
    by (simp add: config_get_test_param_names_def collect_declared [OF assms])
      (auto intro: nth_equalityI)
qed

lemma declared_is_variable:
  assumes "ds \<noteq> []"
  shows "test_is_variable (declared_config name h ds) name \<longleftrightarrow> h \<noteq> None"
proof -
  obtain n where n: "length ds = Suc n" using assms by (cases ds) auto
  have hd0: "hd (map f [0..<Suc n]) = f 0" for f :: "nat \<Rightarrow> 'b"
    using upt_conv_Cons [of 0 "Suc n"] by simp
  from assms n show ?thesis
    by (simp add: test_is_variable_def declared_config_def reverse_declared_def declared_test_def
        reverse_loop_rev hd0 del: upt_Suc)
qed

section \<open>Facts about the other operations\<close>

text \<open>
  The declaration from the configuration: \<open>typed_param\<close> is the condition under which every
  parameter of a setting has a type the code can find.
\<close>

definition typed_param :: "config_state \<Rightarrow> sym_ref \<Rightarrow> bool" where
  "typed_param st r = (case sym_at st r of Inl _ \<Rightarrow> False | Inr e \<Rightarrow>
     (case pgroup_param_type st (sym_def e) of Inl _ \<Rightarrow> False | Inr ty \<Rightarrow>
        zero_default ty \<noteq> None \<and> symbol_table_lookup st (sym_key e) \<noteq> None))"

lemma process_params_loop_ok:
  assumes "\<forall>r\<in>set rs. typed_param st r"
  shows "\<exists>vs. length vs = length rs \<and> process_params_loop st rs td = Inr
     (td\<lparr>param_tags := rev (map (\<lambda>r. Boxed_String (sym_key (entries st ! r))) rs) @ param_tags td,
         param_defaults := rev vs @ param_defaults td\<rparr>, 0)"
  using assms
proof (induction rs arbitrary: td)
  case Nil
  show ?case by simp
next
  case (Cons r rs)
  then obtain e ty v where e: "sym_at st r = Inr e" and ty: "pgroup_param_type st (sym_def e) = Inr ty"
    and v: "zero_default ty = Some v" and known: "symbol_table_lookup st (sym_key e) \<noteq> None"
    by (auto simp: typed_param_def split: sum.splits)
  have key: "sym_key (entries st ! r) = sym_key e"
    using e by (auto simp: sym_at_def nth_res_eq_Inr split: option.splits)
  let ?td = "push_default (boxed_value_new_string (sym_key e)) v td"
  from Cons.IH [of ?td] Cons.prems obtain vs where "length vs = length rs"
    and "process_params_loop st rs ?td = Inr
      (?td\<lparr>param_tags := rev (map (\<lambda>r. Boxed_String (sym_key (entries st ! r))) rs) @ param_tags ?td,
         param_defaults := rev vs @ param_defaults ?td\<rparr>, 0)" by auto
  then show ?case
    using e ty v known key
    by (intro exI [of _ "v # vs"]) (simp add: push_default_def boxed_value_new_defs)
qed

lemma unquote_string_lit_quoted:
  assumes "CHR 0x22 \<notin> set rest"
  shows "unquote_string_lit (Some (CHR 0x22 # s @ CHR 0x22 # rest)) = Some s"
proof -
  have none: "strrchr rest (CHR 0x22) = None" using assms by (simp add: strrchr_None)
  then have "strrchr (s @ CHR 0x22 # rest) (CHR 0x22) = Some (length s)"
    by (induction s) simp_all
  then show ?thesis by (simp add: unquote_string_lit_def)
qed

text \<open>Registering a function makes it findable and changes nothing else that is found.\<close>

lemma register_generating_func_ok:
  assumes "symtab_ok st" and "symbol_table st \<noteq> None" and "refs_ok st"
    and "find_entry st name = None" and "length (entries st) < SYMBOL_TABLE_MAX"
  shows "\<exists>st' trace. register_generating_func ptr_text st name func = Inr (st', 0, trace)
     \<and> find_entry st' = (find_entry st)(name \<mapsto> \<lparr>sym_key = name, sym_def = SYM_TYPE_GENERATOR_FN func\<rparr>)
     \<and> symtab_ok st' \<and> refs_ok st'"
proof -
  let ?e = "\<lparr>sym_key = name, sym_def = SYM_TYPE_GENERATOR_FN func\<rparr>"
  from symtab.insert_new [of st ?e] assms obtain st' where
    ins: "symbol_table_insert st (Some ?e) = Inr (st', 0)" and ok: "symtab_ok st'" "symbol_table st' \<noteq> None"
    and find: "find_entry st' = (find_entry st)(name \<mapsto> ?e)" by auto
  from symbol_table_insert_inv [OF ins] have "entries st' = entries st @ [?e]" by auto
  with assms(3) have refs: "refs_ok st'" by (fastforce simp: refs_ok_def)
  obtain trace where "dump_symbol_table ptr_text st' = Inr trace"
    using dump_symbol_table_returns [OF ok(2) refs] by blast
  moreover have "symbol_table_lookup st name = None" using assms(4) by (simp add: find_entry_def)
  ultimately show ?thesis
    using ins find ok(1) refs by (simp add: register_generating_func_def)
qed

lemma process_settings_loop_ok:
  assumes "\<forall>g\<in>set gs. \<forall>r\<in>set (pgroup_params_syms g). typed_param st r"
  shows "\<exists>vs. length vs = length (concat (map pgroup_params_syms gs)) \<and>
    process_settings_loop st (map (\<lambda>g. Some (TEST_SETTING_PARAMLIST (Some g))) gs) td 0 = Inr
      (td\<lparr>param_tags := rev (map (\<lambda>r. Boxed_String (sym_key (entries st ! r))) (concat (map pgroup_params_syms gs)))
            @ param_tags td,
          param_defaults := rev vs @ param_defaults td\<rparr>, 0)"
  using assms
proof (induction gs arbitrary: td)
  case Nil
  show ?case by simp
next
  case (Cons g gs)
  let ?names = "map (\<lambda>r. Boxed_String (sym_key (entries st ! r)))"
  from Cons.prems have "\<forall>r\<in>set (pgroup_params_syms g). typed_param st r" by simp
  from process_params_loop_ok [OF this, of td] obtain vs where
    vs: "length vs = length (pgroup_params_syms g)" and
    run: "process_params_loop st (pgroup_params_syms g) td = Inr
      (td\<lparr>param_tags := rev (?names (pgroup_params_syms g)) @ param_tags td,
          param_defaults := rev vs @ param_defaults td\<rparr>, 0)" by blast
  let ?td = "td\<lparr>param_tags := rev (?names (pgroup_params_syms g)) @ param_tags td,
          param_defaults := rev vs @ param_defaults td\<rparr>"
  from Cons.IH [of ?td] Cons.prems obtain ws where
    ws: "length ws = length (concat (map pgroup_params_syms gs))" and
    rest: "process_settings_loop st (map (\<lambda>g. Some (TEST_SETTING_PARAMLIST (Some g))) gs) ?td 0 = Inr
      (?td\<lparr>param_tags := rev (?names (concat (map pgroup_params_syms gs))) @ param_tags ?td,
          param_defaults := rev ws @ param_defaults ?td\<rparr>, 0)" by auto
  from run rest vs ws show ?case
    by (intro exI [of _ "vs @ ws"]) (simp add: process_pgroup_params_def)
qed

lemma declare_dynamic_names:
  assumes loaded: "config_load_complete st" and find: "symbol_table_lookup st name = Some r"
    and e: "sym_at st r = Inr e" "sym_def e = SYM_TYPE_TEST td"
    and td: "settings td = map (\<lambda>g. Some (TEST_SETTING_PARAMLIST (Some g))) gs"
      "param_tags td = []" "param_defaults td = []"
    and typed: "\<forall>g\<in>set gs. \<forall>r\<in>set (pgroup_params_syms g). typed_param st r"
  shows "\<exists>st' td'. declare_variable_test_dynamic st (Some name) h = Inr (st', 0) \<and> test_at st' r = Inr td'
    \<and> param_tags td' = map (\<lambda>r. Boxed_String (sym_key (entries st ! r))) (concat (map pgroup_params_syms gs))
    \<and> length (param_defaults td') = length (param_tags td') \<and> arg_handler2 td' = h \<and> settings td' = settings td"
proof -
  from process_settings_loop_ok [OF typed, of "td\<lparr>arg_handler2 := h\<rparr>"] obtain vs where
    vs: "length vs = length (concat (map pgroup_params_syms gs))" and
    run: "process_settings_loop st (settings td) (td\<lparr>arg_handler2 := h\<rparr>) 0 = Inr
      (td\<lparr>arg_handler2 := h, param_tags := rev (map (\<lambda>r. Boxed_String (sym_key (entries st ! r)))
            (concat (map pgroup_params_syms gs))), param_defaults := rev vs\<rparr>, 0)"
    unfolding td(1) using td(2,3) by auto
  let ?td = "reverse_declared (td\<lparr>arg_handler2 := h, param_tags := rev (map (\<lambda>r. Boxed_String (sym_key (entries st ! r)))
            (concat (map pgroup_params_syms gs))), param_defaults := rev vs\<rparr>)"
  let ?st = "set_sym st r (SYM_TYPE_TEST ?td)"
  have "declare_variable_test_dynamic st (Some name) h = Inr (?st, 0)"
    using loaded find e run by (simp add: declare_variable_test_dynamic_def)
  moreover have "test_at ?st r = Inr ?td"
    using sym_at_set_sym [OF e(1)] by (simp add: test_at_def)
  ultimately show ?thesis using vs by (simp add: reverse_declared_def reverse_loop_rev)
qed

end
