(* ===== verification/Log_Output.thy ===== *)
theory Log_Output
  imports C_Text
begin

text \<open>
  Log output, \<^verbatim>\<open>blts-common/src/blts_log.c\<close>: opening and closing the log, the level filter, the
  destinations and the time stamp, both in the current interface and in the deprecated one the
  library still exports, and the capture of the kernel log. Messages are the formatted text; the
  results of system calls are arguments. \<^verbatim>\<open>log_disk\<close> holds the text of all files, \<^verbatim>\<open>log_stdout\<close> what
  was printed.
\<close>

section \<open>State\<close>

record log_state =
  log_file :: "string option"
  log_console :: bool
  logging_flags :: "32 word"
  print_timestamp :: bool
  logging_level :: int
  syslog_pid :: int
  log_disk :: "string \<Rightarrow> string"
  log_stdout :: string
  dirs_made :: "string list"
  captures :: "int set"

definition initial_log :: "(string \<Rightarrow> string) \<Rightarrow> log_state" where
  "initial_log disk = \<lparr>log_file = None, log_console = False, logging_flags = 0, print_timestamp = False,
     logging_level = 1, syslog_pid = 0, log_disk = disk, log_stdout = '''', dirs_made = [], captures = {}\<rparr>"

definition BLTS_LOG_FLAG_FILE :: "32 word" where "BLTS_LOG_FLAG_FILE = 1"
definition BLTS_LOG_FLAG_STDOUT :: "32 word" where "BLTS_LOG_FLAG_STDOUT = 2"
definition BLTS_LOG_FLAG_TS :: "32 word" where "BLTS_LOG_FLAG_TS = 4"

lemmas log_flag_defs = BLTS_LOG_FLAG_FILE_def BLTS_LOG_FLAG_STDOUT_def BLTS_LOG_FLAG_TS_def

definition has_flag :: "32 word \<Rightarrow> 32 word \<Rightarrow> bool" where
  "has_flag flags f \<longleftrightarrow> Bit_Operations.and flags f \<noteq> 0"

definition log_path :: string where "log_path = ''/var/log/tests/blts''"

definition logging_level_message :: "string list" where
  "logging_level_message = [''[TRACE] '', ''[DEBUG] '', ''[WARN] '', ''[ERROR] '']"

text \<open>GNU \<^verbatim>\<open>basename\<close>: what follows the last slash.\<close>

definition basename :: "string \<Rightarrow> string" where
  "basename s = (case strrchr s (CHR ''/'') of None \<Rightarrow> s | Some i \<Rightarrow> drop (Suc i) s)"

text \<open>The broken-down time the stamps print: \<^verbatim>\<open>[%02d.%02d.%04d %02d:%02d:%02d] \<close>.\<close>

record tm =
  tm_mday :: int
  tm_mon :: int
  tm_year :: int
  tm_hour :: int
  tm_min :: int
  tm_sec :: int

definition format_stamp :: "tm \<Rightarrow> string" where
  "format_stamp t = ''['' @ show_int_pad 2 (tm_mday t) @ ''.'' @ show_int_pad 2 (tm_mon t + 1) @ ''.''
     @ show_int_pad 4 (tm_year t + 1900) @ '' '' @ show_int_pad 2 (tm_hour t) @ '':''
     @ show_int_pad 2 (tm_min t) @ '':'' @ show_int_pad 2 (tm_sec t) @ ''] ''"

definition to_file :: "string \<Rightarrow> log_state \<Rightarrow> log_state" where
  "to_file msg s = (case log_file s of None \<Rightarrow> s
     | Some p \<Rightarrow> s\<lparr>log_disk := (log_disk s)(p := log_disk s p @ msg)\<rparr>)"

definition to_stdout :: "string \<Rightarrow> log_state \<Rightarrow> log_state" where
  "to_stdout msg s = s\<lparr>log_stdout := log_stdout s @ msg\<rparr>"

section \<open>Opening and closing\<close>

text \<open>
  \<open>fopen_ok\<close> tells which paths \<^verbatim>\<open>fopen\<close> can open and \<open>dir_ok\<close> whether the log directory is there. An
  absolute name is opened without asking whether a log is open already.
\<close>

definition log_open_path :: "(string \<Rightarrow> bool) \<Rightarrow> string \<Rightarrow> log_state \<Rightarrow> log_state" where
  "log_open_path fopen_ok path s = s\<lparr>log_file := (if fopen_ok path then Some path else None)\<rparr>"

definition make_log_dir :: "bool \<Rightarrow> log_state \<Rightarrow> log_state" where
  "make_log_dir dir_ok s = (if dir_ok then s else s\<lparr>dirs_made := dirs_made s @ [log_path]\<rparr>)"

definition blts_log_open ::
    "(string \<Rightarrow> bool) \<Rightarrow> bool \<Rightarrow> string option \<Rightarrow> 32 word \<Rightarrow> log_state \<Rightarrow> log_state \<times> int" where
  "blts_log_open fopen_ok dir_ok filename flags s =
     (let opened = (case filename of
            None \<Rightarrow> Some (log_open_path fopen_ok ''/dev/null'' s)
          | Some f \<Rightarrow>
              if f \<noteq> [] \<and> hd f = CHR ''/'' then Some (log_open_path fopen_ok f s)
              else if log_file s \<noteq> None then None
              else Some (log_open_path fopen_ok (log_path @ ''/'' @ basename f) (make_log_dir dir_ok s)))
      in (case opened of None \<Rightarrow> (s, - 1)
          | Some s1 \<Rightarrow>
              if log_file s1 = None then (s1, - 1)
              else (s1\<lparr>log_console := (if has_flag flags BLTS_LOG_FLAG_STDOUT then True else log_console s1),
                       logging_flags := flags\<rparr>, 0)))"

definition blts_log_close :: "bool \<Rightarrow> log_state \<Rightarrow> log_state \<times> int" where
  "blts_log_close fclose_ok s = (if log_file s = None then (s, - 1)
     else (s\<lparr>log_file := None\<rparr>, if fclose_ok then 0 else - 1))"

definition blts_log_set_level :: "int \<Rightarrow> log_state \<Rightarrow> log_state" where
  "blts_log_set_level level s = s\<lparr>logging_level := level\<rparr>"

definition blts_log_get_level :: "log_state \<Rightarrow> int" where
  "blts_log_get_level s = logging_level s"

section \<open>Messages\<close>

definition blts_log_print_level :: "tm \<Rightarrow> int \<Rightarrow> string \<Rightarrow> log_state \<Rightarrow> log_state" where
  "blts_log_print_level now level msg s =
     (if log_file s = None then s
      else (let level = (if level > 5 then 5 else if level < 0 then 0 else level);
                file = has_flag (logging_flags s) BLTS_LOG_FLAG_FILE;
                con = has_flag (logging_flags s) BLTS_LOG_FLAG_STDOUT
            in if level < logging_level s then s
               else (let s = (if has_flag (logging_flags s) BLTS_LOG_FLAG_TS
                              then (let s = (if file then to_file (format_stamp now) s else s)
                                    in if con then to_stdout (format_stamp now) s else s)
                              else s);
                         s = (if file then to_file msg s else s)
                     in if con then to_stdout msg s else s)))"

section \<open>The deprecated interface\<close>

definition log_open ::
    "(string \<Rightarrow> bool) \<Rightarrow> bool \<Rightarrow> string option \<Rightarrow> bool \<Rightarrow> log_state \<Rightarrow> log_state \<times> int" where
  "log_open fopen_ok dir_ok filename log_to_console s =
     (let opened = (case filename of
            None \<Rightarrow> Some (log_open_path fopen_ok ''/dev/null'' s)
          | Some f \<Rightarrow>
              if log_file s \<noteq> None then None
              else Some (log_open_path fopen_ok (log_path @ ''/'' @ basename f) (make_log_dir dir_ok s)))
      in (case opened of None \<Rightarrow> (s, - 1)
          | Some s1 \<Rightarrow>
              if log_file s1 = None then (s1, - 1)
              else (s1\<lparr>log_console := log_to_console,
                       logging_flags := (if log_to_console
                         then Bit_Operations.or BLTS_LOG_FLAG_FILE BLTS_LOG_FLAG_STDOUT
                         else BLTS_LOG_FLAG_FILE)\<rparr>, 0)))"

definition log_close :: "bool \<Rightarrow> log_state \<Rightarrow> log_state \<times> int" where
  "log_close fclose_ok s = (if log_file s = None then (s, - 1)
     else (s\<lparr>log_file := None\<rparr>, if fclose_ok then 0 else - 1))"

definition log_set_timestamp :: "bool \<Rightarrow> log_state \<Rightarrow> log_state" where
  "log_set_timestamp b s = s\<lparr>print_timestamp := b\<rparr>"

definition log_set_level :: "int \<Rightarrow> log_state \<Rightarrow> log_state" where
  "log_set_level level s = s\<lparr>logging_level := level\<rparr>"

definition stamp_old :: "tm \<Rightarrow> log_state \<Rightarrow> log_state \<times> int" where
  "stamp_old now s = (if \<not> print_timestamp s then (s, 0)
     else (let s1 = to_file (format_stamp now) s
           in (if log_console s then to_stdout (format_stamp now) s1 else s1, int (length (format_stamp now)))))"

definition log_print :: "tm \<Rightarrow> string \<Rightarrow> log_state \<Rightarrow> log_state \<times> int" where
  "log_print now msg s = (if log_file s = None then (s, - ENOENT)
     else (case stamp_old now s of (s1, n) \<Rightarrow>
       (let s2 = to_file msg s1
        in (if log_console s then to_stdout msg s2 else s2, n + int (length msg)))))"

text \<open>The level's name goes to the file only.\<close>

definition log_print_level :: "tm \<Rightarrow> int \<Rightarrow> string \<Rightarrow> log_state \<Rightarrow> log_state \<times> int" where
  "log_print_level now level msg s = (if log_file s = None then (s, - ENOENT)
     else (let level = (if level > 3 then 3 else level); level = (if level < 0 then 0 else level)
           in if level \<ge> logging_level s
              then (case stamp_old now s of (s1, n) \<Rightarrow>
                (let name = logging_level_message ! nat level;
                     s2 = to_file msg (to_file name s1)
                 in (if log_console s then to_stdout msg s2 else s2,
                     n + int (length name) + int (length msg))))
              else (s, 0)))"

section \<open>Kernel log capture\<close>

text \<open>
  \<open>captures\<close> are the capturing child processes that run. \<open>klog\<close> is the result of clearing the kernel
  buffer, \<open>Some\<close> the errno when it fails, and \<open>child\<close> what \<^verbatim>\<open>fork\<close> gives the parent.
\<close>

definition blts_log_start_syslog_capture :: "int option \<Rightarrow> int \<Rightarrow> log_state \<Rightarrow> log_state \<times> int" where
  "blts_log_start_syslog_capture klog child s = (case klog of Some e \<Rightarrow> (s, - e) | None \<Rightarrow>
     if child < 0 then (s, - 1)
     else (s\<lparr>syslog_pid := child, captures := insert child (captures s)\<rparr>, 0))"

definition blts_log_end_syslog_capture :: "log_state \<Rightarrow> log_state \<times> int" where
  "blts_log_end_syslog_capture s = (if syslog_pid s = 0 then (s, - 1)
     else (s\<lparr>captures := captures s - {syslog_pid s}, syslog_pid := 0\<rparr>, 0))"

definition start_syslog_capture :: "int \<Rightarrow> log_state \<Rightarrow> log_state \<times> int" where
  "start_syslog_capture child s = (if child < 0 then (s, - 1)
     else (s\<lparr>syslog_pid := child, captures := insert child (captures s)\<rparr>, 0))"

definition end_syslog_capture :: "log_state \<Rightarrow> log_state \<times> int" where
  "end_syslog_capture s = (if syslog_pid s = 0 then (s, - 1)
     else (s\<lparr>captures := captures s - {syslog_pid s}, syslog_pid := 0\<rparr>, 0))"

text \<open>
  The loop of the capturing child over what successive \<^verbatim>\<open>klogctl\<close> calls give: \<open>None\<close> is an error,
  which ends the loop, and an empty read is skipped. The file was emptied when it was opened.
\<close>

fun syslog_capture_loop :: "bool \<Rightarrow> (string option \<times> tm) list \<Rightarrow> string \<Rightarrow> string" where
  "syslog_capture_loop stamps [] out = out"
| "syslog_capture_loop stamps ((None, now) # rs) out = out"
| "syslog_capture_loop stamps ((Some chunk, now) # rs) out =
     (if chunk = [] then syslog_capture_loop stamps rs out
      else syslog_capture_loop stamps rs (out @ (if stamps then format_stamp now else []) @ chunk))"

definition blts_log_run_syslog_capture ::
    "bool \<Rightarrow> bool \<Rightarrow> (string option \<times> tm) list \<Rightarrow> string option \<times> int" where
  "blts_log_run_syslog_capture fopen_ok stamps rs =
     (if \<not> fopen_ok then (None, - 1) else (Some (syslog_capture_loop stamps rs []), 0))"

section \<open>Facts\<close>

lemma has_flag_or:
  "has_flag (Bit_Operations.or BLTS_LOG_FLAG_FILE BLTS_LOG_FLAG_STDOUT) BLTS_LOG_FLAG_FILE"
  "has_flag (Bit_Operations.or BLTS_LOG_FLAG_FILE BLTS_LOG_FLAG_STDOUT) BLTS_LOG_FLAG_STDOUT"
  "\<not> has_flag (Bit_Operations.or BLTS_LOG_FLAG_FILE BLTS_LOG_FLAG_STDOUT) BLTS_LOG_FLAG_TS"
  "has_flag BLTS_LOG_FLAG_FILE BLTS_LOG_FLAG_FILE" "\<not> has_flag BLTS_LOG_FLAG_FILE BLTS_LOG_FLAG_STDOUT"
  "\<not> has_flag BLTS_LOG_FLAG_FILE BLTS_LOG_FLAG_TS"
  by (simp_all add: has_flag_def log_flag_defs)

definition clamp_level :: "int \<Rightarrow> int" where
  "clamp_level level = max 0 (min 5 level)"

text \<open>Exactly what one message adds, and where.\<close>

lemma blts_log_print_level_file:
  assumes "log_file s = Some p"
  shows "log_disk (blts_log_print_level now level msg s) q = log_disk s q @
    (if q = p \<and> has_flag (logging_flags s) BLTS_LOG_FLAG_FILE \<and> logging_level s \<le> clamp_level level
     then (if has_flag (logging_flags s) BLTS_LOG_FLAG_TS then format_stamp now else []) @ msg else [])"
  using assms by (auto simp: blts_log_print_level_def to_file_def to_stdout_def clamp_level_def Let_def)

lemma blts_log_print_level_stdout:
  assumes "log_file s = Some p"
  shows "log_stdout (blts_log_print_level now level msg s) = log_stdout s @
    (if has_flag (logging_flags s) BLTS_LOG_FLAG_STDOUT \<and> logging_level s \<le> clamp_level level
     then (if has_flag (logging_flags s) BLTS_LOG_FLAG_TS then format_stamp now else []) @ msg else [])"
  using assms by (auto simp: blts_log_print_level_def to_file_def to_stdout_def clamp_level_def Let_def)

lemma blts_log_print_level_closed:
  "log_file s = None \<Longrightarrow> blts_log_print_level now level msg s = s"
  by (simp add: blts_log_print_level_def)

text \<open>The deprecated interface returns the number of characters it added to the file.\<close>

lemma log_print_level_count:
  assumes "log_file s = Some p" and "log_print_level now level msg s = (s', n)"
  shows "\<exists>added. log_disk s' p = log_disk s p @ added \<and> n = int (length added)"
  using assms
  by (auto simp: log_print_level_def stamp_old_def to_file_def to_stdout_def Let_def split: if_splits)

lemma basename_no_slash: "CHR ''/'' \<notin> set (basename f)"
proof (cases "strrchr f (CHR ''/'')")
  case None
  then have "CHR ''/'' \<notin> set f" by (simp add: strrchr_None)
  with None show ?thesis by (simp add: basename_def)
next
  case (Some i)
  then show ?thesis using strrchr_Some [OF Some] by (simp add: basename_def)
qed

text \<open>A relative name is opened in the log directory itself, whatever directories it names.\<close>

lemma blts_log_open_relative:
  assumes "log_file s = None" and "f \<noteq> [] \<longrightarrow> hd f \<noteq> CHR ''/''"
    and "blts_log_open fopen_ok dir_ok (Some f) flags s = (s', 0)"
  shows "\<exists>b. CHR ''/'' \<notin> set b \<and> log_file s' = Some (log_path @ ''/'' @ b)"
  using assms basename_no_slash [of f]
  by (auto simp: blts_log_open_def log_open_path_def make_log_dir_def Let_def split: if_splits)

lemma capture_start_end:
  assumes "0 < child" and "child \<notin> captures s"
  shows "captures (fst (blts_log_end_syslog_capture (fst (blts_log_start_syslog_capture None child s)))) = captures s"
  using assms by (auto simp: blts_log_end_syslog_capture_def blts_log_start_syslog_capture_def)

lemma syslog_capture_loop_concat:
  "syslog_capture_loop False (map (\<lambda>c. (Some c, now)) cs) out = out @ concat cs"
  by (induction cs arbitrary: out) auto

end
