(* ===== verification/Results_Xml.thy ===== *)
theory Results_Xml
  imports Log_Output
begin

text \<open>
  The result file, \<^verbatim>\<open>blts-common/src/blts_results_xml.c\<close>. libxml2 is not part of the program: the
  calls the code makes to its writer are recorded in order in \<open>calls\<close>, and what they return is the
  parameter \<open>lib\<close>; \<open>enc\<close> is \<^verbatim>\<open>xmlEncodeEntitiesReentrant\<close>. Every function returns early at the
  first call that fails. \<open>depth\<close> counts the elements that are open after a sequence of calls.
\<close>

section \<open>Documents and calls\<close>

datatype xml_node = Elem (elem_name: string) "xml_node list" | Text_Node string

datatype xml_call =
    New_Writer "xml_node option"
  | Set_Indent
  | Start_Document
  | Start_Element string
  | Write_Attribute string string
  | Write_Element string string
  | End_Element
  | End_Document
  | Free_Writer
  | Save_File string
  | Free_Doc

record xml_state =
  append_cases :: bool
  doc :: "xml_node list option"
  writer :: bool
  xml_file :: "string option"
  calls :: "xml_call list"

definition initial_xml :: xml_state where
  "initial_xml = \<lparr>append_cases = False, doc = None, writer = False, xml_file = None, calls = []\<rparr>"

type_synonym xml_lib = "xml_call \<Rightarrow> int"
type_synonym xml_enc = "string \<Rightarrow> string option"

definition record_call :: "xml_call \<Rightarrow> xml_state \<Rightarrow> xml_state" where
  "record_call c s = s\<lparr>calls := calls s @ [c]\<rparr>"

text \<open>
  A sequence of checked calls; \<open>None\<close> stands for a string that could not be encoded, which returns
  without a call. The flag tells whether all succeeded.
\<close>

fun xml_do :: "xml_lib \<Rightarrow> xml_call option list \<Rightarrow> xml_state \<Rightarrow> xml_state \<times> bool" where
  "xml_do lib [] s = (s, True)"
| "xml_do lib (None # cs) s = (s, False)"
| "xml_do lib (Some c # cs) s =
     (if lib c < 0 then (record_call c s, False) else xml_do lib cs (record_call c s))"

definition make_string_xml_safe :: "xml_enc \<Rightarrow> xml_state \<Rightarrow> string \<Rightarrow> string option" where
  "make_string_xml_safe enc s str = (if doc s = None then None else enc str)"

definition safe_attribute :: "xml_enc \<Rightarrow> xml_state \<Rightarrow> string \<Rightarrow> string \<Rightarrow> xml_call option" where
  "safe_attribute enc s name v = map_option (Write_Attribute name) (make_string_xml_safe enc s v)"

section \<open>Operations\<close>

text \<open>\<open>writable\<close> and \<open>parsed\<close>: what \<^verbatim>\<open>access\<close> and \<^verbatim>\<open>xmlParseFile\<close> give for the file to append to.\<close>

definition xml_result_open ::
    "xml_lib \<Rightarrow> xml_enc \<Rightarrow> bool \<Rightarrow> xml_node list option \<Rightarrow> string option \<Rightarrow> string option \<Rightarrow> string option
      \<Rightarrow> bool \<Rightarrow> xml_state \<Rightarrow> xml_state \<times> int" where
  "xml_result_open lib enc writable parsed filename suite set_name append_mode s =
     (case (filename, suite, set_name, doc s) of
        (Some f, Some su, Some se, None) \<Rightarrow>
          if append_mode \<and> writable \<and> parsed \<noteq> None
          then (s\<lparr>append_cases := append_mode, xml_file := Some f, doc := parsed\<rparr>, 0)
          else
            (let s0 = s\<lparr>append_cases := False, xml_file := Some f, doc := Some []\<rparr>;
                 s1 = record_call (New_Writer None) s0
             in if lib (New_Writer None) < 0 then (s1\<lparr>writer := False\<rparr>, - 1)
                else
                  (let s2 = record_call Set_Indent (s1\<lparr>writer := True\<rparr>);
                       (s3, ok) = xml_do lib
                         [Some Start_Document, Some (Start_Element ''testresults''),
                          Some (Write_Attribute ''version'' ''1.0''),
                          Some (Write_Attribute ''environment'' ''unknown''),
                          Some (Write_Attribute ''hwproduct'' ''unknown''),
                          Some (Write_Attribute ''hwbuild'' ''unknown''),
                          Some (Start_Element ''suite''), safe_attribute enc s2 ''name'' su,
                          Some (Start_Element ''set''), safe_attribute enc s2 ''name'' se] s2
                   in (s3, if ok then 0 else - 1)))
      | _ \<Rightarrow> (s, - EFAULT))"

definition xml_result_close :: "xml_state \<Rightarrow> xml_state" where
  "xml_result_close s = (if doc s = None then s
     else
       (let s1 = (if writer s then (record_call Free_Writer (record_call End_Document s))\<lparr>writer := False\<rparr> else s);
            s2 = (case xml_file s1 of None \<Rightarrow> s1
                  | Some f \<Rightarrow> (record_call (Save_File f) s1)\<lparr>xml_file := None\<rparr>)
        in (record_call Free_Doc s2)\<lparr>doc := None\<rparr>))"

definition format_step_time :: "tm \<Rightarrow> string" where
  "format_step_time t = show_int_pad 2 (tm_year t + 1900) @ ''-'' @ show_int_pad 2 (tm_mon t + 1) @ ''-''
     @ show_int_pad 2 (tm_mday t) @ '' '' @ show_int_pad 2 (tm_hour t) @ '':''
     @ show_int_pad 2 (tm_min t) @ '':'' @ show_int_pad 2 (tm_sec t)"

text \<open>The failure text is encoded too, but it is the text itself that is written.\<close>

definition step_calls ::
    "xml_enc \<Rightarrow> xml_state \<Rightarrow> int \<Rightarrow> int \<Rightarrow> tm \<Rightarrow> tm \<Rightarrow> string option \<Rightarrow> string option \<Rightarrow> xml_call option list" where
  "step_calls enc s expected_result return_code start_tm end_tm cmdline failure_info =
     [Some (Start_Element ''step'')]
     @ (case cmdline of None \<Rightarrow> [] | Some c \<Rightarrow> [safe_attribute enc s ''command'' c])
     @ [Some (Write_Attribute ''result'' (if expected_result = return_code then ''PASS'' else ''FAIL''))]
     @ (case failure_info of None \<Rightarrow> []
        | Some f \<Rightarrow> [map_option (\<lambda>_. Write_Attribute ''failure_info'' f) (make_string_xml_safe enc s f)])
     @ [Some (Write_Element ''expected_result'' (show_int expected_result)),
        Some (Write_Element ''return_code'' (show_int return_code)),
        Some (Write_Element ''start'' (format_step_time start_tm)),
        Some (Write_Element ''end'' (format_step_time end_tm))]"

definition xml_result_write_step ::
    "xml_lib \<Rightarrow> xml_enc \<Rightarrow> int \<Rightarrow> int \<Rightarrow> tm option \<Rightarrow> tm option \<Rightarrow> string option \<Rightarrow> string option
      \<Rightarrow> xml_state \<Rightarrow> xml_state \<times> int" where
  "xml_result_write_step lib enc expected_result return_code start_tm end_tm cmdline failure_info s =
     (if \<not> writer s then (s, - EFAULT)
      else (case (start_tm, end_tm) of
          (Some st, Some en) \<Rightarrow>
            (case xml_do lib (step_calls enc s expected_result return_code st en cmdline failure_info) s of
               (s1, False) \<Rightarrow> (s1, - 1)
             | (s1, True) \<Rightarrow> (record_call End_Element s1, lib End_Element))
        | _ \<Rightarrow> (s, - EFAULT)))"

text \<open>\<^verbatim>\<open>search_node\<close> over a list of siblings: the node itself, then its children, then the next one.\<close>

fun search_node :: "xml_node list \<Rightarrow> string \<Rightarrow> xml_node option" where
  "search_node [] name = None"
| "search_node (Text_Node t # ns) name = search_node ns name"
| "search_node (Elem n cs # ns) name =
     (if n = name then Some (Elem n cs)
      else (case search_node cs name of Some x \<Rightarrow> Some x | None \<Rightarrow> search_node ns name))"

definition xml_result_start_case ::
    "xml_lib \<Rightarrow> xml_enc \<Rightarrow> string option \<Rightarrow> bool \<Rightarrow> int \<Rightarrow> xml_state \<Rightarrow> xml_state \<times> int" where
  "xml_result_start_case lib enc name manual result s =
     (case name of None \<Rightarrow> (s, - EFAULT) | Some nm \<Rightarrow>
        (let (s1, r1) =
           (if append_cases s
            then
              (let w = New_Writer (search_node (case doc s of None \<Rightarrow> [] | Some ns \<Rightarrow> ns) ''set'');
                   s1 = record_call w s
               in if lib w < 0 then (s1\<lparr>writer := False\<rparr>, - 1)
                  else (case xml_do lib [Some Start_Document] (record_call Set_Indent (s1\<lparr>writer := True\<rparr>)) of
                          (s2, ok) \<Rightarrow> (s2, if ok then 0 else - 1)))
            else if writer s then (s, 0) else (s, - EFAULT))
         in if r1 \<noteq> 0 then (s1, r1)
            else (case xml_do lib
                [Some (Start_Element ''case''), safe_attribute enc s1 ''name'' nm,
                 Some (Write_Attribute ''manual'' (if manual then ''true'' else ''false'')),
                 Some (Write_Attribute ''insignificant'' ''false''),
                 Some (Write_Attribute ''result'' (if result \<noteq> 0 then ''FAIL'' else ''PASS''))] s1 of
              (s2, ok) \<Rightarrow> (s2, if ok then 0 else - 1))))"

definition xml_result_end_case :: "xml_state \<Rightarrow> xml_state \<times> int" where
  "xml_result_end_case s = (if \<not> writer s then (s, - EFAULT)
     else
       (let s1 = record_call End_Element s
        in ((if append_cases s1
             then (record_call Free_Writer (record_call End_Document s1))\<lparr>writer := False\<rparr> else s1), 0)))"

section \<open>Search order\<close>

fun preorder :: "xml_node list \<Rightarrow> xml_node list" where
  "preorder [] = []"
| "preorder (Text_Node t # ns) = preorder ns"
| "preorder (Elem n cs # ns) = Elem n cs # preorder cs @ preorder ns"

lemma find_append: "find P (xs @ ys) = (case find P xs of Some x \<Rightarrow> Some x | None \<Rightarrow> find P ys)"
  by (induction xs) simp_all

lemma search_node_preorder:
  "search_node ns name = find (\<lambda>n. elem_name n = name) (preorder ns)"
  by (induction ns name rule: search_node.induct) (simp_all add: find_append split: option.splits)

section \<open>Balance\<close>

fun depth_after :: "int \<Rightarrow> xml_call list \<Rightarrow> int" where
  "depth_after d [] = d"
| "depth_after d (Start_Element n # cs) = depth_after (d + 1) cs"
| "depth_after d (End_Element # cs) = depth_after (d - 1) cs"
| "depth_after d (End_Document # cs) = depth_after 0 cs"
| "depth_after d (_ # cs) = depth_after d cs"

definition open_elements :: "xml_state \<Rightarrow> int" where
  "open_elements s = depth_after 0 (calls s)"

lemma depth_after_append: "depth_after d (xs @ ys) = depth_after (depth_after d xs) ys"
  by (induction d xs rule: depth_after.induct) simp_all

text \<open>When all calls succeed, what is recorded is the whole sequence.\<close>

lemma xml_do_ok:
  assumes "\<And>c. 0 \<le> lib c" and "None \<notin> set cs"
  shows "xml_do lib cs s = (s\<lparr>calls := calls s @ map the cs\<rparr>, True)"
  using assms(2)
proof (induction cs arbitrary: s)
  case Nil
  show ?case by simp
next
  case (Cons c cs)
  then show ?case using assms(1) by (cases c) (auto simp: record_call_def not_less)
qed

lemma total_encoder:
  assumes "\<And>x. enc x \<noteq> None"
  obtains g where "enc = (\<lambda>x. Some (g x))"
proof
  show "enc = (\<lambda>x. Some (the (enc x)))" using assms by (simp add: fun_eq_iff)
qed

lemma safe_attribute_ok:
  "doc s \<noteq> None \<Longrightarrow> safe_attribute (\<lambda>x. Some (g x)) s n v = Some (Write_Attribute n (g v))"
  by (simp add: safe_attribute_def make_string_xml_safe_def)

lemma write_step_balanced:
  assumes lib: "\<And>c. 0 \<le> lib c" and enc: "\<And>x. enc x \<noteq> None" and "writer s" and "doc s \<noteq> None"
    and "xml_result_write_step lib enc e r (Some st) (Some en) cmd info s = (s', ret)"
  shows "open_elements s' = open_elements s \<and> 0 \<le> ret \<and> s' = s\<lparr>calls := calls s'\<rparr>
    \<and> Write_Attribute ''result'' (if e = r then ''PASS'' else ''FAIL'') \<in> set (calls s')"
proof -
  obtain g where g: "enc = (\<lambda>x. Some (g x))" using total_encoder [OF enc] .
  have none: "None \<notin> set (step_calls enc s e r st en cmd info)"
    using assms(4) by (auto simp: g step_calls_def safe_attribute_def make_string_xml_safe_def split: option.splits)
  have depth: "depth_after d (map the (step_calls enc s e r st en cmd info)) = d + 1" for d
    using assms(4)
    by (auto simp: g step_calls_def safe_attribute_def make_string_xml_safe_def split: option.splits)
  have "s' = s\<lparr>calls := calls s @ map the (step_calls enc s e r st en cmd info) @ [End_Element]\<rparr>" "ret = lib End_Element"
    using assms(3,5) by (simp_all add: xml_result_write_step_def xml_do_ok [OF lib none] record_call_def)
  moreover have "Write_Attribute ''result'' (if e = r then ''PASS'' else ''FAIL'')
      \<in> set (map the (step_calls enc s e r st en cmd info))" by (simp add: step_calls_def)
  ultimately show ?thesis
    using lib by (auto simp: open_elements_def depth_after_append depth)
qed

text \<open>One test case in the report, with its steps.\<close>

fun write_steps ::
    "xml_lib \<Rightarrow> xml_enc \<Rightarrow> (int \<times> int \<times> tm \<times> tm \<times> string option \<times> string option) list \<Rightarrow> xml_state \<Rightarrow> xml_state" where
  "write_steps lib enc [] s = s"
| "write_steps lib enc ((e, r, st, en, cmd, info) # xs) s =
     write_steps lib enc xs (fst (xml_result_write_step lib enc e r (Some st) (Some en) cmd info s))"

lemma write_steps_balanced:
  assumes lib: "\<And>c. 0 \<le> lib c" and enc: "\<And>x. enc x \<noteq> None" and "writer s" and "doc s \<noteq> None"
  shows "open_elements (write_steps lib enc xs s) = open_elements s
    \<and> write_steps lib enc xs s = s\<lparr>calls := calls (write_steps lib enc xs s)\<rparr>"
  using assms(3,4)
proof (induction xs arbitrary: s)
  case Nil
  show ?case by simp
next
  case (Cons x xs)
  obtain e r st en cmd info where x: "x = (e, r, st, en, cmd, info)" by (metis prod_cases6)
  obtain s' ret where w: "xml_result_write_step lib enc e r (Some st) (Some en) cmd info s = (s', ret)" by fastforce
  from write_step_balanced [OF lib enc Cons.prems w]
  have s': "open_elements s' = open_elements s" "s' = s\<lparr>calls := calls s'\<rparr>" by simp_all
  have "writer s'" "doc s' \<noteq> None" by (subst s'(2), simp add: Cons.prems)+
  from Cons.IH [OF this] s' w show ?case unfolding x
    by (metis (no_types, lifting) fst_conv write_steps.simps(2) xml_state.surjective xml_state.update_convs(5))
qed

lemma case_balanced:
  assumes lib: "\<And>c. 0 \<le> lib c" and enc: "\<And>x. enc x \<noteq> None" and w: "writer s" and d: "doc s \<noteq> None"
    and app: "\<not> append_cases s"
  shows "\<exists>s1. xml_result_start_case lib enc (Some name) manual result s = (s1, 0)
     \<and> open_elements s1 = open_elements s + 1
     \<and> (\<exists>s2. xml_result_end_case (write_steps lib enc xs s1) = (s2, 0)
          \<and> open_elements s2 = open_elements s \<and> writer s2 \<and> doc s2 = doc s \<and> \<not> append_cases s2)"
proof -
  obtain g where g: "enc = (\<lambda>x. Some (g x))" using total_encoder [OF enc] .
  let ?cs = "[Start_Element ''case'', Write_Attribute ''name'' (g name),
     Write_Attribute ''manual'' (if manual then ''true'' else ''false''), Write_Attribute ''insignificant'' ''false'',
     Write_Attribute ''result'' (if result \<noteq> 0 then ''FAIL'' else ''PASS'')]"
  define s1 where "s1 = s\<lparr>calls := calls s @ ?cs\<rparr>"
  have start: "xml_result_start_case lib enc (Some name) manual result s = (s1, 0)"
    using app w d by (simp add: xml_result_start_case_def g safe_attribute_ok [OF d] xml_do_ok [OF lib] s1_def
        del: xml_do.simps)
  have o1: "open_elements s1 = open_elements s + 1" by (simp add: s1_def open_elements_def depth_after_append)
  let ?t = "write_steps lib enc xs s1"
  have bal: "open_elements ?t = open_elements s1" "?t = s1\<lparr>calls := calls ?t\<rparr>"
    using write_steps_balanced [OF lib enc, where s = s1 and xs = xs] w d by (simp_all add: s1_def)
  have t: "writer ?t" "doc ?t = doc s" "\<not> append_cases ?t"
    by (subst bal(2), simp add: s1_def w app)+
  have "xml_result_end_case ?t = (record_call End_Element ?t, 0)"
    using t by (simp add: xml_result_end_case_def record_call_def)
  moreover have "open_elements (record_call End_Element ?t) = open_elements s"
    using bal(1) o1 by (simp add: open_elements_def record_call_def depth_after_append)
  ultimately show ?thesis using start o1 t by (auto simp: record_call_def)
qed

end
