(* ===== verification/Csv_Report.thy ===== *)
theory Csv_Report
  imports C_Text
begin

text \<open>
  Measurement reporting: the CSV result file of \<^verbatim>\<open>blts-common/src/csv_file.c\<close> and the line format of
  \<^verbatim>\<open>blts_reporting.c\<close>. The state is the file that is open, if any, and the contents of all files;
  what the system calls of one operation return is its \<open>csv_env\<close> argument.
\<close>

record csv_state =
  csv_file :: "string option"
  csv_disk :: "string \<rightharpoonup> string"

record csv_env =
  fopen_errno :: "int option"
  lock_errno :: "int option"
  fputs_eof :: bool
  unlock_errno :: "int option"

definition all_succeed :: csv_env where
  "all_succeed = \<lparr>fopen_errno = None, lock_errno = None, fputs_eof = False, unlock_errno = None\<rparr>"

section \<open>Operations\<close>

text \<open>Mode \<^verbatim>\<open>"wc"\<close> empties the file, mode \<^verbatim>\<open>"ac"\<close> keeps what it has.\<close>

definition csv_result_file_open :: "csv_env \<Rightarrow> string \<Rightarrow> bool \<Rightarrow> csv_state \<Rightarrow> csv_state \<times> int" where
  "csv_result_file_open env path append_mode s =
     (if csv_file s \<noteq> None then (s, - EBUSY)
      else (case fopen_errno env of
          Some e \<Rightarrow> (s, - e)
        | None \<Rightarrow>
            (let old = (case csv_disk s path of None \<Rightarrow> '''' | Some c \<Rightarrow> c)
             in (s\<lparr>csv_file := Some path, csv_disk := (csv_disk s)(path \<mapsto> if append_mode then old else '''')\<rparr>, 0))))"

text \<open>A failed unlock replaces the result of the write.\<close>

definition csv_result_add :: "csv_env \<Rightarrow> string \<Rightarrow> csv_state \<Rightarrow> csv_state \<times> int" where
  "csv_result_add env str s = (case csv_file s of None \<Rightarrow> (s, 0) | Some path \<Rightarrow>
     (case lock_errno env of Some e \<Rightarrow> (s, - e) | None \<Rightarrow>
        (let old = (case csv_disk s path of None \<Rightarrow> '''' | Some c \<Rightarrow> c);
             (s1, ret) = (if fputs_eof env then (s, - EIO)
                          else (s\<lparr>csv_disk := (csv_disk s)(path \<mapsto> old @ str)\<rparr>, 0))
         in (case unlock_errno env of Some e \<Rightarrow> (s1, - e) | None \<Rightarrow> (s1, ret)))))"

definition csv_result_file_close :: "csv_env \<Rightarrow> csv_state \<Rightarrow> csv_state \<times> int" where
  "csv_result_file_close env s = (case csv_file s of None \<Rightarrow> (s, 0) | Some path \<Rightarrow>
     (case lock_errno env of Some e \<Rightarrow> (s, - e) | None \<Rightarrow> (s\<lparr>csv_file := None\<rparr>, 0)))"

definition extended_result_line :: "string \<Rightarrow> double \<Rightarrow> string \<Rightarrow> string" where
  "extended_result_line tag value unit = tag @ '';'' @ show_double value @ '';'' @ unit @ '';\<newline>''"

definition report_extended_result ::
    "csv_env \<Rightarrow> string \<Rightarrow> double \<Rightarrow> string \<Rightarrow> csv_state \<Rightarrow> csv_state \<times> int" where
  "report_extended_result env tag value unit s = csv_result_add env (extended_result_line tag value unit) s"

text \<open>The limit functions are stubs in the source too.\<close>

definition report_load_fail_limits :: "string \<Rightarrow> int" where
  "report_load_fail_limits filename = - 1"

definition report_set_fail_limit :: "string \<Rightarrow> double \<Rightarrow> int" where
  "report_set_fail_limit tag fail = - 1"

definition report_get_fail_limit :: "string \<Rightarrow> int" where
  "report_get_fail_limit tag = - 1"

definition report_is_result_fail :: "string \<Rightarrow> double \<Rightarrow> int" where
  "report_is_result_fail tag value = - 1"

section \<open>What a session leaves in the file\<close>

fun report_all :: "(string \<times> double \<times> string) list \<Rightarrow> csv_state \<Rightarrow> csv_state \<times> int list" where
  "report_all [] s = (s, [])"
| "report_all ((t, v, u) # rs) s =
     (case report_extended_result all_succeed t v u s of (s1, ret) \<Rightarrow>
      (case report_all rs s1 of (s2, rets) \<Rightarrow> (s2, ret # rets)))"

definition report_lines :: "(string \<times> double \<times> string) list \<Rightarrow> string" where
  "report_lines rs = concat (map (\<lambda>(t, v, u). extended_result_line t v u) rs)"

lemma report_all_open:
  assumes "csv_file s = Some path" and "csv_disk s path = Some old"
  shows "report_all rs s =
     (s\<lparr>csv_disk := (csv_disk s)(path \<mapsto> old @ report_lines rs)\<rparr>, replicate (length rs) 0)"
  using assms
proof (induction rs arbitrary: s old)
  case Nil
  then have "(csv_disk s)(path \<mapsto> old) = csv_disk s" by (simp add: fun_upd_idem)
  then show ?case by (simp add: report_lines_def)
next
  case (Cons r rs)
  obtain t v u where r: "r = (t, v, u)" by (metis prod_cases3)
  let ?line = "extended_result_line t v u"
  let ?s = "s\<lparr>csv_disk := (csv_disk s)(path \<mapsto> old @ ?line)\<rparr>"
  have step: "report_extended_result all_succeed t v u s = (?s, 0)"
    using Cons.prems by (simp add: report_extended_result_def csv_result_add_def all_succeed_def)
  have "report_all rs ?s =
      (?s\<lparr>csv_disk := (csv_disk ?s)(path \<mapsto> (old @ ?line) @ report_lines rs)\<rparr>, replicate (length rs) 0)"
    by (rule Cons.IH) (simp_all add: Cons.prems)
  moreover have "(old @ ?line) @ report_lines rs = old @ report_lines (r # rs)"
    by (simp add: r report_lines_def)
  ultimately show ?case by (simp only: r report_all.simps step prod.case) (simp add: fun_upd_def cong: if_cong)
qed

lemma report_all_closed:
  "csv_file s = None \<Longrightarrow> report_all rs s = (s, replicate (length rs) 0)"
  by (induction rs) (auto simp: report_extended_result_def csv_result_add_def)

lemma report_session:
  assumes "csv_file s = None"
  shows "(case csv_result_file_open all_succeed path mode s of (s1, r1) \<Rightarrow>
      case report_all rs s1 of (s2, rets) \<Rightarrow>
      case csv_result_file_close all_succeed s2 of (s3, r3) \<Rightarrow>
        (s3, r1, rets, r3)) =
     (s\<lparr>csv_disk := (csv_disk s)(path \<mapsto>
        (if mode then (case csv_disk s path of None \<Rightarrow> '''' | Some c \<Rightarrow> c) else '''') @ report_lines rs)\<rparr>,
      0, replicate (length rs) 0, 0)"
proof -
  define old where "old = (if mode then (case csv_disk s path of None \<Rightarrow> '''' | Some c \<Rightarrow> c) else '''')"
  define s1 where "s1 = s\<lparr>csv_file := Some path, csv_disk := (csv_disk s)(path \<mapsto> old)\<rparr>"
  have "csv_result_file_open all_succeed path mode s = (s1, 0)"
    using assms by (simp add: csv_result_file_open_def all_succeed_def s1_def old_def)
  moreover have "report_all rs s1 =
      (s1\<lparr>csv_disk := (csv_disk s1)(path \<mapsto> old @ report_lines rs)\<rparr>, replicate (length rs) 0)"
    by (rule report_all_open) (simp_all add: s1_def)
  ultimately show ?thesis
    using assms by (simp add: csv_result_file_close_def all_succeed_def s1_def old_def)
qed

text \<open>
  On every failure the file on disk is what it was, or has exactly the whole line added: an
  entry is never written in part, and never to a file that is not the open one.
\<close>

lemma csv_result_add_atomic:
  assumes "csv_result_add env str s = (s', ret)"
  shows "s' = s \<or> (\<exists>path. csv_file s = Some path \<and>
    s' = s\<lparr>csv_disk := (csv_disk s)(path \<mapsto> (case csv_disk s path of None \<Rightarrow> '''' | Some c \<Rightarrow> c) @ str)\<rparr>)"
  using assms by (auto simp: csv_result_add_def Let_def split: option.splits if_splits)

end
