(* ===== verification/Cli_Run.thy ===== *)
theory Cli_Run
  imports Cli_Text Declare_Tests Results_Xml Csv_Report
begin

text \<open>
  Running one test, \<^verbatim>\<open>wait_for_test_case_completion\<close> and \<^verbatim>\<open>run_test\<close> in
  \<^verbatim>\<open>blts-common/src/blts_cli_frontend.c\<close>: a child process per variant, its time limit, the verdict of
  the test, and what goes to the screen and to the result file. What a child does is user code:
  \<open>te_case\<close> gives, for the function of the test case and the pointer it is called with, how many
  times the parent finds it still running and how it ends.
\<close>

section \<open>Waiting for a child\<close>

datatype child_end = Exits int | Killed_By nat

text \<open>The status word of \<^verbatim>\<open>waitpid\<close>: the low eight bits of the exit code, or the signal.\<close>

fun wait_status :: "child_end \<Rightarrow> int" where
  "wait_status (Exits code) = (code mod 256) * 256"
| "wait_status (Killed_By sig) = int sig"

text \<open>
  What the successive polls give: \<open>None\<close> while the child runs, its status when it has ended, and
  after that there is no child to wait for. The result is 0 or 1, and whether the child was killed
  for taking too long. The elapsed time is a 32-bit unsigned number of milliseconds.
\<close>

fun wait_loop :: "int option list \<Rightarrow> int \<Rightarrow> nat \<Rightarrow> nat \<Rightarrow> int \<times> bool" where
  "wait_loop [] ret time_elapsed timeout = (if ret \<noteq> 0 then 1 else 0, False)"
| "wait_loop (poll # polls) ret time_elapsed timeout =
     (let ret = (case poll of None \<Rightarrow> ret | Some st \<Rightarrow> st);
          time_elapsed = u32 (time_elapsed + 100)
      in if timeout \<noteq> 0 \<and> time_elapsed > timeout then (1, True)
         else wait_loop polls ret time_elapsed timeout)"

definition wait_for_test_case_completion :: "int option list \<Rightarrow> nat \<Rightarrow> int \<times> bool" where
  "wait_for_test_case_completion polls timeout = wait_loop polls 0 0 timeout"

definition child_polls :: "nat \<Rightarrow> child_end \<Rightarrow> int option list" where
  "child_polls k e = replicate k None @ [Some (wait_status e)]"

lemma wait_loop_running:
  assumes "e + 100 * k < 2 ^ 32"
  shows "wait_loop (replicate k None @ polls) ret e timeout =
     (if timeout \<noteq> 0 \<and> 0 < k \<and> timeout < e + 100 * k then (1, True)
      else wait_loop polls ret (e + 100 * k) timeout)"
  using assms
proof (induction k arbitrary: e)
  case 0
  show ?case by simp
next
  case (Suc k)
  from Suc.IH [of "e + 100"] Suc.prems show ?case
    by (auto simp: Let_def not_less add.assoc)
qed

lemma wait_for_child:
  assumes "100 * (k + 1) < 2 ^ 32"
  shows "wait_for_test_case_completion (child_polls k e) timeout =
     (if timeout \<noteq> 0 \<and> timeout < 100 * (k + 1) then (1, True)
      else (if wait_status e \<noteq> 0 then 1 else 0, False))"
proof -
  have "wait_for_test_case_completion (child_polls k e) timeout =
      (if timeout \<noteq> 0 \<and> 0 < k \<and> timeout < 100 * k then (1, True)
       else wait_loop [Some (wait_status e)] 0 (100 * k) timeout)"
    using wait_loop_running [of 0 k "[Some (wait_status e)]" 0 timeout] assms
    by (simp add: wait_for_test_case_completion_def child_polls_def)
  also have "wait_loop [Some (wait_status e)] 0 (100 * k) timeout =
      (if timeout \<noteq> 0 \<and> timeout < 100 * (k + 1) then (1, True)
       else (if wait_status e \<noteq> 0 then 1 else 0, False))"
    using assms by (simp add: Let_def)
  finally show ?thesis by auto
qed

section \<open>The surroundings of a test run\<close>

record 'u test_env =
  te_lib :: xml_lib
  te_enc :: xml_enc
  te_gen :: generators
  te_fuel :: nat
  te_handlers :: "'u handlers"
  te_case :: "nat \<Rightarrow> 'u option \<Rightarrow> int \<Rightarrow> nat \<times> child_end"
  te_fork :: "nat \<Rightarrow> bool"
  te_clock :: "nat \<Rightarrow> tm"

record test_world =
  w_config :: config_state
  w_xml :: xml_state
  w_stdout :: "string list"

text \<open>
  The timeout that counts, and one variant: the child applies the variant's values to the user
  pointer and runs the case. \<open>te_fork\<close> tells whether the n-th \<^verbatim>\<open>fork\<close> of the test succeeds.
\<close>

definition real_timeout :: "nat \<Rightarrow> testcase \<Rightarrow> nat" where
  "real_timeout timeout_override tc = (if timeout_override \<noteq> 0 then timeout_override else case_timeout tc)"

definition run_variant ::
    "('u, 'e) test_env_scheme \<Rightarrow> config_state \<Rightarrow> testcase \<Rightarrow> int \<Rightarrow> nat \<Rightarrow> 'u option \<Rightarrow> boxed_value list option \<Rightarrow> int" where
  "run_variant env st tc testnum timeout user_ptr variant =
     (let p = (case variant of None \<Rightarrow> user_ptr
               | Some vs \<Rightarrow> mutate_user_params (te_handlers env) st (case_name tc) vs user_ptr)
      in case te_case env (case_func tc) p testnum of (k, e) \<Rightarrow>
           fst (wait_for_test_case_completion (child_polls k e) timeout))"

text \<open>The list of failed variants, latest first: number, values, and the times before and after.\<close>

record result_list =
  rl_index :: nat
  rl_values :: "boxed_value list"
  rl_start :: nat
  rl_end :: nat

text \<open>
  The loop over the variants, given those that are left, the number of variants so far and the
  failures so far. \<open>None\<close> as the first result is a failed \<^verbatim>\<open>fork\<close>. The values of a failed variant are
  copied by a function that does not take an empty list.
\<close>

fun variants_loop ::
    "('u, 'e) test_env_scheme \<Rightarrow> config_state \<Rightarrow> testcase \<Rightarrow> int \<Rightarrow> nat \<Rightarrow> 'u option \<Rightarrow> (int \<Rightarrow> int \<Rightarrow> string list)
      \<Rightarrow> boxed_value list \<Rightarrow> nat \<Rightarrow> boxed_value list list \<Rightarrow> result_list list \<Rightarrow> string list
      \<Rightarrow> (int option \<times> result_list list \<times> string list) res" where
  "variants_loop env st tc testnum timeout user_ptr line names n [] failed out = Inr (Some 0, failed, out)"
| "variants_loop env st tc testnum timeout user_ptr line names n (v # vs) failed out =
     (if \<not> te_fork env (Suc n) then Inr (None, failed, out)
      else (let ret = run_variant env st tc testnum timeout user_ptr (Some v) in
        if ret \<noteq> 0
        then rbind (dump_labeled_value_list_on_log names v) (\<lambda>_.
               if v = [] then Inl Null_Deref
               else (let failed1 = \<lparr>rl_index = Suc n, rl_values = v, rl_start = n, rl_end = Suc n\<rparr> # failed;
                         out1 = out @ line (int (Suc n)) ret
                     in if vs = [] then Inr (Some ret, failed1, out1)
                        else variants_loop env st tc testnum timeout user_ptr line names (Suc n) vs failed1 out1))
        else if vs = [] then Inr (Some ret, failed, out)
        else variants_loop env st tc testnum timeout user_ptr line names (Suc n) vs failed out))"

text \<open>The steps written for the failed variants.\<close>

definition failure_text :: "boxed_value list \<Rightarrow> result_list \<Rightarrow> string res" where
  "failure_text names f = rbind (dump_labeled_value_list_to_str names (rl_values f)) (\<lambda>p.
     Inr (''Variant '' @ show_int (int (rl_index f)) @ '' failed, parameters: '' @ p))"

fun write_failures ::
    "('u, 'e) test_env_scheme \<Rightarrow> boxed_value list \<Rightarrow> string \<Rightarrow> int \<Rightarrow> result_list list \<Rightarrow> xml_state \<Rightarrow> xml_state res" where
  "write_failures env names cmdline ret [] x = Inr x"
| "write_failures env names cmdline ret (f # fs) x =
     rbind (failure_text names f) (\<lambda>info.
       write_failures env names cmdline ret fs
         (fst (xml_result_write_step (te_lib env) (te_enc env) 0 ret (Some (te_clock env (rl_start f)))
                 (Some (te_clock env (rl_end f))) (Some cmdline) (Some info) x)))"

text \<open>The entry of the test in the result file, \<open>n\<close> variants having been run.\<close>

definition report_test ::
    "('u, 'e) test_env_scheme \<Rightarrow> bool \<Rightarrow> testcase \<Rightarrow> boxed_value list \<Rightarrow> nat \<Rightarrow> string \<Rightarrow> int \<Rightarrow> result_list list
      \<Rightarrow> xml_state \<Rightarrow> xml_state res" where
  "report_test env manual_execution tc names n cmdline ret failed x =
     (let x1 = fst (xml_result_start_case (te_lib env) (te_enc env) (Some (case_name tc)) manual_execution ret x)
      in rbind (if failed \<noteq> [] then write_failures env names cmdline ret failed x1
                else Inr (fst (xml_result_write_step (te_lib env) (te_enc env) 0 ret
                       (Some (te_clock env 0)) (Some (te_clock env n)) (Some cmdline) None x1)))
           (\<lambda>x2. Inr (fst (xml_result_end_case x2))))"

definition run_test ::
    "('u, 'e) test_env_scheme \<Rightarrow> bool \<Rightarrow> nat \<Rightarrow> string \<Rightarrow> int \<Rightarrow> testcase \<Rightarrow> 'u option \<Rightarrow> string
      \<Rightarrow> 'z test_world_scheme \<Rightarrow> ('z test_world_scheme \<times> int) res" where
  "run_test env manual_execution timeout_override bin_name testnum tc user_ptr cmdline w =
     (let st = w_config w;
          timeout = real_timeout timeout_override tc;
          line = (\<lambda>var r. print_test_case_result manual_execution bin_name (case_name tc) testnum var r)
      in
      rbind (if test_is_variable st (case_name tc)
             then rbind (config_generate_test_variations (te_gen env) (te_fuel env) st (case_name tc)
                           CONFIG_VARIATION_COMBINATIONS)
                    (\<lambda>vs. rbind (config_get_test_param_names st (case_name tc)) (\<lambda>names. Inr (vs, names)))
             else Inr ([], [])) (\<lambda>(variants, names).
      rbind (if variants = []
             then Inr (if te_fork env 1 then Some (run_variant env st tc testnum timeout user_ptr None) else None,
                       [], [])
             else variants_loop env st tc testnum timeout user_ptr line names 0 variants [] [])
        (\<lambda>(r, failed, out). case r of
            None \<Rightarrow> Inr (w\<lparr>w_stdout := w_stdout w @ out\<rparr>, 1)
          | Some last_ret \<Rightarrow>
              (let ret = (if failed \<noteq> [] then 1 else last_ret)
               in rbind (report_test env manual_execution tc names (length variants) cmdline ret failed (w_xml w))
                    (\<lambda>x. Inr (w\<lparr>w_xml := x, w_stdout := w_stdout w @ out @ line (- 1) ret\<rparr>, ret))))))"

section \<open>The verdict\<close>

definition variant_passes :: "('u, 'e) test_env_scheme \<Rightarrow> config_state \<Rightarrow> testcase \<Rightarrow> int \<Rightarrow> nat \<Rightarrow> 'u option \<Rightarrow> boxed_value list \<Rightarrow> bool" where
  "variant_passes env st tc testnum timeout user_ptr v \<longleftrightarrow>
     run_variant env st tc testnum timeout user_ptr (Some v) = 0"

text \<open>The numbers, from 1, of the variants that fail.\<close>

definition failing_numbers :: "(boxed_value list \<Rightarrow> bool) \<Rightarrow> boxed_value list list \<Rightarrow> nat list" where
  "failing_numbers passes vs = map Suc (filter (\<lambda>i. \<not> passes (vs ! i)) [0..<length vs])"

lemma variants_loop_result:
  assumes forks: "\<And>i. te_fork env i" and names: "\<forall>l\<in>set names. bv_type l = CONFIG_PARAM_STRING"
    and "\<forall>v\<in>set vs. v \<noteq> []" and "vs \<noteq> []"
  shows "\<exists>r. variants_loop env st tc testnum timeout p line names n vs failed out =
     Inr (Some r,
       rev (map (\<lambda>i. \<lparr>rl_index = n + Suc i, rl_values = vs ! i, rl_start = n + i, rl_end = n + Suc i\<rparr>)
         (filter (\<lambda>i. run_variant env st tc testnum timeout p (Some (vs ! i)) \<noteq> 0) [0..<length vs])) @ failed,
       out @ concat (map (\<lambda>i. line (int (n + Suc i)) (run_variant env st tc testnum timeout p (Some (vs ! i))))
         (filter (\<lambda>i. run_variant env st tc testnum timeout p (Some (vs ! i)) \<noteq> 0) [0..<length vs])))
     \<and> ((\<forall>v\<in>set vs. run_variant env st tc testnum timeout p (Some v) = 0) \<longrightarrow> r = 0)"
  using assms(3,4)
proof (induction vs arbitrary: n failed out)
  case Nil
  then show ?case by simp
next
  case (Cons v vs)
  let ?ret = "\<lambda>v. run_variant env st tc testnum timeout p (Some v)"
  let ?bad = "\<lambda>vs. filter (\<lambda>i. ?ret (vs ! i) \<noteq> 0) [0..<length vs]"
  let ?entry = "\<lambda>n vs i. \<lparr>rl_index = n + Suc i, rl_values = vs ! i, rl_start = n + i, rl_end = n + Suc i\<rparr>"
  have bad: "?bad (v # vs) = (if ?ret v \<noteq> 0 then [0] else []) @ map Suc (?bad vs)"
    by (simp add: upt_conv_Cons filter_map comp_def del: upt_Suc flip: map_Suc_upt)
  obtain body where dump: "dump_labeled_value_list_on_log names v = Inr body"
    using dump_labeled_loop_total [OF names, of v] Cons.prems(1)
    by (auto simp: dump_labeled_value_list_on_log_def)
  define failed1 where "failed1 = (if ?ret v \<noteq> 0 then [?entry n (v # vs) 0] else []) @ failed"
  define out1 where "out1 = out @ (if ?ret v \<noteq> 0 then line (int (Suc n)) (?ret v) else [])"
  have step: "variants_loop env st tc testnum timeout p line names n (v # vs) failed out =
      (if vs = [] then Inr (Some (?ret v), failed1, out1)
       else variants_loop env st tc testnum timeout p line names (Suc n) vs failed1 out1)"
    using forks dump Cons.prems(1) by (simp add: failed1_def out1_def Let_def)
  show ?case
  proof (cases "vs = []")
    case True
    then show ?thesis unfolding step by (simp add: failed1_def out1_def)
  next
    case False
    with Cons.IH [of "Suc n" failed1 out1] Cons.prems(1) obtain r where
      IH: "variants_loop env st tc testnum timeout p line names (Suc n) vs failed1 out1 =
        Inr (Some r, rev (map (?entry (Suc n) vs) (?bad vs)) @ failed1,
          out1 @ concat (map (\<lambda>i. line (int (Suc n + Suc i)) (?ret (vs ! i))) (?bad vs)))"
      and r: "(\<forall>v\<in>set vs. ?ret v = 0) \<longrightarrow> r = 0" by auto
    have "rev (map (?entry n (v # vs)) (?bad (v # vs))) @ failed = rev (map (?entry (Suc n) vs) (?bad vs)) @ failed1"
      unfolding bad failed1_def by (simp add: comp_def)
    moreover have "out @ concat (map (\<lambda>i. line (int (n + Suc i)) (?ret ((v # vs) ! i))) (?bad (v # vs))) =
        out1 @ concat (map (\<lambda>i. line (int (Suc n + Suc i)) (?ret (vs ! i))) (?bad vs))"
      unfolding bad out1_def by (simp add: comp_def)
    ultimately show ?thesis using IH r False unfolding step by auto
  qed
qed

lemma run_variant_01: "run_variant env st tc testnum timeout p v = 0 \<or> run_variant env st tc testnum timeout p v = 1"
proof -
  have "fst (wait_loop polls ret e timeout) = 0 \<or> fst (wait_loop polls ret e timeout) = 1" for polls ret e
    by (induction polls ret e timeout rule: wait_loop.induct) (auto simp: Let_def)
  then show ?thesis
    by (auto simp: run_variant_def wait_for_test_case_completion_def Let_def split: prod.splits)
qed

lemma test_param_names_strings:
  assumes "config_get_test_param_names st t = Inr names"
  shows "\<forall>l\<in>set names. bv_type l = CONFIG_PARAM_STRING"
proof -
  have "\<forall>l\<in>set ys. bv_type l = CONFIG_PARAM_STRING"
    if "rmap (\<lambda>p. rbind (sym_at st p) (\<lambda>e. Inr (boxed_value_new_string (sym_key e)))) ps = Inr ys" for ps ys
    using that unfolding rmap_eq_Inr
    by (induction rule: list_all2_induct) (auto simp: boxed_value_new_defs)
  moreover from assms obtain c where "collect_test_params st t = Inr c"
    by (auto simp: config_get_test_param_names_def)
  ultimately show ?thesis
    using assms by (cases c) (auto simp: config_get_test_param_names_def)
qed

lemma dump_to_str_total:
  assumes "\<forall>l\<in>set names. bv_type l = CONFIG_PARAM_STRING"
  shows "\<exists>s. dump_labeled_value_list_to_str names vs = Inr s"
  using dump_labeled_loop_total [OF assms, of vs]
  by (auto simp: dump_labeled_log_eq_str dump_labeled_value_list_on_log_def)

lemma write_failures_total:
  assumes "\<forall>l\<in>set names. bv_type l = CONFIG_PARAM_STRING"
  shows "\<exists>x'. write_failures env names cmdline ret fs x = Inr x'"
proof (induction fs arbitrary: x)
  case Nil
  show ?case by simp
next
  case (Cons f fs)
  from dump_to_str_total [OF assms, of "rl_values f"] obtain s where
    "dump_labeled_value_list_to_str names (rl_values f) = Inr s" ..
  with Cons.IH show ?case by (simp add: failure_text_def)
qed

lemma report_test_total:
  assumes "\<forall>l\<in>set names. bv_type l = CONFIG_PARAM_STRING"
  shows "\<exists>x'. report_test env manual tc names n cmdline ret failed x = Inr x'"
  using write_failures_total [OF assms, of env cmdline ret failed]
  by (cases "failed = []") (auto simp: report_test_def Let_def)

lemma run_test_verdict:
  assumes var: "test_is_variable (w_config w) (case_name tc)"
    and gen: "config_generate_test_variations (te_gen env) (te_fuel env) (w_config w) (case_name tc)
        CONFIG_VARIATION_COMBINATIONS = Inr vs"
    and names: "config_get_test_param_names (w_config w) (case_name tc) = Inr names"
    and vs: "vs \<noteq> []" "\<forall>v\<in>set vs. v \<noteq> []" and forks: "\<And>i. te_fork env i"
  shows "\<exists>w'. run_test env manual override bin testnum tc p cmdline w =
      Inr (w', if \<forall>v\<in>set vs. variant_passes env (w_config w) tc testnum (real_timeout override tc) p v then 0 else 1)
    \<and> w_config w' = w_config w
    \<and> w_stdout w' = w_stdout w @ concat (map (\<lambda>k. print_test_case_result manual bin (case_name tc) testnum (int k) 1)
        (failing_numbers (variant_passes env (w_config w) tc testnum (real_timeout override tc) p) vs))
      @ print_test_case_result manual bin (case_name tc) testnum (- 1)
        (if \<forall>v\<in>set vs. variant_passes env (w_config w) tc testnum (real_timeout override tc) p v then 0 else 1)"
proof -
  define line where "line = print_test_case_result manual bin (case_name tc) testnum"
  define pass where "pass = variant_passes env (w_config w) tc testnum (real_timeout override tc) p"
  define ret where "ret v = run_variant env (w_config w) tc testnum (real_timeout override tc) p (Some v)" for v
  have pass: "pass v \<longleftrightarrow> ret v = 0" for v by (simp add: pass_def ret_def variant_passes_def)
  have ret1: "\<not> pass v \<Longrightarrow> ret v = 1" for v
    using run_variant_01 [of env "w_config w" tc testnum "real_timeout override tc" p "Some v"]
    unfolding pass by (auto simp: ret_def)
  note str = test_param_names_strings [OF names]
  let ?bad = "filter (\<lambda>i. ret (vs ! i) \<noteq> 0) [0..<length vs]"
  let ?entry = "\<lambda>i. \<lparr>rl_index = Suc i, rl_values = vs ! i, rl_start = i, rl_end = Suc i\<rparr>"
  from variants_loop_result [OF forks str vs(2,1), of "w_config w" tc testnum "real_timeout override tc" p line 0 "[]" "[]"]
  obtain r where loop: "variants_loop env (w_config w) tc testnum (real_timeout override tc) p line names 0 vs [] [] =
      Inr (Some r, rev (map ?entry ?bad), concat (map (\<lambda>i. line (int (Suc i)) (ret (vs ! i))) ?bad))"
    and r: "(\<forall>v\<in>set vs. ret v = 0) \<longrightarrow> r = 0" by (auto simp: ret_def)
  have bad: "?bad = [] \<longleftrightarrow> (\<forall>v\<in>set vs. pass v)"
    by (auto simp: filter_empty_conv pass all_set_conv_all_nth)
  have out: "concat (map (\<lambda>i. line (int (Suc i)) (ret (vs ! i))) ?bad) =
      concat (map (\<lambda>k. line (int k) 1) (failing_numbers pass vs))"
  proof -
    have "map (\<lambda>i. line (int (Suc i)) (ret (vs ! i))) ?bad = map (\<lambda>i. line (int (Suc i)) 1) ?bad"
    proof (rule map_cong [OF refl])
      fix i assume "i \<in> set ?bad"
      then have "ret (vs ! i) = 1" using ret1 [of "vs ! i"] by (simp add: pass)
      then show "line (int (Suc i)) (ret (vs ! i)) = line (int (Suc i)) 1" by (simp only:)
    qed
    then have "concat (map (\<lambda>i. line (int (Suc i)) (ret (vs ! i))) ?bad) =
        concat (map (\<lambda>i. line (int (Suc i)) 1) ?bad)" by (rule arg_cong)
    also have "\<dots> = concat (map (\<lambda>k. line (int k) 1) (failing_numbers pass vs))"
      by (simp add: failing_numbers_def pass comp_def)
    finally show ?thesis .
  qed
  define final :: int where "final = (if \<forall>v\<in>set vs. pass v then 0 else 1)"
  have final: "(if rev (map ?entry ?bad) \<noteq> [] then 1 else r) = final"
    using r bad by (auto simp: final_def pass)
  obtain x where x: "report_test env manual tc names (length vs) cmdline final (rev (map ?entry ?bad)) (w_xml w) = Inr x"
    using report_test_total [OF str] by blast
  let ?w = "w\<lparr>w_xml := x, w_stdout := w_stdout w
      @ concat (map (\<lambda>k. line (int k) 1) (failing_numbers pass vs)) @ line (- 1) final\<rparr>"
  have "run_test env manual override bin testnum tc p cmdline w =
      rbind (variants_loop env (w_config w) tc testnum (real_timeout override tc) p line names 0 vs [] [])
        (\<lambda>(r, failed, out). case r of
            None \<Rightarrow> Inr (w\<lparr>w_stdout := w_stdout w @ out\<rparr>, 1)
          | Some last_ret \<Rightarrow>
              (let ret = (if failed \<noteq> [] then 1 else last_ret)
               in rbind (report_test env manual tc names (length vs) cmdline ret failed (w_xml w))
                    (\<lambda>x. Inr (w\<lparr>w_xml := x, w_stdout := w_stdout w @ out @ line (- 1) ret\<rparr>, ret))))"
    unfolding run_test_def Let_def line_def using vs(1)
    by (simp only: var gen names if_True rbind_Inr prod.case if_False)
  also have "\<dots> = Inr (?w, final)"
    unfolding loop rbind_Inr prod.case option.case Let_def final x out ..
  finally have "run_test env manual override bin testnum tc p cmdline w = Inr (?w, final)" .
  then show ?thesis unfolding final_def pass_def line_def by auto
qed

end
