(* ===== verification/Cli_Main.thy ===== *)
theory Cli_Main
  imports Cli_Run
begin

text \<open>
  The command line itself, \<^verbatim>\<open>blts_cli_main\<close> in \<^verbatim>\<open>blts-common/src/blts_cli_frontend.c\<close>: the arguments,
  the log, the configuration, the module's own arguments, the result files, the choice of tests
  and the return value, composed from the models of the components it calls. The configuration
  parser, the contents of files, the module's callbacks and the forks of the synchronisation are
  parameters.
\<close>

section \<open>The module and its surroundings\<close>

text \<open>
  The callback that processes the remaining arguments is where modules declare their variable
  tests, so it may change the configuration; it returns the user pointer. \<open>m_timeout\<close> is what it set
  with \<^verbatim>\<open>blts_cli_set_timeout\<close>, 0 if it did not.
\<close>

record 'u cli_module =
  m_tests :: "testcase list"
  m_help :: bool
  m_process :: "(string list \<Rightarrow> config_state \<Rightarrow> (config_state \<times> 'u option) res) option"
  m_log_file :: "string option"
  m_timeout :: nat

record 'u cli_env = "'u test_env" +
  ce_parse :: "config_state \<Rightarrow> string \<Rightarrow> config_state \<times> int"
  ce_file :: "string \<Rightarrow> string option"
  ce_open_errno :: "string \<Rightarrow> int"
  ce_config_dir :: string
  ce_log_fopen :: "string \<Rightarrow> bool"
  ce_log_dir :: bool
  ce_xml_writable :: "string \<Rightarrow> bool"
  ce_xml_parsed :: "string \<Rightarrow> xml_node list option"
  ce_csv :: csv_env
  ce_sync_master :: "int \<Rightarrow> int"
  ce_sync_client :: int

record cli_world = test_world +
  w_log :: log_state
  w_csv :: csv_state

section \<open>Help\<close>

text \<open>
  The format string in three pieces, around its two \<^verbatim>\<open>%s\<close>; its two \<^verbatim>\<open>%%s\<close> come out as \<^verbatim>\<open>%s\<close>.
\<close>

definition help_1 :: string where "help_1 = ''USAGE: ''"

definition help_2 :: "string \<Rightarrow> string" where
  "help_2 percent_s = '' [-l mylog.txt] [-e test1,test2...] [-en \"my test\"] [-s] [-?] [-v]\<newline>''
   @ ''                [-C variation_config.cnf] [-auto|-v|-vv] [-xml|-axml filename]\<newline>''
   @ ''                [-csv|-acsv filename] [-syncprep count] [-sync] '' @ percent_s @ ''\<newline>''
   @ ''  -l: Used log file, default ''"

definition help_3 :: "string \<Rightarrow> string" where
  "help_3 percent_s = ''\<newline>''
   @ ''  -e: Execute single or multiple selected tests, for example -e 1,4,5.\<newline>''
   @ ''  -en: Execute test by name, for example -en \"My test X\"\<newline>''
   @ ''  -s: Show list of all tests\<newline>''
   @ ''  -C: Used parameter configuration file\<newline>''
   @ ''  -?: This message\<newline>''
   @ ''  -xml, -axml: Create result XML. -axml appends results to an existing XML file.\<newline>''
   @ ''  -csv, -acsv: Write measurement result to CSV file. -acsv appends result.\<newline>''
   @ ''  -auto: Silent logging for test automation. Only the results are printed.\<newline>''
   @ ''  -v: Verbose logging (default)\<newline>''
   @ ''  -vv: Even more verbose logging\<newline>''
   @ ''  -syncprep: direct this many test processes (with -sync)\<newline>''
   @ ''  -sync: synchronize this test with others\<newline>'' @ percent_s"

definition help_msg_base :: string where
  "help_msg_base = help_1 @ ''%s'' @ help_2 ''%%s'' @ ''%s'' @ help_3 ''%%s''"

definition help_text :: "string \<Rightarrow> string option \<Rightarrow> string" where
  "help_text bin_name lfile = help_1 @ bin_name @ help_2 ''%s''
     @ (case lfile of None \<Rightarrow> ''(null)'' | Some l \<Rightarrow> l) @ help_3 ''%s''"

text \<open>
  The text is printed, with its terminator, into a buffer of the size the code computes; it is then
  handed to the module's help function.
\<close>

definition show_help :: "string \<Rightarrow> string option \<Rightarrow> string res" where
  "show_help bin_name lfile =
     (let log_file_len = (case lfile of None \<Rightarrow> 0 | Some l \<Rightarrow> length l);
          room = length help_msg_base + length bin_name + log_file_len;
          text = help_text bin_name lfile
      in if length text + 1 \<le> room then Inr text else Inl Out_Of_Bounds)"

lemma show_help_fits: "show_help bin log = (case log of None \<Rightarrow> Inl Out_Of_Bounds
   | Some l \<Rightarrow> Inr (help_text bin (Some l)))"
  by (cases log) (simp_all add: show_help_def help_text_def help_msg_base_def help_1_def help_2_def help_3_def)

section \<open>Arguments\<close>

record cli_args =
  a_tests :: "int list"
  a_log_flags :: "32 word"
  a_log_file :: "string option"
  a_config_file :: "string option"
  a_processed :: "string list"
  a_want_trace :: bool
  a_want_list :: bool
  a_stack_trace :: bool
  a_xml_file :: "string option"
  a_xml_append :: bool
  a_csv_file :: "string option"
  a_csv_append :: bool
  a_sync_master :: int
  a_sync_client :: bool
  a_manual :: bool

definition start_args :: "string \<Rightarrow> cli_args" where
  "start_args argv0 = \<lparr>a_tests = [], a_log_flags = Bit_Operations.or BLTS_LOG_FLAG_FILE BLTS_LOG_FLAG_STDOUT,
     a_log_file = None, a_config_file = None, a_processed = [argv0], a_want_trace = False, a_want_list = False,
     a_stack_trace = False, a_xml_file = None, a_xml_append = False, a_csv_file = None, a_csv_append = False,
     a_sync_master = 0, a_sync_client = False, a_manual = True\<rparr>"

text \<open>\<^verbatim>\<open>strtol(s, NULL, 0)\<close>: decimal, octal after 0, hexadecimal after 0x; the flag is a range error.\<close>

definition digit_of :: "char \<Rightarrow> nat" where
  "digit_of c = (let n = of_char c :: nat in
     if 48 \<le> n \<and> n \<le> 57 then n - 48
     else if 97 \<le> n \<and> n \<le> 122 then n - 87
     else if 65 \<le> n \<and> n \<le> 90 then n - 55 else 36)"

fun read_base :: "nat \<Rightarrow> nat \<Rightarrow> string \<Rightarrow> nat" where
  "read_base b acc [] = acc"
| "read_base b acc (c # cs) = (if digit_of c < b then read_base b (b * acc + digit_of c) cs else acc)"

definition strtol0 :: "string \<Rightarrow> int \<times> bool" where
  "strtol0 s =
     (let s1 = dropWhile is_space s;
          neg = (s1 \<noteq> [] \<and> hd s1 = CHR ''-'');
          s2 = (if s1 \<noteq> [] \<and> (hd s1 = CHR ''-'' \<or> hd s1 = CHR ''+'') then tl s1 else s1);
          hex = (length s2 > 2 \<and> (take 2 s2 = ''0x'' \<or> take 2 s2 = ''0X'') \<and> digit_of (s2 ! 2) < 16);
          n = (if hex then read_base 16 0 (drop 2 s2)
               else if s2 \<noteq> [] \<and> hd s2 = CHR ''0'' then read_base 8 0 s2 else read_base 10 0 s2);
          i = (if neg then - int n else int n)
      in (clamp_long i, i \<noteq> clamp_long i))"

text \<open>
  One option after the other; \<open>Some\<close> result means that the code leaves for its clean-up with that
  result. \<open>invalid\<close> prints the help text, so it can fail as that does.
\<close>

definition invalid_arguments :: "string \<Rightarrow> string option \<Rightarrow> cli_args \<Rightarrow> (int option \<times> cli_args) res" where
  "invalid_arguments bin_name lfile a = rbind (show_help bin_name lfile) (\<lambda>_. Inr (Some (- EINVAL), a))"

text \<open>The options without a value; \<open>None\<close> for any other argument.\<close>

definition plain_option :: "string \<Rightarrow> cli_args \<Rightarrow> cli_args option" where
  "plain_option arg a =
     (if arg = ''-s'' then Some (a\<lparr>a_log_flags := BLTS_LOG_FLAG_STDOUT, a_want_list := True\<rparr>)
      else if arg = ''-auto'' then
        Some (a\<lparr>a_log_flags := Bit_Operations.and (a_log_flags a) (Bit_Operations.not BLTS_LOG_FLAG_STDOUT),
                a_manual := False\<rparr>)
      else if arg = ''-v'' then Some (a\<lparr>a_log_flags := Bit_Operations.or (a_log_flags a) BLTS_LOG_FLAG_STDOUT\<rparr>)
      else if arg = ''-vv'' then
        Some (a\<lparr>a_log_flags := Bit_Operations.or (a_log_flags a) BLTS_LOG_FLAG_STDOUT, a_want_trace := True\<rparr>)
      else if arg = ''-strace'' then Some (a\<lparr>a_stack_trace := True\<rparr>)
      else if arg = ''-sync'' then Some (a\<lparr>a_sync_client := True\<rparr>)
      else None)"

definition value_options :: "string list" where
  "value_options = [''-e'', ''-en'', ''-l'', ''-C'', ''-xml'', ''-axml'', ''-csv'', ''-acsv'', ''-syncprep'']"

text \<open>
  The options with a value. Two numbers are stored at the end of the list of tests, which has
  \<^verbatim>\<open>MAX_ARGS\<close> elements, by \<^verbatim>\<open>-en\<close>: the test and the terminator.
\<close>

definition value_option ::
    "testcase list \<Rightarrow> string \<Rightarrow> string option \<Rightarrow> string \<Rightarrow> string \<Rightarrow> cli_args \<Rightarrow> (int option \<times> cli_args) res" where
  "value_option tests bin_name lfile arg v a =
     (if arg = ''-e'' then
        rbind (parse_test_list v) (\<lambda>ns.
          if ns = [] then invalid_arguments bin_name lfile (a\<lparr>a_tests := []\<rparr>)
          else Inr (None, a\<lparr>a_tests := ns\<rparr>))
      else if arg = ''-en'' then
        (if length (a_tests a) \<ge> MAX_ARGS then Inl Out_Of_Bounds
         else if find_test_by_name tests v + 1 = 0 then invalid_arguments bin_name lfile a
         else if length (a_tests a) + 1 \<ge> MAX_ARGS then Inl Out_Of_Bounds
         else Inr (None, a\<lparr>a_tests := a_tests a @ [find_test_by_name tests v + 1]\<rparr>))
      else if arg = ''-l'' then Inr (None, a\<lparr>a_log_file := Some v\<rparr>)
      else if arg = ''-C'' then
        (if a_config_file a \<noteq> None then Inr (Some (- EINVAL), a)
         else Inr (None, a\<lparr>a_config_file := Some v\<rparr>))
      else if arg = ''-xml'' then Inr (None, a\<lparr>a_xml_file := Some v\<rparr>)
      else if arg = ''-axml'' then Inr (None, a\<lparr>a_xml_file := Some v, a_xml_append := True\<rparr>)
      else if arg = ''-csv'' then Inr (None, a\<lparr>a_csv_file := Some v\<rparr>)
      else if arg = ''-acsv'' then Inr (None, a\<lparr>a_csv_file := Some v, a_csv_append := True\<rparr>)
      else
        (case strtol0 v of (n, range_error) \<Rightarrow>
           (let count = to_int32 n; a1 = a\<lparr>a_sync_master := count\<rparr>
            in if range_error \<or> count < 1 then invalid_arguments bin_name lfile a1 else Inr (None, a1))))"

fun parse_args ::
    "testcase list \<Rightarrow> string \<Rightarrow> string option \<Rightarrow> string list \<Rightarrow> cli_args \<Rightarrow> (int option \<times> cli_args) res" where
  "parse_args tests bin_name lfile [] a = Inr (None, a)"
| "parse_args tests bin_name lfile (arg # args) a =
     (if arg \<in> set value_options
      then (case args of
          [] \<Rightarrow> invalid_arguments bin_name lfile a
        | v # args' \<Rightarrow>
            rbind (value_option tests bin_name lfile arg v a) (\<lambda>(code, a1).
              if code \<noteq> None then Inr (code, a1) else parse_args tests bin_name lfile args' a1))
      else if arg = ''-?'' then rbind (show_help bin_name lfile) (\<lambda>_. Inr (Some 0, a))
      else (case plain_option arg a of
          Some a1 \<Rightarrow> parse_args tests bin_name lfile args a1
        | None \<Rightarrow>
            if length (a_processed a) \<ge> MAX_ARGS then Inr (Some (- EINVAL), a)
            else parse_args tests bin_name lfile args (a\<lparr>a_processed := a_processed a @ [arg]\<rparr>)))"

section \<open>Listing\<close>

text \<open>
  \<^verbatim>\<open>list_all_variants_for_testcase\<close>: what goes to the standard output, and the user pointer that is
  passed through the module's handlers. The values themselves go to the log.
\<close>

fun list_variants_loop ::
    "('u, 'e) test_env_scheme \<Rightarrow> config_state \<Rightarrow> string \<Rightarrow> boxed_value list \<Rightarrow> nat \<Rightarrow> boxed_value list list
      \<Rightarrow> 'u option \<Rightarrow> string list res" where
  "list_variants_loop env st name names n [] p = Inr []"
| "list_variants_loop env st name names n (v # vs) p =
     rbind (dump_labeled_value_list_on_log names v) (\<lambda>_.
     rbind (list_variants_loop env st name names (Suc n) vs (mutate_user_params (te_handlers env) st name v p))
       (\<lambda>out. Inr ([[CHR 0x09] @ ''Variant '' @ show_int (int (Suc n)) @ '', parameters: '', ''\<newline>''] @ out)))"

definition list_all_variants_for_testcase ::
    "('u, 'e) test_env_scheme \<Rightarrow> config_state \<Rightarrow> testcase \<Rightarrow> 'u option \<Rightarrow> string list res" where
  "list_all_variants_for_testcase env st tc p =
     (if \<not> test_is_variable st (case_name tc) then Inr []
      else rbind (config_generate_test_variations (te_gen env) (te_fuel env) st (case_name tc)
                    CONFIG_VARIATION_COMBINATIONS) (\<lambda>vs.
           rbind (config_get_test_param_names st (case_name tc)) (\<lambda>names.
             list_variants_loop env st (case_name tc) names 0 vs p)))"

fun list_all_tests ::
    "('u, 'e) test_env_scheme \<Rightarrow> config_state \<Rightarrow> nat \<Rightarrow> testcase list \<Rightarrow> 'u option \<Rightarrow> string list res" where
  "list_all_tests env st t [] p = Inr []"
| "list_all_tests env st t (tc # tcs) p =
     rbind (list_all_variants_for_testcase env st tc p) (\<lambda>vs.
     rbind (list_all_tests env st (Suc t) tcs p) (\<lambda>rest.
       Inr ([show_int (int (t + 1)) @ '': '' @ case_name tc @ ''\<newline>''] @ vs @ rest)))"

section \<open>Running the selected tests\<close>

text \<open>The list ends at the first zero; a number that is no test counts as a failure.\<close>

fun run_listed ::
    "('u, 'e) test_env_scheme \<Rightarrow> bool \<Rightarrow> nat \<Rightarrow> string \<Rightarrow> testcase list \<Rightarrow> 'u option \<Rightarrow> string \<Rightarrow> int list
      \<Rightarrow> 'z test_world_scheme \<Rightarrow> int \<Rightarrow> ('z test_world_scheme \<times> int) res" where
  "run_listed env manual override bin tests p cmdline [] w result = Inr (w, result)"
| "run_listed env manual override bin tests p cmdline (t # ts) w result =
     (if t = 0 then Inr (w, result)
      else if t > int (count_tests tests) \<or> t < 1
      then run_listed env manual override bin tests p cmdline ts w (result + 1)
      else rbind (run_test env manual override bin t (tests ! nat (t - 1)) p cmdline w)
             (\<lambda>(w1, r). run_listed env manual override bin tests p cmdline ts w1 (result + r)))"

fun run_all ::
    "('u, 'e) test_env_scheme \<Rightarrow> bool \<Rightarrow> nat \<Rightarrow> string \<Rightarrow> nat \<Rightarrow> testcase list \<Rightarrow> 'u option \<Rightarrow> string
      \<Rightarrow> 'z test_world_scheme \<Rightarrow> int \<Rightarrow> ('z test_world_scheme \<times> int) res" where
  "run_all env manual override bin t [] p cmdline w result = Inr (w, result)"
| "run_all env manual override bin t (tc # tcs) p cmdline w result =
     rbind (run_test env manual override bin (int t + 1) tc p cmdline w)
       (\<lambda>(w1, r). run_all env manual override bin (t + 1) tcs p cmdline w1 (result + r))"

section \<open>The whole command\<close>

definition open_log :: "'u cli_env \<Rightarrow> 'u cli_module \<Rightarrow> cli_args \<Rightarrow> log_state \<Rightarrow> log_state" where
  "open_log env m a l =
     (let l1 = (case a_log_file a of
            Some f \<Rightarrow> fst (blts_log_open (ce_log_fopen env) (ce_log_dir env) (Some f) (a_log_flags a) l)
          | None \<Rightarrow> (case m_log_file m of
              Some f \<Rightarrow> fst (blts_log_open (ce_log_fopen env) (ce_log_dir env) (Some f) (a_log_flags a) l)
            | None \<Rightarrow> l))
      in if a_want_trace a then blts_log_set_level 0 l1 else l1)"

definition default_config_file :: "'u cli_env \<Rightarrow> string \<Rightarrow> string" where
  "default_config_file env bin_fname = ce_config_dir env @ ''/'' @ bin_fname @ ''.cnf''"

definition cleanup :: "bool \<Rightarrow> int \<Rightarrow> cli_world \<Rightarrow> cli_world \<times> int" where
  "cleanup used_config result w =
     (let w1 = (if used_config then w\<lparr>w_config := fst (config_free (w_config w))\<rparr> else w)
      in (w1\<lparr>w_log := fst (blts_log_close True (w_log w1))\<rparr>, result))"

text \<open>
  From the result files to the return value, once the module's arguments are processed. A CSV file
  that cannot be opened leaves the result file open.
\<close>

definition open_results :: "'u cli_env \<Rightarrow> cli_args \<Rightarrow> string \<Rightarrow> cli_world \<Rightarrow> cli_world \<times> bool" where
  "open_results env a bin_fname w =
     (let (w1, ok1) = (case a_xml_file a of None \<Rightarrow> (w, True)
          | Some f \<Rightarrow>
              (case xml_result_open (te_lib env) (te_enc env) (ce_xml_writable env f) (ce_xml_parsed env f)
                      (Some f) (Some bin_fname) (Some bin_fname) (a_xml_append a) (w_xml w) of
                 (x, r) \<Rightarrow> (w\<lparr>w_xml := x\<rparr>, r = 0)))
      in if \<not> ok1 then (w1, False)
         else (case a_csv_file a of None \<Rightarrow> (w1, True)
           | Some f \<Rightarrow>
               (case csv_result_file_open (ce_csv env) f (a_csv_append a) (w_csv w1) of
                  (c, r) \<Rightarrow> (w1\<lparr>w_csv := c\<rparr>, r = 0))))"

definition run_and_report ::
    "'u cli_env \<Rightarrow> 'u cli_module \<Rightarrow> cli_args \<Rightarrow> string \<Rightarrow> string \<Rightarrow> 'u option \<Rightarrow> cli_world \<Rightarrow> (cli_world \<times> int) res" where
  "run_and_report env m a bin_fname cmdline p w =
     rbind (if a_tests a \<noteq> []
            then run_listed env (a_manual a) (m_timeout m) bin_fname (m_tests m) p cmdline (a_tests a) w 0
            else run_all env (a_manual a) (m_timeout m) bin_fname 0 (m_tests m) p cmdline w 0) (\<lambda>(w1, result).
       let w2 = w1\<lparr>w_stdout := w_stdout w1
                  @ print_test_case_result (a_manual a) bin_fname ''Final result'' (- 1) (- 1) result\<rparr>;
           w3 = (if a_xml_file a \<noteq> None then w2\<lparr>w_xml := xml_result_close (w_xml w2)\<rparr> else w2);
           w4 = (if a_csv_file a \<noteq> None
                 then w3\<lparr>w_csv := fst (csv_result_file_close (ce_csv env) (w_csv w3))\<rparr> else w3)
       in Inr (w4, result))"

definition after_config ::
    "'u cli_env \<Rightarrow> 'u cli_module \<Rightarrow> cli_args \<Rightarrow> string \<Rightarrow> string \<Rightarrow> string \<Rightarrow> cli_world \<Rightarrow> (cli_world \<times> int) res" where
  "after_config env m a argv0 bin_fname cmdline w =
     rbind (case m_process m of None \<Rightarrow> Inr (w, None, False)
            | Some f \<Rightarrow> rbind (f (a_processed a) (w_config w)) (\<lambda>(st, p).
                Inr (w\<lparr>w_config := st\<rparr>, p, p = None))) (\<lambda>(w1, p, failed).
     if failed then rbind (show_help argv0 (m_log_file m)) (\<lambda>_. Inr (cleanup True (- EINVAL) w1))
     else if a_want_list a
     then rbind (list_all_tests env (w_config w1) 0 (m_tests m) p) (\<lambda>out.
            Inr (cleanup True 0 (w1\<lparr>w_stdout := w_stdout w1 @ out\<rparr>)))
     else (case open_results env a bin_fname w1 of
         (w2, False) \<Rightarrow> Inr (cleanup True (- EINVAL) w2)
       | (w2, True) \<Rightarrow>
           rbind (run_and_report env m a bin_fname cmdline p w2) (\<lambda>(w3, result).
             Inr (cleanup True result w3))))"

text \<open>
  \<^verbatim>\<open>config_generate_testset_tests\<close> does nothing yet: it leaves the array it should make NULL and
  returns 0 cases. \<^verbatim>\<open>blts_config_add_testcases\<close> replaces the module's array (\<open>None\<close> is NULL) by a
  copy with those cases at the end.
\<close>

definition config_generate_testset_tests :: "bool \<Rightarrow> testcase list \<times> int" where
  "config_generate_testset_tests cases_ptr = (if \<not> cases_ptr then ([], - EINVAL) else ([], 0))"

definition config_add_testcases :: "testcase list option \<Rightarrow> testcase list option \<times> int" where
  "config_add_testcases test_cases = (case test_cases of None \<Rightarrow> (None, - EINVAL) | Some cases \<Rightarrow>
     (let n_cases = count_tests cases;
          (new_cases, ret) = config_generate_testset_tests True
      in if ret < 0 then (Some cases, ret)
         else (Some (take n_cases cases @ take (nat ret) new_cases), 0)))"

lemma config_add_testcases_none_added [simp]: "config_add_testcases (Some cases) = (Some cases, 0)"
  by (simp add: config_add_testcases_def config_generate_testset_tests_def count_tests_def)

definition blts_cli_main ::
    "'u cli_env \<Rightarrow> 'u cli_module \<Rightarrow> string list \<Rightarrow> cli_world \<Rightarrow> (cli_world \<times> int) res" where
  "blts_cli_main env m argv w =
     (case argv of [] \<Rightarrow> Inl Null_Deref | argv0 # args \<Rightarrow>
        (let cmdline = argv0 @ concat (map (\<lambda>a. '' '' @ a) args) in
         rbind (parse_args (m_tests m) argv0 (m_log_file m) args (start_args argv0)) (\<lambda>(code, a).
         case code of Some r \<Rightarrow> Inr (cleanup (a_config_file a \<noteq> None) r w) | None \<Rightarrow>
           (let w1 = w\<lparr>w_log := open_log env m a (w_log w)\<rparr> in
            if a_sync_master a \<noteq> 0
            then Inr (cleanup (a_config_file a \<noteq> None) (ce_sync_master env (a_sync_master a)) w1)
            else if a_sync_client a \<and> ce_sync_client env \<noteq> 0
            then Inr (cleanup (a_config_file a \<noteq> None) (ce_sync_client env) w1)
            else
              (let bin_fname = basename argv0;
                   file = (case a_config_file a of Some f \<Rightarrow> f | None \<Rightarrow> default_config_file env bin_fname);
                   (st, r) = config_load_from_file (ce_parse env) (ce_file env file) (ce_open_errno env file)
                               (w_config w1);
                   w2 = w1\<lparr>w_config := st\<rparr>
               in if r = - ENOENT
                  then (if a_config_file a \<noteq> None then Inr (cleanup True r w2)
                        else after_config env m a argv0 bin_fname cmdline w2)
                  else if r < 0 then Inr (cleanup True r w2)
                  else (case config_add_testcases (Some (m_tests m)) of
                      (None, _) \<Rightarrow> Inr (cleanup True (- EINVAL) w2)
                    | (Some cases, added) \<Rightarrow>
                        if added < 0 then Inr (cleanup True (- EINVAL) w2)
                        else after_config env (m\<lparr>m_tests := cases\<rparr>) a argv0 bin_fname cmdline w2))))))"

section \<open>Results of runs\<close>

text \<open>
  The entry of a test without variants in the result file: a case with one step, whose beginning and
  end are the times around it.
\<close>

definition plain_report ::
    "('u, 'e) test_env_scheme \<Rightarrow> bool \<Rightarrow> string \<Rightarrow> testcase \<Rightarrow> int \<Rightarrow> xml_state \<Rightarrow> xml_state" where
  "plain_report env manual cmdline tc ret x =
     (let x1 = fst (xml_result_start_case (te_lib env) (te_enc env) (Some (case_name tc)) manual ret x);
          x2 = fst (xml_result_write_step (te_lib env) (te_enc env) 0 ret (Some (te_clock env 0))
                      (Some (te_clock env 0)) (Some cmdline) None x1)
      in fst (xml_result_end_case x2))"

lemma run_test_plain:
  assumes "\<not> test_is_variable (w_config w) (case_name tc)" and "te_fork env 1"
  shows "run_test env manual override bin t tc p cmdline w =
    (let ret = run_variant env (w_config w) tc t (real_timeout override tc) p None
     in Inr (w\<lparr>w_xml := plain_report env manual cmdline tc ret (w_xml w),
               w_stdout := w_stdout w @ print_test_case_result manual bin (case_name tc) t (- 1) ret\<rparr>, ret))"
  using assms by (simp add: run_test_def report_test_def plain_report_def Let_def)

text \<open>The results of plain tests run in order from number \<open>t + 1\<close>, and what they leave.\<close>

definition plain_result ::
    "('u, 'e) test_env_scheme \<Rightarrow> config_state \<Rightarrow> nat \<Rightarrow> 'u option \<Rightarrow> nat \<Rightarrow> testcase \<Rightarrow> int" where
  "plain_result env st override p i tc = run_variant env st tc (int i + 1) (real_timeout override tc) p None"

fun plain_failures ::
    "('u, 'e) test_env_scheme \<Rightarrow> config_state \<Rightarrow> nat \<Rightarrow> 'u option \<Rightarrow> nat \<Rightarrow> testcase list \<Rightarrow> int" where
  "plain_failures env st override p t [] = 0"
| "plain_failures env st override p t (tc # tcs) =
     plain_result env st override p t tc + plain_failures env st override p (t + 1) tcs"

lemma run_all_plain:
  assumes "\<forall>tc\<in>set tcs. \<not> test_is_variable (w_config w) (case_name tc)" and "te_fork env 1"
  shows "run_all env manual override bin t tcs p cmdline w r =
      Inr (w\<lparr>w_xml := fold (\<lambda>(i, tc). plain_report env manual cmdline tc (plain_result env (w_config w) override p i tc))
                        (enumerate t tcs) (w_xml w),
             w_stdout := w_stdout w @ concat (map (\<lambda>(i, tc). print_test_case_result manual bin (case_name tc)
                        (int i + 1) (- 1) (plain_result env (w_config w) override p i tc)) (enumerate t tcs))\<rparr>,
           r + plain_failures env (w_config w) override p t tcs)"
  using assms(1)
proof (induction tcs arbitrary: t w r)
  case Nil
  show ?case by simp
next
  case (Cons tc tcs)
  then have "\<not> test_is_variable (w_config w) (case_name tc)" by simp
  note one = run_test_plain [OF this assms(2), of manual override bin "int t + 1" p cmdline,
      folded plain_result_def, unfolded Let_def]
  show ?case using Cons.prems
    by (simp add: one Cons.IH plain_result_def [symmetric] add.assoc)
qed

lemma plain_failures_bounds:
  "0 \<le> plain_failures env st override p t tcs \<and> plain_failures env st override p t tcs \<le> int (length tcs)"
proof (induction tcs arbitrary: t)
  case Nil
  show ?case by simp
next
  case (Cons tc tcs)
  from run_variant_01 [of env st tc "int t + 1" "real_timeout override tc" p None] Cons.IH [of "t + 1"]
  show ?case by (auto simp: plain_result_def)
qed

text \<open>A command line without arguments, no default configuration file.\<close>

definition no_config :: "'u cli_env \<Rightarrow> string \<Rightarrow> bool" where
  "no_config env argv0 \<longleftrightarrow> ce_file env (default_config_file env (basename argv0)) = None
     \<and> ce_open_errno env (default_config_file env (basename argv0)) = ENOENT"

lemma main_no_config:
  assumes "no_config env argv0"
  shows "blts_cli_main env m [argv0] w =
    after_config env m (start_args argv0) argv0 (basename argv0) argv0
      (w\<lparr>w_log := open_log env m (start_args argv0) (w_log w)\<rparr>)"
  using assms by (simp add: blts_cli_main_def no_config_def config_load_from_file_def Let_def start_args_def)

lemma after_config_runs:
  assumes "m_process m = Some f" and "f [argv0] (w_config w) = Inr (st, Some u)"
    and "run_all env True (m_timeout m) bin 0 (m_tests m) (Some u) cmdline (w\<lparr>w_config := st\<rparr>) 0 = Inr (w', r)"
  shows "\<exists>w''. after_config env m (start_args argv0) argv0 bin cmdline w = Inr (w'', r)"
  using assms by (simp add: after_config_def open_results_def run_and_report_def start_args_def
      cleanup_def Let_def print_test_case_result_def)

definition declares :: "string \<Rightarrow> fn_ref \<Rightarrow> (string \<times> default_arg) list \<Rightarrow> 'u \<Rightarrow> string list \<Rightarrow> config_state
     \<Rightarrow> (config_state \<times> 'u option) res" where
  "declares name h ds u args st =
     rbind (declare_variable_test st (Some name) (Some h) (declaration_args ds)) (\<lambda>(st', _). Inr (st', Some u))"

lemma main_declared_test:
  assumes nc: "no_config env argv0" and w: "w_config w = initial_config"
    and m: "m_process m = Some (declares name h ds u)" "m_tests m = [tc]" "case_name tc = name"
    and ds: "ds \<noteq> []" "distinct (name # map fst ds)" "length ds < SYMBOL_TABLE_MAX"
    and forks: "\<And>i. te_fork env i"
  shows "\<exists>w'. blts_cli_main env m [argv0] w = Inr (w',
     if variant_passes env (declared_config name (Some h) ds) tc 1 (real_timeout (m_timeout m) tc) (Some u)
          (map (\<lambda>d. default_value (snd d)) ds) then 0 else 1)"
proof -
  let ?st = "declared_config name (Some h) ds" and ?vs = "[map (\<lambda>d. default_value (snd d)) ds]"
  let ?w1 = "w\<lparr>w_log := open_log env m (start_args argv0) (w_log w)\<rparr>"
  define w2 where "w2 = ?w1\<lparr>w_config := ?st\<rparr>"
  have cfg: "w_config w2 = ?st" by (simp add: w2_def)
  have var: "test_is_variable (w_config w2) (case_name tc)"
    using declared_is_variable [OF ds(1), of name "Some h"] m(3) by (simp add: cfg)
  have gen: "config_generate_test_variations (te_gen env) (te_fuel env) (w_config w2) (case_name tc)
      CONFIG_VARIATION_COMBINATIONS = Inr ?vs"
    using declared_variants [OF ds(1,3), of "te_gen env" "te_fuel env" name "Some h"] m(3) by (simp add: cfg)
  have names: "config_get_test_param_names (w_config w2) (case_name tc) = Inr (map (\<lambda>d. Boxed_String (fst d)) ds)"
    using declared_names [OF ds(1), of name "Some h"] m(3) by (simp add: cfg)
  have ne: "?vs \<noteq> []" "\<forall>v\<in>set ?vs. v \<noteq> []" using ds(1) by auto
  from run_test_verdict [OF var gen names ne forks, of True "m_timeout m" "basename argv0" 1 "Some u" argv0]
  obtain w3 where "run_test env True (m_timeout m) (basename argv0) 1 tc (Some u) argv0 w2 = Inr (w3,
      if variant_passes env ?st tc 1 (real_timeout (m_timeout m) tc) (Some u) (hd ?vs) then 0 else 1)"
    by (auto simp: cfg)
  then have "run_all env True (m_timeout m) (basename argv0) 0 (m_tests m) (Some u) argv0 w2 0 = Inr (w3,
      if variant_passes env ?st tc 1 (real_timeout (m_timeout m) tc) (Some u) (hd ?vs) then 0 else 1)"
    by (simp add: m(2))
  moreover have "declares name h ds u [argv0] (w_config ?w1) = Inr (?st, Some u)"
    using declare_without_config [OF ds(2,3), of "Some h"] w by (simp add: declares_def)
  ultimately show ?thesis
    using after_config_runs [OF m(1), of argv0 ?w1 ?st u env "basename argv0" argv0 w3] main_no_config [OF nc, of m w]
    by (simp add: w2_def)
qed

end
