(* ===== verification/Mempool.thy ===== *)
theory Mempool
  imports Permutations
begin

text \<open>
  The arena the configuration parser allocates strings from, \<^verbatim>\<open>blts-common/src/blts_params.c\<close>
  (\<^verbatim>\<open>_blts_params_mempool_alloc\<close> and its helpers). Sizes are 32-bit unsigned. \<^verbatim>\<open>realloc\<close> is a
  parameter that gives the new base address, or \<open>None\<close> for NULL. Blocks are the address ranges
  handed out.
\<close>

record mempool =
  mp_base :: "nat option"
  pool_top :: nat
  pool_size :: nat

definition empty_mempool :: mempool where
  "empty_mempool = \<lparr>mp_base = None, pool_top = 0, pool_size = 0\<rparr>"

definition PAGE_SIZE :: nat where
  "PAGE_SIZE = 4096"

text \<open>\<^verbatim>\<open>__ALIGN(x, a)\<close>, in the type of \<^verbatim>\<open>x\<close>: rounding up modulo 2 to the 32.\<close>

definition align_up :: "nat \<Rightarrow> nat" where
  "align_up x = (let y = u32 (x + (PAGE_SIZE - 1)) in y - y mod PAGE_SIZE)"

type_synonym realloc_fn = "nat option \<Rightarrow> nat \<Rightarrow> nat option"

definition mempool_stretch :: "realloc_fn \<Rightarrow> mempool \<Rightarrow> nat \<Rightarrow> mempool \<times> nat option" where
  "mempool_stretch realloc mp newsize =
     (if newsize < pool_size mp then (mp, None)
      else (let new_sz = align_up newsize; b = realloc (mp_base mp) new_sz
            in (mp\<lparr>mp_base := b, pool_size := new_sz\<rparr>, b)))"

definition mempool_alloc :: "realloc_fn \<Rightarrow> mempool \<Rightarrow> nat \<Rightarrow> mempool \<times> nat option" where
  "mempool_alloc realloc mp sz =
     (let want = u32 (sz + pool_top mp) in
      if want > pool_size mp
      then (case mempool_stretch realloc mp want of
              (mp1, None) \<Rightarrow> (mp1, None)
            | (mp1, Some b) \<Rightarrow> (mp1\<lparr>pool_top := u32 (pool_top mp1 + sz)\<rparr>, Some (b + pool_top mp1)))
      else (mp\<lparr>pool_top := u32 (pool_top mp + sz)\<rparr>,
            Some ((case mp_base mp of None \<Rightarrow> 0 | Some b \<Rightarrow> b) + pool_top mp)))"

definition mempool_release :: "mempool \<Rightarrow> mempool" where
  "mempool_release mp = \<lparr>mp_base = None, pool_top = 0, pool_size = 0\<rparr>"

text \<open>What is handed out never passes the size of the arena, as long as the sizes do not wrap.\<close>

definition mempool_ok :: "mempool \<Rightarrow> bool" where
  "mempool_ok mp \<longleftrightarrow> pool_top mp \<le> pool_size mp \<and> pool_size mp < 2 ^ 32 \<and>
     (mp_base mp = None \<longrightarrow> pool_size mp = 0)"

lemma align_up_bounds:
  assumes "x + PAGE_SIZE \<le> 2 ^ 32"
  shows "x \<le> align_up x" and "align_up x < x + PAGE_SIZE" and "align_up x mod PAGE_SIZE = 0"
proof -
  define y where "y = x + (PAGE_SIZE - 1)"
  have "y < 2 ^ 32" using assms by (simp add: y_def PAGE_SIZE_def)
  then have a: "align_up x = y - y mod PAGE_SIZE" by (simp add: align_up_def y_def Let_def)
  have m: "y mod PAGE_SIZE \<le> PAGE_SIZE - 1" by (simp add: PAGE_SIZE_def)
  then show "x \<le> align_up x" unfolding a y_def by linarith
  show "align_up x < x + PAGE_SIZE" unfolding a by (simp add: y_def PAGE_SIZE_def)
  show "align_up x mod PAGE_SIZE = 0" unfolding a by (simp add: minus_mod_eq_mult_div)
qed

lemma mempool_alloc_block:
  assumes ok: "mempool_ok mp" and fits: "sz + pool_top mp + PAGE_SIZE \<le> 2 ^ 32"
    and oom: "\<And>b n. realloc b n \<noteq> None"
    and alloc: "mempool_alloc realloc mp sz = (mp', p)" and pos: "0 < sz"
  shows "mempool_ok mp' \<and> pool_top mp' = pool_top mp + sz \<and>
    (\<exists>b. mp_base mp' = Some b \<and> p = Some (b + pool_top mp)) \<and> (sz + pool_top mp \<le> pool_size mp \<longrightarrow> mp_base mp' = mp_base mp)"
proof -
  define w where "w = sz + pool_top mp"
  have w32: "w < 2 ^ 32" and wp: "w + PAGE_SIZE \<le> 2 ^ 32" using fits by (simp_all add: w_def PAGE_SIZE_def)
  have u: "u32 (sz + pool_top mp) = w" "u32 (pool_top mp + sz) = w"
    using w32 by (simp_all add: w_def add.commute)
  show ?thesis
  proof (cases "w > pool_size mp")
    case True
    obtain b where b: "realloc (mp_base mp) (align_up w) = Some b" using oom by blast
    have "w \<le> align_up w" "align_up w < w + PAGE_SIZE" using align_up_bounds [OF wp] by simp_all
    moreover from True b have "mp' = mp\<lparr>mp_base := Some b, pool_size := align_up w, pool_top := w\<rparr>"
      and "p = Some (b + pool_top mp)"
      using alloc u by (auto simp: mempool_alloc_def mempool_stretch_def Let_def)
    ultimately show ?thesis using True wp by (simp add: mempool_ok_def w_def)
  next
    case False
    with pos have "pool_size mp \<noteq> 0" by (simp add: w_def)
    with ok obtain b where b: "mp_base mp = Some b" by (auto simp: mempool_ok_def)
    from False b have "mp' = mp\<lparr>pool_top := w\<rparr>" and "p = Some (b + pool_top mp)"
      using alloc u by (auto simp: mempool_alloc_def Let_def)
    with False ok b show ?thesis by (simp add: mempool_ok_def w_def add.commute)
  qed
qed

text \<open>
  A sequence of allocations; each block is given as its start and its size. If \<^verbatim>\<open>realloc\<close> grows
  in place, the blocks are pairwise disjoint and all stay inside the arena.
\<close>

fun mempool_allocs :: "realloc_fn \<Rightarrow> mempool \<Rightarrow> nat list \<Rightarrow> mempool \<times> (nat \<times> nat) list" where
  "mempool_allocs realloc mp [] = (mp, [])"
| "mempool_allocs realloc mp (n # ns) =
     (case mempool_alloc realloc mp n of (mp1, p) \<Rightarrow>
      (case mempool_allocs realloc mp1 ns of (mp2, bs) \<Rightarrow>
        (mp2, (case p of None \<Rightarrow> bs | Some a \<Rightarrow> (a, n) # bs))))"

lemma mempool_allocs_blocks:
  assumes "mempool_ok mp" and "sum_list ns + pool_top mp + PAGE_SIZE \<le> 2 ^ 32" and "\<forall>n\<in>set ns. 0 < n"
    and "\<And>b n. realloc b n = Some base" and "mp_base mp = None \<or> mp_base mp = Some base"
    and "mempool_allocs realloc mp ns = (mp', bs)"
  shows "map snd bs = ns \<and> mempool_ok mp' \<and> pool_top mp' = pool_top mp + sum_list ns \<and>
    (\<forall>(a, n)\<in>set bs. base + pool_top mp \<le> a \<and> a + n \<le> base + pool_size mp') \<and>
    sorted_wrt (\<lambda>(a, n) (a', n'). a + n \<le> a') bs"
  using assms
proof (induction ns arbitrary: mp bs)
  case Nil
  then show ?case by simp
next
  case (Cons n ns)
  obtain mp1 p where al: "mempool_alloc realloc mp n = (mp1, p)" by fastforce
  obtain bs1 where rest: "mempool_allocs realloc mp1 ns = (mp', bs1)"
    using Cons.prems(6) al by (auto split: prod.splits)
  have small: "n + pool_top mp + PAGE_SIZE \<le> 2 ^ 32" and "0 < n" using Cons.prems(2,3) by auto
  with mempool_alloc_block [OF Cons.prems(1) small _ al] Cons.prems(4) obtain b where
    ok1: "mempool_ok mp1" and top1: "pool_top mp1 = pool_top mp + n" and b: "mp_base mp1 = Some b"
    and p: "p = Some (b + pool_top mp)" by (metis option.distinct(1))
  have base: "b = base"
    using al Cons.prems(4,5) b by (auto simp: mempool_alloc_def mempool_stretch_def Let_def split: if_splits)
  have IH: "map snd bs1 = ns \<and> mempool_ok mp' \<and> pool_top mp' = pool_top mp1 + sum_list ns \<and>
      (\<forall>(a, n)\<in>set bs1. base + pool_top mp1 \<le> a \<and> a + n \<le> base + pool_size mp') \<and>
      sorted_wrt (\<lambda>(a, n) (a', n'). a + n \<le> a') bs1"
    by (rule Cons.IH [OF ok1 _ _ Cons.prems(4) _ rest]) (use Cons.prems(2,3) top1 b base in auto)
  have bs: "bs = (base + pool_top mp, n) # bs1"
    using Cons.prems(6) al rest p base by simp
  have "pool_top mp' \<le> pool_size mp'" using IH by (simp add: mempool_ok_def)
  then show ?case using IH top1 unfolding bs by auto
qed

end
