(* ===== verification/Sync_Barrier.thy ===== *)
theory Sync_Barrier
  imports Prelude
begin

text \<open>
  Waiting at a barrier, \<^verbatim>\<open>barrier_sync\<close> in \<^verbatim>\<open>blts-common/src/blts_sync.c\<close> as called by
  \<^verbatim>\<open>blts_sync_anon\<close>: the processes are interleaved one shared-memory access at a time. A process
  is its program counter (\<open>pc\<close>, one constructor per semaphore operation or shared access of the
  source, with the loop counter \<^verbatim>\<open>i\<close>); the shared state is the master semaphore and the
  semaphores, the flag and the count of one barrier. \<open>proc_step\<close> is what a process does next, and
  \<open>None\<close> when it is blocked or has returned. The flag of \<open>Relock\<close>, \<open>Unlock\<close> and \<open>Left\<close> only
  remembers which branch the process took.
\<close>

section \<open>Processes\<close>

datatype pc =
    Enter                (* sync_mutex_lock of the caller *)
  | Lock_B               (* barrier_mutex_lock *)
  | Test_Active          (* if(!b->active) *)
  | L_Unlock_B nat
  | L_Unlock_S nat
  | L_Wait nat           (* while(i--) sem_wait(arrive) *)
  | L_Lock_B
  | L_Count              (* i = b->refcount - 1 *)
  | L_Signal nat         (* while(i--) sem_post(depart) *)
  | L_Clear              (* b->active = 0 *)
  | L_Unlock_B2
  | F_Unlock_B
  | F_Unlock_S
  | F_Post               (* sem_post(arrive) *)
  | F_Wait               (* sem_wait(depart) *)
  | Relock bool          (* sync_mutex_lock before returning *)
  | Unlock bool          (* sync_mutex_unlock of the caller *)
  | Left bool

record 'p barrier_shared =
  sync_mutex :: nat
  b_mutex :: nat
  b_arrive :: nat
  b_depart :: nat
  b_active :: bool
  b_refcount :: nat
  pcs :: "'p list"

type_synonym barrier_state = "pc barrier_shared"

text \<open>A process goes to program counter \<open>c\<close>.\<close>

definition goto :: "nat \<Rightarrow> 'p \<Rightarrow> 'p barrier_shared \<Rightarrow> 'p barrier_shared" where
  "goto p c s = s\<lparr>pcs := (pcs s)[p := c]\<rparr>"

definition barrier_sync_step :: "nat \<Rightarrow> pc \<Rightarrow> barrier_state \<Rightarrow> barrier_state option" where
  "barrier_sync_step p c s = (case c of
       Enter \<Rightarrow> if sync_mutex s = 0 then None
         else Some (goto p Lock_B (s\<lparr>sync_mutex := sync_mutex s - 1\<rparr>))
     | Lock_B \<Rightarrow> if b_mutex s = 0 then None
         else Some (goto p Test_Active (s\<lparr>b_mutex := b_mutex s - 1\<rparr>))
     | Test_Active \<Rightarrow>
         Some (if \<not> b_active s then goto p (L_Unlock_B (b_refcount s - 1)) (s\<lparr>b_active := True\<rparr>)
               else goto p F_Unlock_B s)
     | L_Unlock_B i \<Rightarrow> Some (goto p (L_Unlock_S i) (s\<lparr>b_mutex := b_mutex s + 1\<rparr>))
     | L_Unlock_S i \<Rightarrow> Some (goto p (L_Wait i) (s\<lparr>sync_mutex := sync_mutex s + 1\<rparr>))
     | L_Wait i \<Rightarrow>
         (case i of 0 \<Rightarrow> Some (goto p L_Lock_B s)
          | Suc j \<Rightarrow> if b_arrive s = 0 then None
              else Some (goto p (L_Wait j) (s\<lparr>b_arrive := b_arrive s - 1\<rparr>)))
     | L_Lock_B \<Rightarrow> if b_mutex s = 0 then None
         else Some (goto p L_Count (s\<lparr>b_mutex := b_mutex s - 1\<rparr>))
     | L_Count \<Rightarrow> Some (goto p (L_Signal (b_refcount s - 1)) s)
     | L_Signal i \<Rightarrow>
         (case i of 0 \<Rightarrow> Some (goto p L_Clear s)
          | Suc j \<Rightarrow> Some (goto p (L_Signal j) (s\<lparr>b_depart := b_depart s + 1\<rparr>)))
     | L_Clear \<Rightarrow> Some (goto p L_Unlock_B2 (s\<lparr>b_active := False\<rparr>))
     | L_Unlock_B2 \<Rightarrow> Some (goto p (Relock True) (s\<lparr>b_mutex := b_mutex s + 1\<rparr>))
     | F_Unlock_B \<Rightarrow> Some (goto p F_Unlock_S (s\<lparr>b_mutex := b_mutex s + 1\<rparr>))
     | F_Unlock_S \<Rightarrow> Some (goto p F_Post (s\<lparr>sync_mutex := sync_mutex s + 1\<rparr>))
     | F_Post \<Rightarrow> Some (goto p F_Wait (s\<lparr>b_arrive := b_arrive s + 1\<rparr>))
     | F_Wait \<Rightarrow> if b_depart s = 0 then None
         else Some (goto p (Relock False) (s\<lparr>b_depart := b_depart s - 1\<rparr>))
     | Relock l \<Rightarrow> if sync_mutex s = 0 then None
         else Some (goto p (Unlock l) (s\<lparr>sync_mutex := sync_mutex s - 1\<rparr>))
     | Unlock l \<Rightarrow> Some (goto p (Left l) (s\<lparr>sync_mutex := sync_mutex s + 1\<rparr>))
     | Left l \<Rightarrow> None)"

definition proc_step :: "nat \<Rightarrow> barrier_state \<Rightarrow> barrier_state option" where
  "proc_step p s = (if p < length (pcs s) then barrier_sync_step p (pcs s ! p) s else None)"

inductive barrier_step :: "barrier_state \<Rightarrow> barrier_state \<Rightarrow> bool" where
  run: "proc_step p s = Some t \<Longrightarrow> barrier_step s t"

inductive_cases barrier_stepE: "barrier_step s t"

text \<open>\<open>n\<close> registered processes, each about to call \<^verbatim>\<open>blts_sync_anon\<close> once on a fresh barrier.\<close>

definition barrier_start :: "nat \<Rightarrow> barrier_state" where
  "barrier_start n = \<lparr>sync_mutex = 1, b_mutex = 1, b_arrive = 0, b_depart = 0, b_active = False,
     b_refcount = n, pcs = replicate n Enter\<rparr>"

text \<open>A schedule names the process that moves at each step; a blocked one leaves the state alone.\<close>

fun run_schedule :: "nat list \<Rightarrow> barrier_state \<Rightarrow> barrier_state" where
  "run_schedule [] s = s"
| "run_schedule (p # ps) s = run_schedule ps (case proc_step p s of None \<Rightarrow> s | Some t \<Rightarrow> t)"

lemma run_schedule_reach: "barrier_step\<^sup>*\<^sup>* s (run_schedule ps s)"
proof (induction ps arbitrary: s)
  case Nil
  show ?case by simp
next
  case (Cons p ps)
  show ?case
  proof (cases "proc_step p s")
    case None
    with Cons [of s] show ?thesis by simp
  next
    case (Some t)
    then have "barrier_step s t" by (rule run)
    with Cons [of t] Some show ?thesis by (simp add: converse_rtranclp_into_rtranclp)
  qed
qed

section \<open>Counting processes\<close>

definition total :: "('a \<Rightarrow> int) \<Rightarrow> 'a list \<Rightarrow> int" where
  "total f xs = sum_list (map f xs)"

lemma total_update:
  assumes "p < length xs"
  shows "total f (xs[p := c]) = total f xs - f (xs ! p) + f c"
  using assms
proof (induction xs arbitrary: p)
  case Nil
  then show ?case by simp
next
  case (Cons x xs)
  then show ?case by (cases p) (auto simp: total_def)
qed

lemma total_replicate: "total f (replicate n c) = int n * f c"
  by (induction n) (simp_all add: total_def algebra_simps)

lemma total_nonneg: "(\<And>c. 0 \<le> f c) \<Longrightarrow> 0 \<le> total f xs"
  by (induction xs) (simp_all add: total_def)

lemma total_member: "(\<And>c. 0 \<le> f c) \<Longrightarrow> c \<in> set xs \<Longrightarrow> f c \<le> total f xs"
proof (induction xs)
  case Nil
  then show ?case by simp
next
  case (Cons x xs)
  have "0 \<le> total f xs" by (rule total_nonneg) (rule Cons.prems(1))
  with Cons show ?case by (auto simp: total_def intro: add_increasing)
qed

lemma total_le_length: "(\<And>c. c \<in> set xs \<Longrightarrow> f c \<le> 1) \<Longrightarrow> total f xs \<le> int (length xs)"
  by (induction xs) (fastforce simp: total_def)+

lemma total_less_length:
  assumes "\<And>c. f c \<le> 1" and "c \<in> set xs" and "f c = 0"
  shows "total f xs < int (length xs)"
proof -
  have "0 \<le> total (\<lambda>c. 1 - f c) xs" by (rule total_nonneg) (simp add: assms(1))
  have "1 - f c \<le> total (\<lambda>c. 1 - f c) xs" by (rule total_member) (simp_all add: assms)
  moreover have "total (\<lambda>c. 1 - f c) xs = int (length xs) - total f xs"
    by (induction xs) (simp_all add: total_def)
  ultimately show ?thesis using assms(3) by simp
qed

lemma total_add: "total (\<lambda>c. f c + g c) xs = total f xs + total g xs"
  by (induction xs) (simp_all add: total_def)

lemma total_le: "(\<And>c. c \<in> set xs \<Longrightarrow> f c \<le> g c) \<Longrightarrow> total f xs \<le> total g xs"
  by (induction xs) (fastforce simp: total_def)+

lemma total_pos: "0 < total f xs \<Longrightarrow> \<exists>c\<in>set xs. 0 < f c"
  by (induction xs) (auto simp: total_def not_less, fastforce)

text \<open>
  The roles of a program counter, as weights: who holds the master semaphore and the barrier's
  mutex; who leads; who has posted its arrival and who has passed the departure semaphore; how
  many arrivals a leader has collected and how many departures it has signalled.
\<close>

fun holds_sync :: "pc \<Rightarrow> int" where
  "holds_sync Lock_B = 1" | "holds_sync Test_Active = 1" | "holds_sync (L_Unlock_B i) = 1"
| "holds_sync (L_Unlock_S i) = 1" | "holds_sync F_Unlock_B = 1" | "holds_sync F_Unlock_S = 1"
| "holds_sync (Unlock l) = 1" | "holds_sync _ = 0"

fun holds_mutex :: "pc \<Rightarrow> int" where
  "holds_mutex Test_Active = 1" | "holds_mutex (L_Unlock_B i) = 1" | "holds_mutex L_Count = 1"
| "holds_mutex (L_Signal i) = 1" | "holds_mutex L_Clear = 1" | "holds_mutex L_Unlock_B2 = 1"
| "holds_mutex F_Unlock_B = 1" | "holds_mutex _ = 0"

fun leads_now :: "pc \<Rightarrow> int" where
  "leads_now (L_Unlock_B i) = 1" | "leads_now (L_Unlock_S i) = 1" | "leads_now (L_Wait i) = 1"
| "leads_now L_Lock_B = 1" | "leads_now L_Count = 1" | "leads_now (L_Signal i) = 1"
| "leads_now L_Clear = 1" | "leads_now _ = 0"

fun has_led :: "pc \<Rightarrow> int" where
  "has_led L_Unlock_B2 = 1" | "has_led (Relock l) = of_bool l" | "has_led (Unlock l) = of_bool l"
| "has_led (Left l) = of_bool l" | "has_led _ = 0"

fun follows :: "pc \<Rightarrow> int" where
  "follows F_Unlock_B = 1" | "follows F_Unlock_S = 1" | "follows F_Post = 1" | "follows F_Wait = 1"
| "follows (Relock l) = of_bool (\<not> l)" | "follows (Unlock l) = of_bool (\<not> l)"
| "follows (Left l) = of_bool (\<not> l)" | "follows _ = 0"

fun posted :: "pc \<Rightarrow> int" where
  "posted F_Wait = 1" | "posted (Relock l) = of_bool (\<not> l)" | "posted (Unlock l) = of_bool (\<not> l)"
| "posted (Left l) = of_bool (\<not> l)" | "posted _ = 0"

fun passed :: "pc \<Rightarrow> int" where
  "passed (Relock l) = of_bool (\<not> l)" | "passed (Unlock l) = of_bool (\<not> l)"
| "passed (Left l) = of_bool (\<not> l)" | "passed _ = 0"

fun collected :: "nat \<Rightarrow> pc \<Rightarrow> int" where
  "collected n (L_Unlock_B i) = int n - 1 - int i" | "collected n (L_Unlock_S i) = int n - 1 - int i"
| "collected n (L_Wait i) = int n - 1 - int i" | "collected n L_Lock_B = int n - 1"
| "collected n L_Count = int n - 1" | "collected n (L_Signal i) = int n - 1"
| "collected n L_Clear = int n - 1" | "collected n L_Unlock_B2 = int n - 1"
| "collected n (Relock l) = of_bool l * (int n - 1)" | "collected n (Unlock l) = of_bool l * (int n - 1)"
| "collected n (Left l) = of_bool l * (int n - 1)" | "collected n _ = 0"

fun signalled :: "nat \<Rightarrow> pc \<Rightarrow> int" where
  "signalled n (L_Signal i) = int n - 1 - int i" | "signalled n L_Clear = int n - 1"
| "signalled n L_Unlock_B2 = int n - 1"
| "signalled n (Relock l) = of_bool l * (int n - 1)" | "signalled n (Unlock l) = of_bool l * (int n - 1)"
| "signalled n (Left l) = of_bool l * (int n - 1)" | "signalled n _ = 0"

text \<open>The loop counters stay below the number of processes.\<close>

fun counter_ok :: "nat \<Rightarrow> pc \<Rightarrow> bool" where
  "counter_ok n (L_Unlock_B i) = (i < n)" | "counter_ok n (L_Unlock_S i) = (i < n)"
| "counter_ok n (L_Wait i) = (i < n)" | "counter_ok n (L_Signal i) = (i < n)" | "counter_ok n _ = True"

section \<open>The invariant\<close>

definition barrier_inv :: "nat \<Rightarrow> barrier_state \<Rightarrow> bool" where
  "barrier_inv n s \<longleftrightarrow> length (pcs s) = n \<and> b_refcount s = n \<and> (\<forall>q<n. counter_ok n (pcs s ! q)) \<and>
     int (sync_mutex s) + total holds_sync (pcs s) = 1 \<and>
     int (b_mutex s) + total holds_mutex (pcs s) = 1 \<and>
     (b_active s \<longrightarrow> total leads_now (pcs s) = 1) \<and>
     (\<not> b_active s \<longrightarrow> total leads_now (pcs s) = 0) \<and>
     total leads_now (pcs s) + total has_led (pcs s) \<le> 1 \<and>
     int (b_arrive s) + total (collected n) (pcs s) = total posted (pcs s) \<and>
     int (b_depart s) + total passed (pcs s) = total (signalled n) (pcs s) \<and>
     (total leads_now (pcs s) + total has_led (pcs s) = 0 \<longrightarrow> total follows (pcs s) = 0)"

lemma role_bounds [simp]:
  "0 \<le> holds_sync c" "0 \<le> holds_mutex c" "0 \<le> leads_now c" "0 \<le> has_led c" "0 \<le> follows c"
  "0 \<le> posted c" "0 \<le> passed c"
  by (cases c; simp)+

lemma totals_nonneg [simp]:
  "0 \<le> total holds_sync xs" "0 \<le> total holds_mutex xs" "0 \<le> total leads_now xs"
  "0 \<le> total has_led xs" "0 \<le> total follows xs" "0 \<le> total posted xs" "0 \<le> total passed xs"
  by (simp_all add: total_nonneg)

lemma posted_has_led: "posted c + has_led c \<le> 1"
  by (cases c) simp_all

lemma collected_has_led: "counter_ok n c \<Longrightarrow> 0 < n \<Longrightarrow> (int n - 1) * has_led c \<le> collected n c"
  by (cases c) auto

lemma total_scale: "total (\<lambda>c. k * f c) xs = k * total f xs"
  by (induction xs) (simp_all add: total_def algebra_simps)

text \<open>Once the leader is done, everybody else has posted: nobody is left to test the flag.\<close>

lemma no_test_after_leader:
  assumes inv: "barrier_inv n s" and led: "total has_led (pcs s) = 1" and c: "c \<in> set (pcs s)"
  shows "posted c + has_led c = 1"
proof (rule ccontr)
  assume "posted c + has_led c \<noteq> 1"
  then have "posted c + has_led c = 0"
    using posted_has_led [of c] role_bounds(6) [of c] role_bounds(4) [of c] by linarith
  then have "total (\<lambda>c. posted c + has_led c) (pcs s) < int (length (pcs s))"
    using c posted_has_led by (intro total_less_length)
  then have less: "total posted (pcs s) + total has_led (pcs s) < int n"
    using inv by (simp add: total_add barrier_inv_def)
  have "total (\<lambda>c. (int n - 1) * has_led c) (pcs s) \<le> total (collected n) (pcs s)"
  proof (intro total_le collected_has_led)
    fix d assume "d \<in> set (pcs s)"
    then show "counter_ok n d" and "0 < n" using inv by (auto simp: barrier_inv_def in_set_conv_nth)
  qed
  then have "int n - 1 \<le> total posted (pcs s)"
    using inv led by (simp add: total_scale barrier_inv_def)
  with less led show False by simp
qed

lemma counters_update:
  assumes "\<forall>q<n. counter_ok n (xs ! q)" and "counter_ok n c" and "length xs = n"
  shows "\<forall>q<n. counter_ok n (xs[p := c] ! q)"
proof (intro allI impI)
  fix q assume "q < n"
  with assms show "counter_ok n (xs[p := c] ! q)" by (cases "p = q") simp_all
qed

lemma barrier_inv_step:
  assumes inv: "barrier_inv n s" and step: "proc_step p s = Some t"
  shows "barrier_inv n t"
proof -
  have p: "p < length (pcs s)" and st: "Some t = barrier_sync_step p (pcs s ! p) s"
    using step by (auto simp: proc_step_def split: if_splits)
  then have c: "counter_ok n (pcs s ! p)" and n: "0 < n" using inv by (auto simp: barrier_inv_def)
  note simps = barrier_sync_step_def goto_def total_update [OF p] counters_update of_nat_diff Suc_le_eq
  show ?thesis
  proof (cases "pcs s ! p")
    case Test_Active
    show ?thesis
    proof (cases "b_active s")
      case True
      then have "1 + total has_led (pcs s) \<noteq> 0" using totals_nonneg(4) [of "pcs s"] by linarith
      with True Test_Active inv st show ?thesis unfolding barrier_inv_def by (clarsimp simp: simps)
    next
      case False
      have "total has_led (pcs s) \<noteq> 1"
        using no_test_after_leader [OF inv _ nth_mem [OF p]] Test_Active by auto
      moreover have "total leads_now (pcs s) + total has_led (pcs s) \<le> 1"
        using inv by (simp add: barrier_inv_def)
      ultimately have "total has_led (pcs s) = 0"
        using totals_nonneg(3,4) [of "pcs s"] by linarith
      with False Test_Active inv st n show ?thesis unfolding barrier_inv_def by (clarsimp simp: simps)
    qed
  next
    case (L_Wait i)
    with inv st c n show ?thesis unfolding barrier_inv_def
      by (cases i) (clarsimp simp: simps split: if_split_asm)+
  next
    case (L_Signal i)
    with inv st c n show ?thesis unfolding barrier_inv_def
      by (cases i) (clarsimp simp: simps)+
  next
    case L_Clear
    have "1 \<le> total leads_now (pcs s)"
      using total_member [of leads_now "pcs s ! p" "pcs s"] nth_mem [OF p] L_Clear by simp
    then have "b_active s" using inv by (cases "b_active s") (simp_all add: barrier_inv_def)
    with L_Clear inv st c n show ?thesis unfolding barrier_inv_def by (clarsimp simp: simps)
  qed (use inv st c n in \<open>unfold barrier_inv_def, clarsimp simp: simps split: if_split_asm\<close>)+
qed

lemma barrier_inv_start: "0 < n \<Longrightarrow> barrier_inv n (barrier_start n)"
  by (simp add: barrier_inv_def barrier_start_def total_replicate)

interpretation barrier: step_invariant "\<lambda>s. \<exists>n>0. s = barrier_start n" barrier_step
  "\<lambda>s. \<exists>n>0. barrier_inv n s"
  by unfold_locales (auto intro: barrier_inv_start barrier_inv_step elim!: barrier_stepE)

lemma barrier_inv_reachable:
  assumes "0 < n" and "barrier_step\<^sup>*\<^sup>* (barrier_start n) s"
  shows "barrier_inv n s"
proof -
  from barrier.inv_reachable [OF _ assms(2)] assms(1) obtain m where m: "barrier_inv m s" by auto
  have "length (pcs s) = n" using assms(2)
  proof (induction rule: rtranclp_induct)
    case base
    show ?case by (simp add: barrier_start_def)
  next
    case (step t u)
    then show ?case
      by (auto elim!: barrier_stepE simp: proc_step_def barrier_sync_step_def goto_def
          split: if_splits pc.splits nat.splits)
  qed
  with m show ?thesis by (simp add: barrier_inv_def)
qed

section \<open>Nobody leaves before everybody arrived\<close>

text \<open>Arrived: leads, or has posted its arrival. Returning: past the departure.\<close>

definition arrived :: "pc \<Rightarrow> bool" where
  "arrived c \<longleftrightarrow> posted c = 1 \<or> leads_now c = 1 \<or> has_led c = 1"

fun returning :: "pc \<Rightarrow> bool" where
  "returning (Relock l) = True" | "returning (Unlock l) = True" | "returning (Left l) = True"
| "returning _ = False"

lemma posted_leads: "posted c + leads_now c + has_led c \<le> 1"
  by (cases c) simp_all

lemma arrived_weight: "arrived c \<longleftrightarrow> posted c + leads_now c + has_led c \<noteq> 0"
  by (cases c) (simp_all add: arrived_def)

lemma returning_weight: "returning c \<Longrightarrow> passed c + has_led c = 1"
  by (cases c) simp_all

lemma signalled_collected:
  assumes "counter_ok n c" and "0 < n" and "0 < signalled n c"
  shows "collected n c = int n - 1 \<and> leads_now c + has_led c = 1"
  using assms by (cases c) (auto simp: of_bool_def split: if_splits)

lemma collected_nonneg: "counter_ok n c \<Longrightarrow> 0 < n \<Longrightarrow> 0 \<le> collected n c"
  by (cases c) auto

lemma barrier_counter: "barrier_inv n s \<Longrightarrow> c \<in> set (pcs s) \<Longrightarrow> counter_ok n c \<and> 0 < n"
  by (auto simp: barrier_inv_def in_set_conv_nth)

lemma total_member_on:
  assumes "\<And>d. d \<in> set xs \<Longrightarrow> 0 \<le> f d" and "c \<in> set xs"
  shows "f c \<le> total f xs"
proof -
  have nonneg: "0 \<le> total f ys" if "set ys \<subseteq> set xs" for ys
    using that assms(1) by (induction ys) (auto simp: total_def)
  from assms(2) obtain ys zs where xs: "xs = ys @ c # zs" by (auto dest: split_list)
  then have "0 \<le> total f ys" "0 \<le> total f zs" by (intro nonneg; auto)+
  then show ?thesis by (simp add: xs total_def)
qed

text \<open>If somebody leads who has collected all arrivals, then everybody has arrived.\<close>

lemma all_arrived:
  assumes inv: "barrier_inv n s" and d: "d \<in> set (pcs s)" "collected n d = int n - 1"
      "leads_now d + has_led d = 1" and c: "c \<in> set (pcs s)"
  shows "arrived c"
proof (rule ccontr)
  assume "\<not> arrived c"
  then have "total (\<lambda>c. posted c + leads_now c + has_led c) (pcs s) < int (length (pcs s))"
    using posted_leads c by (intro total_less_length) (auto simp: arrived_weight)
  then have less: "total posted (pcs s) + total (\<lambda>c. leads_now c + has_led c) (pcs s) < int n"
    using inv by (simp add: total_add barrier_inv_def)
  have "1 \<le> total (\<lambda>c. leads_now c + has_led c) (pcs s)"
    using total_member [of "\<lambda>c. leads_now c + has_led c" d "pcs s"] d by simp
  moreover have "int n - 1 \<le> total posted (pcs s)"
  proof -
    have "collected n d \<le> total (collected n) (pcs s)"
      using barrier_counter [OF inv] by (intro total_member_on d(1)) (auto intro: collected_nonneg)
    then show ?thesis using d(2) inv by (simp add: barrier_inv_def)
  qed
  ultimately show False using less by linarith
qed

lemma barrier_inv_safe:
  assumes inv: "barrier_inv n s" and r: "r \<in> set (pcs s)" "returning r" and c: "c \<in> set (pcs s)"
  shows "arrived c"
proof (cases "has_led r = 1")
  case True
  with r(2) have "collected n r = int n - 1" "leads_now r + has_led r = 1" by (cases r; simp)+
  then show ?thesis using all_arrived [OF inv r(1) _ _ c] by blast
next
  case False
  with r(2) have "passed r = 1" by (cases r) auto
  then have "0 < total passed (pcs s)" using total_member [of passed r "pcs s"] r(1) by simp
  then have "0 < total (signalled n) (pcs s)" using inv by (simp add: barrier_inv_def)
  then obtain d where d: "d \<in> set (pcs s)" "0 < signalled n d" using total_pos by blast
  with barrier_counter [OF inv d(1)] signalled_collected
  have "collected n d = int n - 1" "leads_now d + has_led d = 1" by blast+
  then show ?thesis using all_arrived [OF inv d(1) _ _ c] by blast
qed

section \<open>Every maximal run lets everybody through\<close>

fun rank :: "nat \<Rightarrow> pc \<Rightarrow> nat" where
  "rank n Enter = 2 * n + 11" | "rank n Lock_B = 2 * n + 10" | "rank n Test_Active = 2 * n + 9"
| "rank n (L_Unlock_B i) = n + i + 9" | "rank n (L_Unlock_S i) = n + i + 8" | "rank n (L_Wait i) = n + i + 7"
| "rank n L_Lock_B = n + 6" | "rank n L_Count = n + 5" | "rank n (L_Signal i) = i + 5"
| "rank n L_Clear = 4" | "rank n L_Unlock_B2 = 3"
| "rank n F_Unlock_B = 6" | "rank n F_Unlock_S = 5" | "rank n F_Post = 4" | "rank n F_Wait = 3"
| "rank n (Relock l) = 2" | "rank n (Unlock l) = 1" | "rank n (Left l) = 0"

definition barrier_work :: "nat \<Rightarrow> barrier_state \<Rightarrow> int" where
  "barrier_work n s = total (\<lambda>c. int (rank n c)) (pcs s)"

lemma barrier_work_step:
  assumes inv: "barrier_inv n s" and step: "proc_step p s = Some t"
  shows "barrier_work n t < barrier_work n s"
proof -
  have p: "p < length (pcs s)" and st: "Some t = barrier_sync_step p (pcs s ! p) s"
    using step by (auto simp: proc_step_def split: if_splits)
  then have n: "0 < n" "b_refcount s = n" using inv by (auto simp: barrier_inv_def)
  note simps = barrier_sync_step_def goto_def barrier_work_def total_update [OF p] of_nat_diff Suc_le_eq
  show ?thesis
    using st n by (cases "pcs s ! p")
      (clarsimp simp: simps split: if_split_asm nat.split_asm)+
qed

lemma barrier_run_length:
  assumes "0 < n" and "(barrier_step ^^ k) (barrier_start n) s"
  shows "int k + barrier_work n s \<le> int n * (2 * int n + 11)"
  using assms(2)
proof (induction k arbitrary: s)
  case 0
  then have "s = barrier_start n" by simp
  then show ?case by (simp add: barrier_work_def barrier_start_def total_replicate)
next
  case (Suc k)
  then obtain t where run: "(barrier_step ^^ k) (barrier_start n) t" and "barrier_step t s" by auto
  then obtain p where p: "proc_step p t = Some s" by (auto elim: barrier_stepE)
  have "barrier_inv n t" using run assms(1) barrier_inv_reachable relpowp_imp_rtranclp by metis
  from barrier_work_step [OF this p] Suc.IH [OF run] show ?case by simp
qed

lemma barrier_work_nonneg: "0 \<le> barrier_work n s"
  by (simp add: barrier_work_def total_nonneg)

text \<open>Who cannot move, and what that says of the semaphores.\<close>

lemma blocked_cases:
  assumes "p < length (pcs s)" and "proc_step p s = None"
  shows "(\<exists>l. pcs s ! p = Left l) \<or> sync_mutex s = 0 \<and> (pcs s ! p = Enter \<or> (\<exists>l. pcs s ! p = Relock l))
    \<or> b_mutex s = 0 \<and> (pcs s ! p = Lock_B \<or> pcs s ! p = L_Lock_B)
    \<or> b_arrive s = 0 \<and> (\<exists>j. pcs s ! p = L_Wait (Suc j))
    \<or> b_depart s = 0 \<and> pcs s ! p = F_Wait"
  using assms by (cases "pcs s ! p")
    (auto simp: proc_step_def barrier_sync_step_def split: if_splits nat.splits)

definition stuck :: "barrier_state \<Rightarrow> bool" where
  "stuck s \<longleftrightarrow> (\<forall>p<length (pcs s). proc_step p s = None)"

lemma total_zero: "(\<And>c. c \<in> set xs \<Longrightarrow> f c = 0) \<Longrightarrow> total f xs = 0"
  by (induction xs) (simp_all add: total_def)

lemma stuck_semaphores:
  assumes inv: "barrier_inv n s" and stuck: "stuck s"
  shows "b_mutex s \<noteq> 0 \<and> sync_mutex s \<noteq> 0"
proof -
  have blocked: "(\<exists>l. c = Left l) \<or> sync_mutex s = 0 \<and> (c = Enter \<or> (\<exists>l. c = Relock l))
      \<or> b_mutex s = 0 \<and> (c = Lock_B \<or> c = L_Lock_B) \<or> (\<exists>j. c = L_Wait (Suc j)) \<or> c = F_Wait"
    if "c \<in> set (pcs s)" for c
  proof -
    from that obtain p where "p < length (pcs s)" "c = pcs s ! p" by (auto simp: in_set_conv_nth)
    with stuck show ?thesis unfolding stuck_def using blocked_cases [of p s] by auto
  qed
  have "total holds_mutex (pcs s) = 0" by (rule total_zero) (use blocked in force)
  then have m: "b_mutex s = 1" using inv by (simp add: barrier_inv_def)
  then have "total holds_sync (pcs s) = 0" by (intro total_zero) (use blocked in force)
  then have "sync_mutex s = 1" using inv by (simp add: barrier_inv_def)
  with m show ?thesis by simp
qed

lemma stuck_cases:
  assumes inv: "barrier_inv n s" and stuck: "stuck s" and c: "c \<in> set (pcs s)"
  shows "(\<exists>l. c = Left l) \<or> b_arrive s = 0 \<and> (\<exists>j. c = L_Wait (Suc j)) \<or> b_depart s = 0 \<and> c = F_Wait"
proof -
  from c obtain p where "p < length (pcs s)" "c = pcs s ! p" by (auto simp: in_set_conv_nth)
  with stuck stuck_semaphores [OF inv stuck] show ?thesis
    unfolding stuck_def using blocked_cases [of p s] by auto
qed

text \<open>A leader that still waits: then nobody has passed, and all others have posted.\<close>

lemma stuck_no_leader_waits:
  assumes inv: "barrier_inv n s" and stuck: "stuck s"
  shows "L_Wait (Suc j) \<notin> set (pcs s)"
proof
  assume w: "L_Wait (Suc j) \<in> set (pcs s)"
  have arr: "b_arrive s = 0" using stuck_cases [OF inv stuck w] by auto
  have nl: "has_led c = 0" if "c \<in> set (pcs s)" for c
  proof -
    have "1 \<le> total leads_now (pcs s)" using total_member [of leads_now "L_Wait (Suc j)" "pcs s"] w by simp
    moreover have "has_led c \<le> total has_led (pcs s)" using that by (intro total_member) simp_all
    ultimately show ?thesis using inv role_bounds(4) [of c] unfolding barrier_inv_def by linarith
  qed
  have form: "posted c = 1 \<and> leads_now c = 0 \<and> collected n c = 0 \<or>
      posted c = 0 \<and> leads_now c = 1 \<and> collected n c \<le> int n - 2" if "c \<in> set (pcs s)" for c
  proof -
    from stuck_cases [OF inv stuck that] consider l where "c = Left l" | i where "c = L_Wait (Suc i)" | "c = F_Wait"
      by blast
    then show ?thesis using nl [OF that] by cases (auto split: if_splits)
  qed
  have one: "total leads_now (pcs s) \<le> 1"
    using inv totals_nonneg(4) [of "pcs s"] unfolding barrier_inv_def by linarith
  have "int n = total (\<lambda>c. posted c + leads_now c) (pcs s)"
  proof -
    have "posted c + leads_now c = 1" if "c \<in> set (pcs s)" for c
      using form [OF that] by auto
    then have "total (\<lambda>c. posted c + leads_now c) (pcs s) = total (\<lambda>c. 1) (pcs s)"
      by (intro antisym total_le) simp_all
    also have "\<dots> = int (length (pcs s))" by (induction "pcs s") (simp_all add: total_def sum_list_triv)
    finally show ?thesis using inv by (simp add: barrier_inv_def)
  qed
  then have post: "int n - 1 \<le> total posted (pcs s)" using one by (simp add: total_add)
  have "total (collected n) (pcs s) \<le> total (\<lambda>c. (int n - 2) * leads_now c) (pcs s)"
  proof (rule total_le)
    fix c assume c: "c \<in> set (pcs s)"
    show "collected n c \<le> (int n - 2) * leads_now c"
      using form [OF c] by auto
  qed
  then have "total (collected n) (pcs s) \<le> int n - 2"
    using inv total_member [of leads_now "L_Wait (Suc j)" "pcs s"] w one by (simp add: total_scale)
  with post arr inv show False by (simp add: barrier_inv_def)
qed

lemma stuck_all_left:
  assumes inv: "barrier_inv n s" and stuck: "stuck s" and c: "c \<in> set (pcs s)"
  shows "\<exists>l. c = Left l"
proof (rule ccontr)
  assume "\<nexists>l. c = Left l"
  with stuck_cases [OF inv stuck c] stuck_no_leader_waits [OF inv stuck] c
  have cw: "c = F_Wait" and dep: "b_depart s = 0" by auto
  have form: "d = F_Wait \<or> (\<exists>l. d = Left l)" if "d \<in> set (pcs s)" for d
    using stuck_cases [OF inv stuck that] stuck_no_leader_waits [OF inv stuck] that by blast
  have "0 < total follows (pcs s)" using total_member [of follows c "pcs s"] c cw by simp
  moreover have "total leads_now (pcs s) = 0" by (rule total_zero) (use form in force)
  ultimately have led: "total has_led (pcs s) = 1"
    using inv totals_nonneg(4) [of "pcs s"] unfolding barrier_inv_def by linarith
  have "total (signalled n) (pcs s) = total (\<lambda>d. (int n - 1) * has_led d) (pcs s)"
    by (intro antisym total_le) (use form in \<open>fastforce\<close>)+
  then have "total (signalled n) (pcs s) = int n - 1" using led by (simp add: total_scale)
  then have "total passed (pcs s) = int n - 1" using dep inv by (simp add: barrier_inv_def)
  moreover have "total (\<lambda>d. passed d + has_led d) (pcs s) < int (length (pcs s))"
  proof (rule total_less_length)
    show "passed d + has_led d \<le> 1" for d by (cases d) simp_all
    show "passed c + has_led c = 0" by (simp add: cw)
  qed (rule c)
  ultimately show False using led inv by (simp add: total_add barrier_inv_def)
qed

text \<open>
  A schedule of three processes for examples: 0 leads, 1 and 2 post, 0 signals both and returns, 1
  returns, 2 has not moved on yet.
\<close>

definition first_round :: "nat list" where
  "first_round = replicate 5 0 @ replicate 6 1 @ replicate 6 2 @ replicate 12 0 @ replicate 3 1"

end
