(* ===== verification/Sync_Reuse.thy ===== *)
theory Sync_Reuse
  imports Sync_Barrier
begin

text \<open>
  Processes that come back to a barrier, and waits that a signal interrupts. A process that has
  returned from \<^verbatim>\<open>blts_sync_anon\<close> may call it again (\<open>Again\<close> takes one of the calls it has left);
  a \<^verbatim>\<open>sem_wait\<close> of \<^verbatim>\<open>barrier_sync\<close> whose result is \<^verbatim>\<open>EINTR\<close> is taken for one that succeeded
  (\<open>interrupt_step\<close>). The lemmas run one process at a time between two of its waits and put the runs
  together for any number of processes.
\<close>

section \<open>Calling again\<close>

text \<open>The calls each process has left, beside the shared state.\<close>

type_synonym caller_state = "nat list \<times> barrier_state"

inductive caller_step :: "caller_state \<Rightarrow> caller_state \<Rightarrow> bool" where
  Move: "proc_step p s = Some t \<Longrightarrow> caller_step (k, s) (k, t)"
| Again: "p < length (pcs s) \<Longrightarrow> pcs s ! p = Left l \<Longrightarrow> k ! p = Suc m \<Longrightarrow>
    caller_step (k, s) (k[p := m], goto p Enter s)"

inductive_cases caller_stepE: "caller_step (k, s) x"

text \<open>\<open>n\<close> processes that each call \<open>r\<close> times.\<close>

definition callers :: "nat \<Rightarrow> nat \<Rightarrow> caller_state" where
  "callers n r = (replicate n (r - 1), barrier_start n)"

lemma caller_moves: "barrier_step\<^sup>*\<^sup>* s t \<Longrightarrow> caller_step\<^sup>*\<^sup>* (k, s) (k, t)"
  by (induction rule: rtranclp_induct) (auto elim!: barrier_stepE intro: Move rtranclp.rtrancl_into_rtrancl)

section \<open>One process at a time\<close>

text \<open>A state of \<open>n\<close> processes in which both mutexes are free; \<open>f\<close> tells where each process is.\<close>

definition free_state :: "nat \<Rightarrow> nat \<Rightarrow> nat \<Rightarrow> bool \<Rightarrow> (nat \<Rightarrow> pc) \<Rightarrow> barrier_state" where
  "free_state n a d act f = \<lparr>sync_mutex = 1, b_mutex = 1, b_arrive = a, b_depart = d, b_active = act,
     b_refcount = n, pcs = map f [0..<n]\<rparr>"

lemma map_upt_update: "p < n \<Longrightarrow> (map f [0..<n])[p := c] = map (f(p := c)) [0..<n]"
  by (rule nth_equalityI) (auto simp: nth_list_update)

lemma free_state_start: "barrier_start n = free_state n 0 0 False (\<lambda>_. Enter)"
  by (simp add: barrier_start_def free_state_def map_replicate_trivial map_replicate_const)

lemma free_state_goto: "p < n \<Longrightarrow> goto p c (free_state n a d act f) = free_state n a d act (f(p := c))"
  by (simp add: goto_def free_state_def map_upt_update)

lemmas run_simps = free_state_def proc_step_def barrier_sync_step_def goto_def numeral_eq_Suc

lemma leader_enters:
  assumes "p < n" and "f p = Enter"
  shows "barrier_step\<^sup>*\<^sup>* (free_state n a d False f) (free_state n a d True (f(p := L_Wait (n - 1))))"
proof -
  have "run_schedule (replicate 5 p) (free_state n a d False f) = free_state n a d True (f(p := L_Wait (n - 1)))"
    using assms by (simp add: run_simps map_upt_update [symmetric])
  then show ?thesis using run_schedule_reach by metis
qed

lemma follower_posts:
  assumes "p < n" and "f p = Enter"
  shows "barrier_step\<^sup>*\<^sup>* (free_state n a d True f) (free_state n (Suc a) d True (f(p := F_Wait)))"
proof -
  have "run_schedule (replicate 6 p) (free_state n a d True f) = free_state n (Suc a) d True (f(p := F_Wait))"
    using assms by (simp add: run_simps map_upt_update [symmetric])
  then show ?thesis using run_schedule_reach by metis
qed

lemma follower_leaves:
  assumes "p < n" and "f p = F_Wait"
  shows "barrier_step\<^sup>*\<^sup>* (free_state n a (Suc d) act f) (free_state n a d act (f(p := Left False)))"
proof -
  have "run_schedule (replicate 3 p) (free_state n a (Suc d) act f) = free_state n a d act (f(p := Left False))"
    using assms by (simp add: run_simps map_upt_update [symmetric])
  then show ?thesis using run_schedule_reach by metis
qed

lemma leader_collects:
  assumes "p < n"
  shows "f p = L_Wait (k + j) \<Longrightarrow>
    barrier_step\<^sup>*\<^sup>* (free_state n (k + a) d act f) (free_state n a d act (f(p := L_Wait j)))"
proof (induction k arbitrary: f)
  case 0
  then have "f(p := L_Wait j) = f" by auto
  then show ?case by simp
next
  case (Suc k)
  have "run_schedule [p] (free_state n (Suc k + a) d act f) = free_state n (k + a) d act (f(p := L_Wait (k + j)))"
    using assms Suc.prems by (simp add: run_simps map_upt_update [symmetric])
  then have "barrier_step\<^sup>*\<^sup>* (free_state n (Suc k + a) d act f) (free_state n (k + a) d act (f(p := L_Wait (k + j))))"
    using run_schedule_reach by metis
  moreover have "barrier_step\<^sup>*\<^sup>* (free_state n (k + a) d act (f(p := L_Wait (k + j))))
      (free_state n a d act ((f(p := L_Wait (k + j)))(p := L_Wait j)))"
    by (rule Suc.IH) simp
  ultimately show ?case unfolding fun_upd_upd by (rule rtranclp_trans)
qed

lemma leader_signals:
  "p < length (pcs s) \<Longrightarrow> pcs s ! p = L_Signal j \<Longrightarrow>
    run_schedule (replicate j p) s = goto p (L_Signal 0) (s\<lparr>b_depart := b_depart s + j\<rparr>)"
proof (induction j arbitrary: s)
  case 0
  then have "(pcs s)[p := L_Signal 0] = pcs s" by (metis list_update_id)
  then show ?case by (simp add: goto_def)
next
  case (Suc j)
  then show ?case by (simp add: proc_step_def barrier_sync_step_def goto_def)
qed

lemma leader_leaves:
  assumes "p < n" and "f p = L_Wait 0"
  shows "barrier_step\<^sup>*\<^sup>* (free_state n a d act f) (free_state n a (d + (n - 1)) False (f(p := Left True)))"
proof -
  let ?s = "(free_state n a d act (f(p := L_Signal (n - 1))))\<lparr>b_mutex := 0\<rparr>"
  let ?t = "(free_state n a (d + (n - 1)) act (f(p := L_Signal 0)))\<lparr>b_mutex := 0\<rparr>"
  have 1: "run_schedule (replicate 3 p) (free_state n a d act f) = ?s"
    using assms by (simp add: run_simps map_upt_update [symmetric])
  have "run_schedule (replicate (n - 1) p) ?s = goto p (L_Signal 0) (?s\<lparr>b_depart := b_depart ?s + (n - 1)\<rparr>)"
    by (rule leader_signals) (use assms(1) in \<open>simp_all add: free_state_def\<close>)
  also have "\<dots> = ?t"
    using assms(1) by (simp add: goto_def free_state_def map_upt_update)
  finally have 2: "run_schedule (replicate (n - 1) p) ?s = ?t" .
  have 3: "run_schedule (replicate 5 p) ?t = free_state n a (d + (n - 1)) False (f(p := Left True))"
    using assms(1) by (simp add: run_simps map_upt_update [symmetric])
  show ?thesis
    using run_schedule_reach [of "free_state n a d act f" "replicate 3 p"] run_schedule_reach [of ?s "replicate (n - 1) p"]
      run_schedule_reach [of ?t "replicate 5 p"]
    unfolding 1 2 3 by (elim rtranclp_trans) (rule rtranclp.rtrancl_refl)
qed

section \<open>All processes of a range\<close>

definition range_at :: "nat \<Rightarrow> nat \<Rightarrow> pc \<Rightarrow> (nat \<Rightarrow> pc) \<Rightarrow> nat \<Rightarrow> pc" where
  "range_at i m c f q = (if i \<le> q \<and> q < i + m then c else f q)"

lemma range_at_0 [simp]: "range_at i 0 c f = f"
  by (rule ext) (auto simp: range_at_def)

lemma range_at_Suc: "(range_at i m c f)(i + m := c) = range_at i (Suc m) c f"
  by (rule ext) (auto simp: range_at_def)

lemma all_post:
  assumes "i + m \<le> n" and "\<And>q. i \<le> q \<Longrightarrow> q < i + m \<Longrightarrow> f q = Enter"
  shows "barrier_step\<^sup>*\<^sup>* (free_state n a d True f) (free_state n (a + m) d True (range_at i m F_Wait f))"
  using assms
proof (induction m)
  case 0
  show ?case by simp
next
  case (Suc m)
  have "barrier_step\<^sup>*\<^sup>* (free_state n a d True f) (free_state n (a + m) d True (range_at i m F_Wait f))"
    by (rule Suc.IH) (use Suc.prems in simp_all)
  moreover have "barrier_step\<^sup>*\<^sup>* (free_state n (a + m) d True (range_at i m F_Wait f))
      (free_state n (Suc (a + m)) d True ((range_at i m F_Wait f)(i + m := F_Wait)))"
    by (rule follower_posts) (use Suc.prems in \<open>simp_all add: range_at_def\<close>)
  ultimately show ?case unfolding range_at_Suc add_Suc_right by (rule rtranclp_trans)
qed

lemma all_leave:
  assumes "i + m \<le> n" and "\<And>q. i \<le> q \<Longrightarrow> q < i + m \<Longrightarrow> f q = F_Wait"
  shows "barrier_step\<^sup>*\<^sup>* (free_state n a (m + d) act f) (free_state n a d act (range_at i m (Left False) f))"
  using assms
proof (induction m arbitrary: d)
  case 0
  show ?case by simp
next
  case (Suc m)
  have "barrier_step\<^sup>*\<^sup>* (free_state n a (m + Suc d) act f) (free_state n a (Suc d) act (range_at i m (Left False) f))"
    by (rule Suc.IH) (use Suc.prems in simp_all)
  moreover have "barrier_step\<^sup>*\<^sup>* (free_state n a (Suc d) act (range_at i m (Left False) f))
      (free_state n a d act ((range_at i m (Left False) f)(i + m := Left False)))"
    by (rule follower_leaves) (use Suc.prems in \<open>simp_all add: range_at_def\<close>)
  ultimately show ?case unfolding range_at_Suc add_Suc_right add_Suc by (rule rtranclp_trans)
qed

section \<open>One round, and a second one\<close>

text \<open>
  The first round of \<open>n\<close> processes, up to the point where all but the last have returned: 0 leads.
\<close>

lemma first_round_run:
  assumes "2 \<le> n"
  shows "barrier_step\<^sup>*\<^sup>* (barrier_start n) (free_state n 0 1 False
    (\<lambda>q. if q = 0 then Left True else if q < n - 1 then Left False else if q = n - 1 then F_Wait else Enter))"
proof -
  let ?f1 = "(\<lambda>_. Enter)(0 := L_Wait (n - 1))"
  let ?f2 = "range_at 1 (n - 1) F_Wait ?f1"
  let ?f3 = "?f2(0 := L_Wait 0)"
  let ?f4 = "?f3(0 := Left True)"
  let ?f5 = "range_at 1 (n - 2) (Left False) ?f4"
  have n: "0 < n" and e1: "0 + (n - 1) = n - 1 + 0" and e2: "0 + (n - 1) = n - 2 + 1" using assms by simp_all
  have r1: "barrier_step\<^sup>*\<^sup>* (barrier_start n) (free_state n 0 0 True ?f1)"
    unfolding free_state_start by (rule leader_enters) (use n in simp_all)
  have r2: "barrier_step\<^sup>*\<^sup>* (free_state n 0 0 True ?f1) (free_state n (0 + (n - 1)) 0 True ?f2)"
    by (rule all_post) (use n in simp_all)
  have r3: "barrier_step\<^sup>*\<^sup>* (free_state n ((n - 1) + 0) 0 True ?f2) (free_state n 0 0 True ?f3)"
    by (rule leader_collects) (use n in \<open>simp_all add: range_at_def\<close>)
  have r4: "barrier_step\<^sup>*\<^sup>* (free_state n 0 0 True ?f3) (free_state n 0 (0 + (n - 1)) False ?f4)"
    by (rule leader_leaves) (use n in simp_all)
  have r5: "barrier_step\<^sup>*\<^sup>* (free_state n 0 (n - 2 + 1) False ?f4) (free_state n 0 1 False ?f5)"
    by (rule all_leave) (use n in \<open>auto simp: range_at_def\<close>)
  have f5: "?f5 = (\<lambda>q. if q = 0 then Left True else if q < n - 1 then Left False
      else if q = n - 1 then F_Wait else Enter)"
    using assms by (intro ext) (auto simp: range_at_def)
  show ?thesis
    by (rule rtranclp_trans [OF r1 rtranclp_trans [OF r2 [unfolded e1] rtranclp_trans [OF r3
      rtranclp_trans [OF r4 [unfolded e2] r5 [unfolded f5]]]]])
qed

text \<open>All but the last call again.\<close>

lemma all_again:
  assumes "m \<le> n" and "\<And>q. q < m \<Longrightarrow> \<exists>l. f q = Left l"
  shows "caller_step\<^sup>*\<^sup>* (replicate n 1, free_state n a d act f)
    (replicate m 0 @ replicate (n - m) 1, free_state n a d act (range_at 0 m Enter f))"
  using assms
proof (induction m)
  case 0
  show ?case by simp
next
  case (Suc m)
  let ?k = "replicate m 0 @ replicate (n - m) (1::nat)" and ?s = "free_state n a d act (range_at 0 m Enter f)"
  obtain l where l: "f m = Left l" using Suc.prems(2) [of m] by auto
  have "n - m = Suc (n - Suc m)" using Suc.prems(1) by simp
  then have "?k = replicate m 0 @ 1 # replicate (n - Suc m) 1" by simp
  then have k: "?k[m := 0] = replicate (Suc m) 0 @ replicate (n - Suc m) 1" "?k ! m = Suc 0"
    by (simp_all add: list_update_append nth_append replicate_app_Cons_same)
  have s: "goto m Enter ?s = free_state n a d act (range_at 0 (Suc m) Enter f)"
    using Suc.prems(1) range_at_Suc [of 0 m Enter f] by (simp add: free_state_goto)
  have "caller_step (?k, ?s) (?k[m := 0], goto m Enter ?s)"
    by (rule Again) (use Suc.prems(1) l k(2) in \<open>simp_all add: free_state_def range_at_def\<close>)
  then have "caller_step (?k, ?s) (replicate (Suc m) 0 @ replicate (n - Suc m) 1,
      free_state n a d act (range_at 0 (Suc m) Enter f))"
    unfolding k s .
  moreover have "caller_step\<^sup>*\<^sup>* (replicate n 1, free_state n a d act f) (?k, ?s)"
    by (rule Suc.IH) (use Suc.prems in simp_all)
  ultimately show ?case by (rule rtranclp.rtrancl_into_rtrancl [rotated])
qed

text \<open>
  In the second round 1 leads, and 0 posts its arrival and takes the departure signal that was left
  for the last process; when the others have posted too, the leader still misses one arrival.
\<close>

lemma second_round_run:
  assumes "3 \<le> n"
  shows "barrier_step\<^sup>*\<^sup>* (free_state n 0 1 False (\<lambda>q. if q < n - 1 then Enter else F_Wait))
    (free_state n 0 0 True (\<lambda>q. if q = 0 then Left False else if q = 1 then L_Wait 1 else F_Wait))"
proof -
  let ?f0 = "\<lambda>q. if q < n - 1 then Enter else F_Wait"
  let ?f1 = "?f0(1 := L_Wait (n - 1))"
  let ?f2 = "?f1(0 := F_Wait)"
  let ?f3 = "?f2(0 := Left False)"
  let ?f4 = "range_at 2 (n - 3) F_Wait ?f3"
  let ?f5 = "?f4(1 := L_Wait 1)"
  have n: "0 < n" "1 < n" "n - 1 = n - 2 + 1" and e: "Suc 0 + (n - 3) = n - 2 + 0" using assms by simp_all
  have r1: "barrier_step\<^sup>*\<^sup>* (free_state n 0 1 False ?f0) (free_state n 0 1 True ?f1)"
    by (rule leader_enters) (use assms in simp_all)
  have r2: "barrier_step\<^sup>*\<^sup>* (free_state n 0 1 True ?f1) (free_state n (Suc 0) 1 True ?f2)"
    by (rule follower_posts) (use assms in simp_all)
  have r3: "barrier_step\<^sup>*\<^sup>* (free_state n (Suc 0) 1 True ?f2) (free_state n (Suc 0) 0 True ?f3)"
    unfolding One_nat_def by (rule follower_leaves) (use assms in simp_all)
  have r4: "barrier_step\<^sup>*\<^sup>* (free_state n (Suc 0) 0 True ?f3) (free_state n (Suc 0 + (n - 3)) 0 True ?f4)"
    by (rule all_post) (use assms in auto)
  have r5: "barrier_step\<^sup>*\<^sup>* (free_state n (n - 2 + 0) 0 True ?f4) (free_state n 0 0 True ?f5)"
    by (rule leader_collects) (use assms in \<open>simp_all add: range_at_def\<close>)
  have f5: "free_state n 0 0 True ?f5
      = free_state n 0 0 True (\<lambda>q. if q = 0 then Left False else if q = 1 then L_Wait 1 else F_Wait)"
    using assms by (auto simp: free_state_def range_at_def)
  show ?thesis
    by (rule rtranclp_trans [OF r1 rtranclp_trans [OF r2 rtranclp_trans [OF r3
      rtranclp_trans [OF r4 [unfolded e] r5 [unfolded f5]]]]])
qed

text \<open>Nobody can move in the state so reached.\<close>

lemma second_round_stuck:
  assumes "3 \<le> n"
  shows "\<not> caller_step (replicate (n - 1) 0 @ [1],
    free_state n 0 0 True (\<lambda>q. if q = 0 then Left False else if q = 1 then L_Wait 1 else F_Wait)) x"
  using assms by (auto elim!: caller_stepE simp: free_state_def proc_step_def barrier_sync_step_def nth_append
    split: if_splits)

lemma second_round_reached:
  assumes "3 \<le> n"
  shows "caller_step\<^sup>*\<^sup>* (callers n 2) (replicate (n - 1) 0 @ [1],
    free_state n 0 0 True (\<lambda>q. if q = 0 then Left False else if q = 1 then L_Wait 1 else F_Wait))"
proof -
  let ?g = "\<lambda>q. if q = 0 then Left True else if q < n - 1 then Left False else if q = n - 1 then F_Wait else Enter"
  have r1: "caller_step\<^sup>*\<^sup>* (callers n 2) (replicate n 1, free_state n 0 1 False ?g)"
    using caller_moves [OF first_round_run [of n]] assms by (simp add: callers_def)
  have r2: "caller_step\<^sup>*\<^sup>* (replicate n 1, free_state n 0 1 False ?g)
      (replicate (n - 1) 0 @ replicate (n - (n - 1)) 1, free_state n 0 1 False (range_at 0 (n - 1) Enter ?g))"
    by (rule all_again) auto
  have e: "replicate (n - 1) 0 @ replicate (n - (n - 1)) (1::nat) = replicate (n - 1) 0 @ [1]"
    "free_state n 0 1 False (range_at 0 (n - 1) Enter ?g)
      = free_state n 0 1 False (\<lambda>q. if q < n - 1 then Enter else F_Wait)"
    using assms by (auto simp: free_state_def range_at_def)
  show ?thesis
    by (rule rtranclp_trans [OF r1 rtranclp_trans [OF r2 [unfolded e] caller_moves [OF second_round_run [OF assms]]]])
qed

section \<open>Interrupted waits\<close>

text \<open>
  A \<^verbatim>\<open>sem_wait\<close> that a signal handler interrupts returns -1 with \<^verbatim>\<open>EINTR\<close> and has taken nothing. The two
  lock functions let that pass without a word, the loops of \<^verbatim>\<open>barrier_sync\<close> do not look at the result:
  in every case the process goes on as if it had taken the semaphore.
\<close>

definition interrupt_step :: "nat \<Rightarrow> barrier_state \<Rightarrow> barrier_state option" where
  "interrupt_step p s = (if p < length (pcs s) then
     (case pcs s ! p of
        Enter \<Rightarrow> Some (goto p Lock_B s)
      | Lock_B \<Rightarrow> Some (goto p Test_Active s)
      | L_Wait i \<Rightarrow> (case i of 0 \<Rightarrow> None | Suc j \<Rightarrow> Some (goto p (L_Wait j) s))
      | L_Lock_B \<Rightarrow> Some (goto p L_Count s)
      | F_Wait \<Rightarrow> Some (goto p (Relock False) s)
      | Relock l \<Rightarrow> Some (goto p (Unlock l) s)
      | _ \<Rightarrow> None) else None)"

text \<open>One interrupted wait is enough for a process to leave a barrier that another has not reached.\<close>

lemma interrupt_leaves_early:
  assumes "3 \<le> n"
  shows "\<exists>s t. barrier_step\<^sup>*\<^sup>* (barrier_start n) s \<and> interrupt_step 1 s = Some t \<and>
    returning (pcs t ! 1) \<and> \<not> arrived (pcs t ! 2)"
proof -
  let ?f1 = "(\<lambda>_. Enter)(0 := L_Wait (n - 1))"
  let ?f2 = "?f1(1 := F_Wait)"
  have r1: "barrier_step\<^sup>*\<^sup>* (barrier_start n) (free_state n 0 0 True ?f1)"
    unfolding free_state_start by (rule leader_enters) (use assms in simp_all)
  have r2: "barrier_step\<^sup>*\<^sup>* (free_state n 0 0 True ?f1) (free_state n (Suc 0) 0 True ?f2)"
    by (rule follower_posts) (use assms in simp_all)
  have "interrupt_step 1 (free_state n (Suc 0) 0 True ?f2) = Some (goto 1 (Relock False) (free_state n (Suc 0) 0 True ?f2))"
    using assms by (simp add: interrupt_step_def free_state_def)
  also have "goto 1 (Relock False) (free_state n (Suc 0) 0 True ?f2) = free_state n (Suc 0) 0 True (?f2(1 := Relock False))"
    by (rule free_state_goto) (use assms in simp)
  finally have "interrupt_step 1 (free_state n (Suc 0) 0 True ?f2) = Some (free_state n (Suc 0) 0 True (?f2(1 := Relock False)))" .
  moreover have "returning (pcs (free_state n (Suc 0) 0 True (?f2(1 := Relock False))) ! 1)"
    "\<not> arrived (pcs (free_state n (Suc 0) 0 True (?f2(1 := Relock False))) ! 2)"
    using assms by (simp_all add: free_state_def arrived_def)
  ultimately show ?thesis using rtranclp_trans [OF r1 r2] by blast
qed

end
