(* ===== verification/Sync_Table.thy ===== *)
theory Sync_Table
  imports C_Text Permutations
begin

text \<open>
  The table of barriers in the memory shared by the test processes,
  \<^verbatim>\<open>blts-common/src/blts_sync.c\<close>: set-up of a barrier, the search for a tag, and the reference
  counting of tags by \<^verbatim>\<open>blts_sync_add_tag\<close> and \<^verbatim>\<open>blts_sync_del_tag\<close>. Both run under the master
  semaphore, so they are functions from table to table; a barrier's own mutex, which they take and
  give back, is left as it was. The waiting at a barrier is in \<open>Sync_Barrier\<close>. Reference counts
  are 32-bit unsigned.
\<close>

definition SYNC_TAG_LEN :: nat where "SYNC_TAG_LEN = 16"
definition SYNC_TAG_COUNT :: nat where "SYNC_TAG_COUNT = 64"

record tagged_barrier_entry =
  tb_mutex :: nat
  refcount :: nat
  active :: bool
  arrive_signal :: nat
  depart_signal :: nat
  tb_tag :: string

type_synonym barrier_table = "tagged_barrier_entry list"

text \<open>What \<^verbatim>\<open>memset\<close> leaves.\<close>

definition zero_barrier :: tagged_barrier_entry where
  "zero_barrier = \<lparr>tb_mutex = 0, refcount = 0, active = False, arrive_signal = 0, depart_signal = 0, tb_tag = ''''\<rparr>"

section \<open>Operations\<close>

text \<open>
  \<^verbatim>\<open>barrier_init\<close>: \<open>sem_err\<close> is the first error of the three \<^verbatim>\<open>sem_init\<close> calls. The tag is copied
  without room for a terminator.
\<close>

definition barrier_init :: "int option \<Rightarrow> nat \<Rightarrow> nat \<Rightarrow> string \<Rightarrow> barrier_table \<Rightarrow> (barrier_table \<times> int) res" where
  "barrier_init sem_err index client_count tag bs =
     rbind (nth_res bs index) (\<lambda>b.
       if refcount b \<noteq> 0 then Inr (bs, - 1)
       else (case sem_err of
           Some e \<Rightarrow> Inr (bs[index := zero_barrier], e)
         | None \<Rightarrow>
             Inr (bs[index := zero_barrier\<lparr>tb_mutex := 1, refcount := u32 client_count, active := False,
                    tb_tag := take SYNC_TAG_LEN tag\<rparr>], 0)))"

definition tag_len :: "string \<Rightarrow> nat" where
  "tag_len tag = (let len = length tag in if len > SYNC_TAG_LEN then SYNC_TAG_LEN else len)"

definition tag_matches :: "string \<Rightarrow> tagged_barrier_entry \<Rightarrow> bool" where
  "tag_matches tag b \<longleftrightarrow> refcount b \<noteq> 0 \<and> strn_eq (tb_tag b) tag (tag_len tag)"

fun find_tagged_barrier :: "string \<Rightarrow> barrier_table \<Rightarrow> nat option" where
  "find_tagged_barrier tag [] = None"
| "find_tagged_barrier tag (b # bs) =
     (if refcount b \<noteq> 0 \<and> strn_eq (tb_tag b) tag (tag_len tag) then Some 0
      else map_option Suc (find_tagged_barrier tag bs))"

fun find_free_barrier :: "barrier_table \<Rightarrow> nat option" where
  "find_free_barrier [] = None"
| "find_free_barrier (b # bs) =
     (if refcount b = 0 then Some 0 else map_option Suc (find_free_barrier bs))"

definition tagged_barrier_ref :: "int option \<Rightarrow> string \<Rightarrow> barrier_table \<Rightarrow> (barrier_table \<times> int) res" where
  "tagged_barrier_ref sem_err tag bs = (case find_tagged_barrier tag bs of
       Some i \<Rightarrow> Inr (bs[i := (bs ! i)\<lparr>refcount := u32 (refcount (bs ! i) + 1)\<rparr>], int i)
     | None \<Rightarrow>
         (case find_free_barrier bs of
            None \<Rightarrow> Inr (bs, - ENOSPC)
          | Some i \<Rightarrow> rbind (barrier_init sem_err i 1 tag bs) (\<lambda>(bs1, err).
              Inr (bs1, if err \<noteq> 0 then err else int i))))"

definition tagged_barrier_unref :: "string \<Rightarrow> barrier_table \<Rightarrow> barrier_table" where
  "tagged_barrier_unref tag bs = (case find_tagged_barrier tag bs of
       None \<Rightarrow> bs
     | Some i \<Rightarrow>
         (let b = bs ! i; n = refcount b - 1
          in if n = 0 then bs[i := zero_barrier] else bs[i := b\<lparr>refcount := n\<rparr>]))"

definition sync_add_tag :: "bool \<Rightarrow> int option \<Rightarrow> string \<Rightarrow> barrier_table \<Rightarrow> (barrier_table \<times> int) res" where
  "sync_add_tag init_done sem_err tag bs =
     (if \<not> init_done then Inr (bs, 0) else tagged_barrier_ref sem_err tag bs)"

definition sync_del_tag :: "bool \<Rightarrow> string \<Rightarrow> barrier_table \<Rightarrow> barrier_table \<times> int" where
  "sync_del_tag init_done tag bs =
     (if \<not> init_done then (bs, 0) else (tagged_barrier_unref tag bs, 0))"

text \<open>The table the master sets up for its clients.\<close>

definition sync_master_table :: "nat \<Rightarrow> (barrier_table \<times> int) res" where
  "sync_master_table client_count =
     barrier_init None 0 client_count ''default'' (replicate SYNC_TAG_COUNT zero_barrier)"

section \<open>The search\<close>

lemma tag_matches_prefix:
  "tag_matches tag b \<longleftrightarrow> refcount b \<noteq> 0 \<and> prefix (take SYNC_TAG_LEN tag) (tb_tag b)"
proof -
  have "take (tag_len tag) tag = take SYNC_TAG_LEN tag" by (simp add: tag_len_def Let_def)
  moreover have "length (take SYNC_TAG_LEN tag) = tag_len tag" by (simp add: tag_len_def Let_def)
  ultimately have "strn_eq (tb_tag b) tag (tag_len tag) \<longleftrightarrow> prefix (take SYNC_TAG_LEN tag) (tb_tag b)"
    unfolding strn_eq_def by (metis append_eq_conv_conj append_take_drop_id prefix_def)
  then show ?thesis by (simp add: tag_matches_def)
qed

interpretation barrier_scan: slot_scan find_tagged_barrier tag_matches
proof
  show "find_tagged_barrier k es = Some i \<Longrightarrow>
      i < length es \<and> tag_matches k (es ! i) \<and> (\<forall>j<i. \<not> tag_matches k (es ! j))" for k es i
  proof (induction k es arbitrary: i rule: find_tagged_barrier.induct)
    case (2 tag b bs)
    show ?case
    proof (cases "tag_matches tag b")
      case True
      with "2.prems" show ?thesis by (auto simp: tag_matches_def)
    next
      case False
      with "2.prems" obtain j where "find_tagged_barrier tag bs = Some j" "i = Suc j"
        by (auto simp: tag_matches_def split: if_splits)
      with "2.IH" False show ?thesis by (auto simp: tag_matches_def nth_Cons less_Suc_eq_0_disj)
    qed
  qed simp
  show "find_tagged_barrier k es = None \<Longrightarrow> \<forall>e\<in>set es. \<not> tag_matches k e" for k es
    by (induction k es rule: find_tagged_barrier.induct) (auto simp: tag_matches_def split: if_splits)
qed

interpretation free_scan: slot_scan "\<lambda>_::unit. find_free_barrier" "\<lambda>_ b. refcount b = 0"
proof
  show "find_free_barrier es = Some i \<Longrightarrow>
      i < length es \<and> refcount (es ! i) = 0 \<and> (\<forall>j<i. refcount (es ! j) \<noteq> 0)" for es i
  proof (induction es arbitrary: i rule: find_free_barrier.induct)
    case (2 b bs)
    show ?case
    proof (cases "refcount b = 0")
      case False
      with "2.prems" obtain j where "find_free_barrier bs = Some j" "i = Suc j" by auto
      with "2.IH" False show ?thesis by (auto simp: nth_Cons less_Suc_eq_0_disj)
    qed (use "2.prems" in auto)
  qed simp
  show "find_free_barrier es = None \<Longrightarrow> \<forall>e\<in>set es. refcount e \<noteq> 0" for es
    by (induction es rule: find_free_barrier.induct) (auto split: if_splits)
qed

section \<open>Reference counting\<close>

text \<open>
  What the table is meant to be: a count per name. It is that as long as no name in use, cut to
  the 16 characters the table keeps, is a prefix of another one: \<open>U\<close> is a set of such names, and
  \<open>table_ok U\<close> says that the table holds only names of \<open>U\<close>, each in one slot.
\<close>

definition prefix_free :: "string set \<Rightarrow> bool" where
  "prefix_free U \<longleftrightarrow> (\<forall>s\<in>U. \<forall>t\<in>U. prefix (take SYNC_TAG_LEN s) (take SYNC_TAG_LEN t) \<longrightarrow> s = t)"

definition table_ok :: "string set \<Rightarrow> barrier_table \<Rightarrow> bool" where
  "table_ok U bs \<longleftrightarrow> (\<forall>b\<in>set bs. refcount b \<noteq> 0 \<longrightarrow> tb_tag b \<in> take SYNC_TAG_LEN ` U) \<and>
     (\<forall>i<length bs. \<forall>j<length bs. refcount (bs ! i) \<noteq> 0 \<longrightarrow> refcount (bs ! j) \<noteq> 0 \<longrightarrow>
        tb_tag (bs ! i) = tb_tag (bs ! j) \<longrightarrow> i = j)"

definition tag_users :: "barrier_table \<Rightarrow> string \<Rightarrow> nat" where
  "tag_users bs t = (case find_tagged_barrier t bs of None \<Rightarrow> 0 | Some i \<Rightarrow> refcount (bs ! i))"

lemma matches_exact:
  assumes "prefix_free U" and "table_ok U bs" and "t \<in> U" and "b \<in> set bs"
  shows "tag_matches t b \<longleftrightarrow> refcount b \<noteq> 0 \<and> tb_tag b = take SYNC_TAG_LEN t"
  using assms unfolding tag_matches_prefix table_ok_def prefix_free_def by fastforce

lemma slot_others:
  assumes "table_ok U bs" and "i < length bs" and "refcount (bs ! i) \<noteq> 0" and "j < length bs" and "j \<noteq> i"
    and "refcount (bs ! j) \<noteq> 0"
  shows "tb_tag (bs ! j) \<noteq> tb_tag (bs ! i)"
  using assms unfolding table_ok_def by blast

lemma tag_users_slot:
  assumes "prefix_free U" and "table_ok U bs" and "t \<in> U" and "i < length bs"
    and "refcount (bs ! i) \<noteq> 0" and "tb_tag (bs ! i) = take SYNC_TAG_LEN t"
  shows "find_tagged_barrier t bs = Some i"
proof (rule barrier_scan.scan_eqI)
  show "tag_matches t (bs ! i)" using assms by (simp add: tag_matches_prefix)
  fix j assume "j < i"
  with assms(4) have j: "j < length bs" by simp
  show "\<not> tag_matches t (bs ! j)"
  proof
    assume "tag_matches t (bs ! j)"
    then have "refcount (bs ! j) \<noteq> 0" "tb_tag (bs ! j) = tb_tag (bs ! i)"
      using matches_exact [OF assms(1-3) nth_mem [OF j]] assms(6) by simp_all
    then have "j = i" using slot_others [OF assms(2,4,5) j] by blast
    with \<open>j < i\<close> show False by simp
  qed
qed (rule assms(4))

lemma tag_users_zero:
  assumes "prefix_free U" and "table_ok U bs" and "t \<in> U"
  shows "tag_users bs t = 0 \<longleftrightarrow> (\<forall>b\<in>set bs. refcount b \<noteq> 0 \<longrightarrow> tb_tag b \<noteq> take SYNC_TAG_LEN t)"
proof (cases "find_tagged_barrier t bs")
  case None
  then show ?thesis
    using barrier_scan.scan_None [OF None] matches_exact [OF assms] by (auto simp: tag_users_def)
next
  case (Some i)
  then have "i < length bs" "tag_matches t (bs ! i)"
    using barrier_scan.scan_bound barrier_scan.scan_matches by blast+
  then have "refcount (bs ! i) \<noteq> 0" "tb_tag (bs ! i) = take SYNC_TAG_LEN t" "bs ! i \<in> set bs"
    using matches_exact [OF assms, of "bs ! i"] by simp_all
  with Some show ?thesis by (auto simp: tag_users_def)
qed

text \<open>
  Replacing one slot by one that is free, or that holds a name no other slot holds, keeps the
  table's invariant and changes the count of that name only.
\<close>

lemma table_ok_update:
  assumes ok: "table_ok U bs" and i: "i < length bs" and t: "t \<in> U"
    and x: "refcount x \<noteq> 0 \<longrightarrow> tb_tag x = take SYNC_TAG_LEN t"
    and others: "\<And>j. j < length bs \<Longrightarrow> j \<noteq> i \<Longrightarrow> refcount (bs ! j) \<noteq> 0 \<Longrightarrow> tb_tag (bs ! j) \<noteq> take SYNC_TAG_LEN t"
  shows "table_ok U (bs[i := x])"
  unfolding table_ok_def
proof (intro conjI allI ballI impI)
  fix b assume "b \<in> set (bs[i := x])" and "refcount b \<noteq> 0"
  then show "tb_tag b \<in> take SYNC_TAG_LEN ` U"
    using ok x t set_update_subset_insert [of bs i x] unfolding table_ok_def by fastforce
next
  fix j k
  assume "j < length (bs[i := x])" "k < length (bs[i := x])" "refcount (bs[i := x] ! j) \<noteq> 0"
    "refcount (bs[i := x] ! k) \<noteq> 0" "tb_tag (bs[i := x] ! j) = tb_tag (bs[i := x] ! k)"
  then show "j = k"
    using ok x i others [of j] others [of k] unfolding table_ok_def
    by (cases "j = i"; cases "k = i") auto
qed

lemma tag_users_update:
  assumes pf: "prefix_free U" and ok: "table_ok U bs" and i: "i < length bs" and t: "t \<in> U"
    and x: "refcount x \<noteq> 0 \<longrightarrow> tb_tag x = take SYNC_TAG_LEN t"
    and old: "refcount (bs ! i) \<noteq> 0 \<longrightarrow> tb_tag (bs ! i) = take SYNC_TAG_LEN t"
    and others: "\<And>j. j < length bs \<Longrightarrow> j \<noteq> i \<Longrightarrow> refcount (bs ! j) \<noteq> 0 \<Longrightarrow> tb_tag (bs ! j) \<noteq> take SYNC_TAG_LEN t"
    and u: "u \<in> U"
  shows "tag_users (bs[i := x]) u = (if u = t then refcount x else tag_users bs u)"
proof -
  have ok': "table_ok U (bs[i := x])" by (rule table_ok_update [OF ok i t x others])
  have sep: "take SYNC_TAG_LEN u \<noteq> take SYNC_TAG_LEN t" if "u \<noteq> t"
    using pf t u that unfolding prefix_free_def by (metis prefix_order.refl)
  show ?thesis
  proof (cases "u = t")
    case True
    show ?thesis
    proof (cases "refcount x = 0")
      case False
      then have "find_tagged_barrier t (bs[i := x]) = Some i"
        using x i by (intro tag_users_slot [OF pf ok' t]) auto
      with True i show ?thesis by (simp add: tag_users_def)
    next
      case zero: True
      have "\<forall>b\<in>set (bs[i := x]). refcount b \<noteq> 0 \<longrightarrow> tb_tag b \<noteq> take SYNC_TAG_LEN t"
      proof (intro ballI impI)
        fix b assume "b \<in> set (bs[i := x])" and b: "refcount b \<noteq> 0"
        then obtain j where "j < length bs" "bs[i := x] ! j = b" by (auto simp: in_set_conv_nth)
        with others [of j] zero b show "tb_tag b \<noteq> take SYNC_TAG_LEN t" by (cases "j = i") auto
      qed
      with True zero tag_users_zero [OF pf ok' t] show ?thesis by simp
    qed
  next
    case False
    have "tag_matches u x = tag_matches u (bs ! i)"
    proof -
      have "\<not> (refcount y \<noteq> 0 \<and> prefix (take SYNC_TAG_LEN u) (tb_tag y))"
        if "refcount y \<noteq> 0 \<longrightarrow> tb_tag y = take SYNC_TAG_LEN t" for y :: tagged_barrier_entry
        using that False pf t u unfolding prefix_free_def by auto
      with x old show ?thesis unfolding tag_matches_prefix by blast
    qed
    then have find: "find_tagged_barrier u (bs[i := x]) = find_tagged_barrier u bs"
      by (rule barrier_scan.scan_update_other [OF i])
    have "find_tagged_barrier u bs \<noteq> Some i"
    proof
      assume "find_tagged_barrier u bs = Some i"
      then have "tag_matches u (bs ! i)" by (rule barrier_scan.scan_matches)
      with old False pf t u show False unfolding tag_matches_prefix prefix_free_def by auto
    qed
    with find False show ?thesis by (auto simp: tag_users_def split: option.splits)
  qed
qed

text \<open>
  Registering: the result is the index of the slot that holds the name from then on, with its count
  one up; no other slot changes, so no other count does.
\<close>

lemma tagged_barrier_ref_counts:
  assumes pf: "prefix_free U" and ok: "table_ok U bs" and t: "t \<in> U"
    and room: "tag_users bs t \<noteq> 0 \<or> (\<exists>b\<in>set bs. refcount b = 0)" and small: "tag_users bs t + 1 < 2 ^ 32"
  shows "\<exists>bs' i. tagged_barrier_ref None t bs = Inr (bs', int i) \<and> i < length bs \<and> length bs' = length bs
     \<and> tb_tag (bs' ! i) = take SYNC_TAG_LEN t \<and> refcount (bs' ! i) = tag_users bs t + 1
     \<and> find_tagged_barrier t bs' = Some i \<and> (\<forall>j. j \<noteq> i \<longrightarrow> bs' ! j = bs ! j)
     \<and> table_ok U bs' \<and> (\<forall>u\<in>U. tag_users bs' u = (if u = t then tag_users bs t + 1 else tag_users bs u))"
proof (cases "find_tagged_barrier t bs")
  case (Some i)
  let ?x = "(bs ! i)\<lparr>refcount := u32 (refcount (bs ! i) + 1)\<rparr>"
  have i: "i < length bs" and m: "tag_matches t (bs ! i)"
    using barrier_scan.scan_bound [OF Some] barrier_scan.scan_matches [OF Some] by simp_all
  have e: "refcount (bs ! i) \<noteq> 0" "tb_tag (bs ! i) = take SYNC_TAG_LEN t"
    using m matches_exact [OF pf ok t nth_mem [OF i]] by simp_all
  have n: "refcount ?x = tag_users bs t + 1" using Some small by (simp add: tag_users_def)
  have o: "tb_tag (bs ! j) \<noteq> take SYNC_TAG_LEN t" if "j < length bs" "j \<noteq> i" "refcount (bs ! j) \<noteq> 0" for j
    using slot_others [OF ok i e(1) that] e(2) by simp
  have ok': "table_ok U (bs[i := ?x])" by (rule table_ok_update [OF ok i t _ o]) (simp_all add: e)
  have "find_tagged_barrier t (bs[i := ?x]) = Some i"
    by (rule tag_users_slot [OF pf ok' t]) (use i e n in simp_all)
  moreover have "\<forall>u\<in>U. tag_users (bs[i := ?x]) u = (if u = t then tag_users bs t + 1 else tag_users bs u)"
    using tag_users_update [OF pf ok i t _ _ o, of ?x] e n by auto
  ultimately show ?thesis
    using Some i ok' e n by (auto simp: tagged_barrier_ref_def intro!: exI [of _ i])
next
  case None
  then have zero: "tag_users bs t = 0" by (simp add: tag_users_def)
  with room obtain b where "b \<in> set bs" "refcount b = 0" by auto
  then obtain i where free: "find_free_barrier bs = Some i"
    using free_scan.scan_None [of bs] by (cases "find_free_barrier bs") auto
  have i: "i < length bs" and e: "refcount (bs ! i) = 0"
    using free_scan.scan_bound [OF free] free_scan.scan_matches [OF free] by simp_all
  let ?x = "zero_barrier\<lparr>tb_mutex := 1, refcount := u32 1, active := False, tb_tag := take SYNC_TAG_LEN t\<rparr>"
  have o: "tb_tag (bs ! j) \<noteq> take SYNC_TAG_LEN t" if "j < length bs" "j \<noteq> i" "refcount (bs ! j) \<noteq> 0" for j
    using zero tag_users_zero [OF pf ok t] that nth_mem by blast
  have ok': "table_ok U (bs[i := ?x])" by (rule table_ok_update [OF ok i t _ o]) simp_all
  have x: "refcount ?x = tag_users bs t + 1" by (simp add: zero u32_def)
  have "find_tagged_barrier t (bs[i := ?x]) = Some i"
    by (rule tag_users_slot [OF pf ok' t]) (use i x in simp_all)
  moreover have "\<forall>u\<in>U. tag_users (bs[i := ?x]) u = (if u = t then tag_users bs t + 1 else tag_users bs u)"
    using tag_users_update [OF pf ok i t _ _ o, of ?x] e zero by (auto simp: u32_def)
  moreover have "tagged_barrier_ref None t bs = Inr (bs[i := ?x], int i)"
    using None free i e by (simp add: tagged_barrier_ref_def barrier_init_def)
  ultimately show ?thesis using i ok' x
    by (intro exI [of _ "bs[i := ?x]"] exI [of _ i]) (simp add: nth_list_update)
qed

text \<open>Deregistering: the count goes down by one; a name nobody registered is left alone.\<close>

lemma tagged_barrier_unref_counts:
  assumes pf: "prefix_free U" and ok: "table_ok U bs" and t: "t \<in> U"
  shows "table_ok U (tagged_barrier_unref t bs) \<and>
     (\<forall>u\<in>U. tag_users (tagged_barrier_unref t bs) u = (if u = t then tag_users bs t - 1 else tag_users bs u))"
proof (cases "find_tagged_barrier t bs")
  case None
  with ok show ?thesis by (simp add: tagged_barrier_unref_def tag_users_def)
next
  case (Some i)
  have i: "i < length bs" and m: "tag_matches t (bs ! i)"
    using barrier_scan.scan_bound [OF Some] barrier_scan.scan_matches [OF Some] by simp_all
  have e: "refcount (bs ! i) \<noteq> 0" "tb_tag (bs ! i) = take SYNC_TAG_LEN t"
    using m matches_exact [OF pf ok t nth_mem [OF i]] by simp_all
  define x where "x = (if refcount (bs ! i) - 1 = 0 then zero_barrier
      else (bs ! i)\<lparr>refcount := refcount (bs ! i) - 1\<rparr>)"
  have un: "tagged_barrier_unref t bs = bs[i := x]"
    by (simp add: tagged_barrier_unref_def Some x_def Let_def)
  have n: "refcount x = tag_users bs t - 1" using Some by (simp add: tag_users_def x_def zero_barrier_def)
  have tg: "refcount x \<noteq> 0 \<longrightarrow> tb_tag x = take SYNC_TAG_LEN t" by (simp add: x_def zero_barrier_def e)
  have o: "tb_tag (bs ! j) \<noteq> take SYNC_TAG_LEN t" if "j < length bs" "j \<noteq> i" "refcount (bs ! j) \<noteq> 0" for j
    using slot_others [OF ok i e(1) that] e(2) by simp
  have "table_ok U (bs[i := x])" by (rule table_ok_update [OF ok i t tg o])
  moreover have "\<forall>u\<in>U. tag_users (bs[i := x]) u = (if u = t then tag_users bs t - 1 else tag_users bs u)"
    using tag_users_update [OF pf ok i t tg _ o] e n by auto
  ultimately show ?thesis unfolding un ..
qed

end
