(* ===== verification/Timing.thy ===== *)
theory Timing
  imports Prelude Complex_Main
begin

text \<open>
  The stop watch of \<^verbatim>\<open>blts-common/src/blts_timing.c\<close>. Each operation takes the reading of
  \<^verbatim>\<open>clock_gettime\<close> it would make, \<open>None\<close> when the call fails. The elapsed time is given as the
  exact number of seconds; the source rounds it to a double. Times are ordered by seconds, then
  nanoseconds, which for the normalised times a clock gives is the order of their total in
  nanoseconds. Every theorem on differences holds for all times; no step leaves the range of a
  long when the times are less than \<open>2 ^ 62\<close> seconds from the epoch.
\<close>

datatype timespec = Timespec (tv_sec: int) (tv_nsec: int)

instantiation timespec :: linorder
begin

definition less_eq_timespec :: "timespec \<Rightarrow> timespec \<Rightarrow> bool" where
  "less_eq_timespec a b \<longleftrightarrow> tv_sec a < tv_sec b \<or> tv_sec a = tv_sec b \<and> tv_nsec a \<le> tv_nsec b"

definition less_timespec :: "timespec \<Rightarrow> timespec \<Rightarrow> bool" where
  "less_timespec a b \<longleftrightarrow> tv_sec a < tv_sec b \<or> tv_sec a = tv_sec b \<and> tv_nsec a < tv_nsec b"

instance
  by standard (auto simp: less_eq_timespec_def less_timespec_def intro: timespec.expand)

end

record timer =
  running :: bool
  starttime :: timespec
  stoptime :: timespec

definition zero_timer :: timer where
  "zero_timer = \<lparr>running = False, starttime = Timespec 0 0, stoptime = Timespec 0 0\<rparr>"

abbreviation (input) NSEC :: int where "NSEC \<equiv> 1000000000"

text \<open>The operands of both divisions are positive, so C's division is \<open>div\<close> here.\<close>

definition ts_diff :: "timespec \<Rightarrow> timespec \<Rightarrow> timespec \<times> bool" where
  "ts_diff left right =
     (let a = left; b = right;
          b = (if tv_nsec a < tv_nsec b
               then (let tmp_sec = (tv_nsec b - tv_nsec a) div NSEC + 1
                     in Timespec (tv_sec b + tmp_sec) (tv_nsec b - NSEC * tmp_sec))
               else b);
          b = (if tv_nsec a - tv_nsec b > NSEC
               then (let tmp_sec = (tv_nsec a - tv_nsec b) div NSEC
                     in Timespec (tv_sec b - tmp_sec) (tv_nsec b + NSEC * tmp_sec))
               else b)
      in (Timespec (tv_sec a - tv_sec b) (tv_nsec a - tv_nsec b), tv_sec a < tv_sec b))"

definition timing_start :: "timespec option \<Rightarrow> timer \<Rightarrow> timer \<times> int" where
  "timing_start clock t = (if running t then (t, 0)
     else (case clock of None \<Rightarrow> (t, - 1)
       | Some now \<Rightarrow> (t\<lparr>starttime := now, running := True\<rparr>, 0)))"

definition timing_stop :: "timespec option \<Rightarrow> timer \<Rightarrow> timer \<times> int" where
  "timing_stop clock t = (if \<not> running t then (t, - 1)
     else (case clock of None \<Rightarrow> (t, - 1)
       | Some now \<Rightarrow> (t\<lparr>stoptime := now, running := False\<rparr>, 0)))"

text \<open>While running, a failed clock reading leaves \<^verbatim>\<open>now\<close> uninitialised.\<close>

definition timing_elapsed :: "timespec option \<Rightarrow> timer \<Rightarrow> rat res" where
  "timing_elapsed clock t =
     rbind (if running t
            then (case clock of None \<Rightarrow> Inl Uninitialised | Some now \<Rightarrow> Inr (fst (ts_diff now (starttime t))))
            else Inr (fst (ts_diff (stoptime t) (starttime t))))
       (\<lambda>diff. Inr (of_int (tv_sec diff) + of_int (tv_nsec diff) / 10 ^ 9))"

section \<open>The difference\<close>

definition ns :: "timespec \<Rightarrow> int" where
  "ns t = NSEC * tv_sec t + tv_nsec t"

definition normalised :: "timespec \<Rightarrow> bool" where
  "normalised t \<longleftrightarrow> 0 \<le> tv_nsec t \<and> tv_nsec t < NSEC"

lemma ts_diff_ns: "ns (fst (ts_diff a b)) = ns a - ns b"
  by (simp add: ts_diff_def ns_def Let_def algebra_simps)

lemma ts_diff_normalised:
  assumes "normalised a" and "normalised b"
  shows "normalised (fst (ts_diff a b))" and "snd (ts_diff a b) \<longleftrightarrow> ns a < ns b"
proof -
  have small: "(tv_nsec b - tv_nsec a) div NSEC = 0" if "tv_nsec a < tv_nsec b"
    using assms that by (intro div_pos_pos_trivial) (auto simp: normalised_def)
  show "normalised (fst (ts_diff a b))"
    using assms small by (simp add: ts_diff_def Let_def normalised_def)
  show "snd (ts_diff a b) \<longleftrightarrow> ns a < ns b"
    using assms small by (auto simp: ts_diff_def Let_def normalised_def ns_def)
qed

lemma ns_less:
  assumes "normalised a" and "normalised b"
  shows "ns a < ns b \<longleftrightarrow> a < b"
  using assms by (auto simp: normalised_def ns_def less_timespec_def)

text \<open>
  No step of the difference leaves the range of a 64-bit long when the inputs are clock readings
  less than \<open>2 ^ 62\<close> seconds from the epoch.
\<close>

definition long_range :: "int \<Rightarrow> bool" where
  "long_range i \<longleftrightarrow> - (2 ^ 63) \<le> i \<and> i < 2 ^ 63"

lemma ts_diff_range:
  assumes "normalised a" and "normalised b" and "\<bar>tv_sec a\<bar> < 2 ^ 62" and "\<bar>tv_sec b\<bar> < 2 ^ 62"
  shows "long_range (tv_sec (fst (ts_diff a b))) \<and> long_range (tv_nsec (fst (ts_diff a b)))"
proof -
  have "tv_sec (fst (ts_diff a b)) = tv_sec a - tv_sec b - (if tv_nsec a < tv_nsec b then 1 else 0)"
    using assms(1,2) by (auto simp: ts_diff_def Let_def normalised_def div_pos_pos_trivial)
  then have "long_range (tv_sec (fst (ts_diff a b)))"
    using assms(3,4) by (auto simp: long_range_def abs_less_iff)
  moreover have "long_range (tv_nsec (fst (ts_diff a b)))"
    using ts_diff_normalised(1) [OF assms(1,2)] by (simp add: normalised_def long_range_def)
  ultimately show ?thesis ..
qed

lemma timing_elapsed_seconds:
  "rbind (Inr d) (\<lambda>diff. Inr (of_int (tv_sec diff) + of_int (tv_nsec diff) / 10 ^ 9)) =
     (Inr (of_int (ns d) / 10 ^ 9) :: rat res)"
  by (simp add: ns_def add_divide_distrib)

lemma timing_elapsed_running:
  "running t \<Longrightarrow> timing_elapsed (Some now) t = Inr (of_int (ns now - ns (starttime t)) / 10 ^ 9)"
  unfolding timing_elapsed_def ts_diff_ns [symmetric] timing_elapsed_seconds [symmetric] by simp

lemma timing_elapsed_stopped:
  "\<not> running t \<Longrightarrow> timing_elapsed clock t = Inr (of_int (ns (stoptime t) - ns (starttime t)) / 10 ^ 9)"
  unfolding timing_elapsed_def ts_diff_ns [symmetric] timing_elapsed_seconds [symmetric] by simp

section \<open>Runs of the stop watch\<close>

datatype timer_op = Op_Start "timespec option" | Op_Stop "timespec option" | Op_Elapsed "timespec option"

fun timer_step :: "timer \<Rightarrow> timer_op \<Rightarrow> timer" where
  "timer_step t (Op_Start c) = fst (timing_start c t)"
| "timer_step t (Op_Stop c) = fst (timing_stop c t)"
| "timer_step t (Op_Elapsed c) = t"

definition timer_run :: "timer \<Rightarrow> timer_op list \<Rightarrow> timer" where
  "timer_run t ops = fold (\<lambda>op t. timer_step t op) ops t"

fun is_successful_stop :: "timer_op \<Rightarrow> bool" where
  "is_successful_stop (Op_Stop c) \<longleftrightarrow> c \<noteq> None"
| "is_successful_stop _ \<longleftrightarrow> False"

lemma timer_run_keeps_start:
  assumes "running t" and "\<forall>op\<in>set ops. \<not> is_successful_stop op"
  shows "timer_run t ops = t"
  using assms(2)
proof (induction ops)
  case Nil
  show ?case by (simp add: timer_run_def)
next
  case (Cons op ops)
  have "timer_step t op = t"
    using assms(1) Cons.prems by (cases op) (auto simp: timing_start_def timing_stop_def)
  with Cons show ?case by (simp add: timer_run_def)
qed

lemma timer_run_append: "timer_run t (xs @ ys) = timer_run (timer_run t xs) ys"
  by (simp add: timer_run_def)

lemma timer_run_measured:
  assumes "\<not> running t" and "\<forall>op\<in>set ops. \<not> is_successful_stop op"
  shows "timing_elapsed clock (timer_run t ([Op_Start (Some t0)] @ ops @ [Op_Stop (Some t1)])) =
     Inr (of_int (ns t1 - ns t0) / 10 ^ 9)"
proof -
  let ?t = "t\<lparr>starttime := t0, running := True\<rparr>"
  have "timer_run t [Op_Start (Some t0)] = ?t" using assms(1) by (simp add: timer_run_def timing_start_def)
  moreover have "timer_run ?t ops = ?t" by (rule timer_run_keeps_start) (simp_all add: assms(2))
  ultimately have "timer_run t ([Op_Start (Some t0)] @ ops @ [Op_Stop (Some t1)]) =
      ?t\<lparr>stoptime := t1, running := False\<rparr>"
    by (simp only: timer_run_append) (simp add: timer_run_def timing_stop_def)
  then show ?thesis by (simp add: timing_elapsed_stopped)
qed

end
