(* ===== verification/Sync_Timed.thy ===== *)
theory Sync_Timed
  imports Sync_Barrier Sync_Table Timing "HOL-Library.Signed_Division"
begin

text \<open>
  The barrier with a time limit, \<^verbatim>\<open>barrier_sync_to\<close> in \<^verbatim>\<open>blts-common/src/blts_sync.c\<close>: the deadline it
  computes, its steps in the style of \<open>Sync_Barrier\<close>, and what its callers return. A timed wait
  gets \<open>fail\<close>, the error \<^verbatim>\<open>sem_timedwait\<close> gives when it cannot decrement at once (the deadline has
  passed or is not a valid time), or \<open>None\<close> when it would still wait.
\<close>

section \<open>The deadline\<close>

definition abs_timeout :: "timespec \<Rightarrow> int \<Rightarrow> timespec" where
  "abs_timeout now max_timeout_msec =
     Timespec (tv_sec now + max_timeout_msec sdiv 1000)
              (tv_nsec now + (max_timeout_msec smod 1000) * 1000000)"

lemma abs_timeout_ns: "0 \<le> msec \<Longrightarrow> ns (abs_timeout now msec) = ns now + msec * 1000000"
proof -
  assume "0 \<le> msec"
  then have "msec sdiv 1000 = msec div 1000" "msec smod 1000 = msec mod 1000"
    by (simp_all add: signed_divide_int_def signed_modulo_int_def sgn_if)
  moreover have "msec mod 1000 * 1000000 + msec div 1000 * 1000000000 = msec * 1000000" by presburger
  ultimately show ?thesis by (simp add: abs_timeout_def ns_def algebra_simps)
qed

lemma abs_timeout_normalised:
  assumes "0 \<le> msec" and "normalised now"
  shows "normalised (abs_timeout now msec) \<longleftrightarrow> tv_nsec now + (msec mod 1000) * 1000000 < 1000000000"
proof -
  have "msec smod 1000 = msec mod 1000"
    using assms(1) by (simp add: signed_divide_int_def signed_modulo_int_def sgn_if)
  moreover have "0 \<le> msec mod 1000" by simp
  ultimately show ?thesis using assms(2) by (simp add: abs_timeout_def normalised_def)
qed

section \<open>Steps\<close>

datatype tpc =
    T_Enter
  | T_Lock_B               (* barrier_mutex_lock_to *)
  | T_Test_Active
  | TL_Unlock_B nat
  | TL_Unlock_S nat
  | TL_Wait nat            (* sem_timedwait(arrive) *)
  | TL_Lock_B              (* barrier_mutex_lock_to *)
  | TL_Count
  | TL_Signal nat
  | TL_Clear
  | TL_Unlock_B2
  | TF_Unlock_B
  | TF_Unlock_S
  | TF_Post
  | TF_Wait                (* sem_timedwait(depart) *)
  | T_Relock int           (* out: sync_mutex_lock *)
  | T_Drain_Arrive int     (* while(!sem_trywait(arrive)) *)
  | T_Drain_Depart int
  | T_Reset int            (* b->active = 0 *)
  | T_Unlock int
  | T_Left int

type_synonym timed_state = "tpc barrier_shared"

definition barrier_sync_to_step :: "int option \<Rightarrow> nat \<Rightarrow> tpc \<Rightarrow> timed_state \<Rightarrow> timed_state option" where
  "barrier_sync_to_step fail p c s = (case c of
       T_Enter \<Rightarrow> if sync_mutex s = 0 then None
         else Some (goto p T_Lock_B (s\<lparr>sync_mutex := sync_mutex s - 1\<rparr>))
     | T_Lock_B \<Rightarrow> if b_mutex s = 0 then map_option (\<lambda>e. goto p (T_Relock (- e)) s) fail
         else Some (goto p T_Test_Active (s\<lparr>b_mutex := b_mutex s - 1\<rparr>))
     | T_Test_Active \<Rightarrow>
         Some (if \<not> b_active s then goto p (TL_Unlock_B (b_refcount s - 1)) (s\<lparr>b_active := True\<rparr>)
               else goto p TF_Unlock_B s)
     | TL_Unlock_B i \<Rightarrow> Some (goto p (TL_Unlock_S i) (s\<lparr>b_mutex := b_mutex s + 1\<rparr>))
     | TL_Unlock_S i \<Rightarrow> Some (goto p (TL_Wait i) (s\<lparr>sync_mutex := sync_mutex s + 1\<rparr>))
     | TL_Wait i \<Rightarrow>
         (case i of 0 \<Rightarrow> Some (goto p TL_Lock_B s)
          | Suc j \<Rightarrow> if b_arrive s = 0 then map_option (\<lambda>e. goto p (T_Relock (- e)) s) fail
              else Some (goto p (TL_Wait j) (s\<lparr>b_arrive := b_arrive s - 1\<rparr>)))
     | TL_Lock_B \<Rightarrow> if b_mutex s = 0 then map_option (\<lambda>e. goto p (T_Relock (- e)) s) fail
         else Some (goto p TL_Count (s\<lparr>b_mutex := b_mutex s - 1\<rparr>))
     | TL_Count \<Rightarrow> Some (goto p (TL_Signal (b_refcount s - 1)) s)
     | TL_Signal i \<Rightarrow>
         (case i of 0 \<Rightarrow> Some (goto p TL_Clear s)
          | Suc j \<Rightarrow> Some (goto p (TL_Signal j) (s\<lparr>b_depart := b_depart s + 1\<rparr>)))
     | TL_Clear \<Rightarrow> Some (goto p TL_Unlock_B2 (s\<lparr>b_active := False\<rparr>))
     | TL_Unlock_B2 \<Rightarrow> Some (goto p (T_Relock 0) (s\<lparr>b_mutex := b_mutex s + 1\<rparr>))
     | TF_Unlock_B \<Rightarrow> Some (goto p TF_Unlock_S (s\<lparr>b_mutex := b_mutex s + 1\<rparr>))
     | TF_Unlock_S \<Rightarrow> Some (goto p TF_Post (s\<lparr>sync_mutex := sync_mutex s + 1\<rparr>))
     | TF_Post \<Rightarrow> Some (goto p TF_Wait (s\<lparr>b_arrive := b_arrive s + 1\<rparr>))
     | TF_Wait \<Rightarrow> if b_depart s = 0 then map_option (\<lambda>e. goto p (T_Relock (- e)) s) fail
         else Some (goto p (T_Relock 0) (s\<lparr>b_depart := b_depart s - 1\<rparr>))
     | T_Relock ret \<Rightarrow> if sync_mutex s = 0 then None
         else Some (goto p (if ret \<noteq> 0 then T_Drain_Arrive ret else T_Unlock ret)
                 (s\<lparr>sync_mutex := sync_mutex s - 1\<rparr>))
     | T_Drain_Arrive ret \<Rightarrow>
         Some (if b_arrive s = 0 then goto p (T_Drain_Depart ret) s else s\<lparr>b_arrive := b_arrive s - 1\<rparr>)
     | T_Drain_Depart ret \<Rightarrow>
         Some (if b_depart s = 0 then goto p (T_Reset ret) s else s\<lparr>b_depart := b_depart s - 1\<rparr>)
     | T_Reset ret \<Rightarrow> Some (goto p (T_Unlock ret) (s\<lparr>b_active := False\<rparr>))
     | T_Unlock ret \<Rightarrow> Some (goto p (T_Left ret) (s\<lparr>sync_mutex := sync_mutex s + 1\<rparr>))
     | T_Left ret \<Rightarrow> None)"

definition timed_step :: "int option \<Rightarrow> nat \<Rightarrow> timed_state \<Rightarrow> timed_state option" where
  "timed_step fail p s = (if p < length (pcs s) then barrier_sync_to_step fail p (pcs s ! p) s else None)"

inductive barrier_to_step :: "timed_state \<Rightarrow> timed_state \<Rightarrow> bool" where
  run_to: "timed_step fail p s = Some t \<Longrightarrow> barrier_to_step s t"

inductive_cases barrier_to_stepE: "barrier_to_step s t"

section \<open>What the callers return\<close>

text \<open>\<open>barrier_ret\<close> is what \<^verbatim>\<open>barrier_sync_to\<close> returned.\<close>

definition sync_tagged_ret :: "bool \<Rightarrow> string \<Rightarrow> barrier_table \<Rightarrow> int" where
  "sync_tagged_ret init_done tag bs = (if \<not> init_done then 0
     else (case find_tagged_barrier tag bs of None \<Rightarrow> - EINVAL | Some i \<Rightarrow> 0))"

definition sync_tagged_to_ret :: "bool \<Rightarrow> string \<Rightarrow> barrier_table \<Rightarrow> int \<Rightarrow> int" where
  "sync_tagged_to_ret init_done tag bs barrier_ret = (if \<not> init_done then 0
     else (case find_tagged_barrier tag bs of None \<Rightarrow> - EINVAL | Some i \<Rightarrow> 0))"

definition sync_anon_to_ret :: "bool \<Rightarrow> int \<Rightarrow> int" where
  "sync_anon_to_ret init_done barrier_ret = (if \<not> init_done then 0 else barrier_ret)"

section \<open>A time-out while taking the barrier's mutex\<close>

text \<open>Who holds the master semaphore.\<close>

fun t_holds_sync :: "tpc \<Rightarrow> bool" where
  "t_holds_sync T_Lock_B = True" | "t_holds_sync T_Test_Active = True"
| "t_holds_sync (TL_Unlock_B i) = True" | "t_holds_sync (TL_Unlock_S i) = True"
| "t_holds_sync TF_Unlock_B = True" | "t_holds_sync TF_Unlock_S = True"
| "t_holds_sync (T_Drain_Arrive r) = True" | "t_holds_sync (T_Drain_Depart r) = True"
| "t_holds_sync (T_Reset r) = True" | "t_holds_sync (T_Unlock r) = True" | "t_holds_sync _ = False"

definition self_blocked :: "nat \<Rightarrow> int \<Rightarrow> timed_state \<Rightarrow> bool" where
  "self_blocked p r s \<longleftrightarrow> p < length (pcs s) \<and> sync_mutex s = 0 \<and> pcs s ! p = T_Relock r \<and>
     (\<forall>q<length (pcs s). \<not> t_holds_sync (pcs s ! q))"

text \<open>
  The master semaphore is taken once, by the process that timed out; it is not given back before
  \<^verbatim>\<open>out\<close>, where the process asks for it again.
\<close>

lemma first_lock_timeout:
  assumes "p < length (pcs s)" and "pcs s ! p = T_Lock_B" and "b_mutex s = 0" and "sync_mutex s = 0"
    and "\<forall>q<length (pcs s). q \<noteq> p \<longrightarrow> \<not> t_holds_sync (pcs s ! q)"
  shows "\<exists>t. timed_step (Some ETIMEDOUT) p s = Some t \<and> self_blocked p (- ETIMEDOUT) t"
proof -
  let ?t = "goto p (T_Relock (- ETIMEDOUT)) s"
  have "timed_step (Some ETIMEDOUT) p s = Some ?t"
    using assms by (simp add: timed_step_def barrier_sync_to_step_def)
  moreover have "self_blocked p (- ETIMEDOUT) ?t"
    using assms by (auto simp: self_blocked_def goto_def nth_list_update)
  ultimately show ?thesis by blast
qed

lemma self_blocked_step:
  assumes "self_blocked p r s" and "timed_step fail q s = Some t"
  shows "self_blocked p r t"
proof -
  have q: "q < length (pcs s)" and st: "Some t = barrier_sync_to_step fail q (pcs s ! q) s"
    using assms(2) by (auto simp: timed_step_def split: if_splits)
  have n: "\<not> t_holds_sync (pcs s ! q)" "sync_mutex s = 0" "q = p \<longrightarrow> pcs s ! q = T_Relock r"
    using assms(1) q by (auto simp: self_blocked_def)
  then have "q \<noteq> p" using st by (auto simp: barrier_sync_to_step_def)
  moreover obtain c where c: "pcs t = (pcs s)[q := c]" "\<not> t_holds_sync c" "sync_mutex t = 0"
    using st n by (cases "pcs s ! q"; cases fail)
      (auto simp: barrier_sync_to_step_def goto_def split: if_splits nat.splits)
  moreover have "\<not> t_holds_sync ((pcs s)[q := c] ! i)" if "i < length (pcs s)" for i
    using assms(1) c(2) that by (cases "i = q") (simp_all add: self_blocked_def)
  ultimately show ?thesis using assms(1) by (simp add: self_blocked_def)
qed

interpretation self_block: step_invariant "\<lambda>s. self_blocked p r s" barrier_to_step "\<lambda>s. self_blocked p r s"
  for p r
  by unfold_locales (auto elim!: barrier_to_stepE intro: self_blocked_step)

lemma self_blocked_forever:
  assumes "self_blocked p r s" and "barrier_to_step\<^sup>*\<^sup>* s t"
  shows "pcs t ! p = T_Relock r \<and> (\<forall>fail. timed_step fail p t = None)"
proof -
  have "self_blocked p r t" using self_block.inv_run assms by blast
  then show ?thesis by (auto simp: self_blocked_def timed_step_def barrier_sync_to_step_def)
qed

end
