(* ===== verification/Sync_Daemon.thy ===== *)
theory Sync_Daemon
  imports Sync_Table Sync_Barrier
begin

text \<open>
  The shared memory of \<^verbatim>\<open>blts-common/src/blts_sync.c\<close> from its creation to its removal. First the
  set-up and the attachment as functions of what the system calls answer; then the daemon and its
  clients as interleaved steps, one per system call, over the shared memory objects and the one name
  they are found under. The main lemmas: when the clients start after the set-up, every run ends with
  all of them gone and the name removed; when one starts too early, its signal can be lost.
\<close>

section \<open>Set-up and attachment\<close>

text \<open>
  The statics of a process. \<open>Map_Failed\<close> is what \<^verbatim>\<open>mmap\<close> returns when it fails, which the code compares
  with NULL; using it is an access outside of every object.
\<close>

datatype mapping = Map_Object nat | Map_Failed

record sync_local =
  fd_open :: bool
  mapped_shm :: "mapping option"
  init_done :: bool

definition initial_local :: sync_local where
  "initial_local = \<lparr>fd_open = False, mapped_shm = None, init_done = False\<rparr>"

text \<open>
  \<open>open_err\<close> is the errno of \<^verbatim>\<open>shm_open\<close> if it fails, \<open>trunc_fails\<close> whether \<^verbatim>\<open>ftruncate\<close> returns -1, and
  \<open>m\<close> what \<^verbatim>\<open>mmap\<close> returns.
\<close>

definition setup_shm_master :: "int option \<Rightarrow> bool \<Rightarrow> mapping \<Rightarrow> sync_local \<Rightarrow> (sync_local \<times> int) res" where
  "setup_shm_master open_err trunc_fails m s =
     (if fd_open s \<or> mapped_shm s \<noteq> None then Inr (s, 0)
      else (case open_err of Some e \<Rightarrow> Inr (s, - e) | None \<Rightarrow>
        let s1 = s\<lparr>fd_open := True\<rparr>
        in if trunc_fails then Inr (s1\<lparr>fd_open := False\<rparr>, - 1)
           else (let s2 = s1\<lparr>fd_open := False, mapped_shm := Some m\<rparr>
                 in if m = Map_Failed then Inl Out_Of_Bounds else Inr (s2\<lparr>init_done := True\<rparr>, 0))))"

definition attach_shm_client :: "int option \<Rightarrow> mapping \<Rightarrow> sync_local \<Rightarrow> sync_local \<times> int" where
  "attach_shm_client open_err m s =
     (if fd_open s \<or> mapped_shm s \<noteq> None then (s, 0)
      else (case open_err of Some e \<Rightarrow> (s, - e)
        | None \<Rightarrow> (s\<lparr>fd_open := False, mapped_shm := Some m, init_done := True\<rparr>, 0)))"

definition blts_sync_client_init :: "int option \<Rightarrow> mapping \<Rightarrow> sync_local \<Rightarrow> sync_local \<times> int" where
  "blts_sync_client_init open_err m s = attach_shm_client open_err m s"

text \<open>The object whose completion semaphore is posted, if any.\<close>

definition blts_sync_client_cleanup :: "sync_local \<Rightarrow> (sync_local \<times> nat option) res" where
  "blts_sync_client_cleanup s = (case mapped_shm s of None \<Rightarrow> Inr (s, None)
     | Some Map_Failed \<Rightarrow> Inl Out_Of_Bounds
     | Some (Map_Object x) \<Rightarrow> Inr (s\<lparr>mapped_shm := None\<rparr>, Some x))"

text \<open>
  Attachment and clean-up are inverse but for \<^verbatim>\<open>init_done\<close>, which nothing resets; a failed mapping is
  reported as success, and the clean-up faults.
\<close>

lemma client_attach_cleanup:
  assumes "\<not> fd_open s" and "mapped_shm s = None"
  shows "blts_sync_client_init None m s = (s\<lparr>mapped_shm := Some m, init_done := True\<rparr>, 0)"
    and "blts_sync_client_cleanup (s\<lparr>mapped_shm := Some (Map_Object x), init_done := True\<rparr>)
      = Inr (s\<lparr>init_done := True\<rparr>, Some x)"
    and "blts_sync_client_cleanup (fst (blts_sync_client_init None Map_Failed s)) = Inl Out_Of_Bounds"
  using assms by (cases s; simp add: blts_sync_client_init_def attach_shm_client_def blts_sync_client_cleanup_def)+

section \<open>The daemon and its clients\<close>

text \<open>An object: whether it has its size, the two semaphores, and the barriers.\<close>

record shared_data =
  sized :: bool
  m_sync :: nat
  m_completion :: nat
  barriers :: barrier_table

definition new_object :: shared_data where
  "new_object = \<lparr>sized = False, m_sync = 0, m_completion = 0, barriers = []\<rparr>"

text \<open>
  Where a process is, with the object it has mapped. A client calls \<^verbatim>\<open>blts_sync_client_init\<close> and, at the
  end of its tests, \<^verbatim>\<open>blts_sync_client_cleanup\<close>.
\<close>

datatype sync_pc =
    M_Open                    (* shm_open(O_CREAT | O_EXCL) *)
  | M_Truncate nat            (* ftruncate *)
  | M_Map nat                 (* mmap *)
  | M_Clear nat               (* memset *)
  | M_Init_Mutex nat          (* sem_init(sync_mutex, 0) *)
  | M_Init_Completion nat     (* sem_init(completion_signal, 0) *)
  | M_Init_Barrier nat        (* barrier_init(0, client_count, "default") *)
  | M_Unlock nat              (* sync_mutex_unlock *)
  | M_Collect nat nat         (* for(i = 0; ...) sem_wait(completion_signal) *)
  | M_Lock nat                (* sync_mutex_lock *)
  | M_Destroy nat             (* sem_destroy, sync_mutex_unlock *)
  | M_Unlink                  (* munmap, shm_unlink *)
  | M_Exit
  | C_Open                    (* shm_open *)
  | C_Map nat                 (* mmap *)
  | C_Ready nat               (* sem_post(completion_signal) *)
  | C_Unmap nat               (* munmap *)
  | C_Left
  | C_Failed int              (* client_init returned an error *)
  | C_Bus_Error               (* access to an object without a size *)

record shm_system =
  shm_name :: "nat option"
  objects :: "shared_data list"
  procs :: "sync_pc list"

definition set_object :: "nat \<Rightarrow> (shared_data \<Rightarrow> shared_data) \<Rightarrow> shm_system \<Rightarrow> shm_system" where
  "set_object x f s = s\<lparr>objects := (objects s)[x := f (objects s ! x)]\<rparr>"

definition post_completion :: "shared_data \<Rightarrow> shared_data" where
  "post_completion d = d\<lparr>m_completion := m_completion d + 1\<rparr>"

text \<open>One step of a process with \<^verbatim>\<open>client_count\<close> \<open>n\<close>; \<open>None\<close> if it is blocked or has ended.\<close>

fun sync_proc :: "nat \<Rightarrow> sync_pc \<Rightarrow> shm_system \<Rightarrow> (shm_system \<times> sync_pc) option" where
  "sync_proc n M_Open s = Some (case shm_name s of
       Some _ \<Rightarrow> (s, M_Unlink)
     | None \<Rightarrow> (s\<lparr>shm_name := Some (length (objects s)), objects := objects s @ [new_object]\<rparr>,
         M_Truncate (length (objects s))))"
| "sync_proc n (M_Truncate x) s = Some (set_object x (\<lambda>d. d\<lparr>sized := True\<rparr>) s, M_Map x)"
| "sync_proc n (M_Map x) s = Some (s, M_Clear x)"
| "sync_proc n (M_Clear x) s = Some (set_object x (\<lambda>d. d\<lparr>m_sync := 0, m_completion := 0,
     barriers := replicate SYNC_TAG_COUNT zero_barrier\<rparr>) s, M_Init_Mutex x)"
| "sync_proc n (M_Init_Mutex x) s = Some (set_object x (\<lambda>d. d\<lparr>m_sync := 0\<rparr>) s, M_Init_Completion x)"
| "sync_proc n (M_Init_Completion x) s = Some (set_object x (\<lambda>d. d\<lparr>m_completion := 0\<rparr>) s, M_Init_Barrier x)"
| "sync_proc n (M_Init_Barrier x) s = (case barrier_init None 0 n ''default'' (barriers (objects s ! x)) of
       Inl _ \<Rightarrow> None
     | Inr (bs, err) \<Rightarrow> Some (set_object x (\<lambda>d. d\<lparr>barriers := bs\<rparr>) s, if err \<noteq> 0 then M_Unlink else M_Unlock x))"
| "sync_proc n (M_Unlock x) s = Some (set_object x (\<lambda>d. d\<lparr>m_sync := m_sync d + 1\<rparr>) s, M_Collect x 0)"
| "sync_proc n (M_Collect x i) s =
     (if i \<ge> n then Some (s, M_Lock x)
      else if m_completion (objects s ! x) = 0 then None
      else Some (set_object x (\<lambda>d. d\<lparr>m_completion := m_completion d - 1\<rparr>) s, M_Collect x (i + 1)))"
| "sync_proc n (M_Lock x) s =
     (if m_sync (objects s ! x) = 0 then None
      else Some (set_object x (\<lambda>d. d\<lparr>m_sync := m_sync d - 1\<rparr>) s, M_Destroy x))"
| "sync_proc n (M_Destroy x) s = Some (set_object x (\<lambda>d. d\<lparr>m_sync := m_sync d + 1\<rparr>) s, M_Unlink)"
| "sync_proc n M_Unlink s = Some (s\<lparr>shm_name := None\<rparr>, M_Exit)"
| "sync_proc n M_Exit s = None"
| "sync_proc n C_Open s = Some (s, case shm_name s of None \<Rightarrow> C_Failed (- ENOENT) | Some x \<Rightarrow> C_Map x)"
| "sync_proc n (C_Map x) s = Some (s, C_Ready x)"
| "sync_proc n (C_Ready x) s = Some (if sized (objects s ! x) then (set_object x post_completion s, C_Unmap x)
     else (s, C_Bus_Error))"
| "sync_proc n (C_Unmap x) s = Some (s, C_Left)"
| "sync_proc n C_Left s = None"
| "sync_proc n (C_Failed e) s = None"
| "sync_proc n C_Bus_Error s = None"

definition sync_move :: "nat \<Rightarrow> nat \<Rightarrow> shm_system \<Rightarrow> shm_system option" where
  "sync_move n p s = (if p < length (procs s)
     then (case sync_proc n (procs s ! p) s of None \<Rightarrow> None | Some (t, c) \<Rightarrow> Some (t\<lparr>procs := (procs s)[p := c]\<rparr>))
     else None)"

inductive sync_step :: "nat \<Rightarrow> shm_system \<Rightarrow> shm_system \<Rightarrow> bool" for n where
  move: "sync_move n p s = Some t \<Longrightarrow> sync_step n s t"

inductive_cases sync_stepE: "sync_step n s t"

fun sync_run :: "nat \<Rightarrow> nat list \<Rightarrow> shm_system \<Rightarrow> shm_system" where
  "sync_run n [] s = s"
| "sync_run n (p # ps) s = sync_run n ps (case sync_move n p s of None \<Rightarrow> s | Some t \<Rightarrow> t)"

lemma sync_run_reach: "(sync_step n)\<^sup>*\<^sup>* s (sync_run n ps s)"
proof (induction ps arbitrary: s)
  case (Cons p ps)
  show ?case
  proof (cases "sync_move n p s")
    case None
    with Cons [of s] show ?thesis by simp
  next
    case (Some t)
    then have "sync_step n s t" by (rule move)
    with Cons [of t] Some show ?thesis by (simp add: converse_rtranclp_into_rtranclp)
  qed
qed simp

text \<open>A system in which process 0 is the daemon and the others are clients.\<close>

definition sync_start :: "nat \<Rightarrow> shm_system" where
  "sync_start k = \<lparr>shm_name = None, objects = [], procs = M_Open # replicate k C_Open\<rparr>"

text \<open>The same after the daemon's set-up.\<close>

definition sync_ready :: "nat \<Rightarrow> nat \<Rightarrow> shm_system" where
  "sync_ready n k = \<lparr>shm_name = Some 0, objects = [\<lparr>sized = True, m_sync = 1, m_completion = 0,
       barriers = (replicate SYNC_TAG_COUNT zero_barrier)[0 := zero_barrier\<lparr>tb_mutex := 1, refcount := u32 n,
         tb_tag := ''default''\<rparr>]\<rparr>], procs = M_Collect 0 0 # replicate k C_Open\<rparr>"

lemma default_barrier: "barrier_init None 0 n ''default'' (replicate SYNC_TAG_COUNT zero_barrier) =
    Inr ((replicate SYNC_TAG_COUNT zero_barrier)[0 := zero_barrier\<lparr>tb_mutex := 1, refcount := u32 n,
       tb_tag := ''default''\<rparr>], 0)"
  by (simp add: barrier_init_def zero_barrier_def SYNC_TAG_COUNT_def SYNC_TAG_LEN_def)

lemma daemon_sets_up: "sync_run n (replicate 8 0) (sync_start k) = sync_ready n k"
proof -
  have "replicate 8 (0 :: nat) = [0, 0, 0, 0, 0, 0, 0, 0]" by (simp add: numeral_eq_Suc)
  then show ?thesis
    by (simp add: default_barrier sync_start_def sync_move_def set_object_def new_object_def sync_ready_def)
qed

section \<open>Clients that start after the set-up\<close>

fun has_posted :: "sync_pc \<Rightarrow> int" where
  "has_posted (C_Unmap x) = 1" | "has_posted C_Left = 1" | "has_posted _ = 0"

definition client_pc :: "sync_pc \<Rightarrow> bool" where
  "client_pc c \<longleftrightarrow> c \<in> {C_Open, C_Map 0, C_Ready 0, C_Unmap 0, C_Left}"

text \<open>What the daemon's position says of the name, the semaphore and the signals it has taken.\<close>

fun daemon_ok :: "nat \<Rightarrow> sync_pc \<Rightarrow> nat option \<Rightarrow> nat \<Rightarrow> bool" where
  "daemon_ok n (M_Collect x i) name v = (x = 0 \<and> i \<le> n \<and> name = Some 0 \<and> v = 1)"
| "daemon_ok n (M_Lock x) name v = (x = 0 \<and> name = Some 0 \<and> v = 1)"
| "daemon_ok n (M_Destroy x) name v = (x = 0 \<and> name = Some 0)"
| "daemon_ok n M_Unlink name v = (name = Some 0)"
| "daemon_ok n M_Exit name v = (name = None)"
| "daemon_ok n _ name v = False"

fun taken :: "nat \<Rightarrow> sync_pc \<Rightarrow> int" where
  "taken n (M_Collect x i) = int i" | "taken n _ = int n"

definition sync_inv :: "nat \<Rightarrow> shm_system \<Rightarrow> bool" where
  "sync_inv n s \<longleftrightarrow> (\<exists>m cs d. procs s = m # cs \<and> objects s = [d] \<and> sized d \<and> length cs = n
     \<and> (\<forall>c\<in>set cs. client_pc c) \<and> daemon_ok n m (shm_name s) (m_sync d)
     \<and> int (m_completion d) + taken n m = total has_posted cs)"

lemma sync_invE:
  assumes "sync_inv n s"
  obtains m cs d where "procs s = m # cs" and "objects s = [d]" and "sized d" and "length cs = n"
    and "\<forall>c\<in>set cs. client_pc c" and "daemon_ok n m (shm_name s) (m_sync d)"
    and "int (m_completion d) + taken n m = total has_posted cs"
  using assms unfolding sync_inv_def by blast

lemma has_posted_le [simp]: "has_posted c \<le> 1" "0 \<le> has_posted c"
  by (cases c; simp)+

text \<open>Once the daemon has taken every signal, no client is about to open.\<close>

lemma all_posted:
  assumes "total has_posted cs = int (length cs)" and "c \<in> set cs"
  shows "has_posted c = 1"
proof (rule ccontr)
  assume "has_posted c \<noteq> 1"
  then have "has_posted c = 0" using has_posted_le [of c] by (cases c) auto
  with total_less_length [of has_posted c cs] assms show False by simp
qed

lemma sync_inv_step:
  assumes inv: "sync_inv n s" and step: "sync_step n s t"
  shows "sync_inv n t"
proof -
  from inv obtain m cs d where s: "procs s = m # cs" "objects s = [d]" "sized d" "length cs = n"
      "\<forall>c\<in>set cs. client_pc c" "daemon_ok n m (shm_name s) (m_sync d)"
      "int (m_completion d) + taken n m = total has_posted cs"
    by (rule sync_invE)
  from step obtain p where move: "sync_move n p s = Some t" by (auto elim: sync_stepE)
  show ?thesis
  proof (cases p)
    case 0
    with move s show ?thesis
      by (cases m) (auto simp: sync_move_def sync_inv_def set_object_def split: if_splits)
  next
    case (Suc q)
    then have q: "q < length cs" using move s(1) by (auto simp: sync_move_def split: if_splits)
    then have c: "client_pc (cs ! q)" "cs ! q \<in> set cs" using s(5) by simp_all
    have client: "\<forall>c\<in>set (cs[q := c']). client_pc c" if "client_pc c'" for c'
      using s(5) that set_update_subset_insert [of cs q c'] by blast
    have "shm_name s = Some 0" if "cs ! q = C_Open"
    proof (rule ccontr)
      assume "shm_name s \<noteq> Some 0"
      then have "taken n m = int n" using s(6) by (cases m) auto
      then have "int (length cs) \<le> total has_posted cs" using s(4,7) by simp
      moreover have "total has_posted cs \<le> int (length cs)" by (rule total_le_length) simp
      ultimately have "total has_posted cs = int (length cs)" by simp
      then have "has_posted (cs ! q) = 1" using c(2) by (rule all_posted)
      with that show False by simp
    qed
    then obtain c' d' where step: "procs t = m # cs[q := c']" "objects t = [d']" "sized d'" "shm_name t = shm_name s"
        "m_sync d' = m_sync d" "client_pc c'"
        "int (m_completion d') = int (m_completion d) + has_posted c' - has_posted (cs ! q)"
      using move s(1-3) Suc q c(1)
      by (auto simp: client_pc_def sync_move_def set_object_def post_completion_def)
    have "total has_posted (cs[q := c']) = total has_posted cs - has_posted (cs ! q) + has_posted c'"
      by (rule total_update [OF q])
    with step s client [OF step(6)] show ?thesis unfolding sync_inv_def by (intro exI [of _ m] exI) auto
  qed
qed

lemma sync_inv_ready: "sync_inv n (sync_ready n n)"
  by (auto simp: sync_inv_def sync_ready_def client_pc_def total_replicate)

interpretation daemon: step_invariant "\<lambda>s. s = sync_ready n n" "sync_step n" "sync_inv n"
  by unfold_locales (auto simp: sync_inv_ready intro: sync_inv_step)

text \<open>What is left to do.\<close>

fun sync_rank :: "nat \<Rightarrow> sync_pc \<Rightarrow> int" where
  "sync_rank n (M_Collect x i) = int n - int i + 4" | "sync_rank n (M_Lock x) = 3" | "sync_rank n (M_Destroy x) = 2"
| "sync_rank n M_Unlink = 1" | "sync_rank n C_Open = 4" | "sync_rank n (C_Map x) = 3" | "sync_rank n (C_Ready x) = 2"
| "sync_rank n (C_Unmap x) = 1" | "sync_rank n _ = 0"

definition sync_work :: "nat \<Rightarrow> shm_system \<Rightarrow> int" where
  "sync_work n s = total (sync_rank n) (procs s)"

lemma sync_work_step:
  assumes inv: "sync_inv n s" and step: "sync_step n s t"
  shows "sync_work n t < sync_work n s"
proof -
  from inv obtain m cs d where s: "procs s = m # cs" "objects s = [d]" "sized d"
      "\<forall>c\<in>set cs. client_pc c" "daemon_ok n m (shm_name s) (m_sync d)"
    by (rule sync_invE)
  from step obtain p where move: "sync_move n p s = Some t" by (auto elim: sync_stepE)
  then have p: "p < length (procs s)" by (simp add: sync_move_def split: if_splits)
  obtain t' c where c: "sync_proc n (procs s ! p) s = Some (t', c)" "procs t = (procs s)[p := c]"
    using move p by (auto simp: sync_move_def split: option.splits)
  have "sync_rank n c < sync_rank n (procs s ! p)"
  proof (cases p)
    case 0
    with c s show ?thesis by (cases m) (auto split: if_splits)
  next
    case (Suc q)
    with p s(1,4) have "client_pc (cs ! q)" by simp
    with c s(1,2,3) Suc show ?thesis by (auto simp: client_pc_def split: option.splits)
  qed
  with p show ?thesis by (simp add: sync_work_def c(2) total_update)
qed

lemma sync_run_length:
  assumes "(sync_step n ^^ k) (sync_ready n n) s"
  shows "int k + sync_work n s \<le> 5 * int n + 4"
  using assms
proof (induction k arbitrary: s)
  case 0
  then have "procs s = M_Collect 0 0 # replicate n C_Open" by (auto simp: sync_ready_def)
  then show ?case by (simp add: sync_work_def total_def sum_list_replicate)
next
  case (Suc k)
  then obtain t where run: "(sync_step n ^^ k) (sync_ready n n) t" and "sync_step n t s" by auto
  moreover have "sync_inv n t" using run daemon.inv_reachable relpowp_imp_rtranclp by metis
  ultimately show ?case using sync_work_step [of n t s] Suc.IH [OF run] by fastforce
qed

lemma client_rank: "client_pc c \<Longrightarrow> 0 \<le> sync_rank n c"
  by (auto simp: client_pc_def)

lemma clients_rank: "\<forall>c\<in>set cs. client_pc c \<Longrightarrow> 0 \<le> total (sync_rank n) cs"
  by (induction cs) (simp_all add: total_def client_rank)

lemma sync_work_nonneg:
  assumes "sync_inv n s"
  shows "0 \<le> sync_work n s"
  using assms
proof (rule sync_invE)
  fix m cs d
  assume s: "procs s = m # cs" "\<forall>c\<in>set cs. client_pc c" "daemon_ok n m (shm_name s) (m_sync d)"
  then have "0 \<le> sync_rank n m" by (cases m) auto
  with clients_rank [OF s(2), of n] s(1) show ?thesis by (simp add: sync_work_def total_def)
qed

lemma sync_stuck_done:
  assumes inv: "sync_inv n s" and stuck: "\<nexists>t. sync_step n s t"
  shows "shm_name s = None \<and> procs s = M_Exit # replicate n C_Left"
proof -
  from inv obtain m cs d where s: "procs s = m # cs" "objects s = [d]" "sized d" "length cs = n"
      "\<forall>c\<in>set cs. client_pc c" "daemon_ok n m (shm_name s) (m_sync d)"
      "int (m_completion d) + taken n m = total has_posted cs"
    by (rule sync_invE)
  have none: "sync_proc n (procs s ! p) s = None" if "p < length (procs s)" for p
  proof (cases "sync_proc n (procs s ! p) s")
    case (Some r)
    obtain t' c where "r = (t', c)" by (cases r)
    with Some that have "sync_move n p s = Some (t'\<lparr>procs := (procs s)[p := c]\<rparr>)" by (simp add: sync_move_def)
    then have "sync_step n s (t'\<lparr>procs := (procs s)[p := c]\<rparr>)" by (rule move)
    with stuck show ?thesis by blast
  qed
  have "c = C_Left" if "c \<in> set cs" for c
  proof -
    from that obtain q where "q < length cs" "cs ! q = c" by (auto simp: in_set_conv_nth)
    with none [of "Suc q"] s(1) have "sync_proc n c s = None" by simp
    moreover have "client_pc c" using s(5) that by blast
    ultimately show ?thesis by (auto simp: client_pc_def)
  qed
  then have cs: "cs = replicate n C_Left" using s(4) by (metis replicate_eqI)
  then have "total has_posted cs = int n" by (simp add: total_replicate)
  with s none [of 0] have "m = M_Exit" by (cases m) (auto split: if_splits)
  with s(1,6) cs show ?thesis by simp
qed

section \<open>A client that starts too early\<close>

text \<open>
  The client opens, maps, posts and leaves between the daemon's \<^verbatim>\<open>ftruncate\<close> and its \<^verbatim>\<open>memset\<close>; the
  daemon clears the signal. Earlier still, the client finds no name, or memory without a size. A
  second daemon that finds the name taken removes it.
\<close>

definition early_client :: shm_system where
  "early_client = sync_run 1 (replicate 2 0 @ replicate 4 1 @ replicate 6 0) (sync_start 1)"

definition two_daemons :: shm_system where
  "two_daemons = sync_run 1 (replicate 8 0 @ replicate 2 1)
     \<lparr>shm_name = None, objects = [], procs = [M_Open, M_Open, C_Open]\<rparr>"

lemma early_client_state:
  "procs early_client = [M_Collect 0 0, C_Left]" "shm_name early_client = Some 0"
  "m_completion (objects early_client ! 0) = 0"
proof -
  have "replicate 2 0 @ replicate 4 1 @ replicate 6 0 = [0, 0, 1, 1, 1, 1, 0, 0, 0, 0, 0, 0 :: nat]"
    by (simp add: numeral_eq_Suc)
  then have s: "early_client = \<lparr>shm_name = Some 0, objects = [\<lparr>sized = True, m_sync = 1, m_completion = 0,
      barriers = (replicate SYNC_TAG_COUNT zero_barrier)[0 := zero_barrier\<lparr>tb_mutex := 1, refcount := u32 1,
         tb_tag := ''default''\<rparr>]\<rparr>], procs = [M_Collect 0 0, C_Left]\<rparr>"
    by (simp add: early_client_def default_barrier sync_start_def sync_move_def set_object_def new_object_def
        post_completion_def)
  show "procs early_client = [M_Collect 0 0, C_Left]" "shm_name early_client = Some 0"
    "m_completion (objects early_client ! 0) = 0" unfolding s by simp_all
qed

lemma two_daemons_state: "procs two_daemons = [M_Collect 0 0, M_Exit, C_Open]" "shm_name two_daemons = None"
proof -
  have "replicate 8 0 @ replicate 2 1 = [0, 0, 0, 0, 0, 0, 0, 0, 1, 1 :: nat]" by (simp add: numeral_eq_Suc)
  then show "procs two_daemons = [M_Collect 0 0, M_Exit, C_Open]" "shm_name two_daemons = None"
    by (simp_all add: two_daemons_def default_barrier sync_move_def set_object_def new_object_def)
qed

end
