(* ===== verification/Dep_Check.thy ===== *)
theory Dep_Check
  imports C_Text
begin

text \<open>
  The dependency checker, \<^verbatim>\<open>blts-common/src/blts_dep_check.c\<close>: the rules file and the checks of
  files, kernel modules, libraries and executables. The file system is a parameter: what
  \<^verbatim>\<open>access\<close>, \<^verbatim>\<open>glob\<close>, \<^verbatim>\<open>uname\<close> and reading a file give. Log messages are not modelled. The main
  theorem says when the check of a rules file fails.
\<close>

section \<open>The system\<close>

record system =
  access_errno :: "string \<Rightarrow> int option"
  executable :: "string \<Rightarrow> bool"
  file_text :: "string \<Rightarrow> string option"
  glob_paths :: "string \<Rightarrow> string list"
  uname_release :: string

text \<open>Successive results of \<^verbatim>\<open>getline\<close>: each line with its newline, if it has one.\<close>

fun getlines :: "string \<Rightarrow> string list" where
  "getlines [] = []"
| "getlines (c # cs) = (if c = CHR ''\<newline>'' then [c] # getlines cs
     else (case getlines cs of [] \<Rightarrow> [[c]] | l # ls \<Rightarrow> (c # l) # ls))"

fun strstr :: "string \<Rightarrow> string \<Rightarrow> bool" where
  "strstr [] t \<longleftrightarrow> t = []"
| "strstr (c # cs) t \<longleftrightarrow> take (length t) (c # cs) = t \<or> strstr cs t"

fun grep_line :: "string list \<Rightarrow> string \<Rightarrow> string option" where
  "grep_line [] str = None"
| "grep_line (l # ls) str = (if strstr l str then Some l else grep_line ls str)"

section \<open>The checks\<close>

definition check_file :: "system \<Rightarrow> string \<Rightarrow> int" where
  "check_file sys name = (case access_errno sys name of None \<Rightarrow> 0 | Some e \<Rightarrow> - e)"

text \<open>
  A line of \<^verbatim>\<open>modules.dep\<close> without a colon is reported, but not left: the length of the path is
  then computed from a null pointer.
\<close>

definition modules_dir :: "system \<Rightarrow> string" where
  "modules_dir sys = ''/lib/modules/'' @ uname_release sys"

definition check_kmod :: "system \<Rightarrow> string \<Rightarrow> int res" where
  "check_kmod sys name =
     (let moddep = modules_dir sys @ ''/modules.dep'' in
      case access_errno sys moddep of
        Some e \<Rightarrow>
          if e \<noteq> ENOENT then Inr (- 1)
          else Inr (check_file sys (modules_dir sys @ ''/'' @ name @ ''.ko''))
      | None \<Rightarrow>
          (case file_text sys moddep of
             None \<Rightarrow> Inr (- 1)
           | Some text \<Rightarrow>
               (case grep_line (getlines text) name of
                  None \<Rightarrow> Inr (- 1)
                | Some mod_line \<Rightarrow>
                    (case strchr mod_line (CHR '':'') of
                       None \<Rightarrow> Inl Null_Deref
                     | Some path_len \<Rightarrow>
                         (let mod_dep_path = take path_len mod_line;
                              mod_full_path = (if \<not> strn_eq mod_line ''/lib/modules'' 12
                                then modules_dir sys @ ''/'' @ mod_dep_path else mod_dep_path)
                          in Inr (check_file sys mod_full_path))))))"

definition check_lib :: "system \<Rightarrow> string \<Rightarrow> int" where
  "check_lib sys name =
     (let found = sum_list (map (\<lambda>dirname. length (glob_paths sys (dirname @ ''/'' @ name @ ''*'')))
                     [''/lib'', ''/usr/lib''])
      in if found > 0 then 0 else - 1)"

definition valid_exe_dirs :: "string list" where
  "valid_exe_dirs = ['''', ''/bin'', ''/sbin'', ''/usr/bin'', ''/usr/sbin'', ''/usr/X11/bin'']"

definition check_bin :: "system \<Rightarrow> string \<Rightarrow> int" where
  "check_bin sys name =
     (let found = length (filter (\<lambda>dirname. executable sys
            (if name = [] \<or> hd name \<noteq> CHR ''/'' then dirname @ ''/'' @ name else name)) valid_exe_dirs)
      in if found > 0 then 0 else - 1)"

section \<open>Rules\<close>

text \<open>The two calls of \<^verbatim>\<open>strsep\<close> on a line cut at its newline; \<open>None\<close> is a malformed rule.\<close>

definition rule_delim :: "char \<Rightarrow> bool" where
  "rule_delim c \<longleftrightarrow> c = CHR '' '' \<or> c = CHR 0x09"

definition cut_newline :: "string \<Rightarrow> string" where
  "cut_newline s = (case strchr s (CHR ''\<newline>'') of None \<Rightarrow> s | Some i \<Rightarrow> take i s)"

definition split_rule :: "string \<Rightarrow> (string \<times> string \<times> string) option" where
  "split_rule s = (case strsep rule_delim s of
       (kind, None) \<Rightarrow> None
     | (kind, Some rest) \<Rightarrow>
         (case strsep rule_delim rest of
            (ty, None) \<Rightarrow> None
          | (ty, Some arg) \<Rightarrow> Some (kind, ty, arg)))"

text \<open>The dispatch on the type; \<open>None\<close> for a type the checker does not know.\<close>

definition check_rule :: "system \<Rightarrow> string \<Rightarrow> string \<Rightarrow> int option res" where
  "check_rule sys ty arg =
     (if ty = ''kmod'' then rbind (check_kmod sys arg) (\<lambda>r. Inr (Some r))
      else if ty = ''bin'' then Inr (Some (check_bin sys arg))
      else if ty = ''lib'' then Inr (Some (check_lib sys arg))
      else if ty = ''file'' then Inr (Some (check_file sys arg))
      else Inr None)"

fun depcheck_loop :: "system \<Rightarrow> string list \<Rightarrow> int \<Rightarrow> int res" where
  "depcheck_loop sys [] retval = Inr retval"
| "depcheck_loop sys (l # ls) retval =
     (if l \<noteq> [] \<and> (hd l = CHR ''#'' \<or> hd l = CHR ''\<newline>'') then depcheck_loop sys ls retval
      else (case split_rule (cut_newline l) of
          None \<Rightarrow> depcheck_loop sys ls retval
        | Some (kind, ty, arg) \<Rightarrow>
            rbind (check_rule sys ty arg) (\<lambda>res. case res of
                None \<Rightarrow> depcheck_loop sys ls retval
              | Some check_res \<Rightarrow>
                  depcheck_loop sys ls (if check_res \<noteq> 0 \<and> kind = ''required'' then - 1 else retval))))"

definition depcheck :: "system \<Rightarrow> string \<Rightarrow> int res" where
  "depcheck sys rulesfile = (case file_text sys rulesfile of
       None \<Rightarrow> Inr (- 1)
     | Some text \<Rightarrow> depcheck_loop sys (getlines text) 0)"

section \<open>What a check means\<close>

lemma check_bin_ok:
  "check_bin sys name = 0 \<longleftrightarrow> (if name \<noteq> [] \<and> hd name = CHR ''/'' then executable sys name
     else \<exists>d\<in>set valid_exe_dirs. executable sys (d @ ''/'' @ name))"
proof -
  have "valid_exe_dirs \<noteq> []" by (simp add: valid_exe_dirs_def)
  then obtain d where d: "d \<in> set valid_exe_dirs" using list.set_sel(1) by blast
  have "check_bin sys name = 0 \<longleftrightarrow> (\<exists>d\<in>set valid_exe_dirs. executable sys
      (if name = [] \<or> hd name \<noteq> CHR ''/'' then d @ ''/'' @ name else name))"
    by (simp add: check_bin_def Let_def filter_empty_conv)
  with d show ?thesis by auto
qed

lemma check_lib_ok:
  "check_lib sys name = 0 \<longleftrightarrow> glob_paths sys (''/lib/'' @ name @ ''*'') \<noteq> [] \<or>
     glob_paths sys (''/usr/lib/'' @ name @ ''*'') \<noteq> []"
  by (auto simp: check_lib_def)

text \<open>A rule that counts: on a line that is not skipped, required, and of a known type.\<close>

definition required_rule :: "string \<Rightarrow> (string \<times> string) option" where
  "required_rule l = (if l \<noteq> [] \<and> (hd l = CHR ''#'' \<or> hd l = CHR ''\<newline>'') then None
     else (case split_rule (cut_newline l) of
         Some (kind, ty, arg) \<Rightarrow>
           if kind = ''required'' \<and> ty \<in> {''kmod'', ''bin'', ''lib'', ''file''} then Some (ty, arg) else None
       | None \<Rightarrow> None))"

definition rule_fails :: "system \<Rightarrow> string \<Rightarrow> bool" where
  "rule_fails sys l \<longleftrightarrow> (case required_rule l of None \<Rightarrow> False
     | Some (ty, arg) \<Rightarrow> \<exists>r. check_rule sys ty arg = Inr (Some r) \<and> r \<noteq> 0)"

lemma check_rule_unknown:
  "ty \<notin> {''kmod'', ''bin'', ''lib'', ''file''} \<Longrightarrow> check_rule sys ty arg = Inr None"
  by (simp add: check_rule_def)

lemma check_rule_known:
  "ty \<in> {''kmod'', ''bin'', ''lib'', ''file''} \<Longrightarrow> check_rule sys ty arg \<noteq> Inr None"
  by (auto simp: check_rule_def)

lemma depcheck_loop_result:
  assumes "depcheck_loop sys ls retval = Inr r"
  shows "r = (if \<exists>l\<in>set ls. rule_fails sys l then - 1 else retval)"
  using assms
proof (induction ls arbitrary: retval)
  case Nil
  then show ?case by simp
next
  case (Cons l ls)
  consider (skip) "l \<noteq> [] \<and> (hd l = CHR ''#'' \<or> hd l = CHR ''\<newline>'')"
    | (bad) "\<not> (l \<noteq> [] \<and> (hd l = CHR ''#'' \<or> hd l = CHR ''\<newline>''))" "split_rule (cut_newline l) = None"
    | (rule) kind ty arg where "\<not> (l \<noteq> [] \<and> (hd l = CHR ''#'' \<or> hd l = CHR ''\<newline>''))"
        "split_rule (cut_newline l) = Some (kind, ty, arg)"
    by (metis option.exhaust prod_cases3)
  then show ?case
  proof cases
    case skip
    then have "\<not> rule_fails sys l" by (auto simp: rule_fails_def required_rule_def)
    with skip Cons show ?thesis by auto
  next
    case bad
    then have "\<not> rule_fails sys l" by (simp add: rule_fails_def required_rule_def)
    moreover have "depcheck_loop sys ls retval = Inr r"
      using Cons.prems bad by (simp split: if_splits)
    ultimately show ?thesis using Cons.IH by auto
  next
    case rule
    from Cons.prems rule obtain c where c: "check_rule sys ty arg = Inr c"
      by (auto split: if_splits)
    show ?thesis
    proof (cases c)
      case None
      then have "\<not> rule_fails sys l"
        using c rule check_rule_known by (auto simp: rule_fails_def required_rule_def)
      moreover have "depcheck_loop sys ls retval = Inr r"
        using Cons.prems rule c None by (simp split: if_splits)
      ultimately show ?thesis using Cons.IH by auto
    next
      case (Some n)
      then have "ty \<in> {''kmod'', ''bin'', ''lib'', ''file''}" using c check_rule_unknown by fastforce
      then have f: "rule_fails sys l \<longleftrightarrow> n \<noteq> 0 \<and> kind = ''required''"
        using c Some rule by (auto simp: rule_fails_def required_rule_def)
      have "depcheck_loop sys ls (if n \<noteq> 0 \<and> kind = ''required'' then - 1 else retval) = Inr r"
        using Cons.prems rule c Some by (simp split: if_splits)
      from Cons.IH [OF this] f show ?thesis by auto
    qed
  qed
qed

lemma depcheck_result:
  assumes "depcheck sys f = Inr r" and "file_text sys f = Some text"
  shows "r = (if \<exists>l\<in>set (getlines text). rule_fails sys l then - 1 else 0)"
  using depcheck_loop_result [of sys "getlines text" 0 r] assms by (simp add: depcheck_def)

text \<open>Without kernel module rules the check always returns.\<close>

lemma split_rule_plain:
  assumes "\<forall>c\<in>set kind. \<not> rule_delim c" and "\<forall>c\<in>set ty. \<not> rule_delim c" and "rule_delim d" and "rule_delim e"
  shows "split_rule (kind @ d # ty @ e # arg) = Some (kind, ty, arg)"
  using assms by (simp add: split_rule_def strsep_join)

lemma depcheck_loop_returns:
  assumes "\<And>arg. \<exists>r. check_kmod sys arg = Inr r"
  shows "\<exists>r. depcheck_loop sys ls retval = Inr r"
proof (induction ls arbitrary: retval)
  case Nil
  show ?case by simp
next
  case (Cons l ls)
  have chk: "\<exists>c. check_rule sys ty arg = Inr c" for ty arg
    using assms [of arg] by (auto simp: check_rule_def)
  show ?case
  proof (cases "l \<noteq> [] \<and> (hd l = CHR ''#'' \<or> hd l = CHR ''\<newline>'')")
    case True
    with Cons.IH [of retval] show ?thesis by simp
  next
    case False
    show ?thesis
    proof (cases "split_rule (cut_newline l)")
      case None
      from Cons.IH [of retval] obtain r where "depcheck_loop sys ls retval = Inr r" by blast
      with None False show ?thesis by (subst depcheck_loop.simps) (simp only: if_False option.case, blast)
    next
      case (Some t)
      obtain kind ty arg where t: "t = (kind, ty, arg)" by (metis prod_cases3)
      obtain c where c: "check_rule sys ty arg = Inr c" using chk by blast
      show ?thesis
      proof (cases c)
        case None
        from Cons.IH [of retval] obtain r where "depcheck_loop sys ls retval = Inr r" by blast
        with None False Some t c show ?thesis
          by (subst depcheck_loop.simps) (simp only: if_False option.case prod.case rbind_Inr, blast)
      next
        case (Some n)
        from Cons.IH obtain r where
          "depcheck_loop sys ls (if n \<noteq> 0 \<and> kind = ''required'' then - 1 else retval) = Inr r" by blast
        with Some False \<open>split_rule (cut_newline l) = Some t\<close> t c show ?thesis
          by (subst depcheck_loop.simps) (simp only: if_False option.case prod.case rbind_Inr, blast)
      qed
    qed
  qed
qed

end
