(* ===== verification/Config_Parser.thy ===== *)
theory Config_Parser
  imports Declare_Tests
begin

text \<open>
  The configuration grammar, \<^verbatim>\<open>blts-common/src/param-parser.y\<close>: what its semantic actions do. A
  configuration is given by its phrases (\<open>config_section\<close>), with the semantic values of the tokens;
  \<open>parse_section\<close> runs the actions of a phrase in the order in which a bottom-up parser reduces them.
  The state are the statics of the file. An action that ends in \<^verbatim>\<open>YYERROR\<close> returns \<open>False\<close>; what bison
  makes of the rest of the input is then an argument (\<open>recover\<close>). The main theorem compares the
  actions with a denotation that has neither the lists built backwards nor the current symbol.
\<close>

section \<open>Phrases\<close>

datatype value_token =
    T_INT "64 word"
  | T_LONG "64 word"
  | T_BOOL "64 word"
  | T_FLOAT double
  | T_DOUBLE double
  | T_STRING string
  | T_IDENT string

datatype numeric_spec = INTSPEC | FLOATSPEC | LONGSPEC | DOUBLESPEC

text \<open>\<open>Const_Values\<close> has at least one value.\<close>

datatype param_values =
    Const_Values value_token "value_token list"
  | Range_Values numeric_spec value_token value_token
  | Generate_Values string "string list"

datatype test_line =
    Line_Params "string list"
  | Line_Pgroup string
  | Line_Fix string value_token

datatype config_section =
    Sec_Globals "(string \<times> value_token) list"
  | Sec_Parameter string param_values
  | Sec_Pgroup string "string list list"
  | Sec_Test string "test_line list"
  | Sec_Testset string "(string \<times> value_token) list" testset_exec "string list"

section \<open>State and primitive actions\<close>

text \<open>
  The symbol under construction: its key and its definition. A global has no value before the
  value's own action.
\<close>

datatype open_def = Open_Value "boxed_value option" | Open_Def symbol_def

record parser_state =
  ps_config :: config_state
  current_sym :: "(string \<times> open_def) option"
  current_value_list :: "boxed_value list"
  current_ident_list :: "sym_ref list"
  current_setting_list :: "test_setting list"
  parse_errors :: nat

type_synonym act = "parser_state \<Rightarrow> (parser_state \<times> bool) res"

definition act_ok :: act where "act_ok s = Inr (s, True)"

definition then_do :: "act \<Rightarrow> act \<Rightarrow> act" where
  "then_do a b s = rbind (a s) (\<lambda>(s', ok). if ok then b s' else Inr (s', False))"

fun seq_map :: "('a \<Rightarrow> act) \<Rightarrow> 'a list \<Rightarrow> act" where
  "seq_map f [] = act_ok"
| "seq_map f (x # xs) = then_do (f x) (seq_map f xs)"

definition yyerror :: "parser_state \<Rightarrow> parser_state" where
  "yyerror s = s\<lparr>parse_errors := parse_errors s + 1, current_value_list := [], current_ident_list := [],
     current_setting_list := [], current_sym := None\<rparr>"

text \<open>\<^verbatim>\<open>yyerror(...); YYERROR;\<close>\<close>

definition fail :: act where "fail s = Inr (yyerror s, False)"

definition open_symbol :: "string \<Rightarrow> open_def \<Rightarrow> parser_state \<Rightarrow> parser_state" where
  "open_symbol k d s = s\<lparr>current_sym := Some (k, d)\<rparr>"

text \<open>
  \<^verbatim>\<open>commit_current_symbol\<close>: the status of the insertion, after which the error is counted. An entry
  whose value is NULL has no place in the table's type; no phrase commits one.
\<close>

definition commit_current_symbol :: "parser_state \<Rightarrow> (parser_state \<times> int) res" where
  "commit_current_symbol s = (case current_sym s of None \<Rightarrow> Inr (s, - EINVAL) | Some (k, d) \<Rightarrow>
     rbind (case d of Open_Value None \<Rightarrow> Inl Uninitialised
            | Open_Value (Some v) \<Rightarrow> Inr (SYM_TYPE_BOXED_VALUE v) | Open_Def d \<Rightarrow> Inr d) (\<lambda>d.
     rbind (symbol_table_insert (ps_config s) (Some \<lparr>sym_key = k, sym_def = d\<rparr>)) (\<lambda>(c, ret).
       let s1 = s\<lparr>ps_config := c\<rparr> in Inr (if ret \<noteq> 0 then yyerror s1 else s1, ret))))"

definition commit :: act where
  "commit s = rbind (commit_current_symbol s) (\<lambda>(s1, ret). Inr (s1, ret = 0))"

definition value_list_prepend_boxed :: "boxed_value \<Rightarrow> parser_state \<Rightarrow> parser_state" where
  "value_list_prepend_boxed v s = s\<lparr>current_value_list := v # current_value_list s\<rparr>"

text \<open>
  The end of every value's action. The case of a global falls through, so a global's value is put
  in the list too, where later phrases find it unless they empty the list first.
\<close>

definition take_value :: "boxed_value \<Rightarrow> act" where
  "take_value v s = (case current_sym s of None \<Rightarrow> Inl Null_Deref | Some (k, d) \<Rightarrow>
     (let s1 = (case d of Open_Value _ \<Rightarrow> s\<lparr>current_sym := Some (k, Open_Value (Some v))\<rparr> | Open_Def _ \<Rightarrow> s)
      in Inr (value_list_prepend_boxed v s1, True)))"

definition global_value :: "string \<Rightarrow> act" where
  "global_value name s = (case symbol_table_lookup (ps_config s) name of None \<Rightarrow> fail s | Some r \<Rightarrow>
     rbind (sym_at (ps_config s) r) (\<lambda>e. case sym_def e of
         SYM_TYPE_BOXED_VALUE v \<Rightarrow> take_value v s
       | _ \<Rightarrow> fail s))"

fun value_action :: "value_token \<Rightarrow> act" where
  "value_action (T_INT w) = take_value (boxed_value_new_int w)"
| "value_action (T_LONG w) = take_value (boxed_value_new_long w)"
| "value_action (T_BOOL w) = take_value (boxed_value_new_bool w)"
| "value_action (T_FLOAT w) = take_value (boxed_value_new_float w)"
| "value_action (T_DOUBLE w) = take_value (boxed_value_new_double w)"
| "value_action (T_STRING s) = take_value (boxed_value_new_string s)"
| "value_action (T_IDENT g) = global_value g"

text \<open>
  A number: any other constant is a syntax error. Of a global the type at the head of the list is
  checked, the type of a global being overwritten by the fall-through.
\<close>

definition check_numeric :: act where
  "check_numeric s = (case current_sym s of None \<Rightarrow> Inl Null_Deref | Some _ \<Rightarrow>
     (case current_value_list s of [] \<Rightarrow> Inl Null_Deref | v # _ \<Rightarrow>
        if bv_type v \<noteq> CONFIG_PARAM_DOUBLE \<and> bv_type v \<noteq> CONFIG_PARAM_LONG then fail s else Inr (s, True)))"

fun numeric_action :: "value_token \<Rightarrow> act" where
  "numeric_action (T_BOOL w) = fail"
| "numeric_action (T_STRING s) = fail"
| "numeric_action (T_IDENT g) = then_do (global_value g) check_numeric"
| "numeric_action t = value_action t"

definition ident_action :: "string \<Rightarrow> act" where
  "ident_action name s = (case symbol_table_lookup (ps_config s) name of None \<Rightarrow> fail s
     | Some r \<Rightarrow> Inr (s\<lparr>current_ident_list := r # current_ident_list s\<rparr>, True))"

text \<open>
  \<^verbatim>\<open>ident_list_create_symbol_array\<close> and \<^verbatim>\<open>settinglist_create_setting_array\<close>: the list is turned round in
  place and copied to a new array. On an empty list the destination keeps its zeroes.
\<close>

definition ident_list_create_symbol_array :: "parser_state \<Rightarrow> parser_state \<times> sym_ref list" where
  "ident_list_create_symbol_array s =
     (let l = reverse_loop (current_ident_list s) [] in (s\<lparr>current_ident_list := l\<rparr>, l))"

definition settinglist_create_setting_array :: "parser_state \<Rightarrow> parser_state \<times> test_setting option list" where
  "settinglist_create_setting_array s =
     (let l = reverse_loop (current_setting_list s) [] in (s\<lparr>current_setting_list := l\<rparr>, map Some l))"

text \<open>\<^verbatim>\<open>identlist_lookup_from_boxed_keys\<close>: NULL, here the empty list, if a key is no string or unknown.\<close>

fun lookup_keys_loop :: "config_state \<Rightarrow> boxed_value list \<Rightarrow> sym_ref list option" where
  "lookup_keys_loop st [] = Some []"
| "lookup_keys_loop st (v # vs) = (case v of
     Boxed_String k \<Rightarrow> (case symbol_table_lookup st k of None \<Rightarrow> None
       | Some r \<Rightarrow> map_option (Cons r) (lookup_keys_loop st vs))
   | _ \<Rightarrow> None)"

definition identlist_lookup_from_boxed_keys :: "config_state \<Rightarrow> boxed_value list \<Rightarrow> sym_ref list" where
  "identlist_lookup_from_boxed_keys st list =
     (case lookup_keys_loop st list of None \<Rightarrow> [] | Some ids \<Rightarrow> ids)"

text \<open>Writing through \<^verbatim>\<open>current_sym\<close>.\<close>

definition set_definition :: "(symbol_def \<Rightarrow> symbol_def) \<Rightarrow> parser_state \<Rightarrow> parser_state res" where
  "set_definition f s = (case current_sym s of None \<Rightarrow> Inl Null_Deref
     | Some (k, Open_Def d) \<Rightarrow> Inr (s\<lparr>current_sym := Some (k, Open_Def (f d))\<rparr>)
     | Some (k, Open_Value v) \<Rightarrow> Inl Type_Confusion)"

fun set_paramdef :: "(paramdef \<Rightarrow> paramdef) \<Rightarrow> symbol_def \<Rightarrow> symbol_def" where
  "set_paramdef f (SYM_TYPE_PARAM p) = SYM_TYPE_PARAM (f p)"
| "set_paramdef f d = d"

fun set_testdef :: "(testdef \<Rightarrow> testdef) \<Rightarrow> symbol_def \<Rightarrow> symbol_def" where
  "set_testdef f (SYM_TYPE_TEST t) = SYM_TYPE_TEST (f t)"
| "set_testdef f d = d"

fun set_testsetdef :: "(testsetdef \<Rightarrow> testsetdef) \<Rightarrow> symbol_def \<Rightarrow> symbol_def" where
  "set_testsetdef f (SYM_TYPE_TESTSET t) = SYM_TYPE_TESTSET (f t)"
| "set_testsetdef f d = d"

definition write_def :: "(parser_state \<Rightarrow> symbol_def \<Rightarrow> symbol_def) \<Rightarrow> act" where
  "write_def f s = rbind (set_definition (f s) s) (\<lambda>s'. Inr (s', True))"

definition update :: "(parser_state \<Rightarrow> parser_state) \<Rightarrow> act" where
  "update f s = Inr (f s, True)"

section \<open>Phrases of a configuration\<close>

definition parse_global :: "string \<times> value_token \<Rightarrow> act" where
  "parse_global g = then_do (update (open_symbol (fst g) (Open_Value None)))
     (then_do (value_action (snd g)) commit)"

text \<open>A new definition is all zeroes: the type of a parameter reads as \<^verbatim>\<open>CONFIG_PARAM_INT\<close>.\<close>

definition zero_paramdef :: paramdef where
  "zero_paramdef = \<lparr>pd_type = CONFIG_PARAM_INT, pd_mode = PARAM_MODE_CONSTLIST []\<rparr>"

fun range_type :: "numeric_spec \<Rightarrow> config_param_type" where
  "range_type INTSPEC = CONFIG_PARAM_LONG"
| "range_type FLOATSPEC = CONFIG_PARAM_DOUBLE"
| "range_type LONGSPEC = CONFIG_PARAM_LONG"
| "range_type DOUBLESPEC = CONFIG_PARAM_DOUBLE"

definition set_mode :: "param_mode \<Rightarrow> symbol_def \<Rightarrow> symbol_def" where
  "set_mode m = set_paramdef (\<lambda>p. p\<lparr>pd_mode := m\<rparr>)"

text \<open>The bounds are taken from the head of the list and the value behind it.\<close>

definition bounds_mode :: "boxed_value list \<Rightarrow> symbol_def \<Rightarrow> symbol_def" where
  "bounds_mode vs d = (case vs of [] \<Rightarrow> set_mode (PARAM_MODE_RANGE None None) d
     | h # t \<Rightarrow> set_mode (PARAM_MODE_RANGE (case t of [] \<Rightarrow> None | l # _ \<Rightarrow> Some l) (Some h)) d)"

fun parse_paramvalues :: "param_values \<Rightarrow> act" where
  "parse_paramvalues (Const_Values t ts) =
     then_do (write_def (\<lambda>_. set_mode (PARAM_MODE_CONSTLIST [])))
    (then_do (update (\<lambda>s. s\<lparr>current_value_list := []\<rparr>))
    (then_do (seq_map value_action (t # ts))
    (then_do (write_def (\<lambda>s. set_mode (PARAM_MODE_CONSTLIST (reverse_loop (current_value_list s) []))))
             (update (\<lambda>s. s\<lparr>current_value_list := []\<rparr>)))))"
| "parse_paramvalues (Range_Values sp a b) =
     then_do (write_def (\<lambda>_. set_mode (PARAM_MODE_RANGE None None)))
    (then_do (update (\<lambda>s. s\<lparr>current_value_list := []\<rparr>))
    (then_do (write_def (\<lambda>_. set_paramdef (\<lambda>p. p\<lparr>pd_type := range_type sp\<rparr>)))
    (then_do (numeric_action a)
    (then_do (numeric_action b)
    (then_do (write_def (\<lambda>s. bounds_mode (current_value_list s)))
             (update (\<lambda>s. s\<lparr>current_value_list := []\<rparr>)))))))"
| "parse_paramvalues (Generate_Values f ids) =
     then_do (write_def (\<lambda>_. set_mode (PARAM_MODE_GENERATED f [])))
    (then_do (update (\<lambda>s. s\<lparr>current_ident_list := []\<rparr>))
    (then_do (seq_map ident_action ids)
    (then_do (write_def (\<lambda>s. set_mode (PARAM_MODE_GENERATED f (snd (ident_list_create_symbol_array s)))))
             (update (\<lambda>s. s\<lparr>current_ident_list := []\<rparr>)))))"

definition parse_parameter :: "string \<Rightarrow> param_values \<Rightarrow> act" where
  "parse_parameter k pv = then_do (update (open_symbol k (Open_Def (SYM_TYPE_PARAM zero_paramdef))))
     (then_do (parse_paramvalues pv) commit)"

definition finish_pgroup :: act where
  "finish_pgroup = then_do
     (write_def (\<lambda>s _. SYM_TYPE_PGROUP (Some \<lparr>pgroup_params_syms = snd (ident_list_create_symbol_array s)\<rparr>)))
    (then_do (update (\<lambda>s. s\<lparr>current_ident_list := []\<rparr>)) commit)"

definition open_pgroup :: "string \<Rightarrow> parser_state \<Rightarrow> parser_state" where
  "open_pgroup k s = (open_symbol k (Open_Def (SYM_TYPE_PGROUP (Some \<lparr>pgroup_params_syms = []\<rparr>))) s)
     \<lparr>current_ident_list := []\<rparr>"

definition parse_pgroup :: "string \<Rightarrow> string list list \<Rightarrow> act" where
  "parse_pgroup k idss = then_do (update (open_pgroup k))
     (then_do (seq_map (seq_map ident_action) idss) finish_pgroup)"

definition push_setting :: "test_setting \<Rightarrow> parser_state \<Rightarrow> parser_state" where
  "push_setting x s = s\<lparr>current_setting_list := x # current_setting_list s\<rparr>"

text \<open>Writing to the setting at the head of the list.\<close>

definition write_head :: "(parser_state \<Rightarrow> test_setting) \<Rightarrow> act" where
  "write_head f s = (case current_setting_list s of [] \<Rightarrow> Inl Null_Deref
     | _ # l \<Rightarrow> Inr (s\<lparr>current_setting_list := f s # l\<rparr>, True))"

definition list_head :: "'a list \<Rightarrow> 'a option" where
  "list_head xs = (case xs of [] \<Rightarrow> None | x # _ \<Rightarrow> Some x)"

text \<open>A \<^verbatim>\<open>fix\<close> line, the same in tests and in test sets.\<close>

definition parse_fix :: "string \<times> value_token \<Rightarrow> act" where
  "parse_fix f s = (case symbol_table_lookup (ps_config s) (fst f) of None \<Rightarrow> fail s | Some r \<Rightarrow>
     then_do (update (\<lambda>s. push_setting (TEST_SETTING_FIX \<lparr>fix_param = r, fix_value = None\<rparr>) (s\<lparr>current_value_list := []\<rparr>)))
    (then_do (value_action (snd f))
    (then_do (write_head (\<lambda>s. TEST_SETTING_FIX \<lparr>fix_param = r, fix_value = list_head (current_value_list s)\<rparr>))
             (update (\<lambda>s. s\<lparr>current_value_list := []\<rparr>)))) s)"

text \<open>After \<^verbatim>\<open>params\<close> the list of identifiers is freed, but the pointer to it stays.\<close>

fun parse_test_line :: "test_line \<Rightarrow> act" where
  "parse_test_line (Line_Params ids) =
     then_do (update (\<lambda>s. push_setting (TEST_SETTING_PARAMLIST (Some \<lparr>pgroup_params_syms = []\<rparr>))
                             (s\<lparr>current_ident_list := []\<rparr>)))
    (then_do (seq_map ident_action ids)
    (then_do (write_head (\<lambda>s. TEST_SETTING_PARAMLIST
                (Some \<lparr>pgroup_params_syms = snd (ident_list_create_symbol_array s)\<rparr>)))
             (update (\<lambda>s. fst (ident_list_create_symbol_array s)))))"
| "parse_test_line (Line_Pgroup g) = (\<lambda>s. case symbol_table_lookup (ps_config s) g of None \<Rightarrow> fail s
     | Some r \<Rightarrow> Inr (push_setting (TEST_SETTING_PGROUP r) s, True))"
| "parse_test_line (Line_Fix p t) = parse_fix (p, t)"

text \<open>The array is stored and the list emptied.\<close>

definition finish_test_settings :: act where
  "finish_test_settings = then_do
     (write_def (\<lambda>s. set_testdef (\<lambda>t. t\<lparr>settings := snd (settinglist_create_setting_array s)\<rparr>)))
     (update (\<lambda>s. s\<lparr>current_setting_list := []\<rparr>))"

definition parse_test :: "string \<Rightarrow> test_line list \<Rightarrow> act" where
  "parse_test k ls =
     then_do (update (\<lambda>s. (open_symbol k (Open_Def (SYM_TYPE_TEST empty_testdef)) s)\<lparr>current_setting_list := []\<rparr>))
    (then_do (seq_map parse_test_line ls)
    (then_do (\<lambda>s. if current_setting_list s = [] then Inr (s, True) else finish_test_settings s) commit))"

definition zero_testsetdef :: testsetdef where
  "zero_testsetdef = \<lparr>exec_type = TESTSET_EXEC_SERIAL, ts_settings = [], ts_tests = []\<rparr>"

text \<open>Only \<^verbatim>\<open>serial\<close> empties the list of values before the names of the tests are read.\<close>

definition open_testlist :: "testset_exec \<Rightarrow> parser_state \<Rightarrow> parser_state" where
  "open_testlist ex s = (case ex of TESTSET_EXEC_SERIAL \<Rightarrow> s\<lparr>current_value_list := []\<rparr>
     | _ \<Rightarrow> s\<lparr>current_ident_list := []\<rparr>)"

text \<open>The names, their lookup and the end of the test set.\<close>

definition finish_testset :: "string list \<Rightarrow> act" where
  "finish_testset tests =
     then_do (seq_map (\<lambda>n. take_value (boxed_value_new_string n)) tests)
    (then_do (update (\<lambda>s. s\<lparr>current_ident_list := identlist_lookup_from_boxed_keys (ps_config s) (current_value_list s),
                            current_value_list := []\<rparr>))
    (then_do (\<lambda>s. if current_ident_list s = [] then fail s else Inr (s, True))
    (then_do (write_def (\<lambda>s. set_testsetdef (\<lambda>t. t\<lparr>ts_tests := snd (ident_list_create_symbol_array s)\<rparr>)))
    (then_do (update (\<lambda>s. s\<lparr>current_ident_list := []\<rparr>)) commit))))"

definition parse_testset :: "string \<Rightarrow> (string \<times> value_token) list \<Rightarrow> testset_exec \<Rightarrow> string list \<Rightarrow> act" where
  "parse_testset k fxs ex tests =
     then_do (update (\<lambda>s. (open_symbol k (Open_Def (SYM_TYPE_TESTSET zero_testsetdef)) s)\<lparr>current_setting_list := []\<rparr>))
    (then_do (seq_map parse_fix fxs)
    (then_do (write_def (\<lambda>s. set_testsetdef (\<lambda>t. t\<lparr>ts_settings := snd (settinglist_create_setting_array s)\<rparr>)))
    (then_do (update (\<lambda>s. s\<lparr>current_setting_list := [], current_ident_list := []\<rparr>))
    (then_do (write_def (\<lambda>_. set_testsetdef (\<lambda>t. t\<lparr>exec_type := ex\<rparr>)))
    (then_do (update (open_testlist ex)) (finish_testset tests))))))"

fun parse_section :: "config_section \<Rightarrow> act" where
  "parse_section (Sec_Globals gs) = seq_map parse_global gs"
| "parse_section (Sec_Parameter k pv) = parse_parameter k pv"
| "parse_section (Sec_Pgroup k idss) = parse_pgroup k idss"
| "parse_section (Sec_Test k ls) = parse_test k ls"
| "parse_section (Sec_Testset k fs ex ts) = parse_testset k fs ex ts"

section \<open>A whole configuration\<close>

type_synonym recovery = "parser_state \<Rightarrow> config_section list \<Rightarrow> (parser_state \<times> int) res"

fun parse_input :: "recovery \<Rightarrow> config_section list \<Rightarrow> parser_state \<Rightarrow> (parser_state \<times> int) res" where
  "parse_input recover [] s = Inr (s, 0)"
| "parse_input recover (sec # secs) s =
     rbind (parse_section sec s) (\<lambda>(s', ok). if ok then parse_input recover secs s' else recover s' secs)"

definition initial_parser :: "config_state \<Rightarrow> parser_state" where
  "initial_parser c = \<lparr>ps_config = c, current_sym = None, current_value_list = [], current_ident_list = [],
     current_setting_list = [], parse_errors = 0\<rparr>"

definition parser_start :: "recovery \<Rightarrow> config_section list \<Rightarrow> config_state \<Rightarrow> (config_state \<times> int) res" where
  "parser_start recover secs c = rbind (parse_input recover secs (initial_parser c)) (\<lambda>(s, ret).
     Inr (ps_config s, if ret \<noteq> 0 then ret else int (parse_errors s)))"

text \<open>
  A syntax error among the lines of a parameter group. Bison's parser calls \<^verbatim>\<open>yyerror\<close>, goes back to the
  state after the group's name, which can shift \<^verbatim>\<open>error\<close>, skips to the end of the line and goes on
  with the lines \<open>rest\<close> and the end of the group.
\<close>

definition parse_pgroup_with_error :: "string \<Rightarrow> string list list \<Rightarrow> string list list \<Rightarrow> act" where
  "parse_pgroup_with_error k before rest =
     then_do (update (open_pgroup k))
    (then_do (seq_map (seq_map ident_action) before)
    (then_do (update yyerror)
    (then_do (seq_map (seq_map ident_action) rest) finish_pgroup)))"

end
