(* ===== verification/Config_Meaning.thy ===== *)
theory Config_Meaning
  imports Config_Parser
begin

text \<open>
  What a configuration means, independently of how the parser builds it: each phrase adds its
  entries to the table, names being resolved against the entries before it. The parser's actions
  accept exactly the configurations that have a meaning, and leave that table.
\<close>

section \<open>Meaning\<close>

definition resolve :: "symbol_table_entry list \<Rightarrow> string \<Rightarrow> sym_ref option" where
  "resolve es k = lookup_loop k es"

fun value_meaning :: "symbol_table_entry list \<Rightarrow> value_token \<Rightarrow> boxed_value option" where
  "value_meaning es (T_INT w) = Some (Boxed_Int w)"
| "value_meaning es (T_LONG w) = Some (Boxed_Long w)"
| "value_meaning es (T_BOOL w) = Some (Boxed_Bool w)"
| "value_meaning es (T_FLOAT w) = Some (Boxed_Float w)"
| "value_meaning es (T_DOUBLE w) = Some (Boxed_Float w)"
| "value_meaning es (T_STRING s) = Some (Boxed_String s)"
| "value_meaning es (T_IDENT g) = (case resolve es g of None \<Rightarrow> None
     | Some r \<Rightarrow> (case sym_def (es ! r) of SYM_TYPE_BOXED_VALUE v \<Rightarrow> Some v | _ \<Rightarrow> None))"

definition number_meaning :: "symbol_table_entry list \<Rightarrow> value_token \<Rightarrow> boxed_value option" where
  "number_meaning es t = (case t of T_BOOL _ \<Rightarrow> None | T_STRING _ \<Rightarrow> None
     | T_IDENT _ \<Rightarrow> (case value_meaning es t of None \<Rightarrow> None
         | Some v \<Rightarrow> if bv_type v = CONFIG_PARAM_DOUBLE \<or> bv_type v = CONFIG_PARAM_LONG then Some v else None)
     | _ \<Rightarrow> value_meaning es t)"

definition add_entry :: "symbol_table_entry list \<Rightarrow> string \<Rightarrow> symbol_def \<Rightarrow> symbol_table_entry list option" where
  "add_entry es k d = (if length es < SYMBOL_TABLE_MAX \<and> resolve es k = None
     then Some (es @ [\<lparr>sym_key = k, sym_def = d\<rparr>]) else None)"

definition all_of :: "('a \<Rightarrow> 'b option) \<Rightarrow> 'a list \<Rightarrow> 'b list option" where
  "all_of f xs = those (map f xs)"

fun mode_meaning :: "symbol_table_entry list \<Rightarrow> param_values \<Rightarrow> paramdef option" where
  "mode_meaning es (Const_Values t ts) =
     map_option (\<lambda>vs. \<lparr>pd_type = CONFIG_PARAM_INT, pd_mode = PARAM_MODE_CONSTLIST vs\<rparr>)
       (all_of (value_meaning es) (t # ts))"
| "mode_meaning es (Range_Values sp a b) =
     (case (number_meaning es a, number_meaning es b) of
        (Some low, Some high) \<Rightarrow> Some \<lparr>pd_type = range_type sp, pd_mode = PARAM_MODE_RANGE (Some low) (Some high)\<rparr>
      | _ \<Rightarrow> None)"
| "mode_meaning es (Generate_Values f ids) =
     map_option (\<lambda>rs. \<lparr>pd_type = CONFIG_PARAM_INT, pd_mode = PARAM_MODE_GENERATED f rs\<rparr>)
       (all_of (resolve es) ids)"

definition fix_meaning :: "symbol_table_entry list \<Rightarrow> string \<times> value_token \<Rightarrow> test_setting option" where
  "fix_meaning es f = (case (resolve es (fst f), value_meaning es (snd f)) of
     (Some r, Some v) \<Rightarrow> Some (TEST_SETTING_FIX \<lparr>fix_param = r, fix_value = Some v\<rparr>) | _ \<Rightarrow> None)"

fun line_meaning :: "symbol_table_entry list \<Rightarrow> test_line \<Rightarrow> test_setting option" where
  "line_meaning es (Line_Params ids) =
     map_option (\<lambda>rs. TEST_SETTING_PARAMLIST (Some \<lparr>pgroup_params_syms = rs\<rparr>)) (all_of (resolve es) ids)"
| "line_meaning es (Line_Pgroup g) = map_option TEST_SETTING_PGROUP (resolve es g)"
| "line_meaning es (Line_Fix p t) = fix_meaning es (p, t)"

fun globals_meaning :: "symbol_table_entry list \<Rightarrow> (string \<times> value_token) list \<Rightarrow> symbol_table_entry list option" where
  "globals_meaning es [] = Some es"
| "globals_meaning es (g # gs) = Option.bind (value_meaning es (snd g)) (\<lambda>v.
     Option.bind (add_entry es (fst g) (SYM_TYPE_BOXED_VALUE v)) (\<lambda>es'. globals_meaning es' gs))"

text \<open>
  The names of a test set. The values of globals stay in the list that names of tests are put in, and
  only a serial test set, or one with \<^verbatim>\<open>fix\<close> lines, starts with an empty one: in the others the values
  \<open>left\<close>, latest first, are read as names before the names that are written there.
\<close>

definition name_meaning :: "symbol_table_entry list \<Rightarrow> boxed_value \<Rightarrow> sym_ref option" where
  "name_meaning es v = (case v of Boxed_String k \<Rightarrow> resolve es k | _ \<Rightarrow> None)"

definition names_before :: "testset_exec \<Rightarrow> (string \<times> value_token) list \<Rightarrow> boxed_value list \<Rightarrow> boxed_value list" where
  "names_before ex fs left = (if ex = TESTSET_EXEC_SERIAL \<or> fs \<noteq> [] then [] else left)"

fun section_meaning ::
    "symbol_table_entry list \<Rightarrow> boxed_value list \<Rightarrow> config_section \<Rightarrow> symbol_table_entry list option" where
  "section_meaning es left (Sec_Globals gs) = globals_meaning es gs"
| "section_meaning es left (Sec_Parameter k pv) =
     Option.bind (mode_meaning es pv) (\<lambda>pd. add_entry es k (SYM_TYPE_PARAM pd))"
| "section_meaning es left (Sec_Pgroup k idss) =
     Option.bind (all_of (resolve es) (concat idss)) (\<lambda>rs.
       add_entry es k (SYM_TYPE_PGROUP (Some \<lparr>pgroup_params_syms = rs\<rparr>)))"
| "section_meaning es left (Sec_Test k ls) =
     Option.bind (all_of (line_meaning es) ls) (\<lambda>ss.
       add_entry es k (SYM_TYPE_TEST (empty_testdef\<lparr>settings := map Some ss\<rparr>)))"
| "section_meaning es left (Sec_Testset k fs ex ts) =
     Option.bind (all_of (fix_meaning es) fs) (\<lambda>ss.
     Option.bind (all_of (name_meaning es) (rev (names_before ex fs left) @ map Boxed_String ts)) (\<lambda>rs.
       if rs = [] then None
       else add_entry es k (SYM_TYPE_TESTSET \<lparr>exec_type = ex, ts_settings = map Some ss, ts_tests = rs\<rparr>)))"

text \<open>The values left in the list behind a phrase that made the table \<open>es'\<close> of \<open>es\<close>.\<close>

definition global_values :: "symbol_table_entry list \<Rightarrow> boxed_value list" where
  "global_values es = concat (map (\<lambda>e. case sym_def e of SYM_TYPE_BOXED_VALUE v \<Rightarrow> [v] | _ \<Rightarrow> []) es)"

fun is_fix :: "test_line \<Rightarrow> bool" where
  "is_fix (Line_Fix p t) = True"
| "is_fix _ = False"

fun left_after :: "symbol_table_entry list \<Rightarrow> symbol_table_entry list \<Rightarrow> boxed_value list \<Rightarrow> config_section
    \<Rightarrow> boxed_value list" where
  "left_after es es' left (Sec_Globals gs) = rev (global_values (drop (length es) es')) @ left"
| "left_after es es' left (Sec_Parameter k pv) = (case pv of Generate_Values f ids \<Rightarrow> left | _ \<Rightarrow> [])"
| "left_after es es' left (Sec_Pgroup k idss) = left"
| "left_after es es' left (Sec_Test k ls) = (if list_ex is_fix ls then [] else left)"
| "left_after es es' left (Sec_Testset k fs ex ts) = []"

fun config_meaning ::
    "symbol_table_entry list \<Rightarrow> boxed_value list \<Rightarrow> config_section list \<Rightarrow> symbol_table_entry list option" where
  "config_meaning es left [] = Some es"
| "config_meaning es left (sec # secs) =
     Option.bind (section_meaning es left sec) (\<lambda>es'. config_meaning es' (left_after es es' left sec) secs)"

section \<open>Outcomes of actions\<close>

text \<open>
  \<open>at c cs n s\<close>: the configuration, the current symbol and the number of errors in \<open>s\<close>. An action that
  went wrong raised an error and counted it.
\<close>

definition at :: "config_state \<Rightarrow> (string \<times> open_def) option \<Rightarrow> nat \<Rightarrow> parser_state \<Rightarrow> bool" where
  "at c cs n s \<longleftrightarrow> ps_config s = c \<and> current_sym s = cs \<and> parse_errors s = n"

definition went_wrong :: "nat \<Rightarrow> (parser_state \<times> bool) res \<Rightarrow> bool" where
  "went_wrong n r \<longleftrightarrow> (\<exists>s'. r = Inr (s', False) \<and> n < parse_errors s')"

lemma then_do_ok [simp]: "a s = Inr (s', True) \<Longrightarrow> then_do a b s = b s'"
  by (simp add: then_do_def)

lemma then_do_wrong [simp]: "went_wrong n (a s) \<Longrightarrow> went_wrong n (then_do a b s)"
  by (auto simp: went_wrong_def then_do_def)

lemma went_wrong_fail [simp]: "at c cs n s \<Longrightarrow> went_wrong n (fail s)"
  by (simp add: went_wrong_def fail_def yyerror_def at_def)

lemma update_ok [simp]: "update f s = Inr (f s, True)"
  by (simp add: update_def)

lemma act_ok_ok [simp]: "act_ok s = Inr (s, True)"
  by (simp add: act_ok_def)

lemma write_def_ok [simp]:
  "current_sym s = Some (k, Open_Def d) \<Longrightarrow> write_def f s = Inr (s\<lparr>current_sym := Some (k, Open_Def (f s d))\<rparr>, True)"
  by (simp add: write_def_def set_definition_def)

lemma at_update [simp]:
  "at c cs n (s\<lparr>current_value_list := x\<rparr>) = at c cs n s"
  "at c cs n (s\<lparr>current_ident_list := y\<rparr>) = at c cs n s"
  "at c cs n (s\<lparr>current_setting_list := z\<rparr>) = at c cs n s"
  "at c cs n (push_setting u s) = at c cs n s"
  by (simp_all add: at_def push_setting_def)

lemma push_setting_list [simp]: "current_setting_list (push_setting x s) = x # current_setting_list s"
  by (simp add: push_setting_def)

lemma at_sym: "at c cs n s \<Longrightarrow> current_sym s = cs"
  and at_config: "at c cs n s \<Longrightarrow> ps_config s = c"
  and at_set_sym: "at c cs n s \<Longrightarrow> at c cs' n (s\<lparr>current_sym := cs'\<rparr>)"
  and at_open: "at c cs n s \<Longrightarrow> at c (Some (k, d)) n (open_symbol k d s)"
  by (simp_all add: at_def open_symbol_def)

text \<open>The table the actions look names up in.\<close>

lemma lookup_table: "symbol_table c = Some es \<Longrightarrow> symbol_table_lookup c k = resolve es k"
  by (simp add: symbol_table_lookup_def resolve_def)

lemma sym_at_table: "symbol_table c = Some es \<Longrightarrow> resolve es k = Some r \<Longrightarrow> sym_at c r = Inr (es ! r)"
  by (simp add: sym_at_def resolve_def sym_scan.scan_bound)

lemma seq_map_cases:
  assumes step: "\<And>x s. at c cs n s \<Longrightarrow> (case m x of
      Some y \<Rightarrow> \<exists>s'. f x s = Inr (s', True) \<and> at c cs n s' \<and> acc s' = y # acc s
    | None \<Rightarrow> went_wrong n (f x s))"
    and start: "at c cs n s"
  shows "case all_of m xs of
      Some ys \<Rightarrow> \<exists>s'. seq_map f xs s = Inr (s', True) \<and> at c cs n s' \<and> acc s' = rev ys @ acc s
    | None \<Rightarrow> went_wrong n (seq_map f xs s)"
  using start
proof (induction xs arbitrary: s)
  case Nil
  then show ?case by (simp add: all_of_def)
next
  case (Cons x xs)
  show ?case
  proof (cases "m x")
    case None
    with step [OF Cons.prems, of x] show ?thesis by (simp add: all_of_def)
  next
    case (Some y)
    with step [OF Cons.prems, of x] obtain s1 where
      s1: "f x s = Inr (s1, True)" "at c cs n s1" "acc s1 = y # acc s" by auto
    show ?thesis
      using Cons.IH [OF s1(2)] by (simp add: all_of_def Some s1 split: option.splits)
  qed
qed

section \<open>Each phrase\<close>

lemma commit_cases:
  assumes "at c (Some (k, d)) n s" and "symbol_table c = Some es"
    and "d = Open_Def sd \<or> (\<exists>v. d = Open_Value (Some v) \<and> sd = SYM_TYPE_BOXED_VALUE v)"
  shows "case add_entry es k sd of
      Some es' \<Rightarrow> commit s = Inr (s\<lparr>ps_config := c\<lparr>symbol_table := Some es'\<rparr>\<rparr>, True)
    | None \<Rightarrow> went_wrong n (commit s)"
proof -
  have "(case d of Open_Value None \<Rightarrow> Inl Uninitialised | Open_Value (Some v) \<Rightarrow> Inr (SYM_TYPE_BOXED_VALUE v)
      | Open_Def d \<Rightarrow> Inr d) = (Inr sd :: symbol_def res)"
    using assms(3) by auto
  then show ?thesis
    using assms(1,2) lookup_table [OF assms(2), of k]
    by (auto simp: commit_def commit_current_symbol_def add_entry_def symbol_table_insert_def at_def
        went_wrong_def yyerror_def Let_def)
qed

lemma take_value_def_sym:
  "at c (Some (k, Open_Def d)) n s \<Longrightarrow> take_value v s = Inr (s\<lparr>current_value_list := v # current_value_list s\<rparr>, True)"
  by (simp add: take_value_def at_def value_list_prepend_boxed_def)

lemma value_action_cases:
  assumes "at c (Some (k, d)) n s" and "symbol_table c = Some es"
  shows "case value_meaning es t of
      Some v \<Rightarrow> value_action t s = take_value v s | None \<Rightarrow> went_wrong n (value_action t s)"
  using assms(1) sym_at_table [OF assms(2)]
  by (cases t) (auto simp: boxed_value_new_defs global_value_def at_config [OF assms(1)]
      lookup_table [OF assms(2)] split: option.splits symbol_def.splits)

lemma values_cases:
  assumes "at c (Some (k, Open_Def d)) n s" and "symbol_table c = Some es"
  shows "case all_of (value_meaning es) ts of
      Some vs \<Rightarrow> \<exists>s'. seq_map value_action ts s = Inr (s', True) \<and> at c (Some (k, Open_Def d)) n s'
         \<and> current_value_list s' = rev vs @ current_value_list s
    | None \<Rightarrow> went_wrong n (seq_map value_action ts s)"
proof (rule seq_map_cases [OF _ assms(1)])
  fix t s assume s: "at c (Some (k, Open_Def d)) n s"
  show "case value_meaning es t of
      Some v \<Rightarrow> \<exists>s'. value_action t s = Inr (s', True) \<and> at c (Some (k, Open_Def d)) n s'
         \<and> current_value_list s' = v # current_value_list s
    | None \<Rightarrow> went_wrong n (value_action t s)"
    using value_action_cases [OF s assms(2), of t] s take_value_def_sym [OF s] by (auto split: option.splits)
qed

lemma idents_cases:
  assumes "at c cs n s" and "symbol_table c = Some es"
  shows "case all_of (resolve es) ids of
      Some rs \<Rightarrow> \<exists>s'. seq_map ident_action ids s = Inr (s', True) \<and> at c cs n s'
         \<and> current_ident_list s' = rev rs @ current_ident_list s
    | None \<Rightarrow> went_wrong n (seq_map ident_action ids s)"
proof (rule seq_map_cases [OF _ assms(1)])
  fix i s assume s: "at c cs n s"
  then show "case resolve es i of
      Some r \<Rightarrow> \<exists>s'. ident_action i s = Inr (s', True) \<and> at c cs n s'
         \<and> current_ident_list s' = r # current_ident_list s
    | None \<Rightarrow> went_wrong n (ident_action i s)"
    by (auto simp: ident_action_def at_config [OF s] lookup_table [OF assms(2)] split: option.splits)
qed

lemma parse_global_cases:
  assumes "at c cs n s" and "symbol_table c = Some es"
  shows "case Option.bind (value_meaning es (snd g)) (\<lambda>v. add_entry es (fst g) (SYM_TYPE_BOXED_VALUE v)) of
      Some es' \<Rightarrow> \<exists>s' cs'. parse_global g s = Inr (s', True) \<and> at (c\<lparr>symbol_table := Some es'\<rparr>) cs' n s'
    | None \<Rightarrow> went_wrong n (parse_global g s)"
proof -
  let ?s1 = "open_symbol (fst g) (Open_Value None) s"
  have s1: "at c (Some (fst g, Open_Value None)) n ?s1" using assms(1) by (rule at_open)
  show ?thesis
  proof (cases "value_meaning es (snd g)")
    case None
    with value_action_cases [OF s1 assms(2), of "snd g"] show ?thesis by (simp add: parse_global_def)
  next
    case (Some v)
    let ?s2 = "?s1\<lparr>current_sym := Some (fst g, Open_Value (Some v)), current_value_list := v # current_value_list s\<rparr>"
    have "take_value v ?s1 = Inr (?s2, True)"
      by (simp add: take_value_def open_symbol_def value_list_prepend_boxed_def)
    with value_action_cases [OF s1 assms(2), of "snd g"] Some
    have va: "value_action (snd g) ?s1 = Inr (?s2, True)" by simp
    have "at c (Some (fst g, Open_Value (Some v))) n ?s2" using s1 by (simp add: at_def)
    from commit_cases [OF this assms(2), of "SYM_TYPE_BOXED_VALUE v"] this show ?thesis
      by (auto simp: parse_global_def Some va at_def split: option.splits)
  qed
qed

lemma globals_cases:
  assumes "at c cs n s" and "symbol_table c = Some es"
  shows "case globals_meaning es gs of
      Some es' \<Rightarrow> \<exists>s' cs'. seq_map parse_global gs s = Inr (s', True) \<and> at (c\<lparr>symbol_table := Some es'\<rparr>) cs' n s'
    | None \<Rightarrow> went_wrong n (seq_map parse_global gs s)"
  using assms
proof (induction gs arbitrary: c cs s es)
  case Nil
  then show ?case by (cases c) auto
next
  case (Cons g gs)
  show ?case
  proof (cases "Option.bind (value_meaning es (snd g)) (\<lambda>v. add_entry es (fst g) (SYM_TYPE_BOXED_VALUE v))")
    case None
    then have "globals_meaning es (g # gs) = None" by (cases "value_meaning es (snd g)") auto
    with None parse_global_cases [OF Cons.prems, of g] show ?thesis by simp
  next
    case (Some es1)
    with parse_global_cases [OF Cons.prems, of g] obtain s1 cs1 where
      s1: "parse_global g s = Inr (s1, True)" "at (c\<lparr>symbol_table := Some es1\<rparr>) cs1 n s1" by auto
    have "globals_meaning es (g # gs) = globals_meaning es1 gs" using Some by (auto simp: bind_eq_Some_conv)
    with Cons.IH [OF s1(2)] s1(1) show ?thesis by (cases "globals_meaning es1 gs") auto
  qed
qed

lemma numeric_action_cases:
  assumes "at c (Some (k, Open_Def d)) n s" and "symbol_table c = Some es"
  shows "case number_meaning es t of
      Some v \<Rightarrow> \<exists>s'. numeric_action t s = Inr (s', True) \<and> at c (Some (k, Open_Def d)) n s'
         \<and> current_value_list s' = v # current_value_list s
    | None \<Rightarrow> went_wrong n (numeric_action t s)"
proof (cases "\<exists>g. t = T_IDENT g")
  case False
  then show ?thesis using assms(1)
    by (cases t) (auto simp: number_meaning_def take_value_def_sym boxed_value_new_defs)
next
  case True
  then obtain g where g: "t = T_IDENT g" by blast
  show ?thesis
  proof (cases "value_meaning es t")
    case None
    with value_action_cases [OF assms, of t] show ?thesis by (simp add: g number_meaning_def)
  next
    case (Some v)
    let ?s1 = "s\<lparr>current_value_list := v # current_value_list s\<rparr>"
    from Some value_action_cases [OF assms, of t] have "global_value g s = Inr (?s1, True)"
      by (simp add: g take_value_def_sym [OF assms(1)])
    moreover have "at c (Some (k, Open_Def d)) n ?s1" using assms(1) by simp
    ultimately show ?thesis
      using Some by (auto simp: g number_meaning_def check_numeric_def at_def)
  qed
qed

lemma parse_paramvalues_cases:
  assumes "at c (Some (k, Open_Def (SYM_TYPE_PARAM zero_paramdef))) n s" and "symbol_table c = Some es"
  shows "case mode_meaning es pv of
      Some pd \<Rightarrow> \<exists>s'. parse_paramvalues pv s = Inr (s', True) \<and> at c (Some (k, Open_Def (SYM_TYPE_PARAM pd))) n s'
    | None \<Rightarrow> went_wrong n (parse_paramvalues pv s)"
proof (cases pv)
  case (Const_Values t ts)
  let ?d = "set_mode (PARAM_MODE_CONSTLIST []) (SYM_TYPE_PARAM zero_paramdef)"
  let ?s1 = "s\<lparr>current_sym := Some (k, Open_Def ?d), current_value_list := []\<rparr>"
  have s1: "at c (Some (k, Open_Def ?d)) n ?s1" using assms(1) by (simp add: at_def)
  show ?thesis
  proof (cases "all_of (value_meaning es) (t # ts)")
    case None
    with values_cases [OF s1 assms(2), of "t # ts"] show ?thesis
      by (simp add: Const_Values at_sym [OF assms(1)] del: seq_map.simps)
  next
    case (Some vs)
    with values_cases [OF s1 assms(2), of "t # ts"] obtain s2 where
      s2: "seq_map value_action (t # ts) ?s1 = Inr (s2, True)" "at c (Some (k, Open_Def ?d)) n s2"
        "current_value_list s2 = rev vs" by auto
    show ?thesis using s2(2)
      by (simp add: Const_Values at_sym [OF assms(1)] Some s2(1,3) at_sym [OF s2(2)] reverse_loop_rev
          del: seq_map.simps) (simp add: at_def set_mode_def zero_paramdef_def)
  qed
next
  case (Range_Values sp a b)
  let ?d = "set_paramdef (\<lambda>p. p\<lparr>pd_type := range_type sp\<rparr>)
      (set_mode (PARAM_MODE_RANGE None None) (SYM_TYPE_PARAM zero_paramdef))"
  let ?s1 = "s\<lparr>current_value_list := [], current_sym := Some (k, Open_Def ?d)\<rparr>"
  have s1: "at c (Some (k, Open_Def ?d)) n ?s1" using assms(1) by (simp add: at_def)
  have run: "parse_paramvalues pv s = then_do (numeric_action a) (then_do (numeric_action b)
      (then_do (write_def (\<lambda>s. bounds_mode (current_value_list s)))
             (update (\<lambda>s. s\<lparr>current_value_list := []\<rparr>)))) ?s1"
    by (simp add: Range_Values at_sym [OF assms(1)])
  show ?thesis
  proof (cases "number_meaning es a")
    case None
    with numeric_action_cases [OF s1 assms(2), of a] show ?thesis unfolding run by (simp add: Range_Values)
  next
    case low: (Some low)
    with numeric_action_cases [OF s1 assms(2), of a] obtain s2 where
      a: "numeric_action a ?s1 = Inr (s2, True)" "at c (Some (k, Open_Def ?d)) n s2" "current_value_list s2 = [low]"
      by auto
    show ?thesis
    proof (cases "number_meaning es b")
      case None
      with numeric_action_cases [OF a(2) assms(2), of b] show ?thesis
        unfolding run by (simp add: Range_Values a(1) low)
    next
      case (Some high)
      with numeric_action_cases [OF a(2) assms(2), of b] obtain s3 where
        b: "numeric_action b s2 = Inr (s3, True)" "at c (Some (k, Open_Def ?d)) n s3"
          "current_value_list s3 = [high, low]" by (auto simp: a(3))
      show ?thesis unfolding run using b(2)
        by (simp add: Range_Values a(1) low Some b(1,3) at_sym [OF b(2)])
          (simp add: bounds_mode_def set_mode_def zero_paramdef_def at_def)
    qed
  qed
next
  case (Generate_Values f ids)
  let ?d = "set_mode (PARAM_MODE_GENERATED f []) (SYM_TYPE_PARAM zero_paramdef)"
  let ?s1 = "s\<lparr>current_sym := Some (k, Open_Def ?d), current_ident_list := []\<rparr>"
  have s1: "at c (Some (k, Open_Def ?d)) n ?s1" using assms(1) by (simp add: at_def)
  show ?thesis
  proof (cases "all_of (resolve es) ids")
    case None
    with idents_cases [OF s1 assms(2), of ids] show ?thesis
      by (simp add: Generate_Values at_sym [OF assms(1)])
  next
    case (Some rs)
    with idents_cases [OF s1 assms(2), of ids] obtain s2 where
      s2: "seq_map ident_action ids ?s1 = Inr (s2, True)" "at c (Some (k, Open_Def ?d)) n s2"
        "current_ident_list s2 = rev rs" by auto
    show ?thesis using s2(2)
      by (simp add: Generate_Values at_sym [OF assms(1)] Some s2(1,3) at_sym [OF s2(2)] reverse_loop_rev
          ident_list_create_symbol_array_def Let_def) (simp add: at_def set_mode_def zero_paramdef_def)
  qed
qed

lemma parse_parameter_cases:
  assumes "at c cs n s" and "symbol_table c = Some es"
  shows "case Option.bind (mode_meaning es pv) (\<lambda>pd. add_entry es k (SYM_TYPE_PARAM pd)) of
      Some es' \<Rightarrow> \<exists>s' cs'. parse_parameter k pv s = Inr (s', True) \<and> at (c\<lparr>symbol_table := Some es'\<rparr>) cs' n s'
    | None \<Rightarrow> went_wrong n (parse_parameter k pv s)"
proof -
  let ?s1 = "open_symbol k (Open_Def (SYM_TYPE_PARAM zero_paramdef)) s"
  have s1: "at c (Some (k, Open_Def (SYM_TYPE_PARAM zero_paramdef))) n ?s1" using assms(1) by (rule at_open)
  show ?thesis
  proof (cases "mode_meaning es pv")
    case None
    with parse_paramvalues_cases [OF s1 assms(2), of pv] show ?thesis by (simp add: parse_parameter_def)
  next
    case (Some pd)
    with parse_paramvalues_cases [OF s1 assms(2), of pv] obtain s2 where
      s2: "parse_paramvalues pv ?s1 = Inr (s2, True)" "at c (Some (k, Open_Def (SYM_TYPE_PARAM pd))) n s2" by auto
    with commit_cases [OF s2(2) assms(2), of "SYM_TYPE_PARAM pd"] show ?thesis
      by (auto simp: parse_parameter_def Some at_def split: option.splits)
  qed
qed

lemma ident_lines_cases:
  assumes "at c cs n s" and "symbol_table c = Some es"
  shows "case all_of (resolve es) (concat idss) of
      Some rs \<Rightarrow> \<exists>s'. seq_map (seq_map ident_action) idss s = Inr (s', True) \<and> at c cs n s'
         \<and> current_ident_list s' = rev rs @ current_ident_list s
    | None \<Rightarrow> went_wrong n (seq_map (seq_map ident_action) idss s)"
proof -
  have eq: "seq_map (seq_map ident_action) idss = seq_map ident_action (concat idss)" for idss
  proof (induction idss)
    case (Cons ids idss)
    have "seq_map ident_action (ids @ zs) = then_do (seq_map ident_action ids) (seq_map ident_action zs)" for zs
      by (induction ids) (auto simp: fun_eq_iff then_do_def act_ok_def rbind_def split: sum.splits prod.splits)
    with Cons.IH show ?case by simp
  qed simp
  show ?thesis unfolding eq by (rule idents_cases [OF assms])
qed

lemma finish_pgroup_cases:
  assumes "at c (Some (k, Open_Def d)) n s" and "symbol_table c = Some es" and "current_ident_list s = rev rs"
  shows "case add_entry es k (SYM_TYPE_PGROUP (Some \<lparr>pgroup_params_syms = rs\<rparr>)) of
      Some es' \<Rightarrow> \<exists>s' cs'. finish_pgroup s = Inr (s', True) \<and> at (c\<lparr>symbol_table := Some es'\<rparr>) cs' n s'
    | None \<Rightarrow> went_wrong n (finish_pgroup s)"
proof -
  let ?d = "SYM_TYPE_PGROUP (Some \<lparr>pgroup_params_syms = rs\<rparr>)"
  let ?s1 = "s\<lparr>current_sym := Some (k, Open_Def ?d), current_ident_list := []\<rparr>"
  have s1: "at c (Some (k, Open_Def ?d)) n ?s1" using assms(1) by (simp add: at_def)
  have "finish_pgroup s = commit ?s1"
    using assms(3) by (simp add: finish_pgroup_def at_sym [OF assms(1)] ident_list_create_symbol_array_def
        reverse_loop_rev Let_def)
  with commit_cases [OF s1 assms(2), of ?d] s1 show ?thesis by (auto simp: at_def split: option.splits)
qed

lemma parse_pgroup_cases:
  assumes "at c cs n s" and "symbol_table c = Some es"
  shows "case section_meaning es left (Sec_Pgroup k idss) of
      Some es' \<Rightarrow> \<exists>s' cs'. parse_pgroup k idss s = Inr (s', True) \<and> at (c\<lparr>symbol_table := Some es'\<rparr>) cs' n s'
    | None \<Rightarrow> went_wrong n (parse_pgroup k idss s)"
proof -
  let ?d = "Open_Def (SYM_TYPE_PGROUP (Some \<lparr>pgroup_params_syms = []\<rparr>))"
  have s1: "at c (Some (k, ?d)) n (open_pgroup k s)" using assms(1) by (simp add: open_pgroup_def at_open)
  show ?thesis
  proof (cases "all_of (resolve es) (concat idss)")
    case None
    with ident_lines_cases [OF s1 assms(2), of idss] show ?thesis by (simp add: parse_pgroup_def)
  next
    case (Some rs)
    with ident_lines_cases [OF s1 assms(2), of idss] obtain s2 where
      s2: "seq_map (seq_map ident_action) idss (open_pgroup k s) = Inr (s2, True)" "at c (Some (k, ?d)) n s2"
        "current_ident_list s2 = rev rs" by (auto simp: open_pgroup_def)
    with finish_pgroup_cases [OF s2(2) assms(2) s2(3)] show ?thesis
      by (simp add: parse_pgroup_def Some split: option.splits)
  qed
qed

lemma parse_fix_cases:
  assumes "at c (Some (k, Open_Def d)) n s" and "symbol_table c = Some es"
  shows "case fix_meaning es f of
      Some x \<Rightarrow> \<exists>s'. parse_fix f s = Inr (s', True) \<and> at c (Some (k, Open_Def d)) n s'
         \<and> current_setting_list s' = x # current_setting_list s
    | None \<Rightarrow> went_wrong n (parse_fix f s)"
proof (cases "resolve es (fst f)")
  case None
  then show ?thesis using assms(1)
    by (simp add: parse_fix_def fix_meaning_def at_config [OF assms(1)] lookup_table [OF assms(2)])
next
  case (Some r)
  let ?s1 = "push_setting (TEST_SETTING_FIX \<lparr>fix_param = r, fix_value = None\<rparr>) (s\<lparr>current_value_list := []\<rparr>)"
  have s1: "at c (Some (k, Open_Def d)) n ?s1" using assms(1) by simp
  show ?thesis
  proof (cases "value_meaning es (snd f)")
    case None
    with value_action_cases [OF s1 assms(2), of "snd f"] Some show ?thesis
      by (simp add: parse_fix_def fix_meaning_def at_config [OF assms(1)] lookup_table [OF assms(2)])
  next
    case v: (Some v)
    with value_action_cases [OF s1 assms(2), of "snd f"]
    have "value_action (snd f) ?s1 = take_value v ?s1" by simp
    with take_value_def_sym [OF s1, of v] s1 obtain s2 where
      s2: "value_action (snd f) ?s1 = Inr (s2, True)" "at c (Some (k, Open_Def d)) n s2" "current_value_list s2 = [v]"
        "current_setting_list s2 = current_setting_list ?s1"
      by (auto simp: push_setting_def at_def)
    show ?thesis using s2(2)
      by (simp add: parse_fix_def fix_meaning_def at_config [OF assms(1)] lookup_table [OF assms(2)] Some v s2(1)
          write_head_def list_head_def s2(3,4))
  qed
qed

lemma parse_test_line_cases:
  assumes "at c (Some (k, Open_Def d)) n s" and "symbol_table c = Some es"
  shows "case line_meaning es l of
      Some x \<Rightarrow> \<exists>s'. parse_test_line l s = Inr (s', True) \<and> at c (Some (k, Open_Def d)) n s'
         \<and> current_setting_list s' = x # current_setting_list s
    | None \<Rightarrow> went_wrong n (parse_test_line l s)"
proof (cases l)
  case (Line_Params ids)
  let ?s1 = "push_setting (TEST_SETTING_PARAMLIST (Some \<lparr>pgroup_params_syms = []\<rparr>)) (s\<lparr>current_ident_list := []\<rparr>)"
  have s1: "at c (Some (k, Open_Def d)) n ?s1" using assms(1) by simp
  have settings: "seq_map ident_action ids s = Inr (s', ok) \<Longrightarrow> current_setting_list s' = current_setting_list s \<or> \<not> ok"
    for s s' ok
    by (induction ids arbitrary: s) (auto simp: then_do_def ident_action_def act_ok_def fail_def split: option.splits)
  show ?thesis
  proof (cases "all_of (resolve es) ids")
    case None
    with idents_cases [OF s1 assms(2), of ids] show ?thesis by (simp add: Line_Params)
  next
    case (Some rs)
    with idents_cases [OF s1 assms(2), of ids] obtain s2 where
      s2: "seq_map ident_action ids ?s1 = Inr (s2, True)" "at c (Some (k, Open_Def d)) n s2"
        "current_ident_list s2 = rev rs" by (auto simp: push_setting_def)
    with settings have "current_setting_list s2 = current_setting_list ?s1" by blast
    with s2 show ?thesis
      by (simp add: Line_Params Some write_head_def ident_list_create_symbol_array_def reverse_loop_rev Let_def
          push_setting_def)
  qed
next
  case (Line_Pgroup g)
  with assms(1) show ?thesis
    by (auto simp: at_config [OF assms(1)] lookup_table [OF assms(2)] push_setting_def split: option.splits)
next
  case (Line_Fix p t)
  with parse_fix_cases [OF assms, of "(p, t)"] show ?thesis by (simp split: option.splits)
qed

text \<open>The settings of a test are stored in the order of its lines; a test without lines has none.\<close>

lemma parse_test_cases:
  assumes "at c cs n s" and "symbol_table c = Some es"
  shows "case section_meaning es left (Sec_Test k ls) of
      Some es' \<Rightarrow> \<exists>s' cs'. parse_test k ls s = Inr (s', True) \<and> at (c\<lparr>symbol_table := Some es'\<rparr>) cs' n s'
    | None \<Rightarrow> went_wrong n (parse_test k ls s)"
proof -
  let ?d = "Open_Def (SYM_TYPE_TEST empty_testdef)"
  let ?s1 = "(open_symbol k ?d s)\<lparr>current_setting_list := []\<rparr>"
  have s1: "at c (Some (k, ?d)) n ?s1" using assms(1) by (simp add: at_open)
  have lines: "case all_of (line_meaning es) ls of
      Some ys \<Rightarrow> \<exists>s'. seq_map parse_test_line ls ?s1 = Inr (s', True) \<and> at c (Some (k, ?d)) n s'
        \<and> current_setting_list s' = rev ys @ current_setting_list ?s1
    | None \<Rightarrow> went_wrong n (seq_map parse_test_line ls ?s1)"
    by (rule seq_map_cases [OF parse_test_line_cases [OF _ assms(2)] s1])
  show ?thesis
  proof (cases "all_of (line_meaning es) ls")
    case None
    with lines show ?thesis by (simp add: parse_test_def)
  next
    case (Some ss)
    with lines obtain s2 where s2: "seq_map parse_test_line ls ?s1 = Inr (s2, True)" "at c (Some (k, ?d)) n s2"
        "current_setting_list s2 = rev ss" by auto
    let ?t = "SYM_TYPE_TEST (empty_testdef\<lparr>settings := map Some ss\<rparr>)"
    have "\<exists>s3. (if current_setting_list s2 = [] then Inr (s2, True) else finish_test_settings s2) = Inr (s3, True)
        \<and> at c (Some (k, Open_Def ?t)) n s3"
    proof (cases "ss = []")
      case True
      with s2(2,3) show ?thesis by (simp add: empty_testdef_def)
    next
      case False
      with s2(2,3) show ?thesis
        by (simp add: finish_test_settings_def at_sym [OF s2(2)] settinglist_create_setting_array_def
            reverse_loop_rev Let_def at_set_sym)
    qed
    then obtain s3 where s3: "at c (Some (k, Open_Def ?t)) n s3" and "parse_test k ls s = commit s3"
      using s2(1) by (auto simp: parse_test_def)
    with commit_cases [OF s3 assms(2), of ?t] show ?thesis
      by (auto simp: Some at_def split: option.splits)
  qed
qed

lemma lookup_keys_names:
  "symbol_table c = Some es \<Longrightarrow> lookup_keys_loop c vs = all_of (name_meaning es) vs"
  by (induction vs) (auto simp: all_of_def name_meaning_def lookup_table split: option.splits boxed_value.splits)

lemma all_of_Some: "all_of (\<lambda>x. Some (g x)) xs = Some (map g xs)"
  by (induction xs) (simp_all add: all_of_def)

lemma those_append:
  "those (as @ bs) = (case those as of None \<Rightarrow> None | Some ys \<Rightarrow> map_option ((@) ys) (those bs))"
proof (induction as)
  case Nil
  show ?case by (cases "those bs") simp_all
next
  case (Cons a as)
  then show ?case by (cases a; cases "those as"; cases "those bs") simp_all
qed

lemma all_of_rev: "all_of f (rev xs) = map_option rev (all_of f xs)"
proof (induction xs)
  case Nil
  show ?case by (simp add: all_of_def)
next
  case (Cons x xs)
  then show ?case
    by (cases "f x"; cases "those (map f xs)") (simp_all add: all_of_def those_append flip: rev_map)
qed

section \<open>The values left over\<close>

lemma then_do_True: "then_do a b s = Inr (s', True) \<longleftrightarrow> (\<exists>s1. a s = Inr (s1, True) \<and> b s1 = Inr (s', True))"
  by (auto simp: then_do_def rbind_eq_Inr split: if_splits)

lemma commit_left: "commit s = Inr (s', True) \<Longrightarrow> current_value_list s' = current_value_list s"
  by (auto simp: commit_def commit_current_symbol_def rbind_eq_Inr Let_def split: option.splits)

lemma write_def_left: "write_def f s = Inr (s', True) \<Longrightarrow> current_value_list s' = current_value_list s"
  by (auto simp: write_def_def set_definition_def rbind_eq_Inr split: option.splits open_def.splits)

lemma write_head_left: "write_head f s = Inr (s', True) \<Longrightarrow> current_value_list s' = current_value_list s"
  by (auto simp: write_head_def split: list.splits)

lemma idents_left: "seq_map ident_action ids s = Inr (s', True) \<Longrightarrow> current_value_list s' = current_value_list s"
  by (induction ids arbitrary: s) (auto simp: then_do_True ident_action_def act_ok_def fail_def split: option.splits)

lemma ident_lines_left:
  "seq_map (seq_map ident_action) idss s = Inr (s', True) \<Longrightarrow> current_value_list s' = current_value_list s"
  by (induction idss arbitrary: s) (auto simp: then_do_True act_ok_def dest!: idents_left)

lemmas left_frame = commit_left write_def_left write_head_left idents_left ident_lines_left

lemma parse_fix_left: "parse_fix f s = Inr (s', True) \<Longrightarrow> current_value_list s' = []"
  by (auto simp: parse_fix_def then_do_True fail_def split: option.splits)

lemma fixes_left:
  "seq_map parse_fix fs s = Inr (s', True) \<Longrightarrow> current_value_list s' = (if fs = [] then current_value_list s else [])"
  by (induction fs arbitrary: s) (auto simp: then_do_True act_ok_def dest!: parse_fix_left split: if_splits)

lemma test_line_left:
  "parse_test_line l s = Inr (s', True) \<Longrightarrow> current_value_list s' = (if is_fix l then [] else current_value_list s)"
  by (cases l) (auto simp: then_do_True push_setting_def ident_list_create_symbol_array_def Let_def fail_def
      dest!: left_frame parse_fix_left split: option.splits)

lemma test_lines_left:
  "seq_map parse_test_line ls s = Inr (s', True) \<Longrightarrow>
    current_value_list s' = (if list_ex is_fix ls then [] else current_value_list s)"
  by (induction ls arbitrary: s) (auto simp: then_do_True act_ok_def dest!: test_line_left split: if_splits)

lemma parameter_left:
  "parse_parameter k pv s = Inr (s', True) \<Longrightarrow>
    current_value_list s' = (case pv of Generate_Values f ids \<Rightarrow> current_value_list s | _ \<Rightarrow> [])"
  by (cases pv) (auto simp: parse_parameter_def then_do_True open_symbol_def dest!: left_frame simp del: seq_map.simps)

lemma pgroup_left: "parse_pgroup k idss s = Inr (s', True) \<Longrightarrow> current_value_list s' = current_value_list s"
  by (auto simp: parse_pgroup_def finish_pgroup_def open_pgroup_def then_do_True open_symbol_def dest!: left_frame)

lemma test_left:
  "parse_test k ls s = Inr (s', True) \<Longrightarrow>
    current_value_list s' = (if list_ex is_fix ls then [] else current_value_list s)"
  by (auto simp: parse_test_def finish_test_settings_def then_do_True open_symbol_def dest!: left_frame test_lines_left
      split: if_splits)

lemma testset_left: "parse_testset k fs ex ts s = Inr (s', True) \<Longrightarrow> current_value_list s' = []"
  by (auto simp: parse_testset_def finish_testset_def then_do_True fail_def dest!: left_frame split: if_splits)

lemma parse_testset_cases:
  assumes "at c cs n s" and "symbol_table c = Some es"
  shows "case section_meaning es (current_value_list s) (Sec_Testset k fs ex ts) of
      Some es' \<Rightarrow> \<exists>s' cs'. parse_testset k fs ex ts s = Inr (s', True)
        \<and> at (c\<lparr>symbol_table := Some es'\<rparr>) cs' n s'
    | None \<Rightarrow> went_wrong n (parse_testset k fs ex ts s)"
proof -
  let ?d = "Open_Def (SYM_TYPE_TESTSET zero_testsetdef)"
  let ?s1 = "(open_symbol k ?d s)\<lparr>current_setting_list := []\<rparr>"
  let ?left = "names_before ex fs (current_value_list s)"
  let ?names = "rev ?left @ map Boxed_String ts"
  have s1: "at c (Some (k, ?d)) n ?s1" using assms(1) by (simp add: at_open)
  have fxs: "case all_of (fix_meaning es) fs of
      Some ys \<Rightarrow> \<exists>s'. seq_map parse_fix fs ?s1 = Inr (s', True) \<and> at c (Some (k, ?d)) n s'
        \<and> current_setting_list s' = rev ys @ current_setting_list ?s1
    | None \<Rightarrow> went_wrong n (seq_map parse_fix fs ?s1)"
    by (rule seq_map_cases [OF parse_fix_cases [OF _ assms(2)] s1])
  show ?thesis
  proof (cases "all_of (fix_meaning es) fs")
    case None
    with fxs show ?thesis by (simp add: parse_testset_def)
  next
    case (Some ss)
    with fxs obtain s2 where s2: "seq_map parse_fix fs ?s1 = Inr (s2, True)" "at c (Some (k, ?d)) n s2"
        "current_setting_list s2 = rev ss" by auto
    have left2: "current_value_list s2 = (if fs = [] then current_value_list s else [])"
      using fixes_left [OF s2(1)] by (simp add: open_symbol_def)
    let ?t = "zero_testsetdef\<lparr>ts_settings := map Some ss, exec_type := ex\<rparr>"
    let ?s3 = "open_testlist ex (s2\<lparr>current_setting_list := [], current_ident_list := [],
      current_sym := Some (k, Open_Def (SYM_TYPE_TESTSET ?t))\<rparr>)"
    have s3: "at c (Some (k, Open_Def (SYM_TYPE_TESTSET ?t))) n ?s3" and left3: "current_value_list ?s3 = ?left"
      using s2(2) left2 by (cases ex; simp add: at_def open_testlist_def names_before_def)+
    have run3: "parse_testset k fs ex ts s = finish_testset ts ?s3"
      by (simp add: parse_testset_def s2(1,3) at_sym [OF s2(2)] settinglist_create_setting_array_def
          reverse_loop_rev Let_def)
    have "case all_of (\<lambda>m. Some (Boxed_String m)) ts of
        Some ys \<Rightarrow> \<exists>s'. seq_map (\<lambda>m. take_value (boxed_value_new_string m)) ts ?s3 = Inr (s', True)
          \<and> at c (Some (k, Open_Def (SYM_TYPE_TESTSET ?t))) n s' \<and> current_value_list s' = rev ys @ current_value_list ?s3
      | None \<Rightarrow> went_wrong n (seq_map (\<lambda>m. take_value (boxed_value_new_string m)) ts ?s3)"
      by (rule seq_map_cases [OF _ s3]) (simp add: take_value_def_sym boxed_value_new_defs)
    then obtain s4 where s4: "seq_map (\<lambda>m. take_value (boxed_value_new_string m)) ts ?s3 = Inr (s4, True)"
      "at c (Some (k, Open_Def (SYM_TYPE_TESTSET ?t))) n s4" "current_value_list s4 = rev ?names"
      by (auto simp: all_of_Some rev_map left3)
    have found: "identlist_lookup_from_boxed_keys (ps_config s4) (current_value_list s4)
        = (case all_of (name_meaning es) ?names of None \<Rightarrow> [] | Some rs \<Rightarrow> rev rs)"
      unfolding identlist_lookup_from_boxed_keys_def at_config [OF s4(2)] s4(3) lookup_keys_names [OF assms(2)] all_of_rev
      by (simp split: option.splits)
    let ?s5 = "s4\<lparr>current_ident_list := (case all_of (name_meaning es) ?names of None \<Rightarrow> [] | Some rs \<Rightarrow> rev rs),
      current_value_list := []\<rparr>"
    have s5: "at c (Some (k, Open_Def (SYM_TYPE_TESTSET ?t))) n ?s5" using s4(2) by simp
    show ?thesis
    proof (cases "case all_of (name_meaning es) ?names of None \<Rightarrow> True | Some rs \<Rightarrow> rs = []")
      case True
      with s5 have "went_wrong n (finish_testset ts ?s3)"
        by (auto simp: finish_testset_def s4(1) found simp del: rev_append split: option.splits)
      with True show ?thesis unfolding run3 by (auto simp: Some split: option.splits)
    next
      case False
      then obtain rs where rs: "all_of (name_meaning es) ?names = Some rs" "rs \<noteq> []" by (auto split: option.splits)
      let ?u = "SYM_TYPE_TESTSET \<lparr>exec_type = ex, ts_settings = map Some ss, ts_tests = rs\<rparr>"
      let ?s6 = "s4\<lparr>current_value_list := [], current_sym := Some (k, Open_Def ?u), current_ident_list := []\<rparr>"
      have s6: "at c (Some (k, Open_Def ?u)) n ?s6" using s4(2) by (simp add: at_def)
      have full: "zero_testsetdef\<lparr>ts_settings := map Some ss, exec_type := ex, ts_tests := rs\<rparr>
          = \<lparr>exec_type = ex, ts_settings = map Some ss, ts_tests = rs\<rparr>"
        by (simp add: zero_testsetdef_def)
      have "finish_testset ts ?s3 = commit ?s6"
        using rs(2) by (simp add: finish_testset_def s4(1) found rs(1) at_sym [OF s4(2)]
            ident_list_create_symbol_array_def reverse_loop_rev Let_def full)
      with commit_cases [OF s6 assms(2), of ?u] s6 rs show ?thesis
        unfolding run3 by (auto simp: Some at_def split: option.splits)
    qed
  qed
qed

section \<open>A whole configuration\<close>

lemma globals_append: "globals_meaning es gs = Some es' \<Longrightarrow> \<exists>zs. es' = es @ zs"
  by (induction gs arbitrary: es) (fastforce simp: bind_eq_Some_conv add_entry_def split: if_splits)+

text \<open>The value of each global is left in the list.\<close>

lemma parse_global_left:
  assumes "at c cs n s" and "symbol_table c = Some es" and "value_meaning es (snd g) = Some v"
    and "parse_global g s = Inr (s', True)"
  shows "current_value_list s' = v # current_value_list s"
proof -
  let ?s1 = "open_symbol (fst g) (Open_Value None) s"
  have "value_action (snd g) ?s1 = take_value v ?s1"
    using value_action_cases [OF at_open [OF assms(1)] assms(2), of "snd g"] assms(3) by simp
  then have "value_action (snd g) ?s1 = Inr (?s1\<lparr>current_sym := Some (fst g, Open_Value (Some v)),
      current_value_list := v # current_value_list s\<rparr>, True)"
    by (simp add: take_value_def open_symbol_def value_list_prepend_boxed_def)
  with assms(4) show ?thesis by (auto simp: parse_global_def then_do_True dest!: commit_left)
qed

lemma globals_left:
  assumes "at c cs n s" and "symbol_table c = Some es" and "globals_meaning es gs = Some es'"
    and "seq_map parse_global gs s = Inr (s', True)"
  shows "current_value_list s' = rev (global_values (drop (length es) es')) @ current_value_list s"
  using assms
proof (induction gs arbitrary: c cs s es)
  case Nil
  then show ?case by (simp add: act_ok_def global_values_def)
next
  case (Cons g gs)
  from Cons.prems(3) obtain v es1 where v: "value_meaning es (snd g) = Some v"
    and add: "add_entry es (fst g) (SYM_TYPE_BOXED_VALUE v) = Some es1" and rest: "globals_meaning es1 gs = Some es'"
    by (auto simp: bind_eq_Some_conv)
  from Cons.prems(4) obtain s1 where one: "parse_global g s = Inr (s1, True)" and
    more: "seq_map parse_global gs s1 = Inr (s', True)" by (auto simp: then_do_True)
  from parse_global_cases [OF Cons.prems(1,2), of g] v add one obtain cs1 where
    s1: "at (c\<lparr>symbol_table := Some es1\<rparr>) cs1 n s1" by auto
  have es1: "es1 = es @ [\<lparr>sym_key = fst g, sym_def = SYM_TYPE_BOXED_VALUE v\<rparr>]"
    using add by (simp add: add_entry_def split: if_splits)
  from globals_append [OF rest] obtain zs where "es' = es1 @ zs" by blast
  then show ?case
    using Cons.IH [OF s1 _ rest more] parse_global_left [OF Cons.prems(1,2) v one]
    by (simp add: es1 global_values_def)
qed

lemma section_left:
  assumes "at c cs n s" and "symbol_table c = Some es" and "section_meaning es left sec = Some es'"
    and "parse_section sec s = Inr (s', True)"
  shows "current_value_list s' = left_after es es' (current_value_list s) sec"
  using assms globals_left [OF assms(1,2)] parameter_left pgroup_left test_left testset_left
  by (cases sec) auto

lemma section_runs:
  assumes "at c cs n s" and "symbol_table c = Some es"
  shows "case section_meaning es (current_value_list s) sec of
      Some es' \<Rightarrow> \<exists>s' cs'. parse_section sec s = Inr (s', True) \<and> at (c\<lparr>symbol_table := Some es'\<rparr>) cs' n s'
    | None \<Rightarrow> went_wrong n (parse_section sec s)"
proof (cases sec)
  case (Sec_Globals gs)
  show ?thesis unfolding Sec_Globals parse_section.simps section_meaning.simps by (rule globals_cases [OF assms(1,2), of gs])
next
  case (Sec_Parameter k pv)
  show ?thesis unfolding Sec_Parameter parse_section.simps section_meaning.simps by (rule parse_parameter_cases [OF assms(1,2)])
next
  case (Sec_Pgroup k idss)
  show ?thesis unfolding Sec_Pgroup parse_section.simps section_meaning.simps by (rule parse_pgroup_cases [OF assms(1,2), of k idss, unfolded section_meaning.simps])
next
  case (Sec_Test k ls)
  show ?thesis unfolding Sec_Test parse_section.simps section_meaning.simps by (rule parse_test_cases [OF assms(1,2), of k ls, unfolded section_meaning.simps])
next
  case (Sec_Testset k fs ex ts)
  show ?thesis unfolding Sec_Testset parse_section.simps by (rule parse_testset_cases [OF assms(1,2)])
qed

lemma section_cases:
  assumes "at c cs n s" and "symbol_table c = Some es" and "current_value_list s = left"
  shows "case section_meaning es left sec of
      Some es' \<Rightarrow> \<exists>s' cs'. parse_section sec s = Inr (s', True) \<and> at (c\<lparr>symbol_table := Some es'\<rparr>) cs' n s'
        \<and> current_value_list s' = left_after es es' left sec
    | None \<Rightarrow> went_wrong n (parse_section sec s)"
  using section_runs [OF assms(1,2), of sec] section_left [OF assms(1,2), of left sec] assms(3)
  by (cases "section_meaning es left sec") auto

text \<open>Recovery never takes an error back.\<close>

definition keeps_errors :: "recovery \<Rightarrow> bool" where
  "keeps_errors recover \<longleftrightarrow> (\<forall>s secs s' ret. recover s secs = Inr (s', ret) \<longrightarrow> parse_errors s \<le> parse_errors s')"

lemma parse_input_cases:
  assumes "at c cs n s" and "symbol_table c = Some es" and "current_value_list s = left" and "keeps_errors recover"
  shows "case config_meaning es left secs of
      Some es' \<Rightarrow> \<exists>s' cs'. parse_input recover secs s = Inr (s', 0) \<and> at (c\<lparr>symbol_table := Some es'\<rparr>) cs' n s'
    | None \<Rightarrow> \<forall>s' ret. parse_input recover secs s = Inr (s', ret) \<longrightarrow> n < parse_errors s'"
  using assms
proof (induction secs arbitrary: c cs s es left)
  case Nil
  then show ?case by (cases c) auto
next
  case (Cons sec secs)
  show ?case
  proof (cases "section_meaning es left sec")
    case None
    with section_cases [OF Cons.prems(1-3), of sec] Cons.prems(4) show ?thesis
      by (auto simp: went_wrong_def keeps_errors_def) (meson less_le_trans)
  next
    case (Some es1)
    with section_cases [OF Cons.prems(1-3), of sec] obtain s1 cs1 where
      s1: "parse_section sec s = Inr (s1, True)" "at (c\<lparr>symbol_table := Some es1\<rparr>) cs1 n s1"
        "current_value_list s1 = left_after es es1 left sec" by auto
    with Cons.IH [OF s1(2) _ s1(3)] Cons.prems(4) show ?thesis
      by (auto simp: Some split: option.splits)
  qed
qed

end
