(* ===== verification/Config_Loaded.thy ===== *)
theory Config_Loaded
  imports Config_Meaning
begin

text \<open>
  Consequences for a configuration that was parsed: the table is well formed and refers backwards
  only, so that generated parameters end; and a test over parameters with constant values has the
  variants its lines say.
\<close>

section \<open>Well-formed tables\<close>

definition table_wf :: "symbol_table_entry list \<Rightarrow> bool" where
  "table_wf es \<longleftrightarrow> length es \<le> SYMBOL_TABLE_MAX \<and> distinct (map sym_key es)
     \<and> (\<forall>i<length es. \<forall>r\<in>set (symbol_refs (sym_def (es ! i))). r < i)"

lemma table_wf_Nil [simp]: "table_wf []"
  by (simp add: table_wf_def)

lemma resolve_less: "resolve es k = Some r \<Longrightarrow> r < length es"
  by (auto simp: resolve_def dest: sym_scan.scan_bound)

lemma resolve_key: "resolve es k = Some r \<Longrightarrow> sym_key (es ! r) = k"
  by (auto simp: resolve_def dest: sym_scan.scan_matches)

lemma resolve_None: "resolve es k = None \<longleftrightarrow> k \<notin> sym_key ` set es"
proof
  assume "resolve es k = None"
  then show "k \<notin> sym_key ` set es" by (auto simp: resolve_def dest: sym_scan.scan_None)
next
  assume "k \<notin> sym_key ` set es"
  then show "resolve es k = None" unfolding resolve_def by (intro sym_scan.scan_NoneI) auto
qed

lemma all_of_eq_Some: "all_of f xs = Some ys \<longleftrightarrow> list_all2 (\<lambda>x y. f x = Some y) xs ys"
proof (induction xs arbitrary: ys)
  case Nil
  show ?case by (auto simp: all_of_def)
next
  case (Cons x xs)
  then show ?case by (cases "f x"; cases ys) (auto simp: all_of_def)
qed

lemma all_of_mem: "all_of f xs = Some ys \<Longrightarrow> y \<in> set ys \<Longrightarrow> \<exists>x\<in>set xs. f x = Some y"
  by (auto simp: all_of_eq_Some list_all2_conv_all_nth in_set_conv_nth) (metis nth_mem)

lemma all_of_map: "(\<And>x. x \<in> set xs \<Longrightarrow> f x = Some (g x)) \<Longrightarrow> all_of f xs = Some (map g xs)"
  by (simp add: all_of_eq_Some list_all2_conv_all_nth)

lemma all_resolved: "all_of (resolve es) ks = Some rs \<Longrightarrow> r \<in> set rs \<Longrightarrow> r < length es"
  using all_of_mem [of "resolve es" ks rs r] by (auto dest: resolve_less)

lemma add_entry_wf:
  assumes "table_wf es" and "add_entry es k d = Some es'" and "\<forall>r\<in>set (symbol_refs d). r < length es"
  shows "table_wf es'"
  using assms
  by (auto simp: table_wf_def add_entry_def resolve_None nth_append less_Suc_eq split: if_splits)

lemma mode_refs: "mode_meaning es pv = Some pd \<Longrightarrow> r \<in> set (symbol_refs (SYM_TYPE_PARAM pd)) \<Longrightarrow> r < length es"
  by (cases pv) (auto split: option.splits if_splits dest: all_resolved)

lemma fix_refs: "fix_meaning es f = Some x \<Longrightarrow> r \<in> set (setting_refs (Some x)) \<Longrightarrow> r < length es"
  by (auto simp: fix_meaning_def split: option.splits dest: resolve_less)

lemma line_refs: "line_meaning es l = Some x \<Longrightarrow> r \<in> set (setting_refs (Some x)) \<Longrightarrow> r < length es"
  by (cases l) (auto dest: all_resolved resolve_less fix_refs)

lemma name_less: "name_meaning es v = Some r \<Longrightarrow> r < length es"
  by (auto simp: name_meaning_def split: boxed_value.splits dest: resolve_less)

lemma globals_wf: "table_wf es \<Longrightarrow> globals_meaning es gs = Some es' \<Longrightarrow> table_wf es'"
proof (induction gs arbitrary: es)
  case (Cons g gs)
  then obtain v es1 where "add_entry es (fst g) (SYM_TYPE_BOXED_VALUE v) = Some es1" "globals_meaning es1 gs = Some es'"
    by (auto simp: bind_eq_Some_conv)
  with Cons.IH add_entry_wf [OF Cons.prems(1)] show ?case by fastforce
qed simp

lemma section_wf: "table_wf es \<Longrightarrow> section_meaning es left sec = Some es' \<Longrightarrow> table_wf es'"
proof (cases sec)
  case (Sec_Pgroup k idss)
  assume "table_wf es" "section_meaning es left sec = Some es'"
  then obtain rs where rs: "all_of (resolve es) (concat idss) = Some rs"
      and "add_entry es k (SYM_TYPE_PGROUP (Some \<lparr>pgroup_params_syms = rs\<rparr>)) = Some es'"
    by (auto simp: Sec_Pgroup bind_eq_Some_conv)
  with \<open>table_wf es\<close> show ?thesis by (rule_tac add_entry_wf) (auto dest: all_resolved [OF rs])
next
  case (Sec_Test k ls)
  assume "table_wf es" "section_meaning es left sec = Some es'"
  then obtain ss where ss: "all_of (line_meaning es) ls = Some ss"
      and "add_entry es k (SYM_TYPE_TEST (empty_testdef\<lparr>settings := map Some ss\<rparr>)) = Some es'"
    by (auto simp: Sec_Test bind_eq_Some_conv)
  with \<open>table_wf es\<close> show ?thesis by (rule_tac add_entry_wf) (auto dest!: all_of_mem [OF ss] intro: line_refs)
next
  case (Sec_Testset k fs ex ts)
  assume "table_wf es" "section_meaning es left sec = Some es'"
  then obtain ss rs where ss: "all_of (fix_meaning es) fs = Some ss" and rs: "all_of (name_meaning es) (rev (names_before ex fs left) @ map Boxed_String ts) = Some rs"
      and "add_entry es k (SYM_TYPE_TESTSET \<lparr>exec_type = ex, ts_settings = map Some ss, ts_tests = rs\<rparr>) = Some es'"
    by (auto simp: Sec_Testset bind_eq_Some_conv split: if_splits)
  with \<open>table_wf es\<close> show ?thesis
    by (rule_tac add_entry_wf) (auto dest!: all_of_mem [OF ss] all_of_mem [OF rs] intro: fix_refs name_less)
qed (auto simp: bind_eq_Some_conv simp del: symbol_refs.simps(1)
    intro: add_entry_wf globals_wf mode_refs)

lemma config_wf: "table_wf es \<Longrightarrow> config_meaning es left secs = Some es' \<Longrightarrow> table_wf es'"
  by (induction secs arbitrary: es left) (auto simp: bind_eq_Some_conv dest: section_wf)

lemma table_wf_state:
  assumes "symbol_table c = Some es" and "table_wf es"
  shows "symtab_ok c" and "refs_ok c" and "backward_refs c"
proof -
  show "symtab_ok c" using assms by (simp add: symtab_ok_def table_wf_def)
  have "r < length es" if "i < length es" "r \<in> set (symbol_refs (sym_def (es ! i)))" for i r
    using assms(2) that less_trans unfolding table_wf_def by blast
  then show "refs_ok c" using assms(1) by (fastforce simp: refs_ok_def in_set_conv_nth [of _ es])
  show "backward_refs c"
    unfolding backward_refs_def
  proof (intro allI impI ballI)
    fix r e pd fname ps p
    assume "sym_at c r = Inr e" "sym_def e = SYM_TYPE_PARAM pd" "pd_mode pd = PARAM_MODE_GENERATED fname ps" "p \<in> set ps"
    then have "r < length es" "p \<in> set (symbol_refs (sym_def (es ! r)))"
      using assms(1) by (auto simp: sym_at_def nth_res_eq_Inr)
    with assms(2) show "p < r" by (simp add: table_wf_def)
  qed
qed

section \<open>Tests over constant parameters\<close>

text \<open>A parameter with its constants, and the settings of a test that uses some of them.\<close>

definition const_section :: "string \<times> value_token \<times> value_token list \<Rightarrow> config_section" where
  "const_section p = Sec_Parameter (fst p) (Const_Values (fst (snd p)) (snd (snd p)))"

definition literal :: "value_token \<Rightarrow> bool" where
  "literal t \<longleftrightarrow> value_meaning [] t \<noteq> None"

definition literal_value :: "value_token \<Rightarrow> boxed_value" where
  "literal_value t = the (value_meaning [] t)"

definition const_values :: "string \<times> value_token \<times> value_token list \<Rightarrow> boxed_value list" where
  "const_values p = map literal_value (fst (snd p) # snd (snd p))"

definition const_entry :: "string \<times> value_token \<times> value_token list \<Rightarrow> symbol_table_entry" where
  "const_entry p = \<lparr>sym_key = fst p, sym_def = SYM_TYPE_PARAM
     \<lparr>pd_type = CONFIG_PARAM_INT, pd_mode = PARAM_MODE_CONSTLIST (const_values p)\<rparr>\<rparr>"

definition literals :: "string \<times> value_token \<times> value_token list \<Rightarrow> bool" where
  "literals p \<longleftrightarrow> list_all literal (fst (snd p) # snd (snd p))"

lemma literal_meaning: "literal t \<Longrightarrow> value_meaning es t = Some (literal_value t)"
  by (cases t) (auto simp: literal_def literal_value_def resolve_def)

lemma consts_meaning:
  assumes "list_all literals ps" and "distinct (map sym_key es @ map fst ps)"
    and "length es + length ps \<le> SYMBOL_TABLE_MAX"
  shows "config_meaning es [] (map const_section ps @ secs) = config_meaning (es @ map const_entry ps) [] secs"
  using assms
proof (induction ps arbitrary: es)
  case (Cons p ps)
  have "all_of (value_meaning es) (fst (snd p) # snd (snd p)) = Some (const_values p)"
    unfolding const_values_def using Cons.prems(1)
    by (intro all_of_map literal_meaning) (auto simp: literals_def list_all_iff)
  moreover have "add_entry es (fst p) (sym_def (const_entry p)) = Some (es @ [const_entry p])"
    using Cons.prems(2,3) by (auto simp: add_entry_def resolve_None const_entry_def)
  ultimately have "section_meaning es [] (const_section p) = Some (es @ [const_entry p])"
    by (simp add: const_section_def const_entry_def)
  moreover have "left_after es (es @ [const_entry p]) [] (const_section p) = []" by (simp add: const_section_def)
  moreover have "config_meaning (es @ [const_entry p]) [] (map const_section ps @ secs)
      = config_meaning ((es @ [const_entry p]) @ map const_entry ps) [] secs"
    by (rule Cons.IH) (use Cons.prems in \<open>auto simp: const_entry_def\<close>)
  ultimately show ?case by simp
qed simp

text \<open>
  A test with one \<^verbatim>\<open>params\<close> line and some \<^verbatim>\<open>fix\<close> lines, and what each of its parameters can be.
\<close>

definition test_lines :: "string list \<Rightarrow> (string \<times> value_token) list \<Rightarrow> test_line list" where
  "test_lines ks fxs = Line_Params ks # map (\<lambda>f. Line_Fix (fst f) (snd f)) fxs"

definition fixed_or_varied ::
    "(string \<times> value_token \<times> value_token list) list \<Rightarrow> (string \<times> value_token) list \<Rightarrow> string \<Rightarrow> boxed_value list" where
  "fixed_or_varied ps fxs k = (case map_of fxs k of Some t \<Rightarrow> [literal_value t]
     | None \<Rightarrow> (case map_of (map (\<lambda>p. (fst p, const_values p)) ps) k of None \<Rightarrow> [] | Some vs \<Rightarrow> vs))"

definition ref_of :: "(string \<times> value_token \<times> value_token list) list \<Rightarrow> string \<Rightarrow> sym_ref" where
  "ref_of ps k = the (resolve (map const_entry ps) k)"

definition const_test :: "(string \<times> value_token \<times> value_token list) list \<Rightarrow> string list \<Rightarrow> (string \<times> value_token) list \<Rightarrow> testdef" where
  "const_test ps ks fxs = empty_testdef\<lparr>settings :=
     Some (TEST_SETTING_PARAMLIST (Some \<lparr>pgroup_params_syms = map (ref_of ps) ks\<rparr>))
     # map (\<lambda>f. Some (TEST_SETTING_FIX \<lparr>fix_param = ref_of ps (fst f), fix_value = Some (literal_value (snd f))\<rparr>)) fxs\<rparr>"

definition const_table :: "string \<Rightarrow> (string \<times> value_token \<times> value_token list) list \<Rightarrow> string list
    \<Rightarrow> (string \<times> value_token) list \<Rightarrow> symbol_table_entry list" where
  "const_table name ps ks fxs = map const_entry ps @ [\<lparr>sym_key = name, sym_def = SYM_TYPE_TEST (const_test ps ks fxs)\<rparr>]"

lemma const_entry_simps [simp]: "sym_key (const_entry p) = fst p"
  "sym_def (const_entry p) = SYM_TYPE_PARAM \<lparr>pd_type = CONFIG_PARAM_INT, pd_mode = PARAM_MODE_CONSTLIST (const_values p)\<rparr>"
  by (simp_all add: const_entry_def)

lemma ref_of:
  assumes "k \<in> fst ` set ps"
  shows "resolve (map const_entry ps) k = Some (ref_of ps k)" and "ref_of ps k < length ps"
    and "fst (ps ! ref_of ps k) = k"
proof -
  have "resolve (map const_entry ps) k \<noteq> None" using assms by (auto simp: resolve_None image_image)
  then show r: "resolve (map const_entry ps) k = Some (ref_of ps k)" by (auto simp: ref_of_def)
  from resolve_less [OF r] show less: "ref_of ps k < length ps" by simp
  from resolve_key [OF r] less show "fst (ps ! ref_of ps k) = k" by simp
qed

lemma const_table_meaning:
  assumes "list_all literals ps" and "list_all (\<lambda>f. literal (snd f)) fxs" and "distinct (name # map fst ps)"
    and "length ps < SYMBOL_TABLE_MAX" and "set ks \<union> fst ` set fxs \<subseteq> fst ` set ps"
  shows "config_meaning [] [] (map const_section ps @ [Sec_Test name (test_lines ks fxs)]) = Some (const_table name ps ks fxs)"
proof -
  let ?es = "map const_entry ps"
  have "config_meaning [] [] (map const_section ps @ [Sec_Test name (test_lines ks fxs)])
      = config_meaning ?es [] [Sec_Test name (test_lines ks fxs)]"
    using consts_meaning [OF assms(1), of "[]"] assms(3,4) by simp
  moreover have "all_of (line_meaning ?es) (test_lines ks fxs) =
      Some (map the (settings (const_test ps ks fxs)))"
  proof -
    have "all_of (resolve ?es) ks = Some (map (ref_of ps) ks)"
      by (rule all_of_map) (use assms(5) ref_of(1) in blast)
    moreover have "fix_meaning ?es f = Some (TEST_SETTING_FIX
        \<lparr>fix_param = ref_of ps (fst f), fix_value = Some (literal_value (snd f))\<rparr>)" if "f \<in> set fxs" for f
    proof -
      have "fst f \<in> fst ` set ps" "literal (snd f)" using assms(2,5) that by (auto simp: list_all_iff)
      then show ?thesis by (simp add: fix_meaning_def ref_of(1) literal_meaning)
    qed
    ultimately show ?thesis
      by (auto simp: all_of_eq_Some test_lines_def const_test_def list_all2_map1 list_all2_map2 list_all2_same)
  qed
  moreover have "map (\<lambda>x. Some (the x)) (settings (const_test ps ks fxs)) = settings (const_test ps ks fxs)"
    by (simp add: const_test_def)
  then have "empty_testdef\<lparr>settings := map Some (map the (settings (const_test ps ks fxs)))\<rparr> = const_test ps ks fxs"
    by (simp add: const_test_def comp_def)
  moreover have "add_entry ?es name d = Some (?es @ [\<lparr>sym_key = name, sym_def = d\<rparr>])" for d
    using assms(3,4) by (simp add: add_entry_def resolve_None image_image)
  ultimately show ?thesis by (simp add: const_table_def)
qed

section \<open>Its variants\<close>

lemma fixed_loop_values:
  assumes "\<And>f. f \<in> set fxs \<Longrightarrow> \<exists>e. sym_at st (r f) = Inr e \<and> sym_key e = fst f"
  shows "fixed_loop st k (map r fxs) (map (v \<circ> snd) fxs) = Inr (map_option v (map_of fxs k))"
  using assms by (induction fxs) fastforce+

lemma collect_fixes:
  "collect_loop st (map (\<lambda>f. Some (TEST_SETTING_FIX \<lparr>fix_param = r f, fix_value = Some (v f)\<rparr>)) fxs) (ps, fs, vs)
     = Inr (Inr (ps, rev (map r fxs) @ fs, rev (map v fxs) @ vs))"
  by (induction fxs arbitrary: fs vs) simp_all

lemma const_table_variants:
  assumes st: "symbol_table st = Some (const_table name ps ks fxs)"
    and "distinct (name # map fst ps)" and sub: "set ks \<union> fst ` set fxs \<subseteq> fst ` set ps"
    and fits: "table_fits (map (\<lambda>k. length (fixed_or_varied ps fxs k)) ks)"
  shows "config_generate_test_variations gen fuel st name CONFIG_VARIATION_COMBINATIONS
     = Inr (odometer (map (fixed_or_varied ps fxs) ks))"
proof -
  let ?r = "ref_of ps"
  have at: "sym_at st (?r k) = Inr (const_entry (ps ! ?r k))" if "k \<in> fst ` set ps" for k
    using ref_of(2) [OF that] by (simp add: sym_at_def st const_table_def nth_append)
  have look: "symbol_table_lookup st name = Some (length ps)"
    using assms(2) by (auto simp: symbol_table_lookup_def st const_table_def nth_append intro!: sym_scan.scan_eqI)
  have test: "sym_at st (length ps) = Inr \<lparr>sym_key = name, sym_def = SYM_TYPE_TEST (const_test ps ks fxs)\<rparr>"
    by (simp add: sym_at_def st const_table_def nth_append)
  have coll: "collect_test_params st name = Inr (Inr (map ?r ks, map (?r \<circ> fst) fxs, map (literal_value \<circ> snd) fxs))"
    by (simp add: collect_test_params_def look test const_test_def add_pgroup_def reverse_loop_rev collect_fixes
        comp_def rev_map)
  have one: "param_values gen fuel st CONFIG_VARIATION_COMBINATIONS (map (?r \<circ> fst) fxs) (map (literal_value \<circ> snd) fxs)
      (?r k) = Inr \<lparr>tp_param = ?r k, tp_values = fixed_or_varied ps fxs k\<rparr>" if k: "k \<in> set ks" for k
  proof -
    have kp: "k \<in> fst ` set ps" using sub k by blast
    have "fixed_loop st k (map (?r \<circ> fst) fxs) (map (literal_value \<circ> snd) fxs) = Inr (map_option literal_value (map_of fxs k))"
    proof (rule fixed_loop_values)
      fix f assume "f \<in> set fxs"
      then have "fst f \<in> fst ` set ps" using sub by blast
      from at [OF this] ref_of(3) [OF this] show "\<exists>e. sym_at st ((?r \<circ> fst) f) = Inr e \<and> sym_key e = fst f" by simp
    qed
    then have "get_fixed_param_value st (?r k) (map (?r \<circ> fst) fxs) (map (literal_value \<circ> snd) fxs)
        = Inr (map_option literal_value (map_of fxs k))"
      by (auto simp: get_fixed_param_value_def at [OF kp] ref_of(3) [OF kp])
    moreover have "map_of (map (\<lambda>p. (fst p, const_values p)) ps) k = Some (const_values (ps ! ?r k))"
    proof (rule map_of_is_SomeI)
      show "distinct (map fst (map (\<lambda>p. (fst p, const_values p)) ps))" using assms(2) by (simp add: comp_def)
      have "(fst (ps ! ?r k), const_values (ps ! ?r k)) \<in> set (map (\<lambda>p. (fst p, const_values p)) ps)"
        using nth_mem [OF ref_of(2) [OF kp]] by simp
      then show "(k, const_values (ps ! ?r k)) \<in> set (map (\<lambda>p. (fst p, const_values p)) ps)"
        unfolding ref_of(3) [OF kp] .
    qed
    moreover have "generate_variations gen fuel st (?r k) CONFIG_VARIATION_COMBINATIONS = Inr (const_values (ps ! ?r k))"
      by (simp add: generate_variations_constlist [OF at [OF kp]] generate_constlist_variations_values)
    ultimately show ?thesis by (auto simp: param_values_def fixed_or_varied_def split: option.splits)
  qed
  have "rmap (\<lambda>k. param_values gen fuel st CONFIG_VARIATION_COMBINATIONS (map (?r \<circ> fst) fxs) (map (literal_value \<circ> snd) fxs)
      (?r k)) ks = Inr (map (\<lambda>k. \<lparr>tp_param = ?r k, tp_values = fixed_or_varied ps fxs k\<rparr>) ks)"
    by (rule rmap_total) (rule one)
  moreover have "fixed_or_varied ps fxs k \<noteq> []" if k: "k \<in> set ks" for k
  proof -
    have "k \<in> fst ` set ps" using sub k by blast
    then have "map_of (map (\<lambda>p. (fst p, const_values p)) ps) k \<noteq> None" by (simp add: map_of_eq_None_iff image_image)
    then obtain vs where vs: "map_of (map (\<lambda>p. (fst p, const_values p)) ps) k = Some vs" by blast
    from map_of_SomeD [OF this] have "vs \<noteq> []" by (auto simp: const_values_def)
    with vs show ?thesis by (simp add: fixed_or_varied_def split: option.splits)
  qed
  then have "[] \<notin> fixed_or_varied ps fxs ` set ks" by (metis imageE)
  ultimately show ?thesis
    using all_variants_fits [of "map (\<lambda>k. \<lparr>tp_param = ?r k, tp_values = fixed_or_varied ps fxs k\<rparr>) ks"] fits
    by (auto simp: config_generate_test_variations_def coll comp_def image_image)
qed

section \<open>The parser's entry point\<close>

lemma parser_start_cases:
  assumes "symbol_table c = Some es" and "keeps_errors recover"
  shows "case config_meaning es [] secs of
      Some es' \<Rightarrow> parser_start recover secs c = Inr (c\<lparr>symbol_table := Some es'\<rparr>, 0)
    | None \<Rightarrow> \<forall>c' ret. parser_start recover secs c = Inr (c', ret) \<longrightarrow> ret \<noteq> 0"
proof -
  have start: "at c None 0 (initial_parser c)" and left: "current_value_list (initial_parser c) = []"
    by (simp_all add: at_def initial_parser_def)
  from parse_input_cases [OF start assms(1) left assms(2), of secs] show ?thesis
    by (auto simp: parser_start_def at_def rbind_def split: option.splits sum.splits)
qed

text \<open>Success does not depend on what the recovery does.\<close>

lemma parser_start_ok:
  assumes "symbol_table c = Some es" and "config_meaning es [] secs = Some es'"
  shows "parser_start recover secs c = Inr (c\<lparr>symbol_table := Some es'\<rparr>, 0)"
proof -
  have "parse_input recover secs s = Inr (s', 0) \<and> at (c\<lparr>symbol_table := Some es'\<rparr>) cs' 0 s'"
    if "at c cs 0 s" "parse_input (\<lambda>s _. Inr (s, 1)) secs s = Inr (s', 0)" "at (c\<lparr>symbol_table := Some es'\<rparr>) cs' 0 s'"
    for cs cs' s s'
  proof -
    have "parse_input recover secs s = Inr (s', 0)" using that(2)
      by (induction secs arbitrary: s) (auto simp: rbind_eq_Inr split: if_splits)
    with that(3) show ?thesis by simp
  qed
  moreover have start: "at c None 0 (initial_parser c)" by (simp add: at_def initial_parser_def)
  moreover have "current_value_list (initial_parser c) = []" by (simp add: initial_parser_def)
  moreover have "keeps_errors (\<lambda>s _. Inr (s, 1))" by (simp add: keeps_errors_def)
  from parse_input_cases [OF start assms(1) \<open>current_value_list (initial_parser c) = []\<close> this, of secs] assms(2)
  have "\<exists>s' cs'. parse_input (\<lambda>s _. Inr (s, 1)) secs (initial_parser c) = Inr (s', 0)
      \<and> at (c\<lparr>symbol_table := Some es'\<rparr>) cs' 0 s'" by simp
  ultimately show ?thesis by (auto simp: parser_start_def at_def)
qed

end
