(* ===== verification/Event_Loop.thy ===== *)
theory Event_Loop
  imports C_Text "HOL-Library.Multiset"
begin

text \<open>
  The event loop of the WLAN tests, \<^verbatim>\<open>blts-wlan-core/src/wlan-core-eloop.c\<close>: timeouts in a list sorted by
  time, sockets and signals in arrays. Handlers are known by identity; what they do to the loop and to
  the rest of the world is an argument, so they may register and cancel anything. What the system
  calls give in one pass of the loop is a \<open>wakeup\<close>. Signals that arrive between two calls of \<^verbatim>\<open>select\<close>
  are counted with the later one. Socket numbers are below \<^verbatim>\<open>FD_SETSIZE\<close>.
\<close>

section \<open>Times\<close>

record timeval =
  t_sec :: int
  t_usec :: int

definition USEC :: int where "USEC = 1000000"

definition timercmp_less :: "timeval \<Rightarrow> timeval \<Rightarrow> bool" where
  "timercmp_less a b = (if t_sec a = t_sec b then t_usec a < t_usec b else t_sec a < t_sec b)"

definition timersub :: "timeval \<Rightarrow> timeval \<Rightarrow> timeval" where
  "timersub a b = (let s = t_sec a - t_sec b; u = t_usec a - t_usec b
     in if u < 0 then \<lparr>t_sec = s - 1, t_usec = u + USEC\<rparr> else \<lparr>t_sec = s, t_usec = u\<rparr>)"

text \<open>The loop that carries microseconds into seconds.\<close>

function usec_carry :: "int \<Rightarrow> int \<Rightarrow> timeval" where
  "usec_carry sec usec = (if usec \<ge> 1000000 then usec_carry (sec + 1) (usec - 1000000)
     else \<lparr>t_sec = sec, t_usec = usec\<rparr>)"
  by pat_completeness auto
termination by (relation "measure (\<lambda>(sec, usec). nat usec)") auto

declare usec_carry.simps [simp del]

section \<open>The loop's data\<close>

text \<open>Contexts are addresses; the magic one stands for all.\<close>

type_synonym ctx = "64 word"

definition ELOOP_ALL_CTX :: ctx where "ELOOP_ALL_CTX = - 1"

record eloop_sock =
  rd_sock :: int
  rd_eloop_data :: ctx
  rd_user_data :: ctx
  rd_handler :: nat

record eloop_timeout =
  to_time :: timeval
  to_eloop_data :: ctx
  to_user_data :: ctx
  to_handler :: nat

text \<open>The counters are C integers of 32 bits.\<close>

record eloop_signal =
  sg_sig :: int
  sg_user_data :: ctx
  sg_handler :: nat
  sg_signaled :: "32 word"

record eloop_data =
  el_user_data :: ctx
  max_sock :: int
  readers :: "eloop_sock list"
  timeouts :: "eloop_timeout list"
  signals :: "eloop_signal list"
  el_signaled :: "32 word"
  terminate :: bool

definition eloop_init :: "ctx \<Rightarrow> eloop_data" where
  "eloop_init user_data = \<lparr>el_user_data = user_data, max_sock = 0, readers = [], timeouts = [], signals = [],
     el_signaled = 0, terminate = False\<rparr>"

section \<open>Registration\<close>

definition eloop_register_read_sock :: "bool \<Rightarrow> int \<Rightarrow> nat \<Rightarrow> ctx \<Rightarrow> ctx \<Rightarrow> eloop_data \<Rightarrow> eloop_data \<times> int" where
  "eloop_register_read_sock alloc_ok sock handler eloop_data user_data e =
     (if \<not> alloc_ok then (e, - 1)
      else (e\<lparr>readers := readers e @ [\<lparr>rd_sock = sock, rd_eloop_data = eloop_data, rd_user_data = user_data,
              rd_handler = handler\<rparr>],
            max_sock := (if sock > max_sock e then sock else max_sock e)\<rparr>, 0))"

fun remove_reader :: "int \<Rightarrow> eloop_sock list \<Rightarrow> eloop_sock list" where
  "remove_reader sock [] = []"
| "remove_reader sock (r # rs) = (if rd_sock r = sock then rs else r # remove_reader sock rs)"

definition eloop_unregister_read_sock :: "int \<Rightarrow> eloop_data \<Rightarrow> eloop_data" where
  "eloop_unregister_read_sock sock e = e\<lparr>readers := remove_reader sock (readers e)\<rparr>"

fun insert_timeout :: "eloop_timeout \<Rightarrow> eloop_timeout list \<Rightarrow> eloop_timeout list" where
  "insert_timeout t [] = [t]"
| "insert_timeout t (u # us) =
     (if timercmp_less (to_time t) (to_time u) then t # u # us else u # insert_timeout t us)"

definition eloop_register_timeout ::
    "bool \<Rightarrow> timeval \<Rightarrow> 32 word \<Rightarrow> 32 word \<Rightarrow> nat \<Rightarrow> ctx \<Rightarrow> ctx \<Rightarrow> eloop_data \<Rightarrow> eloop_data \<times> int" where
  "eloop_register_timeout alloc_ok now secs usecs handler eloop_data user_data e =
     (if \<not> alloc_ok then (e, - 1)
      else (let t = \<lparr>to_time = usec_carry (t_sec now + uint secs) (t_usec now + uint usecs),
              to_eloop_data = eloop_data, to_user_data = user_data, to_handler = handler\<rparr>
            in (e\<lparr>timeouts := insert_timeout t (timeouts e)\<rparr>, 0)))"

definition cancel_matches :: "nat \<Rightarrow> ctx \<Rightarrow> ctx \<Rightarrow> eloop_timeout \<Rightarrow> bool" where
  "cancel_matches handler eloop_data user_data t \<longleftrightarrow> to_handler t = handler
     \<and> (to_eloop_data t = eloop_data \<or> eloop_data = ELOOP_ALL_CTX)
     \<and> (to_user_data t = user_data \<or> user_data = ELOOP_ALL_CTX)"

fun cancel_loop :: "(eloop_timeout \<Rightarrow> bool) \<Rightarrow> eloop_timeout list \<Rightarrow> eloop_timeout list \<times> int" where
  "cancel_loop match [] = ([], 0)"
| "cancel_loop match (t # ts) = (case cancel_loop match ts of (us, removed) \<Rightarrow>
     if match t then (us, removed + 1) else (t # us, removed))"

definition eloop_cancel_timeout :: "nat \<Rightarrow> ctx \<Rightarrow> ctx \<Rightarrow> eloop_data \<Rightarrow> eloop_data \<times> int" where
  "eloop_cancel_timeout handler eloop_data user_data e =
     (case cancel_loop (cancel_matches handler eloop_data user_data) (timeouts e) of (ts, removed) \<Rightarrow>
        (e\<lparr>timeouts := ts\<rparr>, removed))"

definition eloop_register_signal :: "bool \<Rightarrow> int \<Rightarrow> nat \<Rightarrow> ctx \<Rightarrow> eloop_data \<Rightarrow> eloop_data \<times> int" where
  "eloop_register_signal alloc_ok sig handler user_data e =
     (if \<not> alloc_ok then (e, - 1)
      else (e\<lparr>signals := signals e @ [\<lparr>sg_sig = sig, sg_user_data = user_data, sg_handler = handler,
              sg_signaled = 0\<rparr>]\<rparr>, 0))"

definition eloop_terminate :: "eloop_data \<Rightarrow> eloop_data" where
  "eloop_terminate e = e\<lparr>terminate := True\<rparr>"

definition eloop_terminated :: "eloop_data \<Rightarrow> bool" where
  "eloop_terminated e = terminate e"

section \<open>Signals\<close>

fun count_signal :: "int \<Rightarrow> eloop_signal list \<Rightarrow> eloop_signal list" where
  "count_signal sig [] = []"
| "count_signal sig (g # gs) =
     (if sg_sig g = sig then g\<lparr>sg_signaled := sg_signaled g + 1\<rparr> # gs else g # count_signal sig gs)"

definition eloop_handle_signal :: "int \<Rightarrow> eloop_data \<Rightarrow> eloop_data" where
  "eloop_handle_signal sig e = e\<lparr>el_signaled := el_signaled e + 1, signals := count_signal sig (signals e)\<rparr>"

text \<open>
  Handlers take their own arguments, the loop's data and the rest of the world. The loops over the
  arrays look at the length again after each call, so they need not end: \<open>None\<close>.
\<close>

record 'w loop_handlers =
  on_sock :: "nat \<Rightarrow> int \<Rightarrow> ctx \<Rightarrow> ctx \<Rightarrow> eloop_data \<times> 'w \<Rightarrow> eloop_data \<times> 'w"
  on_timeout :: "nat \<Rightarrow> ctx \<Rightarrow> ctx \<Rightarrow> eloop_data \<times> 'w \<Rightarrow> eloop_data \<times> 'w"
  on_signal :: "nat \<Rightarrow> int \<Rightarrow> ctx \<Rightarrow> ctx \<Rightarrow> eloop_data \<times> 'w \<Rightarrow> eloop_data \<times> 'w"

partial_function (option) signals_loop :: "'w loop_handlers \<Rightarrow> nat \<Rightarrow> eloop_data \<Rightarrow> 'w \<Rightarrow> (eloop_data \<times> 'w) option" where
  "signals_loop hs i e w =
     (if i < length (signals e)
      then (let g = signals e ! i
            in if sg_signaled g \<noteq> 0
               then (let r = on_signal hs (sg_handler g) (sg_sig g) (el_user_data e) (sg_user_data g)
                       (e\<lparr>signals := (signals e)[i := g\<lparr>sg_signaled := 0\<rparr>]\<rparr>, w)
                     in signals_loop hs (i + 1) (fst r) (snd r))
               else signals_loop hs (i + 1) e w)
      else Some (e, w))"

definition eloop_process_pending_signals :: "'w loop_handlers \<Rightarrow> eloop_data \<Rightarrow> 'w \<Rightarrow> (eloop_data \<times> 'w) option" where
  "eloop_process_pending_signals hs e w =
     (if el_signaled e = 0 then Some (e, w) else signals_loop hs 0 (e\<lparr>el_signaled := 0\<rparr>) w)"

section \<open>The loop\<close>

datatype select_result = Select_Error | Select_Interrupted | Select_Ready "int list"

text \<open>The times read before and after \<^verbatim>\<open>select\<close>, the signals that arrived, and what \<^verbatim>\<open>select\<close> gave.\<close>

record wakeup =
  wk_before :: timeval
  wk_signals :: "int list"
  wk_select :: select_result
  wk_after :: timeval

text \<open>The limit that \<^verbatim>\<open>select\<close> is called with.\<close>

definition select_limit :: "timeval \<Rightarrow> eloop_data \<Rightarrow> timeval option" where
  "select_limit now e = (case timeouts e of [] \<Rightarrow> None
     | t # _ \<Rightarrow> Some (if timercmp_less now (to_time t) then timersub (to_time t) now else \<lparr>t_sec = 0, t_usec = 0\<rparr>))"

definition fire_timeout :: "'w loop_handlers \<Rightarrow> timeval \<Rightarrow> eloop_data \<Rightarrow> 'w \<Rightarrow> eloop_data \<times> 'w" where
  "fire_timeout hs now e w = (case timeouts e of [] \<Rightarrow> (e, w)
     | t # ts \<Rightarrow> if timercmp_less now (to_time t) then (e, w)
         else on_timeout hs (to_handler t) (to_eloop_data t) (to_user_data t) (e\<lparr>timeouts := ts\<rparr>, w))"

partial_function (option) readers_loop ::
    "'w loop_handlers \<Rightarrow> int set \<Rightarrow> nat \<Rightarrow> eloop_data \<Rightarrow> 'w \<Rightarrow> (eloop_data \<times> 'w) option" where
  "readers_loop hs rfds i e w =
     (if i < length (readers e)
      then (let r = readers e ! i
            in if rd_sock r \<in> rfds
               then (let x = on_sock hs (rd_handler r) (rd_sock r) (rd_eloop_data r) (rd_user_data r) (e, w)
                     in readers_loop hs rfds (i + 1) (fst x) (snd x))
               else readers_loop hs rfds (i + 1) e w)
      else Some (e, w))"

text \<open>One pass; the result says whether the loop goes on. Only registered sockets can be ready.\<close>

definition eloop_pass :: "'w loop_handlers \<Rightarrow> wakeup \<Rightarrow> eloop_data \<Rightarrow> 'w \<Rightarrow> (bool \<times> eloop_data \<times> 'w) option" where
  "eloop_pass hs wk e w =
     (let socks = rd_sock ` set (readers e); e1 = fold eloop_handle_signal (wk_signals wk) e
      in case wk_select wk of
        Select_Error \<Rightarrow> Some (False, e1, w)
      | sel \<Rightarrow> (case eloop_process_pending_signals hs e1 w of None \<Rightarrow> None | Some (e2, w2) \<Rightarrow>
          (case fire_timeout hs (wk_after wk) e2 w2 of (e3, w3) \<Rightarrow>
            (case sel of Select_Ready (s # ss) \<Rightarrow>
                map_option (\<lambda>r. (True, r)) (readers_loop hs (socks \<inter> set (s # ss)) 0 e3 w3)
              | _ \<Rightarrow> Some (True, e3, w3)))))"

text \<open>Whether \<^verbatim>\<open>eloop_run\<close> returned or the wakeups are used up and it waits.\<close>

datatype run_end = Returned | Waiting

fun eloop_run :: "'w loop_handlers \<Rightarrow> wakeup list \<Rightarrow> eloop_data \<Rightarrow> 'w \<Rightarrow> (run_end \<times> eloop_data \<times> 'w) option" where
  "eloop_run hs wks e w =
     (if terminate e \<or> (timeouts e = [] \<and> readers e = []) then Some (Returned, e\<lparr>terminate := False\<rparr>, w)
      else (case wks of [] \<Rightarrow> Some (Waiting, e, w)
        | wk # wks' \<Rightarrow> (case eloop_pass hs wk e w of None \<Rightarrow> None
            | Some (go_on, e', w') \<Rightarrow> if go_on then eloop_run hs wks' e' w' else Some (Returned, e', w'))))"

declare eloop_run.simps [simp del]

section \<open>Times in microseconds\<close>

definition usecs :: "timeval \<Rightarrow> int" where
  "usecs t = t_sec t * 1000000 + t_usec t"

definition timeval_ok :: "timeval \<Rightarrow> bool" where
  "timeval_ok t \<longleftrightarrow> 0 \<le> t_usec t \<and> t_usec t < 1000000"

lemma usec_carry_eq:
  assumes "0 \<le> usec"
  shows "usec_carry sec usec = \<lparr>t_sec = sec + usec div 1000000, t_usec = usec mod 1000000\<rparr>"
  using assms
proof (induction sec usec rule: usec_carry.induct)
  case (1 sec usec)
  show ?case
  proof (cases "usec \<ge> 1000000")
    case True
    then have "(usec - 1000000) div 1000000 = usec div 1000000 - 1" "(usec - 1000000) mod 1000000 = usec mod 1000000"
      using div_add_self2 [of 1000000 "usec - 1000000"] mod_add_self2 [of "usec - 1000000" 1000000] by simp_all
    with 1 True show ?thesis by (subst usec_carry.simps) simp
  next
    case False
    with "1.prems" show ?thesis by (subst usec_carry.simps) simp
  qed
qed

lemma usec_carry_ok: "0 \<le> usec \<Longrightarrow> timeval_ok (usec_carry sec usec)"
  and usec_carry_usecs: "0 \<le> usec \<Longrightarrow> usecs (usec_carry sec usec) = sec * 1000000 + usec"
  by (simp_all add: usec_carry_eq timeval_ok_def usecs_def algebra_simps)

lemma timercmp_usecs: "timeval_ok a \<Longrightarrow> timeval_ok b \<Longrightarrow> timercmp_less a b \<longleftrightarrow> usecs a < usecs b"
  by (auto simp: timercmp_less_def timeval_ok_def usecs_def)

lemma timersub_usecs: "usecs (timersub a b) = usecs a - usecs b"
  by (simp add: timersub_def usecs_def USEC_def Let_def algebra_simps)

lemma timersub_ok: "timeval_ok a \<Longrightarrow> timeval_ok b \<Longrightarrow> timeval_ok (timersub a b)"
  by (auto simp: timersub_def timeval_ok_def USEC_def Let_def)

section \<open>The timeouts stay sorted\<close>

abbreviation due :: "eloop_timeout \<Rightarrow> int" where "due t \<equiv> usecs (to_time t)"

definition timeouts_ok :: "eloop_timeout list \<Rightarrow> bool" where
  "timeouts_ok ts \<longleftrightarrow> sorted (map due ts) \<and> (\<forall>t\<in>set ts. timeval_ok (to_time t))"

lemma timeouts_ok_simps [simp]:
  "timeouts_ok []"
  "timeouts_ok (t # ts) \<longleftrightarrow> timeval_ok (to_time t) \<and> (\<forall>u\<in>set ts. due t \<le> due u) \<and> timeouts_ok ts"
  by (auto simp: timeouts_ok_def)

text \<open>A new timeout goes behind all that are due no later.\<close>

lemma insert_timeout_split:
  assumes "timeouts_ok ts" and "timeval_ok (to_time t)"
  shows "insert_timeout t ts = filter (\<lambda>u. due u \<le> due t) ts @ t # filter (\<lambda>u. due t < due u) ts"
  using assms
proof (induction ts)
  case (Cons u us)
  show ?case
  proof (cases "due t < due u")
    case True
    with Cons.prems have "\<forall>v\<in>set us. due t < due v" by fastforce
    then have "filter (\<lambda>v. due v \<le> due t) us = []" "filter (\<lambda>v. due t < due v) us = us"
      by (auto simp: filter_empty_conv not_le filter_id_conv)
    with Cons.prems True show ?thesis by (simp add: timercmp_usecs)
  next
    case False
    with Cons show ?thesis by (simp add: timercmp_usecs not_less)
  qed
qed simp

lemma insert_timeout_ok: "timeouts_ok ts \<Longrightarrow> timeval_ok (to_time t) \<Longrightarrow> timeouts_ok (insert_timeout t ts)"
  and set_insert_timeout: "set (insert_timeout t ts) = insert t (set ts)"
  by (induction ts) (auto simp: timercmp_usecs not_less)

lemma cancel_loop_filter: "cancel_loop match ts = (filter (\<lambda>t. \<not> match t) ts, int (length (filter match ts)))"
  by (induction ts) simp_all

lemma filter_timeouts_ok: "timeouts_ok ts \<Longrightarrow> timeouts_ok (filter P ts)"
  by (induction ts) auto

text \<open>Every call of the interface, as a step.\<close>

inductive eloop_call :: "eloop_data \<Rightarrow> eloop_data \<Rightarrow> bool" where
  register_sock: "eloop_call e (fst (eloop_register_read_sock ok sock h a b e))"
| unregister_sock: "eloop_call e (eloop_unregister_read_sock sock e)"
| register_timeout: "timeval_ok now \<Longrightarrow> eloop_call e (fst (eloop_register_timeout ok now secs us h a b e))"
| cancel_timeout: "eloop_call e (fst (eloop_cancel_timeout h a b e))"
| register_signal: "eloop_call e (fst (eloop_register_signal ok sig h b e))"
| handle_signal: "eloop_call e (eloop_handle_signal sig e)"
| terminate_loop: "eloop_call e (eloop_terminate e)"

lemma eloop_call_ok:
  assumes "timeouts_ok (timeouts e)" and "eloop_call e e'"
  shows "timeouts_ok (timeouts e')"
  using assms(2,1)
proof cases
  case (register_timeout now ok secs us h a b)
  have "timeval_ok (usec_carry (t_sec now + uint secs) (t_usec now + uint us))"
    using register_timeout(2) by (intro usec_carry_ok) (simp add: timeval_ok_def)
  with assms(1) register_timeout(1) show ?thesis
    by (simp add: eloop_register_timeout_def Let_def insert_timeout_ok)
qed (auto simp: eloop_register_read_sock_def eloop_unregister_read_sock_def eloop_cancel_timeout_def
    eloop_register_signal_def eloop_handle_signal_def eloop_terminate_def cancel_loop_filter filter_timeouts_ok)

interpretation eloop_calls: step_invariant "\<lambda>e. \<exists>u. e = eloop_init u" eloop_call "\<lambda>e. timeouts_ok (timeouts e)"
  by unfold_locales (auto simp: eloop_init_def intro: eloop_call_ok)

text \<open>What \<^verbatim>\<open>select\<close> waits for: the time left until the first timeout, never a negative one.\<close>

lemma select_limit_due:
  assumes "timeouts e = t # ts" and "timeouts_ok (timeouts e)" and "timeval_ok now"
  shows "\<exists>l. select_limit now e = Some l \<and> timeval_ok l \<and> usecs l = max 0 (due t - usecs now)"
proof (cases "timercmp_less now (to_time t)")
  case True
  with assms show ?thesis
    by (simp add: select_limit_def timersub_ok timersub_usecs timercmp_usecs)
next
  case False
  with assms show ?thesis by (simp add: select_limit_def timercmp_usecs) (simp add: timeval_ok_def usecs_def)
qed

section \<open>A loop with timeouts only\<close>

text \<open>What a handler that leaves the loop alone does to the world.\<close>

definition call_timeout :: "(nat \<Rightarrow> ctx \<Rightarrow> ctx \<Rightarrow> 'w \<Rightarrow> 'w) \<Rightarrow> eloop_timeout \<Rightarrow> 'w \<Rightarrow> 'w" where
  "call_timeout f t = f (to_handler t) (to_eloop_data t) (to_user_data t)"

definition quiet :: "wakeup \<Rightarrow> bool" where
  "quiet wk \<longleftrightarrow> wk_signals wk = [] \<and> wk_select wk \<noteq> Select_Error"

lemma eloop_pass_timer:
  assumes idle: "\<And>h a b e w. on_timeout hs h a b (e, w) = (e, f h a b w)"
    and e: "readers e = []" "el_signaled e = 0" "timeouts e = t # ts" and "quiet wk"
  shows "eloop_pass hs wk e w = Some (True,
     if timercmp_less (wk_after wk) (to_time t) then (e, w) else (e\<lparr>timeouts := ts\<rparr>, call_timeout f t w))"
  using assms
  by (auto simp: eloop_pass_def quiet_def eloop_process_pending_signals_def fire_timeout_def call_timeout_def Let_def
      readers_loop.simps split: select_result.splits list.splits)

lemma eloop_run_timers:
  assumes idle: "\<And>h a b e w. on_timeout hs h a b (e, w) = (e, f h a b w)"
    and "readers e = []" and "\<not> terminate e" and "el_signaled e = 0" and "\<forall>wk\<in>set wks. quiet wk"
  shows "\<exists>k\<le>length wks. k \<le> length (timeouts e)
     \<and> eloop_run hs wks e w = Some (if k = length (timeouts e) then Returned else Waiting,
           e\<lparr>timeouts := drop k (timeouts e)\<rparr>, fold (call_timeout f) (take k (timeouts e)) w)
     \<and> (\<forall>t\<in>set (take k (timeouts e)). \<exists>wk\<in>set wks. \<not> timercmp_less (wk_after wk) (to_time t))
     \<and> ((\<forall>wk\<in>set wks. \<forall>t\<in>set (timeouts e). \<not> timercmp_less (wk_after wk) (to_time t)) \<longrightarrow>
          k = min (length wks) (length (timeouts e)))"
  using assms(2-5)
proof (induction wks arbitrary: e w)
  case Nil
  then have "e\<lparr>terminate := False\<rparr> = e" "e\<lparr>timeouts := timeouts e\<rparr> = e" by (cases e; simp)+
  with Nil show ?case by (auto simp: eloop_run.simps)
next
  case (Cons wk wks)
  show ?case
  proof (cases "timeouts e")
    case Nil
    with Cons.prems have "e\<lparr>terminate := False\<rparr> = e" "e\<lparr>timeouts := []\<rparr> = e" by (cases e; simp)+
    with Nil Cons.prems show ?thesis by (simp add: eloop_run.simps)
  next
    case (Cons t ts)
    let ?late = "timercmp_less (wk_after wk) (to_time t)"
    have pass: "eloop_pass hs wk e w = Some (True, if ?late then (e, w) else (e\<lparr>timeouts := ts\<rparr>, call_timeout f t w))"
      using Cons.prems Cons by (intro eloop_pass_timer [OF idle]) simp_all
    show ?thesis
    proof (cases ?late)
      case True
      with pass Cons Cons.prems have run: "eloop_run hs (wk # wks) e w = eloop_run hs wks e w"
        by (subst eloop_run.simps) simp
      have "\<forall>wk\<in>set wks. quiet wk" using Cons.prems(4) by simp
      from Cons.IH [OF Cons.prems(1-3) this, of w] obtain k where
        k: "k \<le> length wks" "k \<le> length (timeouts e)"
          "eloop_run hs wks e w = Some (if k = length (timeouts e) then Returned else Waiting,
           e\<lparr>timeouts := drop k (timeouts e)\<rparr>, fold (call_timeout f) (take k (timeouts e)) w)"
          "\<forall>t\<in>set (take k (timeouts e)). \<exists>wk\<in>set wks. \<not> timercmp_less (wk_after wk) (to_time t)" by blast
      with True Cons show ?thesis unfolding run by (intro exI [of _ k]) auto
    next
      case False
      let ?e = "e\<lparr>timeouts := ts\<rparr>"
      from pass False Cons Cons.prems have run: "eloop_run hs (wk # wks) e w = eloop_run hs wks ?e (call_timeout f t w)"
        by (subst eloop_run.simps) simp
      have "readers ?e = []" "\<not> terminate ?e" "el_signaled ?e = 0" "\<forall>wk\<in>set wks. quiet wk"
        using Cons.prems by simp_all
      from Cons.IH [OF this, of "call_timeout f t w"] obtain k where
        k: "k \<le> length wks" "k \<le> length ts"
          "eloop_run hs wks ?e (call_timeout f t w) = Some (if k = length ts then Returned else Waiting,
           e\<lparr>timeouts := drop k ts\<rparr>, fold (call_timeout f) (take k ts) (call_timeout f t w))"
          "\<forall>t\<in>set (take k ts). \<exists>wk\<in>set wks. \<not> timercmp_less (wk_after wk) (to_time t)"
          "(\<forall>wk\<in>set wks. \<forall>t\<in>set ts. \<not> timercmp_less (wk_after wk) (to_time t)) \<longrightarrow> k = min (length wks) (length ts)"
        by auto
      with False Cons show ?thesis unfolding run by (intro exI [of _ "Suc k"]) auto
    qed
  qed
qed

section \<open>Signals\<close>

text \<open>
  Handlers that leave the loop alone but for ending it (\<open>q h\<close>: handler \<open>h\<close> calls \<^verbatim>\<open>eloop_terminate\<close>).
\<close>

definition call_signal :: "(nat \<Rightarrow> int \<Rightarrow> ctx \<Rightarrow> ctx \<Rightarrow> 'w \<Rightarrow> 'w) \<Rightarrow> ctx \<Rightarrow> eloop_signal \<Rightarrow> 'w \<Rightarrow> 'w" where
  "call_signal f u g = f (sg_handler g) (sg_sig g) u (sg_user_data g)"

lemma signals_loop_idle:
  assumes idle: "\<And>h s a b e w. on_signal hs h s a b (e, w) = (e\<lparr>terminate := terminate e \<or> q h\<rparr>, f h s a b w)"
    and "signals e = dn @ gs"
  shows "signals_loop hs (length dn) e w = Some
     (e\<lparr>signals := dn @ map (\<lambda>g. g\<lparr>sg_signaled := 0\<rparr>) gs,
        terminate := terminate e \<or> (\<exists>g\<in>set gs. sg_signaled g \<noteq> 0 \<and> q (sg_handler g))\<rparr>,
      fold (call_signal f (el_user_data e)) (filter (\<lambda>g. sg_signaled g \<noteq> 0) gs) w)"
  using assms(2)
proof (induction gs arbitrary: dn e w)
  case Nil
  then show ?case by (cases e) (simp add: signals_loop.simps)
next
  case (Cons g gs)
  let ?g = "g\<lparr>sg_signaled := 0\<rparr>"
  have at: "signals e ! length dn = g" "length dn < length (signals e)" using Cons.prems by simp_all
  show ?case
  proof (cases "sg_signaled g = 0")
    case True
    then have g: "?g = g" by (cases g) simp
    from Cons.IH [of e "dn @ [g]" w] Cons.prems True show ?thesis
      by (subst signals_loop.simps) (simp add: at g)
  next
    case False
    let ?e = "e\<lparr>signals := (signals e)[length dn := ?g], terminate := terminate e \<or> q (sg_handler g)\<rparr>"
    have "signals ?e = (dn @ [?g]) @ gs" using Cons.prems by simp
    from Cons.IH [OF this, of "call_signal f (el_user_data e) g w"] False show ?thesis
      by (subst signals_loop.simps) (simp add: at idle Let_def call_signal_def [of f _ g] disj_assoc)
  qed
qed

text \<open>Signals count for the first entry with their number.\<close>

fun add_counts :: "(int \<Rightarrow> nat) \<Rightarrow> eloop_signal list \<Rightarrow> eloop_signal list" where
  "add_counts c [] = []"
| "add_counts c (g # gs) = g\<lparr>sg_signaled := sg_signaled g + of_nat (c (sg_sig g))\<rparr> # add_counts (c(sg_sig g := 0)) gs"

fun signal_heads :: "eloop_signal list \<Rightarrow> eloop_signal list" where
  "signal_heads [] = []"
| "signal_heads (g # gs) = g # filter (\<lambda>h. sg_sig h \<noteq> sg_sig g) (signal_heads gs)"

lemma count_signal_add: "count_signal s (add_counts c gs) = add_counts (c(s := Suc (c s))) gs"
proof (induction gs arbitrary: c)
  case (Cons g gs)
  have "(c(s := Suc (c s)))(s := 0) = c(s := 0)" by simp
  moreover have "sg_sig g \<noteq> s \<Longrightarrow> (c(sg_sig g := 0))(s := Suc ((c(sg_sig g := 0)) s)) = (c(s := Suc (c s)))(sg_sig g := 0)"
    by (rule ext) simp
  ultimately show ?case using Cons.IH
    by (cases "sg_sig g = s") (simp_all del: fun_upd_apply add: fun_upd_same fun_upd_other add.commute add.left_commute)
qed simp

lemma add_counts_none: "add_counts (\<lambda>_. 0) gs = gs"
  by (induction gs) (simp_all add: fun_upd_triv [of "\<lambda>_. 0", simplified])

lemma handled_signals:
  "fold eloop_handle_signal sigs (e\<lparr>signals := add_counts c gs\<rparr>)
    = e\<lparr>signals := add_counts (\<lambda>s. c s + count_list sigs s) gs, el_signaled := el_signaled e + of_nat (length sigs)\<rparr>"
proof (induction sigs arbitrary: c e)
  case Nil
  show ?case by simp
next
  case (Cons s sigs)
  have c: "(\<lambda>x. (c(s := Suc (c s))) x + count_list sigs x) = (\<lambda>x. c x + count_list (s # sigs) x)" by auto
  have "fold eloop_handle_signal (s # sigs) (e\<lparr>signals := add_counts c gs\<rparr>)
      = fold eloop_handle_signal sigs (e\<lparr>el_signaled := el_signaled e + 1\<rparr>\<lparr>signals := add_counts (c(s := Suc (c s))) gs\<rparr>)"
    by (simp add: eloop_handle_signal_def count_signal_add del: fun_upd_apply)
  then show ?case unfolding Cons.IH c by (simp add: add.assoc)
qed

lemma small_count: "n < 2 ^ 32 \<Longrightarrow> (of_nat n :: 32 word) = 0 \<longleftrightarrow> n = 0"
  by (auto simp: of_nat_0)

lemma cleared_counts:
  "\<forall>g\<in>set gs. sg_signaled g = 0 \<Longrightarrow> map (\<lambda>g. g\<lparr>sg_signaled := 0\<rparr>) (add_counts c gs) = gs"
  by (induction gs arbitrary: c) auto

lemma heads_rest:
  "filter (\<lambda>h. 0 < c (sg_sig h)) (filter (\<lambda>h. sg_sig h \<noteq> n) gs) = filter (\<lambda>h. 0 < (c(n := 0 :: nat)) (sg_sig h)) gs"
  by (auto intro: filter_cong)

lemma call_signal_count [simp]: "call_signal f u (g\<lparr>sg_signaled := n\<rparr>) = call_signal f u g"
  by (rule ext) (simp add: call_signal_def)

lemma counted_calls:
  assumes "\<forall>g\<in>set gs. sg_signaled g = 0" and "\<forall>s. c s < 2 ^ 32"
  shows "fold (call_signal f u) (filter (\<lambda>g. sg_signaled g \<noteq> 0) (add_counts c gs)) w
      = fold (call_signal f u) (filter (\<lambda>g. c (sg_sig g) \<noteq> 0) (signal_heads gs)) w"
  using assms
proof (induction gs arbitrary: c w)
  case (Cons g gs)
  have zero: "(of_nat (c (sg_sig g)) :: 32 word) = 0 \<longleftrightarrow> c (sg_sig g) = 0"
    using Cons.prems(2) by (intro small_count) blast
  have "\<forall>g\<in>set gs. sg_signaled g = 0" "\<forall>s. (c(sg_sig g := 0)) s < 2 ^ 32" using Cons.prems by simp_all
  note IH = Cons.IH [OF this]
  show ?case using Cons.prems(1) by (simp add: zero IH heads_rest del: filter_filter fun_upd_apply)
qed simp

lemma counted_ends:
  assumes "\<forall>g\<in>set gs. sg_signaled g = 0" and "\<forall>s. c s < 2 ^ 32"
  shows "(\<exists>g\<in>set (add_counts c gs). sg_signaled g \<noteq> 0 \<and> q (sg_handler g))
      \<longleftrightarrow> (\<exists>g\<in>set (filter (\<lambda>g. c (sg_sig g) \<noteq> 0) (signal_heads gs)). q (sg_handler g))"
  using assms
proof (induction gs arbitrary: c)
  case (Cons g gs)
  have zero: "(of_nat (c (sg_sig g)) :: 32 word) = 0 \<longleftrightarrow> c (sg_sig g) = 0"
    using Cons.prems(2) by (intro small_count) blast
  have "\<forall>g\<in>set gs. sg_signaled g = 0" "\<forall>s. (c(sg_sig g := 0)) s < 2 ^ 32" using Cons.prems by simp_all
  note IH = Cons.IH [OF this]
  show ?case using Cons.prems(1) by (auto simp: zero IH split: if_splits)
qed simp

text \<open>
  What arrived is handled once, by the first entry with its number, however often it arrived; no
  count is left over, and the loop is told to end if one of the handlers says so.
\<close>

lemma pending_signals:
  assumes idle: "\<And>h s a b e w. on_signal hs h s a b (e, w) = (e\<lparr>terminate := terminate e \<or> q h\<rparr>, f h s a b w)"
    and zero: "\<forall>g\<in>set (signals e). sg_signaled g = 0" and none: "el_signaled e = 0" and few: "length sigs < 2 ^ 31"
  shows "let handled = filter (\<lambda>g. sg_sig g \<in> set sigs) (signal_heads (signals e))
    in eloop_process_pending_signals hs (fold eloop_handle_signal sigs e) w =
     Some (e\<lparr>terminate := terminate e \<or> (\<exists>g\<in>set handled. q (sg_handler g))\<rparr>,
           fold (call_signal f (el_user_data e)) handled w)"
proof (cases "sigs = []")
  case True
  then show ?thesis by (simp add: eloop_process_pending_signals_def none)
next
  case False
  let ?c = "count_list sigs"
  let ?gs = "add_counts ?c (signals e)"
  have "fold eloop_handle_signal sigs e = fold eloop_handle_signal sigs (e\<lparr>signals := add_counts (\<lambda>_. 0) (signals e)\<rparr>)"
    by (simp add: add_counts_none)
  then have e: "fold eloop_handle_signal sigs e = e\<lparr>signals := ?gs, el_signaled := of_nat (length sigs)\<rparr>"
    by (simp only: handled_signals none add_0)
  have nonzero: "(of_nat (length sigs) :: 32 word) \<noteq> 0" using few False by (subst small_count) simp_all
  have bound: "\<forall>s. ?c s < 2 ^ 32"
  proof
    fix s
    show "?c s < 2 ^ 32" using count_le_length [of sigs s] few by simp
  qed
  have pending: "0 < ?c s \<longleftrightarrow> s \<in> set sigs" for s
    by (metis count_list_0_iff neq0_conv)
  have reset: "e\<lparr>signals := signals e, el_signaled := 0, terminate := b\<rparr> = e\<lparr>terminate := b\<rparr>" for b
    using none by (cases e) simp
  let ?e = "e\<lparr>signals := ?gs, el_signaled := 0\<rparr>"
  have "signals ?e = [] @ ?gs" by simp
  from signals_loop_idle [OF idle this, of w] show ?thesis
    using counted_calls [OF zero bound, of f "el_user_data e" w] counted_ends [OF zero bound, of q] cleared_counts [OF zero, of ?c] reset
    by (simp add: eloop_process_pending_signals_def e nonzero Let_def pending)
qed

section \<open>Readers that unregister themselves\<close>

fun every_other :: "'a list \<Rightarrow> 'a list" where
  "every_other [] = []"
| "every_other [x] = [x]"
| "every_other (x # y # xs) = x # every_other xs"

lemma remove_reader_split:
  "\<forall>r\<in>set dn. rd_sock r \<noteq> rd_sock x \<Longrightarrow> remove_reader (rd_sock x) (dn @ x # xs) = dn @ xs"
  by (induction dn) simp_all

text \<open>
  A handler that removes its own socket moves the next entry to the place the loop has just done:
  every other ready socket is passed over.
\<close>

lemma readers_loop_unregister:
  assumes handler: "\<And>h s a b e w. on_sock hs h s a b (e, w) = (eloop_unregister_read_sock s e, w @ [g s])"
    and "readers e = dn @ rs" and "distinct (map rd_sock (dn @ rs))" and "rd_sock ` set rs \<subseteq> rfds"
  shows "readers_loop hs rfds (length dn) e w = Some
     (e\<lparr>readers := dn @ every_other (drop 1 rs)\<rparr>, w @ map (g \<circ> rd_sock) (every_other rs))"
  using assms(2-4)
proof (induction rs arbitrary: dn e w rule: every_other.induct)
  case 1
  then show ?case by (cases e) (simp add: readers_loop.simps)
next
  case (2 x)
  then have "rd_sock x \<notin> rd_sock ` set dn" by simp
  then have "\<forall>r\<in>set dn. rd_sock r \<noteq> rd_sock x" by (metis imageI)
  from remove_reader_split [OF this, of "[]"] have "remove_reader (rd_sock x) (dn @ [x]) = dn" by simp
  with 2 show ?case
    by (subst readers_loop.simps) (simp add: Let_def handler eloop_unregister_read_sock_def readers_loop.simps)
next
  case (3 x y xs)
  let ?e = "e\<lparr>readers := dn @ y # xs\<rparr>"
  have rm: "remove_reader (rd_sock x) (dn @ x # y # xs) = dn @ y # xs"
  proof (rule remove_reader_split)
    have "rd_sock x \<notin> rd_sock ` set dn" using 3(3) by simp
    then show "\<forall>r\<in>set dn. rd_sock r \<noteq> rd_sock x" by (metis imageI)
  qed
  have first: "readers_loop hs rfds (length dn) e w = readers_loop hs rfds (length (dn @ [y])) ?e (w @ [g (rd_sock x)])"
    using 3 rm by (subst readers_loop.simps) (simp add: Let_def handler eloop_unregister_read_sock_def)
  have "readers ?e = (dn @ [y]) @ xs" "distinct (map rd_sock ((dn @ [y]) @ xs))" "rd_sock ` set xs \<subseteq> rfds"
    using 3 by auto
  from "3.IH" [OF this, of "w @ [g (rd_sock x)]"] show ?case unfolding first by (cases xs) simp_all
qed

end
