(* ===== verification/Bytes.thy ===== *)
theory Bytes
  imports Prelude
begin

text \<open>
  Memory as bytes, for the components that build and take apart packets: an object is the list of its
  bytes, and reading or writing outside it is a fault. Numbers in network order, and the order of the
  (little-endian) host.
\<close>

unbundle bit_operations_syntax

type_synonym byte = "8 word"

section \<open>Reading and writing\<close>

definition read_bytes :: "byte list \<Rightarrow> nat \<Rightarrow> nat \<Rightarrow> byte list res" where
  "read_bytes src i n = (if i + n \<le> length src then Inr (take n (drop i src)) else Inl Out_Of_Bounds)"

definition write_bytes :: "byte list \<Rightarrow> nat \<Rightarrow> byte list \<Rightarrow> byte list res" where
  "write_bytes dst j bs = (if j + length bs \<le> length dst
     then Inr (take j dst @ bs @ drop (j + length bs) dst) else Inl Out_Of_Bounds)"

lemma read_bytes_in: "i + n \<le> length src \<Longrightarrow> read_bytes src i n = Inr (take n (drop i src))"
  by (simp add: read_bytes_def)

lemma write_bytes_Inr:
  "write_bytes f j bs = Inr g \<longleftrightarrow> j + length bs \<le> length f \<and> g = take j f @ bs @ drop (j + length bs) f"
  by (auto simp: write_bytes_def)

text \<open>The \<open>n\<close> bytes of a member at offset \<open>k\<close> of a packed struct.\<close>

definition slice :: "nat \<Rightarrow> nat \<Rightarrow> byte list \<Rightarrow> byte list" where
  "slice k n f = take n (drop k f)"

lemma slice_before: "write_bytes f j bs = Inr g \<Longrightarrow> k + n \<le> j \<Longrightarrow> slice k n g = slice k n f"
  by (auto simp: write_bytes_Inr slice_def take_drop min_def)

section \<open>Network order\<close>

definition be_bytes :: "nat \<Rightarrow> nat \<Rightarrow> byte list" where
  "be_bytes n x = map (\<lambda>i. word_of_nat (x div 256 ^ (n - 1 - i))) [0..<n]"

definition get_be :: "byte list \<Rightarrow> nat" where
  "get_be bs = foldl (\<lambda>n b. 256 * n + unat b) 0 bs"

definition be16 :: "nat \<Rightarrow> byte list" where "be16 n = be_bytes 2 n"
definition be64 :: "64 word \<Rightarrow> byte list" where "be64 w = be_bytes 8 (unat w)"

lemma be_bytes_Suc: "be_bytes (Suc n) x = be_bytes n (x div 256) @ [word_of_nat x]"
proof -
  have "x div 256 ^ (n - i) = x div 256 div 256 ^ (n - 1 - i)" if "i < n" for i
  proof -
    have "n - i = Suc (n - 1 - i)" using that by simp
    then show ?thesis by (simp add: div_mult2_eq)
  qed
  then have "map (\<lambda>i. word_of_nat (x div 256 ^ (n - i)) :: byte) [0..<n]
      = map (\<lambda>i. word_of_nat (x div 256 div 256 ^ (n - 1 - i))) [0..<n]"
    by simp
  then show ?thesis by (simp add: be_bytes_def)
qed

lemma length_be_bytes [simp]: "length (be_bytes n x) = n"
  by (simp add: be_bytes_def)

lemma get_be_snoc: "get_be (bs @ [b]) = 256 * get_be bs + unat b"
  by (simp add: get_be_def)

lemma get_be_bytes: "get_be (be_bytes n x) = x mod 256 ^ n"
proof (induction n arbitrary: x)
  case 0
  then show ?case by (simp add: be_bytes_def get_be_def)
next
  case (Suc n)
  have "256 * (x div 256 mod 256 ^ n) + x mod 256 = x mod (256 * 256 ^ n)"
    by (simp add: mod_mult2_eq)
  then show ?case using Suc by (simp add: be_bytes_Suc get_be_snoc unat_of_nat)
qed

lemma length_be [simp]: "length (be16 n) = 2" "length (be64 c) = 8"
  by (simp_all add: be16_def be64_def)

lemma get_be16: "n < 2 ^ 16 \<Longrightarrow> get_be (be16 n) = n"
  by (simp add: be16_def get_be_bytes)

lemma get_be64: "word_of_nat (get_be (be64 c)) = c"
proof -
  have "unat c < 2 ^ LENGTH(64)" by (rule unsigned_less)
  then show ?thesis by (simp add: be64_def get_be_bytes)
qed

section \<open>Host order\<close>

definition le16 :: "16 word \<Rightarrow> byte list" where
  "le16 w = [ucast w, ucast (drop_bit 8 w)]"

definition le32 :: "32 word \<Rightarrow> byte list" where
  "le32 w = [ucast w, ucast (drop_bit 8 w), ucast (drop_bit 16 w), ucast (drop_bit 24 w)]"

definition get_le :: "byte list \<Rightarrow> nat" where
  "get_le bs = get_be (rev bs)"

lemma length_le [simp]: "length (le16 w) = 2" "length (le32 v) = 4"
  by (simp_all add: le16_def le32_def)

end
