(* ===== verification/Sha1.thy ===== *)
theory Sha1
  imports Bytes
begin

text \<open>
  SHA-1 as \<^verbatim>\<open>wlan-core-crypto.c\<close> of \<^verbatim>\<open>blts-wlan-core\<close> computes it: the unrolled rounds of
  \<^verbatim>\<open>SHA1Transform\<close> on a circular schedule of 16 words, and a context that is fed with pieces of a
  message and buffers up to 63 bytes.
\<close>

unbundle bit_operations_syntax

section \<open>The code\<close>

subsection \<open>One block\<close>

definition rol :: "32 word \<Rightarrow> nat \<Rightarrow> 32 word" where
  "rol v n = push_bit n v OR drop_bit (32 - n) v"

text \<open>The union that reads the 64 bytes of a block as 16 words of the host.\<close>

definition load_le32 :: "byte list \<Rightarrow> nat \<Rightarrow> 32 word" where
  "load_le32 c i = ucast (c ! (4 * i)) OR push_bit 8 (ucast (c ! (4 * i + 1)))
     OR push_bit 16 (ucast (c ! (4 * i + 2))) OR push_bit 24 (ucast (c ! (4 * i + 3)))"

definition blk0 :: "32 word list \<Rightarrow> nat \<Rightarrow> 32 word list \<times> 32 word" where
  "blk0 l i = (let x = (rol (l ! i) 24 AND 0xFF00FF00) OR (rol (l ! i) 8 AND 0x00FF00FF) in (l[i := x], x))"

definition blk :: "32 word list \<Rightarrow> nat \<Rightarrow> 32 word list \<times> 32 word" where
  "blk l i = (let x = rol (l ! ((i + 13) mod 16) XOR l ! ((i + 8) mod 16) XOR l ! ((i + 2) mod 16)
      XOR l ! (i mod 16)) 1 in (l[i mod 16 := x], x))"

datatype sha1_op = R0 | R1 | R2 | R3 | R4

fun round_mix :: "sha1_op \<Rightarrow> 32 word \<Rightarrow> 32 word \<Rightarrow> 32 word \<Rightarrow> 32 word" where
  "round_mix R0 w x y = (w AND (x XOR y)) XOR y"
| "round_mix R1 w x y = (w AND (x XOR y)) XOR y"
| "round_mix R2 w x y = w XOR x XOR y"
| "round_mix R3 w x y = ((w OR x) AND y) OR (w AND x)"
| "round_mix R4 w x y = w XOR x XOR y"

fun round_const :: "sha1_op \<Rightarrow> 32 word" where
  "round_const R0 = 0x5A827999"
| "round_const R1 = 0x5A827999"
| "round_const R2 = 0x6ED9EBA1"
| "round_const R3 = 0x8F1BBCDC"
| "round_const R4 = 0xCA62C1D6"

definition round_expand :: "sha1_op \<Rightarrow> 32 word list \<Rightarrow> nat \<Rightarrow> 32 word list \<times> 32 word" where
  "round_expand op l i = (if op = R0 then blk0 l i else blk l i)"

text \<open>
  The variables \<^verbatim>\<open>a\<close> to \<^verbatim>\<open>e\<close> are the list \<open>r\<close>. A call such as \<^verbatim>\<open>R0(e,a,b,c,d, 1)\<close> is
  \<open>(R0, ''eabcd'', 1)\<close>: it changes its fifth and its second argument.
\<close>

definition reg :: "char \<Rightarrow> nat" where
  "reg c = of_char c - 97"

definition round_step :: "32 word list \<times> 32 word list \<Rightarrow> sha1_op \<times> string \<times> nat \<Rightarrow> 32 word list \<times> 32 word list" where
  "round_step s call = (case (s, call) of ((r, l), (op, args, i)) \<Rightarrow>
     let v = reg (args ! 0); w = reg (args ! 1); x = reg (args ! 2); y = reg (args ! 3); z = reg (args ! 4);
         (l', k) = round_expand op l i;
         t = r ! z + (round_mix op (r ! w) (r ! x) (r ! y) + k + round_const op + rol (r ! v) 5)
     in (r[z := t, w := rol (r ! w) 30], l'))"

definition sha1_calls :: "(sha1_op \<times> string \<times> nat) list" where
  "sha1_calls =
    [(R0,''abcde'', 0), (R0,''eabcd'', 1), (R0,''deabc'', 2), (R0,''cdeab'', 3),
     (R0,''bcdea'', 4), (R0,''abcde'', 5), (R0,''eabcd'', 6), (R0,''deabc'', 7),
     (R0,''cdeab'', 8), (R0,''bcdea'', 9), (R0,''abcde'',10), (R0,''eabcd'',11),
     (R0,''deabc'',12), (R0,''cdeab'',13), (R0,''bcdea'',14), (R0,''abcde'',15),
     (R1,''eabcd'',16), (R1,''deabc'',17), (R1,''cdeab'',18), (R1,''bcdea'',19),
     (R2,''abcde'',20), (R2,''eabcd'',21), (R2,''deabc'',22), (R2,''cdeab'',23),
     (R2,''bcdea'',24), (R2,''abcde'',25), (R2,''eabcd'',26), (R2,''deabc'',27),
     (R2,''cdeab'',28), (R2,''bcdea'',29), (R2,''abcde'',30), (R2,''eabcd'',31),
     (R2,''deabc'',32), (R2,''cdeab'',33), (R2,''bcdea'',34), (R2,''abcde'',35),
     (R2,''eabcd'',36), (R2,''deabc'',37), (R2,''cdeab'',38), (R2,''bcdea'',39),
     (R3,''abcde'',40), (R3,''eabcd'',41), (R3,''deabc'',42), (R3,''cdeab'',43),
     (R3,''bcdea'',44), (R3,''abcde'',45), (R3,''eabcd'',46), (R3,''deabc'',47),
     (R3,''cdeab'',48), (R3,''bcdea'',49), (R3,''abcde'',50), (R3,''eabcd'',51),
     (R3,''deabc'',52), (R3,''cdeab'',53), (R3,''bcdea'',54), (R3,''abcde'',55),
     (R3,''eabcd'',56), (R3,''deabc'',57), (R3,''cdeab'',58), (R3,''bcdea'',59),
     (R4,''abcde'',60), (R4,''eabcd'',61), (R4,''deabc'',62), (R4,''cdeab'',63),
     (R4,''bcdea'',64), (R4,''abcde'',65), (R4,''eabcd'',66), (R4,''deabc'',67),
     (R4,''cdeab'',68), (R4,''bcdea'',69), (R4,''abcde'',70), (R4,''eabcd'',71),
     (R4,''deabc'',72), (R4,''cdeab'',73), (R4,''bcdea'',74), (R4,''abcde'',75),
     (R4,''eabcd'',76), (R4,''deabc'',77), (R4,''cdeab'',78), (R4,''bcdea'',79)]"

definition SHA1Transform :: "32 word list \<Rightarrow> byte list \<Rightarrow> 32 word list" where
  "SHA1Transform state buffer = map2 (+) state
     (fst (foldl round_step (state, map (load_le32 buffer) [0..<16]) sha1_calls))"

subsection \<open>The context\<close>

record sha1_ctx =
  sha1_state :: "32 word list"
  sha1_count0 :: "32 word"
  sha1_count1 :: "32 word"
  sha1_buffer :: "byte list"

definition SHA1Init :: "sha1_ctx \<Rightarrow> sha1_ctx" where
  "SHA1Init ctx = ctx\<lparr>sha1_state := [0x67452301, 0xEFCDAB89, 0x98BADCFE, 0x10325476, 0xC3D2E1F0],
     sha1_count0 := 0, sha1_count1 := 0\<rparr>"

text \<open>\<^verbatim>\<open>memcpy(&dst[j], &src[i], n)\<close>, with the bounds of both objects.\<close>

definition memcpy_at :: "byte list \<Rightarrow> nat \<Rightarrow> byte list \<Rightarrow> nat \<Rightarrow> nat \<Rightarrow> byte list res" where
  "memcpy_at dst j src i n = rbind (read_bytes src i n) (write_bytes dst j)"

definition sha1_whole_blocks :: "byte list \<Rightarrow> 32 word \<Rightarrow> 32 word \<times> 32 word list \<Rightarrow> (32 word \<times> 32 word list) res" where
  "sha1_whole_blocks data len = cwhile (\<lambda>(i, st). i + 63 < len)
     (\<lambda>(i, st). rbind (read_bytes data (unat i) 64) (\<lambda>block. Inr (i + 64, SHA1Transform st block)))"

definition SHA1Update :: "sha1_ctx \<Rightarrow> byte list \<Rightarrow> 32 word \<Rightarrow> sha1_ctx res" where
  "SHA1Update ctx data len =
    (let j = drop_bit 3 (sha1_count0 ctx) AND 63;
         c0 = sha1_count0 ctx + push_bit 3 len;
         c1 = (if c0 < push_bit 3 len then sha1_count1 ctx + 1 else sha1_count1 ctx) + drop_bit 29 len;
         ctx = ctx\<lparr>sha1_count0 := c0, sha1_count1 := c1\<rparr>
     in if j + len > 63 then
          rbind (memcpy_at (sha1_buffer ctx) (unat j) data 0 (unat (64 - j))) (\<lambda>buf.
          rbind (sha1_whole_blocks data len (64 - j, SHA1Transform (sha1_state ctx) buf)) (\<lambda>(i, st).
          rbind (memcpy_at buf 0 data (unat i) (unat (len - i))) (\<lambda>buf.
          Inr (ctx\<lparr>sha1_state := st, sha1_buffer := buf\<rparr>))))
        else
          rbind (memcpy_at (sha1_buffer ctx) (unat j) data 0 (unat len)) (\<lambda>buf.
          Inr (ctx\<lparr>sha1_buffer := buf\<rparr>)))"

definition finalcount :: "sha1_ctx \<Rightarrow> byte list" where
  "finalcount ctx = map (\<lambda>i. ucast (drop_bit ((3 - i mod 4) * 8)
     (if i \<ge> 4 then sha1_count0 ctx else sha1_count1 ctx) AND 255)) [0..<8]"

definition sha1_digest :: "32 word list \<Rightarrow> byte list" where
  "sha1_digest st = map (\<lambda>i. ucast (drop_bit ((3 - i mod 4) * 8) (st ! (i div 4)) AND 255)) [0..<20]"

definition SHA1Final :: "sha1_ctx \<Rightarrow> byte list res" where
  "SHA1Final ctx = (let fc = finalcount ctx in
     rbind (SHA1Update ctx [0x80] 1) (\<lambda>ctx.
     rbind (cwhile (\<lambda>ctx. sha1_count0 ctx AND 504 \<noteq> 448) (\<lambda>ctx. SHA1Update ctx [0] 1) ctx) (\<lambda>ctx.
     rbind (SHA1Update ctx fc 8) (\<lambda>ctx.
     Inr (sha1_digest (sha1_state ctx))))))"

text \<open>
  The context lives on the stack and its buffer is not initialised; \<open>ctx_holds_init\<close> and the lemmas
  after it hold for any 64 bytes in it. The \<^verbatim>\<open>size_t\<close> of a piece becomes a \<^verbatim>\<open>u32\<close>.
\<close>

fun sha1_feed :: "sha1_ctx \<Rightarrow> byte list list \<Rightarrow> sha1_ctx res" where
  "sha1_feed ctx [] = Inr ctx"
| "sha1_feed ctx (d # ds) = rbind (SHA1Update ctx d (word_of_nat (length d))) (\<lambda>ctx. sha1_feed ctx ds)"

definition fresh_ctx :: sha1_ctx where
  "fresh_ctx = \<lparr>sha1_state = [], sha1_count0 = 0, sha1_count1 = 0, sha1_buffer = replicate 64 0\<rparr>"

definition sha1_vector :: "byte list list \<Rightarrow> byte list res" where
  "sha1_vector ds = rbind (sha1_feed (SHA1Init fresh_ctx) ds) SHA1Final"

end
