(* ===== verification/Sha1_Spec.thy ===== *)
theory Sha1_Spec
  imports Sha1
begin

text \<open>
  SHA-1 as FIPS 180 defines it, and the proof that \<open>sha1_vector\<close> computes it: the rounds on rotating
  variables and a circular schedule do what the standard's rounds on a schedule of 80 words do, and
  a context that was fed with the pieces of a message holds the hash of its whole blocks, its length
  in bits and its last incomplete block, however the message was cut.
\<close>

unbundle bit_operations_syntax

section \<open>The standard\<close>

definition load_be32 :: "byte list \<Rightarrow> nat \<Rightarrow> 32 word" where
  "load_be32 c i = push_bit 24 (ucast (c ! (4 * i))) OR push_bit 16 (ucast (c ! (4 * i + 1)))
     OR push_bit 8 (ucast (c ! (4 * i + 2))) OR ucast (c ! (4 * i + 3))"

fun sha1_word :: "byte list \<Rightarrow> nat \<Rightarrow> 32 word" where
  "sha1_word m t = (if t < 16 then load_be32 m t
     else rol (sha1_word m (t - 3) XOR sha1_word m (t - 8) XOR sha1_word m (t - 14) XOR sha1_word m (t - 16)) 1)"

declare sha1_word.simps [simp del]

definition sha1_f :: "nat \<Rightarrow> 32 word \<Rightarrow> 32 word \<Rightarrow> 32 word \<Rightarrow> 32 word" where
  "sha1_f t x y z = (if t < 20 then (x AND y) XOR (NOT x AND z)
     else if t < 40 then x XOR y XOR z
     else if t < 60 then (x AND y) XOR (x AND z) XOR (y AND z)
     else x XOR y XOR z)"

definition sha1_k :: "nat \<Rightarrow> 32 word" where
  "sha1_k t = (if t < 20 then 0x5A827999 else if t < 40 then 0x6ED9EBA1
     else if t < 60 then 0x8F1BBCDC else 0xCA62C1D6)"

fun sha1_round :: "byte list \<Rightarrow> nat \<Rightarrow> 32 word list \<Rightarrow> 32 word list" where
  "sha1_round m t [a, b, c, d, e] = [rol a 5 + sha1_f t b c d + e + sha1_k t + sha1_word m t, a, rol b 30, c, d]"
| "sha1_round m t _ = []"

definition sha1_compress :: "32 word list \<Rightarrow> byte list \<Rightarrow> 32 word list" where
  "sha1_compress h m = map2 (+) h (fold (sha1_round m) [0..<80] h)"

definition whole_blocks :: "byte list \<Rightarrow> byte list list" where
  "whole_blocks m = map (\<lambda>k. take 64 (drop (64 * k) m)) [0..<length m div 64]"

definition hash_blocks :: "32 word list \<Rightarrow> byte list \<Rightarrow> 32 word list" where
  "hash_blocks h m = foldl sha1_compress h (whole_blocks m)"

definition sha1_initial :: "32 word list" where
  "sha1_initial = [0x67452301, 0xEFCDAB89, 0x98BADCFE, 0x10325476, 0xC3D2E1F0]"

text \<open>A one bit, zeros up to eight bytes before the end of a block, and the length in bits.\<close>

definition sha1_pad :: "byte list \<Rightarrow> byte list" where
  "sha1_pad m = m @ [0x80] @ replicate ((119 - length m mod 64) mod 64) 0 @ be_bytes 8 (8 * length m)"

definition sha1 :: "byte list \<Rightarrow> byte list" where
  "sha1 m = concat (map (\<lambda>w. be_bytes 4 (unat w)) (hash_blocks sha1_initial (sha1_pad m)))"

section \<open>One block\<close>

definition op_at :: "nat \<Rightarrow> sha1_op" where
  "op_at i = (if i < 16 then R0 else if i < 20 then R1 else if i < 40 then R2 else if i < 60 then R3 else R4)"

definition reg_at :: "nat \<Rightarrow> nat \<Rightarrow> nat" where
  "reg_at k i = (k + 4 * i) mod 5"

definition step_at :: "nat \<Rightarrow> 32 word list \<times> 32 word list \<Rightarrow> 32 word list \<times> 32 word list" where
  "step_at i s = (case s of (r, l) \<Rightarrow> let (l', k) = round_expand (op_at i) l i;
      t = r ! reg_at 4 i + (round_mix (op_at i) (r ! reg_at 1 i) (r ! reg_at 2 i) (r ! reg_at 3 i) + k
            + round_const (op_at i) + rol (r ! reg_at 0 i) 5)
     in (r[reg_at 4 i := t, reg_at 1 i := rol (r ! reg_at 1 i) 30], l'))"

lemma sha1_calls_regular:
  "map (\<lambda>(op, args, i). (op, map reg args, i)) sha1_calls
     = map (\<lambda>i. (op_at i, map (\<lambda>k. reg_at k i) [0..<5], i)) [0..<80]"
  by (simp add: sha1_calls_def reg_def op_at_def reg_at_def upt_rec)

lemma round_step_at:
  assumes "i < 80"
  shows "round_step s (sha1_calls ! i) = step_at i s"
proof -
  obtain op args n where c: "sha1_calls ! i = (op, args, n)"
    by (cases "sha1_calls ! i")
  have len: "length sha1_calls = 80"
    using arg_cong [OF sha1_calls_regular, of length] by simp
  have "map (\<lambda>(op, args, i). (op, map reg args, i)) sha1_calls ! i
      = map (\<lambda>i. (op_at i, map (\<lambda>k. reg_at k i) [0..<5], i)) [0..<80] ! i"
    by (simp only: sha1_calls_regular)
  then have op: "op = op_at i" and n: "n = i" and args: "map reg args = map (\<lambda>k. reg_at k i) [0..<5]"
    using c assms len by simp_all
  have la: "length args = 5"
    using arg_cong [OF args, of length] by simp
  have "reg (args ! k) = reg_at k i" if "k < 5" for k
    using arg_cong [OF args, of "\<lambda>xs. xs ! k"] that la by simp
  then show ?thesis
    by (simp add: round_step_def step_at_def c op n Let_def split: prod.splits)
qed

lemma foldl_calls: "foldl round_step s sha1_calls = foldl (\<lambda>s i. step_at i s) s [0..<80]"
proof -
  have len: "length sha1_calls = 80"
    using arg_cong [OF sha1_calls_regular, of length] by simp
  have "foldl round_step s (map ((!) sha1_calls) [0..<80]) = foldl (\<lambda>s i. step_at i s) s [0..<80]"
    by (simp only: foldl_map) (rule foldl_cong, simp_all add: round_step_at)
  then show ?thesis
    by (simp only: map_nth [of sha1_calls, unfolded len])
qed

lemma byte_high_bit [simp]: "8 \<le> n \<Longrightarrow> \<not> bit (x :: byte) n"
  using bit_imp_le_length [of x n] by fastforce

lemma swap_le32:
  "(rol (load_le32 c i) 24 AND 0xFF00FF00) OR (rol (load_le32 c i) 8 AND 0x00FF00FF) = load_be32 c i"
proof -
  have *: "(rol w 24 AND 0xFF00FF00) OR (rol w 8 AND 0x00FF00FF) = v"
    if "w = ucast a OR push_bit 8 (ucast b) OR push_bit 16 (ucast d) OR push_bit 24 (ucast e)"
      and "v = push_bit 24 (ucast a) OR push_bit 16 (ucast b) OR push_bit 8 (ucast d) OR ucast e"
    for a b d e :: byte and w v :: "32 word"
  proof (rule bit_word_eqI)
    fix n assume "n < LENGTH(32)"
    then have "n \<in> set [0..<32]" by simp
    then show "bit ((rol w 24 AND 0xFF00FF00) OR (rol w 8 AND 0x00FF00FF)) n \<longleftrightarrow> bit v n"
      unfolding that by (simp add: upt_rec) (elim disjE; simp add: rol_def bit_simps; simp add: numeral_eq_Suc)
  qed
  show ?thesis
    by (rule *) (simp_all add: load_le32_def load_be32_def)
qed

lemma round_mix_f:
  assumes "i < 80"
  shows "round_mix (op_at i) w x y = sha1_f i w x y"
proof -
  have ch: "(w AND (x XOR y)) XOR y = (w AND x) XOR (NOT w AND y)" for w x y :: "32 word"
    by (rule bit_eqI) (auto simp: bit_simps)
  have maj: "((w OR x) AND y) OR (w AND x) = (w AND x) XOR (w AND y) XOR (x AND y)" for w x y :: "32 word"
    by (rule bit_eqI) (auto simp: bit_simps)
  show ?thesis
    by (simp add: op_at_def sha1_f_def ch maj)
qed

lemma round_const_k: "round_const (op_at i) = sha1_k i"
  by (simp add: op_at_def sha1_k_def)

text \<open>
  Before the round \<open>i\<close> the variables hold the standard's words in the order of the next call, and the
  circular schedule holds the last 16 words, or the words of the block that are still to be read.
\<close>

definition round_inv :: "byte list \<Rightarrow> nat \<Rightarrow> 32 word list \<Rightarrow> 32 word list \<times> 32 word list \<Rightarrow> bool" where
  "round_inv m i h s = (case s of (r, l) \<Rightarrow> length h = 5 \<and> length r = 5 \<and> length l = 16
     \<and> (\<forall>k<5. r ! reg_at k i = h ! k)
     \<and> (\<forall>t<i. i \<le> t + 16 \<longrightarrow> l ! (t mod 16) = sha1_word m t)
     \<and> (\<forall>t<16. i \<le> t \<longrightarrow> l ! t = load_le32 m t))"

lemma five_list:
  assumes "length h = 5"
  obtains a b c d e where "h = [a, b, c, d, e]"
  using assms by (auto simp: numeral_eq_Suc length_Suc_conv)

lemma expand_word:
  assumes inv: "round_inv m i h (r, l)" and "i < 80"
  shows "round_expand (op_at i) l i = (l[i mod 16 := sha1_word m i], sha1_word m i)"
proof (cases "i < 16")
  case True
  then have "l ! i = load_le32 m i" using inv by (simp add: round_inv_def)
  then show ?thesis
    using True by (simp add: round_expand_def op_at_def blk0_def swap_le32 Let_def sha1_word.simps)
next
  case False
  have w: "l ! ((i + (16 - k)) mod 16) = sha1_word m (i - k)" if "0 < k" "k \<le> 16" for k
  proof -
    have "l ! ((i - k) mod 16) = sha1_word m (i - k)"
      using inv that False by (simp add: round_inv_def)
    moreover have "i + (16 - k) = (i - k) + 16" using that False by simp
    ultimately show ?thesis by (metis mod_add_self2)
  qed
  show ?thesis
    using w [of 3] w [of 8] w [of 14] w [of 16] False
    by (simp add: round_expand_def op_at_def blk_def Let_def sha1_word.simps [of m i])
qed

lemma reg_at_back: "k < 5 \<Longrightarrow> (reg_at k i + i) mod 5 = k"
proof -
  have "(reg_at k i + i) mod 5 = (k + 5 * i) mod 5"
    by (simp add: reg_at_def mod_simps algebra_simps)
  then show "k < 5 \<Longrightarrow> (reg_at k i + i) mod 5 = k" by simp
qed

lemma round_inv_step:
  assumes inv: "round_inv m i h s" and "i < 80"
  shows "round_inv m (Suc i) (sha1_round m i h) (step_at i s)"
proof -
  obtain r l where s: "s = (r, l)" by (cases s)
  obtain a b c d e where h: "h = [a, b, c, d, e]"
    using inv five_list by (metis (mono_tags, lifting) case_prodD round_inv_def s)
  have r: "r ! reg_at k i = h ! k" if "k < 5" for k
    using inv that by (simp add: round_inv_def s)
  have lens: "length r = 5" "length l = 16"
    using inv by (simp_all add: round_inv_def s)
  have l: "l ! (t mod 16) = sha1_word m t" if "t < i" "i \<le> t + 16" for t
    using inv that by (simp add: round_inv_def s)
  have l0: "l ! t = load_le32 m t" if "t < 16" "i \<le> t" for t
    using inv that by (simp add: round_inv_def s)
  define T where "T = rol a 5 + sha1_f i b c d + e + sha1_k i + sha1_word m i"
  have st: "step_at i s = (r[reg_at 4 i := T, reg_at 1 i := rol b 30], l[i mod 16 := sha1_word m i])"
    using expand_word [OF inv [unfolded s] \<open>i < 80\<close>] r [of 0] r [of 1] r [of 2] r [of 3] r [of 4] \<open>i < 80\<close>
    by (simp add: step_at_def s h round_mix_f round_const_k T_def ac_simps)
  have next_reg: "reg_at (Suc k) (Suc i) = reg_at k i" for k
    by (simp add: reg_at_def mod_simps)
  have regs: "reg_at 0 (Suc i) = reg_at 4 i" "reg_at (Suc 0) (Suc i) = reg_at 0 i"
    "reg_at 2 (Suc i) = reg_at 1 i" "reg_at 3 (Suc i) = reg_at 2 i" "reg_at 4 (Suc i) = reg_at 3 i"
    using next_reg [of 0] next_reg [of 1] next_reg [of 2] next_reg [of 3]
    by (simp_all add: reg_at_def mod_simps)
  have inj: "reg_at j i = reg_at k i \<longleftrightarrow> j = k" if "j < 5" "k < 5" for j k
    using that reg_at_back by metis
  have bound: "reg_at k i < 5" for k
    by (simp add: reg_at_def)
  have r': "r[reg_at 4 i := T, reg_at 1 i := rol b 30] ! reg_at k (Suc i) = sha1_round m i h ! k"
    if k: "k < 5" for k
  proof -
    consider "k = 0" | "k = 1" | "k = 2" | "k = 3" | "k = 4" using k by linarith
    then show ?thesis
      using r [of 0] r [of 2] r [of 3] by cases (simp_all add: h regs inj bound lens nth_list_update T_def)
  qed
  have wrap: "i mod 16 \<noteq> t mod 16" if "t < i" "i \<le> 15 + t" for t
    using that mod_eq_dvd_iff_nat [of t i 16] nat_dvd_not_less [of "i - t" 16] by auto
  show ?thesis
    unfolding st round_inv_def
    using lens r' l l0 h wrap by (auto simp: nth_list_update less_Suc_eq)
qed

lemma round_inv_start:
  assumes "length h = 5"
  shows "round_inv m 0 h (h, map (load_le32 m) [0..<16])"
  using assms by (simp add: round_inv_def reg_at_def)

lemma round_inv_run:
  assumes "length h = 5" and "n \<le> 80"
  shows "round_inv m n (fold (sha1_round m) [0..<n] h)
    (foldl (\<lambda>s i. step_at i s) (h, map (load_le32 m) [0..<16]) [0..<n])"
  using \<open>n \<le> 80\<close>
proof (induction n)
  case 0
  then show ?case using round_inv_start [OF assms(1)] by simp
next
  case (Suc n)
  then show ?case using round_inv_step [of m n] by simp
qed

lemma SHA1Transform_compress:
  assumes "length h = 5"
  shows "SHA1Transform h m = sha1_compress h m"
proof -
  define s where "s = foldl (\<lambda>s i. step_at i s) (h, map (load_le32 m) [0..<16]) [0..<80]"
  have inv: "round_inv m 80 (fold (sha1_round m) [0..<80] h) s"
    unfolding s_def by (rule round_inv_run [OF assms]) simp
  have "fst s = fold (sha1_round m) [0..<80] h"
  proof (rule nth_equalityI)
    show "length (fst s) = length (fold (sha1_round m) [0..<80] h)"
      using inv by (auto simp: round_inv_def)
    fix k assume "k < length (fst s)"
    then have "k < 5" using inv by (auto simp: round_inv_def)
    moreover from this have "reg_at k 80 = k" by (simp add: reg_at_def) presburger
    ultimately show "fst s ! k = fold (sha1_round m) [0..<80] h ! k"
      using inv by (auto simp: round_inv_def)
  qed
  then show ?thesis
    by (simp add: SHA1Transform_def sha1_compress_def foldl_calls s_def)
qed

lemma length_compress [simp]:
  assumes "length h = 5"
  shows "length (sha1_compress h m) = 5"
proof -
  have "round_inv m 80 (fold (sha1_round m) [0..<80] h)
    (foldl (\<lambda>s i. step_at i s) (h, map (load_le32 m) [0..<16]) [0..<80])"
    by (rule round_inv_run [OF assms]) simp
  then have "length (fold (sha1_round m) [0..<80] h) = 5"
    by (auto simp: round_inv_def)
  then show ?thesis using assms by (simp add: sha1_compress_def)
qed

section \<open>A message in pieces\<close>

lemma whole_blocks_short: "length m < 64 \<Longrightarrow> whole_blocks m = []"
  by (simp add: whole_blocks_def)

lemma whole_blocks_block:
  assumes "length b = 64"
  shows "whole_blocks (b @ m) = b # whole_blocks m"
proof -
  have "length (b @ m) div 64 = Suc (length m div 64)"
    using assms by simp
  then have "[0..<length (b @ m) div 64] = 0 # map Suc [0..<length m div 64]"
    by (simp add: map_Suc_upt upt_conv_Cons del: upt_Suc length_append)
  then show ?thesis
    using assms by (simp add: whole_blocks_def del: upt_Suc)
qed

lemma hash_blocks_short [simp]: "length m < 64 \<Longrightarrow> hash_blocks h m = h"
  by (simp add: hash_blocks_def whole_blocks_short)

lemma hash_blocks_block: "length b = 64 \<Longrightarrow> hash_blocks h (b @ m) = hash_blocks (sha1_compress h b) m"
  by (simp add: hash_blocks_def whole_blocks_block)

lemma length_hash_blocks [simp]: "length h = 5 \<Longrightarrow> length (hash_blocks h m) = 5"
proof -
  have "length h = 5 \<Longrightarrow> length (foldl sha1_compress h bs) = 5" for bs
    by (induction bs arbitrary: h) simp_all
  then show "length h = 5 \<Longrightarrow> length (hash_blocks h m) = 5" by (simp add: hash_blocks_def)
qed

text \<open>The bytes behind the last whole block.\<close>

definition pending :: "byte list \<Rightarrow> byte list" where
  "pending m = drop (64 * (length m div 64)) m"

lemma length_pending [simp]: "length (pending m) = length m mod 64"
  by (simp add: pending_def minus_mult_div_eq_mod)

lemma pending_block:
  assumes "length b = 64"
  shows "pending (b @ m) = pending m"
proof -
  have "length (b @ m) div 64 = Suc (length m div 64)"
    using assms by simp
  then show ?thesis
    using assms by (simp add: pending_def del: length_append)
qed

lemma pending_short [simp]: "length m < 64 \<Longrightarrow> pending m = m"
  by (simp add: pending_def)

lemma blocks_append: "hash_blocks h (m @ d) = hash_blocks (hash_blocks h m) (pending m @ d)
     \<and> pending (m @ d) = pending (pending m @ d)"
proof (induction "length m" arbitrary: m h rule: less_induct)
  case less
  show ?case
  proof (cases "length m < 64")
    case True
    then show ?thesis by simp
  next
    case False
    define b r where "b = take 64 m" and "r = drop 64 m"
    have m: "m = b @ r" and b: "length b = 64" using False by (simp_all add: b_def r_def)
    have "length r < length m" using m b by simp
    from less [OF this, of "sha1_compress h b"] show ?thesis
      by (simp add: m hash_blocks_block [OF b] pending_block [OF b])
  qed
qed

definition ctx_holds :: "sha1_ctx \<Rightarrow> byte list \<Rightarrow> bool" where
  "ctx_holds ctx m \<longleftrightarrow> length (sha1_buffer ctx) = 64
     \<and> sha1_state ctx = hash_blocks sha1_initial m
     \<and> take (length m mod 64) (sha1_buffer ctx) = pending m
     \<and> unat (sha1_count1 ctx) * 2 ^ 32 + unat (sha1_count0 ctx) = 8 * length m mod 2 ^ 64"

lemma ctx_holds_init: "length (sha1_buffer ctx) = 64 \<Longrightarrow> ctx_holds (SHA1Init ctx) []"
  by (simp add: ctx_holds_def SHA1Init_def sha1_initial_def)

lemma unat_and_63: "unat (x AND 63 :: 32 word) = unat x mod 64"
proof -
  have "x AND 63 = take_bit 6 x" by (simp add: take_bit_eq_mask mask_eq_exp_minus_1)
  then show ?thesis by (simp add: take_bit_eq_mod unat_mod_distrib)
qed

lemma unat_word32: "unat (x :: 32 word) < 2 ^ 32"
proof -
  have "unat x < 2 ^ LENGTH(32)" by (rule unsigned_less)
  then show ?thesis by simp
qed

lemma ctx_position:
  assumes "ctx_holds ctx m"
  shows "unat (drop_bit 3 (sha1_count0 ctx) AND 63) = length m mod 64"
proof -
  have "unat (sha1_count0 ctx) = (unat (sha1_count1 ctx) * 2 ^ 32 + unat (sha1_count0 ctx)) mod 2 ^ 32"
    using unat_word32 [of "sha1_count0 ctx"] by simp
  also have "\<dots> = 8 * length m mod 2 ^ 64 mod 2 ^ 32"
    using assms by (simp add: ctx_holds_def)
  also have "\<dots> = 8 * length m mod 2 ^ 32"
    by (rule mod_mod_cancel) simp
  also have "\<dots> = 8 * (length m mod 2 ^ 29)"
    by (simp add: mult_mod_right)
  finally have "unat (sha1_count0 ctx) div 8 mod 64 = length m mod 2 ^ 29 mod 64"
    by simp
  also have "\<dots> = length m mod 64"
    by (rule mod_mod_cancel) simp
  finally show ?thesis
    by (simp add: unat_and_63 drop_bit_eq_div unat_div_distrib)
qed

text \<open>The two words of the length, with the carry the code takes from a comparison.\<close>

lemma count_carry:
  fixes c0 c1 len :: "32 word"
  assumes c: "unat c1 * 2 ^ 32 + unat c0 = L mod 2 ^ 64"
  shows "unat ((if c0 + push_bit 3 len < push_bit 3 len then c1 + 1 else c1) + drop_bit 29 len) * 2 ^ 32
      + unat (c0 + push_bit 3 len) = (L + 8 * unat len) mod 2 ^ 64"
proof -
  define b where "b = push_bit 3 len"
  define q where "q = unat (drop_bit 29 len)"
  define k :: nat where "k = (if c0 + b < b then 1 else 0)"
  have ub: "unat b = 8 * unat len mod 2 ^ 32"
    by (simp add: b_def push_bit_eq_mult unat_word_ariths mult.commute)
  have uq: "q = unat len div 2 ^ 29"
    by (simp add: q_def drop_bit_eq_div unat_div_distrib)
  have split: "8 * unat len = q * 2 ^ 32 + unat b"
    using div_mult_mod_eq [of "8 * unat len" "2 ^ 32"] by (simp add: ub uq div_mult2_eq [symmetric])
  have sum: "unat c0 + unat b = k * 2 ^ 32 + unat (c0 + b)"
    using unat_word32 [of c0] unat_word32 [of b]
    by (auto simp: k_def word_less_nat_alt unat_plus_if' split: if_splits)
  define x where "x = unat c1 + k + q"
  have ux: "unat ((if c0 + b < b then c1 + 1 else c1) + drop_bit 29 len) = x mod 2 ^ 32"
    by (simp add: x_def k_def q_def unat_word_ariths mod_simps)
  have "(x mod 2 ^ 32) * 2 ^ 32 + unat (c0 + b) < 2 ^ 64"
    using unat_word32 [of "c0 + b"] mod_less_divisor [of "2 ^ 32" x] by simp
  then have "(x mod 2 ^ 32) * 2 ^ 32 + unat (c0 + b) = ((x mod 2 ^ 32) * 2 ^ 32 + unat (c0 + b)) mod 2 ^ 64"
    by simp
  also have "\<dots> = ((x * 2 ^ 32) mod 2 ^ 64 + unat (c0 + b)) mod 2 ^ 64"
    using mult_mod_left [of x "2 ^ 32" "2 ^ 32"] by simp
  also have "\<dots> = (x * 2 ^ 32 + unat (c0 + b)) mod 2 ^ 64"
    by (simp add: mod_simps)
  also have "x * 2 ^ 32 + unat (c0 + b) = (unat c1 * 2 ^ 32 + unat c0) + 8 * unat len"
    using split sum by (simp add: x_def algebra_simps)
  also have "(\<dots>) mod 2 ^ 64 = (L + 8 * unat len) mod 2 ^ 64"
    unfolding c by (simp add: mod_simps)
  finally show ?thesis
    by (simp only: ux b_def [symmetric])
qed

lemma memcpy_in:
  "i + n \<le> length src \<Longrightarrow> j + n \<le> length dst
    \<Longrightarrow> memcpy_at dst j src i n = Inr (take j dst @ take n (drop i src) @ drop (j + n) dst)"
  by (simp add: memcpy_at_def read_bytes_in write_bytes_def)

lemma whole_blocks_run:
  assumes "length d + 64 \<le> 2 ^ 32" and "i \<le> length d" and "length st = 5"
  shows "\<exists>i'. sha1_whole_blocks d (word_of_nat (length d)) (word_of_nat i, st)
      = Inr (word_of_nat i', hash_blocks st (drop i d)) \<and> i' \<le> length d \<and> drop i' d = pending (drop i d)"
  using assms(2,3)
proof (induction "length d - i" arbitrary: i st rule: less_induct)
  case less
  let ?loop = "sha1_whole_blocks d (word_of_nat (length d))"
  have nowrap: "unat (word_of_nat k :: 32 word) = k" if "k < 2 ^ 32" for k
    using that by (simp add: unat_of_nat)
  have cond: "(word_of_nat i + 63 < (word_of_nat (length d) :: 32 word)) \<longleftrightarrow> i + 63 < length d"
  proof -
    have "word_of_nat i + 63 = (word_of_nat (i + 63) :: 32 word)" by simp
    then show ?thesis
      using less.prems assms(1) by (simp only: word_less_nat_alt) (simp add: nowrap del: of_nat_add of_nat_numeral)
  qed
  show ?case
  proof (cases "i + 63 < length d")
    case True
    define b where "b = take 64 (drop i d)"
    have b: "length b = 64" and split: "drop i d = b @ drop (i + 64) d"
      using True by (simp_all add: b_def add.commute [of i] drop_drop [symmetric] del: drop_drop)
    have step: "?loop (word_of_nat i, st) = ?loop (word_of_nat (i + 64), sha1_compress st b)"
      unfolding sha1_whole_blocks_def using True cond less.prems nowrap [of i] assms(1)
      by (subst cwhile_step) (simp_all add: read_bytes_in b_def SHA1Transform_compress)
    have "length d - (i + 64) < length d - i" using True by simp
    from less.hyps [OF this, of "sha1_compress st b"] show ?thesis
      using True less.prems by (simp add: step split hash_blocks_block [OF b] pending_block [OF b])
  next
    case False
    then show ?thesis
      using cond less.prems unfolding sha1_whole_blocks_def
      by (intro exI [of _ i]) (simp add: cwhile_stop)
  qed
qed

lemma pending_take: "take (length m mod 64) buf = pending m \<Longrightarrow> take (length m mod 64 + k) buf = pending m @ take k (drop (length m mod 64) buf)"
  by (simp add: take_add)

lemma SHA1Update_holds:
  assumes holds: "ctx_holds ctx m" and short: "length d + 64 \<le> 2 ^ 32"
  shows "\<exists>ctx'. SHA1Update ctx d (word_of_nat (length d)) = Inr ctx' \<and> ctx_holds ctx' (m @ d)"
proof -
  define len :: "32 word" where "len = word_of_nat (length d)"
  define j where "j = drop_bit 3 (sha1_count0 ctx) AND 63"
  define r where "r = length m mod 64"
  define c1 where "c1 = (if sha1_count0 ctx + push_bit 3 len < push_bit 3 len then sha1_count1 ctx + 1
      else sha1_count1 ctx) + drop_bit 29 len"
  have len: "unat len = length d" using short by (simp add: len_def unat_of_nat)
  have r: "r < 64" by (simp add: r_def)
  have j: "unat j = r" unfolding j_def r_def by (rule ctx_position [OF holds])
  then have jw: "j = word_of_nat r" by (simp add: j [symmetric])
  have jlen: "(63 < j + len) \<longleftrightarrow> 63 < r + length d"
    using r short j len by (simp add: word_less_nat_alt unat_word_ariths)
  have buf: "length (sha1_buffer ctx) = 64" "take r (sha1_buffer ctx) = pending m"
    and st: "sha1_state ctx = hash_blocks sha1_initial m"
    using holds by (simp_all add: ctx_holds_def r_def)
  have cnt: "unat c1 * 2 ^ 32 + unat (sha1_count0 ctx + push_bit 3 len) = 8 * length (m @ d) mod 2 ^ 64"
    using count_carry [of "sha1_count1 ctx" "sha1_count0 ctx" "8 * length m" len] holds
    by (simp add: c1_def ctx_holds_def len)
  have upd: "\<exists>ctx'. SHA1Update ctx d len = Inr ctx' \<and> ctx_holds ctx' (m @ d)"
  proof (cases "63 < r + length d")
    case True
    define b where "b = pending m @ take (64 - r) d"
    define rest where "rest = drop (64 - r) d"
    have b: "length b = 64" using True r by (simp add: b_def r_def)
    have split: "pending m @ d = b @ rest" by (simp add: b_def rest_def)
    have w64: "(64 - j) = word_of_nat (64 - r)" using r by (simp add: jw of_nat_diff)
    have u64: "unat (64 - j) = 64 - r" using r by (simp only: w64) (simp add: unat_of_nat del: of_nat_diff)
    have s5: "length (sha1_state ctx) = 5" and le: "64 - r \<le> length d"
      using True by (simp_all add: st sha1_initial_def)
    then have l5: "length (sha1_compress (sha1_state ctx) b) = 5" by simp
    obtain i' where loop: "sha1_whole_blocks d len (64 - j, sha1_compress (sha1_state ctx) b)
        = Inr (word_of_nat i', hash_blocks (sha1_compress (sha1_state ctx) b) rest)"
      and i': "i' \<le> length d" "drop i' d = pending rest"
      using whole_blocks_run [OF short le l5] unfolding len_def w64 rest_def by blast
    have ui': "unat (word_of_nat i' :: 32 word) = i'" "unat (len - word_of_nat i') = length d - i'"
      using i' short by (simp_all add: len_def unat_of_nat flip: of_nat_diff)
    have fill: "memcpy_at (sha1_buffer ctx) (unat j) d 0 (unat (64 - j)) = Inr b"
      using True r buf by (simp add: j u64 memcpy_in b_def)
    have left: "length d - i' = length (pending rest)"
      by (simp flip: i'(2))
    then have "length d - i' < 64" by simp
    then have keep: "memcpy_at b 0 d i' (length d - i') = Inr (pending rest @ drop (length d - i') b)"
      using i'(1) b left by (subst memcpy_in) (simp_all add: i'(2))
    have blocks: "hash_blocks sha1_initial (m @ d) = hash_blocks (sha1_compress (sha1_state ctx) b) rest"
      and pend: "pending (m @ d) = pending rest"
      using blocks_append [of sha1_initial m d]
      by (simp_all add: split pending_block [OF b] hash_blocks_block [OF b] st)
    have "length (m @ d) mod 64 = length d - i'" and "length rest mod 64 = length d - i'"
      using left by (metis pend length_pending, simp)
    then show ?thesis
      using True jlen b cnt buf pend
      by (simp add: SHA1Update_def Let_def j_def [symmetric] c1_def [symmetric] fill loop ui' keep
          SHA1Transform_compress [OF s5] ctx_holds_def blocks)
  next
    case False
    define b where "b = take r (sha1_buffer ctx) @ d @ drop (r + length d) (sha1_buffer ctx)"
    have "memcpy_at (sha1_buffer ctx) (unat j) d 0 (unat len) = Inr b"
      using False buf by (simp add: j len memcpy_in b_def)
    moreover have "hash_blocks sha1_initial (m @ d) = sha1_state ctx" "pending (m @ d) = pending m @ d"
      using blocks_append [of sha1_initial m d] False by (simp_all add: st r_def)
    moreover from this have "length (m @ d) mod 64 = r + length d"
      by (metis length_append length_pending r_def)
    ultimately show ?thesis
      using False jlen buf cnt
      by (simp add: SHA1Update_def Let_def j_def [symmetric] c1_def [symmetric] r_def [symmetric]
          ctx_holds_def b_def)
  qed
  then show ?thesis by (simp add: len_def)
qed

lemma sha1_feed_holds:
  assumes "ctx_holds ctx m" and "\<And>d. d \<in> set ds \<Longrightarrow> length d + 64 \<le> 2 ^ 32"
  shows "\<exists>ctx'. sha1_feed ctx ds = Inr ctx' \<and> ctx_holds ctx' (m @ concat ds)"
  using assms
proof (induction ds arbitrary: ctx m)
  case Nil
  then show ?case by simp
next
  case (Cons d ds)
  obtain ctx' where "SHA1Update ctx d (word_of_nat (length d)) = Inr ctx'" "ctx_holds ctx' (m @ d)"
    using SHA1Update_holds Cons.prems by (meson list.set_intros(1))
  then show ?case using Cons.IH [of ctx' "m @ d"] Cons.prems(2) by simp
qed

section \<open>The padding and the digest\<close>

lemma byte_of_word: "ucast (drop_bit (8 * n) w AND 255 :: 32 word) = (word_of_nat (unat w div 256 ^ n) :: byte)"
proof -
  have low: "ucast (x AND 255) = (ucast x :: byte)" for x :: "32 word"
  proof -
    have "x AND 255 = take_bit 8 x" by (simp add: take_bit_eq_mask mask_eq_exp_minus_1)
    then show ?thesis by (auto intro!: bit_word_eqI simp: bit_simps)
  qed
  have "unat w div 256 ^ n = unat (drop_bit (8 * n) w)"
    by (simp only: unat_drop_bit_eq) (simp add: drop_bit_eq_div power_mult)
  then show ?thesis by (simp only: low of_nat_unat)
qed

lemma low_bytes: "k < n \<Longrightarrow> (word_of_nat (x mod 256 ^ n div 256 ^ k) :: byte) = word_of_nat (x div 256 ^ k)"
proof -
  assume "k < n"
  have "256 ^ k = (2 :: nat) ^ (8 * k)" "256 ^ n = (2 :: nat) ^ (8 * n)"
    by (simp_all add: power_mult)
  then have "x mod 256 ^ n div 256 ^ k = drop_bit (8 * k) (take_bit (8 * n) x)"
    and "x div 256 ^ k = drop_bit (8 * k) x"
    by (simp_all add: drop_bit_eq_div take_bit_eq_mod)
  then show ?thesis
    using \<open>k < n\<close> by (auto intro!: bit_word_eqI simp: bit_simps)
qed

lemma sha1_digest_bytes:
  assumes "length st = 5"
  shows "sha1_digest st = concat (map (\<lambda>w. be_bytes 4 (unat w)) st)"
proof -
  obtain a b c d e where "st = [a, b, c, d, e]" using five_list [OF assms] .
  then show ?thesis
    using byte_of_word [of 0] byte_of_word [of 1] byte_of_word [of 2] byte_of_word [of 3]
    by (simp add: sha1_digest_def be_bytes_def upt_rec)
qed

lemma finalcount_bytes:
  assumes "unat (sha1_count1 ctx) * 2 ^ 32 + unat (sha1_count0 ctx) = x mod 2 ^ 64"
  shows "finalcount ctx = be_bytes 8 x"
proof -
  have hi: "unat (sha1_count1 ctx) = x mod 256 ^ 8 div 2 ^ 32" and lo: "unat (sha1_count0 ctx) = x mod 256 ^ 8 mod 2 ^ 32"
    using assms [symmetric] unat_word32 [of "sha1_count0 ctx"] by simp_all
  have c1: "(word_of_nat (unat (sha1_count1 ctx) div 256 ^ k) :: byte) = word_of_nat (x div 256 ^ (k + 4))" if "k < 4" for k
    unfolding hi using that low_bytes [of "k + 4" 8 x] by (simp add: power_add div_mult2_eq [symmetric] mult.commute)
  have c0: "(word_of_nat (unat (sha1_count0 ctx) div 256 ^ k) :: byte) = word_of_nat (x div 256 ^ k)" if "k < 4" for k
  proof -
    have "unat (sha1_count0 ctx) = x mod 256 ^ 4"
      using mod_mod_cancel [of "256 ^ 4" "256 ^ 8" x] by (simp add: lo)
    then show ?thesis using that low_bytes [of k 4 x] by simp
  qed
  show ?thesis
    using c1 [of 0] c1 [of 1] c1 [of 2] c1 [of 3] c0 [of 0] c0 [of 1] c0 [of 2] c0 [of 3]
      byte_of_word [of 0] byte_of_word [of 1] byte_of_word [of 2] byte_of_word [of 3]
    by (simp add: finalcount_def be_bytes_def upt_rec)
qed

lemma pad_test:
  assumes "ctx_holds ctx m"
  shows "(sha1_count0 ctx AND 504 = 448) \<longleftrightarrow> length m mod 64 = 56"
proof -
  define y where "y = drop_bit 3 (sha1_count0 ctx) AND 63"
  have uy: "unat y = length m mod 64" unfolding y_def by (rule ctx_position [OF assms])
  have m63: "(63 :: 32 word) = mask 6" and m504: "(504 :: 32 word) = push_bit 3 (mask 6)"
    by (simp_all add: mask_eq_exp_minus_1)
  have "sha1_count0 ctx AND 504 = push_bit 3 y"
    unfolding y_def m63 m504 by (auto intro!: bit_word_eqI simp: bit_simps)
  moreover have "unat (push_bit 3 y) = 8 * unat y"
    using uy by (simp add: push_bit_eq_mult unat_word_ariths)
  ultimately show ?thesis
    by (simp add: word_unat_eq_iff uy)
qed

definition zeros_to_pad :: "byte list \<Rightarrow> nat" where
  "zeros_to_pad m = (120 - length m mod 64) mod 64"

lemma zeros_cases: "r < 64 \<Longrightarrow> (120 - r) mod 64 = (if r \<le> 56 then 56 - r else 120 - r)" for r :: nat
  by (simp add: le_mod_geq)

lemma zeros_to_pad_step:
  assumes "length m mod 64 \<noteq> 56"
  shows "zeros_to_pad m = Suc (zeros_to_pad (m @ [z]))"
  using assms mod_less_divisor [of 64 "length m"] by (auto simp: zeros_to_pad_def zeros_cases mod_Suc le_mod_geq)

lemma zeros_after_bit: "zeros_to_pad (m @ [z]) = (119 - length m mod 64) mod 64"
proof -
  define r where "r = length m mod 64"
  have "r < 64" by (simp add: r_def)
  then have "(120 - Suc r mod 64) mod 64 = (119 - r) mod 64"
    by (cases "r = 63") simp_all
  then show ?thesis by (simp add: zeros_to_pad_def r_def mod_simps)
qed

lemma pad_loop:
  assumes "ctx_holds ctx m"
  shows "\<exists>ctx'. cwhile (\<lambda>ctx. sha1_count0 ctx AND 504 \<noteq> 448) (\<lambda>ctx. SHA1Update ctx [0] 1) ctx = Inr ctx'
    \<and> ctx_holds ctx' (m @ replicate (zeros_to_pad m) 0)"
  using assms
proof (induction "zeros_to_pad m" arbitrary: ctx m)
  case 0
  then have "length m mod 64 = 56" using zeros_to_pad_step [of m] by fastforce
  then show ?case using 0 pad_test [of ctx m] by (simp add: cwhile_stop)
next
  case (Suc k)
  have ne: "length m mod 64 \<noteq> 56" using Suc.hyps(2) by (auto simp: zeros_to_pad_def)
  obtain ctx1 where step: "SHA1Update ctx [0] 1 = Inr ctx1" "ctx_holds ctx1 (m @ [0])"
    using SHA1Update_holds [OF Suc.prems, of "[0]"] by auto
  have "k = zeros_to_pad (m @ [0])" using zeros_to_pad_step [OF ne, of 0] Suc.hyps(2) by simp
  then show ?case
    using Suc.hyps(1) [of "m @ [0]" ctx1] step ne pad_test [OF Suc.prems]
    by (simp add: cwhile_step zeros_to_pad_step [OF ne, of 0])
qed

lemma pending_whole: "length m mod 64 = 0 \<Longrightarrow> pending m = []"
  using length_pending [of m] by (metis length_0_conv)

lemma SHA1Final_digest:
  assumes "ctx_holds ctx m"
  shows "SHA1Final ctx = Inr (sha1 m)"
proof -
  obtain c1 where c1: "SHA1Update ctx [0x80] 1 = Inr c1" "ctx_holds c1 (m @ [0x80])"
    using SHA1Update_holds [OF assms, of "[0x80]"] by auto
  obtain c2 where c2: "cwhile (\<lambda>ctx. sha1_count0 ctx AND 504 \<noteq> 448) (\<lambda>ctx. SHA1Update ctx [0] 1) c1 = Inr c2"
    and h2: "ctx_holds c2 ((m @ [0x80]) @ replicate (zeros_to_pad (m @ [0x80])) 0)"
    using pad_loop [OF c1(2)] by blast
  have fc: "finalcount ctx = be_bytes 8 (8 * length m)"
    using assms by (intro finalcount_bytes) (simp add: ctx_holds_def)
  have l8: "length (be_bytes 8 (8 * length m)) = 8" by (simp add: be_bytes_def)
  have zeros: "zeros_to_pad (m @ [0x80]) = (119 - length m mod 64) mod 64"
    by (rule zeros_after_bit)
  obtain c3 where c3: "SHA1Update c2 (be_bytes 8 (8 * length m)) 8 = Inr c3"
    and h3: "ctx_holds c3 (sha1_pad m)"
    using SHA1Update_holds [OF h2, of "be_bytes 8 (8 * length m)"] by (auto simp: l8 sha1_pad_def zeros)
  have "sha1_state c3 = hash_blocks sha1_initial (sha1_pad m)"
    using h3 by (simp add: ctx_holds_def)
  then show ?thesis
    by (simp add: SHA1Final_def fc c1 c2 c3 sha1_def sha1_digest_bytes sha1_initial_def)
qed

lemma length_sha1 [simp]: "length (sha1 m) = 20"
proof -
  have "length (hash_blocks sha1_initial (sha1_pad m)) = 5" by (simp add: sha1_initial_def)
  then obtain a b c d e where "hash_blocks sha1_initial (sha1_pad m) = [a, b, c, d, e]"
    using five_list by blast
  then show ?thesis by (simp add: sha1_def be_bytes_def)
qed

lemma sha1_vector_hash:
  assumes "\<And>d. d \<in> set ds \<Longrightarrow> length d + 64 \<le> 2 ^ 32"
  shows "sha1_vector ds = Inr (sha1 (concat ds))"
proof -
  have "ctx_holds (SHA1Init fresh_ctx) []" by (rule ctx_holds_init) (simp add: fresh_ctx_def)
  then obtain ctx where "sha1_feed (SHA1Init fresh_ctx) ds = Inr ctx" "ctx_holds ctx (concat ds)"
    using sha1_feed_holds assms by fastforce
  then show ?thesis by (simp add: sha1_vector_def SHA1Final_digest)
qed

end
