(* ===== verification/Wpa_Keys.thy ===== *)
theory Wpa_Keys
  imports Sha1_Spec C_Text
begin

text \<open>
  The key derivation of \<^verbatim>\<open>wlan-core-crypto.c\<close>: HMAC-SHA1 over a vector of pieces, the pseudo-random
  function of IEEE 802.11i, the integrity code of EAPOL-Key frames, the pairwise key from the nonces
  and addresses of both ends, and the master key from a passphrase. Each is shown to compute what its
  standard says. A function that returns \<^verbatim>\<open>-1\<close> gives \<open>None\<close>.
\<close>

unbundle bit_operations_syntax

section \<open>HMAC\<close>

definition hmac_key_block :: "byte list \<Rightarrow> byte \<Rightarrow> byte list res" where
  "hmac_key_block key c = rbind (write_bytes (replicate 64 0) 0 key) (\<lambda>k_pad. Inr (map (\<lambda>b. b XOR c) k_pad))"

definition hmac_sha1_vector :: "byte list \<Rightarrow> byte list list \<Rightarrow> byte list option res" where
  "hmac_sha1_vector key addr = (if length addr > 5 then Inr None
     else rbind (if length key > 64 then sha1_vector [key] else Inr key) (\<lambda>key.
          rbind (hmac_key_block key 0x36) (\<lambda>k_pad.
          rbind (sha1_vector (k_pad # addr)) (\<lambda>mac.
          rbind (hmac_key_block key 0x5c) (\<lambda>k_pad.
          rbind (sha1_vector [k_pad, mac]) (\<lambda>mac. Inr (Some mac)))))))"

definition hmac_sha1 :: "byte list \<Rightarrow> byte list \<Rightarrow> byte list option res" where
  "hmac_sha1 key data = hmac_sha1_vector key [data]"

text \<open>RFC 2104.\<close>

definition hmac :: "byte list \<Rightarrow> byte list \<Rightarrow> byte list" where
  "hmac key m = (let k0 = (if length key > 64 then sha1 key else key);
      k = k0 @ replicate (64 - length k0) 0
    in sha1 (map (\<lambda>b. b XOR 0x5c) k @ sha1 (map (\<lambda>b. b XOR 0x36) k @ m)))"

text \<open>A piece of data whose length does not wrap in the 32-bit arithmetic of the hash.\<close>

definition hashable :: "byte list \<Rightarrow> bool" where
  "hashable d \<longleftrightarrow> length d + 64 \<le> 2 ^ 32"

lemma hashable_small: "length d \<le> 1000 \<Longrightarrow> hashable d"
  by (simp add: hashable_def)

lemma sha1_vector_pieces: "list_all hashable ds \<Longrightarrow> sha1_vector ds = Inr (sha1 (concat ds))"
  by (rule sha1_vector_hash) (simp add: hashable_def list_all_iff)

lemma length_hmac [simp]: "length (hmac key m) = 20"
  by (simp add: hmac_def Let_def)

lemma key_block:
  "length key \<le> 64 \<Longrightarrow> hmac_key_block key c = Inr (map (\<lambda>b. b XOR c) (key @ replicate (64 - length key) 0))"
  by (simp add: hmac_key_block_def write_bytes_def)

lemma hmac_vector:
  assumes "hashable key" and "length ds \<le> 5" and "list_all hashable ds"
  shows "hmac_sha1_vector key ds = Inr (Some (hmac key (concat ds)))"
proof -
  define k where "k = (if length key > 64 then sha1 key else key)"
  have k: "length k \<le> 64" by (simp add: k_def)
  have cut: "(if length key > 64 then sha1_vector [key] else Inr key) = Inr k"
    using assms(1) sha1_vector_pieces [of "[key]"] by (simp add: k_def)
  show ?thesis
    using assms(2,3) k
    by (simp add: hmac_sha1_vector_def cut key_block sha1_vector_pieces hashable_small hmac_def
        k_def [symmetric] Let_def)
qed

lemma hmac_sha1_hmac: "hashable key \<Longrightarrow> hashable d \<Longrightarrow> hmac_sha1 key d = Inr (Some (hmac key d))"
  using hmac_vector [of key "[d]"] by (simp add: hmac_sha1_def)

section \<open>The pseudo-random function\<close>

text \<open>
  The loop of \<^verbatim>\<open>sha1_prf\<close>: \<open>out\<close> is what was written to the buffer from its start, and the counter has
  8 bits.
\<close>

function sha1_prf_loop :: "byte list \<Rightarrow> byte list \<Rightarrow> byte list \<Rightarrow> nat \<Rightarrow> nat \<Rightarrow> byte \<Rightarrow> byte list
    \<Rightarrow> (int \<times> byte list) res" where
  "sha1_prf_loop key label data buf_len pos counter out =
    (if pos < buf_len then
       let plen = buf_len - pos
       in rbind (hmac_sha1_vector key [label @ [0], data, [counter]]) (\<lambda>r. case r of
            None \<Rightarrow> Inr (-1, out)
          | Some h \<Rightarrow> if plen \<ge> 20 then sha1_prf_loop key label data buf_len (pos + 20) (counter + 1) (out @ h)
              else Inr (0, out @ take plen h))
     else Inr (0, out))"
  by auto
termination
  by (relation "measure (\<lambda>(key, label, data, buf_len, pos, counter, out). buf_len - pos)") auto

declare sha1_prf_loop.simps [simp del]

definition sha1_prf :: "byte list \<Rightarrow> byte list \<Rightarrow> byte list \<Rightarrow> nat \<Rightarrow> (int \<times> byte list) res" where
  "sha1_prf key label data buf_len = sha1_prf_loop key label data buf_len 0 0 []"

text \<open>IEEE 802.11i, 8.5.1.1, with the counter as a byte.\<close>

definition prf_block :: "byte list \<Rightarrow> byte list \<Rightarrow> byte list \<Rightarrow> nat \<Rightarrow> byte list" where
  "prf_block key label data i = hmac key (label @ [0] @ data @ [word_of_nat i])"

definition wpa_prf :: "byte list \<Rightarrow> byte list \<Rightarrow> byte list \<Rightarrow> nat \<Rightarrow> byte list" where
  "wpa_prf key label data n = take n (concat (map (prf_block key label data) [0..<n div 20 + 1]))"

lemma length_concat_20: "(\<And>x. x \<in> set xs \<Longrightarrow> length x = 20) \<Longrightarrow> length (concat xs) = 20 * length xs"
  by (induction xs) auto

lemma length_wpa_prf [simp]: "length (wpa_prf key label data n) = n"
proof -
  have "length (concat (map (prf_block key label data) [0..<n div 20 + 1])) = 20 * (n div 20 + 1)"
    by (subst length_concat_20) (auto simp: prf_block_def)
  then show ?thesis by (simp add: wpa_prf_def)
qed

lemma prf_loop_run:
  assumes "hashable key" and "hashable (label @ [0])" and "hashable data"
  shows "sha1_prf_loop key label data n (20 * k) (word_of_nat k) out
     = Inr (0, out @ take (n - 20 * k) (concat (map (prf_block key label data) [k..<n div 20 + 1])))"
proof (induction "n div 20 + 1 - k" arbitrary: k out rule: less_induct)
  case less
  have mac: "hmac_sha1_vector key [label @ [0], data, [word_of_nat k]] = Inr (Some (prf_block key label data k))"
    using hmac_vector [of key "[label @ [0], data, [word_of_nat k]]"] assms hashable_small [of "[word_of_nat k]"]
    by (auto simp: prf_block_def)
  have len: "length (prf_block key label data k) = 20" by (simp add: prf_block_def)
  consider "n \<le> 20 * k" | "20 * k < n" "n - 20 * k < 20" | "20 * k < n" "20 \<le> n - 20 * k" by linarith
  then show ?case
  proof cases
    case 1
    then show ?thesis by (simp add: sha1_prf_loop.simps [of _ _ _ n "20 * k"])
  next
    case 2
    then have "n div 20 = k" by linarith
    then show ?thesis
      using 2 mac len by (simp add: sha1_prf_loop.simps [of _ _ _ n "20 * k"])
  next
    case 3
    then have k: "k < n div 20 + 1" by linarith
    then have "n div 20 + 1 - Suc k < n div 20 + 1 - k" by simp
    note IH = less.hyps [OF this, of "out @ prf_block key label data k"]
    have "sha1_prf_loop key label data n (20 * k) (word_of_nat k) out
       = sha1_prf_loop key label data n (20 * Suc k) (word_of_nat (Suc k)) (out @ prf_block key label data k)"
      using 3 mac by (simp add: sha1_prf_loop.simps [of _ _ _ n "20 * k"] add.commute)
    moreover have "[k..<n div 20 + 1] = k # [Suc k..<n div 20 + 1]" using k by (rule upt_conv_Cons)
    ultimately show ?thesis
      using IH len 3 by (simp add: add.commute [of 20] del: upt_Suc)
  qed
qed

lemma sha1_prf_computes:
  assumes "hashable key" and "hashable (label @ [0])" and "hashable data"
  shows "sha1_prf key label data n = Inr (0, wpa_prf key label data n)"
  using prf_loop_run [OF assms, of n 0 "[]"] by (simp add: sha1_prf_def wpa_prf_def)

section \<open>Frames and pairwise keys\<close>

definition WPA_KEY_INFO_TYPE_HMAC_SHA1_AES :: nat where
  "WPA_KEY_INFO_TYPE_HMAC_SHA1_AES = 2"

text \<open>The key is read through a pointer, 16 bytes from its start.\<close>

definition wpa_eapol_key_mic :: "byte list \<Rightarrow> nat \<Rightarrow> byte list \<Rightarrow> byte list option res" where
  "wpa_eapol_key_mic key ver buf = (if ver = WPA_KEY_INFO_TYPE_HMAC_SHA1_AES
     then rbind (read_bytes key 0 16) (\<lambda>k. rbind (hmac_sha1 k buf) (\<lambda>r. Inr (map_option (take 16) r)))
     else Inr None)"

fun memcmp :: "byte list \<Rightarrow> byte list \<Rightarrow> int" where
  "memcmp (a # as) (b # bs) = (if a = b then memcmp as bs else if a < b then -1 else 1)"
| "memcmp _ _ = 0"

text \<open>The result of \<^verbatim>\<open>sha1_prf\<close> is ignored; what it wrote is the key.\<close>

definition wpa_pmk_to_ptk :: "byte list \<Rightarrow> byte list \<Rightarrow> byte list \<Rightarrow> byte list \<Rightarrow> byte list \<Rightarrow> byte list \<Rightarrow> nat
    \<Rightarrow> byte list res" where
  "wpa_pmk_to_ptk pmk label addr1 addr2 nonce1 nonce2 ptk_len =
    (let addrs = (if memcmp addr1 addr2 < 0 then addr1 @ addr2 else addr2 @ addr1);
         nonces = (if memcmp nonce1 nonce2 < 0 then nonce1 @ nonce2 else nonce2 @ nonce1)
     in rbind (sha1_prf pmk label (addrs @ nonces) ptk_len) (\<lambda>(_, ptk). Inr ptk))"

lemma memcmp_flip: "memcmp b a = - memcmp a b"
  by (induction a b rule: memcmp.induct) auto

lemma memcmp_zero: "memcmp a b = 0 \<Longrightarrow> length a = length b \<Longrightarrow> a = b"
  by (induction a b rule: memcmp.induct) (auto split: if_splits)

lemma memcmp_order:
  assumes "length a = length b"
  shows "(if memcmp a b < 0 then a @ b else b @ a) = (if memcmp b a < 0 then b @ a else a @ b)"
  using memcmp_flip [of b a] memcmp_zero [of a b] assms by (cases "memcmp a b = 0") auto

text \<open>Both ends hand their own address and nonce first, and get the same key.\<close>

lemma ptk_same_at_both_ends:
  assumes "length addr1 = length addr2" and "length nonce1 = length nonce2"
  shows "wpa_pmk_to_ptk pmk label addr1 addr2 nonce1 nonce2 n = wpa_pmk_to_ptk pmk label addr2 addr1 nonce2 nonce1 n"
  by (simp add: wpa_pmk_to_ptk_def memcmp_order [OF assms(1)] memcmp_order [OF assms(2)])

definition pairwise_data :: "byte list \<Rightarrow> byte list \<Rightarrow> byte list \<Rightarrow> byte list \<Rightarrow> byte list" where
  "pairwise_data addr1 addr2 nonce1 nonce2 =
    (if memcmp addr1 addr2 < 0 then addr1 @ addr2 else addr2 @ addr1)
    @ (if memcmp nonce1 nonce2 < 0 then nonce1 @ nonce2 else nonce2 @ nonce1)"

lemma wpa_pmk_to_ptk_computes:
  assumes "hashable pmk" and "hashable (label @ [0])"
    and "length addr1 = 6" "length addr2 = 6" "length nonce1 = 32" "length nonce2 = 32"
  shows "wpa_pmk_to_ptk pmk label addr1 addr2 nonce1 nonce2 n
     = Inr (wpa_prf pmk label (pairwise_data addr1 addr2 nonce1 nonce2) n)"
proof -
  have "hashable (pairwise_data addr1 addr2 nonce1 nonce2)"
    using assms(3-6) by (intro hashable_small) (simp add: pairwise_data_def)
  then show ?thesis
    using assms(1,2) by (simp add: wpa_pmk_to_ptk_def sha1_prf_computes pairwise_data_def)
qed

lemma key_mic_computes:
  assumes "16 \<le> length key" and "hashable buf"
  shows "wpa_eapol_key_mic key WPA_KEY_INFO_TYPE_HMAC_SHA1_AES buf = Inr (Some (take 16 (hmac (take 16 key) buf)))"
  using assms hashable_small [of "take 16 key"]
  by (simp add: wpa_eapol_key_mic_def read_bytes_in hmac_sha1_hmac)

section \<open>The master key\<close>

text \<open>The loop over the iterations, counted down; \<open>tmp\<close> and \<open>digest\<close> are the buffers of the code.\<close>

fun pbkdf2_iterate :: "byte list \<Rightarrow> nat \<Rightarrow> byte list \<Rightarrow> byte list \<Rightarrow> byte list option res" where
  "pbkdf2_iterate passphrase 0 tmp digest = Inr (Some digest)"
| "pbkdf2_iterate passphrase (Suc n) tmp digest = rbind (hmac_sha1 passphrase tmp) (\<lambda>r. case r of
     None \<Rightarrow> Inr None
   | Some tmp2 \<Rightarrow> pbkdf2_iterate passphrase n tmp2 (map2 (XOR) digest tmp2))"

definition count_bytes :: "32 word \<Rightarrow> byte list" where
  "count_bytes count = [ucast (drop_bit 24 count AND 0xff), ucast (drop_bit 16 count AND 0xff),
     ucast (drop_bit 8 count AND 0xff), ucast (count AND 0xff)]"

definition pbkdf2_sha1_f :: "byte list \<Rightarrow> byte list \<Rightarrow> int \<Rightarrow> 32 word \<Rightarrow> byte list option res" where
  "pbkdf2_sha1_f passphrase ssid iterations count =
    rbind (hmac_sha1_vector passphrase [ssid, count_bytes count]) (\<lambda>r. case r of
      None \<Rightarrow> Inr None
    | Some tmp \<Rightarrow> pbkdf2_iterate passphrase (nat (iterations - 1)) tmp tmp)"

function pbkdf2_blocks :: "byte list \<Rightarrow> byte list \<Rightarrow> int \<Rightarrow> 32 word \<Rightarrow> nat \<Rightarrow> byte list \<Rightarrow> (int \<times> byte list) res" where
  "pbkdf2_blocks passphrase ssid iterations count left out =
    (if left > 0 then
       let count = count + 1
       in rbind (pbkdf2_sha1_f passphrase ssid iterations count) (\<lambda>r. case r of
            None \<Rightarrow> Inr (-1, out)
          | Some digest \<Rightarrow> let plen = (if left > 20 then 20 else left)
              in pbkdf2_blocks passphrase ssid iterations count (left - plen) (out @ take plen digest))
     else Inr (0, out))"
  by auto
termination
  by (relation "measure (\<lambda>(passphrase, ssid, iterations, count, left, out). left)") (auto split: if_splits)

declare pbkdf2_blocks.simps [simp del]

definition pbkdf2_sha1 :: "byte list \<Rightarrow> byte list \<Rightarrow> int \<Rightarrow> nat \<Rightarrow> (int \<times> byte list) res" where
  "pbkdf2_sha1 passphrase ssid iterations buflen = pbkdf2_blocks passphrase ssid iterations 0 buflen []"

definition PMK_LEN :: nat where
  "PMK_LEN = 32"

definition wpa_derive_ccmp_pmk :: "byte list \<Rightarrow> byte list \<Rightarrow> (int \<times> byte list) res" where
  "wpa_derive_ccmp_pmk passphrase ssid = pbkdf2_sha1 passphrase ssid 4096 PMK_LEN"

text \<open>PKCS #5.\<close>

fun pbkdf2_u :: "byte list \<Rightarrow> byte list \<Rightarrow> nat \<Rightarrow> nat \<Rightarrow> byte list" where
  "pbkdf2_u passphrase salt i 0 = hmac passphrase (salt @ be_bytes 4 i)"
| "pbkdf2_u passphrase salt i (Suc n) = hmac passphrase (pbkdf2_u passphrase salt i n)"

definition pbkdf2_f :: "byte list \<Rightarrow> byte list \<Rightarrow> nat \<Rightarrow> nat \<Rightarrow> byte list" where
  "pbkdf2_f passphrase salt iterations i =
     foldl (\<lambda>d n. map2 (XOR) d (pbkdf2_u passphrase salt i n)) (pbkdf2_u passphrase salt i 0) [1..<iterations]"

definition pbkdf2 :: "byte list \<Rightarrow> byte list \<Rightarrow> nat \<Rightarrow> nat \<Rightarrow> byte list" where
  "pbkdf2 passphrase salt iterations n =
     take n (concat (map (pbkdf2_f passphrase salt iterations) [1..<n div 20 + 2]))"

lemma pbkdf2_iterate_run:
  assumes "hashable passphrase"
  shows "pbkdf2_iterate passphrase n (pbkdf2_u passphrase salt i k) d
     = Inr (Some (foldl (\<lambda>d j. map2 (XOR) d (pbkdf2_u passphrase salt i j)) d [Suc k..<Suc k + n]))"
proof (induction n arbitrary: k d)
  case 0
  then show ?case by simp
next
  case (Suc n)
  have "length (pbkdf2_u passphrase salt i k) = 20" by (cases k) simp_all
  then have "hmac_sha1 passphrase (pbkdf2_u passphrase salt i k) = Inr (Some (pbkdf2_u passphrase salt i (Suc k)))"
    using assms hashable_small by (simp add: hmac_sha1_hmac)
  moreover have "[Suc k..<Suc k + Suc n] = Suc k # [Suc (Suc k)..<Suc (Suc k) + n]"
    by (simp add: upt_conv_Cons del: upt_Suc)
  ultimately show ?case
    using Suc.IH [of "Suc k"] by (simp del: pbkdf2_u.simps upt_Suc)
qed

lemma count_bytes_be: "count_bytes (word_of_nat i) = be_bytes 4 i"
proof -
  have "(word_of_nat (unat (word_of_nat i :: 32 word) div 256 ^ k) :: byte) = word_of_nat (i div 256 ^ k)" if "k < 4" for k
    using low_bytes [OF that, of i] by (simp add: unat_of_nat)
  from this [of 0] this [of 1] this [of 2] this [of 3] show ?thesis
    using byte_of_word [of 0 "word_of_nat i"] byte_of_word [of 1 "word_of_nat i"]
      byte_of_word [of 2 "word_of_nat i"] byte_of_word [of 3 "word_of_nat i"]
    by (simp add: count_bytes_def be_bytes_def upt_rec)
qed

lemma pbkdf2_f_computes:
  assumes "hashable passphrase" and "hashable ssid" and "1 \<le> iterations"
  shows "pbkdf2_sha1_f passphrase ssid (int iterations) (word_of_nat i)
     = Inr (Some (pbkdf2_f passphrase ssid iterations i))"
proof -
  have "hashable (be_bytes 4 i)" by (rule hashable_small) (simp add: be_bytes_def)
  then have "hmac_sha1_vector passphrase [ssid, be_bytes 4 i] = Inr (Some (pbkdf2_u passphrase ssid i 0))"
    using hmac_vector [of passphrase "[ssid, be_bytes 4 i]"] assms by simp
  moreover have "nat (int iterations - 1) = iterations - 1" "Suc 0 + (iterations - 1) = iterations"
    using assms(3) by simp_all
  ultimately show ?thesis
    using pbkdf2_iterate_run [OF assms(1), of "iterations - 1" ssid i 0]
    by (simp add: pbkdf2_sha1_f_def count_bytes_be pbkdf2_f_def del: pbkdf2_u.simps)
qed

lemma length_map2_xor: "length d = 20 \<Longrightarrow> length (foldl (\<lambda>d j. map2 (XOR) d (pbkdf2_u passphrase salt i j)) d js) = 20"
proof (induction js arbitrary: d)
  case (Cons j js)
  have "length (pbkdf2_u passphrase salt i j) = 20" by (cases j) simp_all
  then show ?case using Cons by simp
qed simp

lemma length_pbkdf2_f [simp]: "length (pbkdf2_f passphrase salt iterations i) = 20"
  by (simp add: pbkdf2_f_def length_map2_xor)

lemma pbkdf2_blocks_run:
  assumes "hashable passphrase" and "hashable ssid" and "1 \<le> iterations"
  shows "pbkdf2_blocks passphrase ssid (int iterations) (word_of_nat c) n out
     = Inr (0, out @ take n (concat (map (pbkdf2_f passphrase ssid iterations) [c + 1..<c + n div 20 + 2])))"
proof (induction n arbitrary: c out rule: less_induct)
  case (less n)
  have block: "pbkdf2_sha1_f passphrase ssid (int iterations) (word_of_nat c + 1)
      = Inr (Some (pbkdf2_f passphrase ssid iterations (c + 1)))"
    using pbkdf2_f_computes [OF assms, of "c + 1"] by (simp add: add.commute)
  have first: "[Suc c..<Suc (Suc (c + n div 20))] = Suc c # [Suc (Suc c)..<Suc (Suc (c + n div 20))]"
    by (rule upt_conv_Cons) simp
  consider "n = 0" | "0 < n" "n \<le> 20" | "20 < n" by linarith
  then show ?case
  proof cases
    case 1
    then show ?thesis by (simp add: pbkdf2_blocks.simps [of _ _ _ _ 0])
  next
    case 2
    then show ?thesis
      using block by (simp add: first pbkdf2_blocks.simps [of _ _ _ _ n] pbkdf2_blocks.simps [of _ _ _ _ 0] Let_def
          del: upt_Suc)
  next
    case 3
    have q: "n div 20 = Suc ((n - 20) div 20)" using 3 by linarith
    have rest: "[Suc c..<Suc (Suc (Suc (c + (n - 20) div 20)))] = Suc c # [Suc (Suc c)..<Suc (Suc (Suc (c + (n - 20) div 20)))]"
      by (rule upt_conv_Cons) simp
    show ?thesis
      using 3 block less.IH [of "n - 20" "c + 1"]
      by (simp add: q rest pbkdf2_blocks.simps [of _ _ _ _ n] Let_def add.commute [of 1] del: upt_Suc)
  qed
qed

lemma wpa_derive_ccmp_pmk_computes:
  assumes "hashable passphrase" and "hashable ssid"
  shows "wpa_derive_ccmp_pmk passphrase ssid = Inr (0, pbkdf2 passphrase ssid 4096 32)"
  using pbkdf2_blocks_run [OF assms, of 4096 0 32 "[]"]
  by (simp add: wpa_derive_ccmp_pmk_def pbkdf2_sha1_def PMK_LEN_def pbkdf2_def)

section \<open>The local nonce\<close>

definition hex_char :: "nat \<Rightarrow> char" where
  "hex_char d = (if d < 10 then char_of (48 + d) else char_of (87 + d))"

fun show_hex :: "nat \<Rightarrow> string" where
  "show_hex n = (if n < 16 then [hex_char n] else show_hex (n div 16) @ [hex_char (n mod 16)])"

declare show_hex.simps [simp del]

text \<open>
  \<^verbatim>\<open>rsna_nonce_generator\<close>: the time is what \<^verbatim>\<open>gettimeofday\<close> gives, \<open>urandom\<close> is what reading 64 bytes of
  \<^verbatim>\<open>/dev/urandom\<close> gives, or \<open>None\<close> if it cannot be opened. The text of the time takes at most 15
  characters and a zero byte.
\<close>

definition nonce_seed :: "byte list \<Rightarrow> 64 word \<Rightarrow> 64 word \<Rightarrow> byte list" where
  "nonce_seed addr sec usec = addr
     @ map of_char (snprintf 16 (zero_pad 8 (show_hex (unat sec)) @ zero_pad 8 (show_hex (unat usec)))) @ [0]"

definition rsna_nonce_generator :: "byte list \<Rightarrow> 64 word \<Rightarrow> 64 word \<Rightarrow> byte list option \<Rightarrow> (int \<times> byte list) res" where
  "rsna_nonce_generator our_addr sec usec urandom = (case urandom of
     None \<Rightarrow> Inr (-1, [])
   | Some rand_buf \<Rightarrow> if length rand_buf < 64 then Inr (-1, [])
       else rbind (read_bytes our_addr 0 6) (\<lambda>addr.
            sha1_prf rand_buf (map of_char ''Init Counter'') (nonce_seed addr sec usec) 32))"

lemma zero_pad_length: "w \<le> length (zero_pad w s)" "length s \<le> w \<Longrightarrow> length (zero_pad w s) = w"
  by (simp_all add: zero_pad_def)

lemma length_nonce_seed: "length addr = 6 \<Longrightarrow> length (nonce_seed addr sec usec) = 22"
  using zero_pad_length(1) [of 8 "show_hex (unat sec)"] zero_pad_length(1) [of 8 "show_hex (unat usec)"]
  by (simp add: nonce_seed_def snprintf_def)

lemma nonce_computes:
  assumes "length addr = 6" and "length rand = 64"
  shows "rsna_nonce_generator addr sec usec (Some rand)
     = Inr (0, wpa_prf rand (map of_char ''Init Counter'') (nonce_seed addr sec usec) 32)"
  using assms length_nonce_seed [of addr sec usec]
  by (simp add: rsna_nonce_generator_def read_bytes_in sha1_prf_computes hashable_small)

text \<open>
  The text is one character longer than the room for it: while the seconds have eight hexadecimal
  digits, the last digit of the microseconds does not enter the seed.
\<close>

lemma length_show_hex: "n < 16 ^ k \<Longrightarrow> 0 < k \<Longrightarrow> length (show_hex n) \<le> k"
proof (induction k arbitrary: n)
  case (Suc k)
  show ?case
  proof (cases "n < 16")
    case True
    then show ?thesis by (subst show_hex.simps) simp
  next
    case False
    then have "0 < k" "n div 16 < 16 ^ k" using Suc.prems by (cases k, auto)
    then show ?thesis using Suc.IH [of "n div 16"] False by (subst show_hex.simps) simp
  qed
qed simp

lemma zero_pad_hex_digit:
  assumes "n < 16 ^ 8"
  shows "take 7 (zero_pad 8 (show_hex n)) = zero_pad 7 (show_hex (n div 16))"
proof (cases "n < 16")
  case True
  moreover have "hex_char 0 = CHR ''0''" by code_simp
  ultimately have "show_hex n = [hex_char n]" "show_hex (n div 16) = [CHR ''0'']"
    by (simp_all add: show_hex.simps [of n] show_hex.simps [of 0])
  moreover have "replicate 7 (CHR ''0'') = replicate 6 (CHR ''0'') @ [CHR ''0'']"
    by (simp add: numeral_eq_Suc)
  ultimately show ?thesis by (simp add: zero_pad_def)
next
  case False
  then have "n div 16 < 16 ^ 7" using assms by simp
  then have "length (show_hex (n div 16)) \<le> 7" by (rule length_show_hex) simp
  then show ?thesis
    using False by (subst show_hex.simps) (simp add: zero_pad_def)
qed

lemma nonce_seed_time:
  assumes "unat sec < 16 ^ 8" and "unat usec < 16 ^ 8"
  shows "nonce_seed addr sec usec
     = addr @ map of_char (zero_pad 8 (show_hex (unat sec)) @ zero_pad 7 (show_hex (unat usec div 16))) @ [0]"
proof -
  have "length (zero_pad 8 (show_hex (unat sec))) = 8"
    using length_show_hex [OF assms(1)] by (simp add: zero_pad_length)
  then show ?thesis
    using zero_pad_hex_digit [OF assms(2)] by (simp add: nonce_seed_def snprintf_def)
qed

end
