(* ===== verification/Aes.thy ===== *)
theory Aes
  imports Aes_Tables
begin

text \<open>
  AES-128 decryption and the RFC 3394 unwrapping of keys in \<^verbatim>\<open>wlan-core-crypto.c\<close>, with the macros of the
  configuration it is compiled in (\<^verbatim>\<open>AES_SMALL_TABLES\<close>, rounds not unrolled). A key schedule is the list
  of its 44 words, and the pointer \<^verbatim>\<open>rk\<close> that walks over it is an index.
\<close>

unbundle bit_operations_syntax

section \<open>Macros\<close>

definition rotr :: "32 word \<Rightarrow> nat \<Rightarrow> 32 word" where
  "rotr val bits = drop_bit bits val OR push_bit (32 - bits) val"

definition RCON :: "nat \<Rightarrow> 32 word" where
  "RCON i = push_bit 24 (ucast (rcons ! i))"

text \<open>A table at the byte of a word that starts at bit \<open>n\<close>.\<close>

definition at_byte :: "'a list \<Rightarrow> nat \<Rightarrow> 32 word \<Rightarrow> 'a" where
  "at_byte table n i = table ! unat (drop_bit n i AND 0xff)"

definition TE421 :: "32 word \<Rightarrow> 32 word" where
  "TE421 i = push_bit 8 (at_byte Te0 16 i) AND 0xff000000"

definition TE432 :: "32 word \<Rightarrow> 32 word" where
  "TE432 i = at_byte Te0 8 i AND 0x00ff0000"

definition TE443 :: "32 word \<Rightarrow> 32 word" where
  "TE443 i = at_byte Te0 0 i AND 0x0000ff00"

definition TE414 :: "32 word \<Rightarrow> 32 word" where
  "TE414 i = drop_bit 8 (at_byte Te0 24 i) AND 0x000000ff"

definition TE4 :: "32 word \<Rightarrow> 32 word" where
  "TE4 i = drop_bit 8 (Te0 ! unat i) AND 0x000000ff"

definition TD0 :: "32 word \<Rightarrow> 32 word" where
  "TD0 i = at_byte Td0 24 i"

definition TD1 :: "32 word \<Rightarrow> 32 word" where
  "TD1 i = rotr (at_byte Td0 16 i) 8"

definition TD2 :: "32 word \<Rightarrow> 32 word" where
  "TD2 i = rotr (at_byte Td0 8 i) 16"

definition TD3 :: "32 word \<Rightarrow> 32 word" where
  "TD3 i = rotr (at_byte Td0 0 i) 24"

definition TD41 :: "32 word \<Rightarrow> 32 word" where
  "TD41 i = push_bit 24 (ucast (at_byte Td4s 24 i))"

definition TD42 :: "32 word \<Rightarrow> 32 word" where
  "TD42 i = push_bit 16 (ucast (at_byte Td4s 16 i))"

definition TD43 :: "32 word \<Rightarrow> 32 word" where
  "TD43 i = push_bit 8 (ucast (at_byte Td4s 8 i))"

definition TD44 :: "32 word \<Rightarrow> 32 word" where
  "TD44 i = ucast (at_byte Td4s 0 i)"

definition TD0low :: "32 word \<Rightarrow> 32 word" where
  "TD0low i = at_byte Td0 0 i"

definition TD1low :: "32 word \<Rightarrow> 32 word" where
  "TD1low i = rotr (at_byte Td0 0 i) 8"

definition TD2low :: "32 word \<Rightarrow> 32 word" where
  "TD2low i = rotr (at_byte Td0 0 i) 16"

definition TD3low :: "32 word \<Rightarrow> 32 word" where
  "TD3low i = rotr (at_byte Td0 0 i) 24"

definition GETU32 :: "byte list \<Rightarrow> nat \<Rightarrow> 32 word" where
  "GETU32 pt k = push_bit 24 (ucast (pt ! k)) XOR push_bit 16 (ucast (pt ! (k + 1)))
     XOR push_bit 8 (ucast (pt ! (k + 2))) XOR ucast (pt ! (k + 3))"

definition PUTU32 :: "32 word \<Rightarrow> byte list" where
  "PUTU32 st = [ucast (drop_bit 24 st), ucast (drop_bit 16 st), ucast (drop_bit 8 st), ucast st]"

section \<open>Key schedules\<close>

text \<open>The array is filled from its start; the list is the part that is filled.\<close>

definition key_setup_round :: "32 word list \<Rightarrow> nat \<Rightarrow> 32 word list" where
  "key_setup_round rk i =
    (let k = 4 * i; temp = rk ! (k + 3);
         rk4 = rk ! k XOR TE421 temp XOR TE432 temp XOR TE443 temp XOR TE414 temp XOR RCON i;
         rk5 = rk ! (k + 1) XOR rk4;
         rk6 = rk ! (k + 2) XOR rk5;
         rk7 = rk ! (k + 3) XOR rk6
     in rk @ [rk4, rk5, rk6, rk7])"

definition rijndaelKeySetupEnc :: "byte list \<Rightarrow> 32 word list" where
  "rijndaelKeySetupEnc cipherKey = foldl key_setup_round
     [GETU32 cipherKey 0, GETU32 cipherKey 4, GETU32 cipherKey 8, GETU32 cipherKey 12] [0..<10]"

definition swap_words :: "'a list \<Rightarrow> nat \<Rightarrow> nat \<Rightarrow> 'a list" where
  "swap_words rk i j = rk[i := rk ! j, j := rk ! i]"

function invert_order :: "nat \<Rightarrow> nat \<Rightarrow> 'a list \<Rightarrow> 'a list" where
  "invert_order i j rk = (if i < j then
     invert_order (i + 4) (j - 4) (swap_words (swap_words (swap_words (swap_words rk i j) (i + 1) (j + 1))
       (i + 2) (j + 2)) (i + 3) (j + 3))
   else rk)"
  by auto
termination
  by (relation "measure (\<lambda>(i, j, rk). j - i)") auto

declare invert_order.simps [simp del]

definition inverse_mix_column :: "32 word \<Rightarrow> 32 word" where
  "inverse_mix_column w = TD0low (TE4 (drop_bit 24 w)) XOR TD1low (TE4 (drop_bit 16 w AND 0xff))
     XOR TD2low (TE4 (drop_bit 8 w AND 0xff)) XOR TD3low (TE4 (w AND 0xff))"

definition rijndaelKeySetupDec :: "byte list \<Rightarrow> 32 word list" where
  "rijndaelKeySetupDec cipherKey =
    (let rk = invert_order 0 40 (rijndaelKeySetupEnc cipherKey)
     in foldl (\<lambda>rk i. foldl (\<lambda>rk j. rk[4 * i + j := inverse_mix_column (rk ! (4 * i + j))]) rk [0..<4]) rk [1..<10])"

definition aes_decrypt_init :: "byte list \<Rightarrow> nat \<Rightarrow> 32 word list option" where
  "aes_decrypt_init key len = (if len \<noteq> 16 then None else Some (rijndaelKeySetupDec key))"

section \<open>Decryption of a block\<close>

type_synonym aes_state = "32 word \<times> 32 word \<times> 32 word \<times> 32 word"

definition dec_round :: "32 word list \<Rightarrow> nat \<Rightarrow> aes_state \<Rightarrow> aes_state" where
  "dec_round rk k s = (case s of (s0, s1, s2, s3) \<Rightarrow>
    (TD0 s0 XOR TD1 s3 XOR TD2 s2 XOR TD3 s1 XOR rk ! k,
     TD0 s1 XOR TD1 s0 XOR TD2 s3 XOR TD3 s2 XOR rk ! (k + 1),
     TD0 s2 XOR TD1 s1 XOR TD2 s0 XOR TD3 s3 XOR rk ! (k + 2),
     TD0 s3 XOR TD1 s2 XOR TD2 s1 XOR TD3 s0 XOR rk ! (k + 3)))"

text \<open>The loop of \<^verbatim>\<open>rijndaelDecrypt\<close> with \<open>Suc r\<close> turns left, and \<open>k\<close> where \<^verbatim>\<open>rk\<close> points.\<close>

fun dec_rounds :: "32 word list \<Rightarrow> nat \<Rightarrow> nat \<Rightarrow> aes_state \<Rightarrow> aes_state" where
  "dec_rounds rk 0 k s = dec_round rk (k + 4) s"
| "dec_rounds rk (Suc r) k s = dec_rounds rk r (k + 8) (dec_round rk (k + 8) (dec_round rk (k + 4) s))"

definition rijndaelDecrypt :: "32 word list \<Rightarrow> byte list \<Rightarrow> byte list" where
  "rijndaelDecrypt rk ct =
    (let s = (GETU32 ct 0 XOR rk ! 0, GETU32 ct 4 XOR rk ! 1, GETU32 ct 8 XOR rk ! 2, GETU32 ct 12 XOR rk ! 3)
     in case dec_rounds rk 4 0 s of (t0, t1, t2, t3) \<Rightarrow>
          PUTU32 (TD41 t0 XOR TD42 t3 XOR TD43 t2 XOR TD44 t1 XOR rk ! 40)
        @ PUTU32 (TD41 t1 XOR TD42 t0 XOR TD43 t3 XOR TD44 t2 XOR rk ! 41)
        @ PUTU32 (TD41 t2 XOR TD42 t1 XOR TD43 t0 XOR TD44 t3 XOR rk ! 42)
        @ PUTU32 (TD41 t3 XOR TD42 t2 XOR TD43 t1 XOR TD44 t0 XOR rk ! 43))"

definition aes_decrypt :: "32 word list \<Rightarrow> byte list \<Rightarrow> byte list" where
  "aes_decrypt ctx crypt = rijndaelDecrypt ctx crypt"

section \<open>Unwrapping of keys\<close>

text \<open>
  One turn of the inner loop on \<open>a\<close> and the array \<open>r\<close> of the plaintext, and the loops: \<open>i\<close> from \<open>n\<close> to 1
  inside \<open>j\<close> from 5 to 0. The block cipher is an argument.
\<close>

definition unwrap_turn :: "(byte list \<Rightarrow> byte list) \<Rightarrow> nat \<Rightarrow> nat \<Rightarrow> nat \<Rightarrow> byte list \<times> byte list \<Rightarrow> byte list \<times> byte list" where
  "unwrap_turn dec n j i s = (case s of (a, r) \<Rightarrow>
     let b = a[7 := a ! 7 XOR word_of_nat (n * j + i)] @ take 8 (drop (8 * (i - 1)) r);
         b = dec b
     in (take 8 b, take (8 * (i - 1)) r @ drop 8 b @ drop (8 * i) r))"

definition unwrap_loops :: "(byte list \<Rightarrow> byte list) \<Rightarrow> nat \<Rightarrow> byte list \<times> byte list \<Rightarrow> byte list \<times> byte list" where
  "unwrap_loops dec n s =
     foldl (\<lambda>s j. foldl (\<lambda>s i. unwrap_turn dec n j i s) s (rev [1..<n + 1])) s (rev [0..<6])"

text \<open>The return value and what is left in \<open>plain\<close>.\<close>

definition aes_unwrap :: "byte list \<Rightarrow> nat \<Rightarrow> byte list \<Rightarrow> (int \<times> byte list) res" where
  "aes_unwrap kek n cipher =
    rbind (read_bytes cipher 0 8) (\<lambda>a.
    rbind (read_bytes cipher 8 (8 * n)) (\<lambda>r.
    rbind (read_bytes kek 0 16) (\<lambda>kek.
    case aes_decrypt_init kek 16 of
      None \<Rightarrow> Inr (-1, r)
    | Some ctx \<Rightarrow> let (a, r) = unwrap_loops (aes_decrypt ctx) n (a, r)
        in if \<exists>i\<in>{..<8}. a ! i \<noteq> 0xa6 then Inr (-1, r) else Inr (0, r))))"

end
