(* ===== verification/Aes_Spec.thy ===== *)
theory Aes_Spec
  imports Aes
begin

text \<open>
  AES-128 encryption as FIPS 197 defines it, and what the tables of the code hold in its terms.
\<close>

unbundle bit_operations_syntax

section \<open>The standard\<close>

text \<open>Figure 7: the substitution box.\<close>

definition sbox :: "byte list" where
  "sbox =
    [0x63, 0x7c, 0x77, 0x7b, 0xf2, 0x6b, 0x6f, 0xc5, 0x30, 0x01, 0x67, 0x2b, 0xfe, 0xd7, 0xab, 0x76,
     0xca, 0x82, 0xc9, 0x7d, 0xfa, 0x59, 0x47, 0xf0, 0xad, 0xd4, 0xa2, 0xaf, 0x9c, 0xa4, 0x72, 0xc0,
     0xb7, 0xfd, 0x93, 0x26, 0x36, 0x3f, 0xf7, 0xcc, 0x34, 0xa5, 0xe5, 0xf1, 0x71, 0xd8, 0x31, 0x15,
     0x04, 0xc7, 0x23, 0xc3, 0x18, 0x96, 0x05, 0x9a, 0x07, 0x12, 0x80, 0xe2, 0xeb, 0x27, 0xb2, 0x75,
     0x09, 0x83, 0x2c, 0x1a, 0x1b, 0x6e, 0x5a, 0xa0, 0x52, 0x3b, 0xd6, 0xb3, 0x29, 0xe3, 0x2f, 0x84,
     0x53, 0xd1, 0x00, 0xed, 0x20, 0xfc, 0xb1, 0x5b, 0x6a, 0xcb, 0xbe, 0x39, 0x4a, 0x4c, 0x58, 0xcf,
     0xd0, 0xef, 0xaa, 0xfb, 0x43, 0x4d, 0x33, 0x85, 0x45, 0xf9, 0x02, 0x7f, 0x50, 0x3c, 0x9f, 0xa8,
     0x51, 0xa3, 0x40, 0x8f, 0x92, 0x9d, 0x38, 0xf5, 0xbc, 0xb6, 0xda, 0x21, 0x10, 0xff, 0xf3, 0xd2,
     0xcd, 0x0c, 0x13, 0xec, 0x5f, 0x97, 0x44, 0x17, 0xc4, 0xa7, 0x7e, 0x3d, 0x64, 0x5d, 0x19, 0x73,
     0x60, 0x81, 0x4f, 0xdc, 0x22, 0x2a, 0x90, 0x88, 0x46, 0xee, 0xb8, 0x14, 0xde, 0x5e, 0x0b, 0xdb,
     0xe0, 0x32, 0x3a, 0x0a, 0x49, 0x06, 0x24, 0x5c, 0xc2, 0xd3, 0xac, 0x62, 0x91, 0x95, 0xe4, 0x79,
     0xe7, 0xc8, 0x37, 0x6d, 0x8d, 0xd5, 0x4e, 0xa9, 0x6c, 0x56, 0xf4, 0xea, 0x65, 0x7a, 0xae, 0x08,
     0xba, 0x78, 0x25, 0x2e, 0x1c, 0xa6, 0xb4, 0xc6, 0xe8, 0xdd, 0x74, 0x1f, 0x4b, 0xbd, 0x8b, 0x8a,
     0x70, 0x3e, 0xb5, 0x66, 0x48, 0x03, 0xf6, 0x0e, 0x61, 0x35, 0x57, 0xb9, 0x86, 0xc1, 0x1d, 0x9e,
     0xe1, 0xf8, 0x98, 0x11, 0x69, 0xd9, 0x8e, 0x94, 0x9b, 0x1e, 0x87, 0xe9, 0xce, 0x55, 0x28, 0xdf,
     0x8c, 0xa1, 0x89, 0x0d, 0xbf, 0xe6, 0x42, 0x68, 0x41, 0x99, 0x2d, 0x0f, 0xb0, 0x54, 0xbb, 0x16]"

definition SB :: "byte \<Rightarrow> byte" where
  "SB b = sbox ! unat b"

text \<open>Multiplication by \<open>x\<close> modulo \<open>x\<^sup>8 + x\<^sup>4 + x\<^sup>3 + x + 1\<close>.\<close>

definition xtime :: "byte \<Rightarrow> byte" where
  "xtime b = push_bit 1 b XOR (if bit b 7 then 0x1b else 0)"

text \<open>A column of the state, its bytes from the top row down.\<close>

definition column :: "byte \<Rightarrow> byte \<Rightarrow> byte \<Rightarrow> byte \<Rightarrow> 32 word" where
  "column b0 b1 b2 b3 = push_bit 24 (ucast b0) OR push_bit 16 (ucast b1) OR push_bit 8 (ucast b2) OR ucast b3"

definition row :: "nat \<Rightarrow> 32 word \<Rightarrow> byte" where
  "row r w = ucast (drop_bit (24 - 8 * r) w)"

definition mix_column :: "32 word \<Rightarrow> 32 word" where
  "mix_column w = (let b0 = row 0 w; b1 = row 1 w; b2 = row 2 w; b3 = row 3 w in column
     (xtime b0 XOR (xtime b1 XOR b1) XOR b2 XOR b3)
     (b0 XOR xtime b1 XOR (xtime b2 XOR b2) XOR b3)
     (b0 XOR b1 XOR xtime b2 XOR (xtime b3 XOR b3))
     ((xtime b0 XOR b0) XOR b1 XOR b2 XOR xtime b3))"

definition sub_word :: "32 word \<Rightarrow> 32 word" where
  "sub_word w = column (SB (row 0 w)) (SB (row 1 w)) (SB (row 2 w)) (SB (row 3 w))"

text \<open>\<open>SubBytes\<close> and \<open>ShiftRows\<close>: row \<open>r\<close> moves \<open>r\<close> columns to the left.\<close>

definition shift_column :: "32 word \<Rightarrow> 32 word \<Rightarrow> 32 word \<Rightarrow> 32 word \<Rightarrow> 32 word" where
  "shift_column w0 w1 w2 w3 = column (SB (row 0 w0)) (SB (row 1 w1)) (SB (row 2 w2)) (SB (row 3 w3))"

definition sub_shift :: "aes_state \<Rightarrow> aes_state" where
  "sub_shift s = (case s of (w0, w1, w2, w3) \<Rightarrow>
     (shift_column w0 w1 w2 w3, shift_column w1 w2 w3 w0, shift_column w2 w3 w0 w1, shift_column w3 w0 w1 w2))"

definition map_state :: "(32 word \<Rightarrow> 32 word) \<Rightarrow> aes_state \<Rightarrow> aes_state" where
  "map_state f s = (case s of (w0, w1, w2, w3) \<Rightarrow> (f w0, f w1, f w2, f w3))"

definition add_key :: "aes_state \<Rightarrow> aes_state \<Rightarrow> aes_state" where
  "add_key k s = (case (k, s) of ((k0, k1, k2, k3), (w0, w1, w2, w3)) \<Rightarrow>
     (w0 XOR k0, w1 XOR k1, w2 XOR k2, w3 XOR k3))"

text \<open>Key expansion.\<close>

definition rot_word :: "32 word \<Rightarrow> 32 word" where
  "rot_word w = column (row 1 w) (row 2 w) (row 3 w) (row 0 w)"

definition round_constant :: "nat \<Rightarrow> 32 word" where
  "round_constant i = column ((xtime ^^ (i - 1)) 1) 0 0 0"

definition block_word :: "byte list \<Rightarrow> nat \<Rightarrow> 32 word" where
  "block_word m i = column (m ! (4 * i)) (m ! (4 * i + 1)) (m ! (4 * i + 2)) (m ! (4 * i + 3))"

fun key_word :: "byte list \<Rightarrow> nat \<Rightarrow> 32 word" where
  "key_word key i = (if i < 4 then block_word key i
     else if i mod 4 = 0 then key_word key (i - 4) XOR (sub_word (rot_word (key_word key (i - 1))) XOR round_constant (i div 4))
     else key_word key (i - 4) XOR key_word key (i - 1))"

declare key_word.simps [simp del]

definition round_key :: "byte list \<Rightarrow> nat \<Rightarrow> aes_state" where
  "round_key key r = (key_word key (4 * r), key_word key (4 * r + 1), key_word key (4 * r + 2), key_word key (4 * r + 3))"

fun cipher_state :: "byte list \<Rightarrow> nat \<Rightarrow> aes_state \<Rightarrow> aes_state" where
  "cipher_state key 0 s = add_key (round_key key 0) s"
| "cipher_state key (Suc r) s = add_key (round_key key (Suc r)) (map_state mix_column (sub_shift (cipher_state key r s)))"

definition column_bytes :: "32 word \<Rightarrow> byte list" where
  "column_bytes w = [row 0 w, row 1 w, row 2 w, row 3 w]"

definition state_bytes :: "aes_state \<Rightarrow> byte list" where
  "state_bytes s = (case s of (w0, w1, w2, w3) \<Rightarrow> column_bytes w0 @ column_bytes w1 @ column_bytes w2 @ column_bytes w3)"

definition state_of :: "byte list \<Rightarrow> aes_state" where
  "state_of m = (block_word m 0, block_word m 1, block_word m 2, block_word m 3)"

definition aes_encrypt :: "byte list \<Rightarrow> byte list \<Rightarrow> byte list" where
  "aes_encrypt key pt = state_bytes (add_key (round_key key 10) (sub_shift (cipher_state key 9 (state_of pt))))"

section \<open>Words and their bytes\<close>

lemma byte_high_bits [simp]: "8 \<le> n \<Longrightarrow> \<not> bit (x :: byte) n"
  using bit_imp_le_length [of x n] by fastforce

lemma row_column [simp]:
  "row 0 (column a b c d) = a" "row (Suc 0) (column a b c d) = b"
  "row 2 (column a b c d) = c" "row 3 (column a b c d) = d"
  by (auto intro!: bit_word_eqI simp: row_def column_def bit_simps)

lemma word_bytes_eqI:
  fixes x y :: "32 word"
  assumes "\<And>n. n < 8 \<Longrightarrow> bit x n = bit y n" and "\<And>n. 8 \<le> n \<Longrightarrow> n < 16 \<Longrightarrow> bit x n = bit y n"
    and "\<And>n. 16 \<le> n \<Longrightarrow> n < 24 \<Longrightarrow> bit x n = bit y n" and "\<And>n. 24 \<le> n \<Longrightarrow> n < 32 \<Longrightarrow> bit x n = bit y n"
  shows "x = y"
proof (rule bit_word_eqI)
  fix n assume "n < LENGTH(32)"
  then have "n < 32" by simp
  then show "bit x n = bit y n" using assms by (meson not_le)
qed

lemma column_row: "column (row 0 w) (row 1 w) (row 2 w) (row 3 w) = w"
  by (rule word_bytes_eqI) (auto simp: row_def column_def bit_simps)

lemma column_cases:
  obtains a b c d where "w = column a b c d"
  using column_row by metis

lemma column_xor: "column a b c d XOR column a' b' c' d' = column (a XOR a') (b XOR b') (c XOR c') (d XOR d')"
  by (rule word_bytes_eqI) (auto simp: column_def bit_simps)

section \<open>What the tables hold\<close>

definition inverse_column :: "byte \<Rightarrow> 32 word" where
  "inverse_column b = (let x = xtime b; x2 = xtime x; x3 = xtime x2 in
     column (x3 XOR x2 XOR x) (x3 XOR b) (x3 XOR x2 XOR b) (x3 XOR x XOR b))"

lemma Te0_table: "Te0 = map (\<lambda>s. column (xtime s) s s (xtime s XOR s)) sbox"
  by (simp add: Te0_def sbox_def xtime_def column_def)

lemma Td0_table: "Td0 = map inverse_column Td4s"
  by (simp add: Td0_def Td4s_def inverse_column_def xtime_def column_def)

lemma Td4s_inverts: "map (\<lambda>s. Td4s ! unat s) sbox = map word_of_nat [0..<256]"
  by (simp add: Td4s_def sbox_def upt_rec)

lemma table_lengths [simp]: "length sbox = 256" "length Td4s = 256"
  by (simp_all add: sbox_def Td4s_def)

end
