(* ===== verification/Aes_Correct.thy ===== *)
theory Aes_Correct
  imports Aes_Spec
begin

text \<open>
  The proof that the code's decryption, on lookup tables and a transformed key schedule, undoes the
  encryption of FIPS 197 for every key and every block.
\<close>

unbundle bit_operations_syntax

section \<open>Table lookups\<close>

lemma byte_index: "unat (drop_bit n w AND 0xff :: 32 word) = unat (ucast (drop_bit n w) :: byte)"
proof -
  have m: "(0xff :: 32 word) = mask 8" by (simp add: mask_eq_exp_minus_1)
  have "drop_bit n w AND 0xff = ucast (ucast (drop_bit n w) :: byte)"
    unfolding m by (auto intro!: bit_word_eqI simp: bit_simps)
  then show ?thesis by (simp add: unsigned_ucast_eq take_bit_eq_mod unat_mod_distrib)
qed

lemma at_byte_row: "at_byte t 24 w = t ! unat (row 0 w)" "at_byte t 16 w = t ! unat (row 1 w)"
  "at_byte t 8 w = t ! unat (row 2 w)" "at_byte t 0 w = t ! unat (row 3 w)"
  using byte_index [of 0 w] by (simp_all add: at_byte_def row_def byte_index)

lemma unat_byte [simp]: "unat (b :: byte) < 256"
proof -
  have "unat b < 2 ^ LENGTH(8)" by (rule unsigned_less)
  then show ?thesis by simp
qed

definition SBinv :: "byte \<Rightarrow> byte" where
  "SBinv b = Td4s ! unat b"

lemma SBinv_SB [simp]: "SBinv (SB b) = b"
proof -
  have "map (\<lambda>s. Td4s ! unat s) sbox ! unat b = map word_of_nat [0..<256] ! unat b"
    by (simp only: Td4s_inverts)
  then show ?thesis by (simp add: SB_def SBinv_def del: upt.simps upt_Suc)
qed

lemma Te0_at: "Te0 ! unat b = column (xtime (SB b)) (SB b) (SB b) (xtime (SB b) XOR SB b)"
  by (simp add: Te0_table SB_def)

lemma Td0_at: "Td0 ! unat b = inverse_column (SBinv b)"
  by (simp add: Td0_table SBinv_def)

lemma masked_column:
  "push_bit 8 (column a b c d) AND 0xff000000 = column b 0 0 0"
  "column a b c d AND 0x00ff0000 = column 0 b 0 0"
  "column a b c d AND 0x0000ff00 = column 0 0 c 0"
  "drop_bit 8 (column a b c d) AND 0x000000ff = column 0 0 0 c"
proof -
  have m: "(0xff000000 :: 32 word) = push_bit 24 (mask 8)" "(0x00ff0000 :: 32 word) = push_bit 16 (mask 8)"
    "(0x0000ff00 :: 32 word) = push_bit 8 (mask 8)" "(0x000000ff :: 32 word) = mask 8"
    by (simp_all add: mask_eq_exp_minus_1)
  show "push_bit 8 (column a b c d) AND 0xff000000 = column b 0 0 0"
    unfolding m by (rule word_bytes_eqI) (auto simp: column_def bit_simps)
  show "column a b c d AND 0x00ff0000 = column 0 b 0 0"
    unfolding m by (rule word_bytes_eqI) (auto simp: column_def bit_simps)
  show "column a b c d AND 0x0000ff00 = column 0 0 c 0"
    unfolding m by (rule word_bytes_eqI) (auto simp: column_def bit_simps)
  show "drop_bit 8 (column a b c d) AND 0x000000ff = column 0 0 0 c"
    unfolding m by (rule word_bytes_eqI) (auto simp: column_def bit_simps)
qed

lemma rotr_column: "rotr (column a b c d) 8 = column d a b c" "rotr (column a b c d) 16 = column c d a b"
  "rotr (column a b c d) 24 = column b c d a"
  by (rule word_bytes_eqI; auto simp: rotr_def column_def bit_simps)+

section \<open>Columns\<close>

lemma row_xor: "row r (v XOR w) = row r v XOR row r w"
  by (auto intro!: bit_word_eqI simp: row_def bit_simps)

lemma rotr_xor: "rotr (v XOR w) 8 = rotr v 8 XOR rotr w 8" "rotr (v XOR w) 16 = rotr v 16 XOR rotr w 16"
  "rotr (v XOR w) 24 = rotr v 24 XOR rotr w 24"
  by (rule column_cases [of v], rule column_cases [of w], simp add: column_xor rotr_column)+

lemma xtime_xor: "xtime (a XOR b) = xtime a XOR xtime b"
  by (auto intro!: bit_word_eqI simp: xtime_def bit_simps)

lemma xor_cancel: "a XOR (a XOR b) = b" for a b :: "'a::len word"
  by (simp flip: xor.assoc)

lemmas xor_ac = xor.assoc xor.commute xor.left_commute xor_cancel

definition inv_mix :: "32 word \<Rightarrow> 32 word" where
  "inv_mix w = inverse_column (row 0 w) XOR rotr (inverse_column (row 1 w)) 8
     XOR rotr (inverse_column (row 2 w)) 16 XOR rotr (inverse_column (row 3 w)) 24"

lemma inverse_column_xor: "inverse_column (a XOR b) = inverse_column a XOR inverse_column b"
  by (simp add: inverse_column_def Let_def column_xor xtime_xor xor_ac)

lemma inv_mix_xor: "inv_mix (v XOR w) = inv_mix v XOR inv_mix w"
  by (simp add: inv_mix_def row_xor inverse_column_xor rotr_xor xor_ac)

lemma inv_mix_mix: "inv_mix (mix_column w) = w"
proof -
  obtain a b c d where w: "w = column a b c d" by (rule column_cases)
  show ?thesis
    by (simp add: w mix_column_def inv_mix_def Let_def inverse_column_def rotr_column column_xor xtime_xor xor_ac)
qed

section \<open>Key schedules\<close>

lemma sub_rot: "TE421 w XOR TE432 w XOR TE443 w XOR TE414 w = sub_word (rot_word w)"
  by (simp add: TE421_def TE432_def TE443_def TE414_def at_byte_row Te0_at masked_column column_xor
      sub_word_def rot_word_def)

lemma sub_rot_xor: "TE421 w XOR (TE432 w XOR (TE443 w XOR (TE414 w XOR r))) = sub_word (rot_word w) XOR r"
  by (simp flip: sub_rot add: xor.assoc)

lemma RCON_constant: "i < 10 \<Longrightarrow> RCON i = round_constant (Suc i)"
proof -
  have rc: "rcons = map (\<lambda>i. (xtime ^^ i) 1) [0..<10]"
    by (simp add: rcons_def upt_rec xtime_def)
  then show "i < 10 \<Longrightarrow> RCON i = round_constant (Suc i)"
    unfolding RCON_def rc by (simp add: round_constant_def column_def del: upt_Suc)
qed

lemma GETU32_block: "GETU32 m (4 * i) = block_word m i"
  unfolding GETU32_def block_word_def by (rule word_bytes_eqI) (auto simp: column_def bit_simps)

lemma PUTU32_bytes: "PUTU32 w = column_bytes w"
  by (simp add: PUTU32_def column_bytes_def row_def)

lemma key_setup_words: "n \<le> 10 \<Longrightarrow> foldl key_setup_round
     [GETU32 key 0, GETU32 key 4, GETU32 key 8, GETU32 key 12] [0..<n] = map (key_word key) [0..<4 * n + 4]"
proof (induction n)
  case 0
  show ?case
    using GETU32_block [of key 0] GETU32_block [of key 1] GETU32_block [of key 2] GETU32_block [of key 3]
    by (simp add: key_word.simps upt_rec numeral_2_eq_2 numeral_3_eq_3)
next
  case (Suc n)
  have four: "[0..<4 * Suc n + 4] = [0..<4 * n + 4] @ [4 * n + 4, 4 * n + 5, 4 * n + 6, 4 * n + 7]"
    by (simp add: eval_nat_numeral)
  have "RCON n = round_constant (Suc n)" using Suc.prems by (simp add: RCON_constant)
  moreover have "(4 * n + 5) mod 4 = 1" "(4 * n + 6) mod 4 = 2" "(4 * n + 7) mod 4 = 3" "(4 * n + 4) div 4 = Suc n"
    by presburger+
  then have "key_word key (4 * n + 4) = key_word key (4 * n) XOR (sub_word (rot_word (key_word key (4 * n + 3))) XOR round_constant (Suc n))"
    "key_word key (4 * n + 5) = key_word key (Suc (4 * n)) XOR key_word key (4 * n + 4)"
    "key_word key (4 * n + 6) = key_word key (Suc (Suc (4 * n))) XOR key_word key (4 * n + 5)"
    "key_word key (4 * n + 7) = key_word key (4 * n + 3) XOR key_word key (4 * n + 6)"
    by ((subst key_word.simps, simp add: add.commute)+)
  ultimately have "key_setup_round (map (key_word key) [0..<4 * n + 4]) n = map (key_word key) [0..<4 * Suc n + 4]"
    unfolding four by (simp add: key_setup_round_def Let_def nth_append xor.assoc sub_rot_xor del: upt_Suc)
  then show ?case using Suc by simp
qed

lemma rijndaelKeySetupEnc_words: "rijndaelKeySetupEnc key = map (key_word key) [0..<44]"
  using key_setup_words [of 10 key] by (simp add: rijndaelKeySetupEnc_def del: upt_Suc)

lemma inverse_mix_column_inv: "inverse_mix_column w = inv_mix w"
proof -
  have low: "x AND 0xff = column 0 0 0 (row 3 x)" for x
  proof -
    have m: "(0xff :: 32 word) = mask 8" by (simp add: mask_eq_exp_minus_1)
    show ?thesis
      unfolding m by (rule word_bytes_eqI) (auto simp: column_def row_def bit_simps)
  qed
  have index: "unat (column 0 0 0 b) = unat b" for b
    using unat_byte [of b] by (simp add: column_def unsigned_ucast_eq take_bit_nat_eq_self del: unat_byte)
  have te4: "TE4 (column 0 0 0 b) = column 0 0 0 (SB b)" for b
    by (simp add: TE4_def index Te0_at masked_column)
  have top: "drop_bit 24 w = column 0 0 0 (row 0 w)"
    by (rule word_bytes_eqI) (auto simp: column_def row_def bit_simps dest: bit_imp_le_length)
  have "row 3 (drop_bit 16 w) = row 1 w" "row 3 (drop_bit 8 w) = row 2 w"
    by (simp_all add: row_def)
  then show ?thesis
    by (simp add: inverse_mix_column_def top low te4 TD0low_def TD1low_def TD2low_def TD3low_def at_byte_row Td0_at inv_mix_def)
qed

definition dec_word :: "byte list \<Rightarrow> nat \<Rightarrow> 32 word" where
  "dec_word key k = (let w = key_word key (4 * (10 - k div 4) + k mod 4)
     in if 0 < k div 4 \<and> k div 4 < 10 then inv_mix w else w)"

lemma schedule_indices: "[0..<44] = [0, 1, 2, 3, 4, 5, 6, 7, 8, 9, 10, 11, 12, 13, 14, 15, 16, 17, 18, 19, 20, 21, 22, 23, 24,
     25, 26, 27, 28, 29, 30, 31, 32, 33, 34, 35, 36, 37, 38, 39, 40, 41, 42, 43 :: nat]"
  and round_indices: "[1..<10] = [1, 2, 3, 4, 5, 6, 7, 8, 9 :: nat]"
  and column_indices: "[0..<4] = [0, 1, 2, 3 :: nat]"
  by (simp_all add: upt_rec)

lemma invert_order_words: "invert_order 0 40 (map f [0..<44]) = map (\<lambda>k. f (4 * (10 - k div 4) + k mod 4)) [0..<44]"
  unfolding schedule_indices by (simp add: invert_order.simps swap_words_def) (simp add: eval_nat_numeral)

lemma rijndaelKeySetupDec_words: "rijndaelKeySetupDec key = map (dec_word key) [0..<44]"
  unfolding rijndaelKeySetupDec_def rijndaelKeySetupEnc_words invert_order_words
  unfolding schedule_indices round_indices column_indices by (simp add: dec_word_def inverse_mix_column_inv)

section \<open>The rounds\<close>

lemma TD_column:
  "TD0 u XOR TD1 v XOR TD2 w XOR TD3 x = inv_mix (column (SBinv (row 0 u)) (SBinv (row 1 v)) (SBinv (row 2 w)) (SBinv (row 3 x)))"
  by (simp add: TD0_def TD1_def TD2_def TD3_def at_byte_row Td0_at inv_mix_def)

lemma TD_column_xor:
  "TD0 u XOR TD1 v XOR TD2 w XOR TD3 x XOR k
     = inv_mix (column (SBinv (row 0 u)) (SBinv (row 1 v)) (SBinv (row 2 w)) (SBinv (row 3 x))) XOR k"
  using arg_cong [OF TD_column, of "\<lambda>x. x XOR k"] by (simp only: xor.assoc)

lemma TD4_column:
  "TD41 u XOR TD42 v XOR TD43 w XOR TD44 x = column (SBinv (row 0 u)) (SBinv (row 1 v)) (SBinv (row 2 w)) (SBinv (row 3 x))"
  unfolding TD41_def TD42_def TD43_def TD44_def at_byte_row SBinv_def [symmetric]
  by (rule word_bytes_eqI) (auto simp: column_def bit_simps)

lemma sub_shift_rows:
  "sub_shift (w0, w1, w2, w3) = (s0, s1, s2, s3) \<Longrightarrow>
    column (SBinv (row 0 s0)) (SBinv (row 1 s3)) (SBinv (row 2 s2)) (SBinv (row 3 s1)) = w0 \<and>
    column (SBinv (row 0 s1)) (SBinv (row 1 s0)) (SBinv (row 2 s3)) (SBinv (row 3 s2)) = w1 \<and>
    column (SBinv (row 0 s2)) (SBinv (row 1 s1)) (SBinv (row 2 s0)) (SBinv (row 3 s3)) = w2 \<and>
    column (SBinv (row 0 s3)) (SBinv (row 1 s2)) (SBinv (row 2 s1)) (SBinv (row 3 s0)) = w3"
  using column_row [of w0] column_row [of w1] column_row [of w2] column_row [of w3]
  by (auto simp: sub_shift_def shift_column_def)

definition schedule_key :: "32 word list \<Rightarrow> nat \<Rightarrow> aes_state" where
  "schedule_key rk k = (rk ! k, rk ! (k + 1), rk ! (k + 2), rk ! (k + 3))"

lemma dec_round_sub_shift: "dec_round rk k (sub_shift s) = add_key (schedule_key rk k) (map_state inv_mix s)"
proof -
  obtain w0 w1 w2 w3 where s: "s = (w0, w1, w2, w3)" by (cases s)
  obtain s0 s1 s2 s3 where t: "sub_shift (w0, w1, w2, w3) = (s0, s1, s2, s3)" by (cases "sub_shift (w0, w1, w2, w3)")
  show ?thesis
    using sub_shift_rows [OF t] by (simp add: s t dec_round_def TD_column_xor add_key_def schedule_key_def map_state_def)
qed

lemma undo_round:
  assumes "schedule_key rk k = map_state inv_mix (round_key key (Suc r))"
  shows "dec_round rk k (sub_shift (cipher_state key (Suc r) s)) = sub_shift (cipher_state key r s)"
  unfolding dec_round_sub_shift assms
  by (cases "sub_shift (cipher_state key r s)")
    (simp add: add_key_def map_state_def inv_mix_xor inv_mix_mix round_key_def xor.assoc)

lemma dec_keys:
  assumes "0 < i" and "i < 10"
  shows "schedule_key (rijndaelKeySetupDec key) (4 * i) = map_state inv_mix (round_key key (10 - i))"
proof -
  have k: "(4 * i + j) div 4 = i" "(4 * i + j) mod 4 = j" "4 * i + j < 44" if "j < 4" for j
    using that assms by (simp_all add: div_add1_eq) 
  show ?thesis
    using assms k [of 0] k [of 1] k [of 2] k [of 3]
    by (simp add: schedule_key_def rijndaelKeySetupDec_words dec_word_def round_key_def map_state_def del: upt_Suc)
qed

lemma dec_rounds_run:
  assumes "r \<le> 4"
  shows "dec_rounds (rijndaelKeySetupDec key) r (32 - 8 * r) (sub_shift (cipher_state key (2 * r + 1) s))
     = sub_shift (cipher_state key 0 s)"
  using assms
proof (induction r)
  case 0
  show ?case using undo_round [OF dec_keys [of 9 key, simplified], of s] by simp
next
  case (Suc r)
  have "schedule_key (rijndaelKeySetupDec key) (32 - 8 * Suc r + 4) = map_state inv_mix (round_key key (Suc (2 * r + 2)))"
    "schedule_key (rijndaelKeySetupDec key) (32 - 8 * Suc r + 8) = map_state inv_mix (round_key key (Suc (2 * r + 1)))"
  proof -
    have eqs: "4 * (7 - 2 * r) = 32 - 8 * Suc r + 4" "10 - (7 - 2 * r) = Suc (2 * r + 2)"
      "4 * (8 - 2 * r) = 32 - 8 * Suc r + 8" "10 - (8 - 2 * r) = Suc (2 * r + 1)"
      and le: "0 < 7 - 2 * r" "7 - 2 * r < 10" "0 < 8 - 2 * r" "8 - 2 * r < 10"
      using Suc.prems by simp_all
    show "schedule_key (rijndaelKeySetupDec key) (32 - 8 * Suc r + 4) = map_state inv_mix (round_key key (Suc (2 * r + 2)))"
      using dec_keys [OF le(1,2), of key] by (simp only: eqs)
    show "schedule_key (rijndaelKeySetupDec key) (32 - 8 * Suc r + 8) = map_state inv_mix (round_key key (Suc (2 * r + 1)))"
      using dec_keys [OF le(3,4), of key] by (simp only: eqs)
  qed
  note undo_round [OF this(1), of s] undo_round [OF this(2), of s]
  then show ?case
    using Suc by (simp add: add.commute)
qed

section \<open>Whole blocks\<close>

lemma state_of_bytes [simp]: "state_of (state_bytes s) = s"
  using column_row by (cases s) (simp add: state_of_def state_bytes_def column_bytes_def block_word_def eval_nat_numeral)

lemma state_bytes_of:
  assumes "length m = 16"
  shows "state_bytes (state_of m) = m"
proof -
  from assms have "m = map ((!) m) [0..<16]" using map_nth [of m] by simp
  also have "[0..<16] = [0, 1, 2, 3, 4, 5, 6, 7, 8, 9, 10, 11, 12, 13, 14, 15 :: nat]"
    by (simp add: upt_rec)
  finally have "m = map ((!) m) [0, 1, 2, 3, 4, 5, 6, 7, 8, 9, 10, 11, 12, 13, 14, 15]" .
  moreover have "state_bytes (state_of m) = map ((!) m) [0, 1, 2, 3, 4, 5, 6, 7, 8, 9, 10, 11, 12, 13, 14, 15]"
    by (simp add: state_of_def state_bytes_def column_bytes_def block_word_def) (simp add: numeral_2_eq_2)
  ultimately show ?thesis by metis
qed

lemma length_state_bytes [simp]: "length (state_bytes s) = 16"
  by (cases s) (simp add: state_bytes_def column_bytes_def)

lemma add_key_twice: "add_key k (add_key k s) = s"
  by (cases k, cases s) (simp add: add_key_def xor.assoc)

lemma last_round:
  assumes "sub_shift w = (t0, t1, t2, t3)"
  shows "PUTU32 (TD41 t0 XOR TD42 t3 XOR TD43 t2 XOR TD44 t1 XOR rk ! 40)
        @ PUTU32 (TD41 t1 XOR TD42 t0 XOR TD43 t3 XOR TD44 t2 XOR rk ! 41)
        @ PUTU32 (TD41 t2 XOR TD42 t1 XOR TD43 t0 XOR TD44 t3 XOR rk ! 42)
        @ PUTU32 (TD41 t3 XOR TD42 t2 XOR TD43 t1 XOR TD44 t0 XOR rk ! 43)
      = state_bytes (add_key (schedule_key rk 40) w)"
proof -
  obtain w0 w1 w2 w3 where w: "w = (w0, w1, w2, w3)" by (cases w)
  have td4: "TD41 u XOR TD42 v XOR TD43 x XOR TD44 y XOR k
      = column (SBinv (row 0 u)) (SBinv (row 1 v)) (SBinv (row 2 x)) (SBinv (row 3 y)) XOR k" for u v x y k
    using arg_cong [OF TD4_column, of "\<lambda>z. z XOR k"] by (simp only: xor.assoc)
  show ?thesis
    using sub_shift_rows [OF assms [unfolded w]]
    by (simp only: td4) (simp add: w PUTU32_bytes state_bytes_def add_key_def schedule_key_def)
qed

lemma edge_keys:
  "schedule_key (rijndaelKeySetupDec key) 0 = round_key key 10"
  "schedule_key (rijndaelKeySetupDec key) 40 = round_key key 0"
  by (simp_all add: schedule_key_def rijndaelKeySetupDec_words dec_word_def round_key_def del: upt_Suc)

theorem aes_decrypt_encrypt:
  assumes "length pt = 16"
  shows "aes_decrypt (rijndaelKeySetupDec key) (aes_encrypt key pt) = pt"
proof -
  define rk where "rk = rijndaelKeySetupDec key"
  define ct where "ct = aes_encrypt key pt"
  define e where "e r = cipher_state key r (state_of pt)" for r
  have start: "(GETU32 ct 0 XOR rk ! 0, GETU32 ct 4 XOR rk ! 1, GETU32 ct 8 XOR rk ! 2, GETU32 ct 12 XOR rk ! 3)
      = add_key (schedule_key rk 0) (state_of ct)"
    using GETU32_block [of ct 0] GETU32_block [of ct 1] GETU32_block [of ct 2] GETU32_block [of ct 3]
    by (simp add: add_key_def schedule_key_def state_of_def numeral_2_eq_2)
  have "state_of ct = add_key (round_key key 10) (sub_shift (e 9))"
    by (simp add: ct_def aes_encrypt_def e_def)
  then have first: "add_key (schedule_key rk 0) (state_of ct) = sub_shift (e 9)"
    by (simp add: rk_def edge_keys add_key_twice)
  have rounds: "dec_rounds rk 4 0 (sub_shift (e 9)) = sub_shift (e 0)"
    using dec_rounds_run [of 4 key "state_of pt"] by (simp add: rk_def e_def)
  obtain t0 t1 t2 t3 where t: "sub_shift (e 0) = (t0, t1, t2, t3)" by (cases "sub_shift (e 0)")
  have "rijndaelDecrypt rk ct = state_bytes (add_key (schedule_key rk 40) (e 0))"
    unfolding rijndaelDecrypt_def start first rounds Let_def t prod.case by (rule last_round [OF t])
  also have "\<dots> = pt"
    by (simp add: rk_def edge_keys e_def add_key_twice state_bytes_of [OF assms])
  finally show ?thesis by (simp add: aes_decrypt_def rk_def ct_def)
qed

lemma length_aes [simp]: "length (aes_encrypt key pt) = 16" "length (aes_decrypt ctx ct) = 16"
  by (simp_all add: aes_encrypt_def aes_decrypt_def rijndaelDecrypt_def PUTU32_def Let_def split: prod.splits)

text \<open>Encryption is injective on blocks, so it reaches every block.\<close>

lemma aes_encrypt_decrypt:
  assumes "length ct = 16"
  shows "aes_encrypt key (aes_decrypt (rijndaelKeySetupDec key) ct) = ct"
proof -
  let ?blocks = "{xs :: byte list. length xs = 16}"
  have "finite ?blocks" using finite_lists_length_eq [of "UNIV :: byte set" 16] by simp
  moreover have "inj_on (aes_encrypt key) ?blocks"
    by (rule inj_on_inverseI [where g = "aes_decrypt (rijndaelKeySetupDec key)"]) (simp add: aes_decrypt_encrypt)
  ultimately have "aes_encrypt key ` ?blocks = ?blocks"
    by (intro endo_inj_surj) auto
  then obtain pt where "length pt = 16" "ct = aes_encrypt key pt" using assms by auto
  then show ?thesis by (simp add: aes_decrypt_encrypt)
qed

end
