(* ===== verification/Key_Unwrap.thy ===== *)
theory Key_Unwrap
  imports Aes_Correct Sha1_Spec
begin

text \<open>
  The wrapping of keys of RFC 3394, over any block cipher (\<open>block_cipher\<close>), and its relation to
  \<^verbatim>\<open>aes_unwrap\<close>: unwrapping undoes wrapping, and what is not a wrapped key is refused. The interface is
  interpreted on the code's AES.
\<close>

unbundle bit_operations_syntax

section \<open>RFC 3394\<close>

definition wrap_turn :: "(byte list \<Rightarrow> byte list) \<Rightarrow> nat \<Rightarrow> nat \<Rightarrow> nat \<Rightarrow> byte list \<times> byte list \<Rightarrow> byte list \<times> byte list" where
  "wrap_turn enc n j i s = (case s of (a, r) \<Rightarrow>
     let b = enc (a @ take 8 (drop (8 * (i - 1)) r))
     in (map2 (XOR) (take 8 b) (be_bytes 8 (n * j + i)), take (8 * (i - 1)) r @ drop 8 b @ drop (8 * i) r))"

definition wrap_loops :: "(byte list \<Rightarrow> byte list) \<Rightarrow> nat \<Rightarrow> byte list \<times> byte list \<Rightarrow> byte list \<times> byte list" where
  "wrap_loops enc n s = foldl (\<lambda>s j. foldl (\<lambda>s i. wrap_turn enc n j i s) s [1..<n + 1]) s [0..<6]"

definition wrap_iv :: "byte list" where
  "wrap_iv = replicate 8 0xa6"

definition key_wrap :: "(byte list \<Rightarrow> byte list) \<Rightarrow> byte list \<Rightarrow> byte list" where
  "key_wrap enc p = (case wrap_loops enc (length p div 8) (wrap_iv, p) of (a, r) \<Rightarrow> a @ r)"

section \<open>Loops over pairs\<close>

lemma foldl_pairs: "foldl (\<lambda>s j. foldl (\<lambda>s i. f j i s) s ks) s js = foldl (\<lambda>s (j, i). f j i s) s (List.product js ks)"
  by (induction js arbitrary: s) (simp_all add: foldl_map)

lemma rev_product: "rev (List.product js ks) = List.product (rev js) (rev ks)"
  by (simp add: product_concat_map rev_concat rev_map comp_def)

lemma foldl_undo:
  assumes "I s" and "\<And>x s. x \<in> set xs \<Longrightarrow> I s \<Longrightarrow> I (f s x) \<and> g (f s x) x = s"
  shows "foldl g (foldl f s xs) (rev xs) = s \<and> I (foldl f s xs)"
  using assms
proof (induction xs arbitrary: s)
  case (Cons x xs)
  have "I (f s x)" and undo: "g (f s x) x = s" using Cons.prems by auto
  then have "foldl g (foldl f (f s x) xs) (rev xs) = f s x \<and> I (foldl f (f s x) xs)"
    using Cons.prems(2) by (intro Cons.IH) auto
  then show ?case using undo by simp
qed simp

lemma xor_low_byte:
  assumes "length b = 8" and "t < 256"
  shows "map2 (XOR) b (be_bytes 8 t) = b[7 := b ! 7 XOR word_of_nat t]"
proof -
  have "b = map ((!) b) [0..<8]" using map_nth [of b] assms by simp
  then obtain b0 b1 b2 b3 b4 b5 b6 b7 where b: "b = [b0, b1, b2, b3, b4, b5, b6, b7]"
    by (simp add: upt_rec)
  have high: "t div 256 ^ Suc k = 0" for k
  proof -
    have "t div 256 = 0" using assms(2) by simp
    then show ?thesis by (simp add: div_mult2_eq)
  qed
  show ?thesis
    using high [of 0] high [of 1] high [of 2] high [of 3] high [of 4] high [of 5] high [of 6]
    by (simp add: b be_bytes_def upt_rec)
qed

section \<open>One turn\<close>

lemma wrap_turn_split:
  "1 \<le> i \<Longrightarrow> length p = 8 * (i - 1) \<Longrightarrow> length m = 8 \<Longrightarrow> wrap_turn enc n j i (a, p @ m @ q)
    = (map2 (XOR) (take 8 (enc (a @ m))) (be_bytes 8 (n * j + i)), p @ drop 8 (enc (a @ m)) @ q)"
  by (simp add: wrap_turn_def Let_def diff_mult_distrib2)

lemma unwrap_turn_split:
  "1 \<le> i \<Longrightarrow> length p = 8 * (i - 1) \<Longrightarrow> length m = 8 \<Longrightarrow> unwrap_turn dec n j i (a, p @ m @ q)
    = (take 8 (dec (a[7 := a ! 7 XOR word_of_nat (n * j + i)] @ m)), p @ drop 8 (dec (a[7 := a ! 7 XOR word_of_nat (n * j + i)] @ m)) @ q)"
  by (simp add: unwrap_turn_def Let_def diff_mult_distrib2 del: of_nat_add of_nat_mult)

lemma split_at_turn:
  assumes "1 \<le> i" "i \<le> n" and "length r = 8 * n"
  obtains p m q where "r = p @ m @ q" "length p = 8 * (i - 1)" "length m = 8"
proof -
  have "r = take (8 * (i - 1)) r @ take 8 (drop (8 * (i - 1)) r) @ drop 8 (drop (8 * (i - 1)) r)"
    by (simp only: append_take_drop_id)
  moreover have "8 * (i - 1) + 8 \<le> length r" using assms by auto
  then have "length (take (8 * (i - 1)) r) = 8 * (i - 1)" "length (take 8 (drop (8 * (i - 1)) r)) = 8" by simp_all
  ultimately show ?thesis using that by blast
qed

definition sized :: "nat \<Rightarrow> byte list \<times> byte list \<Rightarrow> bool" where
  "sized n s \<longleftrightarrow> length (fst s) = 8 \<and> length (snd s) = 8 * n"

lemma xor_twice: "length a = 8 \<Longrightarrow> a[7 := a ! 7 XOR w, 7 := a[7 := a ! 7 XOR w] ! 7 XOR w] = (a :: byte list)"
  by (simp add: xor.assoc list_update_same_conv)

lemma halves: "length b = 16 \<Longrightarrow> take 8 b @ drop 8 b = b \<and> length (take 8 b) = 8 \<and> length (drop 8 b) = 8"
  by simp

section \<open>Any block cipher\<close>

locale block_cipher =
  fixes enc dec :: "byte list \<Rightarrow> byte list"
  assumes enc_length: "length (enc b) = 16" and dec_length: "length (dec b) = 16"
    and dec_enc: "length b = 16 \<Longrightarrow> dec (enc b) = b" and enc_dec: "length b = 16 \<Longrightarrow> enc (dec b) = b"
begin

lemma unwrap_wrap_turn:
  assumes "sized n s" and "1 \<le> i" "i \<le> n" and "n * j + i < 256"
  shows "sized n (wrap_turn enc n j i s) \<and> unwrap_turn dec n j i (wrap_turn enc n j i s) = s"
proof -
  obtain a r where s: "s = (a, r)" "length a = 8" "length r = 8 * n"
    using assms(1) by (cases s) (auto simp: sized_def)
  obtain p m q where r: "r = p @ m @ q" "length p = 8 * (i - 1)" "length m = 8"
    using split_at_turn [OF assms(2,3) s(3)] .
  define b where "b = enc (a @ m)"
  have b: "length b = 16" "dec b = a @ m" using s(2) r(3) by (simp_all add: b_def enc_length dec_enc)
  have xor: "map2 (XOR) (take 8 b) (be_bytes 8 (n * j + i)) = (take 8 b)[7 := take 8 b ! 7 XOR word_of_nat (n * j + i)]"
    using b(1) assms(4) by (intro xor_low_byte) simp_all
  show ?thesis
    using s r b assms(2) halves [OF b(1)] xor_twice [of "take 8 b"]
    by (simp add: wrap_turn_split unwrap_turn_split b_def [symmetric] xor sized_def del: of_nat_add of_nat_mult)
qed

lemma wrap_unwrap_turn:
  assumes "sized n s" and "1 \<le> i" "i \<le> n" and "n * j + i < 256"
  shows "sized n (unwrap_turn dec n j i s) \<and> wrap_turn enc n j i (unwrap_turn dec n j i s) = s"
proof -
  obtain a r where s: "s = (a, r)" "length a = 8" "length r = 8 * n"
    using assms(1) by (cases s) (auto simp: sized_def)
  obtain p m q where r: "r = p @ m @ q" "length p = 8 * (i - 1)" "length m = 8"
    using split_at_turn [OF assms(2,3) s(3)] .
  define a' where "a' = a[7 := a ! 7 XOR word_of_nat (n * j + i)]"
  define b where "b = dec (a' @ m)"
  have a': "length a' = 8" using s(2) by (simp add: a'_def)
  have b: "length b = 16" "enc b = a' @ m" using a' r(3) by (simp_all add: b_def dec_length enc_dec)
  have "map2 (XOR) a' (be_bytes 8 (n * j + i)) = a"
    using xor_low_byte [OF a' assms(4)] xor_twice [OF s(2)] by (simp add: a'_def del: of_nat_add of_nat_mult)
  then show ?thesis
    using s r a' b assms(2) halves [OF b(1)]
    by (simp add: wrap_turn_split unwrap_turn_split a'_def [symmetric] b_def [symmetric] sized_def del: of_nat_add of_nat_mult)
qed

lemma turn_bound: "(j, i) \<in> set (List.product [0..<6] [1..<n + 1]) \<Longrightarrow> n \<le> 42 \<Longrightarrow> 1 \<le> i \<and> i \<le> n \<and> n * j + i < 256"
proof -
  assume "(j, i) \<in> set (List.product [0..<6] [1..<n + 1])" "n \<le> 42"
  then have "j \<le> 5" "1 \<le> i" "i \<le> n" by auto
  moreover from this have "n * j \<le> 42 * 5" using \<open>n \<le> 42\<close> by (intro mult_le_mono) auto
  ultimately show ?thesis using \<open>n \<le> 42\<close> by auto
qed

lemma unwrap_wrap_loops:
  assumes "sized n s" and "n \<le> 42"
  shows "unwrap_loops dec n (wrap_loops enc n s) = s \<and> sized n (wrap_loops enc n s)"
  unfolding unwrap_loops_def wrap_loops_def foldl_pairs rev_product [symmetric]
  using turn_bound assms(2) unwrap_wrap_turn by (intro foldl_undo assms(1)) (auto simp del: upt_Suc)

lemma wrap_unwrap_loops:
  assumes "sized n s" and "n \<le> 42"
  shows "wrap_loops enc n (unwrap_loops dec n s) = s \<and> sized n (unwrap_loops dec n s)"
proof -
  let ?ps = "List.product [0..<6] [1..<n + 1]"
  have "foldl (\<lambda>s (j, i). wrap_turn enc n j i s) (foldl (\<lambda>s (j, i). unwrap_turn dec n j i s) s (rev ?ps)) (rev (rev ?ps)) = s
      \<and> sized n (foldl (\<lambda>s (j, i). unwrap_turn dec n j i s) s (rev ?ps))"
    using turn_bound assms(2) wrap_unwrap_turn by (intro foldl_undo assms(1)) (auto simp del: upt_Suc)
  then show ?thesis
    unfolding unwrap_loops_def wrap_loops_def foldl_pairs rev_product [symmetric] by simp
qed

lemma unwrap_key_wrap:
  assumes "length p = 8 * n" and "n \<le> 42"
  shows "length (key_wrap enc p) = 8 * n + 8
     \<and> unwrap_loops dec n (take 8 (key_wrap enc p), drop 8 (key_wrap enc p)) = (wrap_iv, p)"
proof -
  have "sized n (wrap_iv, p)" using assms(1) by (simp add: sized_def wrap_iv_def)
  from unwrap_wrap_loops [OF this assms(2)] show ?thesis
    using assms(1) by (cases "wrap_loops enc n (wrap_iv, p)") (simp add: key_wrap_def sized_def)
qed

lemma only_wrapped_keys:
  assumes "length c = 8 * n + 8" and "n \<le> 42" and "unwrap_loops dec n (take 8 c, drop 8 c) = (wrap_iv, p)"
  shows "c = key_wrap enc p"
proof -
  have sz: "sized n (take 8 c, drop 8 c)" using assms(1) by (simp add: sized_def)
  from wrap_unwrap_loops [OF this assms(2)] have "wrap_loops enc n (wrap_iv, p) = (take 8 c, drop 8 c)" "length p = 8 * n"
    by (simp_all add: assms(3) sized_def)
  then show ?thesis by (simp add: key_wrap_def)
qed

end

interpretation aes: block_cipher "aes_encrypt key" "aes_decrypt (rijndaelKeySetupDec key)"
  by unfold_locales (simp_all add: aes_decrypt_encrypt aes_encrypt_decrypt)

section \<open>The code\<close>

lemma iv_test: "length a = 8 \<Longrightarrow> (\<exists>i\<in>{..<8}. a ! i \<noteq> 0xa6) \<longleftrightarrow> a \<noteq> wrap_iv"
  by (auto simp: wrap_iv_def list_eq_iff_nth_eq)

lemma aes_unwrap_value:
  assumes "16 \<le> length kek" and "length c = 8 * n + 8" and "n \<le> 42"
  shows "aes_unwrap kek n c = (case unwrap_loops (aes_decrypt (rijndaelKeySetupDec (take 16 kek))) n (take 8 c, drop 8 c) of
     (a, r) \<Rightarrow> if a = wrap_iv then Inr (0, r) else Inr (-1, r))"
proof -
  obtain a r where u: "unwrap_loops (aes_decrypt (rijndaelKeySetupDec (take 16 kek))) n (take 8 c, drop 8 c) = (a, r)"
    by fastforce
  have "sized n (unwrap_loops (aes_decrypt (rijndaelKeySetupDec (take 16 kek))) n (take 8 c, drop 8 c))"
    using aes.wrap_unwrap_loops assms(2,3) by (simp add: sized_def)
  then have "length a = 8" by (simp add: u sized_def)
  from iv_test [OF this] show ?thesis
    using assms by (simp only: aes_unwrap_def) (simp add: read_bytes_in aes_decrypt_init_def u)
qed

theorem aes_unwrap_accepts:
  assumes "16 \<le> length kek" and "length c = 8 * n + 8" and "n \<le> 42"
  shows "aes_unwrap kek n c = Inr (0, p) \<longleftrightarrow> length p = 8 * n \<and> c = key_wrap (aes_encrypt (take 16 kek)) p"
proof
  assume "aes_unwrap kek n c = Inr (0, p)"
  then have u: "unwrap_loops (aes_decrypt (rijndaelKeySetupDec (take 16 kek))) n (take 8 c, drop 8 c) = (wrap_iv, p)"
    by (auto simp: aes_unwrap_value [OF assms] split: prod.splits if_splits)
  have "sized n (wrap_iv, p)"
    using aes.wrap_unwrap_loops [of n "(take 8 c, drop 8 c)" "take 16 kek"] assms(2,3) by (simp add: u sized_def)
  then show "length p = 8 * n \<and> c = key_wrap (aes_encrypt (take 16 kek)) p"
    using aes.only_wrapped_keys [OF assms(2,3) u] by (simp add: sized_def)
next
  assume "length p = 8 * n \<and> c = key_wrap (aes_encrypt (take 16 kek)) p"
  then have "unwrap_loops (aes_decrypt (rijndaelKeySetupDec (take 16 kek))) n (take 8 c, drop 8 c) = (wrap_iv, p)"
    using aes.unwrap_key_wrap [of p n "take 16 kek"] assms(3) by blast
  then show "aes_unwrap kek n c = Inr (0, p)"
    by (simp add: aes_unwrap_value [OF assms])
qed

lemma aes_unwrap_returns:
  assumes "16 \<le> length kek" and "length c = 8 * n + 8" and "n \<le> 42"
  shows "(\<exists>p. aes_unwrap kek n c = Inr (0, p)) \<or> (\<exists>p. aes_unwrap kek n c = Inr (-1, p))"
  by (auto simp: aes_unwrap_value [OF assms] split: prod.splits)

end
