(* ===== verification/Eapol_Frames.thy ===== *)
theory Eapol_Frames
  imports Wpa_Keys Key_Unwrap
begin

text \<open>
  EAPOL-Key frames as \<^verbatim>\<open>wlan-core-eapol.c\<close> and \<^verbatim>\<open>wpa_decrypt_eapol_key_data\<close> handle them. A frame is the
  memory from its first byte to the end of the receive buffer; the code writes into it when it checks the
  integrity code and decrypts the key data. The struct \<^verbatim>\<open>eapol_key_frame\<close> is packed, so its members are
  slices at fixed offsets.
\<close>

unbundle bit_operations_syntax

section \<open>Members of a frame\<close>

definition KEY_FRAME_LEN :: nat where
  "KEY_FRAME_LEN = 99"

definition desc_type :: "byte list \<Rightarrow> byte" where "desc_type f = f ! 4"
definition key_info :: "byte list \<Rightarrow> 16 word" where "key_info f = word_of_nat (get_be (slice 5 2 f))"
definition key_replay_counter :: "byte list \<Rightarrow> 64 word" where
  "key_replay_counter f = word_of_nat (get_be (slice 9 8 f))"
definition key_nonce :: "byte list \<Rightarrow> byte list" where "key_nonce f = slice 17 32 f"
definition eapol_key_iv :: "byte list \<Rightarrow> byte list" where "eapol_key_iv f = slice 49 16 f"
definition key_rsc :: "byte list \<Rightarrow> byte list" where "key_rsc f = slice 65 8 f"
definition key_mic :: "byte list \<Rightarrow> byte list" where "key_mic f = slice 81 16 f"
definition key_data_len :: "byte list \<Rightarrow> nat" where "key_data_len f = get_be (slice 97 2 f)"

text \<open>The members in their order, from values.\<close>

definition key_frame :: "byte \<Rightarrow> byte \<Rightarrow> byte list \<Rightarrow> byte \<Rightarrow> byte list \<Rightarrow> byte list \<Rightarrow> byte list \<Rightarrow> byte list
    \<Rightarrow> byte list \<Rightarrow> byte list \<Rightarrow> byte list \<Rightarrow> byte list \<Rightarrow> byte list \<Rightarrow> byte list \<Rightarrow> byte list" where
  "key_frame version ptype body_len desc info klen replay nonce iv rsc reserved mic dlen data =
     [version, ptype] @ body_len @ [desc] @ info @ klen @ replay @ nonce @ iv @ rsc @ reserved @ mic @ dlen @ data"

definition is_bitfield_zero :: "byte list \<Rightarrow> bool" where
  "is_bitfield_zero bs \<longleftrightarrow> foldl (OR) 0 bs = 0"

section \<open>Key information\<close>

definition WPA_KEY_INFO_TYPE_MASK :: "16 word" where "WPA_KEY_INFO_TYPE_MASK = 7"
definition WPA_KEY_INFO_KEY_TYPE :: nat where "WPA_KEY_INFO_KEY_TYPE = 3"
definition WPA_KEY_INFO_INSTALL :: nat where "WPA_KEY_INFO_INSTALL = 6"
definition WPA_KEY_INFO_ACK :: nat where "WPA_KEY_INFO_ACK = 7"
definition WPA_KEY_INFO_MIC :: nat where "WPA_KEY_INFO_MIC = 8"
definition WPA_KEY_INFO_SECURE :: nat where "WPA_KEY_INFO_SECURE = 9"
definition WPA_KEY_INFO_ERROR :: nat where "WPA_KEY_INFO_ERROR = 10"
definition WPA_KEY_INFO_REQUEST :: nat where "WPA_KEY_INFO_REQUEST = 11"
definition WPA_KEY_INFO_ENCR_KEY_DATA :: nat where "WPA_KEY_INFO_ENCR_KEY_DATA = 12"
definition WPA_KEY_INFO_SMK_MESSAGE :: nat where "WPA_KEY_INFO_SMK_MESSAGE = 13"

lemmas key_info_defs = WPA_KEY_INFO_TYPE_MASK_def WPA_KEY_INFO_KEY_TYPE_def WPA_KEY_INFO_INSTALL_def
  WPA_KEY_INFO_ACK_def WPA_KEY_INFO_MIC_def WPA_KEY_INFO_SECURE_def WPA_KEY_INFO_ERROR_def
  WPA_KEY_INFO_REQUEST_def WPA_KEY_INFO_ENCR_KEY_DATA_def WPA_KEY_INFO_SMK_MESSAGE_def
  WPA_KEY_INFO_TYPE_HMAC_SHA1_AES_def

text \<open>The tests of the key information of the three frames a station expects.\<close>

definition key_type_ok :: "16 word \<Rightarrow> bool" where
  "key_type_ok ki \<longleftrightarrow> ki AND WPA_KEY_INFO_TYPE_MASK = word_of_nat WPA_KEY_INFO_TYPE_HMAC_SHA1_AES"

definition info_4way_msg_1 :: "16 word \<Rightarrow> bool" where
  "info_4way_msg_1 ki \<longleftrightarrow> key_type_ok ki \<and> bit ki WPA_KEY_INFO_KEY_TYPE \<and> bit ki WPA_KEY_INFO_ACK
     \<and> \<not> bit ki WPA_KEY_INFO_MIC \<and> \<not> bit ki WPA_KEY_INFO_SECURE \<and> \<not> bit ki WPA_KEY_INFO_ERROR
     \<and> \<not> bit ki WPA_KEY_INFO_REQUEST \<and> \<not> bit ki WPA_KEY_INFO_ENCR_KEY_DATA \<and> \<not> bit ki WPA_KEY_INFO_SMK_MESSAGE"

definition info_4way_msg_3 :: "16 word \<Rightarrow> bool" where
  "info_4way_msg_3 ki \<longleftrightarrow> key_type_ok ki \<and> bit ki WPA_KEY_INFO_KEY_TYPE \<and> bit ki WPA_KEY_INFO_ACK
     \<and> bit ki WPA_KEY_INFO_MIC \<and> bit ki WPA_KEY_INFO_SECURE \<and> \<not> bit ki WPA_KEY_INFO_ERROR
     \<and> \<not> bit ki WPA_KEY_INFO_REQUEST \<and> bit ki WPA_KEY_INFO_ENCR_KEY_DATA \<and> \<not> bit ki WPA_KEY_INFO_SMK_MESSAGE"

definition info_group_hs_msg_1 :: "16 word \<Rightarrow> bool" where
  "info_group_hs_msg_1 ki \<longleftrightarrow> key_type_ok ki \<and> \<not> bit ki WPA_KEY_INFO_KEY_TYPE \<and> \<not> bit ki WPA_KEY_INFO_SMK_MESSAGE
     \<and> \<not> bit ki WPA_KEY_INFO_INSTALL \<and> bit ki WPA_KEY_INFO_ACK \<and> bit ki WPA_KEY_INFO_MIC
     \<and> bit ki WPA_KEY_INFO_SECURE \<and> \<not> bit ki WPA_KEY_INFO_ERROR \<and> \<not> bit ki WPA_KEY_INFO_REQUEST
     \<and> bit ki WPA_KEY_INFO_ENCR_KEY_DATA"

section \<open>Integrity code and key data\<close>

text \<open>
  The integrity code is computed over the frame with zeros in its place, and what was computed is left in
  the frame. The first result tells whether it was the one received.
\<close>

definition eapol_key_frame_mic_ok :: "byte list \<Rightarrow> byte list \<Rightarrow> nat \<Rightarrow> (bool \<times> byte list) res" where
  "eapol_key_frame_mic_ok ptk f frame_len =
    (let frame_mic = key_mic f
     in rbind (write_bytes f 81 (replicate 16 0)) (\<lambda>f.
        rbind (read_bytes f 0 frame_len) (\<lambda>covered.
        rbind (wpa_eapol_key_mic ptk WPA_KEY_INFO_TYPE_HMAC_SHA1_AES covered) (\<lambda>r. case r of
          None \<Rightarrow> Inr (False, f)
        | Some mic \<Rightarrow> rbind (write_bytes f 81 mic) (\<lambda>f. Inr (frame_mic = mic, f))))))"

text \<open>
  \<^verbatim>\<open>wpa_decrypt_eapol_key_data\<close> on the frame; the length has 16 bits, and 8 is taken from it before it
  is compared with anything.
\<close>

definition wpa_decrypt_eapol_key_data :: "byte list \<Rightarrow> byte list \<Rightarrow> nat \<Rightarrow> (int \<times> byte list) res" where
  "wpa_decrypt_eapol_key_data ptk f version =
    (if version \<noteq> WPA_KEY_INFO_TYPE_HMAC_SHA1_AES then Inr (-1, f)
     else if key_data_len f mod 8 \<noteq> 0 then Inr (-1, f)
     else let keydatalen = unat (word_of_nat (key_data_len f) - 8 :: 16 word)
       in rbind (aes_unwrap (drop 16 ptk) (keydatalen div 8) (drop KEY_FRAME_LEN f)) (\<lambda>(ret, buf).
          if ret \<noteq> 0 then Inr (-1, f)
          else rbind (write_bytes f KEY_FRAME_LEN buf) (\<lambda>f.
               rbind (write_bytes f 97 (be16 keydatalen)) (\<lambda>f. Inr (0, f)))))"

end
