(* ===== verification/Eapol_Ies.thy ===== *)
theory Eapol_Ies
  imports Eapol_Frames
begin

text \<open>
  The information elements in the key data of an EAPOL-Key frame: the parser \<^verbatim>\<open>wpa_supplicant_parse_ies\<close>
  with its vendor elements, and the element the station sends about itself (\<^verbatim>\<open>wpa_gen_wpa_ie_rsn\<close>). A
  pointer into the key data with its length is the slice it denotes.
\<close>

unbundle bit_operations_syntax

section \<open>The parser\<close>

record eapol_ies =
  ie_wpa :: "byte list option"
  ie_rsn :: "byte list option"
  ie_pmkid :: "byte list option"
  ie_gtk :: "byte list option"
  ie_mac_addr :: "byte list option"
  ie_smk :: "byte list option"
  ie_nonce :: "byte list option"
  ie_lifetime :: "byte list option"
  ie_error :: "byte list option"
  ie_igtk :: "byte list option"
  ie_mdie :: "byte list option"
  ie_ftie :: "byte list option"
  ie_reassoc_deadline :: "byte list option"
  ie_key_lifetime :: "byte list option"

definition no_ies :: eapol_ies where
  "no_ies = \<lparr>ie_wpa = None, ie_rsn = None, ie_pmkid = None, ie_gtk = None, ie_mac_addr = None, ie_smk = None,
     ie_nonce = None, ie_lifetime = None, ie_error = None, ie_igtk = None, ie_mdie = None, ie_ftie = None,
     ie_reassoc_deadline = None, ie_key_lifetime = None\<rparr>"

definition rsn_selector :: "byte \<Rightarrow> byte list" where
  "rsn_selector d = [0x00, 0x0f, 0xac, d]"

definition WPA_OUI_TYPE :: "byte list" where
  "WPA_OUI_TYPE = [0x00, 0x50, 0xf2, 1]"

text \<open>
  \<^verbatim>\<open>wpa_parse_generic\<close> at the start of \<open>buf\<close>, which reaches to the end of the key data: the result 1 is the
  end mark. The slices stop at the end of the element.
\<close>

definition wpa_parse_generic :: "byte list \<Rightarrow> eapol_ies \<Rightarrow> int \<times> eapol_ies" where
  "wpa_parse_generic buf ie =
    (let n = unat (buf ! 1); sel = slice 2 4 buf; kde = slice 6 (n - 4) buf
     in if n = 0 then (1, ie)
     else if n \<ge> 6 \<and> sel = WPA_OUI_TYPE \<and> buf ! 6 = 1 \<and> buf ! 7 = 0
       then (0, ie\<lparr>ie_wpa := Some (slice 0 (n + 2) buf)\<rparr>)
     else if 5 < length buf \<and> n \<ge> 20 \<and> sel = rsn_selector 4 then (0, ie\<lparr>ie_pmkid := Some (slice 6 16 buf)\<rparr>)
     else if n > 6 \<and> sel = rsn_selector 1 then (0, ie\<lparr>ie_gtk := Some kde\<rparr>)
     else if n > 6 \<and> sel = rsn_selector 3 then (0, ie\<lparr>ie_mac_addr := Some kde\<rparr>)
     else if n > 6 \<and> sel = rsn_selector 5 then (0, ie\<lparr>ie_smk := Some kde\<rparr>)
     else if n > 6 \<and> sel = rsn_selector 6 then (0, ie\<lparr>ie_nonce := Some kde\<rparr>)
     else if n > 6 \<and> sel = rsn_selector 7 then (0, ie\<lparr>ie_lifetime := Some kde\<rparr>)
     else if n > 6 \<and> sel = rsn_selector 8 then (0, ie\<lparr>ie_error := Some kde\<rparr>)
     else if n > 6 \<and> sel = rsn_selector 9 then (0, ie\<lparr>ie_igtk := Some kde\<rparr>)
     else (0, ie))"

function parse_ies_from :: "byte list \<Rightarrow> eapol_ies \<Rightarrow> int \<times> eapol_ies" where
  "parse_ies_from buf ie =
    (if length buf < 2 then (0, ie)
     else let tag = buf ! 0; n = unat (buf ! 1); rest = drop (2 + n) buf; elem = slice 0 (n + 2) buf
       in if tag = 0xdd \<and> (length buf = 1 \<or> n = 0) then (0, ie)
       else if 2 + n > length buf then (-1, ie)
       else if tag = 48 then parse_ies_from rest (ie\<lparr>ie_rsn := Some elem\<rparr>)
       else if tag = 54 then parse_ies_from rest (ie\<lparr>ie_mdie := Some elem\<rparr>)
       else if tag = 55 then parse_ies_from rest (ie\<lparr>ie_ftie := Some elem\<rparr>)
       else if tag = 56 \<and> n \<ge> 5 then parse_ies_from rest
         (if buf ! 2 = 1 then ie\<lparr>ie_reassoc_deadline := Some elem\<rparr>
          else if buf ! 2 = 2 then ie\<lparr>ie_key_lifetime := Some elem\<rparr> else ie)
       else if tag = 221 then
         (case wpa_parse_generic buf ie of (ret, ie) \<Rightarrow>
            if ret < 0 then (ret, ie) else if ret > 0 then (0, ie) else parse_ies_from rest ie)
       else parse_ies_from rest ie)"
  by auto
termination
  by (relation "measure (length \<circ> fst)") auto

declare parse_ies_from.simps [simp del]

definition wpa_supplicant_parse_ies :: "byte list \<Rightarrow> int \<times> eapol_ies" where
  "wpa_supplicant_parse_ies buf = parse_ies_from buf no_ies"

definition ie_len :: "byte list option \<Rightarrow> nat" where
  "ie_len p = (case p of None \<Rightarrow> 0 | Some bs \<Rightarrow> length bs)"

section \<open>What the station says about itself\<close>

definition WPA_CIPHER_NONE :: nat where "WPA_CIPHER_NONE = 1"
definition WPA_CIPHER_WEP40 :: nat where "WPA_CIPHER_WEP40 = 2"
definition WPA_CIPHER_WEP104 :: nat where "WPA_CIPHER_WEP104 = 4"
definition WPA_CIPHER_TKIP :: nat where "WPA_CIPHER_TKIP = 8"
definition WPA_CIPHER_CCMP :: nat where "WPA_CIPHER_CCMP = 16"
definition WPA_KEY_MGMT_IEEE8021X :: nat where "WPA_KEY_MGMT_IEEE8021X = 1"
definition WPA_KEY_MGMT_PSK :: nat where "WPA_KEY_MGMT_PSK = 2"

lemmas suite_defs = WPA_CIPHER_NONE_def WPA_CIPHER_WEP40_def WPA_CIPHER_WEP104_def WPA_CIPHER_TKIP_def
  WPA_CIPHER_CCMP_def WPA_KEY_MGMT_IEEE8021X_def WPA_KEY_MGMT_PSK_def

definition group_suite :: "nat \<Rightarrow> byte list option" where
  "group_suite c = (if c = WPA_CIPHER_CCMP then Some (rsn_selector 4)
     else if c = WPA_CIPHER_TKIP then Some (rsn_selector 2)
     else if c = WPA_CIPHER_WEP104 then Some (rsn_selector 5)
     else if c = WPA_CIPHER_WEP40 then Some (rsn_selector 1) else None)"

definition pairwise_suite :: "nat \<Rightarrow> byte list option" where
  "pairwise_suite c = (if c = WPA_CIPHER_CCMP then Some (rsn_selector 4)
     else if c = WPA_CIPHER_TKIP then Some (rsn_selector 2)
     else if c = WPA_CIPHER_NONE then Some (rsn_selector 0) else None)"

definition key_mgmt_suite :: "nat \<Rightarrow> byte list option" where
  "key_mgmt_suite k = (if k = WPA_KEY_MGMT_IEEE8021X then Some (rsn_selector 1)
     else if k = WPA_KEY_MGMT_PSK then Some (rsn_selector 2) else None)"

text \<open>The length returned, or \<^verbatim>\<open>-1\<close>, and the bytes written to a buffer that is long enough.\<close>

definition wpa_gen_wpa_ie_rsn :: "nat \<Rightarrow> nat \<Rightarrow> nat \<Rightarrow> nat \<Rightarrow> int \<times> byte list" where
  "wpa_gen_wpa_ie_rsn rsn_ie_len pairwise_cipher group_cipher key_mgmt =
    (if rsn_ie_len < 22 then (-1, [])
     else case group_suite group_cipher of None \<Rightarrow> (-1, [])
     | Some g \<Rightarrow> (case pairwise_suite pairwise_cipher of None \<Rightarrow> (-1, [])
     | Some p \<Rightarrow> (case key_mgmt_suite key_mgmt of None \<Rightarrow> (-1, [])
     | Some k \<Rightarrow> (let body = [1, 0] @ g @ [1, 0] @ p @ [1, 0] @ k @ [0, 0]
         in (int (length body + 2), [48, word_of_nat (length body)] @ body)))))"

section \<open>Parsing in steps\<close>

lemma parse_rsn:
  assumes "elem = 48 # word_of_nat (length body) # body" and "length body < 256"
  shows "parse_ies_from (elem @ rest) ie = parse_ies_from rest (ie\<lparr>ie_rsn := Some elem\<rparr>)"
proof -
  have "unat (word_of_nat (length body) :: byte) = length body" using assms(2) by (simp add: unat_of_nat)
  then show ?thesis by (subst parse_ies_from.simps) (simp add: assms(1) Let_def slice_def)
qed

text \<open>The element with the group key: two bytes of flags and the key.\<close>

definition gtk_element :: "byte \<Rightarrow> byte list \<Rightarrow> byte list" where
  "gtk_element flags key = [0xdd, word_of_nat (length key + 6)] @ rsn_selector 1 @ [flags, 0] @ key"

lemma parse_gtk:
  assumes "0 < length key" and "length key < 250"
  shows "parse_ies_from (gtk_element flags key @ rest) ie
     = parse_ies_from rest (ie\<lparr>ie_gtk := Some ([flags, 0] @ key)\<rparr>)"
proof -
  have n: "unat (word_of_nat (length key + 6) :: byte) = length key + 6"
    using assms by (simp add: unat_of_nat del: of_nat_add)
  have ne: "(0xdd :: byte) \<noteq> 48" "(0xdd :: byte) \<noteq> 54" "(0xdd :: byte) \<noteq> 55" "(0xdd :: byte) \<noteq> 56"
    by simp_all
  have generic: "wpa_parse_generic (gtk_element flags key @ rest) ie = (0, ie\<lparr>ie_gtk := Some ([flags, 0] @ key)\<rparr>)"
    using assms n by (simp add: wpa_parse_generic_def gtk_element_def slice_def rsn_selector_def WPA_OUI_TYPE_def Let_def del: of_nat_add)
  have lg: "length (gtk_element flags key) = length key + 8"
    by (simp add: gtk_element_def rsn_selector_def)
  define buf where "buf = gtk_element flags key @ rest"
  have "buf ! 0 = 0xdd" "unat (buf ! Suc 0) = length key + 6" "length buf = length key + 8 + length rest"
    using n lg by (simp_all add: buf_def gtk_element_def rsn_selector_def del: of_nat_add)
  moreover have "drop (Suc (Suc (length key + 6))) buf = rest"
    using lg by (simp add: buf_def)
  ultimately show ?thesis
    unfolding buf_def [symmetric] using generic [folded buf_def]
    by (subst parse_ies_from.simps) (simp add: ne Let_def)
qed

text \<open>Padding: a \<^verbatim>\<open>dd\<close> and zeros.\<close>

definition key_data_pad :: "nat \<Rightarrow> byte list" where
  "key_data_pad k = (if k = 0 then [] else 0xdd # replicate (k - 1) 0)"

lemma parse_pad: "parse_ies_from (key_data_pad k) ie = (0, ie)"
proof -
  consider "k = 0" | "k = 1" | m where "k = Suc (Suc m)" by (cases k) (auto simp: gr0_conv_Suc elim: nat.exhaust)
  then show ?thesis
    by cases (simp_all add: parse_ies_from.simps key_data_pad_def Let_def)
qed

end
