(* ===== verification/Eapol.thy ===== *)
theory Eapol
  imports Eapol_Ies
begin

text \<open>
  The station's side of the key exchange in \<^verbatim>\<open>wlan-core-eapol.c\<close>: recognising the frames of the 4-way
  handshake and of the group key handshake, answering them, and installing the keys. What the code calls
  outside itself is an argument (\<open>eapol_env\<close>) and is recorded in order in \<open>sent_events\<close>; messages to the log
  are left out.
\<close>

unbundle bit_operations_syntax

section \<open>State\<close>

definition AUTH_STATE_PREAUTH :: nat where "AUTH_STATE_PREAUTH = 0"
definition AUTH_STATE_4WAY_1_RCVD :: nat where "AUTH_STATE_4WAY_1_RCVD = 1"
definition AUTH_STATE_4WAY_2_SENT :: nat where "AUTH_STATE_4WAY_2_SENT = 2"
definition AUTH_STATE_4WAY_3_RCVD :: nat where "AUTH_STATE_4WAY_3_RCVD = 3"
definition AUTH_STATE_4WAY_COMPLETE :: nat where "AUTH_STATE_4WAY_COMPLETE = 4"
definition AUTH_STATE_GROUP_HS_READY :: nat where "AUTH_STATE_GROUP_HS_READY = 5"
definition AUTH_STATE_GROUP_HS_1_RCVD :: nat where "AUTH_STATE_GROUP_HS_1_RCVD = 6"

lemmas auth_state_defs = AUTH_STATE_PREAUTH_def AUTH_STATE_4WAY_1_RCVD_def AUTH_STATE_4WAY_2_SENT_def
  AUTH_STATE_4WAY_3_RCVD_def AUTH_STATE_4WAY_COMPLETE_def AUTH_STATE_GROUP_HS_READY_def
  AUTH_STATE_GROUP_HS_1_RCVD_def

record supplicant_sm =
  sm_Counter :: "64 word"
  sm_SNonce :: "byte list"
  sm_ANonce :: "byte list"
  sm_PTK :: "byte list"
  sm_ptk_len :: nat
  sm_GTK :: "byte list list"
  sm_gtk_present :: "32 word"
  sm_PortEnabled :: bool
  sm_PortValid :: bool

text \<open>What the code reads of \<^verbatim>\<open>wlan_core_data\<close> and its command.\<close>

record wlan_ctx =
  our_addr :: "byte list"
  their_addr :: "byte list"
  associated :: bool
  rsn_ie :: "byte list option"
  last_ap_rsn_ie :: "byte list option"
  wpa_pmk :: "byte list"

datatype eapol_event =
    State_Changed nat
  | Frame_Sent "byte list"
  | Key_Set "byte list" nat bool "byte list" "byte list"
  | Port_Set bool

record eapol_state =
  auth_state :: nat
  sm :: supplicant_sm
  ctx :: "wlan_ctx option"
  has_callback :: bool
  sent_events :: "eapol_event list"

text \<open>
  The results of the registered callback, of sending a frame, of setting a key and of opening the port,
  and what the nonce generator finds.
\<close>

record eapol_env =
  on_change_cb :: "nat \<Rightarrow> int"
  send_frame :: "byte list \<Rightarrow> int"
  set_key_ccmp :: "byte list \<Rightarrow> nat \<Rightarrow> bool \<Rightarrow> byte list \<Rightarrow> byte list \<Rightarrow> int"
  set_supp_port :: "bool \<Rightarrow> int"
  now_sec :: "64 word"
  now_usec :: "64 word"
  urandom :: "byte list option"

type_synonym eapol_result = "(int \<times> eapol_state) res"

definition emit :: "eapol_event \<Rightarrow> eapol_state \<Rightarrow> eapol_state" where
  "emit e w = w\<lparr>sent_events := sent_events w @ [e]\<rparr>"

definition the_ctx :: "eapol_state \<Rightarrow> wlan_ctx res" where
  "the_ctx w = deref (ctx w)"

section \<open>Calls to the outside\<close>

definition eapol_auth_state_change :: "eapol_env \<Rightarrow> nat \<Rightarrow> eapol_state \<Rightarrow> int \<times> eapol_state" where
  "eapol_auth_state_change env newstate w =
    (let w = w\<lparr>auth_state := newstate\<rparr>
     in if has_callback w then (on_change_cb env newstate, emit (State_Changed newstate) w) else (0, w))"

definition eapol_send_key_frame :: "eapol_env \<Rightarrow> byte list \<Rightarrow> eapol_state \<Rightarrow> int \<times> eapol_state" where
  "eapol_send_key_frame env frame w = (send_frame env frame, emit (Frame_Sent frame) w)"

definition set_key :: "eapol_env \<Rightarrow> byte list \<Rightarrow> nat \<Rightarrow> bool \<Rightarrow> byte list \<Rightarrow> byte list \<Rightarrow> eapol_state \<Rightarrow> int \<times> eapol_state" where
  "set_key env addr idx tx rsc key w = (set_key_ccmp env addr idx tx rsc key, emit (Key_Set addr idx tx rsc key) w)"

definition eapol_install_ptk :: "eapol_env \<Rightarrow> eapol_state \<Rightarrow> eapol_result" where
  "eapol_install_ptk env w = rbind (the_ctx w) (\<lambda>c.
     rbind (read_bytes (sm_PTK (sm w)) 32 16) (\<lambda>tk.
     Inr (set_key env (their_addr c) 0 True (replicate 6 0) tk w)))"

record gtk_data =
  gd_tx :: bool
  gd_keyidx :: nat
  gd_gtk :: "byte list"

definition eapol_install_gtk :: "eapol_env \<Rightarrow> byte list \<Rightarrow> gtk_data \<Rightarrow> eapol_state \<Rightarrow> int \<times> eapol_state" where
  "eapol_install_gtk env frame gd w =
     set_key env (replicate 6 0xff) (gd_keyidx gd) (gd_tx gd) (slice 65 6 frame) (gd_gtk gd) w"

text \<open>\<^verbatim>\<open>gtk\<close> with its length; a null pointer comes with the length 0.\<close>

definition eapol_set_pairwise_gtk :: "eapol_env \<Rightarrow> byte list \<Rightarrow> byte list option \<Rightarrow> eapol_state \<Rightarrow> eapol_result" where
  "eapol_set_pairwise_gtk env frame gtk w =
    (if ie_len gtk < 2 \<or> ie_len gtk - 2 > 32 then Inr (-22, w)
     else rbind (deref gtk) (\<lambda>gtk.
       Inr (eapol_install_gtk env frame \<lparr>gd_tx = bit (gtk ! 0) 2, gd_keyidx = unat (gtk ! 0 AND 3), gd_gtk = drop 2 gtk\<rparr> w)))"

definition eapol_set_port_auth :: "eapol_env \<Rightarrow> bool \<Rightarrow> eapol_state \<Rightarrow> int \<times> eapol_state" where
  "eapol_set_port_auth env authorized w =
    (let w = emit (Port_Set authorized) w
     in if set_supp_port env authorized \<noteq> 0 then (-1, w)
        else (0, w\<lparr>sm := (sm w)\<lparr>sm_PortEnabled := authorized, sm_PortValid := authorized\<rparr>\<rparr>))"

section \<open>Recognising frames\<close>

definition is_4way_msg_1 :: "byte list \<Rightarrow> bool" where
  "is_4way_msg_1 frame \<longleftrightarrow> desc_type frame = 2 \<and> info_4way_msg_1 (key_info frame)
     \<and> is_bitfield_zero (eapol_key_iv frame) \<and> is_bitfield_zero (key_rsc frame) \<and> is_bitfield_zero (key_mic frame)"

text \<open>Keeping a group key: 18 bytes, the first of which has the number of the key.\<close>

definition store_gtk :: "byte list \<Rightarrow> supplicant_sm \<Rightarrow> supplicant_sm res" where
  "store_gtk gtk s =
    (let keyid = unat (gtk ! 0 AND 3)
     in rbind (nth_res (sm_GTK s) keyid) (\<lambda>old.
        rbind (write_bytes old 0 gtk) (\<lambda>new.
        Inr (s\<lparr>sm_GTK := (sm_GTK s)[keyid := new], sm_gtk_present := sm_gtk_present s OR push_bit keyid 1\<rparr>))))"

text \<open>\<^verbatim>\<open>memcmp\<close> of \<open>n\<close> bytes of two objects, equal or not; a null pointer with length 0 is not read.\<close>

definition same_bytes :: "byte list \<Rightarrow> byte list \<Rightarrow> nat \<Rightarrow> bool res" where
  "same_bytes a b n = rbind (read_bytes a 0 n) (\<lambda>x. rbind (read_bytes b 0 n) (\<lambda>y. Inr (x = y)))"

definition eapol_3_of_4_security_ok :: "byte list \<Rightarrow> eapol_state \<Rightarrow> ((bool \<times> eapol_ies) \<times> eapol_state) res" where
  "eapol_3_of_4_security_ok frame w =
    (if key_replay_counter frame \<le> sm_Counter (sm w) then Inr ((False, no_ies), w)
     else if key_nonce frame \<noteq> sm_ANonce (sm w) then Inr ((False, no_ies), w)
     else rbind (the_ctx w) (\<lambda>c.
       rbind (deref (last_ap_rsn_ie c)) (\<lambda>ap_ie.
       rbind (nth_res ap_ie 1) (\<lambda>n.
       rbind (read_bytes frame KEY_FRAME_LEN (key_data_len frame)) (\<lambda>key_data.
       let ap_rsn_ie_len = unat n + 2; ie = snd (wpa_supplicant_parse_ies key_data)
       in if ap_rsn_ie_len \<noteq> ie_len (ie_rsn ie) then Inr ((False, no_ies), w)
          else rbind (deref (ie_rsn ie)) (\<lambda>rsn.
               rbind (same_bytes ap_ie rsn ap_rsn_ie_len) (\<lambda>same.
               if \<not> same then Inr ((False, no_ies), w)
               else (case ie_gtk ie of
                   None \<Rightarrow> Inr ((False, no_ies), w)
                 | Some gtk \<Rightarrow> if length gtk \<noteq> 18 then Inr ((False, no_ies), w)
                     else rbind (store_gtk gtk (sm w)) (\<lambda>s. Inr ((True, ie), w\<lparr>sm := s\<rparr>))))))))))"

text \<open>
  1: it is message 3, 0: it is not, -1: it is a message 3 that must end the connection. The frame comes
  back as it is after the checks.
\<close>

definition is_4way_msg_3 :: "byte list \<Rightarrow> nat \<Rightarrow> eapol_state \<Rightarrow> (int \<times> byte list \<times> eapol_ies \<times> eapol_state) res" where
  "is_4way_msg_3 frame frame_len w =
    (if desc_type frame \<noteq> 2 then Inr (0, frame, no_ies, w)
     else if \<not> info_4way_msg_3 (key_info frame) then Inr (0, frame, no_ies, w)
     else if frame_len < KEY_FRAME_LEN + key_data_len frame then Inr (0, frame, no_ies, w)
     else if key_data_len frame < 4 then Inr (0, frame, no_ies, w)
     else rbind (eapol_key_frame_mic_ok (sm_PTK (sm w)) frame frame_len) (\<lambda>(ok, frame).
       if \<not> ok then Inr (0, frame, no_ies, w)
       else rbind (wpa_decrypt_eapol_key_data (sm_PTK (sm w)) frame WPA_KEY_INFO_TYPE_HMAC_SHA1_AES) (\<lambda>(ret, frame).
         if ret \<noteq> 0 then Inr (0, frame, no_ies, w)
         else rbind (eapol_3_of_4_security_ok frame w) (\<lambda>((ok, ies), w).
           if \<not> ok then Inr (-1, frame, ies, w) else Inr (1, frame, ies, w)))))"

definition eapol_group_hs_security_ok :: "byte list \<Rightarrow> eapol_state \<Rightarrow> ((bool \<times> eapol_ies) \<times> eapol_state) res" where
  "eapol_group_hs_security_ok frame w =
    (if key_replay_counter frame \<le> sm_Counter (sm w) then Inr ((False, no_ies), w)
     else rbind (read_bytes frame KEY_FRAME_LEN (key_data_len frame)) (\<lambda>key_data.
       let ie = snd (wpa_supplicant_parse_ies key_data)
       in case ie_gtk ie of
            None \<Rightarrow> Inr ((False, no_ies), w)
          | Some gtk \<Rightarrow> if length gtk \<noteq> 18 then Inr ((False, no_ies), w)
              else rbind (store_gtk gtk (sm w)) (\<lambda>s.
                   Inr ((True, ie), w\<lparr>sm := s\<lparr>sm_Counter := key_replay_counter frame\<rparr>\<rparr>))))"

definition is_group_hs_msg_1 :: "byte list \<Rightarrow> nat \<Rightarrow> eapol_state \<Rightarrow> (int \<times> byte list \<times> eapol_ies \<times> eapol_state) res" where
  "is_group_hs_msg_1 frame frame_len w =
    (if desc_type frame \<noteq> 2 then Inr (0, frame, no_ies, w)
     else if \<not> info_group_hs_msg_1 (key_info frame) then Inr (0, frame, no_ies, w)
     else if \<not> is_bitfield_zero (key_nonce frame) then Inr (0, frame, no_ies, w)
     else if \<not> is_bitfield_zero (eapol_key_iv frame) then Inr (0, frame, no_ies, w)
     else rbind (eapol_key_frame_mic_ok (sm_PTK (sm w)) frame frame_len) (\<lambda>(ok, frame).
       if \<not> ok then Inr (0, frame, no_ies, w)
       else rbind (wpa_decrypt_eapol_key_data (sm_PTK (sm w)) frame WPA_KEY_INFO_TYPE_HMAC_SHA1_AES) (\<lambda>(ret, frame).
         if ret \<noteq> 0 then Inr (0, frame, no_ies, w)
         else rbind (eapol_group_hs_security_ok frame w) (\<lambda>((ok, ies), w).
           if \<not> ok then Inr (-1, frame, ies, w) else Inr (1, frame, ies, w)))))"

section \<open>Answering frames\<close>

text \<open>The integrity code of a frame that is built with zeros in its place.\<close>

definition sign_frame :: "byte list \<Rightarrow> byte list \<Rightarrow> byte list option res" where
  "sign_frame ptk f = rbind (wpa_eapol_key_mic ptk WPA_KEY_INFO_TYPE_HMAC_SHA1_AES f) (\<lambda>r. case r of
     None \<Rightarrow> Inr None
   | Some mic \<Rightarrow> rbind (write_bytes f 81 mic) (\<lambda>f. Inr (Some f)))"

definition eapol_save_1_of_4_data :: "byte list \<Rightarrow> supplicant_sm \<Rightarrow> supplicant_sm" where
  "eapol_save_1_of_4_data frame s = s\<lparr>sm_Counter := key_replay_counter frame, sm_ANonce := key_nonce frame\<rparr>"

definition pairwise_label :: "byte list" where
  "pairwise_label = map of_char ''Pairwise key expansion''"

text \<open>Message 2 before it is signed: the members that are not set are those of message 1.\<close>

definition msg_2 :: "byte list \<Rightarrow> 64 word \<Rightarrow> byte list \<Rightarrow> byte list \<Rightarrow> byte list" where
  "msg_2 frame counter snonce ie = key_frame 2 (frame ! 1) (be16 (KEY_FRAME_LEN + length ie - 4)) (frame ! 4)
     (be16 0x10A) [0, 0] (be64 counter) snonce (replicate 16 0) (replicate 8 0) (slice 73 8 frame) (replicate 16 0)
     (be16 (length ie)) ie"

definition process_eapol_4way_msg_1 :: "eapol_env \<Rightarrow> byte list \<Rightarrow> eapol_state \<Rightarrow> eapol_result" where
  "process_eapol_4way_msg_1 env frame w = (case ctx w of None \<Rightarrow> Inr (-1, w)
   | Some c \<Rightarrow> (case rsn_ie c of None \<Rightarrow> Inr (-1, w)
   | Some ie \<Rightarrow> if \<not> associated c then Inr (-1, w)
     else let s = eapol_save_1_of_4_data frame (sm w); w = w\<lparr>sm := s\<rparr>
       in rbind (rsna_nonce_generator (our_addr c) (now_sec env) (now_usec env) (urandom env)) (\<lambda>(ret, nonce).
          if ret \<noteq> 0 then Inr (ret, w)
          else let s = s\<lparr>sm_SNonce := nonce, sm_ptk_len := 48\<rparr>
            in rbind (wpa_pmk_to_ptk (wpa_pmk c) pairwise_label (our_addr c) (their_addr c) (sm_ANonce s) nonce 48) (\<lambda>ptk.
               rbind (write_bytes (sm_PTK s) 0 ptk) (\<lambda>ptk.
               let w = w\<lparr>sm := s\<lparr>sm_PTK := ptk\<rparr>\<rparr>
               in rbind (sign_frame ptk (msg_2 frame (sm_Counter s) nonce ie)) (\<lambda>r. case r of
                    None \<Rightarrow> Inr (-1, w)
                  | Some f \<Rightarrow> let (ret, w) = eapol_send_key_frame env f w
                      in if ret < 0 then Inr (ret, w)
                         else Inr (eapol_auth_state_change env AUTH_STATE_4WAY_2_SENT w)))))))"

text \<open>The answers without key data: message 4, and message 2 of the group key handshake.\<close>

definition reply_frame :: "nat \<Rightarrow> 64 word \<Rightarrow> byte list" where
  "reply_frame info counter = key_frame 2 3 (be16 (KEY_FRAME_LEN - 4)) 2 (be16 info) [0, 0] (be64 counter)
     (replicate 32 0) (replicate 16 0) (replicate 8 0) (replicate 8 0) (replicate 16 0) [0, 0] []"

text \<open>The part of \<^verbatim>\<open>process_eapol_4way_msg_3\<close> behind message 4: installing the keys and opening the port.\<close>

definition finish_4way :: "eapol_env \<Rightarrow> byte list \<Rightarrow> eapol_ies \<Rightarrow> eapol_state \<Rightarrow> eapol_result" where
  "finish_4way env frame ies w =
    rbind (if bit (key_info frame) WPA_KEY_INFO_INSTALL then eapol_install_ptk env w else Inr (0, w)) (\<lambda>(ret, w).
    if ret \<noteq> 0 then Inr (ret, w)
    else let w = (if bit (key_info frame) WPA_KEY_INFO_SECURE then w\<lparr>sm := (sm w)\<lparr>sm_PortValid := True\<rparr>\<rparr> else w)
      in rbind (eapol_set_pairwise_gtk env frame (ie_gtk ies) w) (\<lambda>(ret, w).
         if ret \<noteq> 0 then Inr (ret, w)
         else let (ret, w) = eapol_set_port_auth env True w
           in if ret \<noteq> 0 then Inr (ret, w)
              else Inr (eapol_auth_state_change env AUTH_STATE_GROUP_HS_READY w)))"

definition process_eapol_4way_msg_3 :: "eapol_env \<Rightarrow> byte list \<Rightarrow> eapol_ies \<Rightarrow> eapol_state \<Rightarrow> eapol_result" where
  "process_eapol_4way_msg_3 env frame ies w = (case ctx w of None \<Rightarrow> Inr (-1, w)
   | Some c \<Rightarrow> if \<not> associated c then Inr (-1, w)
     else let w = w\<lparr>sm := (sm w)\<lparr>sm_Counter := key_replay_counter frame\<rparr>\<rparr>
       in rbind (sign_frame (sm_PTK (sm w)) (reply_frame 0x30A (sm_Counter (sm w)))) (\<lambda>r. case r of
            None \<Rightarrow> Inr (-1, w)
          | Some f \<Rightarrow> let (ret, w) = eapol_send_key_frame env f w
              in if ret < 0 then Inr (ret, w)
                 else let (ret, w) = eapol_auth_state_change env AUTH_STATE_4WAY_COMPLETE w
                   in if ret \<noteq> 0 then Inr (ret, w) else finish_4way env frame ies w))"

definition process_eapol_group_hs_msg1 :: "eapol_env \<Rightarrow> byte list \<Rightarrow> eapol_ies \<Rightarrow> eapol_state \<Rightarrow> eapol_result" where
  "process_eapol_group_hs_msg1 env frame ies w = (case ctx w of None \<Rightarrow> Inr (-1, w)
   | Some c \<Rightarrow>
     rbind (eapol_set_pairwise_gtk env frame (ie_gtk ies) w) (\<lambda>(ret, w).
     if ret \<noteq> 0 then Inr (ret, w)
     else rbind (sign_frame (sm_PTK (sm w)) (reply_frame 0x302 (sm_Counter (sm w)))) (\<lambda>r. case r of
            None \<Rightarrow> Inr (-1, w)
          | Some f \<Rightarrow> let (ret, w) = eapol_send_key_frame env f w
              in if ret < 0 then Inr (ret, w)
                 else let (ret, w) = eapol_set_port_auth env True w
                   in if ret \<noteq> 0 then Inr (ret, w)
                      else let w = w\<lparr>sm := (sm w)\<lparr>sm_Counter := sm_Counter (sm w) + 1\<rparr>\<rparr>
                        in Inr (eapol_auth_state_change env AUTH_STATE_GROUP_HS_READY w))))"

section \<open>Dispatch\<close>

definition start_4way :: "eapol_env \<Rightarrow> byte list \<Rightarrow> eapol_state \<Rightarrow> eapol_result" where
  "start_4way env frame w =
    (let (ret, w) = eapol_auth_state_change env AUTH_STATE_4WAY_1_RCVD w
     in if ret \<noteq> 0 then Inr (ret, w) else process_eapol_4way_msg_1 env frame w)"

definition expect_msg_3 :: "eapol_env \<Rightarrow> byte list \<Rightarrow> nat \<Rightarrow> eapol_state \<Rightarrow> eapol_result" where
  "expect_msg_3 env frame frame_len w =
    rbind (is_4way_msg_3 frame frame_len w) (\<lambda>(ret, frame, ies, w).
    if ret = 0 then Inr (0, w)
    else if ret < 0 then Inr (ret, w)
    else let (ret, w) = eapol_auth_state_change env AUTH_STATE_4WAY_3_RCVD w
      in if ret \<noteq> 0 then Inr (ret, w) else process_eapol_4way_msg_3 env frame ies w)"

definition expect_rekeying :: "eapol_env \<Rightarrow> byte list \<Rightarrow> nat \<Rightarrow> eapol_state \<Rightarrow> eapol_result" where
  "expect_rekeying env frame frame_len w =
    (if is_4way_msg_1 frame then start_4way env frame w
     else rbind (is_group_hs_msg_1 frame frame_len w) (\<lambda>(ret, frame, ies, w).
       if ret = 0 then Inr (0, w)
       else if ret < 0 then Inr (ret, w)
       else let (ret, w) = eapol_auth_state_change env AUTH_STATE_GROUP_HS_1_RCVD w
         in if ret \<noteq> 0 then Inr (ret, w) else process_eapol_group_hs_msg1 env frame ies w))"

definition process_eapol_frame :: "eapol_env \<Rightarrow> byte list \<Rightarrow> nat \<Rightarrow> eapol_state \<Rightarrow> eapol_result" where
  "process_eapol_frame env frame frame_len w =
    (if frame_len < KEY_FRAME_LEN then Inr (-22, w)
     else rbind (the_ctx w) (\<lambda>c.
       if \<not> associated c then Inr (0, w)
       else if auth_state w = AUTH_STATE_PREAUTH then
         (if is_4way_msg_1 frame then start_4way env frame w else Inr (0, w))
       else if auth_state w = AUTH_STATE_4WAY_1_RCVD then Inr (0, w)
       else if auth_state w = AUTH_STATE_4WAY_2_SENT then expect_msg_3 env frame frame_len w
       else if auth_state w = AUTH_STATE_4WAY_3_RCVD then Inr (0, w)
       else if auth_state w = AUTH_STATE_4WAY_COMPLETE then Inr (0, w)
       else if auth_state w = AUTH_STATE_GROUP_HS_READY then expect_rekeying env frame frame_len w
       else Inr (-1, w)))"

text \<open>
  The thread that reads the socket, on the frames that arrive, each with its length: it ends at the first
  negative result. The environment may differ from frame to frame.
\<close>

fun eapol_frames :: "(eapol_env \<times> byte list \<times> nat) list \<Rightarrow> eapol_state \<Rightarrow> eapol_result" where
  "eapol_frames [] w = Inr (0, w)"
| "eapol_frames ((env, frame, n) # fs) w = rbind (process_eapol_frame env frame n w) (\<lambda>(ret, w).
     if ret < 0 then Inr (ret, w) else eapol_frames fs w)"

end
