(* ===== verification/Eapol_Members.thy ===== *)
theory Eapol_Members
  imports Eapol
begin

text \<open>
  Reading and writing the members of a frame that was built from values, and the checks of the station on
  such a frame: what integrity code it accepts and what key data it decrypts.
\<close>

unbundle bit_operations_syntax

section \<open>Members\<close>

record members =
  m_version :: byte
  m_type :: byte
  m_body_len :: "byte list"
  m_desc :: byte
  m_info :: "byte list"
  m_klen :: "byte list"
  m_replay :: "byte list"
  m_nonce :: "byte list"
  m_iv :: "byte list"
  m_rsc :: "byte list"
  m_reserved :: "byte list"
  m_mic :: "byte list"
  m_dlen :: "byte list"
  m_data :: "byte list"

definition frame_of :: "members \<Rightarrow> byte list" where
  "frame_of m = key_frame (m_version m) (m_type m) (m_body_len m) (m_desc m) (m_info m) (m_klen m) (m_replay m)
     (m_nonce m) (m_iv m) (m_rsc m) (m_reserved m) (m_mic m) (m_dlen m) (m_data m)"

definition members_ok :: "members \<Rightarrow> bool" where
  "members_ok m \<longleftrightarrow> length (m_body_len m) = 2 \<and> length (m_info m) = 2 \<and> length (m_klen m) = 2 \<and> length (m_replay m) = 8
     \<and> length (m_nonce m) = 32 \<and> length (m_iv m) = 16 \<and> length (m_rsc m) = 8 \<and> length (m_reserved m) = 8
     \<and> length (m_mic m) = 16 \<and> length (m_dlen m) = 2"

lemma length_frame_of: "members_ok m \<Longrightarrow> length (frame_of m) = 99 + length (m_data m)"
  by (simp add: members_ok_def frame_of_def key_frame_def)

lemma frame_members:
  assumes "members_ok m"
  shows "desc_type (frame_of m @ junk) = m_desc m" "key_info (frame_of m @ junk) = word_of_nat (get_be (m_info m))"
    "key_replay_counter (frame_of m @ junk) = word_of_nat (get_be (m_replay m))"
    "key_nonce (frame_of m @ junk) = m_nonce m" "eapol_key_iv (frame_of m @ junk) = m_iv m"
    "key_rsc (frame_of m @ junk) = m_rsc m" "slice 65 6 (frame_of m @ junk) = take 6 (m_rsc m)"
    "slice 73 8 (frame_of m @ junk) = m_reserved m"
    "key_mic (frame_of m @ junk) = m_mic m" "key_data_len (frame_of m @ junk) = get_be (m_dlen m)"
    "drop KEY_FRAME_LEN (frame_of m @ junk) = m_data m @ junk" "(frame_of m @ junk) ! 1 = m_type m"
    "(frame_of m @ junk) ! 4 = m_desc m"
  using assms
  by (simp_all add: members_ok_def frame_of_def key_frame_def desc_type_def key_info_def key_replay_counter_def
      key_nonce_def eapol_key_iv_def key_rsc_def key_mic_def key_data_len_def slice_def KEY_FRAME_LEN_def nth_append)

lemma write_tail: "length h = k \<Longrightarrow> length bs \<le> length d
    \<Longrightarrow> write_bytes (h @ d @ junk) k bs = Inr (h @ bs @ drop (length bs) d @ junk)"
  by (auto simp: write_bytes_def)

lemma write_members:
  assumes "members_ok m"
  shows "length mic = 16 \<Longrightarrow> write_bytes (frame_of m @ junk) 81 mic = Inr (frame_of (m\<lparr>m_mic := mic\<rparr>) @ junk)"
    "length dlen = 2 \<Longrightarrow> write_bytes (frame_of m @ junk) 97 dlen = Inr (frame_of (m\<lparr>m_dlen := dlen\<rparr>) @ junk)"
  using assms
  by (simp_all add: members_ok_def frame_of_def key_frame_def write_bytes_def)

lemma frame_header: "frame_of (m\<lparr>m_data := d\<rparr>) = frame_of (m\<lparr>m_data := []\<rparr>) @ d"
  by (simp add: frame_of_def key_frame_def)

lemma write_data:
  assumes "members_ok m" and "length bs \<le> length (m_data m)"
  shows "write_bytes (frame_of m @ junk) KEY_FRAME_LEN bs
     = Inr (frame_of (m\<lparr>m_data := bs @ drop (length bs) (m_data m)\<rparr>) @ junk)"
proof -
  define h where "h = frame_of (m\<lparr>m_data := []\<rparr>)"
  have h: "frame_of m = h @ m_data m" "frame_of (m\<lparr>m_data := bs @ drop (length bs) (m_data m)\<rparr>) = h @ bs @ drop (length bs) (m_data m)"
    using frame_header [of "m_data m" m] frame_header [of "bs @ drop (length bs) (m_data m)" m] by (simp_all add: h_def)
  have "length h = KEY_FRAME_LEN"
    using assms(1) length_frame_of [of "m\<lparr>m_data := []\<rparr>"] by (simp add: h_def members_ok_def KEY_FRAME_LEN_def)
  from write_tail [OF this assms(2)] show ?thesis by (simp add: h)
qed

lemma members_ok_updates [simp]:
  "members_ok m \<Longrightarrow> length mic = 16 \<Longrightarrow> members_ok (m\<lparr>m_mic := mic\<rparr>)"
  "members_ok m \<Longrightarrow> length dlen = 2 \<Longrightarrow> members_ok (m\<lparr>m_dlen := dlen\<rparr>)"
  "members_ok m \<Longrightarrow> members_ok (m\<lparr>m_data := bs\<rparr>)"
  by (simp_all add: members_ok_def)

section \<open>Checks\<close>

text \<open>The integrity code a frame should have under a pairwise key.\<close>

definition frame_mic :: "byte list \<Rightarrow> members \<Rightarrow> byte list" where
  "frame_mic ptk m = take 16 (hmac (take 16 ptk) (frame_of (m\<lparr>m_mic := replicate 16 0\<rparr>)))"

lemma length_frame_mic [simp]: "length (frame_mic ptk m) = 16"
  by (simp add: frame_mic_def)

lemma mic_check:
  assumes "members_ok m" and "16 \<le> length ptk" and "length (m_data m) \<le> 900"
  shows "eapol_key_frame_mic_ok ptk (frame_of m @ junk) (length (frame_of m))
     = Inr (m_mic m = frame_mic ptk m, frame_of (m\<lparr>m_mic := frame_mic ptk m\<rparr>) @ junk)"
proof -
  define z where "z = m\<lparr>m_mic := replicate 16 0\<rparr>"
  have z: "members_ok z" "length (frame_of m) = length (frame_of z)"
    using assms(1) by (simp_all add: z_def length_frame_of)
  have small: "hashable (frame_of z)"
    using assms z by (intro hashable_small) (simp add: length_frame_of z_def)
  have covered: "read_bytes (frame_of z @ junk) 0 (length (frame_of m)) = Inr (frame_of z)"
    using z by (simp add: read_bytes_def)
  have w: "write_bytes (frame_of z @ junk) 81 (frame_mic ptk m) = Inr (frame_of (m\<lparr>m_mic := frame_mic ptk m\<rparr>) @ junk)"
    using write_members(1) [OF z(1), of "frame_mic ptk m" junk] by (simp add: z_def)
  show ?thesis
    using write_members(1) [OF assms(1), of "replicate 16 0" junk] key_mic_computes [OF assms(2) small] w covered
    by (simp add: eapol_key_frame_mic_ok_def frame_members [OF assms(1)] z_def [symmetric] frame_mic_def)
qed

lemma sign_computes:
  assumes "members_ok m" and "16 \<le> length ptk" and "length (m_data m) \<le> 900" and "m_mic m = replicate 16 0"
  shows "sign_frame ptk (frame_of m) = Inr (Some (frame_of (m\<lparr>m_mic := frame_mic ptk m\<rparr>)))"
proof -
  have "hashable (frame_of m)" using assms by (intro hashable_small) (simp add: length_frame_of)
  moreover have "frame_mic ptk m = take 16 (hmac (take 16 ptk) (frame_of m))"
    using assms(4) by (cases m) (simp add: frame_mic_def)
  moreover have "write_bytes (frame_of m) 81 (frame_mic ptk m) = Inr (frame_of (m\<lparr>m_mic := frame_mic ptk m\<rparr>))"
    using write_members(1) [OF assms(1), of "frame_mic ptk m" "[]"] by simp
  ultimately show ?thesis
    using key_mic_computes [OF assms(2)] by (simp add: sign_frame_def)
qed

text \<open>Key data wrapped under the second half of the pairwise key is what the station decrypts.\<close>

lemma unwrap_wrapped:
  assumes "16 \<le> length kek" and "length data = 8 * n" and "n \<le> 42"
  shows "aes_unwrap kek n (key_wrap (aes_encrypt (take 16 kek)) data @ junk) = Inr (0, data)"
proof -
  define c where "c = key_wrap (aes_encrypt (take 16 kek)) data"
  have lc: "length c = 8 * n + 8"
    using aes.unwrap_key_wrap [OF assms(2,3), of "take 16 kek"] by (simp add: c_def)
  have "aes_unwrap kek n (c @ junk) = aes_unwrap kek n c"
    using lc by (simp only: aes_unwrap_def) (simp add: read_bytes_in)
  then show ?thesis
    using aes_unwrap_accepts [OF assms(1) lc assms(3), of data] assms(2) by (simp add: c_def)
qed

lemma length_wrapped: "length data = 8 * n \<Longrightarrow> n \<le> 42 \<Longrightarrow> length (key_wrap (aes_encrypt kek) data) = 8 * n + 8"
  using aes.unwrap_key_wrap by blast

lemma data_length_16:
  assumes "n \<le> 42"
  shows "unat (word_of_nat (8 * n + 8) - 8 :: 16 word) = 8 * n"
proof -
  have "word_of_nat (8 * n + 8) - 8 = (word_of_nat (8 * n) :: 16 word)" by simp
  then show ?thesis using assms by (simp add: unat_of_nat del: of_nat_mult)
qed

lemma decrypt_wrapped:
  assumes "members_ok m" and "32 \<le> length ptk" and "length data = 8 * n" and "n \<le> 42"
    and "m_data m = key_wrap (aes_encrypt (slice 16 16 ptk)) data" and "m_dlen m = be16 (8 * n + 8)"
  shows "wpa_decrypt_eapol_key_data ptk (frame_of m @ junk) WPA_KEY_INFO_TYPE_HMAC_SHA1_AES
     = Inr (0, frame_of (m\<lparr>m_data := data @ drop (8 * n) (m_data m), m_dlen := be16 (8 * n)\<rparr>) @ junk)"
proof -
  have kdl: "key_data_len (frame_of m @ junk) = 8 * n + 8"
    using assms(4,6) by (simp add: frame_members [OF assms(1)] get_be16)
  have keydatalen: "unat (word_of_nat (8 * n + 8) - 8 :: 16 word) = 8 * n" using assms(4) by (rule data_length_16)
  have "aes_unwrap (drop 16 ptk) n (drop KEY_FRAME_LEN (frame_of m @ junk)) = Inr (0, data)"
    using unwrap_wrapped [of "drop 16 ptk" data n junk] assms(2-5)
    by (simp add: frame_members(11) [OF assms(1)] slice_def del: drop_append)
  moreover have "write_bytes (frame_of m @ junk) KEY_FRAME_LEN data
      = Inr (frame_of (m\<lparr>m_data := data @ drop (8 * n) (m_data m)\<rparr>) @ junk)"
    using write_data [OF assms(1), of data junk] length_wrapped [OF assms(3,4)] assms(3,5) by simp
  moreover have "write_bytes (frame_of (m\<lparr>m_data := data @ drop (8 * n) (m_data m)\<rparr>) @ junk) 97 (be16 (8 * n))
      = Inr (frame_of (m\<lparr>m_data := data @ drop (8 * n) (m_data m), m_dlen := be16 (8 * n)\<rparr>) @ junk)"
    using write_members(2) [of "m\<lparr>m_data := data @ drop (8 * n) (m_data m)\<rparr>" "be16 (8 * n)" junk] assms(1) by simp
  ultimately show ?thesis
    by (simp add: wpa_decrypt_eapol_key_data_def kdl keydatalen Let_def del: of_nat_add of_nat_mult drop_append)
qed

end
