(* ===== verification/Eapol_Handshake.thy ===== *)
theory Eapol_Handshake
  imports Eapol_Members
begin

text \<open>
  The key exchange seen from outside. The access point is a specification: the messages of IEEE 802.11i it
  sends, built with the keys of the standard. With such an access point the station completes the
  handshake and both ends have the same keys; whatever frame arrives, keys are set only if it passes the
  checks.
\<close>

unbundle bit_operations_syntax

section \<open>The access point\<close>

definition ap_msg_1 :: "64 word \<Rightarrow> byte list \<Rightarrow> members" where
  "ap_msg_1 counter anonce = \<lparr>m_version = 2, m_type = 3, m_body_len = be16 95, m_desc = 2, m_info = be16 0x8A,
     m_klen = be16 16, m_replay = be64 counter, m_nonce = anonce, m_iv = replicate 16 0, m_rsc = replicate 8 0,
     m_reserved = replicate 8 0, m_mic = replicate 16 0, m_dlen = be16 0, m_data = []\<rparr>"

text \<open>The pairwise key, computed with the address and nonce of the access point first.\<close>

definition ap_ptk :: "byte list \<Rightarrow> byte list \<Rightarrow> byte list \<Rightarrow> byte list \<Rightarrow> byte list \<Rightarrow> byte list" where
  "ap_ptk pmk aa spa anonce snonce = wpa_prf pmk pairwise_label (pairwise_data aa spa anonce snonce) 48"

definition ap_key_data :: "byte list \<Rightarrow> byte \<Rightarrow> byte list \<Rightarrow> byte list" where
  "ap_key_data ie flags gtk = (let d = ie @ gtk_element flags gtk
     in d @ key_data_pad ((8 - length d mod 8) mod 8))"

text \<open>Members with their integrity code.\<close>

definition signed_members :: "byte list \<Rightarrow> members \<Rightarrow> members" where
  "signed_members ptk m = m\<lparr>m_mic := frame_mic ptk m\<rparr>"

definition ap_encrypted :: "nat \<Rightarrow> 64 word \<Rightarrow> byte list \<Rightarrow> byte list \<Rightarrow> byte list \<Rightarrow> byte list \<Rightarrow> members" where
  "ap_encrypted info counter nonce rsc ptk data = (let c = key_wrap (aes_encrypt (slice 16 16 ptk)) data
     in signed_members ptk \<lparr>m_version = 2, m_type = 3, m_body_len = be16 (95 + length c), m_desc = 2, m_info = be16 info,
       m_klen = be16 16, m_replay = be64 counter, m_nonce = nonce, m_iv = replicate 16 0, m_rsc = rsc,
       m_reserved = replicate 8 0, m_mic = replicate 16 0, m_dlen = be16 (length c), m_data = c\<rparr>)"

definition ap_msg_3 :: "64 word \<Rightarrow> byte list \<Rightarrow> byte list \<Rightarrow> byte list \<Rightarrow> byte list \<Rightarrow> members" where
  "ap_msg_3 counter anonce rsc ptk data = ap_encrypted 0x13CA counter anonce rsc ptk data"

definition ap_group_msg_1 :: "64 word \<Rightarrow> byte list \<Rightarrow> byte list \<Rightarrow> byte list \<Rightarrow> members" where
  "ap_group_msg_1 counter rsc ptk data = ap_encrypted 0x1382 counter (replicate 32 0) rsc ptk data"

text \<open>What the access point requires of an answer with an integrity code.\<close>

definition ap_accepts :: "byte list \<Rightarrow> members \<Rightarrow> bool" where
  "ap_accepts ptk m \<longleftrightarrow> members_ok m \<and> m_mic m = frame_mic ptk m"

text \<open>An RSN element as it stands in a beacon.\<close>

definition is_rsn_ie :: "byte list \<Rightarrow> bool" where
  "is_rsn_ie ie \<longleftrightarrow> (\<exists>body. ie = 48 # word_of_nat (length body) # body \<and> length body < 256)"

section \<open>Key data\<close>

lemma length_gtk_element [simp]: "length (gtk_element flags key) = length key + 8"
  by (simp add: gtk_element_def rsn_selector_def)

lemma length_pad [simp]: "length (key_data_pad k) = k"
  by (simp add: key_data_pad_def)

lemma padded: "(n :: nat) + (8 - n mod 8) mod 8 = 8 * ((n + 7) div 8)"
proof (cases "n mod 8 = 0")
  case True
  then obtain q where "n = 8 * q" by (metis mod_0_imp_dvd dvdE)
  then show ?thesis by simp
next
  case False
  define q r where "q = n div 8" and "r = n mod 8"
  have n: "n = 8 * q + r" "0 < r" "r < 8" using False by (simp_all add: q_def r_def)
  have m: "(8 - n mod 8) mod 8 = 8 - r" using n by (simp add: r_def)
  have "(n + 7) div 8 = q + 1" using n by simp
  then show ?thesis unfolding m using n by simp
qed

lemma length_key_data: "length (ap_key_data ie flags gtk) = 8 * ((length ie + length gtk + 15) div 8)"
  using padded [of "length ie + (length gtk + 8)"] by (simp add: ap_key_data_def Let_def add.assoc)

lemma key_data_parsed:
  assumes "is_rsn_ie ie" and "0 < length gtk" "length gtk < 250"
  shows "wpa_supplicant_parse_ies (ap_key_data ie flags gtk)
     = (0, no_ies\<lparr>ie_rsn := Some ie, ie_gtk := Some ([flags, 0] @ gtk)\<rparr>)"
proof -
  obtain body where ie: "ie = 48 # word_of_nat (length body) # body" "length body < 256"
    using assms(1) by (auto simp: is_rsn_ie_def)
  show ?thesis
    by (simp add: wpa_supplicant_parse_ies_def ap_key_data_def Let_def parse_rsn [OF ie] parse_gtk [OF assms(2,3)]
        parse_pad del: append_Cons)
qed

lemma group_data_parsed:
  assumes "0 < length gtk" "length gtk < 250"
  shows "wpa_supplicant_parse_ies (ap_key_data [] flags gtk) = (0, no_ies\<lparr>ie_gtk := Some ([flags, 0] @ gtk)\<rparr>)"
  by (simp add: wpa_supplicant_parse_ies_def ap_key_data_def Let_def parse_gtk [OF assms] parse_pad del: append_Cons)

section \<open>The station\<close>

definition willing :: "eapol_env \<Rightarrow> bool" where
  "willing env \<longleftrightarrow> (\<forall>s. on_change_cb env s = 0) \<and> (\<forall>f. 0 \<le> send_frame env f)
     \<and> (\<forall>a i t r k. set_key_ccmp env a i t r k = 0) \<and> (\<forall>p. set_supp_port env p = 0)"

definition sm_ok :: "supplicant_sm \<Rightarrow> bool" where
  "sm_ok s \<longleftrightarrow> length (sm_PTK s) = 64 \<and> length (sm_GTK s) = 4 \<and> (\<forall>k\<in>set (sm_GTK s). length k = 32)"

text \<open>An associated station: its own element, that of the access point, and the master key.\<close>

definition ctx_ok :: "wlan_ctx \<Rightarrow> byte list \<Rightarrow> byte list \<Rightarrow> bool" where
  "ctx_ok c ie ap_ie \<longleftrightarrow> associated c \<and> length (our_addr c) = 6 \<and> length (their_addr c) = 6
     \<and> rsn_ie c = Some ie \<and> length ie \<le> 257 \<and> last_ap_rsn_ie c = Some ap_ie \<and> is_rsn_ie ap_ie \<and> length (wpa_pmk c) = 32"

definition notice :: "eapol_state \<Rightarrow> nat \<Rightarrow> eapol_event list" where
  "notice w s = (if has_callback w then [State_Changed s] else [])"

text \<open>What the station sends.\<close>

definition sta_msg_2 :: "64 word \<Rightarrow> byte list \<Rightarrow> byte list \<Rightarrow> byte list \<Rightarrow> members" where
  "sta_msg_2 counter snonce ptk ie = signed_members ptk \<lparr>m_version = 2, m_type = 3, m_body_len = be16 (95 + length ie),
     m_desc = 2, m_info = be16 0x10A, m_klen = [0, 0], m_replay = be64 counter, m_nonce = snonce,
     m_iv = replicate 16 0, m_rsc = replicate 8 0, m_reserved = replicate 8 0, m_mic = replicate 16 0,
     m_dlen = be16 (length ie), m_data = ie\<rparr>"

definition sta_reply :: "nat \<Rightarrow> 64 word \<Rightarrow> byte list \<Rightarrow> members" where
  "sta_reply info counter ptk = signed_members ptk \<lparr>m_version = 2, m_type = 3, m_body_len = be16 95, m_desc = 2,
     m_info = be16 info, m_klen = [0, 0], m_replay = be64 counter, m_nonce = replicate 32 0,
     m_iv = replicate 16 0, m_rsc = replicate 8 0, m_reserved = replicate 8 0, m_mic = replicate 16 0,
     m_dlen = [0, 0], m_data = []\<rparr>"

definition sta_nonce :: "eapol_env \<Rightarrow> byte list \<Rightarrow> byte list \<Rightarrow> byte list" where
  "sta_nonce env addr rand = wpa_prf rand (map of_char ''Init Counter'') (nonce_seed addr (now_sec env) (now_usec env)) 32"

lemma frame_mic_prefix: "16 \<le> length ptk \<Longrightarrow> frame_mic (ptk @ rest) m = frame_mic ptk m"
  by (simp add: frame_mic_def)

lemma frame_mic_again [simp]: "frame_mic ptk (m\<lparr>m_mic := x\<rparr>) = frame_mic ptk m"
  by (simp add: frame_mic_def)

lemma signed_prefix: "16 \<le> length ptk \<Longrightarrow> signed_members (ptk @ rest) m = signed_members ptk m"
  by (simp add: signed_members_def frame_mic_prefix)

lemma length_ap_ptk [simp]: "length (ap_ptk pmk aa spa anonce snonce) = 48"
  by (simp add: ap_ptk_def)

lemma ap_msg_1_ok: "length anonce = 32 \<Longrightarrow> members_ok (ap_msg_1 counter anonce)"
  by (simp add: members_ok_def ap_msg_1_def)

lemma zero_field [simp]: "is_bitfield_zero (replicate n 0)"
  by (induction n) (simp_all add: is_bitfield_zero_def)

lemma info_1: "info_4way_msg_1 0x8A"
  by (simp add: info_4way_msg_1_def key_type_ok_def key_info_defs)

lemma ap_msg_1_recognised:
  assumes "length anonce = 32"
  shows "is_4way_msg_1 (frame_of (ap_msg_1 counter anonce) @ junk)"
  unfolding is_4way_msg_1_def frame_members [OF ap_msg_1_ok [OF assms]]
  using info_1 by (simp add: ap_msg_1_def get_be16)

lemma sign_prefix:
  assumes "members_ok m" and "16 \<le> length ptk" and "length (m_data m) \<le> 900" and "m_mic m = replicate 16 0"
  shows "sign_frame (ptk @ rest) (frame_of m) = Inr (Some (frame_of (signed_members ptk m)))"
  using sign_computes [OF assms(1) _ assms(3,4), of "ptk @ rest"] assms(2)
  by (simp add: signed_members_def frame_mic_prefix)

lemma msg_2_signed:
  assumes "length anonce = 32" and "length snonce = 32" and "length ie \<le> 257" and "16 \<le> length ptk"
  shows "sign_frame (ptk @ rest) (msg_2 (frame_of (ap_msg_1 counter anonce) @ junk) counter snonce ie)
     = Inr (Some (frame_of (sta_msg_2 counter snonce ptk ie)))"
proof -
  define m where "m = \<lparr>m_version = 2, m_type = 3, m_body_len = be16 (95 + length ie),
     m_desc = 2, m_info = be16 0x10A, m_klen = [0, 0], m_replay = be64 counter, m_nonce = snonce,
     m_iv = replicate 16 0, m_rsc = replicate 8 0, m_reserved = replicate 8 0, m_mic = replicate 16 0,
     m_dlen = be16 (length ie), m_data = ie\<rparr>"
  have ok: "members_ok m" using assms(2) by (simp add: members_ok_def m_def)
  have "msg_2 (frame_of (ap_msg_1 counter anonce) @ junk) counter snonce ie = frame_of m"
    unfolding msg_2_def frame_members [OF ap_msg_1_ok [OF assms(1)]]
    by (simp add: frame_of_def m_def ap_msg_1_def KEY_FRAME_LEN_def)
  moreover have "sta_msg_2 counter snonce ptk ie = signed_members ptk m" by (simp add: sta_msg_2_def m_def)
  ultimately show ?thesis using sign_prefix [OF ok assms(4)] assms(3) by (simp add: m_def)
qed

lemma reply_signed:
  assumes "16 \<le> length ptk"
  shows "sign_frame (ptk @ rest) (reply_frame info counter) = Inr (Some (frame_of (sta_reply info counter ptk)))"
proof -
  define m where "m = \<lparr>m_version = 2, m_type = 3, m_body_len = be16 95, m_desc = 2,
     m_info = be16 info, m_klen = [0, 0], m_replay = be64 counter, m_nonce = replicate 32 0,
     m_iv = replicate 16 0, m_rsc = replicate 8 0, m_reserved = replicate 8 0, m_mic = replicate 16 0,
     m_dlen = [0, 0], m_data = []\<rparr>"
  have ok: "members_ok m" by (simp add: members_ok_def m_def)
  have "reply_frame info counter = frame_of m" by (simp add: reply_frame_def frame_of_def m_def KEY_FRAME_LEN_def)
  moreover have "sta_reply info counter ptk = signed_members ptk m" by (simp add: sta_reply_def m_def)
  ultimately show ?thesis using sign_prefix [OF ok assms] by (simp add: m_def)
qed

lemma length_pairwise_label: "length pairwise_label = 22"
  by (simp add: pairwise_label_def)

lemma signed_members_members:
  "m_desc (signed_members ptk m) = m_desc m" "m_info (signed_members ptk m) = m_info m" "m_replay (signed_members ptk m) = m_replay m"
  "m_nonce (signed_members ptk m) = m_nonce m" "m_iv (signed_members ptk m) = m_iv m" "m_rsc (signed_members ptk m) = m_rsc m"
  "m_dlen (signed_members ptk m) = m_dlen m" "m_data (signed_members ptk m) = m_data m"
  "m_mic (signed_members ptk m) = frame_mic ptk (signed_members ptk m)"
  by (simp_all add: signed_members_def)

lemma signed_accepted: "members_ok m \<Longrightarrow> ap_accepts ptk (signed_members ptk m)"
  using signed_members_members(9) by (simp add: ap_accepts_def) (simp add: signed_members_def)

lemma sta_accepted:
  "length snonce = 32 \<Longrightarrow> ap_accepts ptk (sta_msg_2 counter snonce ptk ie)"
  "m_nonce (sta_msg_2 counter snonce ptk ie) = snonce"
  "ap_accepts ptk (sta_reply info counter ptk)"
  using signed_accepted by (simp_all add: sta_msg_2_def sta_reply_def members_ok_def signed_members_members)

lemma length_sta_nonce [simp]: "length (sta_nonce env addr rand) = 32"
  by (simp add: sta_nonce_def)

lemma pairwise_flip:
  "length a = length b \<Longrightarrow> pairwise_data a b m n = pairwise_data b a m n"
  by (simp add: pairwise_data_def memcmp_order [of a b])

section \<open>Message 1\<close>

text \<open>The key material after message 1.\<close>

definition keyed_sm :: "64 word \<Rightarrow> byte list \<Rightarrow> byte list \<Rightarrow> byte list \<Rightarrow> supplicant_sm \<Rightarrow> supplicant_sm" where
  "keyed_sm counter anonce snonce ptk s = s\<lparr>sm_Counter := counter, sm_ANonce := anonce, sm_SNonce := snonce,
     sm_ptk_len := 48, sm_PTK := ptk @ drop 48 (sm_PTK s)\<rparr>"

lemma msg_1_answered:
  assumes "willing env" and "ctx w = Some c" and "ctx_ok c ie ap_ie" and "sm_ok (sm w)"
    and "urandom env = Some rand" and "length rand = 64" and "length anonce = 32"
    and "auth_state w = AUTH_STATE_PREAUTH \<or> auth_state w = AUTH_STATE_GROUP_HS_READY"
    and "snonce = sta_nonce env (our_addr c) rand" and "ptk = ap_ptk (wpa_pmk c) (their_addr c) (our_addr c) anonce snonce"
  shows "process_eapol_frame env (frame_of (ap_msg_1 counter anonce) @ junk) 99 w = Inr (0, w\<lparr>
     auth_state := AUTH_STATE_4WAY_2_SENT, sm := keyed_sm counter anonce snonce ptk (sm w),
     sent_events := sent_events w @ notice w AUTH_STATE_4WAY_1_RCVD
       @ [Frame_Sent (frame_of (sta_msg_2 counter snonce ptk ie))] @ notice w AUTH_STATE_4WAY_2_SENT\<rparr>)"
proof -
  let ?f = "frame_of (ap_msg_1 counter anonce) @ junk"
  note c = assms(3) [unfolded ctx_ok_def]
  have m1: "is_4way_msg_1 ?f" using ap_msg_1_recognised [OF assms(7)] .
  have rc: "key_replay_counter ?f = counter" "key_nonce ?f = anonce"
    unfolding frame_members [OF ap_msg_1_ok [OF assms(7)]] by (simp_all add: ap_msg_1_def get_be64)
  have nonce: "rsna_nonce_generator (our_addr c) (now_sec env) (now_usec env) (urandom env) = Inr (0, snonce)"
    using c assms(5,6,9) by (simp add: nonce_computes sta_nonce_def)
  have ls: "length snonce = 32" by (simp add: assms(9) sta_nonce_def)
  have key: "wpa_pmk_to_ptk (wpa_pmk c) pairwise_label (our_addr c) (their_addr c) anonce snonce 48 = Inr ptk"
    using c ls assms(7,10) pairwise_flip [of "our_addr c" "their_addr c"]
    by (simp add: wpa_pmk_to_ptk_computes hashable_small ap_ptk_def length_pairwise_label)
  have start: "process_eapol_frame env ?f 99 w = start_4way env ?f w"
    using assms(2,8) c m1 by (auto simp: process_eapol_frame_def the_ctx_def KEY_FRAME_LEN_def expect_rekeying_def auth_state_defs)
  have stored: "write_bytes (sm_PTK (sm w)) 0 ptk = Inr (ptk @ drop 48 (sm_PTK (sm w)))"
    using assms(4,10) by (simp add: write_bytes_def sm_ok_def)
  have sign: "sign_frame (ptk @ drop 48 (sm_PTK (sm w))) (msg_2 ?f counter snonce ie)
      = Inr (Some (frame_of (sta_msg_2 counter snonce ptk ie)))"
    using msg_2_signed [OF assms(7) ls] c assms(10) by simp
  have willing: "on_change_cb env s = 0" "\<not> send_frame env f < 0" for s f
    using assms(1) by (auto simp: willing_def not_less)
  show ?thesis
    using assms(2) c
    by (simp add: start start_4way_def eapol_auth_state_change_def willing process_eapol_4way_msg_1_def nonce rc
        eapol_save_1_of_4_data_def key stored sign eapol_send_key_frame_def emit_def notice_def keyed_sm_def Let_def)
qed

section \<open>Encrypted messages\<close>

text \<open>Their frame after the station has decrypted it.\<close>

definition decrypted :: "members \<Rightarrow> byte list \<Rightarrow> members" where
  "decrypted m data = m\<lparr>m_data := data @ drop (length data) (m_data m), m_dlen := be16 (length data)\<rparr>"

lemma ap_encrypted_members:
  "m_desc (ap_encrypted info counter nonce rsc ptk data) = 2" "m_info (ap_encrypted info counter nonce rsc ptk data) = be16 info"
  "m_replay (ap_encrypted info counter nonce rsc ptk data) = be64 counter"
  "m_nonce (ap_encrypted info counter nonce rsc ptk data) = nonce" "m_iv (ap_encrypted info counter nonce rsc ptk data) = replicate 16 0"
  "m_rsc (ap_encrypted info counter nonce rsc ptk data) = rsc"
  "m_dlen (ap_encrypted info counter nonce rsc ptk data) = be16 (length (key_wrap (aes_encrypt (slice 16 16 ptk)) data))"
  "m_data (ap_encrypted info counter nonce rsc ptk data) = key_wrap (aes_encrypt (slice 16 16 ptk)) data"
  "m_mic (ap_encrypted info counter nonce rsc ptk data) = frame_mic ptk (ap_encrypted info counter nonce rsc ptk data)"
  by (simp_all add: ap_encrypted_def Let_def signed_members_members)

lemma ap_encrypted_ok: "length nonce = 32 \<Longrightarrow> length rsc = 8 \<Longrightarrow> members_ok (ap_encrypted info counter nonce rsc ptk data)"
  by (simp add: members_ok_def ap_encrypted_def Let_def signed_members_def)

lemma decrypted_ok: "members_ok m \<Longrightarrow> members_ok (decrypted m data)"
  by (simp add: decrypted_def)

lemma decrypted_members [simp]:
  "m_desc (decrypted m data) = m_desc m" "m_info (decrypted m data) = m_info m" "m_replay (decrypted m data) = m_replay m"
  "m_nonce (decrypted m data) = m_nonce m" "m_rsc (decrypted m data) = m_rsc m"
  "m_dlen (decrypted m data) = be16 (length data)"
  "m_data (decrypted m data) = data @ drop (length data) (m_data m)"
  by (simp_all add: decrypted_def)

lemma ap_encrypted_received:
  assumes "length nonce = 32" and "length rsc = 8" and "length ptk = 48" and "length data = 8 * n" and "n \<le> 42"
    and "m = ap_encrypted info counter nonce rsc ptk data"
  shows "eapol_key_frame_mic_ok (ptk @ rest) (frame_of m @ junk) (length (frame_of m)) = Inr (True, frame_of m @ junk)"
    and "wpa_decrypt_eapol_key_data (ptk @ rest) (frame_of m @ junk) WPA_KEY_INFO_TYPE_HMAC_SHA1_AES
      = Inr (0, frame_of (decrypted m data) @ junk)"
    and "key_data_len (frame_of m @ junk) = 8 * n + 8" and "length (frame_of m) = 8 * n + 107"
    and "read_bytes (frame_of (decrypted m data) @ junk) KEY_FRAME_LEN (key_data_len (frame_of (decrypted m data) @ junk)) = Inr data"
proof -
  have ok: "members_ok m" using ap_encrypted_ok [OF assms(1,2)] by (simp add: assms(6))
  note ms = ap_encrypted_members [of info counter nonce rsc ptk data, folded assms(6)]
  have lc: "length (m_data m) = 8 * n + 8" using length_wrapped [OF assms(4,5)] by (simp add: ms)
  have same: "m\<lparr>m_mic := frame_mic ptk m\<rparr> = m" using ms(9) by (cases m) simp
  show "eapol_key_frame_mic_ok (ptk @ rest) (frame_of m @ junk) (length (frame_of m)) = Inr (True, frame_of m @ junk)"
    using mic_check [OF ok, of "ptk @ rest" junk] lc assms(3,5) ms(9) same by (simp add: frame_mic_prefix)
  show "wpa_decrypt_eapol_key_data (ptk @ rest) (frame_of m @ junk) WPA_KEY_INFO_TYPE_HMAC_SHA1_AES
      = Inr (0, frame_of (decrypted m data) @ junk)"
    using decrypt_wrapped [OF ok, of "ptk @ rest" data n junk] assms(3-5) lc
    by (simp add: ms slice_def decrypted_def)
  show "key_data_len (frame_of m @ junk) = 8 * n + 8"
    using lc assms(5) by (simp add: frame_members [OF ok] ms get_be16)
  show "length (frame_of m) = 8 * n + 107" using lc by (simp add: length_frame_of [OF ok])
  have "length (frame_of (decrypted m data)) = 8 * n + 107"
    using lc by (simp add: length_frame_of [OF decrypted_ok [OF ok]] assms(4))
  then show "read_bytes (frame_of (decrypted m data) @ junk) KEY_FRAME_LEN (key_data_len (frame_of (decrypted m data) @ junk)) = Inr data"
    using assms(4,5)
    by (simp add: read_bytes_def frame_members [OF decrypted_ok [OF ok]] get_be16 KEY_FRAME_LEN_def del: drop_append)
       (simp add: frame_members(11) [OF decrypted_ok [OF ok], unfolded KEY_FRAME_LEN_def] del: drop_append)
qed

section \<open>Group keys\<close>

definition keep_gtk :: "byte \<Rightarrow> byte list \<Rightarrow> supplicant_sm \<Rightarrow> supplicant_sm" where
  "keep_gtk flags gtk s = (let k = unat (flags AND 3)
     in s\<lparr>sm_GTK := (sm_GTK s)[k := [flags, 0] @ gtk @ drop 18 (sm_GTK s ! k)],
          sm_gtk_present := sm_gtk_present s OR push_bit k 1\<rparr>)"

lemma key_number: "unat (flags AND 3 :: byte) < 4"
proof -
  have "flags AND 3 \<le> 3" by (rule word_and_le1)
  then show ?thesis by (simp add: word_le_nat_alt)
qed

lemma gtk_stored:
  assumes "sm_ok s" and "length gtk = 16"
  shows "store_gtk ([flags, 0] @ gtk) s = Inr (keep_gtk flags gtk s)"
proof -
  have "length (sm_GTK s ! unat (flags AND 3)) = 32" using assms key_number [of flags] by (auto simp: sm_ok_def)
  then show ?thesis
    using assms key_number [of flags] by (simp add: store_gtk_def nth_res_def sm_ok_def write_bytes_def keep_gtk_def Let_def)
qed

lemma keep_gtk_ok:
  assumes "sm_ok s" and "length gtk = 16"
  shows "sm_ok (keep_gtk flags gtk s)"
proof -
  have "length (sm_GTK s ! unat (flags AND 3)) = 32" using assms key_number [of flags] by (auto simp: sm_ok_def)
  then show ?thesis using assms by (auto simp: keep_gtk_def Let_def sm_ok_def dest: subsetD [OF set_update_subset_insert])
qed

section \<open>Message 3\<close>

lemma info_3: "info_4way_msg_3 0x13CA" "bit (0x13CA :: 16 word) WPA_KEY_INFO_INSTALL" "bit (0x13CA :: 16 word) WPA_KEY_INFO_SECURE"
  by (simp_all add: info_4way_msg_3_def key_type_ok_def key_info_defs)

lemma rsn_ie_itself:
  assumes "is_rsn_ie ie"
  shows "nth_res ie 1 = Inr (ie ! 1)" and "unat (ie ! 1) + 2 = length ie" and "same_bytes ie ie (length ie) = Inr True"
  using assms by (auto simp: is_rsn_ie_def unat_of_nat same_bytes_def read_bytes_def)

definition parsed_ies :: "byte list \<Rightarrow> byte \<Rightarrow> byte list \<Rightarrow> eapol_ies" where
  "parsed_ies ap_ie flags gtk = no_ies\<lparr>ie_rsn := Some ap_ie, ie_gtk := Some ([flags, 0] @ gtk)\<rparr>"

lemma msg_3_secure:
  assumes "ctx w = Some c" and "ctx_ok c ie ap_ie" and "sm_ok (sm w)" and "length gtk = 16"
    and "members_ok m" and "sm_Counter (sm w) < counter"
    and "m_replay m = be64 counter" and "m_nonce m = sm_ANonce (sm w)"
    and "read_bytes (frame_of m @ junk) KEY_FRAME_LEN (key_data_len (frame_of m @ junk)) = Inr (ap_key_data ap_ie flags gtk)"
  shows "eapol_3_of_4_security_ok (frame_of m @ junk) w
     = Inr ((True, parsed_ies ap_ie flags gtk), w\<lparr>sm := keep_gtk flags gtk (sm w)\<rparr>)"
proof -
  have ap: "is_rsn_ie ap_ie" "last_ap_rsn_ie c = Some ap_ie" using assms(2) by (simp_all add: ctx_ok_def)
  have ies: "wpa_supplicant_parse_ies (ap_key_data ap_ie flags gtk) = (0, parsed_ies ap_ie flags gtk)"
    using key_data_parsed [OF ap(1), of gtk flags] assms(4) by (auto simp: parsed_ies_def)
  have fresh: "key_replay_counter (frame_of m @ junk) = counter" "key_nonce (frame_of m @ junk) = sm_ANonce (sm w)"
    by (simp_all add: frame_members [OF assms(5)] assms(7,8) get_be64)
  show ?thesis
    using assms(1,6) ap rsn_ie_itself [OF ap(1)] gtk_stored [OF assms(3,4)] assms(4)
    by (simp add: eapol_3_of_4_security_ok_def fresh not_le the_ctx_def assms(9) ies Let_def parsed_ies_def ie_len_def)
qed

lemma msg_3_recognised:
  assumes "ctx w = Some c" and "ctx_ok c ie ap_ie" and "sm_ok (sm w)" and "length gtk = 16" and "length rsc = 8"
    and "sm_PTK (sm w) = ptk @ rest" and "length ptk = 48" and "sm_ANonce (sm w) = anonce" and "length anonce = 32"
    and "sm_Counter (sm w) < counter" and "m = ap_msg_3 counter anonce rsc ptk (ap_key_data ap_ie flags gtk)"
  shows "is_4way_msg_3 (frame_of m @ junk) (length (frame_of m)) w
     = Inr (1, frame_of (decrypted m (ap_key_data ap_ie flags gtk)) @ junk, parsed_ies ap_ie flags gtk,
         w\<lparr>sm := keep_gtk flags gtk (sm w)\<rparr>)"
proof -
  define data n where "data = ap_key_data ap_ie flags gtk" and "n = (length ap_ie + length gtk + 15) div 8"
  have "length ap_ie \<le> 257" using assms(2) by (auto simp: ctx_ok_def is_rsn_ie_def)
  then have n: "length data = 8 * n" "n \<le> 42" using assms(4) by (auto simp: data_def n_def length_key_data)
  have m: "m = ap_encrypted 0x13CA counter anonce rsc ptk data" by (simp add: assms(11) ap_msg_3_def data_def)
  note received = ap_encrypted_received [OF assms(9,5,7) n m]
  have ok: "members_ok m" using ap_encrypted_ok [OF assms(9,5)] by (simp add: m)
  have "read_bytes (frame_of (decrypted m data) @ junk) KEY_FRAME_LEN (key_data_len (frame_of (decrypted m data) @ junk))
      = Inr (ap_key_data ap_ie flags gtk)" using received(5) by (simp add: data_def)
  then have secure: "eapol_3_of_4_security_ok (frame_of (decrypted m data) @ junk) w
      = Inr ((True, parsed_ies ap_ie flags gtk), w\<lparr>sm := keep_gtk flags gtk (sm w)\<rparr>)"
    using msg_3_secure [OF assms(1-4) decrypted_ok [OF ok, of data] assms(10)] assms(8) by (simp add: m ap_encrypted_members)
  have head: "desc_type (frame_of m @ junk) = 2" "key_info (frame_of m @ junk) = 0x13CA"
    unfolding frame_members [OF ok] by (simp_all add: m ap_encrypted_members get_be16)
  show ?thesis
    using received(1) [of rest junk] received(2) [of rest junk] info_3(1)
    by (simp add: is_4way_msg_3_def head received(3,4) KEY_FRAME_LEN_def assms(6) secure data_def [symmetric])
qed

text \<open>The keys the driver is given, and opening the port.\<close>

definition keys_set :: "byte list \<Rightarrow> byte list \<Rightarrow> byte list \<Rightarrow> byte \<Rightarrow> byte list \<Rightarrow> eapol_event list" where
  "keys_set their ptk rsc flags gtk =
    [Key_Set their 0 True (replicate 6 0) (slice 32 16 ptk),
     Key_Set (replicate 6 0xff) (unat (flags AND 3)) (bit flags 2) (take 6 rsc) gtk, Port_Set True]"

lemma willing_simps:
  assumes "willing env"
  shows "on_change_cb env s = 0" "send_frame env f < 0 \<longleftrightarrow> False" "set_key_ccmp env a i t r k = 0" "set_supp_port env p = 0"
  using assms by (auto simp: willing_def not_less)

lemma finish_4way_done:
  assumes "willing env" and "ctx w = Some c" and "sm_PTK (sm w) = ptk @ rest" and "length ptk = 48" and "length gtk = 16"
    and "members_ok m" and "m_info m = be16 0x13CA" and "m_rsc m = rsc"
  shows "finish_4way env (frame_of m @ junk) (parsed_ies ap_ie flags gtk) w = Inr (0, w\<lparr>
     auth_state := AUTH_STATE_GROUP_HS_READY, sm := (sm w)\<lparr>sm_PortEnabled := True, sm_PortValid := True\<rparr>,
     sent_events := sent_events w @ keys_set (their_addr c) ptk rsc flags gtk @ notice w AUTH_STATE_GROUP_HS_READY\<rparr>)"
proof -
  have "key_info (frame_of m @ junk) = 0x13CA"
    unfolding frame_members [OF assms(6)] by (simp add: assms(7) get_be16)
  then have ki: "bit (key_info (frame_of m @ junk)) WPA_KEY_INFO_INSTALL" "bit (key_info (frame_of m @ junk)) WPA_KEY_INFO_SECURE"
    using info_3 by simp_all
  have rsc: "slice 65 6 (frame_of m @ junk) = take 6 rsc" unfolding frame_members [OF assms(6)] by (simp add: assms(8))
  have tk: "read_bytes (sm_PTK (sm w)) 32 16 = Inr (slice 32 16 ptk)"
    using assms(3,4) by (simp add: read_bytes_def slice_def)
  show ?thesis
    using assms(2,5) tk
    by (simp add: finish_4way_def ki rsc eapol_install_ptk_def the_ctx_def set_key_def willing_simps [OF assms(1)]
        eapol_set_pairwise_gtk_def parsed_ies_def ie_len_def eapol_install_gtk_def eapol_set_port_auth_def
        eapol_auth_state_change_def emit_def notice_def keys_set_def Let_def)
qed

lemma msg_3_answered:
  assumes "willing env" and "ctx w = Some c" and "ctx_ok c ie ap_ie" and "sm_ok (sm w)" and "length gtk = 16" and "length rsc = 8"
    and "sm_PTK (sm w) = ptk @ rest" and "length ptk = 48" and "sm_ANonce (sm w) = anonce" and "length anonce = 32"
    and "sm_Counter (sm w) < counter" and "auth_state w = AUTH_STATE_4WAY_2_SENT"
    and "m = ap_msg_3 counter anonce rsc ptk (ap_key_data ap_ie flags gtk)"
  shows "process_eapol_frame env (frame_of m @ junk) (length (frame_of m)) w = Inr (0, w\<lparr>
     auth_state := AUTH_STATE_GROUP_HS_READY,
     sm := (keep_gtk flags gtk (sm w))\<lparr>sm_Counter := counter, sm_PortEnabled := True, sm_PortValid := True\<rparr>,
     sent_events := sent_events w @ notice w AUTH_STATE_4WAY_3_RCVD
       @ [Frame_Sent (frame_of (sta_reply 0x30A counter ptk))] @ notice w AUTH_STATE_4WAY_COMPLETE
       @ keys_set (their_addr c) ptk rsc flags gtk @ notice w AUTH_STATE_GROUP_HS_READY\<rparr>)"
proof -
  define d where "d = decrypted m (ap_key_data ap_ie flags gtk)"
  define w3 where "w3 = w\<lparr>auth_state := AUTH_STATE_4WAY_COMPLETE, sm := (keep_gtk flags gtk (sm w))\<lparr>sm_Counter := counter\<rparr>,
     sent_events := sent_events w @ notice w AUTH_STATE_4WAY_3_RCVD
       @ [Frame_Sent (frame_of (sta_reply 0x30A counter ptk))] @ notice w AUTH_STATE_4WAY_COMPLETE\<rparr>"
  have ok: "members_ok m" "members_ok d"
    using ap_encrypted_ok [OF assms(10,6)] by (simp_all add: assms(13) ap_msg_3_def d_def decrypted_ok)
  have d: "m_info d = be16 0x13CA" "m_rsc d = rsc" "m_replay d = be64 counter"
    by (simp_all add: d_def assms(13) ap_msg_3_def ap_encrypted_members)
  have rc: "key_replay_counter (frame_of d @ junk) = counter"
    by (simp add: frame_members [OF ok(2)] d(3) get_be64)
  have ptk: "sm_PTK (keep_gtk flags gtk (sm w)) = ptk @ rest" by (simp add: keep_gtk_def Let_def assms(7))
  have finish: "finish_4way env (frame_of d @ junk) (parsed_ies ap_ie flags gtk) w3 = Inr (0, w3\<lparr>
     auth_state := AUTH_STATE_GROUP_HS_READY, sm := (sm w3)\<lparr>sm_PortEnabled := True, sm_PortValid := True\<rparr>,
     sent_events := sent_events w3 @ keys_set (their_addr c) ptk rsc flags gtk @ notice w3 AUTH_STATE_GROUP_HS_READY\<rparr>)"
    by (rule finish_4way_done [OF assms(1)]) (simp_all add: w3_def assms(2,5,8) ok d ptk)
  have process: "process_eapol_4way_msg_3 env (frame_of d @ junk) (parsed_ies ap_ie flags gtk)
      (w\<lparr>auth_state := AUTH_STATE_4WAY_3_RCVD, sm := keep_gtk flags gtk (sm w),
         sent_events := sent_events w @ notice w AUTH_STATE_4WAY_3_RCVD\<rparr>)
      = finish_4way env (frame_of d @ junk) (parsed_ies ap_ie flags gtk) w3"
    using assms(2,3,8) reply_signed [of ptk rest "0x30A" counter] ptk
    by (cases w) (simp add: process_eapol_4way_msg_3_def ctx_ok_def rc eapol_send_key_frame_def emit_def
        willing_simps [OF assms(1)] eapol_auth_state_change_def w3_def notice_def Let_def)
  show ?thesis
    using msg_3_recognised [OF assms(2-11,13)] assms(2,3,12) process finish
    by (cases "has_callback w"; cases w) (simp_all add: process_eapol_frame_def length_frame_of [OF ok(1)] KEY_FRAME_LEN_def the_ctx_def ctx_ok_def auth_state_defs
        expect_msg_3_def eapol_auth_state_change_def willing_simps [OF assms(1)] emit_def d_def [symmetric] w3_def notice_def)
qed

section \<open>The group key handshake\<close>

lemma info_g: "info_group_hs_msg_1 0x1382"
  by (simp add: info_group_hs_msg_1_def key_type_ok_def key_info_defs)

lemma not_msg_1: "\<not> info_4way_msg_1 0x1382"
  by (simp add: info_4way_msg_1_def key_type_ok_def key_info_defs)

lemma group_msg_recognised:
  assumes "sm_ok (sm w)" and "length gtk = 16" and "length rsc = 8"
    and "sm_PTK (sm w) = ptk @ rest" and "length ptk = 48"
    and "m = ap_group_msg_1 counter rsc ptk (ap_key_data [] flags gtk)"
  shows "\<not> is_4way_msg_1 (frame_of m @ junk)"
    and "is_group_hs_msg_1 (frame_of m @ junk) (length (frame_of m)) w
     = Inr (if counter \<le> sm_Counter (sm w) then (-1, frame_of (decrypted m (ap_key_data [] flags gtk)) @ junk, no_ies, w)
         else (1, frame_of (decrypted m (ap_key_data [] flags gtk)) @ junk, no_ies\<lparr>ie_gtk := Some ([flags, 0] @ gtk)\<rparr>,
           w\<lparr>sm := (keep_gtk flags gtk (sm w))\<lparr>sm_Counter := counter\<rparr>\<rparr>))"
proof -
  define data n where "data = ap_key_data [] flags gtk" and "n = (length gtk + 15) div 8"
  have n: "length data = 8 * n" "n \<le> 42" using assms(2) by (auto simp: data_def n_def length_key_data)
  have m: "m = ap_encrypted 0x1382 counter (replicate 32 0) rsc ptk data" by (simp add: assms(6) ap_group_msg_1_def data_def)
  note received = ap_encrypted_received [OF _ assms(3,5) n m, simplified]
  have ok: "members_ok m" using ap_encrypted_ok [OF _ assms(3)] by (simp add: m)
  have head: "desc_type (frame_of m @ junk) = 2" "key_info (frame_of m @ junk) = 0x1382"
    "key_nonce (frame_of m @ junk) = replicate 32 0" "eapol_key_iv (frame_of m @ junk) = replicate 16 0"
    unfolding frame_members [OF ok] by (simp_all add: m ap_encrypted_members get_be16)
  show "\<not> is_4way_msg_1 (frame_of m @ junk)"
    using not_msg_1 by (simp add: is_4way_msg_1_def head)
  have rc: "key_replay_counter (frame_of (decrypted m data) @ junk) = counter"
    unfolding frame_members [OF decrypted_ok [OF ok]] by (simp add: m ap_encrypted_members get_be64)
  have ies: "wpa_supplicant_parse_ies data = (0, no_ies\<lparr>ie_gtk := Some ([flags, 0] @ gtk)\<rparr>)"
    using group_data_parsed [of gtk flags] assms(2) by (auto simp: data_def)
  show "is_group_hs_msg_1 (frame_of m @ junk) (length (frame_of m)) w
     = Inr (if counter \<le> sm_Counter (sm w) then (-1, frame_of (decrypted m (ap_key_data [] flags gtk)) @ junk, no_ies, w)
         else (1, frame_of (decrypted m (ap_key_data [] flags gtk)) @ junk, no_ies\<lparr>ie_gtk := Some ([flags, 0] @ gtk)\<rparr>,
           w\<lparr>sm := (keep_gtk flags gtk (sm w))\<lparr>sm_Counter := counter\<rparr>\<rparr>))"
    using received(1,2) [of rest junk] received(5) [of junk] info_g gtk_stored [OF assms(1,2), of flags] assms(2)
    by (simp add: is_group_hs_msg_1_def head assms(4) eapol_group_hs_security_ok_def rc ies data_def [symmetric] Let_def del: rbind_eq_Inr)
qed

lemma group_msg_refused:
  assumes "ctx w = Some c" and "associated c" and "sm_ok (sm w)" and "length gtk = 16" and "length rsc = 8"
    and "sm_PTK (sm w) = ptk @ rest" and "length ptk = 48" and "auth_state w = AUTH_STATE_GROUP_HS_READY"
    and "counter \<le> sm_Counter (sm w)" and "m = ap_group_msg_1 counter rsc ptk (ap_key_data [] flags gtk)"
  shows "process_eapol_frame env (frame_of m @ junk) (length (frame_of m)) w = Inr (-1, w)"
proof -
  have "members_ok m" using ap_encrypted_ok [OF _ assms(5)] by (simp add: assms(10) ap_group_msg_1_def)
  from length_frame_of [OF this] show ?thesis
    using assms(1,2,8,9) group_msg_recognised [OF assms(3-7,10), of junk]
    by (simp add: process_eapol_frame_def KEY_FRAME_LEN_def the_ctx_def auth_state_defs expect_rekeying_def)
qed

lemma group_msg_answered:
  assumes "willing env" and "ctx w = Some c" and "associated c" and "sm_ok (sm w)" and "length gtk = 16" and "length rsc = 8"
    and "sm_PTK (sm w) = ptk @ rest" and "length ptk = 48" and "auth_state w = AUTH_STATE_GROUP_HS_READY"
    and "sm_Counter (sm w) < counter" and "m = ap_group_msg_1 counter rsc ptk (ap_key_data [] flags gtk)"
  shows "process_eapol_frame env (frame_of m @ junk) (length (frame_of m)) w = Inr (0, w\<lparr>
     sm := (keep_gtk flags gtk (sm w))\<lparr>sm_Counter := counter + 1, sm_PortEnabled := True, sm_PortValid := True\<rparr>,
     sent_events := sent_events w @ notice w AUTH_STATE_GROUP_HS_1_RCVD
       @ [Key_Set (replicate 6 0xff) (unat (flags AND 3)) (bit flags 2) (take 6 rsc) gtk,
          Frame_Sent (frame_of (sta_reply 0x302 counter ptk)), Port_Set True] @ notice w AUTH_STATE_GROUP_HS_READY\<rparr>)"
proof -
  define d where "d = decrypted m (ap_key_data [] flags gtk)"
  have ok: "members_ok m" "members_ok d"
    using ap_encrypted_ok [OF _ assms(6)] by (simp_all add: assms(11) ap_group_msg_1_def d_def decrypted_ok)
  have rsc: "slice 65 6 (frame_of d @ junk) = take 6 rsc"
    unfolding frame_members [OF ok(2)] by (simp add: d_def assms(11) ap_group_msg_1_def ap_encrypted_members)
  have ptk: "sm_PTK (keep_gtk flags gtk (sm w)) = ptk @ rest" by (simp add: keep_gtk_def Let_def assms(7))
  show ?thesis
    using assms(2,3,5,8-10) group_msg_recognised [OF assms(4-8,11), of junk] reply_signed [of ptk rest "0x302" counter] ptk rsc
    by (cases "has_callback w"; cases w)
      (simp_all add: process_eapol_frame_def length_frame_of [OF ok(1)] KEY_FRAME_LEN_def the_ctx_def auth_state_defs
        expect_rekeying_def process_eapol_group_hs_msg1_def d_def [symmetric] eapol_set_pairwise_gtk_def ie_len_def
        eapol_install_gtk_def set_key_def eapol_send_key_frame_def eapol_set_port_auth_def willing_simps [OF assms(1)]
        eapol_auth_state_change_def emit_def notice_def not_le Let_def)
qed

lemma group_msg_ignored:
  assumes "length rsc = 8" and "ctx w = Some c" and "associated c" and "auth_state w = AUTH_STATE_4WAY_2_SENT"
    and "m = ap_group_msg_1 counter rsc ptk data"
  shows "process_eapol_frame env (frame_of m @ junk) (length (frame_of m)) w = Inr (0, w)"
proof -
  have ok: "members_ok m" using ap_encrypted_ok [OF _ assms(1)] by (simp add: assms(5) ap_group_msg_1_def)
  have ki: "key_info (frame_of m @ junk) = 0x1382"
    unfolding frame_members [OF ok] by (simp add: assms(5) ap_group_msg_1_def ap_encrypted_members get_be16)
  have "\<not> info_4way_msg_3 0x1382" by (simp add: info_4way_msg_3_def key_type_ok_def key_info_defs)
  then show ?thesis
    using assms(2-4) by (simp add: process_eapol_frame_def length_frame_of [OF ok] KEY_FRAME_LEN_def the_ctx_def
        auth_state_defs expect_msg_3_def is_4way_msg_3_def ki)
qed

end
