(* ===== verification/Eapol_Safety.thy ===== *)
theory Eapol_Safety
  imports Eapol_Handshake
begin

text \<open>
  What a frame must have for the station to do anything with it while it waits for message 3: nothing is
  assumed of the frame or of where it comes from.
\<close>

unbundle bit_operations_syntax

text \<open>The integrity code of a frame is right: it is computed with zeros in its place.\<close>

definition zero_mic :: "byte list \<Rightarrow> byte list" where
  "zero_mic f = take 81 f @ replicate 16 0 @ drop 97 f"

definition mic_valid :: "byte list \<Rightarrow> byte list \<Rightarrow> nat \<Rightarrow> bool" where
  "mic_valid ptk f n \<longleftrightarrow> key_mic f = take 16 (hmac (take 16 ptk) (take n (zero_mic f)))"

lemma mic_ok_valid:
  assumes "eapol_key_frame_mic_ok ptk f n = Inr (ok, g)" and "16 \<le> length ptk" and "n \<le> 4096"
  shows "ok = mic_valid ptk f n" and "ok \<Longrightarrow> g = f" and "n \<le> length f" and "97 \<le> length f"
proof -
  define mic where "mic = take 16 (hmac (take 16 ptk) (take n (zero_mic f)))"
  have "hashable (take n (zero_mic f))" using assms(3) by (simp add: hashable_def)
  note mac = key_mic_computes [OF assms(2) this]
  obtain f1 where f1: "write_bytes f 81 (replicate 16 0) = Inr f1"
    and rd: "read_bytes f1 0 n = Inr (take n f1)"
    and r: "rbind (wpa_eapol_key_mic ptk WPA_KEY_INFO_TYPE_HMAC_SHA1_AES (take n f1)) (\<lambda>r. case r of
          None \<Rightarrow> Inr (False, f1)
        | Some mic \<Rightarrow> rbind (write_bytes f1 81 mic) (\<lambda>g. Inr (key_mic f = mic, g))) = Inr (ok, g)"
    using assms(1) by (auto simp: eapol_key_frame_mic_ok_def Let_def read_bytes_def simp del: rbind_eq_Inr
        split: if_splits elim!: rbind_eq_Inr [THEN iffD1, elim_format])
  have z: "97 \<le> length f" "f1 = zero_mic f" "length (zero_mic f) = length f"
    using f1 by (auto simp: write_bytes_Inr zero_mic_def)
  show "97 \<le> length f" "n \<le> length f" using z rd by (auto simp: read_bytes_def split: if_splits)
  have "write_bytes f1 81 mic = Inr (take 81 f @ mic @ drop 97 f)"
    using z by (simp add: write_bytes_def mic_def zero_mic_def)
  then have okg: "ok = (key_mic f = mic)" "g = take 81 f @ mic @ drop 97 f"
    using r mac by (simp_all add: z(2) mic_def)
  then show "ok = mic_valid ptk f n" by (simp add: mic_valid_def mic_def)
  have "take 81 f @ take 16 (drop 81 f) @ drop 16 (drop 81 f) = f" by (simp only: append_take_drop_id)
  then show "ok \<Longrightarrow> g = f" using okg by (simp add: key_mic_def slice_def)
qed

lemma decrypt_done:
  assumes "wpa_decrypt_eapol_key_data ptk f WPA_KEY_INFO_TYPE_HMAC_SHA1_AES = Inr (0, g)"
  shows "key_data_len f mod 8 = 0"
    and "\<exists>p. aes_unwrap (drop 16 ptk) (unat (word_of_nat (key_data_len f) - 8 :: 16 word) div 8) (drop KEY_FRAME_LEN f) = Inr (0, p)"
    and "k + n \<le> 97 \<Longrightarrow> slice k n g = slice k n f"
  using assms
  by (auto simp: wpa_decrypt_eapol_key_data_def Let_def KEY_FRAME_LEN_def split: if_splits dest!: slice_before [of _ _ _ _ k n])

lemma unwrapped_key:
  assumes "aes_unwrap kek n f = Inr (0, p)" and "16 \<le> length kek" and "n \<le> 42" and "8 * n + 8 \<le> length f"
  shows "take (8 * n + 8) f = key_wrap (aes_encrypt (take 16 kek)) p"
proof -
  have "aes_unwrap kek n (take (8 * n + 8) f) = aes_unwrap kek n f"
    using assms(4) by (simp only: aes_unwrap_def) (simp add: read_bytes_in drop_take)
  then show ?thesis
    using aes_unwrap_accepts [OF assms(2) _ assms(3), of "take (8 * n + 8) f" p] assms(1,4) by simp
qed

lemma decrypted_key_data:
  assumes "wpa_decrypt_eapol_key_data ptk f WPA_KEY_INFO_TYPE_HMAC_SHA1_AES = Inr (0, g)" and "32 \<le> length ptk"
    and "4 \<le> key_data_len f" "key_data_len f \<le> 344" and "KEY_FRAME_LEN + key_data_len f \<le> length f"
  shows "\<exists>p. slice KEY_FRAME_LEN (key_data_len f) f = key_wrap (aes_encrypt (slice 16 16 ptk)) p"
proof -
  obtain q where q: "key_data_len f = 8 * q" using decrypt_done(1) [OF assms(1)] by (auto simp: mod_eq_0_iff_dvd elim: dvdE)
  define n where "n = q - 1"
  have n: "key_data_len f = 8 * n + 8" "n \<le> 42" using assms(3,4) q by (auto simp: n_def)
  have "unat (word_of_nat (8 * n + 8) - 8 :: 16 word) = 8 * n" using n(2) by (rule data_length_16)
  then obtain p where p: "aes_unwrap (drop 16 ptk) n (drop KEY_FRAME_LEN f) = Inr (0, p)"
    using decrypt_done(2) [OF assms(1)] by (auto simp: n(1) simp del: of_nat_add of_nat_mult)
  show ?thesis
    using unwrapped_key [OF p _ n(2)] assms(2,5) n(1) by (auto simp: slice_def)
qed

text \<open>
  What only somebody who has the pairwise key can send: a message 3 that fits its length, with the right
  integrity code. What makes it fresh: a replay counter above the last one, and the nonce of message 1.
\<close>

definition msg_3_authentic :: "byte list \<Rightarrow> nat \<Rightarrow> supplicant_sm \<Rightarrow> bool" where
  "msg_3_authentic f n s \<longleftrightarrow> desc_type f = 2 \<and> info_4way_msg_3 (key_info f) \<and> KEY_FRAME_LEN + key_data_len f \<le> n
     \<and> mic_valid (sm_PTK s) f n"

definition msg_3_fresh :: "byte list \<Rightarrow> supplicant_sm \<Rightarrow> bool" where
  "msg_3_fresh f s \<longleftrightarrow> sm_Counter s < key_replay_counter f \<and> key_nonce f = sm_ANonce s"

definition data_wrapped :: "byte list \<Rightarrow> supplicant_sm \<Rightarrow> bool" where
  "data_wrapped f s \<longleftrightarrow> (key_data_len f \<le> 344 \<longrightarrow>
     (\<exists>p. slice KEY_FRAME_LEN (key_data_len f) f = key_wrap (aes_encrypt (slice 16 16 (sm_PTK s))) p))"

lemma msg_3_secure_means:
  assumes "eapol_3_of_4_security_ok f w = Inr ((ok, ies), w')"
  shows "ok \<Longrightarrow> sm_Counter (sm w) < key_replay_counter f \<and> key_nonce f = sm_ANonce (sm w)" and "\<not> ok \<Longrightarrow> w' = w"
  using assms
  by (auto simp: eapol_3_of_4_security_ok_def Let_def not_le split: if_splits option.splits)

text \<open>The three results of the check: 1 for a good message 3, -1 only for an authentic one, 0 for all else.\<close>

lemma msg_3_results:
  assumes "is_4way_msg_3 f n w = Inr (ret, g, ies, w')" and "sm_ok (sm w)" and "n \<le> 4096"
  shows "ret = 0 \<and> w' = w \<or> ret = -1 \<and> w' = w \<and> msg_3_authentic f n (sm w) \<and> data_wrapped f (sm w)
    \<or> ret = 1 \<and> msg_3_authentic f n (sm w) \<and> msg_3_fresh f (sm w) \<and> data_wrapped f (sm w)"
proof -
  have ptk: "length (sm_PTK (sm w)) = 64" using assms(2) by (simp add: sm_ok_def)
  consider "ret = 0" "w' = w" | h i ok where "desc_type f = 2" "info_4way_msg_3 (key_info f)" "KEY_FRAME_LEN + key_data_len f \<le> n"
      "4 \<le> key_data_len f" "eapol_key_frame_mic_ok (sm_PTK (sm w)) f n = Inr (True, h)"
      "wpa_decrypt_eapol_key_data (sm_PTK (sm w)) h WPA_KEY_INFO_TYPE_HMAC_SHA1_AES = Inr (0, i)"
      "eapol_3_of_4_security_ok i w = Inr ((ok, ies), w')" "ret = (if ok then 1 else -1)"
    using assms(1) by (auto simp: is_4way_msg_3_def not_less split: if_splits)
  then show ?thesis
  proof cases
    case 2
    note mic = mic_ok_valid [OF 2(5) _ assms(3)]
    have h: "h = f" "n \<le> length f" "mic_valid (sm_PTK (sm w)) f n" using mic ptk by simp_all
    note dec = 2(6) [unfolded h(1)]
    have same: "key_replay_counter i = key_replay_counter f" "key_nonce i = key_nonce f"
      using decrypt_done(3) [OF dec] by (simp_all add: key_replay_counter_def key_nonce_def)
    have wrapped: "data_wrapped f (sm w)"
      using decrypted_key_data [OF dec] ptk 2(3,4) h(2) by (auto simp: data_wrapped_def)
    show ?thesis
      using msg_3_secure_means [OF 2(7)] same h 2(1-3,8) wrapped
      by (cases ok) (simp_all add: msg_3_authentic_def msg_3_fresh_def)
  qed simp
qed

text \<open>
  A frame that is too short gives \<^verbatim>\<open>-EINVAL\<close>; one that is not authentic gives 0; an authentic one that is
  not fresh gives 0 or -1; and in all these cases the station's state is what it was.
\<close>

lemma waiting_for_msg_3:
  assumes "process_eapol_frame env f n w = Inr (r, w')" and "auth_state w = AUTH_STATE_4WAY_2_SENT"
    and "sm_ok (sm w)" and "n \<le> 4096"
  shows "n < KEY_FRAME_LEN \<Longrightarrow> r = -22 \<and> w' = w"
    and "KEY_FRAME_LEN \<le> n \<Longrightarrow> \<not> msg_3_authentic f n (sm w) \<Longrightarrow> r = 0 \<and> w' = w"
    and "KEY_FRAME_LEN \<le> n \<Longrightarrow> \<not> msg_3_fresh f (sm w) \<Longrightarrow> (r = 0 \<or> r = -1) \<and> w' = w"
    and "w' \<noteq> w \<Longrightarrow> data_wrapped f (sm w)"
proof -
  show "n < KEY_FRAME_LEN \<Longrightarrow> r = -22 \<and> w' = w" using assms(1) by (simp add: process_eapol_frame_def)
  have cases: "r = 0 \<and> w' = w \<or> r = -1 \<and> w' = w \<and> msg_3_authentic f n (sm w)
      \<or> msg_3_authentic f n (sm w) \<and> msg_3_fresh f (sm w) \<and> data_wrapped f (sm w)" if "KEY_FRAME_LEN \<le> n"
  proof (cases "r = 0 \<and> w' = w")
    case False
    with that have "expect_msg_3 env f n w = Inr (r, w')"
      using assms(1,2) by (auto simp: process_eapol_frame_def auth_state_defs split: if_splits)
    then obtain ret g ies v where v: "is_4way_msg_3 f n w = Inr (ret, g, ies, v)" "ret \<le> 0 \<Longrightarrow> r = ret \<and> w' = v"
      by (auto simp: expect_msg_3_def split: if_splits)
    show ?thesis using msg_3_results [OF v(1) assms(3,4)] v(2) by auto
  qed simp
  show "KEY_FRAME_LEN \<le> n \<Longrightarrow> \<not> msg_3_authentic f n (sm w) \<Longrightarrow> r = 0 \<and> w' = w"
    and "KEY_FRAME_LEN \<le> n \<Longrightarrow> \<not> msg_3_fresh f (sm w) \<Longrightarrow> (r = 0 \<or> r = -1) \<and> w' = w"
    using cases by auto
  have "KEY_FRAME_LEN \<le> n" if "w' \<noteq> w" using that assms(1) by (auto simp: process_eapol_frame_def split: if_splits)
  then show "w' \<noteq> w \<Longrightarrow> data_wrapped f (sm w)" using cases by auto
qed

end
