(* ===== verification/Dhcp_Packet.thy ===== *)
theory Dhcp_Packet
  imports Bytes
begin

text \<open>
  DHCP over UDP over IP in \<^verbatim>\<open>wlan-core-dhcp.c\<close>: the message and the headers around it as bytes in memory, the
  Internet checksum, building a packet and taking a received one apart. The host is little-endian;
  addresses are kept in network order, as the code does. Sockets are arguments.
\<close>

unbundle bit_operations_syntax

section \<open>Messages\<close>

record dhcp_message =
  dm_op :: byte
  dm_htype :: byte
  dm_hlen :: byte
  dm_hops :: byte
  dm_xid :: "32 word"
  dm_secs :: "byte list"
  dm_flags :: "byte list"
  dm_ciaddr :: "byte list"
  dm_yiaddr :: "byte list"
  dm_siaddr :: "byte list"
  dm_giaddr :: "byte list"
  dm_chaddr :: "byte list"
  dm_sname :: "byte list"
  dm_file :: "byte list"
  dm_cookie :: "byte list"
  dm_options :: "byte list"

definition DHCP_MESSAGE_LEN :: nat where "DHCP_MESSAGE_LEN = 548"
definition IP_LEN :: nat where "IP_LEN = 20"
definition UDP_LEN :: nat where "UDP_LEN = 8"
definition PACKET_LEN :: nat where "PACKET_LEN = 576"

lemmas packet_lens = DHCP_MESSAGE_LEN_def IP_LEN_def UDP_LEN_def PACKET_LEN_def

text \<open>The memory of a message, and the message in 548 bytes of memory.\<close>

definition message_bytes :: "dhcp_message \<Rightarrow> byte list" where
  "message_bytes m = [dm_op m, dm_htype m, dm_hlen m, dm_hops m] @ le32 (dm_xid m) @ dm_secs m @ dm_flags m
     @ dm_ciaddr m @ dm_yiaddr m @ dm_siaddr m @ dm_giaddr m @ dm_chaddr m @ dm_sname m @ dm_file m @ dm_cookie m @ dm_options m"

definition message_of :: "byte list \<Rightarrow> dhcp_message" where
  "message_of b = \<lparr>dm_op = b ! 0, dm_htype = b ! 1, dm_hlen = b ! 2, dm_hops = b ! 3,
     dm_xid = word_of_nat (get_le (slice 4 4 b)), dm_secs = slice 8 2 b, dm_flags = slice 10 2 b, dm_ciaddr = slice 12 4 b,
     dm_yiaddr = slice 16 4 b, dm_siaddr = slice 20 4 b, dm_giaddr = slice 24 4 b, dm_chaddr = slice 28 16 b,
     dm_sname = slice 44 64 b, dm_file = slice 108 128 b, dm_cookie = slice 236 4 b, dm_options = slice 240 308 b\<rparr>"

definition message_ok :: "dhcp_message \<Rightarrow> bool" where
  "message_ok m \<longleftrightarrow> length (dm_secs m) = 2 \<and> length (dm_flags m) = 2 \<and> length (dm_ciaddr m) = 4 \<and> length (dm_yiaddr m) = 4
     \<and> length (dm_siaddr m) = 4 \<and> length (dm_giaddr m) = 4 \<and> length (dm_chaddr m) = 16 \<and> length (dm_sname m) = 64
     \<and> length (dm_file m) = 128 \<and> length (dm_cookie m) = 4 \<and> length (dm_options m) = 308"

definition DHCP_MAGIC :: "byte list" where
  "DHCP_MAGIC = be_bytes 4 0x63825363"

section \<open>The Internet checksum\<close>

text \<open>
  The sum of the 16-bit words of the host, with a last odd byte as a low byte. For the lengths that occur
  it stays below \<open>2 ^ 31\<close>, so the \<^verbatim>\<open>int32_t\<close> of the code is a natural number.
\<close>

fun sum_words :: "nat \<Rightarrow> byte list \<Rightarrow> nat" where
  "sum_words s (a # b # bs) = sum_words (s + get_le [a, b]) bs"
| "sum_words s [a] = s + unat a"
| "sum_words s [] = s"

function fold_sum :: "nat \<Rightarrow> nat" where
  "fold_sum s = (if s div 65536 \<noteq> 0 then fold_sum (s mod 65536 + s div 65536) else s)"
  by auto
termination
proof (relation "measure id")
  fix s :: nat
  assume "s div 65536 \<noteq> 0"
  moreover have "s = 65536 * (s div 65536) + s mod 65536" by simp
  ultimately show "(s mod 65536 + s div 65536, s) \<in> measure id" by (simp; linarith)
qed simp

declare fold_sum.simps [simp del]

definition checksum :: "byte list \<Rightarrow> 16 word" where
  "checksum bs = NOT (word_of_nat (fold_sum (sum_words 0 bs)))"

section \<open>Headers\<close>

text \<open>Members from values; those the code leaves zero are zero here.\<close>

definition ip_header :: "byte \<Rightarrow> byte list \<Rightarrow> byte \<Rightarrow> byte list \<Rightarrow> byte list \<Rightarrow> byte list \<Rightarrow> byte list" where
  "ip_header version_ihl tot_len ttl check saddr daddr =
     [version_ihl, 0] @ tot_len @ [0, 0] @ [0, 0] @ [ttl, 17] @ check @ saddr @ daddr"

definition udp_header :: "byte list \<Rightarrow> byte list \<Rightarrow> byte list \<Rightarrow> byte list \<Rightarrow> byte list" where
  "udp_header source dest len check = source @ dest @ len @ check"

text \<open>
  The header with only protocol, addresses and, in the place of the length, that of UDP serves as the
  pseudo header of the UDP checksum; version 4, five words of header, time to live 64.
\<close>

definition pseudo_header :: "byte list \<Rightarrow> byte list \<Rightarrow> byte list \<Rightarrow> byte list" where
  "pseudo_header udp_len saddr daddr = ip_header 0 udp_len 0 [0, 0] saddr daddr"

definition udp_packet :: "byte list \<Rightarrow> byte list \<Rightarrow> nat \<Rightarrow> byte list \<Rightarrow> nat \<Rightarrow> byte list" where
  "udp_packet payload source_ip source_port dest_ip dest_port =
    (let udp_len = be16 (UDP_LEN + DHCP_MESSAGE_LEN);
         udp_check = le16 (checksum (pseudo_header udp_len source_ip dest_ip
           @ udp_header (be16 source_port) (be16 dest_port) udp_len [0, 0] @ payload));
         tot_len = be16 PACKET_LEN;
         ip_check = le16 (checksum (ip_header 0x45 tot_len 64 [0, 0] source_ip dest_ip))
     in ip_header 0x45 tot_len 64 ip_check source_ip dest_ip
        @ udp_header (be16 source_port) (be16 dest_port) udp_len udp_check @ payload)"

text \<open>What the socket calls answer; \<open>raw_packet\<close> also gives the packet that was sent, if one was.\<close>

record send_env =
  se_socket :: bool
  se_bind :: bool
  se_sendto :: "byte list \<Rightarrow> int"

definition raw_packet :: "send_env \<Rightarrow> dhcp_message \<Rightarrow> byte list \<Rightarrow> nat \<Rightarrow> byte list \<Rightarrow> nat \<Rightarrow> int \<times> byte list option" where
  "raw_packet env payload source_ip source_port dest_ip dest_port =
    (if \<not> se_socket env then (-1, None)
     else if \<not> se_bind env then (-1, None)
     else let packet = udp_packet (message_bytes payload) source_ip source_port dest_ip dest_port
       in (se_sendto env packet, Some packet))"

section \<open>Receiving\<close>

text \<open>
  \<open>received\<close> is what \<^verbatim>\<open>read\<close> puts into the zeroed buffer of one packet (\<open>None\<close> if it fails). The result is the
  length of the message, or \<^verbatim>\<open>-1\<close> or \<^verbatim>\<open>-2\<close>, with the memory of the payload afterwards: a short message is
  copied over the start of what was there. The number of bytes to copy is a \<^verbatim>\<open>size_t\<close>.
\<close>

definition CLIENT_PORT :: nat where "CLIENT_PORT = 68"
definition SERVER_PORT :: nat where "SERVER_PORT = 67"

definition copy_size :: "int \<Rightarrow> nat" where
  "copy_size bytes = unat (word_of_int (bytes - int (IP_LEN + UDP_LEN)) :: 64 word)"

definition get_raw_packet :: "byte list option \<Rightarrow> byte list \<Rightarrow> (int \<times> byte list) res" where
  "get_raw_packet received payload = (case received of
     None \<Rightarrow> Inr (-1, payload)
   | Some rd \<Rightarrow>
     let packet = rd @ replicate (PACKET_LEN - length rd) 0;
         bytes = get_be (slice 2 2 packet);
         udp_len = slice 24 2 packet
     in if length rd < IP_LEN + UDP_LEN then Inr (-2, payload)
        else if length rd < bytes then Inr (-2, payload)
        else if packet ! 9 \<noteq> 17 \<or> drop_bit 4 (packet ! 0) \<noteq> 4 \<or> packet ! 0 AND 0x0f \<noteq> 5
            \<or> slice 22 2 packet \<noteq> be16 CLIENT_PORT \<or> bytes > PACKET_LEN
            \<or> (word_of_nat (get_be udp_len) :: 16 word) \<noteq> word_of_int (int bytes - int IP_LEN)
          then Inr (-2, payload)
        else if slice 10 2 packet \<noteq> le16 (checksum (take 10 packet @ [0, 0] @ slice 12 8 packet)) then Inr (-1, payload)
        else if slice 26 2 packet \<noteq> [0, 0]
            \<and> slice 26 2 packet \<noteq> le16 (checksum (take bytes (pseudo_header udp_len (slice 12 4 packet) (slice 16 4 packet)
                @ slice 20 6 packet @ [0, 0] @ drop 28 packet)))
          then Inr (-2, payload)
        else rbind (read_bytes packet 28 (copy_size (int bytes))) (\<lambda>bs.
             rbind (write_bytes payload 0 bs) (\<lambda>payload.
             if slice 236 4 payload \<noteq> DHCP_MAGIC then Inr (-2, payload)
             else Inr (int bytes - int (IP_LEN + UDP_LEN), payload))))"

section \<open>A packet that is built is received\<close>

lemma get_le32: "word_of_nat (get_le (le32 w)) = w"
proof -
  define x where "x = unat w"
  have "unat w < 2 ^ LENGTH(32)" by (rule unsigned_less)
  then have small: "unat w mod 4294967296 = unat w" by simp
  have byte: "unat (ucast (drop_bit k w) :: byte) = x div 2 ^ k mod 256" for k
    by (simp add: x_def unsigned_ucast_eq unsigned_drop_bit_eq take_bit_eq_mod) (simp add: drop_bit_eq_div small)
  have "x < 4294967296" using \<open>unat w < 2 ^ LENGTH(32)\<close> by (simp add: x_def)
  then have top: "x div 16777216 mod 256 = x div 16777216" by simp
  have halves: "x div 65536 = x div 256 div 256" "x div 16777216 = x div 256 div 256 div 256"
    by (simp_all add: div_mult2_eq [symmetric])
  have "x = x mod 256 + 256 * (x div 256 mod 256 + 256 * (x div 65536 mod 256 + 256 * (x div 16777216)))"
  proof -
    have "256 * a + r = y \<Longrightarrow> 256 * b + s = a \<Longrightarrow> 256 * c + t = b \<Longrightarrow> y = r + 256 * (s + 256 * (t + 256 * c))"
      for a b c r s t y :: nat by simp
    from this [OF mult_div_mod_eq mult_div_mod_eq mult_div_mod_eq] show ?thesis unfolding halves .
  qed
  then have "get_le (le32 w) = x"
    using byte [of 0] byte [of 8] byte [of 16] byte [of 24] top by (simp add: get_le_def get_be_def le32_def)
  then show ?thesis by (simp add: x_def)
qed

lemma message_of_bytes:
  assumes "message_ok m"
  shows "message_of (message_bytes m) = m" and "length (message_bytes m) = DHCP_MESSAGE_LEN"
  using assms get_le32 [of "dm_xid m"]
  by (simp_all add: message_of_def message_bytes_def message_ok_def slice_def DHCP_MESSAGE_LEN_def)

lemma ip_fields:
  assumes "length tot_len = 2" "length check = 2" "length saddr = 4" "length daddr = 4"
  shows "slice 2 2 (ip_header v tot_len ttl check saddr daddr @ r) = tot_len"
    "(ip_header v tot_len ttl check saddr daddr @ r) ! 9 = 17" "(ip_header v tot_len ttl check saddr daddr @ r) ! 0 = v"
    "slice 10 2 (ip_header v tot_len ttl check saddr daddr @ r) = check"
    "slice 12 4 (ip_header v tot_len ttl check saddr daddr @ r) = saddr"
    "slice 16 4 (ip_header v tot_len ttl check saddr daddr @ r) = daddr"
    "take 10 (ip_header v tot_len ttl check saddr daddr @ r) @ [0, 0] @ slice 12 8 (ip_header v tot_len ttl check saddr daddr @ r)
      = ip_header v tot_len ttl [0, 0] saddr daddr"
    "length (ip_header v tot_len ttl check saddr daddr) = 20"
  using assms by (simp_all add: ip_header_def slice_def nth_append)

lemma udp_fields:
  assumes "length h = 20" "length source = 2" "length dest = 2" "length len = 2" "length check = 2"
  shows "slice 22 2 (h @ udp_header source dest len check @ r) = dest" "slice 24 2 (h @ udp_header source dest len check @ r) = len"
    "slice 26 2 (h @ udp_header source dest len check @ r) = check"
    "slice 20 6 (h @ udp_header source dest len check @ r) @ [0, 0] @ drop 28 (h @ udp_header source dest len check @ r)
      = udp_header source dest len [0, 0] @ r"
    "drop 28 (h @ udp_header source dest len check @ r) = r"
  using assms by (simp_all add: udp_header_def slice_def)

lemma udp_packet_received:
  assumes "length payload = DHCP_MESSAGE_LEN" and "slice 236 4 payload = DHCP_MAGIC"
    and "length source_ip = 4" and "length dest_ip = 4" and "length old = DHCP_MESSAGE_LEN"
  shows "get_raw_packet (Some (udp_packet payload source_ip source_port dest_ip CLIENT_PORT)) old
     = Inr (int DHCP_MESSAGE_LEN, payload)"
proof -
  define udp_len where "udp_len = be16 556"
  define udp_check where "udp_check = le16 (checksum (pseudo_header udp_len source_ip dest_ip
           @ udp_header (be16 source_port) (be16 CLIENT_PORT) udp_len [0, 0] @ payload))"
  define ip_check where "ip_check = le16 (checksum (ip_header 0x45 (be16 576) 64 [0, 0] source_ip dest_ip))"
  define h where "h = ip_header 0x45 (be16 576) 64 ip_check source_ip dest_ip"
  define u where "u = udp_header (be16 source_port) (be16 CLIENT_PORT) udp_len udp_check @ payload"
  have packet: "udp_packet payload source_ip source_port dest_ip CLIENT_PORT = h @ u"
    by (simp add: udp_packet_def Let_def packet_lens h_def u_def ip_check_def udp_check_def udp_len_def)
  have sizes: "length ip_check = 2" "length udp_check = 2" "length udp_len = 2"
    by (simp_all add: ip_check_def udp_check_def udp_len_def)
  have ip: "slice 2 2 (h @ u) = be16 576" "(h @ u) ! 9 = 17" "(h @ u) ! 0 = 0x45" "slice 10 2 (h @ u) = ip_check"
    "slice 12 4 (h @ u) = source_ip" "slice 16 4 (h @ u) = dest_ip"
    "take 10 (h @ u) @ [0, 0] @ slice 12 8 (h @ u) = ip_header 0x45 (be16 576) 64 [0, 0] source_ip dest_ip" "length h = 20"
    unfolding h_def by (rule ip_fields; simp add: sizes assms)+
  have udp: "slice 22 2 (h @ u) = be16 CLIENT_PORT" "slice 24 2 (h @ u) = udp_len" "slice 26 2 (h @ u) = udp_check"
    "slice 20 6 (h @ u) @ [0, 0] @ drop 28 (h @ u) = udp_header (be16 source_port) (be16 CLIENT_PORT) udp_len [0, 0] @ payload"
    "drop 28 (h @ u) = payload"
    unfolding u_def by (rule udp_fields; simp add: sizes ip(8))+
  have len: "length (h @ u) = PACKET_LEN" using ip(8) assms(1) by (simp add: u_def packet_lens udp_header_def sizes)
  have total: "get_be (be16 576) = 576" "get_be udp_len = 556" by (simp_all add: get_be16 udp_len_def)
  have copy: "copy_size 576 = 548" by (simp add: copy_size_def packet_lens)
  have sum: "le16 (checksum (take 576 (pseudo_header udp_len source_ip dest_ip
      @ slice 20 6 (h @ u) @ [0, 0] @ drop 28 (h @ u)))) = udp_check"
    unfolding udp(4) using ip_fields(8) [OF sizes(3) _ assms(3,4), of "[0, 0]" 0 0] assms(1)
    by (simp add: udp_check_def pseudo_header_def packet_lens udp_header_def sizes)
  have get: "read_bytes (h @ u) 28 548 = Inr payload"
    using len assms(1) udp(5) by (simp add: read_bytes_def packet_lens del: drop_append)
  have put: "write_bytes old 0 payload = Inr payload"
    using assms(1,5) by (simp add: write_bytes_def)
  define p where "p = h @ u"
  note facts = ip(1-6) ip(7) [unfolded append_Cons append_Nil] udp(1-3) sum [unfolded append_Cons append_Nil] get len
  show ?thesis
    unfolding packet p_def [symmetric]
    using put assms(2)
    by (simp add: get_raw_packet_def facts [folded p_def] Let_def total copy packet_lens ip_check_def [symmetric] del: take_append)
qed

section \<open>What is copied\<close>

lemma copy_size_mod: "int (copy_size (int L)) = (int L - 28) mod 2 ^ 64"
proof -
  have "int (copy_size (int L)) = uint (word_of_int (int L - 28) :: 64 word)"
    unfolding copy_size_def packet_lens by (simp only: uint_nat) simp
  then show ?thesis by (simp only: uint_word_of_int) simp
qed

text \<open>Below the length of the headers the number of bytes to copy wraps.\<close>

lemma copy_size_small: "L < 28 \<Longrightarrow> 2 ^ 63 \<le> copy_size (int L)"
proof -
  assume "L < 28"
  have "int (copy_size (int L)) = (int L - 28) mod 2 ^ 64" by (rule copy_size_mod)
  also have "\<dots> = (int L - 28 + 2 ^ 64) mod 2 ^ 64" by (rule mod_add_self2 [symmetric])
  also have "\<dots> = int L - 28 + 2 ^ 64" using \<open>L < 28\<close> by (intro mod_pos_pos_trivial) simp_all
  finally show ?thesis by simp
qed

lemma copy_size_rest: "28 \<le> L \<Longrightarrow> L \<le> 576 \<Longrightarrow> copy_size (int L) = L - 28"
proof -
  assume L: "28 \<le> L" "L \<le> 576"
  have "int (copy_size (int L)) = (int L - 28) mod 2 ^ 64" by (rule copy_size_mod)
  also have "\<dots> = int L - 28" using L by (intro mod_pos_pos_trivial) simp_all
  finally show ?thesis using L by simp
qed

text \<open>
  A message that is taken: the packet was read, and gives the first \<open>k\<close> bytes of the message, as many as its IP
  header claims; the rest is what the memory held before.
\<close>

lemma get_raw_packet_copies:
  assumes "get_raw_packet received payload = Inr (len, m)" and "0 \<le> len" and "\<And>rd. received = Some rd \<Longrightarrow> length rd \<le> PACKET_LEN"
  shows "\<exists>rd k. received = Some rd \<and> len = int k \<and> get_be (slice 2 2 rd) = 28 + k \<and> 28 + k \<le> length rd
     \<and> m = slice 28 k rd @ drop k payload \<and> slice 236 4 m = DHCP_MAGIC"
proof -
  obtain rd where rd: "received = Some rd" using assms(1,2) by (cases received) (auto simp: get_raw_packet_def)
  define packet where "packet = rd @ replicate (PACKET_LEN - length rd) 0"
  define L where "L = get_be (slice 2 2 packet)"
  obtain bs where len: "28 \<le> length rd" "L \<le> length rd" "L \<le> 576" and bs: "read_bytes packet 28 (copy_size (int L)) = Inr bs"
    and m: "write_bytes payload 0 bs = Inr m" and magic: "slice 236 4 m = DHCP_MAGIC" and ret: "len = int L - 28"
    using assms(1,2) unfolding rd get_raw_packet_def option.case packet_def [symmetric] Let_def L_def [symmetric]
    by (auto simp: packet_lens not_less split: if_split_asm)
  have plen: "length packet = 576" using assms(3) [OF rd] by (simp add: packet_def packet_lens)
  have L: "28 \<le> L"
  proof (rule ccontr)
    assume "\<not> 28 \<le> L"
    then have "2 ^ 63 \<le> copy_size (int L)" using copy_size_small by simp
    then show False using bs plen by (simp add: read_bytes_def)
  qed
  have "slice 2 2 packet = slice 2 2 rd" using len(1) by (simp add: packet_def slice_def)
  then have rdL: "get_be (slice 2 2 rd) = L" by (simp add: L_def)
  have "bs = slice 28 (L - 28) packet"
    using bs copy_size_rest [OF L len(3)] by (simp add: read_bytes_def slice_def split: if_split_asm)
  then have "bs = slice 28 (L - 28) rd" using len L by (simp add: packet_def slice_def)
  moreover have "length (slice 28 (L - 28) rd) = L - 28" using len L by (simp add: slice_def)
  ultimately have "m = slice 28 (L - 28) rd @ drop (L - 28) payload" using m by (auto simp: write_bytes_Inr)
  then show ?thesis using rd ret rdL L len magic by (intro exI [of _ rd] exI [of _ "L - 28"]) simp
qed

section \<open>A packet that ends inside its headers\<close>

text \<open>
  The total length of the IP header is compared with what was read, but not with the length of the
  headers: if it is smaller, the number of bytes to copy wraps.
\<close>

lemma copy_wraps: "20 \<le> L \<Longrightarrow> L < 28 \<Longrightarrow> 2 ^ 63 \<le> copy_size (int L)"
proof -
  assume "20 \<le> L" "L < 28"
  then have "int L - 28 = - int (28 - L)" "0 < 28 - L" "28 - L \<le> 8" by simp_all
  then have "(word_of_int (int L - 28) :: 64 word) = - word_of_nat (28 - L)" by simp
  then have "copy_size (int L) = unat (- word_of_nat (28 - L) :: 64 word)" by (simp add: copy_size_def packet_lens)
  moreover have "28 - L \<in> {1, 2, 3, 4, 5, 6, 7, 8}" using \<open>20 \<le> L\<close> \<open>L < 28\<close> by auto
  ultimately show ?thesis by (auto simp: unsigned_minus_1_eq_mask mask_eq_exp_minus_1)
qed

lemma short_total_overruns:
  assumes "20 \<le> L" and "L < 28" and "length source_ip = 4" and "length dest_ip = 4" and "length source = 2"
    and "length rest \<le> DHCP_MESSAGE_LEN"
  shows "get_raw_packet (Some (ip_header 0x45 (be16 L) ttl (le16 (checksum (ip_header 0x45 (be16 L) ttl [0, 0] source_ip dest_ip)))
      source_ip dest_ip @ udp_header source (be16 CLIENT_PORT) (be16 (L - 20)) [0, 0] @ rest)) payload = Inl Out_Of_Bounds"
proof -
  define h where "h = ip_header 0x45 (be16 L) ttl (le16 (checksum (ip_header 0x45 (be16 L) ttl [0, 0] source_ip dest_ip))) source_ip dest_ip"
  define u where "u = udp_header source (be16 CLIENT_PORT) (be16 (L - 20)) [0, 0] @ rest"
  define z where "z = replicate (PACKET_LEN - length (h @ u)) (0 :: byte)"
  define p where "p = h @ u @ z"
  have len: "length h = 20" "length u = 8 + length rest" using assms(3-5) by (simp_all add: h_def u_def ip_fields udp_header_def)
  have ip: "slice 2 2 p = be16 L" "p ! 9 = 17" "p ! 0 = 0x45" "slice 12 4 p = source_ip" "slice 16 4 p = dest_ip"
    "slice 10 2 p = le16 (checksum (ip_header 0x45 (be16 L) ttl [0, 0] source_ip dest_ip))"
    "take 10 p @ [0, 0] @ slice 12 8 p = ip_header 0x45 (be16 L) ttl [0, 0] source_ip dest_ip"
    unfolding p_def h_def by (rule ip_fields; simp add: assms)+
  have udp: "slice 22 2 p = be16 CLIENT_PORT" "slice 24 2 p = be16 (L - 20)" "slice 26 2 p = [0, 0]"
    unfolding p_def u_def append_assoc by (rule udp_fields; simp add: assms len)+
  have total: "get_be (be16 L) = L" "get_be (be16 (L - 20)) = L - 20" using assms(2) by (simp_all add: get_be16)
  have words: "(word_of_nat (L - 20) :: 16 word) = word_of_int (int L - 20)" using assms(1) by (simp add: of_nat_diff)
  have over: "read_bytes p 28 (copy_size (int L)) = Inl Out_Of_Bounds"
    using copy_wraps [OF assms(1,2)] len assms(6) by (simp add: read_bytes_def p_def z_def packet_lens)
  have mem: "(h @ u) @ replicate (PACKET_LEN - length (h @ u)) 0 = p" by (simp add: p_def z_def)
  have enough: "\<not> length (h @ u) < IP_LEN + UDP_LEN" "\<not> length (h @ u) < L" "\<not> PACKET_LEN < L"
    using len assms(2) by (simp_all add: packet_lens)
  have "get_raw_packet (Some (h @ u)) payload = Inl Out_Of_Bounds"
    unfolding get_raw_packet_def option.case mem Let_def ip(1,4-7) udp total
    using enough words over by (simp add: ip(2,3) packet_lens)
  then show ?thesis by (simp add: h_def u_def)
qed

end
