(* ===== verification/Dhcp_Options.thy ===== *)
theory Dhcp_Options
  imports Dhcp_Packet
begin

text \<open>
  The options of DHCP messages in \<^verbatim>\<open>wlan-core-dhcp.c\<close>: finding the end of the options, adding one, looking one
  up, and the discover message the client sends. Lookup is related to the list of options a field
  encodes.
\<close>

unbundle bit_operations_syntax

section \<open>Codes and the table of options\<close>

definition DHCP_PADDING :: byte where "DHCP_PADDING = 0x00"
definition DHCP_REQUESTED_IP :: byte where "DHCP_REQUESTED_IP = 0x32"
definition DHCP_OPTION_OVER :: byte where "DHCP_OPTION_OVER = 0x34"
definition DHCP_MESSAGE_TYPE :: byte where "DHCP_MESSAGE_TYPE = 0x35"
definition DHCP_SERVER_ID :: byte where "DHCP_SERVER_ID = 0x36"
definition DHCP_PARAM_REQ :: byte where "DHCP_PARAM_REQ = 0x37"
definition DHCP_VENDOR :: byte where "DHCP_VENDOR = 0x3c"
definition DHCP_CLIENT_ID :: byte where "DHCP_CLIENT_ID = 0x3d"
definition DHCP_END :: byte where "DHCP_END = 0xff"

lemmas dhcp_codes = DHCP_PADDING_def DHCP_REQUESTED_IP_def DHCP_OPTION_OVER_def DHCP_MESSAGE_TYPE_def
  DHCP_SERVER_ID_def DHCP_PARAM_REQ_def DHCP_VENDOR_def DHCP_CLIENT_ID_def DHCP_END_def

definition OPTION_REQ :: nat where "OPTION_REQ = 0x10"
definition TYPE_MASK :: nat where "TYPE_MASK = 0x0f"

text \<open>Flags and code, without the names and the terminator; the lengths of the types, by number.\<close>

definition dhcp_options :: "(nat \<times> byte) list" where
  "dhcp_options = [(1, 0x32), (8, 0x33), (5, 0x35), (1, 0x36), (3, 0x38)]"

definition option_lengths :: "nat list" where
  "option_lengths = [0, 4, 8, 1, 1, 1, 2, 2, 4, 4]"

section \<open>Adding options\<close>

text \<open>The position of the end mark; the field is the last member of the message, so nothing lies behind it.\<close>

function end_from :: "byte list \<Rightarrow> nat \<Rightarrow> nat res" where
  "end_from opts i = rbind (nth_res opts i) (\<lambda>b.
     if b = DHCP_END then Inr i
     else if b = DHCP_PADDING then end_from opts (i + 1)
     else rbind (nth_res opts (i + 1)) (\<lambda>n. end_from opts (i + unat n + 2)))"
  by auto
termination
  by (relation "measure (\<lambda>(opts, i). length opts - i)") (auto simp: nth_res_def split: if_splits)

declare end_from.simps [simp del]

definition end_option :: "byte list \<Rightarrow> nat res" where
  "end_option opts = end_from opts 0"

text \<open>An option is its code, its length and that many bytes, read through a pointer.\<close>

definition add_option_string :: "byte list \<Rightarrow> byte list \<Rightarrow> (nat \<times> byte list) res" where
  "add_option_string opts string = rbind (end_option opts) (\<lambda>e. rbind (nth_res string 1) (\<lambda>n.
     if e + unat n + 2 + 1 \<ge> 308 then Inr (0, opts)
     else rbind (read_bytes string 0 (unat n + 2)) (\<lambda>bs. rbind (write_bytes opts e bs) (\<lambda>opts.
          rbind (upd_res opts (e + unat n + 2) DHCP_END) (\<lambda>opts. Inr (unat n + 2, opts))))))"

definition option_length :: "byte \<Rightarrow> nat" where
  "option_length code = foldl (\<lambda>len (flags, c). if c = code then option_lengths ! (flags mod 16) else len) 0 dhcp_options"

definition add_simple_option :: "byte list \<Rightarrow> byte \<Rightarrow> 32 word \<Rightarrow> (nat \<times> byte list) res" where
  "add_simple_option opts code data = (let len = option_length code
     in if len = 0 then Inr (0, opts)
        else add_option_string opts ([code, word_of_nat len] @ take len (le32 data)))"

section \<open>The messages the client sends\<close>

definition DHCPDISCOVER :: byte where "DHCPDISCOVER = 1"
definition DHCPOFFER :: byte where "DHCPOFFER = 2"

record dhcp_config =
  clientid :: "byte list option"
  hostname :: "byte list option"
  arp :: "byte list"

definition empty_message :: dhcp_message where
  "empty_message = message_of (replicate DHCP_MESSAGE_LEN 0)"

text \<open>\<^verbatim>\<open>add_option_string\<close> and \<^verbatim>\<open>add_simple_option\<close> on a message; their result is not looked at.\<close>

definition with_option :: "byte list \<Rightarrow> dhcp_message \<Rightarrow> dhcp_message res" where
  "with_option string m = rbind (add_option_string (dm_options m) string) (\<lambda>(_, opts). Inr (m\<lparr>dm_options := opts\<rparr>))"

definition with_simple_option :: "byte \<Rightarrow> 32 word \<Rightarrow> dhcp_message \<Rightarrow> dhcp_message res" where
  "with_simple_option code data m =
     rbind (add_simple_option (dm_options m) code data) (\<lambda>(_, opts). Inr (m\<lparr>dm_options := opts\<rparr>))"

definition init_header :: "byte \<Rightarrow> dhcp_message res" where
  "init_header type =
    (let m = empty_message;
         m = (if type = DHCPDISCOVER then m\<lparr>dm_op := 1\<rparr> else if type = DHCPOFFER then m\<lparr>dm_op := 2\<rparr> else m);
         m = m\<lparr>dm_htype := 1, dm_hlen := 6, dm_cookie := DHCP_MAGIC, dm_options := (dm_options m)[0 := DHCP_END]\<rparr>
     in with_simple_option DHCP_MESSAGE_TYPE (ucast type) m)"

definition vendor_id :: "byte list" where
  "vendor_id = [DHCP_VENDOR, 20] @ map of_char ''udhcp blts-wlan-core'' @ [0]"

definition init_packet :: "dhcp_config \<Rightarrow> byte \<Rightarrow> dhcp_message res" where
  "init_packet config type =
    rbind (init_header type) (\<lambda>m. rbind (read_bytes (arp config) 0 6) (\<lambda>mac.
    let m = m\<lparr>dm_chaddr := mac @ drop 6 (dm_chaddr m)\<rparr>
    in rbind (case clientid config of None \<Rightarrow> Inr m | Some s \<Rightarrow> with_option s m) (\<lambda>m.
       rbind (case hostname config of None \<Rightarrow> Inr m | Some s \<Rightarrow> with_option s m) (\<lambda>m.
       with_option vendor_id m))))"

text \<open>The codes of the table whose flags ask for it, written one by one.\<close>

fun request_loop :: "(nat \<times> byte) list \<Rightarrow> nat \<Rightarrow> nat \<Rightarrow> byte list \<Rightarrow> (nat \<times> byte list) res" where
  "request_loop [] e len opts = Inr (len, opts)"
| "request_loop ((flags, code) # os) e len opts = (if bit flags 4
     then rbind (upd_res opts (e + 2 + len) code) (\<lambda>opts. request_loop os e (len + 1) opts)
     else request_loop os e len opts)"

definition add_requests :: "dhcp_message \<Rightarrow> dhcp_message res" where
  "add_requests m = rbind (end_option (dm_options m)) (\<lambda>e.
     rbind (upd_res (dm_options m) e DHCP_PARAM_REQ) (\<lambda>opts.
     rbind (request_loop dhcp_options e 0 opts) (\<lambda>(len, opts).
     rbind (upd_res opts (e + 1) (word_of_nat len)) (\<lambda>opts.
     rbind (upd_res opts (e + 2 + len) DHCP_END) (\<lambda>opts. Inr (m\<lparr>dm_options := opts\<rparr>))))))"

definition discover_message :: "dhcp_config \<Rightarrow> 32 word \<Rightarrow> 32 word \<Rightarrow> dhcp_message res" where
  "discover_message config xid requested =
    rbind (init_packet config DHCPDISCOVER) (\<lambda>m. let m = m\<lparr>dm_xid := xid\<rparr> in
    rbind (if requested \<noteq> 0 then with_simple_option DHCP_REQUESTED_IP requested m else Inr m) (\<lambda>m.
    add_requests m))"

definition send_discover :: "send_env \<Rightarrow> dhcp_config \<Rightarrow> 32 word \<Rightarrow> 32 word \<Rightarrow> (int \<times> byte list option) res" where
  "send_discover env config xid requested = rbind (discover_message config xid requested) (\<lambda>m.
     Inr (raw_packet env m (replicate 4 0) CLIENT_PORT (replicate 4 0xff) SERVER_PORT))"

section \<open>Looking options up\<close>

text \<open>
  The three fields options can be in, with their offsets in the message and their lengths; the result is
  an offset in the message. Reading past a field reads the next one; past the message it is a fault.
\<close>

datatype option_field = OPTION_FIELD | FILE_FIELD | SNAME_FIELD

fun field_start :: "option_field \<Rightarrow> nat" where
  "field_start OPTION_FIELD = 240"
| "field_start FILE_FIELD = 108"
| "field_start SNAME_FIELD = 44"

fun field_length :: "option_field \<Rightarrow> nat" where
  "field_length OPTION_FIELD = 308"
| "field_length FILE_FIELD = 128"
| "field_length SNAME_FIELD = 64"

fun fields_left :: "option_field \<Rightarrow> nat" where
  "fields_left OPTION_FIELD = 2"
| "fields_left FILE_FIELD = 1"
| "fields_left SNAME_FIELD = 0"

function get_option_loop :: "byte list \<Rightarrow> byte \<Rightarrow> option_field \<Rightarrow> byte \<Rightarrow> nat \<Rightarrow> nat option res" where
  "get_option_loop m code fld over i =
    (let start = field_start fld; len = field_length fld
     in if i \<ge> len then Inr None
        else rbind (nth_res m (start + i)) (\<lambda>c.
          if c = code then rbind (nth_res m (start + i + 1)) (\<lambda>n.
            if i + 1 + unat n \<ge> len then Inr None else Inr (Some (start + i + 2)))
          else if c = DHCP_PADDING then get_option_loop m code fld over (i + 1)
          else if c = DHCP_OPTION_OVER then rbind (nth_res m (start + i + 1)) (\<lambda>n.
            if i + 1 + unat n \<ge> len then Inr None
            else rbind (nth_res m (start + i + 3)) (\<lambda>over.
                 rbind (nth_res m (start + 1)) (\<lambda>n. get_option_loop m code fld over (i + unat n + 2))))
          else if c = DHCP_END then
            (if fld = OPTION_FIELD \<and> bit over 0 then get_option_loop m code FILE_FIELD over 0
             else if fld = FILE_FIELD \<and> bit over 1 then get_option_loop m code SNAME_FIELD over 0
             else Inr None)
          else rbind (nth_res m (start + i + 1)) (\<lambda>n. get_option_loop m code fld over (i + unat n + 2))))"
  by auto
termination
  by (relation "measures [\<lambda>(m, code, fld, over, i). fields_left fld, \<lambda>(m, code, fld, over, i). field_length fld - i]") auto

declare get_option_loop.simps [simp del]

definition get_option :: "byte list \<Rightarrow> byte \<Rightarrow> nat option res" where
  "get_option m code = get_option_loop m code OPTION_FIELD 0 0"

section \<open>Fields that encode options\<close>

definition encode_option :: "byte \<times> byte list \<Rightarrow> byte list" where
  "encode_option opt = (case opt of (c, d) \<Rightarrow> [c, word_of_nat (length d)] @ d)"

definition encode_options :: "(byte \<times> byte list) list \<Rightarrow> byte list" where
  "encode_options xs = concat (map encode_option xs)"

definition opt_ok :: "byte \<times> byte list \<Rightarrow> bool" where
  "opt_ok opt \<longleftrightarrow> fst opt \<noteq> DHCP_PADDING \<and> fst opt \<noteq> DHCP_END \<and> length (snd opt) < 256"

definition holds_options :: "byte list \<Rightarrow> (byte \<times> byte list) list \<Rightarrow> bool" where
  "holds_options opts xs \<longleftrightarrow> length opts = 308 \<and> list_all opt_ok xs \<and> (\<exists>rest. opts = encode_options xs @ DHCP_END # rest)"

lemma encode_options_simps [simp]:
  "encode_options [] = []" "encode_options (x # xs) = encode_option x @ encode_options xs"
  "encode_options (xs @ ys) = encode_options xs @ encode_options ys"
  by (simp_all add: encode_options_def)

lemma length_encode_option [simp]: "length (encode_option opt) = length (snd opt) + 2"
  by (cases opt) (simp add: encode_option_def)

text \<open>Reading code and length of an option in the middle of a list.\<close>

lemma option_at:
  assumes "opt_ok opt"
  shows "nth_res (pre @ encode_option opt @ post) (length pre) = Inr (fst opt)"
    "nth_res (pre @ encode_option opt @ post) (Suc (length pre)) = Inr (word_of_nat (length (snd opt)))"
  using assms by (cases opt; simp add: encode_option_def nth_res_def nth_append)+

lemma option_len: "opt_ok opt \<Longrightarrow> unat (word_of_nat (length (snd opt)) :: byte) = length (snd opt)"
  by (simp add: opt_ok_def unat_of_nat)

lemma end_from_options:
  assumes "list_all opt_ok xs"
  shows "end_from (pre @ encode_options xs @ DHCP_END # rest) (length pre) = Inr (length pre + length (encode_options xs))"
  using assms
proof (induction xs arbitrary: pre)
  case Nil
  then show ?case by (simp add: end_from.simps [of _ "length pre"] nth_res_def nth_append)
next
  case (Cons x xs)
  note x = option_at [of x pre "encode_options xs @ DHCP_END # rest"]
  have rest: "end_from (pre @ encode_option x @ encode_options xs @ DHCP_END # rest) (length pre + length (snd x) + 2)
      = Inr (length pre + length (encode_options (x # xs)))"
    using Cons.IH [of "pre @ encode_option x"] Cons.prems by (simp add: add.assoc)
  show ?case
    using rest x Cons.prems option_len [of x] by (subst end_from.simps) (simp add: opt_ok_def)
qed

lemma end_option_holds: "holds_options opts xs \<Longrightarrow> end_option opts = Inr (length (encode_options xs))"
  using end_from_options [of xs "[]"] by (auto simp: holds_options_def end_option_def)

lemma add_option_holds:
  assumes "holds_options opts xs" and "opt_ok opt" and "length (encode_options xs) + length (snd opt) + 3 < 308"
  shows "\<exists>opts'. add_option_string opts (encode_option opt @ junk) = Inr (length (snd opt) + 2, opts')
     \<and> holds_options opts' (xs @ [opt])"
proof -
  obtain rest where opts: "opts = encode_options xs @ DHCP_END # rest" "length opts = 308" "list_all opt_ok xs"
    using assms(1) by (auto simp: holds_options_def)
  define e where "e = length (encode_options xs)"
  define k where "k = length (snd opt)"
  have rest: "length rest = 307 - e" "k + 2 \<le> length rest" using opts(1,2) assms(3) by (simp_all add: e_def k_def)
  define new where "new = encode_options xs @ encode_option opt @ DHCP_END # drop (k + 2) rest"
  have n: "nth_res (encode_option opt @ junk) 1 = Inr (word_of_nat k)" "unat (word_of_nat k :: byte) = k"
    using option_at(2) [OF assms(2), of "[]" junk] option_len [OF assms(2)] by (simp_all add: k_def)
  have bs: "read_bytes (encode_option opt @ junk) 0 (k + 2) = Inr (encode_option opt)" by (simp add: read_bytes_def k_def)
  have put: "write_bytes opts e (encode_option opt) = Inr (encode_options xs @ encode_option opt @ drop (k + 1) rest)"
    using rest by (simp add: write_bytes_def opts(1) e_def k_def)
  obtain b where "drop (k + 1) rest = b # drop (k + 2) rest"
    using rest(2) by (metis Cons_nth_drop_Suc Suc_eq_plus1 add_2_eq_Suc' less_eq_Suc_le)
  then have mark: "upd_res (encode_options xs @ encode_option opt @ drop (k + 1) rest) (e + k + 2) DHCP_END = Inr new"
    by (simp add: upd_res_def e_def k_def new_def list_update_append)
  have "length new = 308" using rest by (simp add: new_def e_def [symmetric] k_def [symmetric])
  then have "holds_options new (xs @ [opt])"
    using assms(2) opts(3) by (auto simp: holds_options_def new_def)
  moreover have "add_option_string opts (encode_option opt @ junk) = Inr (k + 2, new)"
    using assms(3) end_option_holds [OF assms(1)] n bs put mark
    by (simp add: add_option_string_def e_def [symmetric] k_def [symmetric])
  ultimately show ?thesis by (auto simp: k_def)
qed

section \<open>Lookup\<close>

text \<open>Without overload options, lookup gives the data of the first option with the code.\<close>

lemma lookup_at:
  assumes "opt_ok opt" and "length m = 548" and "drop 240 m = pre @ encode_option opt @ post" and "length (pre @ encode_option opt) < 308"
  shows "nth_res m (240 + length pre) = Inr (fst opt)" "nth_res m (Suc (240 + length pre)) = Inr (word_of_nat (length (snd opt)))"
    "slice (240 + length pre + 2) (length (snd opt)) m = snd opt"
proof -
  have m: "m = take 240 m @ pre @ encode_option opt @ post" using assms(3) by (metis append_take_drop_id)
  have l: "length (take 240 m) = 240" using assms(2) by simp
  show "nth_res m (240 + length pre) = Inr (fst opt)" "nth_res m (Suc (240 + length pre)) = Inr (word_of_nat (length (snd opt)))"
    using option_at [OF assms(1), of "take 240 m @ pre" post] l by (simp_all add: m [symmetric])
  have "slice (240 + length pre + 2) (length (snd opt)) m = take (length (snd opt)) (drop (length pre + 2) (drop 240 m))"
    by (simp add: slice_def add.commute add.left_commute)
  then show "slice (240 + length pre + 2) (length (snd opt)) m = snd opt"
    by (cases opt) (simp add: assms(3) encode_option_def)
qed

lemma get_option_at:
  assumes "list_all opt_ok xs" and "DHCP_OPTION_OVER \<notin> fst ` set xs" and "code \<noteq> DHCP_PADDING" and "code \<noteq> DHCP_END"
    and "length m = 548" and "drop 240 m = pre @ encode_options xs @ DHCP_END # rest"
  shows "case map_of xs code of
     None \<Rightarrow> get_option_loop m code OPTION_FIELD 0 (length pre) = Inr None
   | Some d \<Rightarrow> \<exists>p. get_option_loop m code OPTION_FIELD 0 (length pre) = Inr (Some p) \<and> slice p (length d) m = d"
  using assms
proof (induction xs arbitrary: pre)
  case Nil
  have "length (drop 240 m) = 308" using Nil.prems(5) by simp
  then have fits: "length pre < 308" using Nil.prems(6) by simp
  have "nth_res m (240 + length pre) = Inr DHCP_END"
  proof -
    have "m ! (240 + length pre) = drop 240 m ! length pre" using Nil.prems(5) by simp
    then show ?thesis using Nil.prems(5,6) fits by (simp add: nth_res_def nth_append)
  qed
  then show ?case
    using fits Nil.prems(3,4) by (simp add: get_option_loop.simps [of _ _ _ _ "length pre"] Let_def dhcp_codes)
next
  case (Cons x xs)
  have whole: "length (drop 240 m) = 308" using Cons.prems(5) by simp
  have fits: "length pre + length (snd x) + 2 < 308" using whole Cons.prems(6) by simp
  have ok: "opt_ok x" using Cons.prems(1) by simp
  have at: "drop 240 m = pre @ encode_option x @ encode_options xs @ DHCP_END # rest" using Cons.prems(6) by simp
  note x = lookup_at [OF ok Cons.prems(5) at] option_len [OF ok]
  show ?case
  proof (cases "fst x = code")
    case True
    then have "get_option_loop m code OPTION_FIELD 0 (length pre) = Inr (Some (240 + length pre + 2))"
      using x fits by (simp add: get_option_loop.simps [of _ _ _ _ "length pre"] Let_def)
    then show ?thesis using True x(3) fits by (cases x) simp
  next
    case False
    have "fst x \<noteq> DHCP_OPTION_OVER" using Cons.prems(2) by auto
    then have step: "get_option_loop m code OPTION_FIELD 0 (length pre)
        = get_option_loop m code OPTION_FIELD 0 (length (pre @ encode_option x))"
      using x fits False ok by (simp add: get_option_loop.simps [of _ _ _ _ "length pre"] Let_def opt_ok_def)
    show ?thesis
      unfolding step using Cons.IH [of "pre @ encode_option x"] Cons.prems False by (cases x) simp
  qed
qed

lemma get_option_finds:
  assumes "holds_options (slice 240 308 m) xs" and "length m = 548" and "DHCP_OPTION_OVER \<notin> fst ` set xs"
    and "code \<noteq> DHCP_PADDING" and "code \<noteq> DHCP_END"
  shows "case map_of xs code of
     None \<Rightarrow> get_option m code = Inr None
   | Some d \<Rightarrow> \<exists>p. get_option m code = Inr (Some p) \<and> slice p (length d) m = d"
proof -
  have "slice 240 308 m = drop 240 m" using assms(2) by (simp add: slice_def)
  then obtain rest where "list_all opt_ok xs" "drop 240 m = [] @ encode_options xs @ DHCP_END # rest"
    using assms(1) by (auto simp: holds_options_def)
  from get_option_at [OF this(1) assms(3-5,2) this(2)] show ?thesis
    unfolding get_option_def list.size .
qed

section \<open>The discover message\<close>

text \<open>\<open>cid\<close> and \<open>host\<close> are the options, if any, that the configuration has for the client id and the host name.\<close>

definition discover_options ::
    "(byte \<times> byte list) option \<Rightarrow> (byte \<times> byte list) option \<Rightarrow> 32 word \<Rightarrow> (byte \<times> byte list) list" where
  "discover_options cid host requested = [(DHCP_MESSAGE_TYPE, [1])] @ (case cid of None \<Rightarrow> [] | Some x \<Rightarrow> [x])
     @ (case host of None \<Rightarrow> [] | Some x \<Rightarrow> [x]) @ [(DHCP_VENDOR, map of_char ''udhcp blts-wlan-core'')]
     @ (if requested \<noteq> 0 then [(DHCP_REQUESTED_IP, le32 requested)] else []) @ [(DHCP_PARAM_REQ, [])]"

lemma with_option_holds:
  assumes "holds_options (dm_options m) xs" and "opt_ok opt" and "length (encode_options xs) + length (snd opt) + 3 < 308"
  shows "\<exists>opts. with_option (encode_option opt @ junk) m = Inr (m\<lparr>dm_options := opts\<rparr>) \<and> holds_options opts (xs @ [opt])"
  using add_option_holds [OF assms, of junk] by (auto simp: with_option_def)

lemma with_simple_option_holds:
  assumes "holds_options (dm_options m) xs" and "option_length code = n" "0 < n" "n \<le> 4" and "opt_ok (code, take n (le32 data))"
    and "length (encode_options xs) + n + 3 < 308"
  shows "\<exists>opts. with_simple_option code data m = Inr (m\<lparr>dm_options := opts\<rparr>) \<and> holds_options opts (xs @ [(code, take n (le32 data))])"
proof -
  have "encode_option (code, take n (le32 data)) = [code, word_of_nat n] @ take n (le32 data)"
    using assms(4) by (simp add: encode_option_def min_def)
  then show ?thesis
    using add_option_holds [OF assms(1,5), of "[]"] assms(2-4,6)
    by (auto simp: with_simple_option_def add_simple_option_def Let_def min_def)
qed

lemma option_lengths_used: "option_length DHCP_MESSAGE_TYPE = 1" "option_length DHCP_REQUESTED_IP = 4"
  by (simp_all add: option_length_def dhcp_options_def option_lengths_def dhcp_codes)

text \<open>Nothing in the table is asked for, so the parameter request is empty.\<close>

lemma add_requests_holds:
  assumes "holds_options (dm_options m) xs" and "length (encode_options xs) + 3 < 308"
  shows "\<exists>opts. add_requests m = Inr (m\<lparr>dm_options := opts\<rparr>) \<and> holds_options opts (xs @ [(DHCP_PARAM_REQ, [])])"
proof -
  obtain rest where opts: "dm_options m = encode_options xs @ DHCP_END # rest" "length (dm_options m) = 308" "list_all opt_ok xs"
    using assms(1) by (auto simp: holds_options_def)
  have "2 \<le> length rest" using opts(1,2) assms(2) by simp
  then obtain a b rest' where rest: "rest = a # b # rest'" by (metis Suc_le_length_iff numeral_2_eq_2)
  have "request_loop dhcp_options e 0 os = Inr (0, os)" for e os by (simp add: dhcp_options_def)
  then have "add_requests m = Inr (m\<lparr>dm_options := encode_options xs @ [DHCP_PARAM_REQ, 0, DHCP_END] @ rest'\<rparr>)"
    using end_option_holds [OF assms(1)] opts(2)
    by (simp add: add_requests_def upd_res_def opts(1) rest list_update_append)
  moreover have "holds_options (encode_options xs @ [DHCP_PARAM_REQ, 0, DHCP_END] @ rest') (xs @ [(DHCP_PARAM_REQ, [])])"
    using opts rest by (simp add: holds_options_def encode_option_def opt_ok_def dhcp_codes)
  ultimately show ?thesis by blast
qed

lemma init_header_holds:
  "\<exists>opts. init_header DHCPDISCOVER = Inr (empty_message\<lparr>dm_op := 1, dm_htype := 1, dm_hlen := 6, dm_cookie := DHCP_MAGIC,
     dm_options := opts\<rparr>) \<and> holds_options opts [(DHCP_MESSAGE_TYPE, [1])]"
proof -
  define m where "m = empty_message\<lparr>dm_op := 1, dm_htype := 1, dm_hlen := 6, dm_cookie := DHCP_MAGIC,
     dm_options := (dm_options empty_message)[0 := DHCP_END]\<rparr>"
  have "dm_options empty_message = replicate 308 0"
    by (simp add: empty_message_def message_of_def slice_def DHCP_MESSAGE_LEN_def)
  then have "dm_options m = DHCP_END # replicate 307 0"
    by (simp add: m_def) (simp add: numeral_eq_Suc)
  then have "holds_options (dm_options m) []" by (simp add: holds_options_def)
  moreover have "take 1 (le32 (ucast DHCPDISCOVER)) = [1]" by (simp add: le32_def DHCPDISCOVER_def)
  ultimately show ?thesis
    using with_simple_option_holds [of m "[]" DHCP_MESSAGE_TYPE 1 "ucast DHCPDISCOVER"] option_lengths_used(1)
    by (auto simp: init_header_def Let_def DHCPDISCOVER_def m_def opt_ok_def dhcp_codes)
qed

lemma empty_message_ok: "message_ok empty_message"
  by (simp add: message_ok_def empty_message_def message_of_def slice_def DHCP_MESSAGE_LEN_def)

lemma vendor_id_encodes: "vendor_id = encode_option (DHCP_VENDOR, map of_char ''udhcp blts-wlan-core'') @ [0]"
  by (simp add: vendor_id_def encode_option_def)

text \<open>The data of an option that may be missing, and what such options must be to be sent.\<close>

definition data_length :: "(byte \<times> byte list) option \<Rightarrow> nat" where
  "data_length x = (case x of None \<Rightarrow> 0 | Some y \<Rightarrow> length (snd y))"

definition own_options_ok :: "(byte \<times> byte list) option \<Rightarrow> (byte \<times> byte list) option \<Rightarrow> bool" where
  "own_options_ok cid host \<longleftrightarrow> (\<forall>x. cid = Some x \<or> host = Some x \<longrightarrow> opt_ok x \<and> fst x \<noteq> DHCP_OPTION_OVER)
     \<and> data_length cid + data_length host \<le> 200"

lemma optional_option_holds:
  assumes "holds_options (dm_options m) xs" and "\<And>y. x = Some y \<Longrightarrow> opt_ok y"
    and "length (encode_options xs) + data_length x + 3 < 308"
  shows "\<exists>opts. (case map_option encode_option x of None \<Rightarrow> Inr m | Some s \<Rightarrow> with_option s m) = Inr (m\<lparr>dm_options := opts\<rparr>)
     \<and> holds_options opts (xs @ (case x of None \<Rightarrow> [] | Some y \<Rightarrow> [y]))"
proof (cases x)
  case None
  then show ?thesis using assms(1) by (intro exI [of _ "dm_options m"]) simp
next
  case (Some y)
  then show ?thesis using with_option_holds [OF assms(1), of y "[]"] assms(2,3) by (simp add: data_length_def)
qed

lemma length_optional: "length (encode_options (case x of None \<Rightarrow> [] | Some y \<Rightarrow> [y])) \<le> data_length x + 2"
  by (cases x) (simp_all add: data_length_def)

lemma init_packet_holds:
  assumes "length (arp config) = 6" and "clientid config = map_option encode_option cid"
    and "hostname config = map_option encode_option host" and own: "own_options_ok cid host"
  shows "\<exists>opts. init_packet config DHCPDISCOVER = Inr (empty_message\<lparr>dm_op := 1, dm_htype := 1, dm_hlen := 6, dm_cookie := DHCP_MAGIC,
       dm_chaddr := arp config @ replicate 10 0, dm_options := opts\<rparr>)
     \<and> holds_options opts ([(DHCP_MESSAGE_TYPE, [1])] @ (case cid of None \<Rightarrow> [] | Some x \<Rightarrow> [x])
        @ (case host of None \<Rightarrow> [] | Some x \<Rightarrow> [x]) @ [(DHCP_VENDOR, map of_char ''udhcp blts-wlan-core'')])"
proof -
  obtain opts where head: "init_header DHCPDISCOVER = Inr (empty_message\<lparr>dm_op := 1, dm_htype := 1, dm_hlen := 6,
      dm_cookie := DHCP_MAGIC, dm_options := opts\<rparr>)" and opts: "holds_options opts [(DHCP_MESSAGE_TYPE, [1])]"
    using init_header_holds by blast
  define m where "m = empty_message\<lparr>dm_op := 1, dm_htype := 1, dm_hlen := 6, dm_cookie := DHCP_MAGIC,
      dm_chaddr := arp config @ replicate 10 0, dm_options := opts\<rparr>"
  have "drop 6 (dm_chaddr empty_message) = replicate 10 0"
    by (simp add: empty_message_def message_of_def slice_def DHCP_MESSAGE_LEN_def)
  then have m: "empty_message\<lparr>dm_op := 1, dm_htype := 1, dm_hlen := 6, dm_cookie := DHCP_MAGIC, dm_options := opts,
      dm_chaddr := arp config @ drop 6 (dm_chaddr empty_message)\<rparr> = m"
    by (cases empty_message) (simp add: m_def)
  have "read_bytes (arp config) 0 6 = Inr (arp config)" using assms(1) by (simp add: read_bytes_def)
  then have init: "init_packet config DHCPDISCOVER =
      rbind (case clientid config of None \<Rightarrow> Inr m | Some s \<Rightarrow> with_option s m) (\<lambda>m.
      rbind (case hostname config of None \<Rightarrow> Inr m | Some s \<Rightarrow> with_option s m) (with_option vendor_id))"
    using head m by (simp add: init_packet_def Let_def cong: option.case_cong)
  define xs where "xs = [(DHCP_MESSAGE_TYPE, [1 :: byte])] @ (case cid of None \<Rightarrow> [] | Some x \<Rightarrow> [x])"
  define ys where "ys = xs @ (case host of None \<Rightarrow> [] | Some x \<Rightarrow> [x])"
  define vendor where "vendor = (DHCP_VENDOR, map of_char ''udhcp blts-wlan-core'' :: byte list)"
  have ok: "\<And>y. cid = Some y \<Longrightarrow> opt_ok y" "\<And>y. host = Some y \<Longrightarrow> opt_ok y"
    and small: "data_length cid + data_length host \<le> 200"
    using own unfolding own_options_ok_def by blast+
  have room: "length (encode_options xs) \<le> data_length cid + 5" "length (encode_options ys) \<le> 207"
    using small length_optional [of cid] length_optional [of host] by (simp_all add: xs_def ys_def)
  obtain opts1 where 1: "(case clientid config of None \<Rightarrow> Inr m | Some s \<Rightarrow> with_option s m) = Inr (m\<lparr>dm_options := opts1\<rparr>)"
    and h1: "holds_options opts1 xs"
    using optional_option_holds [of m "[(DHCP_MESSAGE_TYPE, [1])]" cid] opts ok(1) small
    unfolding assms(2) by (auto simp: m_def xs_def)
  obtain opts2 where 2: "(case hostname config of None \<Rightarrow> Inr (m\<lparr>dm_options := opts1\<rparr>)
      | Some s \<Rightarrow> with_option s (m\<lparr>dm_options := opts1\<rparr>)) = Inr (m\<lparr>dm_options := opts2\<rparr>)"
    and h2: "holds_options opts2 ys"
    using optional_option_holds [of "m\<lparr>dm_options := opts1\<rparr>" xs host] h1 ok(2) small room(1)
    unfolding assms(3) by (auto simp: ys_def)
  have "opt_ok vendor" and "length (encode_options ys) + length (snd vendor) + 3 < 308"
    using room by (simp_all add: vendor_def opt_ok_def dhcp_codes)
  then obtain opts3 where "with_option vendor_id (m\<lparr>dm_options := opts2\<rparr>) = Inr (m\<lparr>dm_options := opts3\<rparr>)"
    and "holds_options opts3 (ys @ [vendor])"
    using with_option_holds [of "m\<lparr>dm_options := opts2\<rparr>" ys vendor "[0]"] h2
    unfolding vendor_id_encodes vendor_def [symmetric] by auto
  then show ?thesis
    unfolding init 1 2 rbind_Inr xs_def ys_def vendor_def by (auto simp: m_def)
qed

lemma discover_message_holds:
  assumes "length (arp config) = 6" and "clientid config = map_option encode_option cid"
    and "hostname config = map_option encode_option host" and "own_options_ok cid host"
  shows "\<exists>opts. discover_message config xid requested = Inr (empty_message\<lparr>dm_op := 1, dm_htype := 1, dm_hlen := 6, dm_xid := xid,
       dm_cookie := DHCP_MAGIC, dm_chaddr := arp config @ replicate 10 0, dm_options := opts\<rparr>)
     \<and> holds_options opts (discover_options cid host requested)"
proof -
  define xs where "xs = [(DHCP_MESSAGE_TYPE, [1 :: byte])] @ (case cid of None \<Rightarrow> [] | Some x \<Rightarrow> [x])
        @ (case host of None \<Rightarrow> [] | Some x \<Rightarrow> [x]) @ [(DHCP_VENDOR, map of_char ''udhcp blts-wlan-core'')]"
  obtain opts where init: "init_packet config DHCPDISCOVER = Inr (empty_message\<lparr>dm_op := 1, dm_htype := 1, dm_hlen := 6,
       dm_cookie := DHCP_MAGIC, dm_chaddr := arp config @ replicate 10 0, dm_options := opts\<rparr>)" and opts: "holds_options opts xs"
    using init_packet_holds [OF assms] unfolding xs_def by blast
  define m where "m = empty_message\<lparr>dm_op := 1, dm_htype := 1, dm_hlen := 6, dm_xid := xid,
       dm_cookie := DHCP_MAGIC, dm_chaddr := arp config @ replicate 10 0, dm_options := opts\<rparr>"
  have room: "length (encode_options xs) \<le> 229"
    using assms(4) length_optional [of cid] length_optional [of host] by (simp add: xs_def own_options_ok_def)
  have "\<exists>opts'. (if requested \<noteq> 0 then with_simple_option DHCP_REQUESTED_IP requested m else Inr m) = Inr (m\<lparr>dm_options := opts'\<rparr>)
      \<and> holds_options opts' (xs @ (if requested \<noteq> 0 then [(DHCP_REQUESTED_IP, le32 requested)] else []))"
  proof (cases "requested = 0")
    case True
    then show ?thesis using opts by (intro exI [of _ opts]) (simp add: m_def)
  next
    case False
    have "take 4 (le32 requested) = le32 requested" by (simp add: le32_def)
    then show ?thesis
      using with_simple_option_holds [of m xs DHCP_REQUESTED_IP 4 requested] opts room False option_lengths_used(2)
      by (simp add: m_def opt_ok_def dhcp_codes)
  qed
  then obtain opts' where req: "(if requested \<noteq> 0 then with_simple_option DHCP_REQUESTED_IP requested m else Inr m) = Inr (m\<lparr>dm_options := opts'\<rparr>)"
    and opts': "holds_options opts' (xs @ (if requested \<noteq> 0 then [(DHCP_REQUESTED_IP, le32 requested)] else []))"
    by blast
  have room': "length (encode_options (xs @ (if requested \<noteq> 0 then [(DHCP_REQUESTED_IP, le32 requested)] else []))) \<le> 235"
    using room by (simp add: le32_def)
  have m: "empty_message\<lparr>dm_op := 1, dm_htype := 1, dm_hlen := 6, dm_cookie := DHCP_MAGIC,
      dm_chaddr := arp config @ replicate 10 0, dm_options := opts, dm_xid := xid\<rparr> = m"
    by (cases empty_message) (simp add: m_def)
  have step: "discover_message config xid requested = add_requests (m\<lparr>dm_options := opts'\<rparr>)"
    by (simp only: discover_message_def init rbind_Inr Let_def dhcp_message.simps m req)
  have "discover_options cid host requested = (xs @ (if requested \<noteq> 0 then [(DHCP_REQUESTED_IP, le32 requested)] else []))
      @ [(DHCP_PARAM_REQ, [])]"
    by (simp only: discover_options_def xs_def append_assoc)
  then show ?thesis
    using add_requests_holds [of "m\<lparr>dm_options := opts'\<rparr>", OF _ _] opts' room' step by (simp add: m_def del: append_assoc)
qed

section \<open>Fields that do not end, and overload\<close>

lemma get_option_padding:
  assumes "length m = 548" and "drop 240 m = replicate n DHCP_PADDING @ r" and "k \<le> n" and "n < 308" and "code \<noteq> DHCP_PADDING"
  shows "get_option m code = get_option_loop m code OPTION_FIELD 0 k"
  using assms(3)
proof (induction k)
  case 0
  then show ?case by (simp add: get_option_def)
next
  case (Suc k)
  have "m ! (240 + k) = drop 240 m ! k" using assms(1) by simp
  also have "\<dots> = DHCP_PADDING" using Suc.prems by (simp add: assms(2) nth_append)
  finally have "get_option_loop m code OPTION_FIELD 0 k = get_option_loop m code OPTION_FIELD 0 (Suc k)"
    using Suc.prems assms(1,4,5) by (subst get_option_loop.simps) (simp add: nth_res_def)
  then show ?case using Suc by simp
qed

text \<open>The code in the last byte of the field has its length read from behind the message.\<close>

lemma get_option_past_end:
  assumes "length m = 548" and "drop 240 m = replicate 307 DHCP_PADDING @ [code]" and "code \<noteq> DHCP_PADDING"
  shows "get_option m code = Inl Out_Of_Bounds"
proof -
  have "m ! (240 + 307) = drop 240 m ! 307" by (rule nth_drop [symmetric]) (simp add: assms(1))
  then have "m ! 547 = code" by (simp add: assms(2) nth_append)
  moreover have "get_option m code = get_option_loop m code OPTION_FIELD 0 307"
    by (rule get_option_padding [OF assms(1,2) _ _ assms(3)]) simp_all
  ultimately show ?thesis using assms(1) by (simp add: get_option_loop.simps [of m code OPTION_FIELD 0 307] nth_res_def)
qed

text \<open>
  The value of the overload option is taken from the byte behind it: here option overload says that the
  file name holds options, but the option there is not found, because padding follows.
\<close>

lemma overload_ignored:
  assumes "length m = 548" and "drop 240 m = encode_option (DHCP_OPTION_OVER, [1]) @ [DHCP_PADDING, DHCP_END] @ rest"
    and "code \<notin> {DHCP_PADDING, DHCP_OPTION_OVER, DHCP_END}"
  shows "get_option m code = Inr None"
proof -
  have "nth_res m (240 + k) = Inr (drop 240 m ! k)" if "k < 5" for k using that assms(1) by (simp add: nth_res_def)
  from this [of 0] this [of 1] this [of 3] this [of 4]
  have "nth_res m 240 = Inr 52" "nth_res m 241 = Inr 1" "nth_res m 243 = Inr 0" "nth_res m 244 = Inr 255"
    by (simp_all add: assms(2) encode_option_def dhcp_codes)
  then show ?thesis
    using assms(3) by (simp add: get_option_def get_option_loop.simps [of m code] dhcp_codes)
qed

end
