(* ===== verification/Dhcp_Discover.thy ===== *)
theory Dhcp_Discover
  imports Dhcp_Options
begin

text \<open>
  The search for a DHCP server in \<^verbatim>\<open>wlan-core-dhcp.c\<close>: \<^verbatim>\<open>send_dhcp_discover\<close> and the helpers around its
  sockets. One pass of its loop is a step on a state; the answers of the kernel during a pass (the time, the
  result of \<^verbatim>\<open>select\<close>, what \<^verbatim>\<open>read\<close> gives, \<^verbatim>\<open>errno\<close>) are a record, and a run is a list of them. Numbers of type
  \<^verbatim>\<open>long\<close> have 64 bits.
\<close>

unbundle bit_operations_syntax

section \<open>Sockets, the interface and the transaction id\<close>

definition raw_socket :: "int \<Rightarrow> int \<Rightarrow> int" where
  "raw_socket sock bound = (if sock < 0 then -1 else if bound < 0 then -1 else sock)"

text \<open>
  What the calls of \<^verbatim>\<open>read_interface\<close> answer, with \<open>None\<close> for a failed \<^verbatim>\<open>ioctl\<close>. The results are written through
  pointers, so those read before a failure stay.
\<close>

record interface_env =
  ie_socket :: int
  ie_addr :: "byte list option"
  ie_index :: "int option"
  ie_hwaddr :: "byte list option"

record interface_info =
  ii_index :: int
  ii_addr :: "byte list option"
  ii_arp :: "byte list"

definition read_interface :: "interface_env \<Rightarrow> interface_info \<Rightarrow> int \<times> interface_info" where
  "read_interface env info =
    (let hardware = (\<lambda>info. case ie_hwaddr env of None \<Rightarrow> (-1, info) | Some mac \<Rightarrow> (0, info\<lparr>ii_arp := take 6 mac\<rparr>));
         index = (\<lambda>info. case ie_index env of None \<Rightarrow> (-1, info) | Some n \<Rightarrow> hardware (info\<lparr>ii_index := n\<rparr>))
     in if ie_socket env < 0 then (-1, info)
        else case ii_addr info of None \<Rightarrow> index info
        | Some _ \<Rightarrow> (case ie_addr env of None \<Rightarrow> (-1, info) | Some ip \<Rightarrow> index (info\<lparr>ii_addr := Some ip\<rparr>)))"

text \<open>
  The seed is what \<^verbatim>\<open>/dev/urandom\<close> gives (\<open>None\<close> if it cannot be opened or read), or the time; \<open>seeded\<close> is the
  static variable, and \<open>rand\<close> gives the first number for a new seed, or the next one. The result is the
  variable afterwards and the number.
\<close>

definition random_xid :: "bool \<Rightarrow> 64 word option \<Rightarrow> 64 word \<Rightarrow> (64 word option \<Rightarrow> 32 word) \<Rightarrow> bool \<times> 32 word" where
  "random_xid seeded urandom time rand =
    (if seeded then (True, rand None)
     else (True, rand (Some (case urandom of None \<Rightarrow> time | Some seed \<Rightarrow> seed))))"

text \<open>The pipe is never opened, so its descriptor is that of the zeroed static array.\<close>

definition signal_pipe :: "int list" where "signal_pipe = [0, 0]"

definition udhcp_sp_fd_set :: "int \<Rightarrow> int list \<times> int" where
  "udhcp_sp_fd_set extra_fd = (signal_pipe ! 0 # (if extra_fd \<ge> 0 then [extra_fd] else []),
     if signal_pipe ! 0 > extra_fd then signal_pipe ! 0 else extra_fd)"

section \<open>One pass of the loop\<close>

record discover_state =
  ds_fd :: int
  ds_packet_num :: nat
  ds_timeout :: "64 word"
  ds_xid :: "32 word"
  ds_packet :: "byte list"
  ds_sent :: "byte list list"

record discover_pass =
  dp_uptime :: "64 word"
  dp_socket :: int
  dp_bind :: int
  dp_select :: "int list \<times> int \<Rightarrow> int"
  dp_isset :: bool
  dp_now :: "64 word"
  dp_xid :: "32 word"
  dp_send :: send_env
  dp_read :: "byte list option"
  dp_read_eintr :: bool

text \<open>The state the loop starts in (\<open>dp_xid\<close> above is the result of \<^verbatim>\<open>random_xid\<close>); \<open>junk\<close> is what the local \<^verbatim>\<open>packet\<close> holds.\<close>

definition discover_start :: "byte list \<Rightarrow> discover_state" where
  "discover_start junk = \<lparr>ds_fd = -1, ds_packet_num = 0, ds_timeout = 0, ds_xid = 0, ds_packet = junk, ds_sent = []\<rparr>"

text \<open>Each step gives the value \<^verbatim>\<open>send_dhcp_discover\<close> returns, if it does, and the state.\<close>

definition discover_timeout :: "dhcp_config \<Rightarrow> discover_pass \<Rightarrow> discover_state \<Rightarrow> (int option \<times> discover_state) res" where
  "discover_timeout config p s =
    (if ds_packet_num s < 5
     then let xid = (if ds_packet_num s = 0 then dp_xid p else ds_xid s)
       in rbind (send_discover (dp_send p) config xid 0) (\<lambda>(_, sent).
          Inr (None, s\<lparr>ds_xid := xid, ds_sent := ds_sent s @ (case sent of None \<Rightarrow> [] | Some b \<Rightarrow> [b]),
            ds_timeout := dp_now p + (if ds_packet_num s = 2 then 4 else 2), ds_packet_num := ds_packet_num s + 1\<rparr>))
     else Inr (Some (-1), s\<lparr>ds_fd := -1\<rparr>))"

text \<open>What a message that was read means: nothing for us, or the end of the search.\<close>

definition read_offer :: "dhcp_config \<Rightarrow> 32 word \<Rightarrow> byte list \<Rightarrow> int option res" where
  "read_offer config xid packet =
    (if dm_xid (message_of packet) \<noteq> xid then Inr None
     else if take 6 (dm_chaddr (message_of packet)) \<noteq> take 6 (arp config) then Inr None
     else rbind (get_option packet DHCP_MESSAGE_TYPE) (\<lambda>message. case message of
         None \<Rightarrow> Inr None
       | Some at \<Rightarrow> rbind (nth_res packet at) (\<lambda>type.
           if type = DHCPOFFER
           then rbind (get_option packet DHCP_SERVER_ID) (\<lambda>server. Inr (Some (if server \<noteq> None then 0 else -1)))
           else Inr None)))"

definition discover_ready :: "dhcp_config \<Rightarrow> discover_pass \<Rightarrow> discover_state \<Rightarrow> (int option \<times> discover_state) res" where
  "discover_ready config p s = rbind (get_raw_packet (dp_read p) (ds_packet s)) (\<lambda>(len, packet).
    let s = s\<lparr>ds_packet := packet, ds_fd := (if len = -1 \<and> \<not> dp_read_eintr p then -1 else ds_fd s)\<rparr>
    in if len < 0 then Inr (None, s)
       else rbind (read_offer config (ds_xid s) packet) (\<lambda>ret. Inr (ret, s)))"

definition discover_step :: "dhcp_config \<Rightarrow> discover_pass \<Rightarrow> discover_state \<Rightarrow> (int option \<times> discover_state) res" where
  "discover_step config p s =
    (let wait = ds_timeout s - dp_uptime p;
         fd = (if ds_fd s < 0 then raw_socket (dp_socket p) (dp_bind p) else ds_fd s)
     in if fd < 0 then Inr (Some (-1), s\<lparr>ds_fd := fd\<rparr>)
        else let s = s\<lparr>ds_fd := fd\<rparr>;
                 retval = (if 0 <s wait then dp_select p (udhcp_sp_fd_set fd) else 0)
          in if retval = 0 then discover_timeout config p s
             else if retval > 0 \<and> dp_isset p then discover_ready config p s
             else Inr (None, s))"

text \<open>The loop over the passes that happen; \<open>None\<close> while it has not returned.\<close>

fun discover_loop :: "dhcp_config \<Rightarrow> discover_pass list \<Rightarrow> discover_state \<Rightarrow> (int option \<times> discover_state) res" where
  "discover_loop config [] s = Inr (None, s)"
| "discover_loop config (p # ps) s = rbind (discover_step config p s) (\<lambda>(ret, s).
     case ret of Some r \<Rightarrow> Inr (Some r, s) | None \<Rightarrow> discover_loop config ps s)"

text \<open>
  The configuration is global. The test on \<^verbatim>\<open>read_interface\<close> has no body of its own, so that it guards the
  statement after it: a client id is made when the interface could \<^emph>\<open>not\<close> be read.
\<close>

definition configure :: "interface_env \<Rightarrow> interface_info \<Rightarrow> dhcp_config \<Rightarrow> dhcp_config \<times> interface_info" where
  "configure env info config =
    (let (ret, info) = read_interface env (info\<lparr>ii_addr := None, ii_arp := arp config\<rparr>);
         config = config\<lparr>arp := ii_arp info\<rparr>
     in (if ret < 0 \<and> clientid config = None
         then config\<lparr>clientid := Some ([DHCP_CLIENT_ID, 7, 1] @ ii_arp info)\<rparr> else config, info))"

definition send_dhcp_discover :: "bool \<Rightarrow> bool \<Rightarrow> interface_env \<Rightarrow> interface_info \<Rightarrow> dhcp_config \<Rightarrow> byte list \<Rightarrow> discover_pass list
    \<Rightarrow> (int option \<times> dhcp_config \<times> discover_state) res" where
  "send_dhcp_discover data ifname env info config junk passes =
    (if \<not> data \<or> \<not> ifname then Inr (Some (-1), config, discover_start junk)
     else let (config, info) = configure env info config
       in rbind (discover_loop config passes (discover_start junk)) (\<lambda>(ret, s). Inr (ret, config, s)))"

section \<open>At most five messages\<close>

definition discover_inv :: "discover_state \<Rightarrow> bool" where
  "discover_inv s \<longleftrightarrow> ds_packet_num s \<le> 5 \<and> length (ds_sent s) \<le> ds_packet_num s"

lemma discover_timeout_inv: "discover_timeout config p s = Inr (ret, s') \<Longrightarrow> discover_inv s \<Longrightarrow> discover_inv s'"
  by (auto simp: discover_timeout_def discover_inv_def Let_def split: if_splits option.splits prod.splits)

lemma discover_ready_keeps:
  "discover_ready config p s = Inr (ret, s') \<Longrightarrow> ds_packet_num s' = ds_packet_num s \<and> ds_sent s' = ds_sent s \<and> ds_xid s' = ds_xid s
    \<and> ds_timeout s' = ds_timeout s"
  unfolding discover_ready_def by (cases s) (auto simp: Let_def split: if_split_asm)

text \<open>A pass returns at once without a socket, handles a timeout or a packet, or changes nothing else.\<close>

lemma discover_step_cases:
  assumes "discover_step config p s = Inr (ret, s')"
  obtains (no_socket) fd where "ret = Some (-1)" "s' = s\<lparr>ds_fd := fd\<rparr>" "fd < 0"
  | (timeout) fd where "discover_timeout config p (s\<lparr>ds_fd := fd\<rparr>) = Inr (ret, s')" "0 \<le> fd"
  | (packet) fd where "discover_ready config p (s\<lparr>ds_fd := fd\<rparr>) = Inr (ret, s')" "0 \<le> fd"
  | (idle) fd where "ret = None" "s' = s\<lparr>ds_fd := fd\<rparr>" "0 \<le> fd"
proof -
  define fd where "fd = (if ds_fd s < 0 then raw_socket (dp_socket p) (dp_bind p) else ds_fd s)"
  consider "fd < 0" "(Inr (Some (-1), s\<lparr>ds_fd := fd\<rparr>) :: (int option \<times> discover_state) res) = Inr (ret, s')"
    | "0 \<le> fd" "discover_timeout config p (s\<lparr>ds_fd := fd\<rparr>) = Inr (ret, s')"
    | "0 \<le> fd" "discover_ready config p (s\<lparr>ds_fd := fd\<rparr>) = Inr (ret, s')"
    | "0 \<le> fd" "(Inr (None, s\<lparr>ds_fd := fd\<rparr>) :: (int option \<times> discover_state) res) = Inr (ret, s')"
    using assms unfolding discover_step_def Let_def fd_def [symmetric] by (meson linorder_not_less)
  then show thesis by cases (use that [of fd] in simp_all)
qed

lemma discover_step_inv: "discover_step config p s = Inr (ret, s') \<Longrightarrow> discover_inv s \<Longrightarrow> discover_inv s'"
proof (erule discover_step_cases)
  fix fd assume "discover_timeout config p (s\<lparr>ds_fd := fd\<rparr>) = Inr (ret, s')" "discover_inv s"
  then show "discover_inv s'" using discover_timeout_inv [of config p "s\<lparr>ds_fd := fd\<rparr>"] by (simp add: discover_inv_def)
next
  fix fd assume "discover_ready config p (s\<lparr>ds_fd := fd\<rparr>) = Inr (ret, s')" "discover_inv s"
  then show "discover_inv s'" using discover_ready_keeps [of config p "s\<lparr>ds_fd := fd\<rparr>"] by (simp add: discover_inv_def)
qed (simp_all add: discover_inv_def)

lemma discover_loop_inv: "discover_loop config ps s = Inr (ret, s') \<Longrightarrow> discover_inv s \<Longrightarrow> discover_inv s'"
  by (induction ps arbitrary: s) (auto split: option.splits dest: discover_step_inv)

section \<open>Success needs an offer\<close>

text \<open>
  Said without the code's lookup: an option with this code has its data at \<open>p\<close>, inside one of the three
  fields. The message is an offer for this transaction and this card if it has the type of one and the
  identity of a server.
\<close>

definition option_in :: "byte list \<Rightarrow> byte \<Rightarrow> nat \<Rightarrow> bool" where
  "option_in m code p \<longleftrightarrow> (\<exists>fld i. p = field_start fld + i + 2 \<and> m ! (p - 2) = code
     \<and> i + 2 + unat (m ! (p - 1)) \<le> field_length fld)"

definition reads_as_offer :: "dhcp_config \<Rightarrow> 32 word \<Rightarrow> byte list \<Rightarrow> bool" where
  "reads_as_offer config xid m \<longleftrightarrow> dm_xid (message_of m) = xid \<and> dm_cookie (message_of m) = DHCP_MAGIC
     \<and> take 6 (dm_chaddr (message_of m)) = take 6 (arp config)
     \<and> (\<exists>p. option_in m DHCP_MESSAGE_TYPE p \<and> m ! p = DHCPOFFER) \<and> (\<exists>p. option_in m DHCP_SERVER_ID p)"

lemma get_option_loop_in: "get_option_loop m code fld over i = Inr (Some p) \<Longrightarrow> option_in m code p"
proof (induction m code fld over i rule: get_option_loop.induct)
  case (1 m code fld over i)
  let ?at = "field_start fld + i"
  have i: "i < field_length fld" and at: "nth_res m ?at = Inr (m ! ?at)"
    using "1.prems" by (auto simp: get_option_loop.simps [of m code fld over i] Let_def nth_res_def split: if_split_asm)
  show ?case
  proof (cases "m ! ?at = code")
    case True
    then have "p = ?at + 2" "i + 1 + unat (m ! (?at + 1)) < field_length fld"
      using "1.prems" i at by (auto simp: get_option_loop.simps [of m code fld over i] Let_def nth_res_def split: if_split_asm)
    with True show ?thesis unfolding option_in_def by (intro exI [of _ fld] exI [of _ i]) simp
  next
    case False
    with "1.prems" i at show ?thesis
      by (subst (asm) get_option_loop.simps)
        (auto simp: Let_def split: if_split_asm intro: "1.IH" [OF refl refl])
  qed
qed

lemma read_offer_zero:
  assumes "read_offer config xid m = Inr (Some 0)" and "dm_cookie (message_of m) = DHCP_MAGIC"
  shows "reads_as_offer config xid m"
proof -
  have "dm_xid (message_of m) = xid \<and> take 6 (dm_chaddr (message_of m)) = take 6 (arp config)
      \<and> (\<exists>p. get_option m DHCP_MESSAGE_TYPE = Inr (Some p) \<and> p < length m \<and> m ! p = DHCPOFFER)
      \<and> (\<exists>p. get_option m DHCP_SERVER_ID = Inr (Some p))"
    using assms(1) by (auto simp: read_offer_def nth_res_def split: if_split_asm option.splits)
  then show ?thesis
    using assms(2) get_option_loop_in unfolding reads_as_offer_def get_option_def by blast
qed

text \<open>
  How the message came about: the packet of the pass gives its first \<open>k\<close> bytes, as many as the IP header
  claims; behind them are those that were there before the pass.
\<close>

definition copied_over :: "byte list option \<Rightarrow> byte list \<Rightarrow> byte list \<Rightarrow> bool" where
  "copied_over received before m \<longleftrightarrow> (\<exists>rd k. received = Some rd \<and> get_be (slice 2 2 rd) = 28 + k \<and> 28 + k \<le> length rd
     \<and> m = slice 28 k rd @ drop k before)"

definition reads_fit :: "discover_pass \<Rightarrow> bool" where
  "reads_fit p \<longleftrightarrow> (case dp_read p of None \<Rightarrow> True | Some rd \<Rightarrow> length rd \<le> PACKET_LEN)"

lemma discover_ready_zero:
  assumes "discover_ready config p s = Inr (Some 0, s')" and "reads_fit p"
  shows "copied_over (dp_read p) (ds_packet s) (ds_packet s') \<and> reads_as_offer config (ds_xid s') (ds_packet s')"
proof -
  obtain len where get: "get_raw_packet (dp_read p) (ds_packet s) = Inr (len, ds_packet s')" and "0 \<le> len"
    and read: "read_offer config (ds_xid s') (ds_packet s') = Inr (Some 0)"
    using assms(1) unfolding discover_ready_def Let_def by (cases s) (auto split: if_split_asm)
  have "\<And>rd. dp_read p = Some rd \<Longrightarrow> length rd \<le> PACKET_LEN" using assms(2) by (simp add: reads_fit_def)
  note copies = get_raw_packet_copies [OF get \<open>0 \<le> len\<close> this]
  have "dm_cookie (message_of (ds_packet s')) = DHCP_MAGIC" using copies by (auto simp: message_of_def)
  from read_offer_zero [OF read this] copies show ?thesis by (auto simp: copied_over_def)
qed

lemma discover_timeout_ret: "discover_timeout config p s = Inr (ret, s') \<Longrightarrow> ret = None \<or> ret = Some (-1)"
  by (auto simp: discover_timeout_def Let_def split: if_split_asm)

lemma discover_step_zero:
  assumes "discover_step config p s = Inr (Some 0, s')" and "reads_fit p"
  shows "copied_over (dp_read p) (ds_packet s) (ds_packet s') \<and> reads_as_offer config (ds_xid s') (ds_packet s')"
  using assms(1)
proof (cases rule: discover_step_cases)
  case (packet fd)
  then show ?thesis using discover_ready_zero [OF packet(1) assms(2)] by simp
qed (auto dest: discover_timeout_ret)

lemma discover_loop_zero:
  assumes "discover_loop config ps s = Inr (Some 0, s')" and "list_all reads_fit ps"
  shows "\<exists>before p after s0. ps = before @ p # after \<and> discover_loop config before s = Inr (None, s0)
     \<and> copied_over (dp_read p) (ds_packet s0) (ds_packet s') \<and> reads_as_offer config (ds_xid s') (ds_packet s')"
  using assms
proof (induction ps arbitrary: s)
  case (Cons p ps)
  then obtain ret t where step: "discover_step config p s = Inr (ret, t)"
    and rest: "case ret of Some r \<Rightarrow> r = 0 \<and> t = s' | None \<Rightarrow> discover_loop config ps t = Inr (Some 0, s')"
    by (auto split: option.splits)
  show ?case
  proof (cases ret)
    case None
    with rest Cons.IH [of t] Cons.prems(2) obtain before q after s0 where "ps = before @ q # after"
      "discover_loop config before t = Inr (None, s0)" "copied_over (dp_read q) (ds_packet s0) (ds_packet s')"
      "reads_as_offer config (ds_xid s') (ds_packet s')" by auto
    then show ?thesis using step None by (intro exI [of _ "p # before"] exI [of _ q] exI [of _ after] exI [of _ s0]) simp
  next
    case (Some r)
    with rest step have "discover_step config p s = Inr (Some 0, s')" by simp
    from discover_step_zero [OF this] Cons.prems(2) show ?thesis
      by (intro exI [of _ "[]"] exI [of _ p] exI [of _ ps] exI [of _ s]) simp
  qed
qed simp

section \<open>An offer ends the search\<close>

text \<open>A message with these fields and options, in a packet to the client's port, while the search waits.\<close>

definition offer_message :: "dhcp_config \<Rightarrow> 32 word \<Rightarrow> (byte \<times> byte list) list \<Rightarrow> dhcp_message \<Rightarrow> bool" where
  "offer_message config xid xs m \<longleftrightarrow> message_ok m \<and> dm_xid m = xid \<and> dm_cookie m = DHCP_MAGIC
     \<and> take 6 (dm_chaddr m) = take 6 (arp config) \<and> holds_options (dm_options m) xs \<and> DHCP_OPTION_OVER \<notin> fst ` set xs
     \<and> map_of xs DHCP_MESSAGE_TYPE = Some [DHCPOFFER] \<and> DHCP_SERVER_ID \<in> fst ` set xs"

lemma message_options: "message_ok m \<Longrightarrow> slice 240 308 (message_bytes m) = dm_options m"
  "message_ok m \<Longrightarrow> slice 236 4 (message_bytes m) = dm_cookie m"
proof -
  have "dm_options (message_of b) = slice 240 308 b" "dm_cookie (message_of b) = slice 236 4 b" for b
    by (simp_all add: message_of_def)
  then show "message_ok m \<Longrightarrow> slice 240 308 (message_bytes m) = dm_options m" "message_ok m \<Longrightarrow> slice 236 4 (message_bytes m) = dm_cookie m"
    using message_of_bytes(1) [of m] by metis+
qed

lemma read_offer_accepts:
  assumes "offer_message config xid xs m"
  shows "read_offer config xid (message_bytes m) = Inr (Some 0)"
proof -
  have ok: "message_ok m" and opts: "holds_options (slice 240 308 (message_bytes m)) xs"
    using assms by (simp_all add: offer_message_def message_options)
  note find = get_option_finds [OF opts, of DHCP_MESSAGE_TYPE] get_option_finds [OF opts, of DHCP_SERVER_ID]
  have len: "length (message_bytes m) = 548" using message_of_bytes(2) [OF ok] by (simp add: DHCP_MESSAGE_LEN_def)
  obtain i where i: "get_option (message_bytes m) DHCP_MESSAGE_TYPE = Inr (Some i)" "slice i 1 (message_bytes m) = [DHCPOFFER]"
    using find(1) len assms by (auto simp: offer_message_def dhcp_codes)
  obtain d where "map_of xs DHCP_SERVER_ID = Some d"
    using assms by (cases "map_of xs DHCP_SERVER_ID") (auto simp: offer_message_def map_of_eq_None_iff)
  then obtain j where j: "get_option (message_bytes m) DHCP_SERVER_ID = Inr (Some j)"
    using find(2) len assms by (auto simp: offer_message_def dhcp_codes)
  have "i < length (message_bytes m)" using i(2) by (cases "i < length (message_bytes m)") (simp_all add: slice_def)
  moreover have "message_bytes m ! i = DHCPOFFER" using i(2) calculation by (auto simp: slice_def take_Suc hd_drop_conv_nth)
  ultimately show ?thesis
    using i(1) j assms message_of_bytes(1) [OF ok] by (simp add: read_offer_def offer_message_def nth_res_def)
qed

lemma discover_step_offer:
  assumes "offer_message config (ds_xid s) xs m" and "0 \<le> ds_fd s" and "0 <s ds_timeout s - dp_uptime p"
    and "0 < dp_select p (udhcp_sp_fd_set (ds_fd s))" and "dp_isset p"
    and "dp_read p = Some (udp_packet (message_bytes m) source_ip source_port dest_ip CLIENT_PORT)"
    and "length source_ip = 4" and "length dest_ip = 4" and "length (ds_packet s) = DHCP_MESSAGE_LEN"
  shows "\<exists>s'. discover_step config p s = Inr (Some 0, s') \<and> message_of (ds_packet s') = m"
proof -
  have m: "length (message_bytes m) = DHCP_MESSAGE_LEN" "slice 236 4 (message_bytes m) = DHCP_MAGIC" "message_of (message_bytes m) = m"
    using assms(1) message_of_bytes [of m] message_options(2) [of m] by (auto simp: offer_message_def)
  have "discover_ready config p s = Inr (Some 0, s\<lparr>ds_packet := message_bytes m\<rparr>)"
    using udp_packet_received [OF m(1,2) assms(7,8,9)] read_offer_accepts [OF assms(1)]
    by (simp add: discover_ready_def assms(6) DHCP_MESSAGE_LEN_def)
  moreover have "discover_step config p s = discover_ready config p s"
    using assms(2-5) by (simp add: discover_step_def Let_def)
  ultimately show ?thesis using m(3) by simp
qed

section \<open>A packet without a message\<close>

text \<open>The two headers alone, with a correct checksum: nothing is copied, and the cookie is that of the old message.\<close>

definition bare_packet :: "byte \<Rightarrow> byte list \<Rightarrow> byte list \<Rightarrow> byte list \<Rightarrow> byte list" where
  "bare_packet ttl source_ip dest_ip source =
     ip_header 0x45 (be16 28) ttl (le16 (checksum (ip_header 0x45 (be16 28) ttl [0, 0] source_ip dest_ip))) source_ip dest_ip
     @ udp_header source (be16 CLIENT_PORT) (be16 8) [0, 0]"

lemma bare_packet_received:
  assumes "length source_ip = 4" and "length dest_ip = 4" and "length source = 2" and "slice 236 4 old = DHCP_MAGIC"
  shows "get_raw_packet (Some (bare_packet ttl source_ip dest_ip source)) old = Inr (0, old)"
proof -
  define b where "b = bare_packet ttl source_ip dest_ip source"
  define p where "p = b @ replicate (PACKET_LEN - length b) 0"
  have b: "length b = 28" using assms(1-3) by (simp add: b_def bare_packet_def ip_fields udp_header_def)
  have pb: "p = ip_header 0x45 (be16 28) ttl (le16 (checksum (ip_header 0x45 (be16 28) ttl [0, 0] source_ip dest_ip))) source_ip dest_ip
     @ udp_header source (be16 CLIENT_PORT) (be16 8) [0, 0] @ replicate (PACKET_LEN - length b) 0"
    by (simp add: p_def b_def bare_packet_def)
  have ip: "slice 2 2 p = be16 28" "p ! 9 = 17" "p ! 0 = 0x45"
    "slice 10 2 p = le16 (checksum (ip_header 0x45 (be16 28) ttl [0, 0] source_ip dest_ip))"
    "take 10 p @ [0, 0] @ slice 12 8 p = ip_header 0x45 (be16 28) ttl [0, 0] source_ip dest_ip"
    unfolding pb by (rule ip_fields; simp add: assms)+
  have udp: "slice 22 2 p = be16 CLIENT_PORT" "slice 24 2 p = be16 8" "slice 26 2 p = [0, 0]"
    unfolding pb by (rule udp_fields; simp add: assms ip_fields)+
  have total: "get_be (be16 28) = 28" "get_be (be16 8) = 8" by (simp_all add: get_be16)
  have copy: "read_bytes p 28 (copy_size (int 28)) = Inr []"
    using copy_size_rest [of 28] b by (simp add: read_bytes_def p_def)
  show ?thesis
    unfolding get_raw_packet_def option.case b_def [symmetric] p_def [symmetric] Let_def ip(1,4,5) udp total copy
    using b assms(4) by (simp add: ip(2,3) packet_lens write_bytes_def)
qed

text \<open>
  What bytes left behind can do: when the memory already reads as an offer, as one that an earlier call
  accepted may, such a packet is taken for that offer.
\<close>

lemma stale_offer:
  assumes "read_offer config (ds_xid s) (ds_packet s) = Inr (Some 0)" and "dm_cookie (message_of (ds_packet s)) = DHCP_MAGIC"
    and "0 \<le> ds_fd s" and "0 <s ds_timeout s - dp_uptime p" and "0 < dp_select p (udhcp_sp_fd_set (ds_fd s))" and "dp_isset p"
    and "length source_ip = 4" and "length dest_ip = 4" and "length source = 2" and "dp_read p = Some (bare_packet ttl source_ip dest_ip source)"
  shows "discover_step config p s = Inr (Some 0, s)"
proof -
  have "slice 236 4 (ds_packet s) = DHCP_MAGIC" using assms(2) by (simp add: message_of_def)
  from bare_packet_received [OF assms(7-9) this] have "discover_ready config p s = Inr (Some 0, s)"
    using assms(1) by (simp add: discover_ready_def assms(10))
  moreover have "discover_step config p s = discover_ready config p s" using assms(3-6) by (simp add: discover_step_def Let_def)
  ultimately show ?thesis by simp
qed

section \<open>Without an answer\<close>

text \<open>A pass with nothing to read, but sockets that work; the packet of a discover message.\<close>

definition silent :: "discover_pass \<Rightarrow> bool" where
  "silent p \<longleftrightarrow> dp_select p = (\<lambda>_. 0) \<and> 0 \<le> raw_socket (dp_socket p) (dp_bind p)
     \<and> se_socket (dp_send p) \<and> se_bind (dp_send p)"

definition discover_packet :: "dhcp_message \<Rightarrow> byte list" where
  "discover_packet m = udp_packet (message_bytes m) (replicate 4 0) CLIENT_PORT (replicate 4 0xff) SERVER_PORT"

lemma silent_step:
  assumes "silent p"
  shows "\<exists>fd. discover_step config p s = discover_timeout config p (s\<lparr>ds_fd := fd\<rparr>)"
proof -
  define fd where "fd = (if ds_fd s < 0 then raw_socket (dp_socket p) (dp_bind p) else ds_fd s)"
  have "0 \<le> fd" and sel: "dp_select p = (\<lambda>_. 0)" using assms by (simp_all add: fd_def silent_def)
  then have "discover_step config p s = discover_timeout config p (s\<lparr>ds_fd := fd\<rparr>)"
    unfolding discover_step_def Let_def fd_def [symmetric] sel by simp
  then show ?thesis by blast
qed

lemma discover_timeout_sends:
  assumes "send_discover (dp_send p) config xid 0 = Inr (ret, Some packet)" and "ds_packet_num s < 5"
    and "xid = (if ds_packet_num s = 0 then dp_xid p else ds_xid s)"
  shows "discover_timeout config p s = Inr (None, s\<lparr>ds_xid := xid, ds_sent := ds_sent s @ [packet],
     ds_timeout := dp_now p + (if ds_packet_num s = 2 then 4 else 2), ds_packet_num := ds_packet_num s + 1\<rparr>)"
  using assms(2) unfolding discover_timeout_def Let_def assms(3) [symmetric] assms(1) by simp

lemma silent_step_sends:
  assumes "silent p" and "ds_packet_num s < 5" and "xid = (if ds_packet_num s = 0 then dp_xid p else ds_xid s)"
    and "discover_message config xid 0 = Inr m"
  shows "\<exists>s'. discover_step config p s = Inr (None, s') \<and> ds_packet_num s' = ds_packet_num s + 1 \<and> ds_xid s' = xid
     \<and> ds_sent s' = ds_sent s @ [discover_packet m]"
proof -
  obtain fd where step: "discover_step config p s = discover_timeout config p (s\<lparr>ds_fd := fd\<rparr>)"
    using silent_step [OF assms(1)] by blast
  have "\<exists>ret. send_discover (dp_send p) config xid 0 = Inr (ret, Some (discover_packet m))"
    using assms(1,4) by (simp add: send_discover_def raw_packet_def silent_def discover_packet_def Let_def)
  then obtain ret where send: "send_discover (dp_send p) config xid 0 = Inr (ret, Some (discover_packet m))" by blast
  show ?thesis unfolding step using discover_timeout_sends [OF send, of "s\<lparr>ds_fd := fd\<rparr>"] assms(2,3) by simp
qed

lemma silent_rest:
  assumes "discover_message config xid 0 = Inr m"
    and "list_all silent ps" and "0 < ds_packet_num s" and "length ps + ds_packet_num s = 6" and "ds_packet_num s \<le> 5"
    and "ds_xid s = xid" and "ds_sent s = replicate (ds_packet_num s) (discover_packet m)"
  shows "\<exists>s'. discover_loop config ps s = Inr (Some (-1), s') \<and> ds_sent s' = replicate 5 (discover_packet m)"
  using assms(2-7)
proof (induction ps arbitrary: s)
  case (Cons p ps)
  have p: "silent p" using Cons.prems(1) by simp
  show ?case
  proof (cases "ds_packet_num s = 5")
    case True
    obtain fd where "discover_step config p s = discover_timeout config p (s\<lparr>ds_fd := fd\<rparr>)" using silent_step [OF p] by blast
    then show ?thesis using True Cons.prems(6) by (simp add: discover_timeout_def)
  next
    case False
    then have "ds_packet_num s < 5" "xid = (if ds_packet_num s = 0 then dp_xid p else ds_xid s)" using Cons.prems by simp_all
    from silent_step_sends [OF p this assms(1)] obtain s' where s': "discover_step config p s = Inr (None, s')"
      "ds_packet_num s' = ds_packet_num s + 1" "ds_xid s' = xid" "ds_sent s' = ds_sent s @ [discover_packet m]" by blast
    then have "ds_sent s' = replicate (ds_packet_num s') (discover_packet m)"
      using Cons.prems(6) by (simp add: replicate_append_same)
    then show ?thesis using Cons.IH [of s'] Cons.prems s' False by simp
  qed
qed simp

lemma silent_search:
  assumes "discover_message config (dp_xid p) 0 = Inr m" and "list_all silent (p # ps)" and "length ps = 5"
  shows "\<exists>s'. discover_loop config (p # ps) (discover_start junk) = Inr (Some (-1), s') \<and> ds_sent s' = replicate 5 (discover_packet m)"
proof -
  have "silent p" "ds_packet_num (discover_start junk) < 5"
    "dp_xid p = (if ds_packet_num (discover_start junk) = 0 then dp_xid p else ds_xid (discover_start junk))"
    using assms(2) by (simp_all add: discover_start_def)
  from silent_step_sends [OF this assms(1)] obtain s' where "discover_step config p (discover_start junk) = Inr (None, s')"
      "ds_packet_num s' = 1" "ds_xid s' = dp_xid p" "ds_sent s' = [discover_packet m]" by (auto simp: discover_start_def)
  then show ?thesis using silent_rest [OF assms(1), of ps s'] assms(2,3) by simp
qed

end
