(* ===== verification/Alsa_Params.thy ===== *)
theory Alsa_Params
  imports Complex_Main Prelude
begin

text \<open>
  Hardware parameters of a sound device in \<^verbatim>\<open>alsa_util.c\<close> of \<^verbatim>\<open>blts-alsa-core\<close>: sets of small numbers as bit masks,
  intervals with open and closed ends, and the operations that narrow them. The layout of
  \<^verbatim>\<open>struct snd_pcm_hw_params\<close> is the kernel's: three masks of eight words, five reserved ones behind them,
  twelve intervals. Masks are kept as the words of that memory, so that a write past one mask is seen in the next.
  A mask means a set of numbers, an interval a set of reals; narrowing is related to intersection.
\<close>

unbundle bit_operations_syntax

section \<open>Masks\<close>

type_synonym mask_mem = "32 word list"

definition MASK_SIZE :: nat where "MASK_SIZE = 8"
definition SNDRV_MASK_MAX :: nat where "SNDRV_MASK_MAX = 256"

definition MASK_OFS :: "nat \<Rightarrow> nat" where
  "MASK_OFS i = drop_bit 5 i"

definition MASK_BIT :: "nat \<Rightarrow> 32 word" where
  "MASK_BIT i = push_bit (i AND 31) 1"

text \<open>The words of mask \<open>m\<close>; \<open>m\<close> is its number.\<close>

definition mask_words :: "mask_mem \<Rightarrow> nat \<Rightarrow> 32 word list" where
  "mask_words mem m = take MASK_SIZE (drop (MASK_SIZE * m) mem)"

definition put_mask :: "mask_mem \<Rightarrow> nat \<Rightarrow> 32 word list \<Rightarrow> mask_mem" where
  "put_mask mem m ws = take (MASK_SIZE * m) mem @ ws @ drop (MASK_SIZE * m + MASK_SIZE) mem"

definition mask_test :: "mask_mem \<Rightarrow> nat \<Rightarrow> nat \<Rightarrow> 32 word res" where
  "mask_test mem m val = rbind (nth_res mem (MASK_SIZE * m + MASK_OFS val)) (\<lambda>w. Inr (w AND MASK_BIT val))"

fun mask_empty_loop :: "32 word list \<Rightarrow> bool" where
  "mask_empty_loop [] = True"
| "mask_empty_loop (w # ws) = (if w \<noteq> 0 then False else mask_empty_loop ws)"

definition mask_empty :: "mask_mem \<Rightarrow> nat \<Rightarrow> bool" where
  "mask_empty mem m = mask_empty_loop (mask_words mem m)"

fun mask_single_loop :: "nat \<Rightarrow> 32 word list \<Rightarrow> bool" where
  "mask_single_loop c [] = True"
| "mask_single_loop c (w # ws) =
    (if w = 0 then mask_single_loop c ws
     else if w AND (w - 1) \<noteq> 0 then False
     else if c \<noteq> 0 then False
     else mask_single_loop (c + 1) ws)"

definition mask_single :: "mask_mem \<Rightarrow> nat \<Rightarrow> bool" where
  "mask_single mem m = mask_single_loop 0 (mask_words mem m)"

definition mask_leave :: "mask_mem \<Rightarrow> nat \<Rightarrow> nat \<Rightarrow> mask_mem res" where
  "mask_leave mem m val = rbind (nth_res mem (MASK_SIZE * m + MASK_OFS val)) (\<lambda>w.
     upd_res (put_mask mem m (replicate MASK_SIZE 0)) (MASK_SIZE * m + MASK_OFS val) (w AND MASK_BIT val))"

definition mask_refine_set :: "mask_mem \<Rightarrow> nat \<Rightarrow> nat \<Rightarrow> (int \<times> mask_mem) res" where
  "mask_refine_set mem m val =
    (if mask_empty mem m then Inr (- ENOENT, mem)
     else let changed = (if mask_single mem m then 0 else 1)
       in rbind (mask_leave mem m val) (\<lambda>mem.
          if mask_empty mem m then Inr (- EINVAL, mem) else Inr (changed, mem)))"

function mask_reset_range :: "mask_mem \<Rightarrow> nat \<Rightarrow> nat \<Rightarrow> nat \<Rightarrow> mask_mem res" where
  "mask_reset_range mem m i to =
    (if i \<le> to
     then rbind (nth_res mem (MASK_SIZE * m + MASK_OFS i)) (\<lambda>w.
          rbind (upd_res mem (MASK_SIZE * m + MASK_OFS i) (w AND NOT (MASK_BIT i))) (\<lambda>mem.
          mask_reset_range mem m (i + 1) to))
     else Inr mem)"
  by auto
termination by (relation "measure (\<lambda>(mem, m, i, to). to + 1 - i)") auto

declare mask_reset_range.simps [simp del]

text \<open>The number of the highest bit, by halves; the C library's number of the lowest bit, from 1.\<close>

definition ld2 :: "32 word \<Rightarrow> nat" where
  "ld2 v =
    (let (v, r) = (if v \<ge> 0x10000 then (drop_bit 16 v, 16) else (v, 0));
         (v, r) = (if v \<ge> 0x100 then (drop_bit 8 v, r + 8) else (v, r));
         (v, r) = (if v \<ge> 0x10 then (drop_bit 4 v, r + 4) else (v, r));
         (v, r) = (if v \<ge> 4 then (drop_bit 2 v, r + 2) else (v, r))
     in if v \<ge> 2 then r + 1 else r)"

definition ffs :: "32 word \<Rightarrow> nat" where
  "ffs w = (if w = 0 then 0 else length (takeWhile (\<lambda>n. \<not> bit w n) [0..<32]) + 1)"

fun mask_min_loop :: "nat \<Rightarrow> 32 word list \<Rightarrow> nat" where
  "mask_min_loop i [] = 0"
| "mask_min_loop i (w # ws) = (if w \<noteq> 0 then ffs w - 1 + push_bit 5 i else mask_min_loop (i + 1) ws)"

definition mask_min :: "mask_mem \<Rightarrow> nat \<Rightarrow> nat" where
  "mask_min mem m = mask_min_loop 0 (mask_words mem m)"

text \<open>From the last word down; the words are given in that order.\<close>

fun mask_max_loop :: "32 word list \<Rightarrow> nat" where
  "mask_max_loop [] = 0"
| "mask_max_loop (w # ws) = (if w \<noteq> 0 then ld2 w + push_bit 5 (length ws) else mask_max_loop ws)"

definition mask_max :: "mask_mem \<Rightarrow> nat \<Rightarrow> nat" where
  "mask_max mem m = mask_max_loop (rev (mask_words mem m))"

definition mask_refine_min :: "mask_mem \<Rightarrow> nat \<Rightarrow> nat \<Rightarrow> (int \<times> mask_mem) res" where
  "mask_refine_min mem m val =
    (if mask_empty mem m then Inr (- ENOENT, mem)
     else if mask_min mem m \<ge> val then Inr (0, mem)
     else rbind (mask_reset_range mem m 0 (val - 1)) (\<lambda>mem.
          if mask_empty mem m then Inr (- EINVAL, mem) else Inr (1, mem)))"

definition mask_refine_max :: "mask_mem \<Rightarrow> nat \<Rightarrow> nat \<Rightarrow> (int \<times> mask_mem) res" where
  "mask_refine_max mem m val =
    (if mask_empty mem m then Inr (- ENOENT, mem)
     else if mask_max mem m \<le> val then Inr (0, mem)
     else rbind (mask_reset_range mem m (val + 1) SNDRV_MASK_MAX) (\<lambda>mem.
          if mask_empty mem m then Inr (- EINVAL, mem) else Inr (1, mem)))"

section \<open>Intervals\<close>

record snd_interval =
  iv_min :: "32 word"
  iv_max :: "32 word"
  iv_openmin :: bool
  iv_openmax :: bool
  iv_integer :: bool
  iv_empty :: bool

definition interval_any :: snd_interval where
  "interval_any = \<lparr>iv_min = 0, iv_max = - 1, iv_openmin = False, iv_openmax = False, iv_integer = False, iv_empty = False\<rparr>"

text \<open>
  The steps of \<^verbatim>\<open>interval_refine\<close>, each with whether it changed something. Ends are 32-bit words, and moving
  an open end of an interval of integers to the next number can wrap.
\<close>

definition raise_min :: "32 word \<Rightarrow> bool \<Rightarrow> snd_interval \<Rightarrow> bool \<times> snd_interval" where
  "raise_min lo opn i =
    (if iv_min i < lo then (True, i\<lparr>iv_min := lo, iv_openmin := opn\<rparr>)
     else if iv_min i = lo \<and> \<not> iv_openmin i \<and> opn then (True, i\<lparr>iv_openmin := True\<rparr>)
     else (False, i))"

definition lower_max :: "32 word \<Rightarrow> bool \<Rightarrow> snd_interval \<Rightarrow> bool \<times> snd_interval" where
  "lower_max hi opn i =
    (if iv_max i > hi then (True, i\<lparr>iv_max := hi, iv_openmax := opn\<rparr>)
     else if iv_max i = hi \<and> \<not> iv_openmax i \<and> opn then (True, i\<lparr>iv_openmax := True\<rparr>)
     else (False, i))"

definition close_min :: "snd_interval \<Rightarrow> snd_interval" where
  "close_min i = (if iv_openmin i then i\<lparr>iv_min := iv_min i + 1, iv_openmin := False\<rparr> else i)"

definition close_max :: "snd_interval \<Rightarrow> snd_interval" where
  "close_max i = (if iv_openmax i then i\<lparr>iv_max := iv_max i - 1, iv_openmax := False\<rparr> else i)"

text \<open>The end of all three operations.\<close>

definition interval_verdict :: "bool \<Rightarrow> snd_interval \<Rightarrow> int \<times> snd_interval" where
  "interval_verdict changed i =
    (if iv_min i > iv_max i \<or> (iv_min i = iv_max i \<and> (iv_openmin i \<or> iv_openmax i)) then (- EINVAL, i\<lparr>iv_empty := True\<rparr>)
     else (if changed then 1 else 0, i))"

definition interval_refine :: "snd_interval \<Rightarrow> snd_interval \<Rightarrow> int \<times> snd_interval" where
  "interval_refine i v =
    (if iv_empty i then (- ENOENT, i)
     else let (c1, i) = raise_min (iv_min v) (iv_openmin v) i;
              (c2, i) = lower_max (iv_max v) (iv_openmax v) i;
              (c3, i) = (if \<not> iv_integer i \<and> iv_integer v then (True, i\<lparr>iv_integer := True\<rparr>) else (False, i));
              i = (if iv_integer i then close_max (close_min i)
                   else if \<not> iv_openmin i \<and> \<not> iv_openmax i \<and> iv_min i = iv_max i then i\<lparr>iv_integer := True\<rparr> else i)
       in interval_verdict (c1 \<or> c2 \<or> c3) i)"

definition interval_refine_set :: "snd_interval \<Rightarrow> 32 word \<Rightarrow> int \<times> snd_interval" where
  "interval_refine_set i val = interval_refine i
     \<lparr>iv_min = val, iv_max = val, iv_openmin = False, iv_openmax = False, iv_integer = True, iv_empty = False\<rparr>"

definition interval_refine_min :: "snd_interval \<Rightarrow> 32 word \<Rightarrow> bool \<Rightarrow> int \<times> snd_interval" where
  "interval_refine_min i lo opn =
    (if iv_empty i then (- ENOENT, i)
     else let (c, i) = raise_min lo opn i
       in interval_verdict c (if iv_integer i then close_min i else i))"

definition interval_refine_max :: "snd_interval \<Rightarrow> 32 word \<Rightarrow> bool \<Rightarrow> int \<times> snd_interval" where
  "interval_refine_max i hi opn =
    (if iv_empty i then (- ENOENT, i)
     else let (c, i) = lower_max hi opn i
       in interval_verdict c (if iv_integer i then close_max i else i))"

section \<open>The parameters of a device\<close>

text \<open>The numbering of parameters is the kernel's: 0 to 2 are masks, 8 to 19 intervals.\<close>

definition SNDRV_PCM_HW_PARAM_ACCESS :: nat where "SNDRV_PCM_HW_PARAM_ACCESS = 0"
definition SNDRV_PCM_HW_PARAM_FORMAT :: nat where "SNDRV_PCM_HW_PARAM_FORMAT = 1"
definition SNDRV_PCM_HW_PARAM_FRAME_BITS :: nat where "SNDRV_PCM_HW_PARAM_FRAME_BITS = 9"
definition SNDRV_PCM_HW_PARAM_CHANNELS :: nat where "SNDRV_PCM_HW_PARAM_CHANNELS = 10"
definition SNDRV_PCM_HW_PARAM_RATE :: nat where "SNDRV_PCM_HW_PARAM_RATE = 11"
definition SNDRV_PCM_HW_PARAM_PERIOD_SIZE :: nat where "SNDRV_PCM_HW_PARAM_PERIOD_SIZE = 13"
definition SNDRV_PCM_HW_PARAM_BUFFER_SIZE :: nat where "SNDRV_PCM_HW_PARAM_BUFFER_SIZE = 17"
definition LAST_MASK :: nat where "LAST_MASK = 2"
definition FIRST_INTERVAL :: nat where "FIRST_INTERVAL = 8"
definition LAST_INTERVAL :: nat where "LAST_INTERVAL = 19"

lemmas hw_params_numbers = SNDRV_PCM_HW_PARAM_ACCESS_def SNDRV_PCM_HW_PARAM_FORMAT_def SNDRV_PCM_HW_PARAM_FRAME_BITS_def
  SNDRV_PCM_HW_PARAM_CHANNELS_def SNDRV_PCM_HW_PARAM_RATE_def SNDRV_PCM_HW_PARAM_PERIOD_SIZE_def
  SNDRV_PCM_HW_PARAM_BUFFER_SIZE_def LAST_MASK_def FIRST_INTERVAL_def LAST_INTERVAL_def

record snd_pcm_hw_params =
  hp_flags :: "32 word"
  hp_masks :: mask_mem
  hp_intervals :: "snd_interval list"
  hp_rmask :: "32 word"
  hp_cmask :: "32 word"
  hp_info :: "32 word"

definition is_mask :: "nat \<Rightarrow> bool" where
  "is_mask var \<longleftrightarrow> var \<le> LAST_MASK"

definition is_interval :: "nat \<Rightarrow> bool" where
  "is_interval var \<longleftrightarrow> FIRST_INTERVAL \<le> var \<and> var \<le> LAST_INTERVAL"

definition hw_param_interval :: "snd_pcm_hw_params \<Rightarrow> nat \<Rightarrow> snd_interval" where
  "hw_param_interval params var = hp_intervals params ! (var - FIRST_INTERVAL)"

definition put_interval :: "snd_pcm_hw_params \<Rightarrow> nat \<Rightarrow> snd_interval \<Rightarrow> snd_pcm_hw_params" where
  "put_interval params var i = params\<lparr>hp_intervals := (hp_intervals params)[var - FIRST_INTERVAL := i]\<rparr>"

text \<open>The value and the direction are given only with result 0.\<close>

definition pcm_hw_param_get :: "snd_pcm_hw_params \<Rightarrow> nat \<Rightarrow> int \<times> (32 word \<times> int) option" where
  "pcm_hw_param_get params var =
    (if is_mask var
     then if mask_empty (hp_masks params) var \<or> \<not> mask_single (hp_masks params) var then (- EINVAL, None)
       else (0, Some (word_of_nat (mask_min (hp_masks params) var), 0))
     else if is_interval var
     then let i = hw_param_interval params var
       in if iv_empty i \<or> \<not> (iv_min i = iv_max i \<or> iv_min i + 1 = iv_max i \<and> iv_openmax i) then (- EINVAL, None)
          else (0, Some (iv_min i, if iv_openmin i then 1 else 0))
     else (- EINVAL, None))"

definition note_change :: "int \<Rightarrow> nat \<Rightarrow> snd_pcm_hw_params \<Rightarrow> snd_pcm_hw_params" where
  "note_change changed var params = (if changed \<noteq> 0
     then params\<lparr>hp_cmask := hp_cmask params OR push_bit var 1, hp_rmask := hp_rmask params OR push_bit var 1\<rparr> else params)"

definition pcm_hw_param_set :: "snd_pcm_hw_params \<Rightarrow> nat \<Rightarrow> 32 word \<Rightarrow> int \<Rightarrow> (int \<times> snd_pcm_hw_params) res" where
  "pcm_hw_param_set params var val dir =
    (if is_mask var
     then rbind (if val = 0 \<and> dir < 0 then Inr (- EINVAL, put_mask (hp_masks params) var (replicate MASK_SIZE 0))
          else mask_refine_set (hp_masks params) var
            (unat (if dir > 0 then val + 1 else if dir < 0 then val - 1 else val)))
       (\<lambda>(changed, mem). Inr (changed, note_change changed var (params\<lparr>hp_masks := mem\<rparr>)))
     else if is_interval var
     then let i = hw_param_interval params var;
           (changed, i) =
             (if val = 0 \<and> dir < 0 then (- EINVAL, i\<lparr>iv_empty := True\<rparr>)
              else if dir = 0 then interval_refine_set i val
              else interval_refine i
                \<lparr>iv_min = (if dir < 0 then val - 1 else val), iv_max = (if dir < 0 then val else val + 1),
                 iv_openmin = True, iv_openmax = True, iv_integer = False, iv_empty = False\<rparr>)
       in Inr (changed, note_change changed var (put_interval params var i))
     else Inr (- EINVAL, params))"

text \<open>The ends after the directions are taken into account.\<close>

definition end_min :: "32 word \<Rightarrow> int \<Rightarrow> 32 word \<times> bool" where
  "end_min lo dir = (if dir > 0 then (lo, True) else if dir < 0 \<and> lo > 0 then (lo - 1, True) else (lo, False))"

definition end_max :: "32 word \<Rightarrow> int \<Rightarrow> 32 word \<times> bool" where
  "end_max hi dir = (if dir < 0 then (hi, True) else if dir > 0 then (hi + 1, True) else (hi, False))"

definition both_changed :: "int \<Rightarrow> int \<Rightarrow> int" where
  "both_changed c1 c2 = (if c2 < 0 then c2 else if c1 \<noteq> 0 \<or> c2 \<noteq> 0 then 1 else 0)"

definition pcm_hw_param_set_minmax :: "snd_pcm_hw_params \<Rightarrow> nat \<Rightarrow> 32 word \<Rightarrow> int \<Rightarrow> 32 word \<Rightarrow> int
    \<Rightarrow> (int \<times> snd_pcm_hw_params) res" where
  "pcm_hw_param_set_minmax params var lo mindir hi maxdir =
    (let (lo, openlo) = end_min lo mindir; (hi, openhi) = end_max hi maxdir
     in if is_mask var
     then rbind (if hi = 0 \<and> openhi then Inr (- EINVAL, put_mask (hp_masks params) var (replicate MASK_SIZE 0))
          else rbind (mask_refine_min (hp_masks params) var (unat (if openlo then lo + 1 else lo))) (\<lambda>(c1, mem).
            if c1 < 0 then Inr (c1, mem)
            else rbind (mask_refine_max mem var (unat (if openhi then hi - 1 else hi))) (\<lambda>(c2, mem).
              Inr (both_changed c1 c2, mem))))
       (\<lambda>(changed, mem). Inr (changed, note_change changed var (params\<lparr>hp_masks := mem\<rparr>)))
     else if is_interval var
     then let (c1, i) = interval_refine_min (hw_param_interval params var) lo openlo;
           (changed, i) = (if c1 < 0 then (c1, i) else let (c2, i) = interval_refine_max i hi openhi in (both_changed c1 c2, i))
       in Inr (changed, note_change changed var (put_interval params var i))
     else Inr (- EINVAL, params))"

definition pcm_hw_param_any :: "snd_pcm_hw_params \<Rightarrow> nat \<Rightarrow> snd_pcm_hw_params" where
  "pcm_hw_param_any params var =
    (if is_mask var then note_change 1 var (params\<lparr>hp_masks := put_mask (hp_masks params) var (replicate MASK_SIZE (- 1))\<rparr>)
     else if is_interval var then note_change 1 var (put_interval params var interval_any)
     else params)"

text \<open>All bytes zero first; the reserved masks stay so.\<close>

definition zero_interval :: snd_interval where
  "zero_interval = \<lparr>iv_min = 0, iv_max = 0, iv_openmin = False, iv_openmax = False, iv_integer = False, iv_empty = False\<rparr>"

definition pcm_hw_params_any :: snd_pcm_hw_params where
  "pcm_hw_params_any =
    (let params = \<lparr>hp_flags = 0, hp_masks = replicate (MASK_SIZE * 8) 0, hp_intervals = replicate 12 zero_interval,
           hp_rmask = 0, hp_cmask = 0, hp_info = 0\<rparr>;
         params = foldl pcm_hw_param_any params [0..<LAST_MASK + 1];
         params = foldl pcm_hw_param_any params [FIRST_INTERVAL..<LAST_INTERVAL + 1]
     in params\<lparr>hp_rmask := - 1, hp_cmask := 0, hp_info := - 1\<rparr>)"

end
