(* ===== verification/Alsa_Refine.thy ===== *)
theory Alsa_Refine
  imports Alsa_Params
begin

text \<open>
  What narrowing means for the parameters of a sound device: an interval as a set of reals, a mask as a set of
  numbers. The operations on them are intersections, as long as an open end of integers does not wrap.
\<close>

unbundle bit_operations_syntax

section \<open>Intervals as sets\<close>

definition num :: "32 word \<Rightarrow> real" where
  "num w = of_int (uint w)"

lemma num_less: "num a < num b \<longleftrightarrow> a < b" "num a \<le> num b \<longleftrightarrow> a \<le> b" "num a = num b \<longleftrightarrow> a = b"
  unfolding num_def of_int_less_iff of_int_le_iff of_int_eq_iff word_less_def word_le_def word_uint_eq_iff by (rule refl)+

lemma less_num: "a < b \<longleftrightarrow> num a < num b" "a \<le> b \<longleftrightarrow> num a \<le> num b"
  by (simp_all only: num_less)

lemma uint_next: "w \<noteq> - 1 \<Longrightarrow> uint (w + 1) = uint w + 1" "w \<noteq> 0 \<Longrightarrow> uint (w - 1) = uint w - 1" for w :: "32 word"
proof -
  assume "w \<noteq> - 1"
  then have "w < - 1" using word_order.extremum [of w] by (simp add: order_le_less)
  then have "uint w < uint (- 1 :: 32 word)" by (simp only: word_less_def)
  moreover have "uint (- 1 :: 32 word) = 4294967295" by (simp add: unsigned_minus_1_eq_mask mask_eq_exp_minus_1)
  ultimately show "uint (w + 1) = uint w + 1" using unsigned_greater_eq [of w] by (simp add: uint_word_ariths)
next
  assume "w \<noteq> 0"
  then have "0 < uint w" using word_less_def [of 0 w] by (simp add: word_neq_0_conv)
  moreover have "uint w < 2 ^ LENGTH(32)" by (rule unsigned_less)
  ultimately show "uint (w - 1) = uint w - 1" by (simp add: uint_word_ariths)
qed

lemma num_next: "w \<noteq> - 1 \<Longrightarrow> num (w + 1) = num w + 1" "w \<noteq> 0 \<Longrightarrow> num (w - 1) = num w - 1"
  by (simp_all only: num_def uint_next of_int_add of_int_diff of_int_1 HOL.simp_thms)

lemma num_int: "num w < of_int z \<longleftrightarrow> num w + 1 \<le> of_int z" "of_int z < num w \<longleftrightarrow> of_int z \<le> num w - 1"
proof -
  have "num w + 1 = of_int (uint w + 1)" "num w - 1 = of_int (uint w - 1)" by (simp_all only: num_def of_int_add of_int_diff of_int_1)
  then show "num w < of_int z \<longleftrightarrow> num w + 1 \<le> of_int z" "of_int z < num w \<longleftrightarrow> of_int z \<le> num w - 1"
    by (simp_all only: num_def of_int_less_iff of_int_le_iff) linarith+
qed

lemma num_Ints: "num w \<in> \<int>"
  by (simp only: num_def Ints_of_int)

definition above :: "32 word \<Rightarrow> bool \<Rightarrow> real set" where
  "above lo opn = {x. if opn then num lo < x else num lo \<le> x}"

definition below :: "32 word \<Rightarrow> bool \<Rightarrow> real set" where
  "below hi opn = {x. if opn then x < num hi else x \<le> num hi}"

definition ivl_set :: "snd_interval \<Rightarrow> real set" where
  "ivl_set i = (if iv_empty i then {} else above (iv_min i) (iv_openmin i) \<inter> below (iv_max i) (iv_openmax i)
     \<inter> (if iv_integer i then \<int> else UNIV))"

text \<open>An open end that cannot be moved inwards leaves nothing; integers have closed ends.\<close>

definition ends_inside :: "snd_interval \<Rightarrow> bool" where
  "ends_inside i \<longleftrightarrow> (iv_openmin i \<longrightarrow> iv_min i \<noteq> - 1) \<and> (iv_openmax i \<longrightarrow> iv_max i \<noteq> 0)"

definition ends_closed :: "snd_interval \<Rightarrow> bool" where
  "ends_closed i \<longleftrightarrow> (iv_integer i \<longrightarrow> \<not> iv_openmin i \<and> \<not> iv_openmax i)"

lemma raise_min_set: "ivl_set (snd (raise_min lo opn i)) = ivl_set i \<inter> above lo opn"
proof -
  consider "num (iv_min i) < num lo" | "iv_min i = lo" | "num lo < num (iv_min i)"
    unfolding num_less by (metis linorder_less_linear)
  then show ?thesis by cases (auto simp: raise_min_def ivl_set_def above_def less_num)
qed

lemma lower_max_set: "ivl_set (snd (lower_max hi opn i)) = ivl_set i \<inter> below hi opn"
proof -
  consider "num (iv_max i) < num hi" | "iv_max i = hi" | "num hi < num (iv_max i)"
    unfolding num_less by (metis linorder_less_linear)
  then show ?thesis by cases (auto simp: lower_max_def ivl_set_def below_def less_num)
qed

lemma raise_min_inside: "ends_inside i \<Longrightarrow> (opn \<longrightarrow> lo \<noteq> - 1) \<Longrightarrow> ends_inside (snd (raise_min lo opn i))"
  and raise_min_keeps: "iv_empty (snd (raise_min lo opn i)) = iv_empty i" "iv_integer (snd (raise_min lo opn i)) = iv_integer i"
  by (auto simp: raise_min_def ends_inside_def)

lemma lower_max_inside: "ends_inside i \<Longrightarrow> (opn \<longrightarrow> hi \<noteq> 0) \<Longrightarrow> ends_inside (snd (lower_max hi opn i))"
  and lower_max_keeps: "iv_empty (snd (lower_max hi opn i)) = iv_empty i" "iv_integer (snd (lower_max hi opn i)) = iv_integer i"
  by (auto simp: lower_max_def ends_inside_def)

text \<open>Nothing changed means nothing changed.\<close>

lemma unchanged: "\<not> fst (raise_min lo opn i) \<Longrightarrow> snd (raise_min lo opn i) = i" "\<not> fst (lower_max hi opn i) \<Longrightarrow> snd (lower_max hi opn i) = i"
  by (auto simp: raise_min_def lower_max_def split: if_splits)

lemma above_next: "lo \<noteq> - 1 \<Longrightarrow> above lo True \<inter> \<int> = above (lo + 1) False \<inter> \<int>"
  and below_next: "hi \<noteq> 0 \<Longrightarrow> below hi True \<inter> \<int> = below (hi - 1) False \<inter> \<int>"
  by (auto simp: above_def below_def num_next num_int elim!: Ints_cases)

lemma close_set:
  assumes "iv_integer i" and "ends_inside i"
  shows "ivl_set (close_max (close_min i)) = ivl_set i" "ends_closed (close_max (close_min i))" "ivl_set (close_min i) = ivl_set i"
    "ivl_set (close_max i) = ivl_set i"
proof -
  have lo: "ivl_set (close_min j) = ivl_set j" if "iv_integer j" "ends_inside j" for j
    using above_next [of "iv_min j"] that by (auto simp: ivl_set_def close_min_def ends_inside_def)
  have hi: "ivl_set (close_max j) = ivl_set j" if "iv_integer j" "ends_inside j" for j
    using below_next [of "iv_max j"] that by (auto simp: ivl_set_def close_max_def ends_inside_def)
  have "iv_integer (close_min i)" "ends_inside (close_min i)" using assms by (simp_all add: close_min_def ends_inside_def)
  then show "ivl_set (close_max (close_min i)) = ivl_set i" using lo [OF assms] hi by simp
  show "ends_closed (close_max (close_min i))" by (simp add: ends_closed_def close_max_def close_min_def)
  show "ivl_set (close_min i) = ivl_set i" "ivl_set (close_max i) = ivl_set i" by (rule lo hi; rule assms)+
qed

text \<open>The verdict tells whether anything is left.\<close>

lemma verdict_empty:
  assumes "ends_closed i" and "\<not> iv_empty i"
  shows "iv_min i > iv_max i \<or> (iv_min i = iv_max i \<and> (iv_openmin i \<or> iv_openmax i)) \<longleftrightarrow> ivl_set i = {}"
proof (cases "iv_min i > iv_max i \<or> (iv_min i = iv_max i \<and> (iv_openmin i \<or> iv_openmax i))")
  case True
  then have "num (iv_max i) \<le> num (iv_min i)" "num (iv_max i) = num (iv_min i) \<longrightarrow> iv_openmin i \<or> iv_openmax i"
    by (auto simp: less_num num_less(3))
  then have "above (iv_min i) (iv_openmin i) \<inter> below (iv_max i) (iv_openmax i) = {}"
    by (auto simp: above_def below_def split: if_splits)
  then show ?thesis using True by (auto simp: ivl_set_def)
next
  case False
  then have ends: "num (iv_min i) \<le> num (iv_max i)" "iv_min i = iv_max i \<Longrightarrow> \<not> iv_openmin i \<and> \<not> iv_openmax i"
    by (auto simp: less_num)
  have "\<exists>x. x \<in> ivl_set i"
  proof (cases "iv_integer i \<or> iv_min i = iv_max i")
    case True
    then have "num (iv_min i) \<in> ivl_set i"
      using assms ends by (auto simp: ivl_set_def above_def below_def ends_closed_def num_Ints)
    then show ?thesis by blast
  next
    case False
    then have "num (iv_min i) < num (iv_max i)" using ends(1) by (simp add: order_le_less num_less(3))
    then have "(num (iv_min i) + num (iv_max i)) / 2 \<in> ivl_set i"
      using False assms(2) by (auto simp: ivl_set_def above_def below_def)
    then show ?thesis by blast
  qed
  then show ?thesis using False by auto
qed

lemma verdict_set:
  assumes "ends_closed i" and "\<not> iv_empty i" and "interval_verdict c i = (r, i')"
  shows "ivl_set i' = ivl_set i" and "r = - EINVAL \<longleftrightarrow> ivl_set i = {}" and "r \<noteq> - EINVAL \<Longrightarrow> r = (if c then 1 else 0) \<and> i' = i"
    and "iv_empty i' \<longleftrightarrow> r = - EINVAL" and "r \<in> {- EINVAL, 0, 1}"
proof -
  have verdict: "interval_verdict c i = (if ivl_set i = {} then (- EINVAL, i\<lparr>iv_empty := True\<rparr>) else (if c then 1 else 0, i))"
    unfolding interval_verdict_def verdict_empty [OF assms(1,2)] by simp
  show "ivl_set i' = ivl_set i" "r = - EINVAL \<longleftrightarrow> ivl_set i = {}" "r \<noteq> - EINVAL \<Longrightarrow> r = (if c then 1 else 0) \<and> i' = i"
    "iv_empty i' \<longleftrightarrow> r = - EINVAL" "r \<in> {- EINVAL, 0, 1}"
    using assms(2,3) unfolding verdict by (auto simp: ivl_set_def split: if_splits)
qed

text \<open>The three ways to narrow an interval.\<close>

lemma interval_refine_meets:
  assumes "interval_refine i v = (r, i')" and "\<not> iv_empty i" and "\<not> iv_empty v" and "ends_inside i" and "ends_inside v"
  shows "ivl_set i' = ivl_set i \<inter> ivl_set v" and "r = - EINVAL \<longleftrightarrow> ivl_set i' = {}" and "r \<in> {- EINVAL, 0, 1}"
    and "iv_empty i' \<longleftrightarrow> r = - EINVAL"
proof -
  define i1 where "i1 = snd (raise_min (iv_min v) (iv_openmin v) i)"
  define i2 where "i2 = snd (lower_max (iv_max v) (iv_openmax v) i1)"
  define i3 where "i3 = (if \<not> iv_integer i2 \<and> iv_integer v then i2\<lparr>iv_integer := True\<rparr> else i2)"
  define i4 where "i4 = (if iv_integer i3 then close_max (close_min i3)
     else if \<not> iv_openmin i3 \<and> \<not> iv_openmax i3 \<and> iv_min i3 = iv_max i3 then i3\<lparr>iv_integer := True\<rparr> else i3)"
  have "ends_inside i1" using assms(4,5) unfolding i1_def by (intro raise_min_inside) (simp_all add: ends_inside_def)
  then have "ends_inside i2" using assms(5) unfolding i2_def by (intro lower_max_inside) (simp_all add: ends_inside_def)
  then have inside: "ends_inside i3" by (simp add: i3_def ends_inside_def)
  have set2: "ivl_set i2 = ivl_set i \<inter> above (iv_min v) (iv_openmin v) \<inter> below (iv_max v) (iv_openmax v)" "\<not> iv_empty i2"
    using assms(2) by (simp_all add: i2_def i1_def lower_max_set raise_min_set lower_max_keeps raise_min_keeps)
  have "ivl_set i3 = ivl_set i2 \<inter> (if iv_integer v then \<int> else UNIV)" by (auto simp: i3_def ivl_set_def)
  then have set3: "ivl_set i3 = ivl_set i \<inter> ivl_set v" "\<not> iv_empty i3"
    using set2 assms(3) by (auto simp: ivl_set_def i3_def)
  have set4: "ivl_set i4 = ivl_set i3"
  proof (cases "iv_integer i3")
    case True
    then show ?thesis using close_set(1) [OF True inside] by (simp add: i4_def)
  next
    case False
    have "ivl_set (i3\<lparr>iv_integer := True\<rparr>) = ivl_set i3" if "\<not> iv_openmin i3 \<and> \<not> iv_openmax i3 \<and> iv_min i3 = iv_max i3"
      using that num_Ints [of "iv_max i3"] by (auto simp: ivl_set_def above_def below_def dest: antisym)
    then show ?thesis using False by (simp add: i4_def)
  qed
  have ok4: "ends_closed i4" "\<not> iv_empty i4"
    using close_set(2) [OF _ inside] set3(2) by (auto simp: i4_def ends_closed_def close_max_def close_min_def)
  have "\<exists>c. interval_verdict c i4 = (r, i')"
    using assms(1,2) unfolding interval_refine_def i4_def i3_def i2_def i1_def by (auto simp: Let_def split_beta split: if_split_asm)
  then obtain c where "interval_verdict c i4 = (r, i')" by blast
  from verdict_set [OF ok4 this] show "ivl_set i' = ivl_set i \<inter> ivl_set v" "r = - EINVAL \<longleftrightarrow> ivl_set i' = {}" "r \<in> {- EINVAL, 0, 1}"
    "iv_empty i' \<longleftrightarrow> r = - EINVAL"
    using set3(1) set4 by auto
qed

lemma interval_refine_min_meets:
  assumes "interval_refine_min i lo opn = (r, i')" and "\<not> iv_empty i" and "ends_inside i" and "ends_closed i" and "opn \<longrightarrow> lo \<noteq> - 1"
  shows "ivl_set i' = ivl_set i \<inter> above lo opn" and "r = - EINVAL \<longleftrightarrow> ivl_set i' = {}" and "r \<in> {- EINVAL, 0, 1}"
    and "iv_empty i' \<longleftrightarrow> r = - EINVAL" and "r \<noteq> - EINVAL \<Longrightarrow> ends_inside i' \<and> ends_closed i'"
proof -
  define i1 where "i1 = snd (raise_min lo opn i)"
  define i2 where "i2 = (if iv_integer i1 then close_min i1 else i1)"
  have i1: "ends_inside i1" "ivl_set i1 = ivl_set i \<inter> above lo opn" "iv_empty i1 = iv_empty i" "iv_integer i1 = iv_integer i"
    "iv_openmax i1 = iv_openmax i"
    using raise_min_inside [OF assms(3,5)] by (simp_all add: i1_def raise_min_set raise_min_keeps) (simp add: raise_min_def)
  have i2: "ivl_set i2 = ivl_set i1" "ends_closed i2" "\<not> iv_empty i2" "ends_inside i2"
    using i1 assms(2,4) close_set(3) [of i1] by (simp_all add: i2_def ends_closed_def close_min_def ends_inside_def)
  have "interval_verdict (fst (raise_min lo opn i)) i2 = (r, i')"
    using assms(1,2) by (simp add: interval_refine_min_def Let_def split_beta i2_def i1_def split: if_split_asm)
  from verdict_set [OF i2(2,3) this] show "ivl_set i' = ivl_set i \<inter> above lo opn" "r = - EINVAL \<longleftrightarrow> ivl_set i' = {}" "r \<in> {- EINVAL, 0, 1}"
    "iv_empty i' \<longleftrightarrow> r = - EINVAL" "r \<noteq> - EINVAL \<Longrightarrow> ends_inside i' \<and> ends_closed i'"
    using i1(2) i2 by auto
qed

lemma interval_refine_max_meets:
  assumes "interval_refine_max i hi opn = (r, i')" and "\<not> iv_empty i" and "ends_inside i" and "ends_closed i" and "opn \<longrightarrow> hi \<noteq> 0"
  shows "ivl_set i' = ivl_set i \<inter> below hi opn" and "r = - EINVAL \<longleftrightarrow> ivl_set i' = {}" and "r \<in> {- EINVAL, 0, 1}"
    and "iv_empty i' \<longleftrightarrow> r = - EINVAL" and "r \<noteq> - EINVAL \<Longrightarrow> ends_inside i' \<and> ends_closed i'"
proof -
  define i1 where "i1 = snd (lower_max hi opn i)"
  define i2 where "i2 = (if iv_integer i1 then close_max i1 else i1)"
  have i1: "ends_inside i1" "ivl_set i1 = ivl_set i \<inter> below hi opn" "iv_empty i1 = iv_empty i" "iv_integer i1 = iv_integer i"
    "iv_openmin i1 = iv_openmin i"
    using lower_max_inside [OF assms(3,5)] by (simp_all add: i1_def lower_max_set lower_max_keeps) (simp add: lower_max_def)
  have i2: "ivl_set i2 = ivl_set i1" "ends_closed i2" "\<not> iv_empty i2" "ends_inside i2"
    using i1 assms(2,4) close_set(4) [of i1] by (simp_all add: i2_def ends_closed_def close_max_def ends_inside_def)
  have "interval_verdict (fst (lower_max hi opn i)) i2 = (r, i')"
    using assms(1,2) by (simp add: interval_refine_max_def Let_def split_beta i2_def i1_def split: if_split_asm)
  from verdict_set [OF i2(2,3) this] show "ivl_set i' = ivl_set i \<inter> below hi opn" "r = - EINVAL \<longleftrightarrow> ivl_set i' = {}" "r \<in> {- EINVAL, 0, 1}"
    "iv_empty i' \<longleftrightarrow> r = - EINVAL" "r \<noteq> - EINVAL \<Longrightarrow> ends_inside i' \<and> ends_closed i'"
    using i1(2) i2 by auto
qed

text \<open>
  An open end that wraps: integers below an open 0 are none, but narrowing gives all numbers.
\<close>

lemma refine_wraps:
  "interval_refine interval_any \<lparr>iv_min = 0, iv_max = 0, iv_openmin = False, iv_openmax = True, iv_integer = True, iv_empty = False\<rparr>
   = (1, \<lparr>iv_min = 0, iv_max = - 1, iv_openmin = False, iv_openmax = False, iv_integer = True, iv_empty = False\<rparr>)"
  by (simp add: interval_refine_def interval_any_def raise_min_def lower_max_def close_min_def close_max_def interval_verdict_def Let_def)

end
