(* ===== verification/Alsa_Masks.thy ===== *)
theory Alsa_Masks
  imports Alsa_Params
begin

text \<open>
  Masks as sets of numbers: the bits of words, of lists of words, and what the operations on masks do to the set.
\<close>

unbundle bit_operations_syntax

section \<open>The bits of a word\<close>

definition bits :: "32 word \<Rightarrow> nat set" where
  "bits w = {n. bit w n}"

lemma bits_range: "n \<in> bits w \<Longrightarrow> n < 32"
  using bit_imp_le_length [of w n] by (simp add: bits_def)

lemma bits_empty: "bits w = {} \<longleftrightarrow> w = 0"
  using bits_range [of _ w] by (auto simp: bits_def bit_eq_iff)

definition least :: "nat set \<Rightarrow> nat \<Rightarrow> bool" where
  "least S n \<longleftrightarrow> n \<in> S \<and> (\<forall>k\<in>S. n \<le> k)"

definition greatest :: "nat set \<Rightarrow> nat \<Rightarrow> bool" where
  "greatest S n \<longleftrightarrow> n \<in> S \<and> (\<forall>k\<in>S. k \<le> n)"

definition at_most_one :: "nat set \<Rightarrow> bool" where
  "at_most_one S \<longleftrightarrow> (\<forall>a\<in>S. \<forall>b\<in>S. a = b)"

lemma ffs_least:
  assumes "w \<noteq> 0"
  shows "least (bits w) (ffs w - 1)"
proof -
  define k where "k = (LEAST n. n \<in> bits w)"
  obtain n where "n \<in> bits w" using assms bits_empty by blast
  then have k: "k \<in> bits w" "\<forall>j\<in>bits w. k \<le> j" unfolding k_def by (auto intro: LeastI Least_le)
  have "k < 32" using k(1) by (rule bits_range)
  have "takeWhile (\<lambda>n. \<not> bit w n) [0..<32] = [0..<k]"
  proof -
    have "[0..<32] = [0..<k] @ k # [Suc k..<32]"
      using \<open>k < 32\<close> upt_add_eq_append [of 0 k "32 - k"] upt_conv_Cons [of k 32] by simp
    moreover have "\<forall>j\<in>set [0..<k]. \<not> bit w j" using k(2) by (fastforce simp: bits_def)
    ultimately show ?thesis using k(1) by (simp add: takeWhile_append bits_def)
  qed
  then show ?thesis using k assms by (simp add: ffs_def least_def)
qed

text \<open>Each step of \<^verbatim>\<open>ld2\<close> drops low bits when higher ones are set.\<close>

lemma unat_drop: "unat (drop_bit s v) = unat v div 2 ^ s" for v :: "32 word"
  unfolding unat_drop_bit_eq by (rule drop_bit_eq_div)

lemma ld2_step:
  fixes v v' c :: "32 word"
  assumes "(v', r') = (if c \<le> v then (drop_bit s v, r + s) else (v, r))" and "unat v = x div 2 ^ r" and "0 < unat v"
    and "unat v < 2 ^ s * 2 ^ s" and "unat c = 2 ^ s"
  shows "unat v' = x div 2 ^ r' \<and> 0 < unat v' \<and> unat v' < 2 ^ s"
proof (cases "c \<le> v")
  case True
  then have "2 ^ s \<le> unat v" using assms(5) by (simp add: word_le_nat_alt)
  then have "0 < unat v div 2 ^ s" by (simp add: div_greater_zero_iff)
  then show ?thesis
    using True assms(1,2) less_mult_imp_div_less [OF assms(4)] by (simp add: unat_drop div_mult2_eq power_add)
next
  case False
  then have "unat v < 2 ^ s" using assms(5) by (simp add: word_le_nat_alt)
  then show ?thesis using False assms(1-3) by simp
qed

lemma ld2_greatest:
  assumes "w \<noteq> 0"
  shows "greatest (bits w) (ld2 w)"
proof -
  define x where "x = unat w"
  obtain v1 r1 where 1: "(v1, r1) = (if w \<ge> 0x10000 then (drop_bit 16 w, 16 :: nat) else (w, 0))" by (metis surj_pair)
  obtain v2 r2 where 2: "(v2, r2) = (if v1 \<ge> 0x100 then (drop_bit 8 v1, r1 + 8) else (v1, r1))" by (metis surj_pair)
  obtain v3 r3 where 3: "(v3, r3) = (if v2 \<ge> 0x10 then (drop_bit 4 v2, r2 + 4) else (v2, r2))" by (metis surj_pair)
  obtain v4 r4 where 4: "(v4, r4) = (if v3 \<ge> 4 then (drop_bit 2 v3, r3 + 2) else (v3, r3))" by (metis surj_pair)
  have "unat w < 2 ^ LENGTH(32)" by (rule unsigned_less)
  then have w: "unat w = x div 2 ^ 0" "0 < unat w" "unat w < 2 ^ 16 * 2 ^ 16" using assms by (simp_all add: x_def unat_gt_0)
  have "(v1, r1) = (if w \<ge> 0x10000 then (drop_bit 16 w, 0 + 16) else (w, 0))" using 1 by (simp only: add_0)
  then have v1: "unat v1 = x div 2 ^ r1 \<and> 0 < unat v1 \<and> unat v1 < 2 ^ 16" by (rule ld2_step [OF _ w]) simp
  have v2: "unat v2 = x div 2 ^ r2 \<and> 0 < unat v2 \<and> unat v2 < 2 ^ 8" using v1 by (intro ld2_step [OF 2]) simp_all
  have v3: "unat v3 = x div 2 ^ r3 \<and> 0 < unat v3 \<and> unat v3 < 2 ^ 4" using v2 by (intro ld2_step [OF 3]) simp_all
  have v4: "unat v4 = x div 2 ^ r4 \<and> 0 < unat v4 \<and> unat v4 < 2 ^ 2" using v3 by (intro ld2_step [OF 4]) simp_all
  have "ld2 w = (if v4 \<ge> 2 then r4 + 1 else r4)"
    by (simp only: ld2_def Let_def 1 [symmetric] 2 [symmetric] 3 [symmetric] 4 [symmetric] prod.case)
  moreover have "v4 \<ge> 2 \<longleftrightarrow> 2 \<le> unat v4" by (simp add: word_le_nat_alt)
  moreover have "unat v4 \<in> {1, 2, 3}" using v4 by auto
  ultimately have top: "x div 2 ^ ld2 w = 1"
    using v4 div_mult2_eq [of x "2 ^ r4" 2] by (auto simp: mult.commute)
  have odd: "n \<in> bits w \<longleftrightarrow> odd (x div 2 ^ n)" for n
    using bit_imp_le_length [of w n] by (auto simp: bits_def x_def bit_iff_odd [of "unat w", symmetric] bit_unsigned_iff)
  show ?thesis
    unfolding greatest_def
  proof (intro conjI ballI)
    show "ld2 w \<in> bits w" using top by (simp add: odd)
    fix k assume "k \<in> bits w"
    then have "odd (x div 2 ^ k)" by (simp add: odd)
    show "k \<le> ld2 w"
    proof (rule ccontr)
      assume "\<not> k \<le> ld2 w"
      then have "(2 :: nat) ^ k = 2 ^ ld2 w * 2 ^ (k - ld2 w)" "0 < k - ld2 w" by (simp_all flip: power_add)
      then have "x div 2 ^ k = 1 div 2 ^ (k - ld2 w)" "0 < k - ld2 w" by (simp_all only: div_mult2_eq top)
      then have "x div 2 ^ k = 0" using one_less_power [of "2 :: nat" "k - ld2 w"] by simp
      then show False using \<open>odd (x div 2 ^ k)\<close> by simp
    qed
  qed
qed

text \<open>Taking one away clears the lowest bit and sets those below it.\<close>

lemma lowest_cleared:
  assumes "least (bits w) k"
  shows "bits (w AND (w - 1)) = bits w - {k}"
proof -
  define p where "p = push_bit (Suc k) (drop_bit (Suc k) w)"
  have "k < 32" using assms bits_range [of k w] by (simp add: least_def)
  have low: "bit w j \<longleftrightarrow> j = k" if "j \<le> k" for j using assms that by (auto simp: least_def bits_def)
  have high: "k < j" if "bit w j" "j \<noteq> k" for j using low [of j] that by (metis linorder_not_less)
  have p: "bit p j \<longleftrightarrow> k < j \<and> bit w j" for j
    unfolding p_def bit_push_bit_iff bit_drop_bit_eq comp_def using bit_imp_le_length [of w j] by (auto simp: Suc_le_eq)
  have single: "bit (push_bit k 1 :: 32 word) j \<longleftrightarrow> j = k" for j
    using \<open>k < 32\<close> by (auto simp: push_bit_of_1 bit_exp_iff)
  have apart: "p AND push_bit k 1 = 0" "p AND mask k = 0"
    by (rule bit_word_eqI; auto simp: bit_and_iff p single bit_mask_iff simp del: push_bit_of_1)+
  have "w = p OR push_bit k 1"
    using \<open>k < 32\<close> low
    by (intro bit_word_eqI) (auto simp: bit_or_iff p single simp del: push_bit_of_1, metis linorder_not_less)
  then have "w = p + push_bit k 1" using apart(1) by (simp add: disjunctive_add_eq_or)
  then have "w - 1 = p + mask k" by (simp add: mask_eq_exp_minus_1 push_bit_of_1)
  then have "w - 1 = p OR mask k" using apart(2) by (simp add: disjunctive_add_eq_or)
  then show ?thesis
    using low high bit_imp_le_length [of w] by (auto simp: bits_def bit_and_iff bit_or_iff p bit_mask_iff)
qed

lemma single_bit:
  assumes "w \<noteq> 0"
  shows "w AND (w - 1) = 0 \<longleftrightarrow> at_most_one (bits w)"
proof -
  note l = ffs_least [OF assms]
  have "w AND (w - 1) = 0 \<longleftrightarrow> bits w - {ffs w - 1} = {}"
    using bits_empty [of "w AND (w - 1)"] lowest_cleared [OF l] by simp
  also have "\<dots> \<longleftrightarrow> at_most_one (bits w)" using l by (auto simp: at_most_one_def least_def)
  finally show ?thesis .
qed

section \<open>The bits of a list of words\<close>

definition set_of :: "32 word list \<Rightarrow> nat set" where
  "set_of ws = {n. n div 32 < length ws \<and> n mod 32 \<in> bits (ws ! (n div 32))}"

lemma set_of_Nil [simp]: "set_of [] = {}"
  by (simp add: set_of_def)

lemma set_of_Cons: "set_of (w # ws) = bits w \<union> (+) 32 ` set_of ws"
proof (intro set_eqI)
  fix n
  show "n \<in> set_of (w # ws) \<longleftrightarrow> n \<in> bits w \<union> (+) 32 ` set_of ws"
  proof (cases "n < 32")
    case True
    then show ?thesis by (auto simp: set_of_def)
  next
    case False
    then obtain m where "n = 32 + m" using le_Suc_ex not_less by blast
    then show ?thesis using bits_range [of n w] by (auto simp: set_of_def)
  qed
qed

lemma set_of_snoc: "set_of (ws @ [w]) = set_of ws \<union> (+) (32 * length ws) ` bits w"
  by (induction ws) (auto simp: set_of_Cons image_Un image_image algebra_simps)

lemma mask_empty_set: "mask_empty_loop ws \<longleftrightarrow> set_of ws = {}"
  by (induction ws) (auto simp: set_of_Cons bits_empty)

lemma mask_single_set: "mask_single_loop c ws \<longleftrightarrow> (if c = 0 then at_most_one (set_of ws) else set_of ws = {})"
proof (induction ws arbitrary: c)
  case Nil
  then show ?case by (simp add: at_most_one_def)
next
  case (Cons w ws)
  show ?case
  proof (cases "w = 0")
    case True
    then show ?thesis using Cons.IH [of c] bits_empty [of w] by (auto simp: set_of_Cons at_most_one_def)
  next
    case False
    then obtain k where k: "k \<in> bits w" "k < 32" using bits_empty [of w] bits_range [of _ w] by auto
    have "at_most_one (bits w \<union> (+) 32 ` set_of ws) \<longleftrightarrow> at_most_one (bits w) \<and> set_of ws = {}"
    proof
      assume one: "at_most_one (bits w \<union> (+) 32 ` set_of ws)"
      have "32 + m = k" if "m \<in> set_of ws" for m using one that k(1) by (auto simp: at_most_one_def)
      then show "at_most_one (bits w) \<and> set_of ws = {}" using one k(2) by (auto simp: at_most_one_def)
    qed (auto simp: at_most_one_def)
    then show ?thesis using False Cons.IH [of "Suc c"] single_bit [OF False] k(1) by (auto simp: set_of_Cons)
  qed
qed

lemma mask_min_set: "set_of ws \<noteq> {} \<Longrightarrow> least ((+) (32 * i) ` set_of ws) (mask_min_loop i ws)"
proof (induction ws arbitrary: i)
  case (Cons w ws)
  show ?case
  proof (cases "w = 0")
    case True
    then have "(+) (32 * i) ` set_of (w # ws) = (+) (32 * (i + 1)) ` set_of ws" using bits_empty [of w] by (auto simp: set_of_Cons image_image)
    then show ?thesis using Cons.IH [of "Suc i"] Cons.prems True bits_empty [of w] by (simp add: set_of_Cons)
  next
    case False
    from ffs_least [OF this] bits_range [of "ffs w - 1" w] show ?thesis
      using False by (auto simp: least_def set_of_Cons push_bit_eq_mult image_Un)
  qed
qed simp

lemma mask_max_set: "set_of ws \<noteq> {} \<Longrightarrow> greatest (set_of ws) (mask_max_loop (rev ws))"
proof (induction ws rule: rev_induct)
  case (snoc w ws)
  have small: "k < 32 * length ws" if "k \<in> set_of ws" for k using that by (simp add: set_of_def) linarith
  show ?case
  proof (cases "w = 0")
    case True
    then show ?thesis using snoc bits_empty [of w] by (simp add: set_of_snoc)
  next
    case False
    from ld2_greatest [OF this] show ?thesis
      using False small by (fastforce simp: greatest_def set_of_snoc push_bit_eq_mult)
  qed
qed simp

section \<open>The operations on masks\<close>

text \<open>One of the three masks in the memory of the parameters, and the numbers in it.\<close>

definition mask_ok :: "mask_mem \<Rightarrow> nat \<Rightarrow> bool" where
  "mask_ok mem m \<longleftrightarrow> length mem = 64 \<and> m < 3"

definition mask_set :: "mask_mem \<Rightarrow> nat \<Rightarrow> nat set" where
  "mask_set mem m = set_of (mask_words mem m)"

lemma mask_set_iff:
  assumes "mask_ok mem m"
  shows "n \<in> mask_set mem m \<longleftrightarrow> n < 256 \<and> bit (mem ! (8 * m + n div 32)) (n mod 32)"
proof -
  have "length (mask_words mem m) = 8" "n div 32 < 8 \<Longrightarrow> mask_words mem m ! (n div 32) = mem ! (8 * m + n div 32)"
    using assms by (auto simp: mask_ok_def mask_words_def MASK_SIZE_def)
  moreover have "n div 32 < 8 \<longleftrightarrow> n < 256" by linarith
  ultimately show ?thesis by (auto simp: mask_set_def set_of_def bits_def)
qed

lemma mask_ops:
  "mask_empty mem m \<longleftrightarrow> mask_set mem m = {}"
  "mask_single mem m \<longleftrightarrow> at_most_one (mask_set mem m)"
  "mask_set mem m \<noteq> {} \<Longrightarrow> least (mask_set mem m) (mask_min mem m)"
  "mask_set mem m \<noteq> {} \<Longrightarrow> greatest (mask_set mem m) (mask_max mem m)"
  using mask_min_set [of "mask_words mem m" 0] mask_max_set [of "mask_words mem m"]
  by (simp_all add: mask_empty_def mask_single_def mask_empty_set mask_single_set mask_set_def mask_min_def mask_max_def)

lemma mask_bit: "bit (MASK_BIT i) j \<longleftrightarrow> j = i mod 32"
proof -
  have "i AND 31 = i mod 32" using take_bit_eq_mask [of 5 i] by (simp add: take_bit_eq_mod mask_eq_exp_minus_1)
  then show ?thesis by (auto simp: MASK_BIT_def bit_exp_iff)
qed

lemma mask_ofs: "MASK_OFS i = i div 32"
  by (simp add: MASK_OFS_def drop_bit_eq_div)

lemma mask_leave_set:
  assumes "mask_ok mem m" and "val < 256"
  shows "\<exists>mem'. mask_leave mem m val = Inr mem' \<and> mask_ok mem' m \<and> mask_set mem' m = mask_set mem m \<inter> {val}
     \<and> (\<forall>m'. m' < 3 \<longrightarrow> m' \<noteq> m \<longrightarrow> mask_words mem' m' = mask_words mem m')"
proof -
  have in_mem: "8 * m + val div 32 < 64" using assms by (simp add: mask_ok_def) linarith
  define zero where "zero = put_mask mem m (replicate MASK_SIZE 0)"
  define mem' where "mem' = zero[8 * m + val div 32 := mem ! (8 * m + val div 32) AND MASK_BIT val]"
  have zero: "length zero = 64" "k < 8 \<Longrightarrow> zero ! (8 * m + k) = 0" for k
    using assms(1) by (simp_all add: zero_def put_mask_def mask_ok_def MASK_SIZE_def nth_append)
  have "mask_leave mem m val = Inr mem'"
    using assms(1) in_mem zero(1) by (simp add: mask_leave_def mask_ofs nth_res_def upd_res_def mask_ok_def mem'_def zero_def MASK_SIZE_def)
  moreover have ok: "mask_ok mem' m" using assms(1) zero(1) by (simp add: mask_ok_def mem'_def)
  moreover have "mask_set mem' m = mask_set mem m \<inter> {val}"
  proof (intro set_eqI)
    fix n :: nat
    have small: "n < 256 \<Longrightarrow> n div 32 < 8" by linarith
    have same: "n = val \<longleftrightarrow> n div 32 = val div 32 \<and> n mod 32 = val mod 32" by (metis div_mult_mod_eq)
    have word: "n < 256 \<Longrightarrow> mem' ! (8 * m + n div 32) = (if n div 32 = val div 32 then mem ! (8 * m + n div 32) AND MASK_BIT val else 0)"
      using in_mem zero small by (simp add: mem'_def nth_list_update)
    show "n \<in> mask_set mem' m \<longleftrightarrow> n \<in> mask_set mem m \<inter> {val}"
      unfolding mask_set_iff [OF ok] mask_set_iff [OF assms(1)] Int_iff singleton_iff same
      using word by (auto simp: bit_and_iff mask_bit split: if_splits)
  qed
  moreover have "mask_words mem' m' = mask_words mem m'" if "m' < 3" "m' \<noteq> m" for m'
  proof -
    have "mem' ! (8 * m' + k) = mem ! (8 * m' + k)" if "k < 8" for k
    proof -
      have "8 * m' + k \<noteq> 8 * m + val div 32" "8 * m' + k < 8 * m \<or> 8 * m + 8 \<le> 8 * m' + k"
        using that \<open>m' \<noteq> m\<close> assms(2) by (auto simp: nat_neq_iff)
      then show ?thesis
        using assms(1) \<open>m' < 3\<close> that by (auto simp: mem'_def zero_def put_mask_def mask_ok_def MASK_SIZE_def nth_append nth_list_update)
    qed
    then show ?thesis
      using assms(1) zero(1) \<open>m' < 3\<close> by (intro nth_equalityI) (auto simp: mask_words_def mask_ok_def MASK_SIZE_def mem'_def)
  qed
  ultimately show ?thesis by blast
qed

lemma mask_refine_set_meets:
  assumes "mask_ok mem m" and "val < 256" and "mask_set mem m \<noteq> {}"
  shows "\<exists>r mem'. mask_refine_set mem m val = Inr (r, mem') \<and> mask_ok mem' m \<and> mask_set mem' m = mask_set mem m \<inter> {val}
     \<and> r = (if val \<notin> mask_set mem m then - EINVAL else if mask_set mem m = {val} then 0 else 1)
     \<and> (\<forall>m'. m' < 3 \<longrightarrow> m' \<noteq> m \<longrightarrow> mask_set mem' m' = mask_set mem m')"
proof -
  obtain mem' where "mask_leave mem m val = Inr mem'" "mask_ok mem' m" "mask_set mem' m = mask_set mem m \<inter> {val}"
    "\<forall>m'. m' < 3 \<longrightarrow> m' \<noteq> m \<longrightarrow> mask_words mem' m' = mask_words mem m'"
    using mask_leave_set [OF assms(1,2)] by blast
  moreover have "val \<in> mask_set mem m \<Longrightarrow> at_most_one (mask_set mem m) \<longleftrightarrow> mask_set mem m = {val}" by (auto simp: at_most_one_def)
  ultimately show ?thesis using assms(3) by (auto simp: mask_refine_set_def mask_ops) (auto simp: mask_set_def)
qed

text \<open>Clearing a range, also past the end of the mask; \<open>mem_set\<close> are the bits of the whole memory.\<close>

definition mem_bit :: "mask_mem \<Rightarrow> nat \<Rightarrow> nat \<Rightarrow> bool" where
  "mem_bit mem m n = bit (mem ! (8 * m + n div 32)) (n mod 32)"

lemma reset_range_bits:
  assumes "length mem = 64" and "8 * m + to div 32 < 64"
  shows "\<exists>mem'. mask_reset_range mem m i to = Inr mem' \<and> length mem' = 64 \<and> take (8 * m) mem' = take (8 * m) mem
     \<and> (\<forall>n. mem_bit mem' m n \<longleftrightarrow> mem_bit mem m n \<and> \<not> (i \<le> n \<and> n \<le> to))"
  using assms
proof (induction "to + 1 - i" arbitrary: i mem)
  case 0
  then show ?case by (simp add: mask_reset_range.simps [of mem m i])
next
  case (Suc d)
  then have "i \<le> to" by simp
  then have "i div 32 \<le> to div 32" by (rule div_le_mono)
  then have in_mem: "8 * m + i div 32 < 64" using Suc.prems(2) by simp
  define mem1 where "mem1 = mem[8 * m + i div 32 := mem ! (8 * m + i div 32) AND NOT (MASK_BIT i)]"
  have step: "mask_reset_range mem m i to = mask_reset_range mem1 m (i + 1) to"
    using \<open>i \<le> to\<close> in_mem Suc.prems(1)
    by (simp add: mask_reset_range.simps [of mem m i] mask_ofs nth_res_def upd_res_def mem1_def MASK_SIZE_def)
  have mem1: "length mem1 = 64" "take (8 * m) mem1 = take (8 * m) mem" using Suc.prems(1) by (simp_all add: mem1_def)
  have bits1: "mem_bit mem1 m n \<longleftrightarrow> mem_bit mem m n \<and> n \<noteq> i" for n
  proof -
    have "n = i \<longleftrightarrow> n div 32 = i div 32 \<and> n mod 32 = i mod 32" by (metis div_mult_mod_eq)
    then show ?thesis
      using in_mem Suc.prems(1) by (auto simp: mem_bit_def mem1_def nth_list_update bit_and_iff bit_not_iff mask_bit)
  qed
  have "d = to + 1 - (i + 1)" using Suc.hyps(2) by simp
  from Suc.hyps(1) [OF this mem1(1) Suc.prems(2)] show ?case
    unfolding step using mem1(2) bits1 \<open>i \<le> to\<close> by (auto simp: Suc_le_eq)
qed

lemma mem_bit_set: "mask_ok mem m \<Longrightarrow> n \<in> mask_set mem m \<longleftrightarrow> n < 256 \<and> mem_bit mem m n"
  by (simp add: mask_set_iff mem_bit_def)

lemma mem_bit_next: "mem_bit mem (m + 1) n \<longleftrightarrow> mem_bit mem m (n + 256)"
proof -
  have "(n + 256) div 32 = n div 32 + 8" "(n + 256) mod 32 = n mod 32" using mod_mult_self2 [of n 32 8] by simp_all
  then show ?thesis by (simp add: mem_bit_def algebra_simps)
qed

lemma mask_refine_min_meets:
  assumes "mask_ok mem m" and "val \<le> 256" and "mask_set mem m \<noteq> {}"
  shows "\<exists>r mem'. mask_refine_min mem m val = Inr (r, mem') \<and> mask_ok mem' m \<and> mask_set mem' m = mask_set mem m \<inter> {val..}
     \<and> (r = - EINVAL \<longleftrightarrow> mask_set mem' m = {}) \<and> (r = 0 \<longleftrightarrow> mask_set mem m \<subseteq> {val..})"
proof (cases "val \<le> mask_min mem m")
  case True
  then have "mask_set mem m \<subseteq> {val..}" using mask_ops(3) [OF assms(3)] by (auto simp: least_def intro: order_trans)
  then show ?thesis using True assms by (auto simp: mask_refine_min_def mask_ops)
next
  case False
  then have some: "\<not> mask_set mem m \<subseteq> {val..}" "0 < val" using mask_ops(3) [OF assms(3)] by (auto simp: least_def)
  have "(val - 1) div 32 \<le> 255 div 32" using assms(2) by (intro div_le_mono) simp
  then have "8 * m + (val - 1) div 32 < 64" using assms(1) by (simp add: mask_ok_def)
  from reset_range_bits [OF _ this, of mem 0] assms(1) obtain mem' where mem':
    "mask_reset_range mem m 0 (val - 1) = Inr mem'" "length mem' = 64" "\<And>n. mem_bit mem' m n \<longleftrightarrow> mem_bit mem m n \<and> \<not> n \<le> val - 1"
    by (auto simp: mask_ok_def)
  then have ok: "mask_ok mem' m" using assms(1) by (simp add: mask_ok_def)
  have "mask_set mem' m = mask_set mem m \<inter> {val..}"
    using some(2) by (auto simp: mem_bit_set [OF ok] mem_bit_set [OF assms(1)] mem'(3))
  moreover have "mask_refine_min mem m val = Inr (if mask_set mem' m = {} then - EINVAL else 1, mem')"
    using False assms(3) mem'(1) by (simp add: mask_refine_min_def mask_ops)
  ultimately show ?thesis using some ok by simp
qed

text \<open>
  Narrowing from above goes one number too far: with something to remove, it also clears the first bit behind the mask,
  which is number 0 of the next mask.
\<close>

lemma mask_refine_max_meets:
  assumes "mask_ok mem m" and "mask_set mem m \<noteq> {}"
  shows "\<exists>r mem'. mask_refine_max mem m val = Inr (r, mem') \<and> mask_ok mem' m \<and> mask_set mem' m = mask_set mem m \<inter> {..val}
     \<and> (r = - EINVAL \<longleftrightarrow> mask_set mem' m = {}) \<and> (r = 0 \<longleftrightarrow> mask_set mem m \<subseteq> {..val})
     \<and> (m < 2 \<longrightarrow> mask_set mem' (m + 1) = (if mask_set mem m \<subseteq> {..val} then mask_set mem (m + 1) else mask_set mem (m + 1) - {0}))"
proof (cases "mask_max mem m \<le> val")
  case True
  then have "mask_set mem m \<subseteq> {..val}" using mask_ops(4) [OF assms(2)] by (auto simp: greatest_def intro: order_trans)
  then show ?thesis using True assms by (auto simp: mask_refine_max_def mask_ops)
next
  case False
  then have some: "\<not> mask_set mem m \<subseteq> {..val}" using mask_ops(4) [OF assms(2)] by (auto simp: greatest_def)
  then obtain n where "n \<in> mask_set mem m" "val < n" by (metis atMost_iff linorder_not_less subsetI)
  then have small: "val < 256" using mem_bit_set [OF assms(1), of n] by simp
  have "8 * m + 256 div 32 < 64" using assms(1) by (simp add: mask_ok_def)
  from reset_range_bits [OF _ this, of mem "val + 1"] assms(1) obtain mem' where mem':
    "mask_reset_range mem m (val + 1) SNDRV_MASK_MAX = Inr mem'" "length mem' = 64"
    "\<And>n. mem_bit mem' m n \<longleftrightarrow> mem_bit mem m n \<and> \<not> (val + 1 \<le> n \<and> n \<le> 256)"
    by (auto simp: mask_ok_def SNDRV_MASK_MAX_def)
  then have ok: "mask_ok mem' m" using assms(1) by (simp add: mask_ok_def)
  have set: "mask_set mem' m = mask_set mem m \<inter> {..val}"
    using small by (auto simp: mem_bit_set [OF ok] mem_bit_set [OF assms(1)] mem'(3))
  have behind: "m < 2 \<longrightarrow> mask_set mem' (m + 1) = mask_set mem (m + 1) - {0}"
  proof
    assume "m < 2"
    then have next': "mask_ok mem (m + 1)" "mask_ok mem' (m + 1)" using assms(1) ok by (simp_all add: mask_ok_def)
    have "n \<in> mask_set mem' (m + 1) \<longleftrightarrow> n \<in> mask_set mem (m + 1) \<and> n \<noteq> 0" for n
      unfolding mem_bit_set [OF next'(1)] mem_bit_set [OF next'(2)] mem_bit_next mem'(3) using small by auto
    then show "mask_set mem' (m + 1) = mask_set mem (m + 1) - {0}" by blast
  qed
  have result: "mask_refine_max mem m val = Inr (if mask_set mem' m = {} then - EINVAL else 1, mem')"
    using False assms(2) mem'(1) by (simp add: mask_refine_max_def mask_ops)
  show ?thesis
    by (rule exI [of _ "if mask_set mem' m = {} then - EINVAL else 1"], rule exI [of _ mem'], intro conjI)
      (rule result, rule ok, rule set, simp, simp add: some, unfold if_not_P [OF some], rule behind)
qed

end
