(* ===== verification/Alsa_Pcm.thy ===== *)
theory Alsa_Pcm
  imports Alsa_Refine Alsa_Masks Bytes
begin

text \<open>
  Playing and recording in \<^verbatim>\<open>alsa_pcm.c\<close> and the sample formats of \<^verbatim>\<open>alsa_util.c\<close> of \<^verbatim>\<open>blts-alsa-core\<close>: the parameters asked
  of a device and what is read back, the software parameters, the free space in the ring buffer, writing into its
  mapped memory, and the bytes of generated samples. The results of \<^verbatim>\<open>ioctl\<close> are arguments; \<^verbatim>\<open>long\<close> has 64 bits.
\<close>

unbundle bit_operations_syntax

section \<open>Formats and the check of parameters\<close>

text \<open>The numbers of formats and ways of access are the kernel's.\<close>

definition format_sample_sizes :: "(nat \<times> nat) list" where
  "format_sample_sizes = [(0, 8), (1, 8), (2, 16), (3, 16), (4, 16), (5, 16), (6, 24), (7, 24), (8, 24), (9, 24), (10, 32), (11, 32),
     (12, 32), (13, 32), (14, 32), (15, 32), (16, 64), (17, 64)]"

definition bits_per_sample :: "int \<Rightarrow> int" where
  "bits_per_sample format = (case find (\<lambda>(f, _). int f = format) format_sample_sizes of
     Some (_, n) \<Rightarrow> int n | None \<Rightarrow> - EINVAL)"

definition MAX_CARDS :: int where "MAX_CARDS = 32"
definition MAX_PCM_DEVICES :: int where "MAX_PCM_DEVICES = 64"
definition MAX_CHANNELS :: int where "MAX_CHANNELS = 10"

record pcm_params =
  pp_card :: int
  pp_device :: int
  pp_duration :: int
  pp_freq :: int
  pp_format :: int
  pp_rate :: int
  pp_channels :: int
  pp_hw_resampling :: int
  pp_access :: int
  pp_async :: int
  pp_period_size :: int
  pp_volume :: int
  pp_dir :: nat
  pp_link_card :: int
  pp_link_device :: int

definition check_pcm_params :: "pcm_params \<Rightarrow> int" where
  "check_pcm_params p =
    (let err = 0;
         err = (if pp_card p < 0 \<or> pp_card p \<ge> MAX_CARDS then - EINVAL else err);
         err = (if pp_device p < 0 \<or> pp_device p \<ge> MAX_PCM_DEVICES then - EINVAL else err);
         err = (if pp_format p \<in> {0, 2, 6, 10} then err else - EINVAL);
         err = (if pp_channels p < 1 \<or> pp_channels p \<ge> MAX_CHANNELS then - EINVAL else err);
         err = (if pp_access p \<in> {0, 1, 3, 4} then err else - EINVAL);
         err = (if pp_async p < 0 \<or> pp_async p > 2 then - EINVAL else err)
     in err)"

section \<open>Setting up a device\<close>

text \<open>What the two setup functions ask for, one parameter after the other; both contain this code.\<close>

definition NORESAMPLE :: "32 word" where "NORESAMPLE = 1"

definition and_then :: "(int \<times> 'p) res \<Rightarrow> ('p \<Rightarrow> (int \<times> 'p) res) \<Rightarrow> (int \<times> 'p) res" where
  "and_then r f = rbind r (\<lambda>(err, params). if err < 0 then Inr (err, params) else f params)"

definition request_params :: "pcm_params \<Rightarrow> snd_pcm_hw_params \<Rightarrow> (int \<times> snd_pcm_hw_params) res" where
  "request_params p params =
    (let params = params\<lparr>hp_flags := (if pp_hw_resampling p \<noteq> 0 then hp_flags params AND NOT NORESAMPLE else hp_flags params OR NORESAMPLE)\<rparr>;
         rate = word_of_int (pp_rate p)
     in and_then (pcm_hw_param_set params SNDRV_PCM_HW_PARAM_ACCESS (word_of_int (pp_access p)) 0) (\<lambda>params.
        and_then (pcm_hw_param_set params SNDRV_PCM_HW_PARAM_CHANNELS (word_of_int (pp_channels p)) 0) (\<lambda>params.
        and_then (pcm_hw_param_set_minmax params SNDRV_PCM_HW_PARAM_RATE rate 0 (rate + 1) (- 1)) (\<lambda>params.
        and_then (pcm_hw_param_set params SNDRV_PCM_HW_PARAM_FORMAT (word_of_int (pp_format p)) 0) (\<lambda>params.
        and_then (if pp_period_size p > 0
            then pcm_hw_param_set params SNDRV_PCM_HW_PARAM_PERIOD_SIZE (word_of_int (pp_period_size p)) 0 else Inr (0, params))
          (\<lambda>params. Inr (0, params)))))))"

record sw_params =
  sw_avail_min :: nat
  sw_start_threshold :: nat
  sw_stop_threshold :: nat
  sw_boundary :: "64 word"

record pcm_ioctls =
  io_refine :: "snd_pcm_hw_params \<Rightarrow> int \<times> snd_pcm_hw_params"
  io_hw_params :: "snd_pcm_hw_params \<Rightarrow> int \<times> snd_pcm_hw_params"
  io_sw_params :: "sw_params \<Rightarrow> int"

record pcm_sizes =
  period_size :: "32 word"
  buffer_size :: "32 word"
  frame_bits :: "32 word"
  start_threshold :: nat

text \<open>Reading the sizes back, each stored only if the call returns 0.\<close>

definition read_sizes :: "snd_pcm_hw_params \<Rightarrow> pcm_sizes \<Rightarrow> int \<times> pcm_sizes" where
  "read_sizes params hw = (case pcm_hw_param_get params SNDRV_PCM_HW_PARAM_PERIOD_SIZE of (err, None) \<Rightarrow> (err, hw)
     | (_, Some (period, _)) \<Rightarrow> let hw = hw\<lparr>period_size := period\<rparr>
       in case pcm_hw_param_get params SNDRV_PCM_HW_PARAM_BUFFER_SIZE of (err, None) \<Rightarrow> (err, hw)
     | (_, Some (frames, _)) \<Rightarrow> let hw = hw\<lparr>buffer_size := frames\<rparr>
       in case pcm_hw_param_get params SNDRV_PCM_HW_PARAM_FRAME_BITS of (err, None) \<Rightarrow> (err, hw)
     | (_, Some (fbits, _)) \<Rightarrow> (0, hw\<lparr>frame_bits := fbits\<rparr>))"

definition LONG_MAX :: "64 word" where "LONG_MAX = 0x7fffffffffffffff"

text \<open>Doubling the boundary; \<open>None\<close> if that never ends.\<close>

partial_function (option) boundary_loop :: "64 word \<Rightarrow> 64 word \<Rightarrow> 64 word option" where
  [code]: "boundary_loop bs b = (if b * 2 \<le> LONG_MAX - bs then boundary_loop bs (b * 2) else Some b)"

definition threshold :: "pcm_sizes \<Rightarrow> nat res" where
  "threshold hw = (if period_size hw = 0 then Inl Division_By_Zero
     else Inr (unat (buffer_size hw) div unat (period_size hw) * unat (period_size hw)))"

definition sw_request :: "pcm_sizes \<Rightarrow> (pcm_sizes \<times> sw_params) res" where
  "sw_request hw = rbind (threshold hw) (\<lambda>start. case boundary_loop (ucast (buffer_size hw)) (ucast (buffer_size hw)) of
     None \<Rightarrow> Inl Endless_Loop
   | Some b \<Rightarrow> Inr (hw\<lparr>start_threshold := start\<rparr>, \<lparr>sw_avail_min = unat (period_size hw), sw_start_threshold = start,
       sw_stop_threshold = unat (buffer_size hw), sw_boundary = b\<rparr>))"

definition negotiate :: "pcm_ioctls \<Rightarrow> pcm_params \<Rightarrow> snd_pcm_hw_params \<Rightarrow> pcm_sizes \<Rightarrow> (int \<times> snd_pcm_hw_params \<times> pcm_sizes) res" where
  "negotiate io p params hw =
    (let (err, params) = io_refine io params
     in if err \<noteq> 0 then Inr (err, params, hw)
        else rbind (request_params p params) (\<lambda>(err, params).
          if err < 0 then Inr (err, params, hw)
          else let (err, params) = io_refine io params
            in if err \<noteq> 0 then Inr (err, params, hw)
               else let (err, params) = io_hw_params io params
                 in if err \<noteq> 0 then Inr (err, params, hw)
                    else let (err, hw) = read_sizes params hw in Inr (err, params, hw)))"

definition setup_playback_params :: "pcm_ioctls \<Rightarrow> pcm_params \<Rightarrow> snd_pcm_hw_params \<Rightarrow> pcm_sizes
    \<Rightarrow> (int \<times> snd_pcm_hw_params \<times> pcm_sizes) res" where
  "setup_playback_params io p params hw = rbind (negotiate io p params hw) (\<lambda>(err, params, hw).
     if err \<noteq> 0 then Inr (err, params, hw)
     else rbind (sw_request hw) (\<lambda>(hw, sw). let err = io_sw_params io sw in Inr (err, params, hw)))"

definition setup_recording_params :: "pcm_ioctls \<Rightarrow> pcm_params \<Rightarrow> snd_pcm_hw_params \<Rightarrow> pcm_sizes
    \<Rightarrow> (int \<times> snd_pcm_hw_params \<times> pcm_sizes) res" where
  "setup_recording_params io p params hw = rbind (negotiate io p params hw) (\<lambda>(err, params, hw).
     if err \<noteq> 0 then Inr (err, params, hw)
     else rbind (threshold hw) (\<lambda>start. Inr (0, params, hw\<lparr>start_threshold := start\<rparr>)))"

section \<open>Generated samples\<close>

text \<open>
  The samples of \<^verbatim>\<open>generate_sine\<close> are the argument \<open>sine\<close>, by the number of the frame; the model is of the bytes
  it writes. A sample is an \<^verbatim>\<open>int\<close>, read byte by byte. The count of left-over bits is an unsigned number.
\<close>

definition left_over_bits :: "32 word \<Rightarrow> 32 word \<Rightarrow> int \<Rightarrow> nat" where
  "left_over_bits fbits channels bps = unat (fbits div channels - word_of_int bps)"

fun sample_bytes :: "nat \<Rightarrow> byte list \<Rightarrow> byte list res" where
  "sample_bytes 0 bs = Inr []"
| "sample_bytes (Suc n) [] = Inl Out_Of_Bounds"
| "sample_bytes (Suc n) (b # bs) = rbind (sample_bytes n bs) (\<lambda>r. Inr (b # r))"

definition frame_bytes :: "nat \<Rightarrow> nat \<Rightarrow> nat \<Rightarrow> 32 word \<Rightarrow> byte list res" where
  "frame_bytes channels n left sample = rbind (sample_bytes n (le32 sample)) (\<lambda>bs.
     Inr (concat (replicate channels (bs @ replicate left 0))))"

fun frames_bytes :: "nat \<Rightarrow> nat \<Rightarrow> nat \<Rightarrow> (nat \<Rightarrow> 32 word) \<Rightarrow> nat \<Rightarrow> byte list res" where
  "frames_bytes channels n left sine 0 = Inr []"
| "frames_bytes channels n left sine (Suc k) = rbind (frames_bytes channels n left sine k) (\<lambda>bs.
     rbind (frame_bytes channels n left (sine k)) (\<lambda>fs. Inr (bs @ fs)))"

definition generate_sine :: "byte list \<Rightarrow> int \<Rightarrow> 32 word \<Rightarrow> int \<Rightarrow> 32 word \<Rightarrow> (nat \<Rightarrow> 32 word) \<Rightarrow> (int \<times> byte list) res" where
  "generate_sine samples count channels format fbits sine =
    (let bps = bits_per_sample format
     in if channels = 0 then Inl Division_By_Zero
        else rbind (frames_bytes (unat channels) (nat (bps mod 2 ^ 32) div 8) (left_over_bits fbits channels bps div 8) sine (nat count))
          (\<lambda>bs. rbind (write_bytes samples 0 bs) (\<lambda>samples. Inr (0, samples))))"

section \<open>The ring buffer\<close>

definition calc_framesize :: "pcm_sizes \<Rightarrow> nat" where
  "calc_framesize hw = unat (frame_bits hw) div 8"

text \<open>
  The positions of the device and of the program are free-running counts of frames; what lies between is cut to 32
  bits and moved by the size of the buffer once.
\<close>

definition play_buffer_avail :: "int \<Rightarrow> pcm_sizes \<Rightarrow> 64 word \<Rightarrow> 64 word \<Rightarrow> int" where
  "play_buffer_avail err hw hw_ptr appl_ptr =
    (if err < 0 then err
     else let avail = (ucast (hw_ptr + ucast (buffer_size hw) - appl_ptr) :: 32 word)
       in sint (if avail <s 0 then avail + buffer_size hw
                else if buffer_size hw \<le>s avail then avail - buffer_size hw else avail))"

definition rec_buffer_avail :: "int \<Rightarrow> pcm_sizes \<Rightarrow> 64 word \<Rightarrow> 64 word \<Rightarrow> int" where
  "rec_buffer_avail err hw hw_ptr appl_ptr =
    (if err < 0 then err
     else let avail = (ucast (hw_ptr - appl_ptr) :: 32 word)
       in sint (if avail <s 0 then avail + buffer_size hw else avail))"

definition STATE_PREPARED :: int where "STATE_PREPARED = 2"
definition STATE_RUNNING :: int where "STATE_RUNNING = 3"

text \<open>What the device answers in one pass of the loop of \<^verbatim>\<open>pcm_mmap_writei\<close>.\<close>

record write_pass =
  wp_state :: int
  wp_hwsync :: int
  wp_sync_err :: int
  wp_hw_ptr :: "64 word"
  wp_avail_min :: nat
  wp_state_again :: int
  wp_start :: int

record write_state =
  ws_appl_ptr :: "64 word"
  ws_c_off :: "64 word"
  ws_left :: nat
  ws_offset :: nat
  ws_err :: int
  ws_channels :: "byte list list"

text \<open>Frames from the program's buffer into each channel's memory, at the position of the pass.\<close>

fun copy_channels :: "byte list \<Rightarrow> nat \<Rightarrow> byte list list \<Rightarrow> byte list list res" where
  "copy_channels bs pos [] = Inr []"
| "copy_channels bs pos (ch # chs) = rbind (write_bytes ch pos bs) (\<lambda>ch. rbind (copy_channels bs pos chs) (\<lambda>chs. Inr (ch # chs)))"

text \<open>\<open>None\<close> when the loop goes on, \<open>Some\<close> when it is left by \<^verbatim>\<open>break\<close>.\<close>

definition write_step :: "bool \<Rightarrow> pcm_sizes \<Rightarrow> byte list \<Rightarrow> write_pass \<Rightarrow> write_state \<Rightarrow> (unit option \<times> write_state) res" where
  "write_step sync_ptr hw buffer p s =
    (if wp_state p = STATE_RUNNING \<and> wp_hwsync p < 0 then Inr (Some (), s\<lparr>ws_err := wp_hwsync p\<rparr>)
     else let s = (if wp_state p = STATE_RUNNING then s\<lparr>ws_err := wp_hwsync p\<rparr> else s);
              avail = play_buffer_avail (if sync_ptr then wp_sync_err p else 0) hw (wp_hw_ptr p) (ws_appl_ptr s)
       in if avail < 0 then Inr (Some (), s\<lparr>ws_err := avail\<rparr>)
          else if wp_state p = STATE_RUNNING \<and> nat avail < (if sync_ptr then unat (period_size hw) else wp_avail_min p)
              \<and> ws_left s > nat avail
            then Inr (None, s\<lparr>ws_err := 0\<rparr>)
          else let frames = min (ws_left s) (nat avail); fs = calc_framesize hw
            in if frames = 0 then Inr (Some (), s)
               else rbind (if ws_channels s = [] then Inr []
                    else if buffer_size hw = 0 then Inl Division_By_Zero
                    else rbind (read_bytes buffer (ws_offset s * fs) (frames * fs)) (\<lambda>bs.
                      copy_channels bs (unat (ws_c_off s) mod unat (buffer_size hw) * fs) (ws_channels s))) (\<lambda>chs.
                    let s = s\<lparr>ws_channels := chs, ws_c_off := ws_c_off s + word_of_nat frames\<rparr>;
                        start = wp_state p = STATE_PREPARED \<and> wp_state_again p = STATE_PREPARED
                          \<and> int (unat (buffer_size hw)) - avail + int frames \<ge> int (start_threshold hw);
                        s = (if start then s\<lparr>ws_err := wp_start p\<rparr> else s)
                    in if start \<and> wp_start p < 0 then Inr (Some (), s)
                       else Inr (None, s\<lparr>ws_offset := ws_offset s + frames, ws_left := ws_left s - frames\<rparr>)))"

fun write_loop :: "bool \<Rightarrow> pcm_sizes \<Rightarrow> byte list \<Rightarrow> write_pass list \<Rightarrow> write_state \<Rightarrow> (unit option \<times> write_state) res" where
  "write_loop sync_ptr hw buffer [] s = Inr (if ws_left s = 0 then Some () else None, s)"
| "write_loop sync_ptr hw buffer (p # ps) s =
    (if ws_left s = 0 then Inr (Some (), s)
     else rbind (write_step sync_ptr hw buffer p s) (\<lambda>(stop, s).
       case stop of Some _ \<Rightarrow> Inr (Some (), s) | None \<Rightarrow> write_loop sync_ptr hw buffer ps s))"

text \<open>
  The position of the program is advanced by the whole size before anything is copied. \<open>appl_err\<close> is the result of
  reading it; the result of the function is \<open>None\<close> while it has not returned.
\<close>

definition pcm_mmap_writei :: "bool \<Rightarrow> pcm_sizes \<Rightarrow> int \<Rightarrow> 64 word \<Rightarrow> byte list \<Rightarrow> nat \<Rightarrow> write_pass list \<Rightarrow> byte list list
    \<Rightarrow> (int option \<times> 64 word \<times> byte list list) res" where
  "pcm_mmap_writei sync_ptr hw appl_err appl_ptr buffer n passes channels =
    (if sync_ptr \<and> appl_err < 0 then Inr (Some appl_err, appl_ptr, channels)
     else let s = \<lparr>ws_appl_ptr = appl_ptr + word_of_nat n, ws_c_off = appl_ptr, ws_left = n, ws_offset = 0,
                   ws_err = (if sync_ptr then appl_err else 0), ws_channels = channels\<rparr>
       in rbind (write_loop sync_ptr hw buffer passes s) (\<lambda>(stop, s).
          Inr (case stop of None \<Rightarrow> None | Some _ \<Rightarrow> Some (if ws_offset s > 0 then int (ws_offset s) else ws_err s),
            ws_appl_ptr s, ws_channels s)))"

end
