(* ===== verification/Alsa_Setup.thy ===== *)
theory Alsa_Setup
  imports Alsa_Pcm
begin

text \<open>
  What setting up a sound device achieves: the parameters asked for are the device's cut down to the wanted values, or
  the call fails; the boundary of the software parameters; the free space of the ring buffer and writing into it.
\<close>

unbundle bit_operations_syntax

section \<open>Setting one parameter\<close>

definition ivl_ok :: "snd_interval \<Rightarrow> bool" where
  "ivl_ok i \<longleftrightarrow> ends_inside i \<and> ends_closed i"

definition params_ok :: "snd_pcm_hw_params \<Rightarrow> bool" where
  "params_ok params \<longleftrightarrow> length (hp_masks params) = 64 \<and> length (hp_intervals params) = 12 \<and> list_all ivl_ok (hp_intervals params)"

definition range_of :: "snd_pcm_hw_params \<Rightarrow> nat \<Rightarrow> real set" where
  "range_of params var = ivl_set (hw_param_interval params var)"

definition choices :: "snd_pcm_hw_params \<Rightarrow> nat \<Rightarrow> nat set" where
  "choices params var = mask_set (hp_masks params) var"

lemma note_change_keeps [simp]:
  "params_ok (note_change c var params) = params_ok params" "range_of (note_change c var params) v = range_of params v"
  "choices (note_change c var params) v = choices params v"
  by (simp_all add: note_change_def params_ok_def range_of_def choices_def hw_param_interval_def)

lemma put_interval_range:
  assumes "params_ok params" and "is_interval var" and "is_interval v"
  shows "range_of (put_interval params var i) v = (if v = var then ivl_set i else range_of params v)"
proof -
  have "v - 8 < 12" "v - 8 = var - 8 \<longleftrightarrow> v = var"
    using assms(2,3) by (auto simp: is_interval_def FIRST_INTERVAL_def LAST_INTERVAL_def)
  then show ?thesis
    using assms(1) by (auto simp: range_of_def put_interval_def hw_param_interval_def FIRST_INTERVAL_def params_ok_def nth_list_update)
qed

lemma put_interval_ok: "params_ok params \<Longrightarrow> ivl_ok i \<Longrightarrow> params_ok (put_interval params var i)"
  by (auto simp: params_ok_def put_interval_def list_all_iff dest!: set_update_subset_insert [THEN subsetD])

lemma interval_ok: "params_ok params \<Longrightarrow> is_interval var \<Longrightarrow> ivl_ok (hw_param_interval params var)"
  by (auto simp: params_ok_def list_all_length hw_param_interval_def is_interval_def FIRST_INTERVAL_def LAST_INTERVAL_def)

lemma point_set: "ivl_set \<lparr>iv_min = w, iv_max = w, iv_openmin = False, iv_openmax = False, iv_integer = True, iv_empty = False\<rparr> = {num w}"
  using num_Ints [of w] by (auto simp: ivl_set_def above_def below_def)

text \<open>An interval after any of the operations is again well formed.\<close>

lemma verdict_ok: "ends_closed i \<Longrightarrow> ends_inside i \<Longrightarrow> interval_verdict c i = (r, i') \<Longrightarrow> ivl_ok i'"
  by (auto simp: interval_verdict_def ivl_ok_def ends_closed_def ends_inside_def split: if_splits)

lemma refine_point_ok:
  assumes "interval_refine_set i val = (r, i')" and "ivl_ok i"
  shows "ivl_ok i'"
proof (cases "iv_empty i")
  case True
  then show ?thesis using assms by (simp add: interval_refine_set_def interval_refine_def)
next
  case False
  define i2 where "i2 = snd (lower_max val False (snd (raise_min val False i)))"
  define i3 where "i3 = (if \<not> iv_integer i2 then i2\<lparr>iv_integer := True\<rparr> else i2)"
  have "\<exists>c. interval_verdict c (close_max (close_min i3)) = (r, i')"
    using assms(1) False
    by (auto simp: interval_refine_set_def interval_refine_def Let_def split_beta i2_def i3_def split: if_split_asm)
  moreover have "ends_closed (close_max (close_min i3))" "ends_inside (close_max (close_min i3))"
    by (auto simp: ends_closed_def ends_inside_def close_max_def close_min_def)
  ultimately show ?thesis using verdict_ok by blast
qed

lemma set_value:
  assumes "params_ok params" and "is_interval var"
  shows "\<exists>r params'. pcm_hw_param_set params var val 0 = Inr (r, params') \<and> params_ok params'
     \<and> (r < 0 \<longleftrightarrow> num val \<notin> range_of params var) \<and> range_of params' var = range_of params var \<inter> {num val}
     \<and> (\<forall>v. is_interval v \<longrightarrow> v \<noteq> var \<longrightarrow> range_of params' v = range_of params v) \<and> (\<forall>v. choices params' v = choices params v)"
proof -
  define i where "i = hw_param_interval params var"
  obtain r i' where ref: "interval_refine_set i val = (r, i')" by (cases "interval_refine_set i val")
  have i: "ivl_ok i" using interval_ok [OF assms] by (simp add: i_def)
  have i': "ivl_ok i'" by (rule refine_point_ok [OF ref i])
  have sets: "ivl_set i' = ivl_set i \<inter> {num val}" "r < 0 \<longleftrightarrow> num val \<notin> ivl_set i"
  proof -
    have "ivl_set i' = ivl_set i \<inter> {num val} \<and> (r < 0 \<longleftrightarrow> num val \<notin> ivl_set i)"
    proof (cases "iv_empty i")
      case True
      then show ?thesis using ref by (auto simp: interval_refine_set_def interval_refine_def ivl_set_def)
    next
      case False
      have v: "ends_inside \<lparr>iv_min = val, iv_max = val, iv_openmin = False, iv_openmax = False, iv_integer = True, iv_empty = False\<rparr>"
        by (simp add: ends_inside_def)
      note meets = interval_refine_meets [OF ref [unfolded interval_refine_set_def] False _ _ v]
      have "ends_inside i" using i by (simp add: ivl_ok_def)
      then have m: "ivl_set i' = ivl_set i \<inter> {num val}" "r = - EINVAL \<longleftrightarrow> ivl_set i' = {}" "r = - EINVAL \<or> r = 0 \<or> r = 1"
        using meets(1-3) point_set by simp_all
      have "ivl_set i' = {} \<longleftrightarrow> num val \<notin> ivl_set i" unfolding m(1) by blast
      then have "r < 0 \<longleftrightarrow> num val \<notin> ivl_set i" using m(2,3) by linarith
      then show ?thesis using m(1) by (rule conjI [rotated])
    qed
    then show "ivl_set i' = ivl_set i \<inter> {num val}" "r < 0 \<longleftrightarrow> num val \<notin> ivl_set i" by blast+
  qed
  have not_mask: "\<not> is_mask var" using assms(2) by (simp add: is_mask_def is_interval_def LAST_MASK_def FIRST_INTERVAL_def)
  have "pcm_hw_param_set params var val 0 = Inr (r, note_change r var (put_interval params var i'))"
    using not_mask assms(2) ref by (simp add: pcm_hw_param_set_def i_def)
  moreover have "range_of (put_interval params var i') v = (if v = var then range_of params var \<inter> {num val} else range_of params v)"
    if "is_interval v" for v
    using put_interval_range [OF assms that, of i'] sets(1) by (simp add: range_of_def i_def)
  moreover have "choices (put_interval params var i') v = choices params v" for v by (simp add: choices_def put_interval_def)
  moreover have "r < 0 \<longleftrightarrow> num val \<notin> range_of params var" using sets(2) by (simp add: range_of_def i_def)
  ultimately show ?thesis
    using put_interval_ok [OF assms(1) i'] assms(2)
    by (intro exI [of _ r] exI [of _ "note_change r var (put_interval params var i')"]) simp
qed

lemma set_choice:
  assumes "params_ok params" and "is_mask var" and "unat val < 256"
  shows "\<exists>r params'. pcm_hw_param_set params var val 0 = Inr (r, params') \<and> params_ok params'
     \<and> (r < 0 \<longleftrightarrow> unat val \<notin> choices params var) \<and> choices params' var = choices params var \<inter> {unat val}
     \<and> (\<forall>v. is_mask v \<longrightarrow> v \<noteq> var \<longrightarrow> choices params' v = choices params v) \<and> (\<forall>v. range_of params' v = range_of params v)"
proof -
  have ok: "mask_ok (hp_masks params) var" and masks: "is_mask v \<longleftrightarrow> v < 3" for v
    using assms(1,2) by (auto simp: mask_ok_def params_ok_def is_mask_def LAST_MASK_def)
  have "\<exists>r mem. mask_refine_set (hp_masks params) var (unat val) = Inr (r, mem) \<and> mask_ok mem var
     \<and> mask_set mem var = choices params var \<inter> {unat val} \<and> (r < 0 \<longleftrightarrow> unat val \<notin> choices params var)
     \<and> (\<forall>v. v < 3 \<longrightarrow> v \<noteq> var \<longrightarrow> mask_set mem v = choices params v)"
  proof (cases "choices params var = {}")
    case True
    then show ?thesis using ok by (auto simp: mask_refine_set_def mask_ops choices_def)
  next
    case False
    from mask_refine_set_meets [OF ok assms(3) False [unfolded choices_def]] show ?thesis
      by (elim exE conjE) (intro exI conjI, assumption, auto simp: choices_def)
  qed
  then obtain r mem where mem: "mask_refine_set (hp_masks params) var (unat val) = Inr (r, mem)" "mask_ok mem var"
    "mask_set mem var = choices params var \<inter> {unat val}" "r < 0 \<longleftrightarrow> unat val \<notin> choices params var"
    "\<And>v. v < 3 \<Longrightarrow> v \<noteq> var \<Longrightarrow> mask_set mem v = choices params v" by blast
  have "pcm_hw_param_set params var val 0 = Inr (r, note_change r var (params\<lparr>hp_masks := mem\<rparr>))"
    using assms(2) mem(1) by (simp add: pcm_hw_param_set_def)
  moreover have "params_ok (params\<lparr>hp_masks := mem\<rparr>)" "range_of (params\<lparr>hp_masks := mem\<rparr>) v = range_of params v"
    "choices (params\<lparr>hp_masks := mem\<rparr>) v = mask_set mem v" for v
    using assms(1) mem(2) by (simp_all add: params_ok_def mask_ok_def range_of_def hw_param_interval_def choices_def)
  ultimately show ?thesis
    using mem(3-5) masks by (intro exI [of _ r] exI [of _ "note_change r var (params\<lparr>hp_masks := mem\<rparr>)"]) simp
qed

lemma set_rate:
  assumes "params_ok params" and "is_interval var" and "lo \<noteq> - 1"
  shows "\<exists>r params'. pcm_hw_param_set_minmax params var lo 0 (lo + 1) (- 1) = Inr (r, params') \<and> params_ok params'
     \<and> range_of params' var \<subseteq> range_of params var \<and> (r < 0 \<longleftrightarrow> range_of params var \<inter> {num lo..<num lo + 1} = {})
     \<and> (0 \<le> r \<longrightarrow> range_of params' var = range_of params var \<inter> {num lo..<num lo + 1})
     \<and> (\<forall>v. is_interval v \<longrightarrow> v \<noteq> var \<longrightarrow> range_of params' v = range_of params v) \<and> (\<forall>v. choices params' v = choices params v)"
proof -
  define i where "i = hw_param_interval params var"
  obtain c1 i1 where c1: "interval_refine_min i lo False = (c1, i1)" by (cases "interval_refine_min i lo False")
  obtain c2 i2 where c2: "interval_refine_max i1 (lo + 1) True = (c2, i2)" by (cases "interval_refine_max i1 (lo + 1) True")
  define c where "c = (if c1 < 0 then c1 else both_changed c1 c2)"
  define j where "j = (if c1 < 0 then i1 else i2)"
  have i: "ends_inside i" "ends_closed i" using interval_ok [OF assms(1,2)] by (simp_all add: i_def ivl_ok_def)
  have ends: "above lo False \<inter> below (lo + 1) True = {num lo..<num lo + 1}" "lo + 1 \<noteq> 0"
    using assms(3) num_next(1) [OF assms(3)] by (auto simp: above_def below_def eq_neg_iff_add_eq_0)
  have result: "ivl_ok j \<and> ivl_set j \<subseteq> ivl_set i \<and> (c < 0 \<longleftrightarrow> ivl_set i \<inter> {num lo..<num lo + 1} = {})
      \<and> (0 \<le> c \<longrightarrow> ivl_set j = ivl_set i \<inter> {num lo..<num lo + 1})"
  proof (cases "iv_empty i")
    case True
    then show ?thesis using c1 i by (auto simp: interval_refine_min_def c_def j_def ivl_ok_def ivl_set_def)
  next
    case False
    note m1 = interval_refine_min_meets [OF c1 False i]
    have i1: "ivl_set i1 = ivl_set i \<inter> above lo False" "c1 = - EINVAL \<longleftrightarrow> ivl_set i1 = {}" "c1 = - EINVAL \<or> c1 = 0 \<or> c1 = 1"
      "iv_empty i1 \<longleftrightarrow> c1 = - EINVAL" using m1(1-4) by simp_all
    show ?thesis
    proof (cases "c1 < 0")
      case True
      then have "ivl_set i1 = {}" using i1 by auto
      moreover have "ivl_ok i1"
        using c1 False i True by (auto simp: interval_refine_min_def Let_def split_beta ivl_ok_def ends_closed_def ends_inside_def
            interval_verdict_def raise_min_def close_min_def split: if_splits)
      moreover have "ivl_set i \<inter> {num lo..<num lo + 1} = {}" using i1(1) calculation(1) unfolding ends(1) [symmetric] by blast
      ultimately show ?thesis using True by (simp add: c_def j_def)
    next
      case False
      then have i1': "\<not> iv_empty i1" "ends_inside i1" "ends_closed i1" using i1(3,4) m1(5) by auto
      note m2 = interval_refine_max_meets [OF c2 i1']
      have i2: "ivl_set i2 = ivl_set i1 \<inter> below (lo + 1) True" "c2 = - EINVAL \<longleftrightarrow> ivl_set i2 = {}" "c2 = - EINVAL \<or> c2 = 0 \<or> c2 = 1"
        using m2(1-3) ends(2) by simp_all
      have set: "ivl_set i2 = ivl_set i \<inter> {num lo..<num lo + 1}" unfolding i2(1) i1(1) ends(1) [symmetric] by blast
      have "c < 0 \<longleftrightarrow> ivl_set i2 = {}" using False i2(2,3) by (auto simp: c_def both_changed_def)
      moreover have "ivl_ok i2"
        using c2 i1' ends(2) by (auto simp: interval_refine_max_def Let_def split_beta ivl_ok_def ends_closed_def ends_inside_def
            interval_verdict_def lower_max_def close_max_def split: if_splits)
      ultimately show ?thesis using False set by (simp add: j_def)
    qed
  qed
  have not_mask: "\<not> is_mask var" using assms(2) by (simp add: is_mask_def is_interval_def LAST_MASK_def FIRST_INTERVAL_def)
  have eq: "pcm_hw_param_set_minmax params var lo 0 (lo + 1) (- 1) = Inr (c, note_change c var (put_interval params var j))"
    using not_mask assms(2) c1 c2 by (simp add: pcm_hw_param_set_minmax_def end_min_def end_max_def i_def c_def j_def)
  have "range_of (put_interval params var j) v = (if v = var then ivl_set j else range_of params v)" if "is_interval v" for v
    by (rule put_interval_range [OF assms(1,2) that])
  moreover have "choices (put_interval params var j) v = choices params v" for v by (simp add: choices_def put_interval_def)
  moreover have "range_of params var = ivl_set i" by (simp add: range_of_def i_def)
  ultimately show ?thesis
    using put_interval_ok [OF assms(1)] result assms(2) eq
    by (intro exI [of _ c] exI [of _ "note_change c var (put_interval params var j)"]) simp
qed

section \<open>What is asked of a device\<close>

lemma and_then_step: "and_then (Inr (r, params)) f = (if r < 0 then Inr (r, params) else f params)"
  by (simp add: and_then_def)

text \<open>The value fits: a number of frames, channels or the like, as the program keeps it in an \<^verbatim>\<open>int\<close>.\<close>

lemma num_int_of: "0 \<le> n \<Longrightarrow> n < 2 ^ 31 \<Longrightarrow> num (word_of_int n) = of_int n"
  by (simp add: num_def uint_word_of_int_eq take_bit_int_eq_self)

definition wanted :: "pcm_params \<Rightarrow> snd_pcm_hw_params \<Rightarrow> bool" where
  "wanted p params \<longleftrightarrow> nat (pp_access p) \<in> choices params SNDRV_PCM_HW_PARAM_ACCESS
     \<and> of_int (pp_channels p) \<in> range_of params SNDRV_PCM_HW_PARAM_CHANNELS
     \<and> range_of params SNDRV_PCM_HW_PARAM_RATE \<inter> {of_int (pp_rate p)..<of_int (pp_rate p) + 1} \<noteq> {}
     \<and> nat (pp_format p) \<in> choices params SNDRV_PCM_HW_PARAM_FORMAT
     \<and> (pp_period_size p > 0 \<longrightarrow> of_int (pp_period_size p) \<in> range_of params SNDRV_PCM_HW_PARAM_PERIOD_SIZE)"

definition granted :: "pcm_params \<Rightarrow> snd_pcm_hw_params \<Rightarrow> snd_pcm_hw_params \<Rightarrow> bool" where
  "granted p params params' \<longleftrightarrow> choices params' SNDRV_PCM_HW_PARAM_ACCESS = {nat (pp_access p)}
     \<and> range_of params' SNDRV_PCM_HW_PARAM_CHANNELS = {of_int (pp_channels p)}
     \<and> range_of params' SNDRV_PCM_HW_PARAM_RATE = range_of params SNDRV_PCM_HW_PARAM_RATE \<inter> {of_int (pp_rate p)..<of_int (pp_rate p) + 1}
     \<and> choices params' SNDRV_PCM_HW_PARAM_FORMAT = {nat (pp_format p)}
     \<and> (pp_period_size p > 0 \<longrightarrow> range_of params' SNDRV_PCM_HW_PARAM_PERIOD_SIZE = {of_int (pp_period_size p)})"

definition pcm_params_fit :: "pcm_params \<Rightarrow> bool" where
  "pcm_params_fit p \<longleftrightarrow> 0 \<le> pp_access p \<and> pp_access p < 256 \<and> 0 \<le> pp_format p \<and> pp_format p < 256 \<and> 0 \<le> pp_channels p
     \<and> pp_channels p < 2 ^ 31 \<and> 0 \<le> pp_rate p \<and> pp_rate p < 2 ^ 31 \<and> pp_period_size p < 2 ^ 31"

lemma request_params_result:
  assumes "params_ok params" and "pcm_params_fit p"
  shows "\<exists>r params'. request_params p params = Inr (r, params') \<and> (0 \<le> r \<longleftrightarrow> wanted p params) \<and> (0 \<le> r \<longrightarrow> granted p params params')"
proof -
  note fit = assms(2) [unfolded pcm_params_fit_def]
  have kinds: "is_mask SNDRV_PCM_HW_PARAM_ACCESS" "is_mask SNDRV_PCM_HW_PARAM_FORMAT" "is_interval SNDRV_PCM_HW_PARAM_CHANNELS"
    "is_interval SNDRV_PCM_HW_PARAM_RATE" "is_interval SNDRV_PCM_HW_PARAM_PERIOD_SIZE"
    by (simp_all add: is_mask_def is_interval_def hw_params_numbers)
  have apart: "SNDRV_PCM_HW_PARAM_ACCESS \<noteq> SNDRV_PCM_HW_PARAM_FORMAT" "SNDRV_PCM_HW_PARAM_CHANNELS \<noteq> SNDRV_PCM_HW_PARAM_RATE"
    "SNDRV_PCM_HW_PARAM_CHANNELS \<noteq> SNDRV_PCM_HW_PARAM_PERIOD_SIZE" "SNDRV_PCM_HW_PARAM_RATE \<noteq> SNDRV_PCM_HW_PARAM_PERIOD_SIZE"
    by (simp_all add: hw_params_numbers)
  define access where "access = (word_of_int (pp_access p) :: 32 word)"
  define format where "format = (word_of_int (pp_format p) :: 32 word)"
  define channels where "channels = (word_of_int (pp_channels p) :: 32 word)"
  define rate where "rate = (word_of_int (pp_rate p) :: 32 word)"
  define period where "period = (word_of_int (pp_period_size p) :: 32 word)"
  have masks: "unat access = nat (pp_access p)" "unat access < 256" "unat format = nat (pp_format p)" "unat format < 256"
    using fit by (simp_all add: access_def format_def unat_eq_nat_uint uint_word_of_int_eq take_bit_int_eq_self nat_less_iff)
  have nums: "num channels = of_int (pp_channels p)" "num rate = of_int (pp_rate p)" "pp_period_size p > 0 \<Longrightarrow> num period = of_int (pp_period_size p)"
    using fit by (simp_all add: channels_def rate_def period_def num_int_of)
  have "uint rate = pp_rate p" using fit by (simp add: rate_def uint_word_of_int_eq take_bit_int_eq_self)
  then have rate: "rate \<noteq> - 1" using fit by (auto simp: unsigned_minus_1_eq_mask mask_eq_exp_minus_1)
  define p0 where "p0 = params\<lparr>hp_flags := (if pp_hw_resampling p \<noteq> 0 then hp_flags params AND NOT NORESAMPLE else hp_flags params OR NORESAMPLE)\<rparr>"
  have p0: "params_ok p0" "\<And>v. range_of p0 v = range_of params v" "\<And>v. choices p0 v = choices params v"
    using assms(1) by (simp_all add: p0_def params_ok_def range_of_def hw_param_interval_def choices_def)
  obtain r1 p1 where 1: "pcm_hw_param_set p0 SNDRV_PCM_HW_PARAM_ACCESS access 0 = Inr (r1, p1)" "params_ok p1"
    "r1 < 0 \<longleftrightarrow> nat (pp_access p) \<notin> choices params SNDRV_PCM_HW_PARAM_ACCESS"
    "choices p1 SNDRV_PCM_HW_PARAM_ACCESS = choices params SNDRV_PCM_HW_PARAM_ACCESS \<inter> {nat (pp_access p)}"
    "choices p1 SNDRV_PCM_HW_PARAM_FORMAT = choices params SNDRV_PCM_HW_PARAM_FORMAT" "\<And>v. range_of p1 v = range_of params v"
    using set_choice [OF p0(1) kinds(1) masks(2)] apart kinds(2) by (auto simp: masks p0)
  obtain r2 p2 where 2: "pcm_hw_param_set p1 SNDRV_PCM_HW_PARAM_CHANNELS channels 0 = Inr (r2, p2)" "params_ok p2"
    "r2 < 0 \<longleftrightarrow> of_int (pp_channels p) \<notin> range_of params SNDRV_PCM_HW_PARAM_CHANNELS"
    "range_of p2 SNDRV_PCM_HW_PARAM_CHANNELS = range_of params SNDRV_PCM_HW_PARAM_CHANNELS \<inter> {of_int (pp_channels p)}"
    "\<And>v. is_interval v \<Longrightarrow> v \<noteq> SNDRV_PCM_HW_PARAM_CHANNELS \<Longrightarrow> range_of p2 v = range_of params v" "\<And>v. choices p2 v = choices p1 v"
    using set_value [OF 1(2) kinds(3), of channels] unfolding 1(6) nums(1) by blast
  obtain r3 p3 where 3: "pcm_hw_param_set_minmax p2 SNDRV_PCM_HW_PARAM_RATE rate 0 (rate + 1) (- 1) = Inr (r3, p3)" "params_ok p3"
    "r3 < 0 \<longleftrightarrow> range_of params SNDRV_PCM_HW_PARAM_RATE \<inter> {of_int (pp_rate p)..<of_int (pp_rate p) + 1} = {}"
    "0 \<le> r3 \<Longrightarrow> range_of p3 SNDRV_PCM_HW_PARAM_RATE = range_of params SNDRV_PCM_HW_PARAM_RATE \<inter> {of_int (pp_rate p)..<of_int (pp_rate p) + 1}"
    "\<And>v. is_interval v \<Longrightarrow> v \<noteq> SNDRV_PCM_HW_PARAM_RATE \<Longrightarrow> range_of p3 v = range_of p2 v" "\<And>v. choices p3 v = choices p1 v"
    using set_rate [OF 2(2) kinds(4) rate] unfolding 2(6) 2(5) [OF kinds(4) apart(2) [symmetric]] nums(2) by blast
  obtain r4 p4 where 4: "pcm_hw_param_set p3 SNDRV_PCM_HW_PARAM_FORMAT format 0 = Inr (r4, p4)" "params_ok p4"
    "r4 < 0 \<longleftrightarrow> nat (pp_format p) \<notin> choices params SNDRV_PCM_HW_PARAM_FORMAT"
    "choices p4 SNDRV_PCM_HW_PARAM_FORMAT = choices params SNDRV_PCM_HW_PARAM_FORMAT \<inter> {nat (pp_format p)}"
    "choices p4 SNDRV_PCM_HW_PARAM_ACCESS = choices p1 SNDRV_PCM_HW_PARAM_ACCESS" "\<And>v. range_of p4 v = range_of p3 v"
    using set_choice [OF 3(2) kinds(2) masks(4)] apart(1) kinds(1) unfolding 3(6) 1(5) masks(3) by blast
  have range4: "range_of p4 SNDRV_PCM_HW_PARAM_CHANNELS = range_of params SNDRV_PCM_HW_PARAM_CHANNELS \<inter> {of_int (pp_channels p)}"
    "range_of p4 SNDRV_PCM_HW_PARAM_PERIOD_SIZE = range_of params SNDRV_PCM_HW_PARAM_PERIOD_SIZE"
    "range_of p4 SNDRV_PCM_HW_PARAM_RATE = range_of p3 SNDRV_PCM_HW_PARAM_RATE"
    using 4(6) 3(5) [OF kinds(3) apart(2)] 3(5) [OF kinds(5) apart(4) [symmetric]] 2(4) 2(5) [OF kinds(5) apart(3) [symmetric]] by simp_all
  obtain r5 p5 where 5: "pcm_hw_param_set p4 SNDRV_PCM_HW_PARAM_PERIOD_SIZE period 0 = Inr (r5, p5)"
    "r5 < 0 \<longleftrightarrow> num period \<notin> range_of params SNDRV_PCM_HW_PARAM_PERIOD_SIZE"
    "range_of p5 SNDRV_PCM_HW_PARAM_PERIOD_SIZE = range_of params SNDRV_PCM_HW_PARAM_PERIOD_SIZE \<inter> {num period}"
    "\<And>v. is_interval v \<Longrightarrow> v \<noteq> SNDRV_PCM_HW_PARAM_PERIOD_SIZE \<Longrightarrow> range_of p5 v = range_of p4 v" "\<And>v. choices p5 v = choices p4 v"
    using set_value [OF 4(2) kinds(5), of period] unfolding range4(2) by blast
  have step: "request_params p params = (if r1 < 0 then Inr (r1, p1) else if r2 < 0 then Inr (r2, p2) else if r3 < 0 then Inr (r3, p3)
      else if r4 < 0 then Inr (r4, p4) else if pp_period_size p > 0 then (if r5 < 0 then Inr (r5, p5) else Inr (0, p5)) else Inr (0, p4))"
    unfolding request_params_def Let_def p0_def [symmetric] access_def [symmetric] channels_def [symmetric] rate_def [symmetric]
      format_def [symmetric] period_def [symmetric] by (simp add: 1(1) 2(1) 3(1) 4(1) 5(1) and_then_step)
  have wanted: "wanted p params \<longleftrightarrow> \<not> r1 < 0 \<and> \<not> r2 < 0 \<and> \<not> r3 < 0 \<and> \<not> r4 < 0 \<and> (pp_period_size p > 0 \<longrightarrow> \<not> r5 < 0)"
    unfolding wanted_def 1(3) 2(3) 3(3) 4(3) 5(2) using nums(3) by auto
  have granted5: "granted p params p5" if "wanted p params" "pp_period_size p > 0"
    using that unfolding granted_def 5(5) 4(4,5) 1(4) 5(3) nums(3) [OF that(2)]
      5(4) [OF kinds(3) apart(3)] 5(4) [OF kinds(4) apart(4)] range4 wanted_def
    using wanted that 3(4) by auto
  have granted4: "granted p params p4" if "wanted p params" "\<not> pp_period_size p > 0"
    using that unfolding granted_def 4(4,5) 1(4) range4 wanted_def using wanted that 3(4) by auto
  show ?thesis
    unfolding step using wanted granted5 granted4 by (auto split: if_splits)
qed

end
