(* ===== verification/Alsa_Ring.thy ===== *)
theory Alsa_Ring
  imports Alsa_Pcm
begin

text \<open>
  The ring buffer of a sound device: the boundary of its positions, the free space the program computes, writing
  into the mapped memory, and how many bytes generated samples take.
\<close>

unbundle bit_operations_syntax

section \<open>The boundary\<close>

lemma boundary_loop_ends:
  assumes "0 < unat b" and "unat b + unat bs \<le> 2 ^ 63 - 1"
  shows "\<exists>k r. boundary_loop bs b = Some r \<and> unat r = unat b * 2 ^ k \<and> unat r + unat bs \<le> 2 ^ 63 - 1 \<and> 2 ^ 63 - 1 < 2 * unat r + unat bs"
  using assms
proof (induction "2 ^ 63 - unat b" arbitrary: b rule: less_induct)
  case less
  have double: "unat (b * 2) = 2 * unat b" using less.prems by (simp add: unat_word_ariths)
  have "bs \<le> LONG_MAX" using less.prems by (simp add: LONG_MAX_def word_le_nat_alt)
  then have room: "unat (LONG_MAX - bs) = 2 ^ 63 - 1 - unat bs" by (simp add: unat_sub LONG_MAX_def)
  show ?case
  proof (cases "b * 2 \<le> LONG_MAX - bs")
    case True
    then have "2 * unat b + unat bs \<le> 2 ^ 63 - 1" using double room less.prems by (simp add: word_le_nat_alt)
    then have "\<exists>k r. boundary_loop bs (b * 2) = Some r \<and> unat r = unat (b * 2) * 2 ^ k \<and> unat r + unat bs \<le> 2 ^ 63 - 1
        \<and> 2 ^ 63 - 1 < 2 * unat r + unat bs"
      using double less.prems by (intro less.hyps) auto
    then obtain k r where r: "boundary_loop bs (b * 2) = Some r" "unat r = unat (b * 2) * 2 ^ k" "unat r + unat bs \<le> 2 ^ 63 - 1"
      "2 ^ 63 - 1 < 2 * unat r + unat bs" by blast
    have "unat r = unat b * 2 ^ Suc k" using r(2) double by simp
    then show ?thesis using True r(1,3,4) by (intro exI [of _ "Suc k"] exI [of _ r]) (simp add: boundary_loop.simps [of bs b])
  next
    case False
    then have "2 ^ 63 - 1 < 2 * unat b + unat bs" using double room less.prems by (simp add: word_le_nat_alt)
    then show ?thesis using False less.prems by (intro exI [of _ 0] exI [of _ b]) (simp add: boundary_loop.simps [of bs b])
  qed
qed

text \<open>A buffer of no frames: the boundary stays 0.\<close>

lemma boundary_of_nothing: "boundary_loop bs 0 = None"
proof -
  have "boundary_loop bs b = Some r \<Longrightarrow> b \<noteq> 0" for b r
    by (erule boundary_loop.raw_induct [of "\<lambda>bs b r. b \<noteq> 0", rotated]) (fastforce split: if_splits)
  then show ?thesis by (cases "boundary_loop bs 0") auto
qed

section \<open>Free space\<close>

text \<open>\<open>d\<close> frames lie between the device and the program. If there are none, no space is reported.\<close>

lemma play_avail:
  assumes "appl_ptr = hw_ptr + word_of_nat d" and "d \<le> unat (buffer_size hw)" and "unat (buffer_size hw) < 2 ^ 31" and "0 \<le> err"
  shows "play_buffer_avail err hw hw_ptr appl_ptr = (if d = 0 then 0 else int (unat (buffer_size hw)) - int d)"
proof -
  define n where "n = unat (buffer_size hw)"
  have bs: "buffer_size hw = word_of_nat n" by (simp add: n_def)
  have le: "d \<le> n" "n < 2 ^ 31" using assms(2,3) by (simp_all add: n_def)
  define a where "a = (word_of_nat (n - d) :: 32 word)"
  have "ucast (buffer_size hw) = (word_of_nat n :: 64 word)" unfolding bs using le(2) by (simp add: unsigned_of_nat take_bit_nat_eq_self)
  then have "hw_ptr + ucast (buffer_size hw) - appl_ptr = (word_of_nat (n - d) :: 64 word)"
    using assms(1) le(1) by (simp add: of_nat_diff)
  then have cut: "ucast (hw_ptr + ucast (buffer_size hw) - appl_ptr) = a"
    using le(2) by (simp add: a_def unsigned_of_nat take_bit_nat_eq_self)
  have small: "sint (word_of_nat m :: 32 word) = int m" if "m < 2 ^ 31" for m
    using that by (simp add: signed_of_nat signed_take_bit_int_eq_self)
  have sints: "sint a = int (n - d)" "sint (buffer_size hw) = int n"
    unfolding a_def bs by (rule small, use le in simp)+
  have "a - buffer_size hw = 0" if "d = 0" using that by (simp add: a_def bs)
  moreover have "\<not> a <s 0" "buffer_size hw \<le>s a \<longleftrightarrow> d = 0" using sints le by (auto simp: word_sless_alt word_sle_eq)
  ultimately show ?thesis
    using assms(4) sints le by (simp add: play_buffer_avail_def Let_def cut n_def [symmetric] of_nat_diff)
qed

section \<open>Writing into the mapped memory\<close>

text \<open>
  The frames go to the position of the program in the buffer, in one piece: a piece that reaches over the end of the
  buffer is not split, and runs out of the memory of the channel.
\<close>

lemma copy_channels_result:
  assumes "\<forall>ch\<in>set chs. length ch = n" and "chs \<noteq> []"
  shows "copy_channels bs pos chs = (if pos + length bs \<le> n then Inr (map (\<lambda>ch. take pos ch @ bs @ drop (pos + length bs) ch) chs) else Inl Out_Of_Bounds)"
  using assms
proof (induction chs)
  case (Cons ch chs)
  then show ?case by (cases chs) (simp_all add: write_bytes_def)
qed simp

lemma write_one_pass:
  assumes "wp_hw_ptr p + word_of_nat d = appl_ptr" and "d + 2 * n \<le> unat (buffer_size hw)" and "unat (buffer_size hw) < 2 ^ 31" and "0 < n"
    and "sync_ptr \<longrightarrow> 0 \<le> appl_err \<and> 0 \<le> wp_sync_err p" and "0 \<le> wp_hwsync p" and "0 \<le> wp_start p"
    and "length buffer = n * calc_framesize hw" and "0 < calc_framesize hw"
    and "\<forall>ch\<in>set channels. length ch = unat (buffer_size hw) * calc_framesize hw" and "channels \<noteq> []"
    and "pos = unat appl_ptr mod unat (buffer_size hw)"
  shows "pcm_mmap_writei sync_ptr hw appl_err appl_ptr buffer n [p] channels
     = (if pos + n \<le> unat (buffer_size hw)
        then Inr (Some (int n), appl_ptr + word_of_nat n,
          map (\<lambda>ch. take (pos * calc_framesize hw) ch @ buffer @ drop ((pos + n) * calc_framesize hw) ch) channels)
        else Inl Out_Of_Bounds)"
proof -
  define fs where "fs = calc_framesize hw"
  define bs where "bs = unat (buffer_size hw)"
  define serr where "serr = (if sync_ptr then wp_sync_err p else 0)"
  have "0 \<le> serr" using assms(5) by (simp add: serr_def)
  moreover have "appl_ptr + word_of_nat n = wp_hw_ptr p + word_of_nat (d + n)" by (simp add: assms(1) [symmetric] add.assoc)
  moreover have room: "d + n \<le> bs" "n \<le> bs - (d + n)" "0 < bs" "d + n \<noteq> 0" using assms(2,4) by (simp_all add: bs_def)
  ultimately have avail: "play_buffer_avail serr hw (wp_hw_ptr p) (appl_ptr + word_of_nat n) = int (bs - (d + n))"
    using play_avail [of "appl_ptr + word_of_nat n" "wp_hw_ptr p" "d + n" hw serr] assms(3,4)
    by (simp add: bs_def [symmetric] of_nat_diff)
  have read: "read_bytes buffer 0 (n * fs) = Inr buffer" using assms(8) by (simp add: read_bytes_def fs_def)
  have mult: "pos * fs + n * fs \<le> bs * fs \<longleftrightarrow> pos + n \<le> bs" using assms(9) by (simp add: fs_def flip: distrib_right)
  have copy: "copy_channels buffer (unat appl_ptr mod bs * fs) channels = (if pos + n \<le> bs
      then Inr (map (\<lambda>ch. take (pos * fs) ch @ buffer @ drop ((pos + n) * fs) ch) channels) else Inl Out_Of_Bounds)"
    using copy_channels_result [of channels "bs * fs" buffer "pos * fs"] assms(8,10,11,12) mult
    by (simp add: fs_def [symmetric] bs_def [symmetric] distrib_right)
  have no_err: "\<not> (sync_ptr \<and> appl_err < 0)" "sync_ptr \<longrightarrow> \<not> appl_err < 0" using assms(5) by auto
  have min: "min n (bs - (d + n)) = n" "\<not> bs - (d + n) < n" using room(2) by simp_all
  have "buffer_size hw \<noteq> 0" using room(3) by (auto simp: bs_def)
  then show ?thesis
    using assms(4,6,7,11) room(3)
    by (simp add: no_err pcm_mmap_writei_def Let_def write_step_def serr_def [symmetric] avail min read copy fs_def [symmetric] bs_def [symmetric])
qed

section \<open>The bytes of samples\<close>

lemma sample_bytes_take: "sample_bytes n bs = (if n \<le> length bs then Inr (take n bs) else Inl Out_Of_Bounds)"
  by (induction n bs rule: sample_bytes.induct) auto

lemma frames_bytes_result:
  assumes "n \<le> 4"
  shows "frames_bytes channels n left sine k
    = Inr (concat (map (\<lambda>i. concat (replicate channels (take n (le32 (sine i)) @ replicate left 0))) [0..<k]))"
  using assms by (induction k) (simp_all add: frame_bytes_def sample_bytes_take)

lemma length_frames: "n \<le> 4 \<Longrightarrow> length (concat (map (\<lambda>i. concat (replicate channels (take n (le32 (sine i)) @ replicate left 0))) [0..<k]))
    = k * (channels * (n + left))"
  by (induction k) (simp_all add: length_concat sum_list_replicate min_def)

lemma generate_sine_result:
  assumes "bits_per_sample format = int (8 * n)" and "n \<le> 4" and "0 < channels" and "unat fbits = unat channels * (8 * (n + left))"
    and "nat count * (unat fbits div 8) \<le> length samples"
  shows "generate_sine samples count channels format fbits sine = Inr (0,
     concat (map (\<lambda>i. concat (replicate (unat channels) (take n (le32 (sine i)) @ replicate left 0))) [0..<nat count])
     @ drop (nat count * (unat fbits div 8)) samples)"
proof -
  define m where "m = n + left"
  have c: "0 < unat channels" using assms(3) by (simp add: unat_gt_0)
  have len32: "LENGTH(32) = 32" by simp
  from c have div: "unat (fbits div channels) = 8 * m" using assms(4) by (simp add: unat_div m_def)
  have "unat fbits = 8 * (unat channels * m)" using assms(4) by (simp add: m_def)
  then have bytes: "unat fbits div 8 = unat channels * m" by simp
  have "fbits div channels = word_of_nat (8 * m)" by (simp flip: div)
  then have "fbits div channels - word_of_nat (8 * n) = (word_of_nat (8 * left) :: 32 word)" by (simp add: m_def algebra_simps)
  moreover have "unat (fbits div channels) < 2 ^ LENGTH(32)" by (rule unsigned_less)
  then have "8 * left < 2 ^ 32" using div by (simp add: m_def)
  ultimately have left: "left_over_bits fbits channels (int (8 * n)) = 8 * left"
    unfolding left_over_bits_def of_int_of_nat_eq by (simp only: unsigned_of_nat take_bit_nat_eq_self len32 of_nat_id)
  have n: "nat (int (8 * n) mod 2 ^ 32) div 8 = n" using assms(2) by simp
  have "frames_bytes (unat channels) n left sine (nat count)
      = Inr (concat (map (\<lambda>i. concat (replicate (unat channels) (take n (le32 (sine i)) @ replicate left 0))) [0..<nat count]))"
    using assms(2) by (rule frames_bytes_result)
  moreover note length_frames [OF assms(2), of "unat channels" sine left "nat count"]
  moreover have "channels \<noteq> 0" using assms(3) by auto
  ultimately show ?thesis
    using assms(5) unfolding generate_sine_def Let_def assms(1) left n bytes
    by (simp add: write_bytes_def m_def [symmetric])
qed

end
