(* ===== verification/Alsa_Conf.thy ===== *)
theory Alsa_Conf
  imports C_Text
begin

text \<open>
  The reader of the sound tests' configuration file, \<^verbatim>\<open>alsa_conf_file.c\<close> of \<^verbatim>\<open>blts-alsa-core\<close>: cleaning the text, tokens, the
  settings of a section, and the sections. A buffer is its characters up to the NUL, a pointer into it its offset; \<open>None\<close> is
  NULL, or a line buffer or number nothing was stored in yet. Allocations succeed; files are smaller than 2 GB.
\<close>

definition MAX_LINE_LEN :: nat where "MAX_LINE_LEN = 256"
definition MAGIC_NUMBER :: nat where "MAGIC_NUMBER = 256"
definition MAX_STREAMS :: nat where "MAX_STREAMS = 10"

abbreviation (input) newline_char :: char where "newline_char \<equiv> CHR 0x0A"
abbreviation (input) quote_char :: char where "quote_char \<equiv> CHR 0x22"

definition initialised :: "'a option \<Rightarrow> 'a res" where
  "initialised v = (case v of None \<Rightarrow> Inl Uninitialised | Some x \<Rightarrow> Inr x)"

lemma initialised_simps [simp]: "initialised None = Inl Uninitialised" "initialised (Some x) = Inr x"
  by (simp_all add: initialised_def)

section \<open>The configuration\<close>

record alsa_control_value =
  control_name :: string
  control_id :: int
  cv_value :: int
  str_value :: string

record alsa_control_settings =
  cs_card :: int
  cs_values :: "alsa_control_value list"

text \<open>The arrays hold as many numbers as their counter says.\<close>

record alsa_pcm_settings =
  ps_card :: int
  ps_device :: int
  ps_dir :: nat
  ps_rates :: "int list"
  ps_formats :: "int list"
  ps_channels :: "int list"
  ps_access :: "int list"
  ps_hw_resampling :: int
  ps_async :: "int list"
  ps_duration :: int
  ps_freq :: int
  ps_link_card :: int
  ps_link_device :: int
  ps_period_size :: int
  ps_volume :: int

record v4l_tuner_settings =
  tuner_device :: string
  tuner_freq :: int
  tuner_scan :: int

record bluetooth_audio_settings =
  remote_mac :: string
  bt_pin :: string

record alsa_testset =
  ts_description :: string
  ts_pcms :: "alsa_pcm_settings list"
  ts_ctls :: "alsa_control_settings list"
  ts_tuner :: v4l_tuner_settings
  ts_btaudio :: bluetooth_audio_settings

text \<open>A default control whose block was freed is \<open>None\<close>: the pointer stays in the array.\<close>

record alsa_configuration =
  cf_testsets :: "alsa_testset list"
  cf_def_ctls :: "alsa_control_settings option list"

definition STREAM_DIR_NONE :: nat where "STREAM_DIR_NONE = 0"
definition STREAM_DIR_IN :: nat where "STREAM_DIR_IN = 1"
definition STREAM_DIR_OUT :: nat where "STREAM_DIR_OUT = 2"

definition zero_control_value :: alsa_control_value where
  "zero_control_value = \<lparr>control_name = '''', control_id = 0, cv_value = 0, str_value = ''''\<rparr>"

definition zero_control :: alsa_control_settings where
  "zero_control = \<lparr>cs_card = 0, cs_values = []\<rparr>"

definition zero_pcm :: alsa_pcm_settings where
  "zero_pcm = \<lparr>ps_card = 0, ps_device = 0, ps_dir = 0, ps_rates = [], ps_formats = [], ps_channels = [], ps_access = [], ps_hw_resampling = 0,
     ps_async = [], ps_duration = 0, ps_freq = 0, ps_link_card = 0, ps_link_device = 0, ps_period_size = 0, ps_volume = 0\<rparr>"

definition zero_testset :: alsa_testset where
  "zero_testset = \<lparr>ts_description = '''', ts_pcms = [], ts_ctls = [], ts_tuner = \<lparr>tuner_device = '''', tuner_freq = 0, tuner_scan = 0\<rparr>,
     ts_btaudio = \<lparr>remote_mac = '''', bt_pin = ''''\<rparr>\<rparr>"

section \<open>Names of formats, ways of access and modes\<close>

definition format_values :: "(string \<times> int) list" where
  "format_values = [(''S8'', 0), (''U8'', 1), (''S16_LE'', 2), (''S16_BE'', 3), (''U16_LE'', 4), (''U16_BE'', 5), (''S24_LE'', 6),
     (''S24_BE'', 7), (''U24_LE'', 8), (''U24_BE'', 9), (''S32_LE'', 10), (''S32_BE'', 11), (''U32_LE'', 12), (''U32_BE'', 13),
     (''FLOAT_LE'', 14), (''FLOAT_BE'', 15), (''FLOAT64_LE'', 16), (''FLOAT64_BE'', 17), (''IEC958_SUBFRAME_LE'', 18),
     (''IEC958_SUBFRAME_BE'', 19), (''MU_LAW'', 20), (''A_LAW'', 21), (''IMA_ADPCM'', 22), (''FORMAT_MPEG'', 23), (''GSM'', 24),
     (''SPECIAL'', 31), (''S24_3LE'', 32), (''S24_3BE'', 33), (''U24_3LE'', 34), (''U24_3BE'', 35), (''S20_3LE'', 36), (''S20_3BE'', 37),
     (''U20_3LE'', 38), (''U20_3BE'', 39), (''S18_3LE'', 40), (''S18_3BE'', 41), (''U18_3LE'', 42), (''U18_3BE'', 43)]"

definition access_values :: "(string \<times> int) list" where
  "access_values = [(''MMAP_INTERLEAVED'', 0), (''MMAP_NONINTERLEAVED'', 1), (''MMAP_COMPLEX'', 2), (''INTERLEAVED'', 3), (''NONINTERLEAVED'', 4)]"

definition async_values :: "(string \<times> int) list" where
  "async_values = [(''SYNC'', 0), (''ASYNC_SIGNAL'', 1), (''ASYNC_TIMER'', 2)]"

definition to_lower :: "char \<Rightarrow> char" where
  "to_lower c = (let n = (of_char c :: nat) in if 65 \<le> n \<and> n \<le> 90 then char_of (n + 32) else c)"

text \<open>\<^verbatim>\<open>strncasecmp(a, b, n) == 0\<close>\<close>

definition strn_case_eq :: "string \<Rightarrow> string \<Rightarrow> nat \<Rightarrow> bool" where
  "strn_case_eq a b n = strn_eq (map to_lower a) (map to_lower b) n"

fun value_of_name :: "(string \<times> int) list \<Rightarrow> string \<Rightarrow> int" where
  "value_of_name [] str = - 1"
| "value_of_name ((name, v) # vs) str = (if strn_case_eq str name (length name) then v else value_of_name vs str)"

fun name_of_value :: "(string \<times> int) list \<Rightarrow> int \<Rightarrow> string" where
  "name_of_value [] v = ''Unknown''"
| "name_of_value ((name, x) # vs) v = (if x = v then name else name_of_value vs v)"

definition str_to_format :: "string \<Rightarrow> int" where "str_to_format str = value_of_name format_values str"
definition str_to_access :: "string \<Rightarrow> int" where "str_to_access str = value_of_name access_values str"
definition str_to_async :: "string \<Rightarrow> int" where "str_to_async str = value_of_name async_values str"
definition format_to_str :: "int \<Rightarrow> string" where "format_to_str v = name_of_value format_values v"
definition access_to_str :: "int \<Rightarrow> string" where "access_to_str v = name_of_value access_values v"
definition async_to_str :: "int \<Rightarrow> string" where "async_to_str v = name_of_value async_values v"

section \<open>Cleaning the text\<close>

text \<open>\<^verbatim>\<open>cnfparser_remove_data(&buf[p], startpos, len)\<close> on the string at offset \<open>p\<close>; the sizes are unsigned.\<close>

definition cnfparser_remove_data :: "string \<Rightarrow> nat \<Rightarrow> nat \<Rightarrow> nat \<Rightarrow> (int \<times> string) res" where
  "cnfparser_remove_data buf p startpos len =
    (let s = drop p buf; blen = length s
     in if startpos \<ge> blen \<or> len > blen then Inr (- 1, buf)
        else if startpos + len > blen + 1 then Inl Out_Of_Bounds
        else if startpos + len = blen + 1 then Inr (0, buf)
        else Inr (0, take p buf @ take startpos s @ drop (startpos + len) s))"

lemma remove_data_shorter:
  "cnfparser_remove_data buf p i n = Inr (e, buf') \<Longrightarrow> p + i + n \<le> length buf \<Longrightarrow> 0 < n \<Longrightarrow> length buf' < length buf"
  by (auto simp: cnfparser_remove_data_def Let_def split: if_splits)

text \<open>
  \<^verbatim>\<open>line\<close> is left alone if no newline follows. The terminating NUL of a line of 256 characters is written behind the buffer.
\<close>

definition cnfparser_readline :: "string \<Rightarrow> nat \<Rightarrow> string option \<Rightarrow> (nat \<times> string option) res" where
  "cnfparser_readline buf p line =
    (let s = drop p buf
     in case strchr s newline_char of None \<Rightarrow> Inr (length s, line)
        | Some i \<Rightarrow> let len = min i MAX_LINE_LEN in if len < MAX_LINE_LEN then Inr (len, Some (take len s)) else Inl Out_Of_Bounds)"

text \<open>The three loops of \<^verbatim>\<open>cnfparser_cleanup\<close>.\<close>

function blanks_loop :: "nat \<Rightarrow> bool \<Rightarrow> string \<Rightarrow> string res" where
  "blanks_loop t in_str buf =
    (if t < length buf
     then let in_str = (if buf ! t = quote_char then \<not> in_str else in_str)
       in if \<not> in_str \<and> buf ! t = CHR 0x0D then rbind (cnfparser_remove_data buf 0 t 1) (\<lambda>(_, buf'). blanks_loop t in_str buf')
          else if \<not> in_str \<and> buf ! t = CHR 0x09 then blanks_loop (t + 1) in_str (buf[t := CHR '' ''])
          else blanks_loop (t + 1) in_str buf
     else Inr buf)"
  by pat_completeness auto
termination
  by (relation "measure (\<lambda>(t, q, buf). length buf - t)") (auto dest!: remove_data_shorter)

function leading_loop :: "nat \<Rightarrow> string \<Rightarrow> string res" where
  "leading_loop p buf =
    (if p < length buf
     then if buf ! p = CHR '' '' then rbind (cnfparser_remove_data buf p 0 1) (\<lambda>(_, buf'). leading_loop p buf')
          else case strchr (drop p buf) newline_char of None \<Rightarrow> Inr buf | Some i \<Rightarrow> leading_loop (p + i + 1) buf
     else Inr buf)"
  by pat_completeness auto
termination
  by (relation "measure (\<lambda>(p, buf). length buf - p)") (auto dest!: remove_data_shorter)

lemma readline_within: "cnfparser_readline buf p line = Inr (len, line') \<Longrightarrow> len \<le> length (drop p buf)"
  by (auto simp: cnfparser_readline_def Let_def split: option.splits if_splits dest!: strchr_Some)

function comments_loop :: "nat \<Rightarrow> string option \<Rightarrow> string \<Rightarrow> string res" where
  "comments_loop p line buf =
    (if p < length buf
     then rbind (cnfparser_readline buf p line) (\<lambda>(len, line').
          if len = 0 then rbind (cnfparser_remove_data buf p 0 1) (\<lambda>(_, buf'). comments_loop p line' buf')
          else if buf ! p = CHR ''#'' then rbind (cnfparser_remove_data buf p 0 len) (\<lambda>(_, buf'). comments_loop p line' buf')
          else comments_loop (p + len + 1) line' buf)
     else Inr buf)"
  by pat_completeness auto
termination
  by (relation "measure (\<lambda>(p, line, buf). length buf - p)")
    (auto dest!: remove_data_shorter readline_within)

declare blanks_loop.simps [simp del] leading_loop.simps [simp del] comments_loop.simps [simp del]

text \<open>\<^verbatim>\<open>line\<close> is declared inside the third loop; its contents are never looked at.\<close>

definition cnfparser_cleanup :: "string \<Rightarrow> string res" where
  "cnfparser_cleanup buf = rbind (blanks_loop 0 False buf) (\<lambda>buf. rbind (leading_loop 0 buf) (\<lambda>buf. comments_loop 0 None buf))"

section \<open>Tokens\<close>

datatype cnf_token_type = CNF_TOKEN_STR | CNF_TOKEN_INT

record cnf_token =
  tk_type :: cnf_token_type
  tk_value :: "int option"
  tk_str :: string

text \<open>
  \<^verbatim>\<open>next_token\<close> on the rest of a line. What is stored in \<^verbatim>\<open>str\<close> is at most as long as the line. The value is stored when a
  token of digits ends; otherwise the old one stays. The result is the rest behind the token.
\<close>

definition finish_token :: "cnf_token \<Rightarrow> cnf_token" where
  "finish_token tk = (if tk_type tk = CNF_TOKEN_INT then tk\<lparr>tk_value := Some (atoi (tk_str tk))\<rparr> else tk)"

fun token_loop :: "string \<Rightarrow> bool \<Rightarrow> bool \<Rightarrow> cnf_token \<Rightarrow> string option \<times> cnf_token" where
  "token_loop [] start in_str tk = (if start then (Some [], finish_token tk) else (None, tk))"
| "token_loop (c # cs) start in_str tk =
    (let in_str = (if c = quote_char then \<not> in_str else in_str);
         start = (start \<or> c = quote_char)
     in if \<not> in_str \<and> (c = CHR '' '' \<or> c = newline_char) \<and> start then (Some (c # cs), finish_token tk)
        else let start = (start \<or> (\<not> in_str \<and> c \<noteq> CHR '' ''));
                 tk = (if start \<and> \<not> is_digit c then tk\<lparr>tk_type := CNF_TOKEN_STR\<rparr> else tk);
                 tk = (if start \<and> c \<noteq> quote_char then tk\<lparr>tk_str := tk_str tk @ [c]\<rparr> else tk)
             in token_loop cs start in_str tk)"

definition next_token :: "string option \<Rightarrow> cnf_token \<Rightarrow> (string option \<times> cnf_token) res" where
  "next_token p tk = rbind (deref p) (\<lambda>s. Inr (token_loop s False False (tk\<lparr>tk_type := CNF_TOKEN_INT, tk_str := []\<rparr>)))"

lemma token_loop_shorter: "token_loop s start in_str tk = (Some r, tk') \<Longrightarrow> length r \<le> length s \<and> (\<not> start \<longrightarrow> s \<noteq> [] \<and> length r < length s)"
proof (induction s arbitrary: start in_str tk r tk')
  case (Cons c cs)
  have "length r' \<le> length cs" if "token_loop cs st q t = (Some r', t')" for st q t r' t' using Cons.IH that by blast
  then show ?case using Cons.prems by (auto simp: Let_def le_SucI less_Suc_eq_le split: if_split_asm)
qed (auto split: if_splits)

lemma next_token_shorter: "next_token (Some s) tk = Inr (Some r, tk') \<Longrightarrow> length r < length s"
  by (auto simp: next_token_def dest: token_loop_shorter)

end
