(* ===== verification/Alsa_Control.thy ===== *)
theory Alsa_Control
  imports Alsa_Conf Alsa_Pcm
begin

text \<open>
  The mixer controls of a sound card, \<^verbatim>\<open>alsa_control.c\<close> and \<^verbatim>\<open>setup_control_settings\<close> of \<^verbatim>\<open>alsa_test_cases.c\<close> in
  \<^verbatim>\<open>blts-alsa-core\<close>: finding an element, the value written for a setting, and going through the settings of a section. The
  card is a state \<open>'d\<close>, and what its \<^verbatim>\<open>ioctl\<close> calls answer is the argument \<open>io\<close>. Allocations succeed.
\<close>

section \<open>Elements\<close>

datatype elem_type = TYPE_NONE | TYPE_BOOLEAN | TYPE_INTEGER | TYPE_ENUMERATED | TYPE_BYTES | TYPE_IEC958 | TYPE_INTEGER64 | TYPE_OTHER

record ctl_id =
  numid :: nat
  id_name :: string

record elem_info =
  ei_id :: ctl_id
  ei_type :: elem_type
  ei_count :: nat
  int_min :: int
  int_max :: int
  int64_min :: int
  int64_max :: int
  enum_items :: "32 word"

text \<open>\<open>el_values\<close> is the array of the union that belongs to the type.\<close>

record ctl_element =
  el_info :: elem_info
  el_id :: ctl_id
  el_values :: "int list"

record 'd ctl_ioctls =
  io_count :: "'d \<Rightarrow> int \<times> nat"
  io_list :: "'d \<Rightarrow> nat \<Rightarrow> int \<times> ctl_id list"
  io_info :: "'d \<Rightarrow> ctl_id \<Rightarrow> int \<times> elem_info"
  io_item_name :: "'d \<Rightarrow> ctl_id \<Rightarrow> nat \<Rightarrow> int \<times> string"
  io_read :: "'d \<Rightarrow> ctl_id \<Rightarrow> int \<times> int list"
  io_write :: "'d \<Rightarrow> ctl_id \<Rightarrow> int list \<Rightarrow> int \<times> 'd"

text \<open>What opening the card answers: the descriptor and the protocol version.\<close>

record card_answers =
  ca_fd :: int
  ca_version_err :: int
  ca_protocol :: int

definition SNDRV_PROTOCOL_VERSION :: "int \<Rightarrow> int \<Rightarrow> int \<Rightarrow> int" where
  "SNDRV_PROTOCOL_VERSION major minor subminor = major * 65536 + minor * 256 + subminor"

definition control_open :: "(int \<Rightarrow> card_answers) \<Rightarrow> int \<Rightarrow> bool" where
  "control_open cards n =
    (if n < 0 \<or> n \<ge> MAX_CARDS then False
     else let a = cards n
       in if ca_fd a = 0 then False
          else if ca_version_err a \<noteq> 0 then False
          else \<not> ca_protocol a < SNDRV_PROTOCOL_VERSION 2 0 6)"

text \<open>The elements are read one after the other until one is accepted.\<close>

fun find_element :: "'d ctl_ioctls \<Rightarrow> (ctl_id \<Rightarrow> elem_info \<Rightarrow> bool) \<Rightarrow> 'd \<Rightarrow> ctl_id list \<Rightarrow> ctl_element option" where
  "find_element io accept d [] = None"
| "find_element io accept d (i # ids) =
    (let (err, info) = io_info io d i
     in if err \<noteq> 0 then None
        else let (err, vs) = io_read io d i
          in if err \<noteq> 0 then None
             else if accept i info then Some \<lparr>el_info = info, el_id = i, el_values = vs\<rparr> else find_element io accept d ids)"

definition list_and_find :: "'d ctl_ioctls \<Rightarrow> (ctl_id \<Rightarrow> elem_info \<Rightarrow> bool) \<Rightarrow> 'd \<Rightarrow> ctl_element option" where
  "list_and_find io accept d =
    (let (err, n) = io_count io d
     in if err \<noteq> 0 then None
        else let (err, ids) = io_list io d n in if err \<noteq> 0 then None else find_element io accept d ids)"

definition control_read_by_id :: "'d ctl_ioctls \<Rightarrow> 'd \<Rightarrow> int \<Rightarrow> ctl_element option" where
  "control_read_by_id io d i = list_and_find io (\<lambda>_ info. int (numid (ei_id info)) = i mod 2 ^ 32) d"

text \<open>The name in the settings may be the beginning of the element's.\<close>

definition control_read :: "'d ctl_ioctls \<Rightarrow> 'd \<Rightarrow> string \<Rightarrow> ctl_element option" where
  "control_read io d name = list_and_find io (\<lambda>i _. strn_eq (id_name i) name (length name)) d"

section \<open>Values\<close>

definition clamp :: "int \<Rightarrow> int \<Rightarrow> int \<Rightarrow> int" where
  "clamp low high v = (let v = (if v < low then low else v) in if v > high then high else v)"

definition store_value :: "nat \<Rightarrow> ctl_element \<Rightarrow> nat \<Rightarrow> int \<Rightarrow> (int \<times> ctl_element) res" where
  "store_value capacity el chan v = (if chan < capacity \<and> chan < length (el_values el) then Inr (0, el\<lparr>el_values := (el_values el)[chan := v]\<rparr>)
     else Inl Out_Of_Bounds)"

text \<open>A boolean falls through to the integers. The number of the last item is unsigned.\<close>

definition set_check_contol_value :: "ctl_element \<Rightarrow> nat \<Rightarrow> int \<Rightarrow> (int \<times> ctl_element) res" where
  "set_check_contol_value el chan v = (let info = el_info el in case ei_type info of
       TYPE_BOOLEAN \<Rightarrow> store_value 128 el chan (clamp (int_min info) (int_max info) (if v > 0 then 1 else v))
     | TYPE_INTEGER \<Rightarrow> store_value 128 el chan (clamp (int_min info) (int_max info) v)
     | TYPE_INTEGER64 \<Rightarrow> store_value 64 el chan (clamp (int64_min info) (int64_max info) v)
     | TYPE_ENUMERATED \<Rightarrow> if v < 0 \<or> v > uint (enum_items info - 1) then Inr (- EINVAL, el) else store_value 128 el chan v
     | TYPE_BYTES \<Rightarrow> if v < 0 \<or> v > 255 then Inr (- EINVAL, el) else store_value 512 el chan v
     | _ \<Rightarrow> Inr (- EINVAL, el))"

fun set_channels :: "ctl_element \<Rightarrow> int \<Rightarrow> nat list \<Rightarrow> (int \<times> ctl_element) res" where
  "set_channels el v [] = Inr (0, el)"
| "set_channels el v (i # is) = rbind (set_check_contol_value el i v) (\<lambda>(err, el). if err \<noteq> 0 then Inr (err, el) else set_channels el v is)"

definition control_write :: "'d ctl_ioctls \<Rightarrow> 'd \<Rightarrow> ctl_element \<Rightarrow> int \<Rightarrow> (int \<times> 'd) res" where
  "control_write io d el v = rbind (set_channels el v [0..<ei_count (el_info el)]) (\<lambda>(err, el).
     Inr (if err \<noteq> 0 then (err, d) else io_write io d (el_id el) (el_values el)))"

definition control_write_single :: "'d ctl_ioctls \<Rightarrow> 'd \<Rightarrow> ctl_element \<Rightarrow> nat \<Rightarrow> int \<Rightarrow> (int \<times> 'd) res" where
  "control_write_single io d el chan v = rbind (set_check_contol_value el chan v) (\<lambda>(err, el).
     Inr (if err \<noteq> 0 then (err, d) else io_write io d (el_id el) (el_values el)))"

definition INT_MAX :: int where "INT_MAX = 2147483647"

fun item_loop :: "'d ctl_ioctls \<Rightarrow> 'd \<Rightarrow> ctl_id \<Rightarrow> string \<Rightarrow> nat list \<Rightarrow> int + int" where
  "item_loop io d i name [] = Inl (- EINVAL)"
| "item_loop io d i name (t # ts) =
    (let (err, item) = io_item_name io d i t
     in if err \<noteq> 0 then Inl err else if item = name then Inr (int t) else item_loop io d i name ts)"

definition contol_value_by_name :: "'d ctl_ioctls \<Rightarrow> 'd \<Rightarrow> ctl_element \<Rightarrow> string \<Rightarrow> int + int" where
  "contol_value_by_name io d el name =
    (if ei_type (el_info el) = TYPE_ENUMERATED then item_loop io d (ei_id (el_info el)) name [0..<unat (enum_items (el_info el))]
     else if name = ''off'' then Inr 0 else if name = ''on'' then Inr INT_MAX
     else if name = ''max'' then Inr INT_MAX else if name = ''min'' then Inr 0 else Inl (- EINVAL))"

section \<open>The settings of a section\<close>

definition read_element :: "'d ctl_ioctls \<Rightarrow> 'd \<Rightarrow> alsa_control_value \<Rightarrow> ctl_element option" where
  "read_element io d v = (if control_name v \<noteq> [] then control_read io d (control_name v) else control_read_by_id io d (control_id v))"

text \<open>A value found by its name replaces the number in the settings. What is read again afterwards is only freed.\<close>

fun settings_loop :: "'d ctl_ioctls \<Rightarrow> 'd \<Rightarrow> alsa_control_value list \<Rightarrow> (int \<times> 'd \<times> alsa_control_value list) res" where
  "settings_loop io d [] = Inr (0, d, [])"
| "settings_loop io d (v # vs) = (case read_element io d v of None \<Rightarrow> Inr (- 1, d, v # vs) | Some ctl \<Rightarrow>
     (case (if str_value v = [] then Inr (cv_value v) else contol_value_by_name io d ctl (str_value v)) of
        Inl _ \<Rightarrow> Inr (- 1, d, v # vs)
      | Inr n \<Rightarrow> let v = v\<lparr>cv_value := n\<rparr>
          in rbind (control_write io d ctl n) (\<lambda>(err, d). if err \<noteq> 0 then Inr (- 1, d, v # vs)
             else case read_element io d v of None \<Rightarrow> Inr (- 1, d, v # vs)
             | Some ctl2 \<Rightarrow> rbind (settings_loop io d vs) (\<lambda>(err, d, vs). Inr (err, d, v # vs)))))"

definition setup_control_settings :: "'d ctl_ioctls \<Rightarrow> (int \<Rightarrow> card_answers) \<Rightarrow> 'd \<Rightarrow> alsa_control_settings option
    \<Rightarrow> (int \<times> 'd \<times> alsa_control_settings option) res" where
  "setup_control_settings io cards d settings = (case settings of None \<Rightarrow> Inr (- EINVAL, d, None) | Some cs \<Rightarrow>
     if cs_values cs = [] then Inr (0, d, Some cs)
     else if \<not> control_open cards (cs_card cs) then Inr (- 1, d, Some cs)
     else rbind (settings_loop io d (cs_values cs)) (\<lambda>(err, d, vs). Inr (err, d, Some (cs\<lparr>cs_values := vs\<rparr>))))"

section \<open>What is written is in range\<close>

text \<open>The range an element reports; items of an enumeration are counted from 0.\<close>

definition value_in_range :: "elem_info \<Rightarrow> int \<Rightarrow> bool" where
  "value_in_range info v = (case ei_type info of
     TYPE_BOOLEAN \<Rightarrow> int_min info \<le> v \<and> v \<le> int_max info
   | TYPE_INTEGER \<Rightarrow> int_min info \<le> v \<and> v \<le> int_max info
   | TYPE_INTEGER64 \<Rightarrow> int64_min info \<le> v \<and> v \<le> int64_max info
   | TYPE_ENUMERATED \<Rightarrow> 0 \<le> v \<and> v < uint (enum_items info)
   | TYPE_BYTES \<Rightarrow> 0 \<le> v \<and> v < 256
   | _ \<Rightarrow> False)"

text \<open>A range that is not empty, for the types of elements that have one.\<close>

definition info_ok :: "elem_info \<Rightarrow> bool" where
  "info_ok info = (case ei_type info of
     TYPE_BOOLEAN \<Rightarrow> int_min info \<le> int_max info
   | TYPE_INTEGER \<Rightarrow> int_min info \<le> int_max info
   | TYPE_INTEGER64 \<Rightarrow> int64_min info \<le> int64_max info
   | TYPE_ENUMERATED \<Rightarrow> enum_items info \<noteq> 0
   | _ \<Rightarrow> True)"

lemma clamp_between: "low \<le> high \<Longrightarrow> low \<le> clamp low high v \<and> clamp low high v \<le> high"
  by (simp add: clamp_def Let_def)

lemma clamp_nearest: "low \<le> w \<Longrightarrow> w \<le> high \<Longrightarrow> \<bar>v - clamp low high v\<bar> \<le> \<bar>v - w\<bar>"
  by (auto simp: clamp_def Let_def)

lemma last_item:
  assumes "n \<noteq> (0 :: 32 word)"
  shows "uint (n - 1) = uint n - 1"
proof -
  have "uint n \<noteq> 0" "0 \<le> uint n" using assms by (simp_all add: unsigned_eq_0_iff)
  then have "1 \<le> uint n" by linarith
  then have "uint (1 :: 32 word) \<le> uint n" by simp
  then show ?thesis by (simp add: uint_sub_lem [THEN iffD1])
qed

lemma items_positive: "n \<noteq> (0 :: 32 word) \<Longrightarrow> 0 < uint n"
  by (metis unsigned_eq_0_iff unsigned_greater_eq order_le_less)

text \<open>
  The value a setting becomes for an element, and how many channels the array of its type has; elements of another type are
  never written.
\<close>

definition chosen :: "elem_info \<Rightarrow> int \<Rightarrow> int option" where
  "chosen info v = (case ei_type info of
     TYPE_BOOLEAN \<Rightarrow> Some (clamp (int_min info) (int_max info) (if v > 0 then 1 else v))
   | TYPE_INTEGER \<Rightarrow> Some (clamp (int_min info) (int_max info) v)
   | TYPE_INTEGER64 \<Rightarrow> Some (clamp (int64_min info) (int64_max info) v)
   | TYPE_ENUMERATED \<Rightarrow> if 0 \<le> v \<and> v < uint (enum_items info) then Some v else None
   | TYPE_BYTES \<Rightarrow> if 0 \<le> v \<and> v < 256 then Some v else None
   | _ \<Rightarrow> None)"

definition channels_of :: "elem_type \<Rightarrow> nat" where
  "channels_of t = (case t of TYPE_BOOLEAN \<Rightarrow> 128 | TYPE_INTEGER \<Rightarrow> 128 | TYPE_INTEGER64 \<Rightarrow> 64 | TYPE_ENUMERATED \<Rightarrow> 128 | TYPE_BYTES \<Rightarrow> 512 | _ \<Rightarrow> 0)"

lemma chosen_in_range: "chosen info v = Some w \<Longrightarrow> info_ok info \<Longrightarrow> value_in_range info w"
  by (auto simp: chosen_def value_in_range_def info_ok_def clamp_between split: elem_type.splits if_splits)

lemma set_check_chosen:
  assumes "info_ok (el_info el)"
  shows "set_check_contol_value el chan v = (case chosen (el_info el) v of None \<Rightarrow> Inr (- EINVAL, el)
    | Some w \<Rightarrow> store_value (channels_of (ei_type (el_info el))) el chan w)"
  using assms
  by (auto simp: set_check_contol_value_def chosen_def channels_of_def info_ok_def Let_def last_item items_positive split: elem_type.splits)

lemma set_channels_result:
  assumes "info_ok (el_info el)" and "chosen (el_info el) v = Some w"
    and "n \<le> channels_of (ei_type (el_info el))" and "n \<le> length (el_values el)" and "k \<le> n"
  shows "set_channels (el\<lparr>el_values := replicate k w @ drop k (el_values el)\<rparr>) v [k..<n] = Inr (0, el\<lparr>el_values := replicate n w @ drop n (el_values el)\<rparr>)"
  using assms(5)
proof (induction rule: inc_induct)
  case base
  show ?case by simp
next
  case (step k)
  define el1 where "el1 = el\<lparr>el_values := replicate k w @ drop k (el_values el)\<rparr>"
  have "drop k (el_values el) = el_values el ! k # drop (Suc k) (el_values el)" using step.hyps assms(4) by (simp add: Cons_nth_drop_Suc)
  then have upd: "el1\<lparr>el_values := (el_values el1)[k := w]\<rparr> = el\<lparr>el_values := replicate (Suc k) w @ drop (Suc k) (el_values el)\<rparr>"
    by (simp add: el1_def list_update_append replicate_append_same)
  have "info_ok (el_info el1)" "chosen (el_info el1) v = Some w" using assms(1,2) by (simp_all add: el1_def)
  then have "set_check_contol_value el1 k v = store_value (channels_of (ei_type (el_info el1))) el1 k w" using set_check_chosen [of el1 k v] by simp
  also have "\<dots> = Inr (0, el1\<lparr>el_values := (el_values el1)[k := w]\<rparr>)" using step.hyps assms(3,4) by (simp add: store_value_def el1_def)
  finally show ?case
    using step.IH step.hyps unfolding el1_def [symmetric] upd by (simp add: upt_conv_Cons upd)
qed

text \<open>Writing a value: all channels get the value nearest to it, or nothing is written.\<close>

lemma control_write_result:
  assumes "info_ok (el_info el)" and "0 < ei_count (el_info el)"
    and "chosen (el_info el) v \<noteq> None \<Longrightarrow> ei_count (el_info el) \<le> channels_of (ei_type (el_info el)) \<and> ei_count (el_info el) \<le> length (el_values el)"
  shows "control_write io d el v = (case chosen (el_info el) v of None \<Rightarrow> Inr (- EINVAL, d)
    | Some w \<Rightarrow> Inr (io_write io d (el_id el) (replicate (ei_count (el_info el)) w @ drop (ei_count (el_info el)) (el_values el))))"
proof (cases "chosen (el_info el) v")
  case None
  then show ?thesis using assms(2) set_check_chosen [OF assms(1), of 0 v] by (simp add: control_write_def upt_conv_Cons)
next
  case (Some w)
  then show ?thesis using set_channels_result [OF assms(1) Some, of "ei_count (el_info el)" 0] assms(3) by (simp add: control_write_def)
qed

lemma control_write_nothing: "ei_count (el_info el) = 0 \<Longrightarrow> control_write io d el v = Inr (io_write io d (el_id el) (el_values el))"
  by (simp add: control_write_def)

section \<open>A card whose elements are described properly\<close>

text \<open>
  The range of an element is not empty, and one of a type that the program writes has no more channels than the kernel's
  array for the type, and is read with a value for each. Elements of the other types (IEC958 and none) may be anything.
\<close>

definition written_type :: "elem_type \<Rightarrow> bool" where
  "written_type t = (t \<in> {TYPE_BOOLEAN, TYPE_INTEGER, TYPE_INTEGER64, TYPE_ENUMERATED, TYPE_BYTES})"

definition card_ok :: "'d ctl_ioctls \<Rightarrow> bool" where
  "card_ok io = (\<forall>d i info. io_info io d i = (0, info) \<longrightarrow> info_ok info
     \<and> (written_type (ei_type info) \<longrightarrow> ei_count info \<le> channels_of (ei_type info)
       \<and> (\<forall>vs. io_read io d i = (0, vs) \<longrightarrow> ei_count info \<le> length vs)))"

lemma chosen_written: "chosen info v = Some w \<Longrightarrow> written_type (ei_type info)"
  by (simp add: chosen_def written_type_def split: elem_type.splits)

text \<open>\<open>P\<close> survives every write whose values are in the range of the element.\<close>

definition keeps :: "'d ctl_ioctls \<Rightarrow> ('d \<Rightarrow> bool) \<Rightarrow> bool" where
  "keeps io P = (\<forall>d i info vs. P d \<longrightarrow> io_info io d i = (0, info) \<longrightarrow> (\<forall>j<ei_count info. value_in_range info (vs ! j)) \<longrightarrow> P (snd (io_write io d i vs)))"

lemma find_element_found:
  "find_element io accept d ids = Some el \<Longrightarrow> io_info io d (el_id el) = (0, el_info el) \<and> io_read io d (el_id el) = (0, el_values el)"
  by (induction ids) (auto simp: Let_def split: prod.splits if_splits)

lemma read_element_found: "read_element io d v = Some el \<Longrightarrow> io_info io d (el_id el) = (0, el_info el) \<and> io_read io d (el_id el) = (0, el_values el)"
  by (auto simp: read_element_def control_read_def control_read_by_id_def list_and_find_def Let_def split: prod.splits if_splits
      dest: find_element_found)

lemma control_write_keeps:
  assumes "card_ok io" and "keeps io P" and "P d" and "read_element io d v = Some el"
  shows "\<exists>err d'. control_write io d el n = Inr (err, d') \<and> P d'"
proof -
  have found: "io_info io d (el_id el) = (0, el_info el)" "io_read io d (el_id el) = (0, el_values el)"
    using read_element_found [OF assms(4)] by simp_all
  then have ok: "info_ok (el_info el)" "written_type (ei_type (el_info el)) \<Longrightarrow> ei_count (el_info el) \<le> channels_of (ei_type (el_info el))
      \<and> ei_count (el_info el) \<le> length (el_values el)"
    using assms(1) unfolding card_ok_def by blast+
  show ?thesis
  proof (cases "ei_count (el_info el) = 0")
    case True
    then have "P (snd (io_write io d (el_id el) (el_values el)))" using assms(2,3) found(1) unfolding keeps_def by auto
    then show ?thesis using control_write_nothing [OF True, of io d n] by (cases "io_write io d (el_id el) (el_values el)") simp
  next
    case False
    then have result: "control_write io d el n = (case chosen (el_info el) n of None \<Rightarrow> Inr (- EINVAL, d)
        | Some w \<Rightarrow> Inr (io_write io d (el_id el) (replicate (ei_count (el_info el)) w @ drop (ei_count (el_info el)) (el_values el))))"
      using ok chosen_written by (intro control_write_result) auto
    show ?thesis
    proof (cases "chosen (el_info el) n")
      case None
      then show ?thesis using result assms(3) by simp
    next
      case (Some w)
      define vs where "vs = replicate (ei_count (el_info el)) w @ drop (ei_count (el_info el)) (el_values el)"
      have "\<forall>j<ei_count (el_info el). value_in_range (el_info el) (vs ! j)" using chosen_in_range [OF Some ok(1)] by (simp add: vs_def nth_append)
      then have "P (snd (io_write io d (el_id el) vs))" using assms(2,3) found(1) unfolding keeps_def by blast
      then show ?thesis using result Some by (cases "io_write io d (el_id el) vs") (simp add: vs_def)
    qed
  qed
qed

lemma settings_loop_keeps:
  assumes "card_ok io" and "keeps io P" and "P d"
  shows "\<exists>err d' vs'. settings_loop io d vs = Inr (err, d', vs') \<and> P d' \<and> length vs' = length vs"
  using assms(3)
proof (induction vs arbitrary: d)
  case (Cons v vs)
  show ?case
  proof (cases "read_element io d v")
    case (Some el)
    show ?thesis
    proof (cases "if str_value v = [] then Inr (cv_value v) else contol_value_by_name io d el (str_value v)")
      case (Inr n)
      obtain err d1 where wr: "control_write io d el n = Inr (err, d1)" "P d1"
        using control_write_keeps [OF assms(1,2) Cons.prems Some] by blast
      show ?thesis
        using Cons.IH [OF wr(2)] wr Cons.prems Some Inr
        by (cases "err = 0"; cases "read_element io d1 (v\<lparr>cv_value := n\<rparr>)") (auto simp: Let_def)
    qed (use Some Cons.prems in simp)
  qed (use Cons.prems in simp)
qed simp

lemma setup_controls_keeps:
  assumes "card_ok io" and "keeps io P" and "P d"
  shows "\<exists>err d' s'. setup_control_settings io cards d settings = Inr (err, d', s') \<and> P d'"
proof (cases settings)
  case (Some cs)
  then show ?thesis
    using settings_loop_keeps [OF assms, of "cs_values cs"] assms(3) by (auto simp: setup_control_settings_def)
qed (use assms(3) in \<open>simp add: setup_control_settings_def\<close>)

end
