(* ===== verification/Alsa_Sections.thy ===== *)
theory Alsa_Sections
  imports Alsa_Conf
begin

text \<open>
  The second half of \<^verbatim>\<open>alsa_conf_file.c\<close>: the settings inside a section, the sections of a test set and of the file, and
  reading and freeing a configuration. Offsets into the cleaned text stand for the pointers; \<open>None\<close> is NULL.
\<close>

section \<open>Sections and lines\<close>

text \<open>\<^verbatim>\<open>cnfparser_seek_section_end\<close>\<close>

function seek_loop :: "string \<Rightarrow> nat \<Rightarrow> nat \<Rightarrow> string \<Rightarrow> string option \<Rightarrow> nat option res" where
  "seek_loop buf p end_p tag line =
    (if p < end_p
     then rbind (cnfparser_readline buf p line) (\<lambda>(len, line'). rbind (initialised line') (\<lambda>l.
          if l = tag then Inr (Some p) else seek_loop buf (p + len + 1) end_p tag line'))
     else Inr None)"
  by pat_completeness auto
termination by (relation "measure (\<lambda>(buf, p, end_p, tag, line). end_p - p)") auto

declare seek_loop.simps [simp del]

definition cnfparser_seek_section_end :: "string \<Rightarrow> nat \<Rightarrow> nat \<Rightarrow> string \<Rightarrow> nat option res" where
  "cnfparser_seek_section_end buf p end_p tag = seek_loop buf p end_p tag None"

text \<open>
  The loop all four section parsers have: each line starts with a token that is text and is then handled by the keyword.
  \<open>False\<close> is the jump to \<^verbatim>\<open>error_exit\<close>.
\<close>

type_synonym 's line_handler = "string option \<Rightarrow> cnf_token \<Rightarrow> 's \<Rightarrow> (bool \<times> cnf_token \<times> 's) res"

function lines_loop :: "'s line_handler \<Rightarrow> string \<Rightarrow> nat \<Rightarrow> nat \<Rightarrow> string option \<Rightarrow> cnf_token \<Rightarrow> 's \<Rightarrow> (int \<times> 's) res" where
  "lines_loop handle buf start end_p line tk s =
    (if start < end_p
     then rbind (cnfparser_readline buf start line) (\<lambda>(len, line'). rbind (initialised line') (\<lambda>l.
          rbind (next_token (Some l) tk) (\<lambda>(rest, tk'). if rest = None \<or> tk_type tk' \<noteq> CNF_TOKEN_STR then Inr (- 1, s)
          else rbind (handle rest tk' s) (\<lambda>(good, tk'', s'). if \<not> good then Inr (- 1, s')
          else lines_loop handle buf (start + len + 1) end_p line' tk'' s'))))
     else Inr (0, s))"
  by pat_completeness auto
termination by (relation "measure (\<lambda>(handle, buf, start, end_p, line, tk, s). end_p - start)") auto

declare lines_loop.simps [simp del]

definition new_token :: cnf_token where
  "new_token = \<lparr>tk_type = CNF_TOKEN_INT, tk_value = None, tk_str = []\<rparr>"

definition strcpy_into :: "nat \<Rightarrow> string \<Rightarrow> string res" where
  "strcpy_into n s = (if length s < n then Inr s else Inl Out_Of_Bounds)"

text \<open>The value of a token that should be a number: whatever was read last, if the token is text.\<close>

definition number_line :: "(int \<Rightarrow> 's \<Rightarrow> 's) \<Rightarrow> 's line_handler" where
  "number_line store rest tk s = rbind (next_token rest tk) (\<lambda>(p, tk). if p = None then Inr (False, tk, s)
     else rbind (initialised (tk_value tk)) (\<lambda>v. Inr (True, tk, store v s)))"

definition int_line :: "(int \<Rightarrow> 's \<Rightarrow> 's) \<Rightarrow> 's line_handler" where
  "int_line store rest tk s = rbind (next_token rest tk) (\<lambda>(p, tk). if tk_type tk \<noteq> CNF_TOKEN_INT then Inr (False, tk, s)
     else rbind (initialised (tk_value tk)) (\<lambda>v. Inr (True, tk, store v s)))"

definition text_line :: "nat \<Rightarrow> (string \<Rightarrow> 's \<Rightarrow> 's) \<Rightarrow> 's line_handler" where
  "text_line n store rest tk s = rbind (next_token rest tk) (\<lambda>(p, tk). if p = None \<or> tk_type tk \<noteq> CNF_TOKEN_STR then Inr (False, tk, s)
     else rbind (strcpy_into n (tk_str tk)) (\<lambda>str. Inr (True, tk, store str s)))"

text \<open>Numbers up to the end of the line; \<open>conv\<close> reads names, where they are allowed.\<close>

function numbers_loop :: "(string \<Rightarrow> int) option \<Rightarrow> string option \<Rightarrow> cnf_token \<Rightarrow> int list \<Rightarrow> (bool \<times> cnf_token \<times> int list) res" where
  "numbers_loop conv p tk ns = rbind (next_token p tk) (\<lambda>(p', tk'). case p' of None \<Rightarrow> Inr (True, tk', ns) | Some r \<Rightarrow>
     (case tk_type tk' of
        CNF_TOKEN_INT \<Rightarrow> rbind (initialised (tk_value tk')) (\<lambda>v.
          if MAGIC_NUMBER \<le> length ns then Inl Out_Of_Bounds else numbers_loop conv p' tk' (ns @ [v]))
      | CNF_TOKEN_STR \<Rightarrow> (case conv of None \<Rightarrow> Inr (False, tk', ns) | Some f \<Rightarrow>
          if MAGIC_NUMBER \<le> length ns then Inl Out_Of_Bounds
          else if f (tk_str tk') < 0 then Inr (False, tk', ns) else numbers_loop conv p' tk' (ns @ [f (tk_str tk')]))))"
  by pat_completeness auto

lemma next_token_None [simp]: "next_token None tk = Inl Null_Deref"
  by (simp add: next_token_def)

lemma next_token_less: "next_token p tk = Inr (Some r, tk') \<Longrightarrow> length r < (case p of None \<Rightarrow> 0 | Some s \<Rightarrow> length s)"
  by (cases p) (auto dest: next_token_shorter)

termination numbers_loop
  by (relation "measure (\<lambda>(conv, p, tk, ns). case p of None \<Rightarrow> 0 | Some s \<Rightarrow> length s)") (auto dest!: next_token_less)

declare numbers_loop.simps [simp del]

definition numbers_line :: "(string \<Rightarrow> int) option \<Rightarrow> ('s \<Rightarrow> int list) \<Rightarrow> (int list \<Rightarrow> 's \<Rightarrow> 's) \<Rightarrow> 's line_handler" where
  "numbers_line conv get store rest tk s = rbind (numbers_loop conv rest tk (get s)) (\<lambda>(good, tk, ns). Inr (good, tk, store ns s))"

section \<open>Control settings\<close>

definition control_field :: "cnf_token \<Rightarrow> (string \<Rightarrow> alsa_control_value \<Rightarrow> alsa_control_value) \<Rightarrow> (int \<Rightarrow> alsa_control_value \<Rightarrow> alsa_control_value)
    \<Rightarrow> nat \<Rightarrow> alsa_control_value \<Rightarrow> alsa_control_value res" where
  "control_field tk store_str store_int n ctl = (case tk_type tk of
     CNF_TOKEN_STR \<Rightarrow> rbind (strcpy_into n (tk_str tk)) (\<lambda>str. Inr (store_str str ctl))
   | CNF_TOKEN_INT \<Rightarrow> rbind (initialised (tk_value tk)) (\<lambda>v. Inr (store_int v ctl)))"

definition control_line :: "alsa_control_settings line_handler" where
  "control_line rest tk cfg =
    (if strn_eq (tk_str tk) ''card'' 4 then number_line (\<lambda>v cfg. cfg\<lparr>cs_card := v\<rparr>) rest tk cfg
     else if strn_eq (tk_str tk) ''set'' 3
     then if MAGIC_NUMBER \<le> length (cs_values cfg) then Inl Out_Of_Bounds
       else rbind (next_token rest tk) (\<lambda>(p, tk).
            rbind (control_field tk (\<lambda>s ctl. ctl\<lparr>control_name := s\<rparr>) (\<lambda>v ctl. ctl\<lparr>control_id := v\<rparr>) MAGIC_NUMBER zero_control_value) (\<lambda>ctl.
            rbind (next_token p tk) (\<lambda>(p, tk).
            rbind (control_field tk (\<lambda>s ctl. ctl\<lparr>str_value := s\<rparr>) (\<lambda>v ctl. ctl\<lparr>cv_value := v\<rparr>) MAX_LINE_LEN ctl) (\<lambda>ctl.
            Inr (True, tk, cfg\<lparr>cs_values := cs_values cfg @ [ctl]\<rparr>)))))
     else Inr (False, tk, cfg))"

definition cnfparser_parse_control :: "string \<Rightarrow> nat \<Rightarrow> nat \<Rightarrow> (int \<times> alsa_control_settings) res" where
  "cnfparser_parse_control buf start end_p = lines_loop control_line buf start end_p None new_token zero_control"

section \<open>Stream settings\<close>

definition link_line :: "alsa_pcm_settings line_handler" where
  "link_line rest tk ps = rbind (next_token rest tk) (\<lambda>(p, tk). if tk_type tk \<noteq> CNF_TOKEN_INT then Inr (False, tk, ps)
     else rbind (initialised (tk_value tk)) (\<lambda>v. int_line (\<lambda>v ps. ps\<lparr>ps_link_device := v\<rparr>) p tk (ps\<lparr>ps_link_card := v\<rparr>)))"

definition pcm_line :: "alsa_pcm_settings line_handler" where
  "pcm_line rest tk ps =
    (let key = (\<lambda>word n. strn_eq (tk_str tk) word n)
     in if key ''card'' 4 then number_line (\<lambda>v ps. ps\<lparr>ps_card := v\<rparr>) rest tk ps
        else if key ''device'' 6 then number_line (\<lambda>v ps. ps\<lparr>ps_device := v\<rparr>) rest tk ps
        else if key ''hw_resampling'' 13 then number_line (\<lambda>v ps. ps\<lparr>ps_hw_resampling := v\<rparr>) rest tk ps
        else if key ''channels'' 8 then numbers_line None ps_channels (\<lambda>ns ps. ps\<lparr>ps_channels := ns\<rparr>) rest tk ps
        else if key ''rates'' 5 then numbers_line None ps_rates (\<lambda>ns ps. ps\<lparr>ps_rates := ns\<rparr>) rest tk ps
        else if key ''formats'' 7 then numbers_line (Some str_to_format) ps_formats (\<lambda>ns ps. ps\<lparr>ps_formats := ns\<rparr>) rest tk ps
        else if key ''access'' 6 then numbers_line (Some str_to_access) ps_access (\<lambda>ns ps. ps\<lparr>ps_access := ns\<rparr>) rest tk ps
        else if key ''async'' 5 then numbers_line (Some str_to_async) ps_async (\<lambda>ns ps. ps\<lparr>ps_async := ns\<rparr>) rest tk ps
        else if key ''duration'' 8 then number_line (\<lambda>v ps. ps\<lparr>ps_duration := v\<rparr>) rest tk ps
        else if key ''freq'' 4 then number_line (\<lambda>v ps. ps\<lparr>ps_freq := v\<rparr>) rest tk ps
        else if key ''link'' 4 then link_line rest tk ps
        else if key ''period_size'' 4 then number_line (\<lambda>v ps. ps\<lparr>ps_period_size := v\<rparr>) rest tk ps
        else if key ''volume'' 6 then number_line (\<lambda>v ps. ps\<lparr>ps_volume := v\<rparr>) rest tk ps
        else Inr (False, tk, ps))"

definition cnfparser_parse_pcm :: "string \<Rightarrow> nat \<Rightarrow> nat \<Rightarrow> alsa_pcm_settings \<Rightarrow> (int \<times> alsa_pcm_settings) res" where
  "cnfparser_parse_pcm buf start end_p ps = lines_loop pcm_line buf start end_p None new_token
     (ps\<lparr>ps_link_card := - 1, ps_link_device := - 1, ps_period_size := - 1, ps_volume := 100\<rparr>)"

section \<open>Tuner and bluetooth settings\<close>

definition set_tuner :: "(v4l_tuner_settings \<Rightarrow> v4l_tuner_settings) \<Rightarrow> alsa_testset \<Rightarrow> alsa_testset" where
  "set_tuner f ts = ts\<lparr>ts_tuner := f (ts_tuner ts)\<rparr>"

definition tuner_line :: "alsa_testset line_handler" where
  "tuner_line rest tk ts =
    (if tk_str tk = ''device'' then text_line 64 (\<lambda>s. set_tuner (\<lambda>t. t\<lparr>tuner_device := s\<rparr>)) rest tk ts
     else if tk_str tk = ''freq'' then int_line (\<lambda>v. set_tuner (\<lambda>t. t\<lparr>tuner_freq := v\<rparr>)) rest tk ts
     else if tk_str tk = ''scan_select'' then int_line (\<lambda>v. set_tuner (\<lambda>t. t\<lparr>tuner_scan := v\<rparr>)) rest tk ts
     else Inr (False, tk, ts))"

definition cnfparser_parse_tuner :: "string \<Rightarrow> nat \<Rightarrow> nat \<Rightarrow> alsa_testset \<Rightarrow> (int \<times> alsa_testset) res" where
  "cnfparser_parse_tuner buf start end_p ts = lines_loop tuner_line buf start end_p None new_token (set_tuner (\<lambda>t. t\<lparr>tuner_scan := - 1\<rparr>) ts)"

definition set_bluetooth :: "(bluetooth_audio_settings \<Rightarrow> bluetooth_audio_settings) \<Rightarrow> alsa_testset \<Rightarrow> alsa_testset" where
  "set_bluetooth f ts = ts\<lparr>ts_btaudio := f (ts_btaudio ts)\<rparr>"

definition bluetooth_line :: "alsa_testset line_handler" where
  "bluetooth_line rest tk ts =
    (if tk_str tk = ''connect'' then text_line 64 (\<lambda>s. set_bluetooth (\<lambda>b. b\<lparr>remote_mac := s\<rparr>)) rest tk ts
     else if tk_str tk = ''pin'' then text_line 64 (\<lambda>s. set_bluetooth (\<lambda>b. b\<lparr>bt_pin := s\<rparr>)) rest tk ts
     else Inr (False, tk, ts))"

definition cnfparser_parse_bluetooth :: "string \<Rightarrow> nat \<Rightarrow> nat \<Rightarrow> alsa_testset \<Rightarrow> (int \<times> alsa_testset) res" where
  "cnfparser_parse_bluetooth buf start end_p ts = lines_loop bluetooth_line buf start end_p None new_token ts"

section \<open>Test sets\<close>

definition cnfparser_parse_config_section :: "alsa_testset \<Rightarrow> string \<Rightarrow> nat \<Rightarrow> nat \<Rightarrow> (int \<times> alsa_testset) res" where
  "cnfparser_parse_config_section ts buf start end_p =
    (if MAX_STREAMS \<le> length (ts_pcms ts) then Inr (- 1, ts)
     else rbind (cnfparser_parse_pcm buf start end_p zero_pcm) (\<lambda>(err, ps).
       Inr (if err \<noteq> 0 then - 1 else 0, ts\<lparr>ts_pcms := ts_pcms ts @ [ps]\<rparr>)))"

definition testset_tags :: "(string \<times> string) list" where
  "testset_tags = [(''[playback]'', ''[end_playback]''), (''[recording]'', ''[end_recording]''), (''[control]'', ''[end_control]''),
     (''[wait]'', ''[end_wait]''), (''[tuner]'', ''[end_tuner]''), (''[bluetooth]'', ''[end_bluetooth]'')]"

definition stream_section :: "nat \<Rightarrow> alsa_testset \<Rightarrow> string \<Rightarrow> nat \<Rightarrow> nat \<Rightarrow> (int \<times> alsa_testset) res" where
  "stream_section dir ts buf start end_p = rbind (cnfparser_parse_config_section ts buf start end_p) (\<lambda>(err, ts).
     Inr (if err \<noteq> 0 then (- 1, ts) else (0, ts\<lparr>ts_pcms := butlast (ts_pcms ts) @ [(last (ts_pcms ts))\<lparr>ps_dir := dir\<rparr>]\<rparr>)))"

definition control_section :: "alsa_testset \<Rightarrow> string \<Rightarrow> nat \<Rightarrow> nat \<Rightarrow> (int \<times> alsa_testset) res" where
  "control_section ts buf start end_p =
    (if MAX_STREAMS \<le> length (ts_ctls ts) then Inr (- 1, ts)
     else rbind (cnfparser_parse_control buf start end_p) (\<lambda>(err, cs). Inr (err, ts\<lparr>ts_ctls := ts_ctls ts @ [cs]\<rparr>)))"

definition parse_subsection :: "string \<Rightarrow> alsa_testset \<Rightarrow> string \<Rightarrow> nat \<Rightarrow> nat \<Rightarrow> (int \<times> alsa_testset) res" where
  "parse_subsection tag ts buf start end_p =
    (if tag = ''[playback]'' then stream_section STREAM_DIR_OUT ts buf start end_p
     else if tag = ''[recording]'' then stream_section STREAM_DIR_IN ts buf start end_p
     else if tag = ''[control]'' then control_section ts buf start end_p
     else if tag = ''[wait]'' then stream_section STREAM_DIR_NONE ts buf start end_p
     else if tag = ''[tuner]'' then cnfparser_parse_tuner buf start end_p ts
     else cnfparser_parse_bluetooth buf start end_p ts)"

text \<open>A line outside the sections: only a description counts, and it has to be text. \<open>False\<close> is a return of -1.\<close>

definition description_line :: "string \<Rightarrow> cnf_token \<Rightarrow> alsa_testset \<Rightarrow> (bool \<times> cnf_token \<times> alsa_testset) res" where
  "description_line l tk ts = rbind (next_token (Some l) tk) (\<lambda>(rest, tk).
     if rest \<noteq> None \<and> tk_type tk = CNF_TOKEN_STR \<and> strn_eq (tk_str tk) ''description'' 11
     then text_line MAX_LINE_LEN (\<lambda>s ts. ts\<lparr>ts_description := s\<rparr>) rest tk ts else Inr (True, tk, ts))"

lemma seek_loop_between: "seek_loop buf p end_p tag line = Inr (Some e) \<Longrightarrow> p \<le> e \<and> e < end_p"
proof (induction buf p end_p tag line rule: seek_loop.induct)
  case (1 buf p end_p tag line)
  note IH = "1.IH" and found = "1.prems"
  from found show ?case
    by (subst (asm) seek_loop.simps) (auto split: if_splits dest: IH [OF _ _ refl])
qed

lemma seek_between: "cnfparser_seek_section_end buf p end_p tag = Inr (Some e) \<Longrightarrow> p \<le> e \<and> e < end_p"
  by (simp add: cnfparser_seek_section_end_def seek_loop_between)

text \<open>NULL is below every pointer, so the loop goes on with it and reads from it.\<close>

function testset_loop :: "string \<Rightarrow> nat option \<Rightarrow> nat \<Rightarrow> string option \<Rightarrow> cnf_token \<Rightarrow> alsa_testset \<Rightarrow> (int \<times> alsa_testset) res" where
  "testset_loop buf start end_p line tk ts = (case start of None \<Rightarrow> Inl Null_Deref | Some p \<Rightarrow>
     if p < end_p
     then rbind (cnfparser_readline buf p line) (\<lambda>(len, line'). rbind (initialised line') (\<lambda>l.
       case map_of testset_tags l of
         Some end_tag \<Rightarrow> rbind (cnfparser_seek_section_end buf (p + len + 1) end_p end_tag) (\<lambda>section_end. case section_end of
             None \<Rightarrow> testset_loop buf None end_p line' tk ts
           | Some e \<Rightarrow> rbind (parse_subsection l ts buf (p + len + 1) e) (\<lambda>(err, ts').
               if err \<noteq> 0 then Inr (- 1, ts') else testset_loop buf (Some e) end_p line' tk ts'))
       | None \<Rightarrow> rbind (description_line l tk ts) (\<lambda>(good, tk', ts').
           if \<not> good then Inr (- 1, ts') else testset_loop buf (Some (p + len + 1)) end_p line' tk' ts')))
     else Inr (0, ts))"
  by pat_completeness auto
termination
  by (relation "measure (\<lambda>(buf, start, end_p, line, tk, ts). case start of None \<Rightarrow> 0 | Some p \<Rightarrow> Suc end_p - p)")
    (auto dest!: seek_between)

declare testset_loop.simps [simp del]

definition cnfparser_parse_testset_section :: "alsa_configuration \<Rightarrow> string \<Rightarrow> nat \<Rightarrow> nat \<Rightarrow> (int \<times> alsa_configuration) res" where
  "cnfparser_parse_testset_section cf buf start end_p =
    (if MAGIC_NUMBER \<le> length (cf_testsets cf) then Inl Out_Of_Bounds
     else rbind (testset_loop buf (Some start) end_p None new_token zero_testset) (\<lambda>(err, ts).
       Inr (err, cf\<lparr>cf_testsets := cf_testsets cf @ [ts]\<rparr>)))"

section \<open>Defaults and the whole file\<close>

function defaults_loop :: "string \<Rightarrow> nat option \<Rightarrow> nat \<Rightarrow> string option \<Rightarrow> alsa_configuration \<Rightarrow> (int \<times> alsa_configuration) res" where
  "defaults_loop buf start end_p line cf = (case start of None \<Rightarrow> Inl Null_Deref | Some p \<Rightarrow>
     if p < end_p
     then rbind (cnfparser_readline buf p line) (\<lambda>(len, line'). rbind (initialised line') (\<lambda>l.
       if l = ''[control]''
       then rbind (cnfparser_seek_section_end buf (p + len + 1) end_p ''[end_control]'') (\<lambda>section_end. case section_end of
           None \<Rightarrow> defaults_loop buf None end_p line' cf
         | Some e \<Rightarrow> if MAX_STREAMS \<le> length (cf_def_ctls cf) then Inr (- 1, cf)
             else rbind (cnfparser_parse_control buf (p + len + 1) e) (\<lambda>(err, cs).
               let cf' = cf\<lparr>cf_def_ctls := cf_def_ctls cf @ [Some cs]\<rparr>
               in if err \<noteq> 0 then Inr (- 1, cf') else defaults_loop buf (Some e) end_p line' cf'))
       else defaults_loop buf (Some (p + len + 1)) end_p line' cf))
     else Inr (0, cf))"
  by pat_completeness auto
termination
  by (relation "measure (\<lambda>(buf, start, end_p, line, cf). case start of None \<Rightarrow> 0 | Some p \<Rightarrow> Suc end_p - p)")
    (auto dest!: seek_between)

declare defaults_loop.simps [simp del]

definition cnfparser_parse_defaults_section :: "alsa_configuration \<Rightarrow> string \<Rightarrow> nat \<Rightarrow> nat \<Rightarrow> (int \<times> alsa_configuration) res" where
  "cnfparser_parse_defaults_section cf buf start end_p = defaults_loop buf (Some start) end_p None cf"

function sections_loop :: "string \<Rightarrow> nat option \<Rightarrow> string option \<Rightarrow> alsa_configuration \<Rightarrow> (int \<times> alsa_configuration) res" where
  "sections_loop buf start line cf = (case start of None \<Rightarrow> Inl Null_Deref | Some p \<Rightarrow>
     if p < length buf
     then rbind (cnfparser_readline buf p line) (\<lambda>(len, line'). rbind (initialised line') (\<lambda>l.
       if l = ''[testset]''
       then rbind (cnfparser_seek_section_end buf (p + len + 1) (length buf) ''[end_testset]'') (\<lambda>section_end. case section_end of
           None \<Rightarrow> sections_loop buf None line' cf
         | Some e \<Rightarrow> rbind (cnfparser_parse_testset_section cf buf (p + len + 1) e) (\<lambda>(err, cf').
             if err \<noteq> 0 then Inr (- 1, cf') else sections_loop buf (Some e) line' cf'))
       else if l = ''[defaults]''
       then rbind (cnfparser_seek_section_end buf (p + len + 1) (length buf) ''[end_defaults]'') (\<lambda>section_end. case section_end of
           None \<Rightarrow> sections_loop buf None line' cf
         | Some e \<Rightarrow> rbind (cnfparser_parse_defaults_section cf buf (p + len + 1) e) (\<lambda>(err, cf').
             if err \<noteq> 0 then Inr (- 1, cf') else sections_loop buf (Some e) line' cf'))
       else sections_loop buf (Some (p + len + 1)) line' cf))
     else Inr (0, cf))"
  by pat_completeness auto
termination
  by (relation "measure (\<lambda>(buf, start, line, cf). case start of None \<Rightarrow> 0 | Some p \<Rightarrow> Suc (length buf) - p)")
    (auto dest!: seek_between)

declare sections_loop.simps [simp del]

definition cnfparser_parse_sections :: "string \<Rightarrow> alsa_configuration \<Rightarrow> (int \<times> alsa_configuration) res" where
  "cnfparser_parse_sections buf cf = sections_loop buf (Some 0) None cf"

text \<open>\<open>file\<close> is what the file holds, \<open>None\<close> if it cannot be opened or read. The text ends at the first NUL.\<close>

definition alsa_read_config :: "string option \<Rightarrow> alsa_configuration \<Rightarrow> (int \<times> alsa_configuration) res" where
  "alsa_read_config file config = (case file of None \<Rightarrow> Inr (- 1, config) | Some bytes \<Rightarrow>
     rbind (cnfparser_cleanup (takeWhile (\<lambda>c. c \<noteq> CHR 0x00) bytes)) (\<lambda>clean_buf.
     rbind (cnfparser_parse_sections clean_buf \<lparr>cf_testsets = [], cf_def_ctls = []\<rparr>) (\<lambda>(err, config).
     Inr (if err \<noteq> 0 then 1 else 0, config))))"

text \<open>The number of default controls is not set back.\<close>

definition alsa_free_config :: "alsa_configuration option \<Rightarrow> (int \<times> alsa_configuration option) res" where
  "alsa_free_config config = (case config of None \<Rightarrow> Inr (- EINVAL, None) | Some cf \<Rightarrow>
     if None \<in> set (cf_def_ctls cf) then Inl Use_After_Free
     else Inr (0, Some (cf\<lparr>cf_testsets := [], cf_def_ctls := map (\<lambda>_. None) (cf_def_ctls cf)\<rparr>)))"

end
