(* ===== verification/Alsa_Conf_Fits.thy ===== *)
theory Alsa_Conf_Fits
  imports Alsa_Sections
begin

text \<open>
  What a configuration that was read without a fault looks like: every array of the C structures is within its size and every
  text within its buffer. For streams and controls the program compares their number with the room for them; for the
  numbers of a setting, the texts and the test sets it does not, and there the model stops with a fault where the program
  writes on behind the array. The interface \<open>line_contract\<close> is what the loop over the lines of a section needs of a
  keyword handler.
\<close>

section \<open>Sizes of the structures\<close>

definition value_fits :: "alsa_control_value \<Rightarrow> bool" where
  "value_fits v = (length (control_name v) < MAGIC_NUMBER \<and> length (str_value v) < MAX_LINE_LEN)"

definition control_fits :: "alsa_control_settings \<Rightarrow> bool" where
  "control_fits cs = (length (cs_values cs) \<le> MAGIC_NUMBER \<and> (\<forall>v\<in>set (cs_values cs). value_fits v))"

definition pcm_fits :: "alsa_pcm_settings \<Rightarrow> bool" where
  "pcm_fits ps = (\<forall>ns\<in>{ps_rates ps, ps_formats ps, ps_channels ps, ps_access ps, ps_async ps}. length ns \<le> MAGIC_NUMBER)"

definition testset_fits :: "alsa_testset \<Rightarrow> bool" where
  "testset_fits ts = (length (ts_description ts) < MAX_LINE_LEN
     \<and> length (ts_pcms ts) \<le> MAX_STREAMS \<and> (\<forall>ps\<in>set (ts_pcms ts). pcm_fits ps)
     \<and> length (ts_ctls ts) \<le> MAX_STREAMS \<and> (\<forall>cs\<in>set (ts_ctls ts). control_fits cs)
     \<and> length (tuner_device (ts_tuner ts)) < 64 \<and> length (remote_mac (ts_btaudio ts)) < 64 \<and> length (bt_pin (ts_btaudio ts)) < 64)"

definition config_fits :: "alsa_configuration \<Rightarrow> bool" where
  "config_fits cf = (length (cf_testsets cf) \<le> MAGIC_NUMBER \<and> (\<forall>ts\<in>set (cf_testsets cf). testset_fits ts)
     \<and> length (cf_def_ctls cf) \<le> MAX_STREAMS \<and> (\<forall>cs. Some cs \<in> set (cf_def_ctls cf) \<longrightarrow> control_fits cs))"

section \<open>The contract of a keyword handler\<close>

locale line_contract =
  fixes handle :: "'s line_handler" and fits :: "'s \<Rightarrow> bool"
  assumes handle_fits: "handle rest tk s = Inr (good, tk', s') \<Longrightarrow> fits s \<Longrightarrow> fits s'"
begin

lemma lines_fit: "lines_loop handle buf start end_p line tk s = Inr (err, s') \<Longrightarrow> fits s \<Longrightarrow> fits s'"
proof (induction "end_p - start" arbitrary: start line tk s rule: less_induct)
  case less
  show ?case
  proof (cases "start < end_p")
    case False
    then show ?thesis using less.prems by (subst (asm) lines_loop.simps) simp
  next
    case True
    have next_line: "lines_loop handle buf (Suc (start + len)) end_p line1 tk1 s1 = Inr (err, s') \<Longrightarrow> fits s1 \<Longrightarrow> fits s'" for len line1 tk1 s1
      using True less.hyps [of "Suc (start + len)" line1 tk1 s1] by simp
    show ?thesis using less.prems True by (subst (asm) lines_loop.simps) (auto split: if_splits dest: handle_fits next_line)
  qed
qed

end

section \<open>The handlers\<close>

lemma strcpy_into_length: "strcpy_into n s = Inr s' \<Longrightarrow> length s' < n"
  by (auto simp: strcpy_into_def split: if_splits)

lemma numbers_loop_length: "numbers_loop conv p tk ns = Inr (good, tk', ns') \<Longrightarrow> length ns \<le> MAGIC_NUMBER \<Longrightarrow> length ns' \<le> MAGIC_NUMBER"
proof (induction conv p tk ns arbitrary: good tk' ns' rule: numbers_loop.induct)
  case (1 conv p tk ns)
  note found = "1.prems"(1) and room = "1.prems"(2)
  note int_step = "1.IH"(1) [OF _ refl] and name_step = "1.IH"(2) [OF _ refl]
  from found room show ?case
    by (subst (asm) numbers_loop.simps)
      (auto split: if_splits option.splits cnf_token_type.splits dest: int_step name_step)
qed

lemma number_line_fits: "number_line store rest tk s = Inr (good, tk', s') \<Longrightarrow> s' = s \<or> (\<exists>v. s' = store v s)"
  by (auto simp: number_line_def split: if_splits)

lemma int_line_fits: "int_line store rest tk s = Inr (good, tk', s') \<Longrightarrow> s' = s \<or> (\<exists>v. s' = store v s)"
  by (auto simp: int_line_def split: if_splits)

lemma text_line_fits: "text_line n store rest tk s = Inr (good, tk', s') \<Longrightarrow> s' = s \<or> (\<exists>str. length str < n \<and> s' = store str s)"
  by (auto simp: text_line_def split: if_splits dest!: strcpy_into_length)

lemma numbers_line_fits: "numbers_line conv get store rest tk s = Inr (good, tk', s') \<Longrightarrow> length (get s) \<le> MAGIC_NUMBER
    \<Longrightarrow> \<exists>ns. length ns \<le> MAGIC_NUMBER \<and> s' = store ns s"
  by (auto simp: numbers_line_def dest: numbers_loop_length)

lemmas handler_fits = number_line_fits int_line_fits text_line_fits numbers_line_fits

lemma control_field_fits:
  assumes "control_field tk store_str store_int n ctl = Inr ctl'"
  shows "(\<exists>s. length s < n \<and> ctl' = store_str s ctl) \<or> (\<exists>v. ctl' = store_int v ctl)"
  using assms by (auto simp: control_field_def split: cnf_token_type.splits dest!: strcpy_into_length)

lemma control_line_fits: "control_line rest tk cs = Inr (good, tk', cs') \<Longrightarrow> control_fits cs \<Longrightarrow> control_fits cs'"
  by (auto simp: control_line_def control_fits_def value_fits_def zero_control_value_def MAGIC_NUMBER_def MAX_LINE_LEN_def
      split: if_splits dest!: handler_fits control_field_fits)

lemma link_line_fits: "link_line rest tk ps = Inr (good, tk', ps') \<Longrightarrow> pcm_fits ps \<Longrightarrow> pcm_fits ps'"
  by (auto simp: link_line_def pcm_fits_def split: if_splits dest!: handler_fits)

lemma pcm_line_fits: "pcm_line rest tk ps = Inr (good, tk', ps') \<Longrightarrow> pcm_fits ps \<Longrightarrow> pcm_fits ps'"
  by (auto simp: pcm_line_def Let_def split: if_splits dest: link_line_fits)
    (auto simp: pcm_fits_def dest!: handler_fits)

lemma tuner_line_fits: "tuner_line rest tk ts = Inr (good, tk', ts') \<Longrightarrow> testset_fits ts \<Longrightarrow> testset_fits ts'"
  by (auto simp: tuner_line_def testset_fits_def set_tuner_def split: if_splits dest!: handler_fits)

lemma bluetooth_line_fits: "bluetooth_line rest tk ts = Inr (good, tk', ts') \<Longrightarrow> testset_fits ts \<Longrightarrow> testset_fits ts'"
  by (auto simp: bluetooth_line_def testset_fits_def set_bluetooth_def split: if_splits dest!: handler_fits)

interpretation control_lines: line_contract control_line control_fits
  by unfold_locales (rule control_line_fits)

interpretation pcm_lines: line_contract pcm_line pcm_fits
  by unfold_locales (rule pcm_line_fits)

interpretation tuner_lines: line_contract tuner_line testset_fits
  by unfold_locales (rule tuner_line_fits)

interpretation bluetooth_lines: line_contract bluetooth_line testset_fits
  by unfold_locales (rule bluetooth_line_fits)

section \<open>Sections and files\<close>

text \<open>What a computation leaves behind, if it returns.\<close>

definition leaves :: "('s \<Rightarrow> bool) \<Rightarrow> (int \<times> 's) res \<Rightarrow> bool" where
  "leaves P r = (case r of Inl e \<Rightarrow> True | Inr (err, s) \<Rightarrow> P s)"

lemma leaves_simps [simp]: "leaves P (Inl e)" "leaves P (Inr (err, s)) = P s"
  by (simp_all add: leaves_def)

lemma leaves_rbind: "(\<And>x. r = Inr x \<Longrightarrow> leaves P (f x)) \<Longrightarrow> leaves P (rbind r f)"
  by (cases r) simp_all

lemma leaves_if: "leaves P a \<Longrightarrow> leaves P b \<Longrightarrow> leaves P (if c then a else b)"
  by simp

lemma leaves_section: "(\<And>e. r = Inr (Some e) \<Longrightarrow> leaves P (f e)) \<Longrightarrow> leaves P g
    \<Longrightarrow> leaves P (rbind r (\<lambda>s. case s of None \<Rightarrow> g | Some e \<Rightarrow> f e))"
  by (intro leaves_rbind) (auto split: option.split)

lemma leavesD: "leaves P r \<Longrightarrow> r = Inr (err, s) \<Longrightarrow> P s"
  by simp

lemma parse_control_fits: "cnfparser_parse_control buf start end_p = Inr (err, cs) \<Longrightarrow> control_fits cs"
  unfolding cnfparser_parse_control_def by (erule control_lines.lines_fit) (simp add: control_fits_def zero_control_def)

lemma parse_pcm_fits: "cnfparser_parse_pcm buf start end_p ps = Inr (err, ps') \<Longrightarrow> pcm_fits ps \<Longrightarrow> pcm_fits ps'"
  unfolding cnfparser_parse_pcm_def by (erule pcm_lines.lines_fit) (simp add: pcm_fits_def)

lemma config_section_fits:
  assumes "cnfparser_parse_config_section ts buf start end_p = Inr (err, ts')" and "testset_fits ts"
  shows "testset_fits ts' \<and> (err = 0 \<longrightarrow> ts_pcms ts' \<noteq> [])"
proof -
  have "pcm_fits zero_pcm" by (simp add: pcm_fits_def zero_pcm_def)
  then show ?thesis
    using assms by (auto simp: cnfparser_parse_config_section_def testset_fits_def MAX_STREAMS_def split: if_splits dest!: parse_pcm_fits)
qed

lemma stream_section_fits:
  assumes "stream_section dir ts buf start end_p = Inr (err, ts')" and "testset_fits ts"
  shows "testset_fits ts'"
proof -
  obtain e ts1 where parsed: "cnfparser_parse_config_section ts buf start end_p = Inr (e, ts1)"
    and ts': "ts' = (if e \<noteq> 0 then ts1 else ts1\<lparr>ts_pcms := butlast (ts_pcms ts1) @ [(last (ts_pcms ts1))\<lparr>ps_dir := dir\<rparr>]\<rparr>)"
    using assms(1) by (auto simp: stream_section_def split: if_splits)
  note fits = config_section_fits [OF parsed assms(2)]
  show ?thesis
  proof (cases "e = 0")
    case True
    then have "ts_pcms ts1 \<noteq> []" using fits by simp
    then have "pcm_fits (last (ts_pcms ts1))" "length (butlast (ts_pcms ts1)) < MAX_STREAMS"
      using fits by (simp_all add: testset_fits_def MAX_STREAMS_def) (cases "ts_pcms ts1", simp_all)
    then show ?thesis using fits True by (auto simp: ts' testset_fits_def pcm_fits_def dest: in_set_butlastD)
  qed (use fits in \<open>simp add: ts'\<close>)
qed

lemma control_section_fits: "control_section ts buf start end_p = Inr (err, ts') \<Longrightarrow> testset_fits ts \<Longrightarrow> testset_fits ts'"
  by (auto simp: control_section_def testset_fits_def MAX_STREAMS_def split: if_splits dest!: parse_control_fits)

lemma parse_tuner_fits: "cnfparser_parse_tuner buf start end_p ts = Inr (err, ts') \<Longrightarrow> testset_fits ts \<Longrightarrow> testset_fits ts'"
  unfolding cnfparser_parse_tuner_def by (erule tuner_lines.lines_fit) (simp add: testset_fits_def set_tuner_def)

lemma parse_bluetooth_fits: "cnfparser_parse_bluetooth buf start end_p ts = Inr (err, ts') \<Longrightarrow> testset_fits ts \<Longrightarrow> testset_fits ts'"
  unfolding cnfparser_parse_bluetooth_def by (erule bluetooth_lines.lines_fit)

lemma subsection_fits: "parse_subsection tag ts buf start end_p = Inr (err, ts') \<Longrightarrow> testset_fits ts \<Longrightarrow> testset_fits ts'"
  by (auto simp: parse_subsection_def split: if_splits dest: stream_section_fits control_section_fits parse_tuner_fits parse_bluetooth_fits)

lemma description_line_fits: "description_line l tk ts = Inr (good, tk', ts') \<Longrightarrow> testset_fits ts \<Longrightarrow> testset_fits ts'"
  by (auto simp: description_line_def testset_fits_def split: if_splits dest!: text_line_fits)

lemma testset_loop_null [simp]: "testset_loop buf None end_p line tk ts = Inl Null_Deref"
  by (simp add: testset_loop.simps)

lemma testset_loop_fits: "testset_fits ts \<Longrightarrow> leaves testset_fits (testset_loop buf (Some p) end_p line tk ts)"
proof (induction "Suc end_p - p" arbitrary: p line tk ts rule: less_induct)
  case less
  show ?case
  proof (cases "p < end_p")
    case False
    then show ?thesis using less.prems by (subst testset_loop.simps) simp
  next
    case True
    have step: "leaves testset_fits (testset_loop buf (Some q) end_p line' tk' ts')" if "p < q" "testset_fits ts'" for q line' tk' ts'
      using True that by (intro less.hyps) auto
    have later: "p < e" if "cnfparser_seek_section_end buf (Suc (p + len)) end_p tag = Inr (Some e)" for len tag e
      using seek_between [OF that] by simp
    have "testset_fits ts'" if "parse_subsection tag ts buf q e = Inr (err, ts')" for tag q e err ts'
      using subsection_fits [OF that less.prems] .
    moreover have "testset_fits ts'" if "description_line l tk ts = Inr (good, tk', ts')" for l good tk' ts'
      using description_line_fits [OF that less.prems] .
    ultimately show ?thesis using less.prems True
      by (subst testset_loop.simps) (auto intro!: leaves_rbind step split: option.splits dest!: later)
  qed
qed

lemma testset_section_fits:
  assumes "cnfparser_parse_testset_section cf buf start end_p = Inr (err, cf')" and "config_fits cf"
  shows "config_fits cf'"
proof -
  have "testset_fits zero_testset" by (simp add: testset_fits_def zero_testset_def MAX_LINE_LEN_def)
  then have "testset_fits ts" if "testset_loop buf (Some start) end_p None new_token zero_testset = Inr (err, ts)" for ts
    using leavesD [OF testset_loop_fits that] by simp
  then show ?thesis
    using assms by (auto simp: cnfparser_parse_testset_section_def config_fits_def MAGIC_NUMBER_def split: if_splits)
qed

lemma add_def_ctl_fits: "config_fits cf \<Longrightarrow> length (cf_def_ctls cf) < MAX_STREAMS \<Longrightarrow> control_fits cs
    \<Longrightarrow> config_fits (cf\<lparr>cf_def_ctls := cf_def_ctls cf @ [Some cs]\<rparr>)"
  by (auto simp: config_fits_def)

lemma defaults_loop_null [simp]: "defaults_loop buf None end_p line cf = Inl Null_Deref"
  by (simp add: defaults_loop.simps)

lemma defaults_loop_fits: "config_fits cf \<Longrightarrow> leaves config_fits (defaults_loop buf (Some p) end_p line cf)"
proof (induction "Suc end_p - p" arbitrary: p line cf rule: less_induct)
  case less
  show ?case
  proof (cases "p < end_p")
    case False
    then show ?thesis using less.prems by (subst defaults_loop.simps) simp
  next
    case True
    have step: "leaves config_fits (defaults_loop buf (Some q) end_p line' cf')" if "p < q" "config_fits cf'" for q line' cf'
      using True that by (intro less.hyps) auto
    have later: "p < e" if "cnfparser_seek_section_end buf (Suc (p + len)) end_p tag = Inr (Some e)" for len tag e
      using seek_between [OF that] by simp
    show ?thesis using less.prems True
      by (subst defaults_loop.simps)
        (auto simp: Let_def not_le intro!: leaves_rbind step add_def_ctl_fits split: option.splits dest!: parse_control_fits later)
  qed
qed

lemma sections_loop_null [simp]: "sections_loop buf None line cf = Inl Null_Deref"
  by (simp add: sections_loop.simps)

lemma sections_loop_fits: "config_fits cf \<Longrightarrow> leaves config_fits (sections_loop buf (Some p) line cf)"
proof (induction "Suc (length buf) - p" arbitrary: p line cf rule: less_induct)
  case less
  show ?case
  proof (cases "p < length buf")
    case False
    then show ?thesis using less.prems by (subst sections_loop.simps) simp
  next
    case True
    have step: "leaves config_fits (sections_loop buf (Some q) line' cf')" if "p < q" "config_fits cf'" for q line' cf'
      using True that by (intro less.hyps) auto
    have defaults: "config_fits cf'" if "cnfparser_parse_defaults_section cf buf q e = Inr (err, cf')" for q e err cf'
      using that less.prems by (auto simp: cnfparser_parse_defaults_section_def dest: leavesD [OF defaults_loop_fits])
    have testset: "config_fits cf'" if "cnfparser_parse_testset_section cf buf q e = Inr (err, cf')" for q e err cf'
      using testset_section_fits [OF that less.prems] .
    have later: "p < e" if "cnfparser_seek_section_end buf (p + len + 1) end_q tag = Inr (Some e)" for len end_q tag e
      using seek_between [OF that] by simp
    have next_line: "leaves config_fits (sections_loop buf (Some (p + len + 1)) line' cf)" for len line'
      using less.prems by (intro step) simp_all
    have parsed: "leaves config_fits (rbind r (\<lambda>(err, cf'). if err \<noteq> 0 then Inr (- 1, cf') else sections_loop buf (Some e) line' cf'))"
      if "p < e" "\<And>err cf'. r = Inr (err, cf') \<Longrightarrow> config_fits cf'" for r e line'
      using that by (intro leaves_rbind) (auto intro: step)
    show ?thesis
      unfolding sections_loop.simps [of buf "Some p"] option.case(2) if_P [OF True]
      by (rule leaves_rbind, split prod.split, intro allI impI, rule leaves_rbind, intro leaves_if leaves_section parsed next_line)
        ((erule later testset defaults | simp only: sections_loop_null leaves_simps)+)
  qed
qed

lemma read_config_fits:
  assumes "alsa_read_config content cf = Inr (err, cf')" and "config_fits cf"
  shows "config_fits cf'"
proof (cases content)
  case None
  then show ?thesis using assms by (simp add: alsa_read_config_def)
next
  case (Some bytes)
  have "config_fits \<lparr>cf_testsets = [], cf_def_ctls = []\<rparr>" by (simp add: config_fits_def)
  note sections = leavesD [OF sections_loop_fits [OF this]]
  show ?thesis using assms(1) Some
    by (auto simp: alsa_read_config_def cnfparser_parse_sections_def dest: sections)
qed

end
