(* ===== verification/Alsa_Cases.thy ===== *)
theory Alsa_Cases
  imports Alsa_Conf_Fits Alsa_Pcm Permutations
begin

text \<open>
  From a sound configuration to the list of test cases, \<^verbatim>\<open>blts_alsa_core_test.c\<close> of \<^verbatim>\<open>blts-alsa-core\<close>: every combination of the
  values of a stream, every combination of the streams of a test set, and the name and the timeout of each case.
\<close>

definition fits_signed :: "int \<Rightarrow> int res" where
  "fits_signed i = (if - (2 ^ 31) \<le> i \<and> i < 2 ^ 31 then Inr i else Inl Integer_Overflow)"

section \<open>The variants of one stream\<close>

definition pcm_case :: "alsa_pcm_settings \<Rightarrow> int \<Rightarrow> int \<Rightarrow> int \<Rightarrow> int \<Rightarrow> int \<Rightarrow> pcm_params" where
  "pcm_case ps rate format channels access async = \<lparr>pp_card = ps_card ps, pp_device = ps_device ps, pp_duration = ps_duration ps, pp_freq = ps_freq ps,
     pp_format = format, pp_rate = rate, pp_channels = channels, pp_hw_resampling = ps_hw_resampling ps, pp_access = access, pp_async = async,
     pp_period_size = ps_period_size ps, pp_volume = ps_volume ps, pp_dir = ps_dir ps, pp_link_card = ps_link_card ps, pp_link_device = ps_link_device ps\<rparr>"

definition generate_pcm_params :: "alsa_pcm_settings \<Rightarrow> pcm_params list" where
  "generate_pcm_params ps =
     concat (map (\<lambda>rate. concat (map (\<lambda>format. concat (map (\<lambda>channels. concat (map (\<lambda>access. map (\<lambda>async.
       pcm_case ps rate format channels access async) (ps_async ps)) (ps_access ps))) (ps_channels ps))) (ps_formats ps))) (ps_rates ps))"

text \<open>A section without values stands for one case if it only waits; \<open>None\<close> is the jump to \<^verbatim>\<open>error_exit\<close>.\<close>

definition stream_params :: "alsa_pcm_settings \<Rightarrow> pcm_params list option" where
  "stream_params ps =
    (if generate_pcm_params ps = []
     then if ps_dir ps = STREAM_DIR_NONE
       then Some [(pcm_case zero_pcm 0 0 0 0 0)\<lparr>pp_duration := ps_duration ps\<rparr>]
       else None
     else Some (generate_pcm_params ps))"

text \<open>The number of variants is an \<^verbatim>\<open>int\<close>.\<close>

fun all_stream_params :: "alsa_pcm_settings list \<Rightarrow> pcm_params list list option res" where
  "all_stream_params [] = Inr (Some [])"
| "all_stream_params (ps # pss) = rbind (fits_signed (int (length (generate_pcm_params ps)))) (\<lambda>_. case stream_params ps of None \<Rightarrow> Inr None
     | Some l \<Rightarrow> rbind (all_stream_params pss) (\<lambda>r. case r of None \<Rightarrow> Inr None | Some ls \<Rightarrow> Inr (Some (l # ls))))"

section \<open>The combinations of a test set\<close>

text \<open>The first position counts fastest.\<close>

fun advance :: "nat list \<Rightarrow> nat list \<Rightarrow> nat list" where
  "advance (x # px) (n # counts) = (if x + 1 \<ge> n then 0 # advance px counts else (x + 1) # px)"
| "advance px counts = px"

fun combinations :: "nat \<Rightarrow> nat list \<Rightarrow> 'a list list \<Rightarrow> 'a list list res" where
  "combinations 0 px pss = Inr []"
| "combinations (Suc k) px pss = rbind (rmap (\<lambda>(ps, x). nth_res ps x) (zip pss px)) (\<lambda>row.
     rbind (combinations k (advance px (map length pss)) pss) (\<lambda>rows. Inr (row # rows)))"

text \<open>
  The number of combinations. The first count is read even if there is no stream; then it is the one of the last test set
  that had one, or nothing was stored in it yet.
\<close>

fun times_counts :: "int \<Rightarrow> int list \<Rightarrow> int res" where
  "times_counts c [] = Inr c"
| "times_counts c (n # ns) = rbind (fits_signed (c * n)) (\<lambda>c. times_counts c ns)"

definition first_count :: "int option \<Rightarrow> 'a list list \<Rightarrow> int option" where
  "first_count stale pss = (case pss of [] \<Rightarrow> stale | ps # _ \<Rightarrow> Some (int (length ps)))"

definition count_cases :: "int option \<Rightarrow> 'a list list \<Rightarrow> int res" where
  "count_cases stale pss = rbind (initialised (first_count stale pss)) (\<lambda>c. times_counts c (map (int \<circ> length) (tl pss)))"

section \<open>Names and timeouts\<close>

definition params_text :: "pcm_params \<Rightarrow> string" where
  "params_text p = show_int (pp_card p) @ '':'' @ show_int (pp_device p) @ '' '' @ show_int (pp_rate p) @ '' '' @ show_int (pp_channels p) @ '' ''
     @ access_to_str (pp_access p) @ '' '' @ format_to_str (pp_format p) @ '' '' @ async_to_str (pp_async p)"

definition case_text :: "string \<Rightarrow> pcm_params list \<Rightarrow> string" where
  "case_text description row = (case row of
     [p] \<Rightarrow> if pp_dir p = STREAM_DIR_NONE then ''PCM route '' @ description
       else ''PCM '' @ (if pp_dir p = STREAM_DIR_IN then ''recording'' else ''playback'') @ '' '' @ description @ '' ('' @ params_text p @ '')''
   | _ \<Rightarrow>
       let rec = (\<exists>p\<in>set row. pp_dir p = STREAM_DIR_IN); play = (\<exists>p\<in>set row. pp_dir p = STREAM_DIR_OUT)
       in (if rec \<and> play then ''PCM playback and recording'' else if rec then ''PCM recording'' else ''PCM playback'') @ '' '' @ description
          @ concat (map (\<lambda>p. '' ('' @ (if pp_dir p = STREAM_DIR_IN then ''r'' else ''p'') @ '' '' @ params_text p @ '')'') row))"

text \<open>The name is written into a block of 256 bytes a stream.\<close>

definition alsa_case_name :: "string \<Rightarrow> pcm_params list \<Rightarrow> string res" where
  "alsa_case_name description row = strcpy_into (256 * length row) (case_text description row)"

definition case_timeout :: "alsa_testset \<Rightarrow> pcm_params list \<Rightarrow> int res" where
  "case_timeout ts row =
    (let timeout = foldl (\<lambda>t p. if pp_duration p > t then pp_duration p else t) 0 row
     in rbind (fits_signed (timeout * 2)) (\<lambda>t. rbind (fits_signed (t + 5)) (\<lambda>t. rbind (fits_signed (t * 1000)) (\<lambda>t.
        if tuner_device (ts_tuner ts) \<noteq> [] \<or> remote_mac (ts_btaudio ts) \<noteq> [] then fits_signed (t + 60 * 1000) else Inr t))))"

section \<open>The list of cases\<close>

record cli_testcase =
  case_name_of :: string
  case_func_of :: string
  timeout_of :: int

record testcase_params =
  tc_params :: "pcm_params list"
  tc_control_ref :: "alsa_control_settings list"
  tc_def_control_ref :: "alsa_control_settings option list"
  tc_tuner :: v4l_tuner_settings
  tc_btaudio :: bluetooth_audio_settings

definition blts_alsa_cases :: "cli_testcase list" where
  "blts_alsa_cases = map (\<lambda>(n, f, t). \<lparr>case_name_of = n, case_func_of = f, timeout_of = t\<rparr>)
    [(''ALSA presence check'', ''alsa_presence_check'', 10000), (''Open and close PCM devices'', ''alsa_open_close_pcm'', 20000),
     (''Open and close timer'', ''alsa_open_close_timer'', 20000), (''Open and close controls'', ''alsa_open_close_controls'', 20000),
     (''Open and close hwdeps'', ''alsa_open_close_hwdeps'', 20000), (''Enumerate control elements'', ''alsa_enumerate_control_elements'', 20000),
     (''Power management'', ''alsa_power_management'', 20000), (''Enumerate devices with control interface'', ''alsa_enumerate_ctl_devices'', 20000),
     (''Add and remove control element'', ''alsa_add_remove_ctl_element'', 20000)]"

definition testset_case :: "alsa_configuration \<Rightarrow> alsa_testset \<Rightarrow> pcm_params list \<Rightarrow> (cli_testcase \<times> testcase_params) res" where
  "testset_case conf ts row = rbind (alsa_case_name (ts_description ts) row) (\<lambda>name. rbind (case_timeout ts row) (\<lambda>timeout.
     Inr (\<lparr>case_name_of = name, case_func_of = ''alsa_play_rec_pcm'', timeout_of = timeout\<rparr>,
       \<lparr>tc_params = row, tc_control_ref = ts_ctls ts, tc_def_control_ref = cf_def_ctls conf, tc_tuner = ts_tuner ts, tc_btaudio = ts_btaudio ts\<rparr>)))"

text \<open>A stale count makes cases without streams, whose empty name does not fit into its block.\<close>

definition testset_cases :: "alsa_configuration \<Rightarrow> int option \<Rightarrow> alsa_testset \<Rightarrow> (int option \<times> (cli_testcase \<times> testcase_params) list) option res" where
  "testset_cases conf stale ts = rbind (all_stream_params (ts_pcms ts)) (\<lambda>r. case r of None \<Rightarrow> Inr None | Some pss \<Rightarrow>
     rbind (count_cases stale pss) (\<lambda>count.
     rbind (combinations (nat count) (replicate (length pss) 0) pss) (\<lambda>rows.
     rbind (rmap (testset_case conf ts) rows) (\<lambda>cases. Inr (Some (first_count stale pss, cases))))))"

fun testsets_cases :: "alsa_configuration \<Rightarrow> int option \<Rightarrow> alsa_testset list \<Rightarrow> (cli_testcase \<times> testcase_params) list option res" where
  "testsets_cases conf stale [] = Inr (Some [])"
| "testsets_cases conf stale (ts # tss) = rbind (testset_cases conf stale ts) (\<lambda>r. case r of None \<Rightarrow> Inr None | Some (stale, cases) \<Rightarrow>
     rbind (testsets_cases conf stale tss) (\<lambda>r. case r of None \<Rightarrow> Inr None | Some rest \<Rightarrow> Inr (Some (cases @ rest))))"

text \<open>The cases of the command line, and the parameters of the generated ones; \<open>None\<close> leaves the fixed list in place.\<close>

definition generate_pcm_testcase_list :: "alsa_configuration \<Rightarrow> (cli_testcase list \<times> testcase_params list) option res" where
  "generate_pcm_testcase_list conf = rbind (testsets_cases conf None (cf_testsets conf)) (\<lambda>r. Inr (case r of None \<Rightarrow> None
     | Some cases \<Rightarrow> Some (blts_alsa_cases @ map fst cases, map snd cases)))"

section \<open>The variants are all combinations\<close>

lemma generate_pcm_params_set:
  "p \<in> set (generate_pcm_params ps) \<longleftrightarrow> (\<exists>rate\<in>set (ps_rates ps). \<exists>format\<in>set (ps_formats ps). \<exists>channels\<in>set (ps_channels ps).
     \<exists>access\<in>set (ps_access ps). \<exists>async\<in>set (ps_async ps). p = pcm_case ps rate format channels access async)"
  by (simp add: generate_pcm_params_def) blast

lemma length_nested: "length (concat (map f xs)) = length xs * n" if "\<And>x. x \<in> set xs \<Longrightarrow> length (f x) = n"
  using that by (induction xs) simp_all

lemma generate_pcm_params_length:
  "length (generate_pcm_params ps)
    = length (ps_rates ps) * (length (ps_formats ps) * (length (ps_channels ps) * (length (ps_access ps) * length (ps_async ps))))"
  unfolding generate_pcm_params_def by (intro length_nested) simp

lemma advance_next: "advance px counts = generate_next_permutation px counts"
  by (induction px counts rule: advance.induct) auto

lemma rmap_pick:
  assumes "length px = length pss" and "\<And>j. j < length pss \<Longrightarrow> px ! j < length (pss ! j)"
  shows "rmap (\<lambda>(ps, x). nth_res ps x) (zip pss px) = Inr (pick pss px)"
  using assms
proof (induction pss arbitrary: px)
  case Nil
  then show ?case by (simp add: pick_def)
next
  case (Cons ps pss)
  then obtain x xs where px: "px = x # xs" "length xs = length pss" by (cases px) auto
  have "x < length ps" using Cons.prems(2) [of 0] by (simp add: px)
  moreover have "rmap (\<lambda>(ps, x). nth_res ps x) (zip pss xs) = Inr (pick pss xs)"
    using px Cons.prems(2) [of "Suc _"] by (intro Cons.IH) auto
  ultimately show ?case by (simp add: px pick_Cons)
qed

lemma combinations_rows:
  assumes "[] \<notin> set pss"
  shows "combinations k (digits (map length pss) i) pss = Inr (map (\<lambda>j. pick pss (digits (map length pss) j)) [i..<i + k])"
proof (induction k arbitrary: i)
  case (Suc k)
  have "rmap (\<lambda>(ps, x). nth_res ps x) (zip pss (digits (map length pss) i)) = Inr (pick pss (digits (map length pss) i))"
  proof (rule rmap_pick)
    fix j assume j: "j < length pss"
    then have "0 < length (pss ! j)" using assms nth_mem [OF j] by (cases "pss ! j") auto
    then have "max 1 (length (pss ! j)) = length (pss ! j)" by (simp add: max_def Suc_le_eq)
    then show "digits (map length pss) i ! j < length (pss ! j)" using digits_nth_less [of j "map length pss" i] j by simp
  qed simp
  then show ?case
    using Suc.IH [of "Suc i"] by (simp add: advance_next next_digits upt_conv_Cons del: upt_Suc)
qed simp

lemma times_counts_product:
  assumes "int c * prod_list (map int ns) < 2 ^ 31" and "0 \<notin> set ns"
  shows "times_counts (int c) (map int ns) = Inr (int c * prod_list (map int ns))"
  using assms
proof (induction ns arbitrary: c)
  case (Cons n ns)
  have "1 \<le> prod_list (map int ns)" using Cons.prems(2) by (induction ns) (auto simp: int_one_le_iff_zero_less zero_less_mult_iff)
  then have "int (c * n) \<le> int (c * n) * prod_list (map int ns)" using mult_left_mono [of 1 "prod_list (map int ns)" "int (c * n)"] by simp
  then have "int c * int n < 2 ^ 31" using Cons.prems(1) by (simp add: mult.assoc)
  moreover have "0 \<le> int c * int n" by simp
  then have "- (2 ^ 31) \<le> int c * int n" by (rule order_trans [rotated]) simp
  ultimately show ?case using Cons.IH [of "c * n"] Cons.prems by (simp add: fits_signed_def mult.assoc)
qed simp

lemma combinations_all:
  assumes "[] \<notin> set pss" and "pss \<noteq> []" and "prod_list (map length pss) < 2 ^ 31"
  shows "rbind (count_cases stale pss) (\<lambda>count. combinations (nat count) (replicate (length pss) 0) pss) = Inr (odometer pss)"
proof -
  obtain ps rest where pss: "pss = ps # rest" using assms(2) by (cases pss) auto
  have ints: "prod_list (map int ns) = int (prod_list ns)" for ns by (induction ns) simp_all
  have nonzero: "0 \<notin> set (map length rest)" using assms(1) by (auto simp: pss)
  have "int (length ps) * prod_list (map int (map length rest)) < 2 ^ 31" using assms(3) unfolding ints pss by (simp flip: of_nat_mult)
  from times_counts_product [OF this nonzero]
  have "count_cases stale pss = Inr (int (prod_list (map length pss)))"
    unfolding ints by (simp add: count_cases_def first_count_def pss comp_def)
  moreover have "prod_list (map length pss) = radix_product (map length pss)"
    using assms(1) by (induction pss) (auto simp: max_def Suc_le_eq)
  ultimately show ?thesis
    using combinations_rows [OF assms(1), of "radix_product (map length pss)" 0] pick_digits_odometer [OF assms(1)]
    by (simp add: digits_zero)
qed

section \<open>The cases of a configuration\<close>

text \<open>
  How long a case may take, in milliseconds: twice its longest stream and five seconds, and a minute more for a tuner or a
  bluetooth headset.
\<close>

definition play_time :: "alsa_testset \<Rightarrow> pcm_params list \<Rightarrow> int" where
  "play_time ts row = 1000 * (2 * Max (insert 0 (pp_duration ` set row)) + 5)
     + (if tuner_device (ts_tuner ts) \<noteq> [] \<or> remote_mac (ts_btaudio ts) \<noteq> [] then 60000 else 0)"

definition play_case :: "alsa_testset \<Rightarrow> pcm_params list \<Rightarrow> cli_testcase" where
  "play_case ts row = \<lparr>case_name_of = case_text (ts_description ts) row, case_func_of = ''alsa_play_rec_pcm'', timeout_of = play_time ts row\<rparr>"

definition play_params :: "alsa_configuration \<Rightarrow> alsa_testset \<Rightarrow> pcm_params list \<Rightarrow> testcase_params" where
  "play_params conf ts row = \<lparr>tc_params = row, tc_control_ref = ts_ctls ts, tc_def_control_ref = cf_def_ctls conf, tc_tuner = ts_tuner ts,
     tc_btaudio = ts_btaudio ts\<rparr>"

text \<open>
  A test set whose cases can be built: it has a stream, a stream without values only waits, the numbers of combinations fit an
  \<^verbatim>\<open>int\<close>, a name its block of 256 bytes a stream, and a timeout an \<^verbatim>\<open>int\<close>.
\<close>

definition streams_of :: "alsa_testset \<Rightarrow> pcm_params list list" where
  "streams_of ts = map (\<lambda>ps. the (stream_params ps)) (ts_pcms ts)"

definition buildable :: "alsa_testset \<Rightarrow> bool" where
  "buildable ts = (ts_pcms ts \<noteq> [] \<and> (\<forall>ps\<in>set (ts_pcms ts). stream_params ps \<noteq> None \<and> length (generate_pcm_params ps) < 2 ^ 31)
     \<and> prod_list (map length (streams_of ts)) < 2 ^ 31
     \<and> (\<forall>row\<in>set (odometer (streams_of ts)). length (case_text (ts_description ts) row) < 256 * length row \<and> play_time ts row < 2 ^ 31))"

text \<open>The test sets in order, each with its combinations in order.\<close>

definition testset_rows :: "alsa_testset list \<Rightarrow> (alsa_testset \<times> pcm_params list) list" where
  "testset_rows tss = concat (map (\<lambda>ts. map (Pair ts) (odometer (streams_of ts))) tss)"

lemma longest_stream: "foldl (\<lambda>t p. if pp_duration p > t then pp_duration p else t) t row = Max (insert t (pp_duration ` set row))"
proof (induction row arbitrary: t)
  case (Cons p row)
  have "(if pp_duration p > t then pp_duration p else t) = max t (pp_duration p)" by (simp add: max_def)
  then show ?case
    by (simp add: Cons.IH) (cases "row = []"; simp add: Max_insert2 max.assoc)
qed simp

lemma case_timeout_fits:
  assumes "play_time ts row < 2 ^ 31"
  shows "case_timeout ts row = Inr (play_time ts row)"
proof -
  define m where "m = Max (insert 0 (pp_duration ` set row))"
  have "0 \<le> m" by (simp add: m_def)
  then show ?thesis
    using assms unfolding case_timeout_def longest_stream m_def [symmetric]
    by (cases "tuner_device (ts_tuner ts) \<noteq> [] \<or> remote_mac (ts_btaudio ts) \<noteq> []") (simp_all add: play_time_def m_def [symmetric] fits_signed_def)
qed

lemma testset_case_built:
  assumes "length (case_text (ts_description ts) row) < 256 * length row" and "play_time ts row < 2 ^ 31"
  shows "testset_case conf ts row = Inr (play_case ts row, play_params conf ts row)"
  using assms by (simp add: testset_case_def alsa_case_name_def strcpy_into_def case_timeout_fits play_case_def play_params_def)

lemma stream_params_some: "stream_params ps = Some l \<Longrightarrow> l \<noteq> []"
  by (auto simp: stream_params_def split: if_splits)

lemma all_stream_params_result:
  assumes "\<forall>ps\<in>set pss. stream_params ps \<noteq> None \<and> length (generate_pcm_params ps) < 2 ^ 31"
  shows "all_stream_params pss = Inr (Some (map (\<lambda>ps. the (stream_params ps)) pss))"
  using assms by (induction pss) (auto simp: fits_signed_def)

lemma testset_cases_result:
  assumes "buildable ts"
  shows "\<exists>stale'. testset_cases conf stale ts = Inr (Some (stale', map (\<lambda>row. (play_case ts row, play_params conf ts row)) (odometer (streams_of ts))))"
proof -
  note ok = assms [unfolded buildable_def]
  define pss where "pss = streams_of ts"
  have all: "all_stream_params (ts_pcms ts) = Inr (Some pss)"
    unfolding pss_def streams_of_def using ok by (intro all_stream_params_result) simp
  have "[] \<notin> set pss" using ok stream_params_some by (fastforce simp: pss_def streams_of_def)
  moreover have "pss \<noteq> []" using ok by (simp add: pss_def streams_of_def)
  moreover have "prod_list (map length pss) < 2 ^ 31" using ok by (simp add: pss_def)
  ultimately have rows: "rbind (count_cases stale pss) (\<lambda>count. combinations (nat count) (replicate (length pss) 0) pss) = Inr (odometer pss)"
    by (rule combinations_all)
  then obtain count where count: "count_cases stale pss = Inr count" "combinations (nat count) (replicate (length pss) 0) pss = Inr (odometer pss)"
    by auto
  have "testset_case conf ts row = Inr (play_case ts row, play_params conf ts row)" if "row \<in> set (odometer pss)" for row
    using that ok unfolding pss_def by (intro testset_case_built) auto
  then have "rmap (testset_case conf ts) (odometer pss) = Inr (map (\<lambda>row. (play_case ts row, play_params conf ts row)) (odometer pss))"
    by (rule rmap_total)
  then show ?thesis by (simp add: testset_cases_def all count pss_def [symmetric])
qed

lemma testsets_cases_result:
  assumes "\<forall>ts\<in>set tss. buildable ts"
  shows "testsets_cases conf stale tss = Inr (Some (concat (map (\<lambda>ts. map (\<lambda>row. (play_case ts row, play_params conf ts row)) (odometer (streams_of ts))) tss)))"
  using assms
proof (induction tss arbitrary: stale)
  case (Cons ts tss)
  obtain stale' where "testset_cases conf stale ts = Inr (Some (stale', map (\<lambda>row. (play_case ts row, play_params conf ts row)) (odometer (streams_of ts))))"
    using testset_cases_result [of ts conf stale] Cons.prems by auto
  then show ?case using Cons.IH [of stale'] Cons.prems by simp
qed simp

lemma generated_cases:
  assumes "\<forall>ts\<in>set (cf_testsets conf). buildable ts"
  shows "generate_pcm_testcase_list conf = Inr (Some (blts_alsa_cases @ map (case_prod play_case) (testset_rows (cf_testsets conf)),
      map (case_prod (play_params conf)) (testset_rows (cf_testsets conf))))"
  using testsets_cases_result [OF assms, of conf None]
  by (simp add: generate_pcm_testcase_list_def testset_rows_def map_concat comp_def case_prod_unfold)

lemma testset_rows_set:
  "(ts, row) \<in> set (testset_rows tss) \<longleftrightarrow> ts \<in> set tss \<and> list_all2 (\<lambda>p variants. p \<in> set variants) row (streams_of ts)"
  by (auto simp: testset_rows_def set_odometer)

text \<open>A test set without a stream: its count was never stored, or is the one of the test set before.\<close>

lemma empty_testset_cases:
  assumes "ts_pcms ts = []"
  shows "testset_cases conf None ts = Inl Uninitialised"
    and "0 < n \<Longrightarrow> testset_cases conf (Some n) ts = Inl Out_Of_Bounds"
proof -
  show "testset_cases conf None ts = Inl Uninitialised" by (simp add: testset_cases_def assms count_cases_def first_count_def)
  assume "0 < n"
  then obtain k where "nat n = Suc k" by (metis zero_less_nat_eq gr0_implies_Suc)
  moreover have "combinations k [] ([] :: pcm_params list list) = Inr (replicate k [])" for k by (induction k) simp_all
  moreover have "testset_case conf ts [] = Inl Out_Of_Bounds" by (simp add: testset_case_def alsa_case_name_def strcpy_into_def)
  ultimately show "testset_cases conf (Some n) ts = Inl Out_Of_Bounds"
    by (simp add: testset_cases_def assms count_cases_def first_count_def)
qed

end
