(* ===== verification/Alsa_Conf_Text.thy ===== *)
theory Alsa_Conf_Text
  imports Alsa_Sections
begin

text \<open>
  The text of a configuration file as a list of lines: what cleaning it gives, and the loop over the lines of a section as a
  recursion on the list of its lines. A line of 256 characters or more runs out of the line buffer.
\<close>

section \<open>Lines\<close>

definition end_lines :: "string list \<Rightarrow> string" where
  "end_lines ls = concat (map (\<lambda>l. l @ [newline_char]) ls)"

lemma end_lines_simps [simp]: "end_lines [] = []" "end_lines (l # ls) = l @ newline_char # end_lines ls"
  by (simp_all add: end_lines_def)

lemma end_lines_append [simp]: "end_lines (ls @ ls') = end_lines ls @ end_lines ls'"
  by (simp add: end_lines_def)

text \<open>The lines that are ended, and what follows the last newline.\<close>

fun text_lines :: "string \<Rightarrow> string list \<times> string" where
  "text_lines [] = ([], [])"
| "text_lines (c # cs) = (case text_lines cs of (ls, r) \<Rightarrow>
     if c = newline_char then ([] # ls, r) else case ls of [] \<Rightarrow> ([], c # r) | l # ls \<Rightarrow> ((c # l) # ls, r))"

definition one_line :: "string \<Rightarrow> bool" where
  "one_line l = (newline_char \<notin> set l)"

lemma text_lines_join: "text_lines s = (ls, r) \<Longrightarrow> s = end_lines ls @ r \<and> (\<forall>l\<in>set ls. one_line l) \<and> one_line r"
proof (induction s arbitrary: ls r)
  case (Cons c cs)
  obtain ls' r' where rec: "text_lines cs = (ls', r')" by fastforce
  show ?case using Cons.prems Cons.IH [OF rec] rec by (auto simp: one_line_def split: if_splits list.splits)
qed (simp add: one_line_def)

section \<open>The first loop\<close>

fun strip_blanks :: "bool \<Rightarrow> string \<Rightarrow> string" where
  "strip_blanks in_str [] = []"
| "strip_blanks in_str (c # cs) = (let in_str = (if c = quote_char then \<not> in_str else in_str)
     in if \<not> in_str \<and> c = CHR 0x0D then strip_blanks in_str cs
        else (if \<not> in_str \<and> c = CHR 0x09 then CHR '' '' else c) # strip_blanks in_str cs)"

lemma remove_one: "cnfparser_remove_data (pre @ c # s) 0 (length pre) 1 = Inr (0, pre @ s)"
  by (simp add: cnfparser_remove_data_def)

lemma blanks_loop_result: "blanks_loop (length pre) in_str (pre @ s) = Inr (pre @ strip_blanks in_str s)"
proof (induction s arbitrary: pre in_str)
  case Nil
  show ?case by (simp add: blanks_loop.simps)
next
  case (Cons c cs)
  have here: "(pre @ c # cs) ! length pre = c" "length pre < length (pre @ c # cs)" by simp_all
  have keep: "blanks_loop (length pre + 1) q (pre @ d # cs) = Inr (pre @ d # strip_blanks q cs)" for d q
    using Cons.IH [of "pre @ [d]" q] by simp
  have set_blank: "(pre @ c # cs)[length pre := d] = pre @ d # cs" for d by simp
  show ?case
    unfolding blanks_loop.simps [of "length pre" in_str "pre @ c # cs"] here(1) if_P [OF here(2)] Let_def set_blank remove_one
    using keep Cons.IH by (simp add: Let_def del: One_nat_def)
qed

section \<open>The second loop\<close>

definition trim :: "string \<Rightarrow> string" where
  "trim l = dropWhile (\<lambda>c. c = CHR '' '') l"

lemma remove_first: "cnfparser_remove_data (pre @ c # s) (length pre) 0 1 = Inr (0, pre @ s)"
  by (simp add: cnfparser_remove_data_def)

lemma leading_spaces: "leading_loop (length pre) (pre @ l @ s) = leading_loop (length pre) (pre @ trim l @ s)"
proof (induction l)
  case (Cons c l)
  then show ?case
    by (cases "c = CHR '' ''") (simp_all add: trim_def leading_loop.simps [of "length pre" "pre @ CHR '' '' # l @ s"] remove_first
      del: One_nat_def)
qed (simp add: trim_def)

lemma strchr_line: "one_line l \<Longrightarrow> strchr (l @ newline_char # s) newline_char = Some (length l)"
  by (induction l) (auto simp: one_line_def)

lemma strchr_rest: "one_line r \<Longrightarrow> strchr r newline_char = None"
  by (simp add: strchr_None one_line_def)

lemma trim_line: "one_line l \<Longrightarrow> one_line (trim l)"
  by (auto simp: one_line_def trim_def dest: set_dropWhileD)

lemma trim_first: "trim l = c # cs \<Longrightarrow> c \<noteq> CHR '' ''"
  by (auto simp: trim_def dropWhile_eq_Cons_conv)

lemma leading_loop_line:
  assumes "one_line l"
  shows "leading_loop (length pre) (pre @ l @ newline_char # s) = leading_loop (length (pre @ trim l @ [newline_char])) ((pre @ trim l @ [newline_char]) @ s)"
proof -
  have first: "(pre @ trim l @ newline_char # s) ! length pre \<noteq> CHR '' ''"
    using trim_first [of l] by (cases "trim l") simp_all
  have "strchr (trim l @ newline_char # s) newline_char = Some (length (trim l))"
    using assms by (intro strchr_line trim_line)
  then have "leading_loop (length pre) (pre @ trim l @ newline_char # s)
      = leading_loop (length pre + length (trim l) + 1) (pre @ trim l @ newline_char # s)"
    using first by (subst leading_loop.simps) simp
  then show ?thesis using leading_spaces [of pre l "newline_char # s"] by simp
qed

lemma leading_loop_rest:
  assumes "one_line r"
  shows "leading_loop (length pre) (pre @ r) = Inr (pre @ trim r)"
proof -
  have "leading_loop (length pre) (pre @ trim r) = Inr (pre @ trim r)"
  proof (cases "trim r")
    case (Cons c cs)
    then show ?thesis
      using trim_first [OF Cons] strchr_rest [OF trim_line [OF assms]] by (subst leading_loop.simps) simp
  qed (simp add: leading_loop.simps)
  then show ?thesis using leading_spaces [of pre r "[]"] by simp
qed

lemma leading_loop_result:
  assumes "\<forall>l\<in>set ls. one_line l" and "one_line r"
  shows "leading_loop (length pre) (pre @ end_lines ls @ r) = Inr (pre @ end_lines (map trim ls) @ trim r)"
  using assms
proof (induction ls arbitrary: pre)
  case (Cons l ls)
  then show ?case using Cons.IH [of "pre @ trim l @ [newline_char]"] by (simp add: leading_loop_line)
qed (simp add: leading_loop_rest)

section \<open>The third loop\<close>

lemma readline_line:
  assumes "one_line l"
  shows "cnfparser_readline (pre @ l @ newline_char # s) (length pre) line
    = (if length l < MAX_LINE_LEN then Inr (length l, Some l) else Inl Out_Of_Bounds)"
  using assms by (simp add: cnfparser_readline_def strchr_line min_def)

lemma readline_rest: "one_line r \<Longrightarrow> cnfparser_readline (pre @ r) (length pre) line = Inr (length r, line)"
  by (simp add: cnfparser_readline_def strchr_rest)

definition is_kept :: "string \<Rightarrow> bool" where
  "is_kept l = (l \<noteq> [] \<and> hd l \<noteq> CHR ''#'')"

lemma remove_line: "l \<noteq> [] \<Longrightarrow> cnfparser_remove_data (pre @ l @ s) (length pre) 0 (length l) = Inr (0, pre @ s)"
  by (simp add: cnfparser_remove_data_def)

lemma comments_loop_line:
  assumes "one_line l" and "length l < MAX_LINE_LEN"
  shows "\<exists>line'. comments_loop (length pre) line (pre @ l @ newline_char # s)
    = (if is_kept l then comments_loop (length (pre @ l @ [newline_char])) line' ((pre @ l @ [newline_char]) @ s)
       else comments_loop (length pre) line' (pre @ s))"
proof -
  have read: "cnfparser_readline (pre @ l @ newline_char # s) (length pre) line = Inr (length l, Some l)"
    using assms by (simp add: readline_line)
  have empty: "comments_loop (length pre) line' (pre @ newline_char # s) = comments_loop (length pre) (Some []) (pre @ s)" for line'
    using readline_line [of "[]" pre s line'] remove_first [of pre newline_char s]
    by (subst comments_loop.simps) (simp add: one_line_def MAX_LINE_LEN_def del: One_nat_def)
  show ?thesis
  proof (cases l)
    case Nil
    then show ?thesis using empty by (auto simp: is_kept_def)
  next
    case (Cons c cs)
    then have first: "(pre @ l @ newline_char # s) ! length pre = c" by simp
    show ?thesis
    proof (cases "c = CHR ''#''")
      case True
      then have "comments_loop (length pre) line (pre @ l @ newline_char # s) = comments_loop (length pre) (Some l) (pre @ newline_char # s)"
        using read first Cons remove_line [of l pre "newline_char # s"] by (subst comments_loop.simps) simp
      then show ?thesis using True Cons empty by (auto simp: is_kept_def)
    next
      case False
      then have "comments_loop (length pre) line (pre @ l @ newline_char # s)
          = comments_loop (length pre + length l + 1) (Some l) (pre @ l @ newline_char # s)"
        using read first Cons by (subst comments_loop.simps) simp
      then show ?thesis using False Cons by (auto simp: is_kept_def)
    qed
  qed
qed

lemma comments_loop_rest:
  assumes "one_line r"
  shows "comments_loop (length pre) line (pre @ r) = Inr (pre @ (if is_kept r then r else []))"
proof (cases r)
  case Nil
  then show ?thesis by (simp add: comments_loop.simps is_kept_def)
next
  case (Cons c cs)
  have stop: "comments_loop n line' buf = Inr buf" if "length buf \<le> n" for n line' buf
    using that by (subst comments_loop.simps) simp
  have "r \<noteq> []" "(pre @ r) ! length pre = c" using Cons by simp_all
  then show ?thesis
    using readline_rest [OF assms, of pre line] remove_line [of r pre "[]"] stop Cons
    by (subst comments_loop.simps) (auto simp: is_kept_def)
qed

lemma comments_loop_result:
  assumes "\<forall>l\<in>set ls. one_line l" and "one_line r"
  shows "comments_loop (length pre) line (pre @ end_lines ls @ r) = (if \<forall>l\<in>set ls. length l < MAX_LINE_LEN
    then Inr (pre @ end_lines (filter is_kept ls) @ (if is_kept r then r else [])) else Inl Out_Of_Bounds)"
  using assms
proof (induction ls arbitrary: pre line)
  case Nil
  then show ?case by (simp add: comments_loop_rest)
next
  case (Cons l ls)
  show ?case
  proof (cases "length l < MAX_LINE_LEN")
    case True
    then obtain line' where "comments_loop (length pre) line (pre @ l @ newline_char # end_lines ls @ r)
        = (if is_kept l then comments_loop (length (pre @ l @ [newline_char])) line' ((pre @ l @ [newline_char]) @ end_lines ls @ r)
           else comments_loop (length pre) line' (pre @ end_lines ls @ r))"
      using comments_loop_line [of l pre line "end_lines ls @ r"] Cons.prems by auto
    then show ?thesis
      using True Cons.prems Cons.IH [of "pre @ l @ [newline_char]" line'] Cons.IH [of pre line'] by simp
  next
    case False
    then show ?thesis
      using Cons.prems readline_line [of l pre "end_lines ls @ r" line] by (subst comments_loop.simps) simp
  qed
qed

section \<open>The cleaned text\<close>

definition trimmed_lines :: "string \<Rightarrow> string list" where
  "trimmed_lines s = map trim (fst (text_lines (strip_blanks False s)))"

definition trimmed_rest :: "string \<Rightarrow> string" where
  "trimmed_rest s = trim (snd (text_lines (strip_blanks False s)))"

definition cleaned :: "string \<Rightarrow> string" where
  "cleaned s = end_lines (filter is_kept (trimmed_lines s)) @ (if is_kept (trimmed_rest s) then trimmed_rest s else [])"

lemma cleanup_result:
  "cnfparser_cleanup s = (if \<forall>l\<in>set (trimmed_lines s). length l < MAX_LINE_LEN then Inr (cleaned s) else Inl Out_Of_Bounds)"
proof -
  obtain ls r where lines: "text_lines (strip_blanks False s) = (ls, r)" by fastforce
  note join = text_lines_join [OF lines]
  have "blanks_loop 0 False s = Inr (end_lines ls @ r)" using blanks_loop_result [of "[]" False s] join by simp
  moreover have "leading_loop 0 (end_lines ls @ r) = Inr (end_lines (map trim ls) @ trim r)"
    using leading_loop_result [of ls r "[]"] join by simp
  moreover have "\<forall>l\<in>set (map trim ls). one_line l" "one_line (trim r)" using join by (simp_all add: trim_line)
  ultimately show ?thesis
    using comments_loop_result [of "map trim ls" "trim r" "[]" None]
    by (simp add: cnfparser_cleanup_def trimmed_lines_def trimmed_rest_def cleaned_def lines)
qed

text \<open>What is left: lines with something in them that is not a comment, from their first character on.\<close>

lemma cleaned_lines:
  assumes "l \<in> set (filter is_kept (trimmed_lines s))"
  shows "one_line l \<and> is_kept l \<and> hd l \<noteq> CHR '' ''"
proof -
  obtain l' where l': "l = trim l'" "l' \<in> set (fst (text_lines (strip_blanks False s)))" "is_kept l"
    using assms by (auto simp: trimmed_lines_def)
  then have "one_line l'" using text_lines_join [OF surjective_pairing, of "strip_blanks False s"] by blast
  moreover have "trim l' = hd l # tl l" using l' by (simp add: is_kept_def)
  ultimately show ?thesis using l' trim_line [of l'] trim_first [of l' "hd l" "tl l"] by simp
qed

text \<open>A quote in a comment counts: the tab after it is taken for one inside a string and stays.\<close>

lemma quote_in_comment:
  "cnfparser_cleanup (''# 5'' @ [quote_char, newline_char, CHR 0x09] @ ''card 0'' @ [newline_char]) = Inr (CHR 0x09 # ''card 0'' @ [newline_char])"
  by (simp add: cleanup_result trimmed_lines_def trimmed_rest_def cleaned_def trim_def is_kept_def MAX_LINE_LEN_def)

section \<open>The lines of a section\<close>

fun handle_lines :: "'s line_handler \<Rightarrow> string list \<Rightarrow> cnf_token \<Rightarrow> 's \<Rightarrow> (int \<times> 's) res" where
  "handle_lines handle [] tk s = Inr (0, s)"
| "handle_lines handle (l # ls) tk s = rbind (next_token (Some l) tk) (\<lambda>(rest, tk). if rest = None \<or> tk_type tk \<noteq> CNF_TOKEN_STR
     then Inr (- 1, s) else rbind (handle rest tk s) (\<lambda>(good, tk, s). if \<not> good then Inr (- 1, s) else handle_lines handle ls tk s))"

definition short_line :: "string \<Rightarrow> bool" where
  "short_line l = (one_line l \<and> length l < MAX_LINE_LEN)"

lemma lines_loop_result:
  assumes "\<forall>l\<in>set ls. short_line l"
  shows "lines_loop handle (pre @ end_lines ls @ rest) (length pre) (length (pre @ end_lines ls)) line tk s = handle_lines handle ls tk s"
  using assms
proof (induction ls arbitrary: pre line tk s)
  case Nil
  then show ?case by (simp add: lines_loop.simps)
next
  case (Cons l ls)
  have "cnfparser_readline (pre @ l @ newline_char # end_lines ls @ rest) (length pre) line = Inr (length l, Some l)"
    using Cons.prems by (simp add: readline_line short_line_def)
  then show ?case
    using Cons.prems Cons.IH [of "pre @ l @ [newline_char]"]
    by (subst lines_loop.simps) (simp cong: if_cong)
qed

lemma seek_result:
  assumes "\<forall>l\<in>set ls. short_line l \<and> l \<noteq> tag" and "short_line tag" and "length (pre @ end_lines ls) < end_p"
  shows "cnfparser_seek_section_end (pre @ end_lines ls @ tag @ newline_char # rest) (length pre) end_p tag = Inr (Some (length (pre @ end_lines ls)))"
proof -
  have "seek_loop (pre @ end_lines ls @ tag @ newline_char # rest) (length pre) end_p tag line = Inr (Some (length (pre @ end_lines ls)))" for line
    using assms
  proof (induction ls arbitrary: pre line)
    case Nil
    then show ?case by (subst seek_loop.simps) (simp add: readline_line short_line_def)
  next
    case (Cons l ls)
    then show ?case
      using Cons.IH [of "pre @ l @ [newline_char]" "Some l"]
      by (subst seek_loop.simps) (simp add: readline_line short_line_def)
  qed
  then show ?thesis by (simp add: cnfparser_seek_section_end_def)
qed

end
