(* ===== verification/Alsa_Conf_Print.thy ===== *)
theory Alsa_Conf_Print
  imports Alsa_Conf_Text
begin

text \<open>
  A configuration written in the syntax of the file, one setting a line, and the settings of a section read back from it.
\<close>

section \<open>Words and numbers\<close>

definition word_char :: "char \<Rightarrow> bool" where
  "word_char c = (c \<noteq> CHR '' '' \<and> c \<noteq> newline_char \<and> c \<noteq> quote_char)"

text \<open>Characters that cleaning leaves alone and that end neither a line nor the text.\<close>

definition plain_char :: "char \<Rightarrow> bool" where
  "plain_char c = (c \<notin> {newline_char, quote_char, CHR 0x09, CHR 0x0D, CHR 0x00})"

definition is_word :: "string \<Rightarrow> bool" where
  "is_word w = (w \<noteq> [] \<and> (\<forall>c\<in>set w. word_char c))"

definition token_of :: "cnf_token \<Rightarrow> string \<Rightarrow> cnf_token" where
  "token_of tk w = finish_token (tk\<lparr>tk_str := tk_str tk @ w, tk_type := (if \<forall>c\<in>set w. is_digit c then tk_type tk else CNF_TOKEN_STR)\<rparr>)"

lemma token_of_nil [simp]: "token_of tk [] = finish_token tk"
  by (cases tk) (simp add: token_of_def)

lemma token_loop_word:
  assumes "\<forall>c\<in>set w. word_char c" and "r = [] \<or> hd r = CHR '' ''"
  shows "token_loop (w @ r) True False tk = (Some r, token_of tk w)"
  using assms
proof (induction w arbitrary: tk)
  case Nil
  then show ?case by (cases r) auto
next
  case (Cons c w)
  then show ?case by (auto simp: Let_def word_char_def token_of_def)
qed

lemma next_token_word:
  assumes "is_word w" and "r = [] \<or> hd r = CHR '' ''"
  shows "next_token (Some (w @ r)) tk = Inr (Some r, token_of (tk\<lparr>tk_type := CNF_TOKEN_INT, tk_str := []\<rparr>) w)"
proof -
  obtain c cs where w: "w = c # cs" and c: "word_char c" and cs: "\<forall>c\<in>set cs. word_char c"
    using assms(1) by (cases w) (auto simp: is_word_def)
  have "token_loop (w @ r) False False tk' = token_loop (w @ r) True False tk'" for tk'
    using c by (simp add: w word_char_def Let_def)
  then show ?thesis
    using assms token_loop_word [of w r] by (simp add: next_token_def is_word_def)
qed

lemma next_token_space: "next_token (Some (CHR '' '' # s)) tk = next_token (Some s) tk"
  by (simp add: next_token_def Let_def)

lemma next_token_end: "next_token (Some []) tk = Inr (None, tk\<lparr>tk_type := CNF_TOKEN_INT, tk_str := []\<rparr>)"
  by (simp add: next_token_def)

text \<open>A word that is not a number, and a number.\<close>

definition is_name :: "string \<Rightarrow> bool" where
  "is_name w = (is_word w \<and> (\<exists>c\<in>set w. \<not> is_digit c))"

lemma next_token_name:
  "is_name w \<Longrightarrow> r = [] \<or> hd r = CHR '' '' \<Longrightarrow> next_token (Some (w @ r)) tk = Inr (Some r, tk\<lparr>tk_type := CNF_TOKEN_STR, tk_str := w\<rparr>)"
  by (auto simp: is_name_def next_token_word token_of_def finish_token_def)

definition fits_int :: "int \<Rightarrow> bool" where
  "fits_int n = (0 \<le> n \<and> n < 2 ^ 31)"

definition show_num :: "int \<Rightarrow> string" where
  "show_num n = show_nat (nat n)"

lemma digit_word: "is_digit c \<Longrightarrow> word_char c"
  by (auto simp: is_digit_def word_char_def)

lemma next_token_num:
  assumes "fits_int n" and "r = [] \<or> hd r = CHR '' ''"
  shows "next_token (Some (show_num n @ r)) tk = Inr (Some r, tk\<lparr>tk_type := CNF_TOKEN_INT, tk_value := Some n, tk_str := show_num n\<rparr>)"
proof -
  have "is_word (show_num n)" using show_nat_digits [of "nat n"] by (auto simp: is_word_def show_num_def show_nat_nonempty digit_word)
  moreover have "atoi (show_num n) = n" using assms(1) atoi_show_nat [of "nat n"] by (simp add: show_num_def fits_int_def nat_less_iff)
  moreover have "\<forall>c\<in>set (show_num n). is_digit c" by (simp add: show_num_def show_nat_digits)
  ultimately show ?thesis using assms(2) by (simp add: next_token_word token_of_def finish_token_def)
qed

text \<open>Text in quotes.\<close>

definition quoted :: "string \<Rightarrow> string" where
  "quoted t = quote_char # t @ [quote_char]"

lemma token_loop_quoted:
  assumes "quote_char \<notin> set t" and "r = [] \<or> hd r = CHR '' ''" and "tk_type tk = CNF_TOKEN_STR"
  shows "token_loop (t @ quote_char # r) True True tk = (Some r, tk\<lparr>tk_str := tk_str tk @ t\<rparr>)"
  using assms
proof (induction t arbitrary: tk)
  case Nil
  then have "token_loop r True False tk = (Some r, finish_token tk)" using token_loop_word [of "[]" r tk] by simp
  moreover have "finish_token tk = tk" "tk\<lparr>tk_type := CNF_TOKEN_STR\<rparr> = tk"
    using Nil by (simp add: finish_token_def, cases tk, simp)
  ultimately show ?case by (simp add: Let_def is_digit_def)
qed (auto simp: Let_def)

lemma next_token_quoted:
  assumes "quote_char \<notin> set t" and "r = [] \<or> hd r = CHR '' ''"
  shows "next_token (Some (quoted t @ r)) tk = Inr (Some r, tk\<lparr>tk_type := CNF_TOKEN_STR, tk_str := t\<rparr>)"
  using assms by (simp add: next_token_def quoted_def Let_def is_digit_def token_loop_quoted)

section \<open>Lines that are read\<close>

text \<open>Reading the lines takes the settings from \<open>s\<close> to \<open>s'\<close>, whatever follows and whatever was read before.\<close>

definition reads :: "'s line_handler \<Rightarrow> string list \<Rightarrow> 's \<Rightarrow> 's \<Rightarrow> bool" where
  "reads handle ls s s' = (\<forall>more tk. \<exists>tk'. handle_lines handle (ls @ more) tk s = handle_lines handle more tk' s')"

lemma reads_nil: "reads handle [] s s"
  by (auto simp: reads_def)

lemma reads_append: "reads handle ls s s' \<Longrightarrow> reads handle ls' s' s'' \<Longrightarrow> reads handle (ls @ ls') s s''"
  unfolding reads_def append_assoc by metis

lemma reads_all: "reads handle ls s s' \<Longrightarrow> handle_lines handle ls tk s = Inr (0, s')"
  unfolding reads_def by (metis append_Nil2 handle_lines.simps(1))

definition setting :: "string \<Rightarrow> string \<Rightarrow> string" where
  "setting key val = key @ CHR '' '' # val"

lemma reads_setting:
  assumes "is_name key" and "\<And>tk. tk_str tk = key \<Longrightarrow> \<exists>tk'. handle (Some (CHR '' '' # val)) tk s = Inr (True, tk', s')"
  shows "reads handle [setting key val] s s'"
proof -
  have "\<exists>tk'. handle_lines handle (setting key val # more) tk s = handle_lines handle more tk' s'" for more tk
    using assms(2) [of "tk\<lparr>tk_type := CNF_TOKEN_STR, tk_str := key\<rparr>"] next_token_name [OF assms(1), of "CHR '' '' # val" tk]
    by (auto simp: setting_def)
  then show ?thesis by (simp add: reads_def)
qed

lemma number_line_num: "fits_int n \<Longrightarrow> \<exists>tk'. number_line store (Some (CHR '' '' # show_num n)) tk s = Inr (True, tk', store n s)"
  using next_token_num [of n "[]" tk] by (simp add: number_line_def next_token_space)

lemma int_line_num: "fits_int n \<Longrightarrow> \<exists>tk'. int_line store (Some (CHR '' '' # show_num n)) tk s = Inr (True, tk', store n s)"
  using next_token_num [of n "[]" tk] by (simp add: int_line_def next_token_space)

lemma text_line_name: "is_name w \<Longrightarrow> length w < n \<Longrightarrow> \<exists>tk'. text_line n store (Some (CHR '' '' # w)) tk s = Inr (True, tk', store w s)"
  using next_token_name [of w "[]" tk] by (simp add: text_line_def next_token_space strcpy_into_def)

lemma text_line_quoted: "quote_char \<notin> set t \<Longrightarrow> length t < n \<Longrightarrow> \<exists>tk'. text_line n store (Some (CHR '' '' # quoted t)) tk s = Inr (True, tk', store t s)"
  using next_token_quoted [of t "[]" tk] by (simp add: text_line_def next_token_space strcpy_into_def)

lemma numbers_line_num:
  assumes "fits_int n" and "length (get s) < MAGIC_NUMBER"
  shows "\<exists>tk'. numbers_line conv get store (Some (CHR '' '' # show_num n)) tk s = Inr (True, tk', store (get s @ [n]) s)"
  using assms next_token_num [of n "[]" tk]
  by (simp add: numbers_line_def numbers_loop.simps [of conv "Some (CHR '' '' # _)"] numbers_loop.simps [of conv "Some []"] next_token_space next_token_end)

lemma numbers_line_name:
  assumes "is_name w" and "0 \<le> f w" and "length (get s) < MAGIC_NUMBER"
  shows "\<exists>tk'. numbers_line (Some f) get store (Some (CHR '' '' # w)) tk s = Inr (True, tk', store (get s @ [f w]) s)"
  using assms next_token_name [of w "[]" tk]
  by (simp add: numbers_line_def numbers_loop.simps [of "Some f" "Some (CHR '' '' # _)"] numbers_loop.simps [of "Some f" "Some []"]
      next_token_space next_token_end)

section \<open>Names\<close>

text \<open>Each name of a table stands for its own value, and is not taken for one that comes before it.\<close>

definition names_ok :: "(string \<times> int) list \<Rightarrow> bool" where
  "names_ok table = (\<forall>(name, v)\<in>set table. is_name name \<and> (\<forall>c\<in>set name. plain_char c) \<and> length name \<le> 30 \<and> 0 \<le> v \<and> value_of_name table name = v \<and> name_of_value table v = name)"


lemmas names_ok_simps = names_ok_def is_name_def is_word_def word_char_def is_digit_def plain_char_def
  strn_case_eq_def strn_eq_def to_lower_def Let_def

lemma async_names_ok: "names_ok async_values"
  by (simp add: async_values_def names_ok_simps)

lemma access_names_ok: "names_ok access_values"
  by (simp add: access_values_def names_ok_simps)


text \<open>For the long table the names are put into lower case once.\<close>

fun value_of_lower :: "(string \<times> int) list \<Rightarrow> string \<Rightarrow> int" where
  "value_of_lower [] str = - 1"
| "value_of_lower ((name, v) # vs) str = (if take (length name) str = name then v else value_of_lower vs str)"

lemma value_of_lower: "value_of_name vs str = value_of_lower (map (\<lambda>(n, v). (map to_lower n, v)) vs) (map to_lower str)"
  by (induction vs) (auto simp: strn_case_eq_def strn_eq_def)

definition lower_formats :: "(string \<times> int) list" where
  "lower_formats = [(''s8'', 0), (''u8'', 1), (''s16_le'', 2), (''s16_be'', 3), (''u16_le'', 4), (''u16_be'', 5), (''s24_le'', 6),
     (''s24_be'', 7), (''u24_le'', 8), (''u24_be'', 9), (''s32_le'', 10), (''s32_be'', 11), (''u32_le'', 12), (''u32_be'', 13),
     (''float_le'', 14), (''float_be'', 15), (''float64_le'', 16), (''float64_be'', 17), (''iec958_subframe_le'', 18),
     (''iec958_subframe_be'', 19), (''mu_law'', 20), (''a_law'', 21), (''ima_adpcm'', 22), (''format_mpeg'', 23), (''gsm'', 24),
     (''special'', 31), (''s24_3le'', 32), (''s24_3be'', 33), (''u24_3le'', 34), (''u24_3be'', 35), (''s20_3le'', 36), (''s20_3be'', 37),
     (''u20_3le'', 38), (''u20_3be'', 39), (''s18_3le'', 40), (''s18_3be'', 41), (''u18_3le'', 42), (''u18_3be'', 43)]"

lemma lower_formats: "map (\<lambda>(n, v). (map to_lower n, v)) format_values = lower_formats"
  by code_simp

lemma lower_formats_values: "\<forall>(n, v)\<in>set lower_formats. value_of_lower lower_formats n = v"
  by (simp add: lower_formats_def)

lemma format_names: "\<forall>(name, v)\<in>set format_values. is_name name \<and> (\<forall>c\<in>set name. plain_char c) \<and> length name \<le> 30 \<and> 0 \<le> v \<and> name_of_value format_values v = name"
  by (simp add: names_ok_simps format_values_def)

lemma format_names_ok: "names_ok format_values"
proof -
  have "value_of_name format_values name = v" if "(name, v) \<in> set format_values" for name v
  proof -
    have "(map to_lower name, v) \<in> set lower_formats" using that by (force simp flip: lower_formats)
    then show ?thesis using lower_formats_values unfolding value_of_lower lower_formats by fastforce
  qed
  then show ?thesis using format_names unfolding names_ok_def by blast
qed

section \<open>The settings of a stream\<close>

definition print_nums :: "string \<Rightarrow> int list \<Rightarrow> string list" where
  "print_nums key ns = map (\<lambda>n. setting key (show_num n)) ns"

definition print_names :: "string \<Rightarrow> (int \<Rightarrow> string) \<Rightarrow> int list \<Rightarrow> string list" where
  "print_names key name ns = map (\<lambda>n. setting key (name n)) ns"

definition print_pcm :: "alsa_pcm_settings \<Rightarrow> string list" where
  "print_pcm ps =
     [setting ''card'' (show_num (ps_card ps)), setting ''device'' (show_num (ps_device ps)), setting ''hw_resampling'' (show_num (ps_hw_resampling ps))]
     @ print_nums ''channels'' (ps_channels ps) @ print_nums ''rates'' (ps_rates ps) @ print_names ''formats'' format_to_str (ps_formats ps)
     @ print_names ''access'' access_to_str (ps_access ps) @ print_names ''async'' async_to_str (ps_async ps)
     @ [setting ''duration'' (show_num (ps_duration ps)), setting ''freq'' (show_num (ps_freq ps))]
     @ (if ps_link_card ps < 0 then [] else [setting ''link'' (setting (show_num (ps_link_card ps)) (show_num (ps_link_device ps)))])
     @ (if ps_period_size ps < 0 then [] else [setting ''period_size'' (show_num (ps_period_size ps))])
     @ [setting ''volume'' (show_num (ps_volume ps))]"

text \<open>Numbers are not negative, except for the two that mean no link and no period size.\<close>

definition printable_pcm :: "alsa_pcm_settings \<Rightarrow> bool" where
  "printable_pcm ps = ((\<forall>n\<in>{ps_card ps, ps_device ps, ps_hw_resampling ps, ps_duration ps, ps_freq ps, ps_volume ps}. fits_int n)
     \<and> (\<forall>n\<in>set (ps_channels ps) \<union> set (ps_rates ps). fits_int n)
     \<and> set (ps_formats ps) \<subseteq> snd ` set format_values \<and> set (ps_access ps) \<subseteq> snd ` set access_values \<and> set (ps_async ps) \<subseteq> snd ` set async_values
     \<and> (\<forall>ns\<in>{ps_rates ps, ps_formats ps, ps_channels ps, ps_access ps, ps_async ps}. length ns \<le> MAGIC_NUMBER)
     \<and> (ps_link_card ps = - 1 \<and> ps_link_device ps = - 1 \<or> fits_int (ps_link_card ps) \<and> fits_int (ps_link_device ps))
     \<and> (ps_period_size ps = - 1 \<or> fits_int (ps_period_size ps)))"

lemma strn_eq_literal [simp]: "strn_eq a b n = (take n a = take n b)"
  by (simp add: strn_eq_def)

lemma key_names: "is_name ''card''" "is_name ''device''" "is_name ''hw_resampling''" "is_name ''channels''" "is_name ''rates''" "is_name ''formats''"
  "is_name ''access''" "is_name ''async''" "is_name ''duration''" "is_name ''freq''" "is_name ''link''" "is_name ''period_size''" "is_name ''volume''"
  "is_name ''set''" "is_name ''connect''" "is_name ''pin''" "is_name ''scan_select''" "is_name ''description''"
  by (simp_all add: is_name_def is_word_def word_char_def is_digit_def)

text \<open>The interface of a keyword that adds its numbers to a list of the settings.\<close>

locale list_field =
  fixes handle :: "'s line_handler" and key :: string and conv :: "(string \<Rightarrow> int) option"
    and get :: "'s \<Rightarrow> int list" and store :: "int list \<Rightarrow> 's \<Rightarrow> 's"
  assumes key_name: "is_name key"
    and handled: "tk_str tk = key \<Longrightarrow> handle rest tk s = numbers_line conv get store rest tk s"
    and get_store: "get (store xs s) = xs" and store_store: "store xs (store ys s) = store xs s" and store_get: "store (get s) s = s"
begin

lemma reads_values:
  assumes "\<And>n s tk. n \<in> set ns \<Longrightarrow> length (get s) < MAGIC_NUMBER
      \<Longrightarrow> \<exists>tk'. numbers_line conv get store (Some (CHR '' '' # show n)) tk s = Inr (True, tk', store (get s @ [n]) s)"
    and "length (get s) + length ns \<le> MAGIC_NUMBER"
  shows "reads handle (map (\<lambda>n. setting key (show n)) ns) s (store (get s @ ns) s)"
  using assms
proof (induction ns arbitrary: s)
  case Nil
  then show ?case by (simp add: store_get reads_nil)
next
  case (Cons n ns)
  have "reads handle [setting key (show n)] s (store (get s @ [n]) s)"
    using Cons.prems by (intro reads_setting key_name) (simp add: handled)
  moreover have "reads handle (map (\<lambda>n. setting key (show n)) ns) (store (get s @ [n]) s) (store (get s @ n # ns) s)"
    using Cons.IH [of "store (get s @ [n]) s"] Cons.prems by (simp add: get_store store_store)
  ultimately show ?case
    using reads_append [of handle "[setting key (show n)]"] by fastforce
qed

lemma reads_nums:
  assumes "\<forall>n\<in>set ns. fits_int n" and "length (get s) + length ns \<le> MAGIC_NUMBER"
  shows "reads handle (print_nums key ns) s (store (get s @ ns) s)"
  unfolding print_nums_def using assms by (intro reads_values) (simp_all add: numbers_line_num)

lemma reads_names:
  assumes "names_ok table" and "conv = Some (value_of_name table)" and "set ns \<subseteq> snd ` set table" and "length (get s) + length ns \<le> MAGIC_NUMBER"
  shows "reads handle (print_names key (name_of_value table) ns) s (store (get s @ ns) s)"
  unfolding print_names_def
proof (intro reads_values assms(4))
  fix n s tk
  assume n: "n \<in> set ns" and room: "length (get s) < MAGIC_NUMBER"
  obtain name where "(name, n) \<in> set table" using n assms(3) by auto
  then have "is_name name" "0 \<le> n" "value_of_name table name = n" "name_of_value table n = name" using assms(1) by (auto simp: names_ok_def)
  then show "\<exists>tk'. numbers_line conv get store (Some (CHR '' '' # name_of_value table n)) tk s = Inr (True, tk', store (get s @ [n]) s)"
    using room numbers_line_name [of name "value_of_name table" get s store tk] assms(2) by simp
qed

end

interpretation channels: list_field pcm_line "''channels''" None ps_channels "\<lambda>ns ps. ps\<lparr>ps_channels := ns\<rparr>"
  by unfold_locales (simp_all add: key_names pcm_line_def)

interpretation rates: list_field pcm_line "''rates''" None ps_rates "\<lambda>ns ps. ps\<lparr>ps_rates := ns\<rparr>"
  by unfold_locales (simp_all add: key_names pcm_line_def)

interpretation formats: list_field pcm_line "''formats''" "Some str_to_format" ps_formats "\<lambda>ns ps. ps\<lparr>ps_formats := ns\<rparr>"
  by unfold_locales (simp_all add: key_names pcm_line_def)

interpretation accesses: list_field pcm_line "''access''" "Some str_to_access" ps_access "\<lambda>ns ps. ps\<lparr>ps_access := ns\<rparr>"
  by unfold_locales (simp_all add: key_names pcm_line_def)

interpretation asyncs: list_field pcm_line "''async''" "Some str_to_async" ps_async "\<lambda>ns ps. ps\<lparr>ps_async := ns\<rparr>"
  by unfold_locales (simp_all add: key_names pcm_line_def)

lemma converters: "str_to_format = value_of_name format_values" "str_to_access = value_of_name access_values" "str_to_async = value_of_name async_values"
  "format_to_str = name_of_value format_values" "access_to_str = name_of_value access_values" "async_to_str = name_of_value async_values"
  by (simp_all add: fun_eq_iff str_to_format_def str_to_access_def str_to_async_def format_to_str_def access_to_str_def async_to_str_def)

lemma reads_number:
  assumes "is_name key" and "\<And>tk rest. tk_str tk = key \<Longrightarrow> handle rest tk s = number_line store rest tk s" and "fits_int n"
  shows "reads handle [setting key (show_num n)] s (store n s)"
  using assms by (intro reads_setting) (simp_all add: number_line_num)

lemma reads_card: "fits_int n \<Longrightarrow> reads pcm_line [setting ''card'' (show_num n)] ps (ps\<lparr>ps_card := n\<rparr>)"
  by (rule reads_number [where store = "\<lambda>v ps. ps\<lparr>ps_card := v\<rparr>"]) (simp_all add: key_names pcm_line_def)

lemma reads_device: "fits_int n \<Longrightarrow> reads pcm_line [setting ''device'' (show_num n)] ps (ps\<lparr>ps_device := n\<rparr>)"
  by (rule reads_number [where store = "\<lambda>v ps. ps\<lparr>ps_device := v\<rparr>"]) (simp_all add: key_names pcm_line_def)

lemma reads_hw_resampling: "fits_int n \<Longrightarrow> reads pcm_line [setting ''hw_resampling'' (show_num n)] ps (ps\<lparr>ps_hw_resampling := n\<rparr>)"
  by (rule reads_number [where store = "\<lambda>v ps. ps\<lparr>ps_hw_resampling := v\<rparr>"]) (simp_all add: key_names pcm_line_def)

lemma reads_duration: "fits_int n \<Longrightarrow> reads pcm_line [setting ''duration'' (show_num n)] ps (ps\<lparr>ps_duration := n\<rparr>)"
  by (rule reads_number [where store = "\<lambda>v ps. ps\<lparr>ps_duration := v\<rparr>"]) (simp_all add: key_names pcm_line_def)

lemma reads_freq: "fits_int n \<Longrightarrow> reads pcm_line [setting ''freq'' (show_num n)] ps (ps\<lparr>ps_freq := n\<rparr>)"
  by (rule reads_number [where store = "\<lambda>v ps. ps\<lparr>ps_freq := v\<rparr>"]) (simp_all add: key_names pcm_line_def)

lemma reads_period_size: "fits_int n \<Longrightarrow> reads pcm_line [setting ''period_size'' (show_num n)] ps (ps\<lparr>ps_period_size := n\<rparr>)"
  by (rule reads_number [where store = "\<lambda>v ps. ps\<lparr>ps_period_size := v\<rparr>"]) (simp_all add: key_names pcm_line_def)

lemma reads_volume: "fits_int n \<Longrightarrow> reads pcm_line [setting ''volume'' (show_num n)] ps (ps\<lparr>ps_volume := n\<rparr>)"
  by (rule reads_number [where store = "\<lambda>v ps. ps\<lparr>ps_volume := v\<rparr>"]) (simp_all add: key_names pcm_line_def)

lemma reads_link:
  assumes "fits_int n" and "fits_int m"
  shows "reads pcm_line [setting ''link'' (setting (show_num n) (show_num m))] ps (ps\<lparr>ps_link_card := n, ps_link_device := m\<rparr>)"
proof (intro reads_setting key_names)
  fix tk :: cnf_token
  assume "tk_str tk = ''link''"
  then show "\<exists>tk'. pcm_line (Some (CHR '' '' # setting (show_num n) (show_num m))) tk ps = Inr (True, tk', ps\<lparr>ps_link_card := n, ps_link_device := m\<rparr>)"
    using next_token_num [OF assms(1), of "CHR '' '' # show_num m" tk] int_line_num [OF assms(2)]
    by (simp add: pcm_line_def link_line_def setting_def next_token_space)
qed

lemma reads_if: "(b \<Longrightarrow> reads handle ls s s1) \<Longrightarrow> (\<not> b \<Longrightarrow> reads handle ls' s s1) \<Longrightarrow> reads handle (if b then ls else ls') s s1"
  by simp

lemma reads_pcm:
  assumes "printable_pcm ps" and "ps_dir ps = 0"
  shows "reads pcm_line (print_pcm ps) (zero_pcm\<lparr>ps_link_card := - 1, ps_link_device := - 1, ps_period_size := - 1, ps_volume := 100\<rparr>) ps"
proof -
  define start where "start = zero_pcm\<lparr>ps_link_card := - 1, ps_link_device := - 1, ps_period_size := - 1, ps_volume := 100\<rparr>"
  note ok = assms(1) [unfolded printable_pcm_def]
  define s1 where "s1 = start\<lparr>ps_card := ps_card ps, ps_device := ps_device ps, ps_hw_resampling := ps_hw_resampling ps\<rparr>"
  have r1: "reads pcm_line [setting ''card'' (show_num (ps_card ps)), setting ''device'' (show_num (ps_device ps)),
      setting ''hw_resampling'' (show_num (ps_hw_resampling ps))] start s1"
    using reads_append [OF reads_card reads_append [OF reads_device reads_hw_resampling]] ok by (simp add: s1_def)
  define s2 where "s2 = s1\<lparr>ps_channels := ps_channels ps, ps_rates := ps_rates ps\<rparr>"
  have r2: "reads pcm_line (print_nums ''channels'' (ps_channels ps) @ print_nums ''rates'' (ps_rates ps)) s1 s2"
    using reads_append [OF channels.reads_nums [of "ps_channels ps" s1] rates.reads_nums] ok
    by (simp add: s2_def s1_def start_def zero_pcm_def)
  define s3 where "s3 = s2\<lparr>ps_formats := ps_formats ps, ps_access := ps_access ps, ps_async := ps_async ps\<rparr>"
  have r3: "reads pcm_line (print_names ''formats'' format_to_str (ps_formats ps) @ print_names ''access'' access_to_str (ps_access ps)
      @ print_names ''async'' async_to_str (ps_async ps)) s2 s3"
    using reads_append [OF formats.reads_names [OF format_names_ok, of "ps_formats ps" s2]
        reads_append [OF accesses.reads_names [OF access_names_ok, of "ps_access ps"] asyncs.reads_names [OF async_names_ok]]] ok
    by (simp add: s3_def s2_def s1_def start_def zero_pcm_def converters)
  define s4 where "s4 = s3\<lparr>ps_duration := ps_duration ps, ps_freq := ps_freq ps\<rparr>"
  have r4: "reads pcm_line [setting ''duration'' (show_num (ps_duration ps)), setting ''freq'' (show_num (ps_freq ps))] s3 s4"
    using reads_append [OF reads_duration reads_freq] ok by (simp add: s4_def)
  define s5 where "s5 = s4\<lparr>ps_link_card := ps_link_card ps, ps_link_device := ps_link_device ps\<rparr>"
  have r5: "reads pcm_line (if ps_link_card ps < 0 then [] else [setting ''link'' (setting (show_num (ps_link_card ps)) (show_num (ps_link_device ps)))]) s4 s5"
    using ok reads_link [of "ps_link_card ps" "ps_link_device ps" s4] reads_nil [of pcm_line s4]
    by (auto simp: fits_int_def s5_def s4_def s3_def s2_def s1_def start_def zero_pcm_def)
  define s6 where "s6 = s5\<lparr>ps_period_size := ps_period_size ps\<rparr>"
  have r6: "reads pcm_line (if ps_period_size ps < 0 then [] else [setting ''period_size'' (show_num (ps_period_size ps))]) s5 s6"
    using ok reads_period_size [of "ps_period_size ps" s5] reads_nil [of pcm_line s5]
    by (auto simp: fits_int_def s6_def s5_def s4_def s3_def s2_def s1_def start_def zero_pcm_def)
  have r7: "reads pcm_line [setting ''volume'' (show_num (ps_volume ps))] s6 (s6\<lparr>ps_volume := ps_volume ps\<rparr>)"
    using reads_volume ok by simp
  have last: "s6\<lparr>ps_volume := ps_volume ps\<rparr> = ps"
    using assms(2) by (cases ps) (simp add: s6_def s5_def s4_def s3_def s2_def s1_def start_def zero_pcm_def)
  show ?thesis
    using reads_append [OF r1 reads_append [OF r2 reads_append [OF r3 reads_append [OF r4 reads_append [OF r5 reads_append [OF r6 r7]]]]]]
    unfolding print_pcm_def start_def [symmetric] last by simp
qed

section \<open>Controls, tuner and bluetooth\<close>

definition text_ok :: "string \<Rightarrow> bool" where
  "text_ok t = (quote_char \<notin> set t \<and> newline_char \<notin> set t \<and> CHR 0x00 \<notin> set t)"

definition print_field :: "string \<Rightarrow> int \<Rightarrow> string" where
  "print_field str n = (if str = [] then show_num n else quoted str)"

definition field_ok :: "string \<Rightarrow> int \<Rightarrow> bool" where
  "field_ok str n = (if str = [] then fits_int n else n = 0 \<and> text_ok str)"

definition print_value :: "alsa_control_value \<Rightarrow> string" where
  "print_value v = setting ''set'' (setting (print_field (control_name v) (control_id v)) (print_field (str_value v) (cv_value v)))"

definition printable_value :: "alsa_control_value \<Rightarrow> bool" where
  "printable_value v = (field_ok (control_name v) (control_id v) \<and> field_ok (str_value v) (cv_value v) \<and> length (print_value v) < MAX_LINE_LEN)"

definition print_control :: "alsa_control_settings \<Rightarrow> string list" where
  "print_control cs = setting ''card'' (show_num (cs_card cs)) # map print_value (cs_values cs)"

definition printable_control :: "alsa_control_settings \<Rightarrow> bool" where
  "printable_control cs = (fits_int (cs_card cs) \<and> length (cs_values cs) \<le> MAGIC_NUMBER \<and> (\<forall>v\<in>set (cs_values cs). printable_value v))"

lemma reads_control_card: "fits_int n \<Longrightarrow> reads control_line [setting ''card'' (show_num n)] cs (cs\<lparr>cs_card := n\<rparr>)"
  by (rule reads_number [where store = "\<lambda>v cs. cs\<lparr>cs_card := v\<rparr>"]) (simp_all add: key_names control_line_def)

text \<open>The token of a printed field and what is stored for it.\<close>

lemma field_token:
  assumes "field_ok str n" and "r = [] \<or> hd r = CHR '' ''"
  shows "\<exists>tk'. next_token (Some (CHR '' '' # print_field str n @ r)) tk = Inr (Some r, tk')
    \<and> (\<forall>store_str store_int m ctl. length str < m \<longrightarrow> control_field tk' store_str store_int m ctl = Inr (if str = [] then store_int n ctl else store_str str ctl))"
  using assms next_token_num [of n r tk] next_token_quoted [of str r tk]
  by (auto simp: next_token_space print_field_def field_ok_def text_ok_def control_field_def strcpy_into_def)

lemma reads_value:
  assumes "printable_value v" and "length (cs_values cs) < MAGIC_NUMBER"
  shows "reads control_line [print_value v] cs (cs\<lparr>cs_values := cs_values cs @ [v]\<rparr>)"
  unfolding print_value_def
proof (intro reads_setting key_names)
  fix tk :: cnf_token
  assume key: "tk_str tk = ''set''"
  have ok: "field_ok (control_name v) (control_id v)" "field_ok (str_value v) (cv_value v)" using assms(1) by (simp_all add: printable_value_def)
  have len: "length (control_name v) < MAGIC_NUMBER" "length (str_value v) < MAX_LINE_LEN"
    using assms(1) by (auto simp: printable_value_def print_value_def setting_def print_field_def quoted_def MAX_LINE_LEN_def MAGIC_NUMBER_def split: if_splits)
  define r where "r = CHR '' '' # print_field (str_value v) (cv_value v)"
  obtain tk1 where tk1: "next_token (Some (CHR '' '' # print_field (control_name v) (control_id v) @ r)) tk = Inr (Some r, tk1)"
    "\<And>store_str store_int ctl. control_field tk1 store_str store_int MAGIC_NUMBER ctl
       = Inr (if control_name v = [] then store_int (control_id v) ctl else store_str (control_name v) ctl)"
    using field_token [OF ok(1), of r tk] len(1) by (auto simp: r_def)
  obtain tk2 where tk2: "next_token (Some r) tk1 = Inr (Some [], tk2)"
    "\<And>store_str store_int ctl. control_field tk2 store_str store_int MAX_LINE_LEN ctl
       = Inr (if str_value v = [] then store_int (cv_value v) ctl else store_str (str_value v) ctl)"
    using field_token [OF ok(2), of "[]" tk1] len(2) by (auto simp: r_def)
  define c1 where "c1 = (if control_name v = [] then zero_control_value\<lparr>control_id := control_id v\<rparr> else zero_control_value\<lparr>control_name := control_name v\<rparr>)"
  have "c1 = \<lparr>control_name = control_name v, control_id = control_id v, cv_value = 0, str_value = []\<rparr>"
    using ok(1) by (auto simp: c1_def zero_control_value_def field_ok_def)
  then have "(if str_value v = [] then c1\<lparr>cv_value := cv_value v\<rparr> else c1\<lparr>str_value := str_value v\<rparr>) = v"
    using ok(2) by (cases v) (auto simp: field_ok_def)
  moreover have "control_line (Some (CHR '' '' # print_field (control_name v) (control_id v) @ r)) tk cs = Inr (True, tk2,
      cs\<lparr>cs_values := cs_values cs @ [if str_value v = [] then c1\<lparr>cv_value := cv_value v\<rparr> else c1\<lparr>str_value := str_value v\<rparr>]\<rparr>)"
    using key assms(2) tk1(1) tk2(1) by (simp add: control_line_def tk1(2) tk2(2) c1_def [symmetric])
  ultimately show "\<exists>tk'. control_line (Some (CHR '' '' # setting (print_field (control_name v) (control_id v)) (print_field (str_value v) (cv_value v)))) tk cs
      = Inr (True, tk', cs\<lparr>cs_values := cs_values cs @ [v]\<rparr>)"
    by (simp add: setting_def r_def)
qed

lemma reads_control:
  assumes "printable_control cs"
  shows "reads control_line (print_control cs) zero_control cs"
proof -
  have "reads control_line (map print_value vs) cs0 (cs0\<lparr>cs_values := cs_values cs0 @ vs\<rparr>)"
    if "\<forall>v\<in>set vs. printable_value v" "length (cs_values cs0) + length vs \<le> MAGIC_NUMBER" for vs cs0
    using that
  proof (induction vs arbitrary: cs0)
    case Nil
    then show ?case by (simp add: reads_nil)
  next
    case (Cons v vs)
    have "reads control_line [print_value v] cs0 (cs0\<lparr>cs_values := cs_values cs0 @ [v]\<rparr>)" using Cons.prems by (intro reads_value) simp_all
    then show ?case
      using reads_append [OF _ Cons.IH [of "cs0\<lparr>cs_values := cs_values cs0 @ [v]\<rparr>"]] Cons.prems by fastforce
  qed
  note vals = this [of "cs_values cs" "zero_control\<lparr>cs_card := cs_card cs\<rparr>"]
  have eq: "\<lparr>cs_card = cs_card cs, cs_values = cs_values cs\<rparr> = cs" by (cases cs) simp
  have "reads control_line (print_control cs) zero_control \<lparr>cs_card = cs_card cs, cs_values = cs_values cs\<rparr>"
    using reads_append [OF reads_control_card [of "cs_card cs" zero_control] vals] assms
    by (simp add: print_control_def printable_control_def) (simp add: zero_control_def)
  then show ?thesis unfolding eq .
qed

definition print_tuner :: "v4l_tuner_settings \<Rightarrow> string list" where
  "print_tuner t = [setting ''device'' (quoted (tuner_device t)), setting ''freq'' (show_num (tuner_freq t))]
     @ (if tuner_scan t < 0 then [] else [setting ''scan_select'' (show_num (tuner_scan t))])"

definition printable_tuner :: "v4l_tuner_settings \<Rightarrow> bool" where
  "printable_tuner t = (text_ok (tuner_device t) \<and> length (tuner_device t) < 64 \<and> fits_int (tuner_freq t) \<and> (tuner_scan t = - 1 \<or> fits_int (tuner_scan t)))"

definition print_bluetooth :: "bluetooth_audio_settings \<Rightarrow> string list" where
  "print_bluetooth b = [setting ''connect'' (quoted (remote_mac b)), setting ''pin'' (quoted (bt_pin b))]"

definition printable_bluetooth :: "bluetooth_audio_settings \<Rightarrow> bool" where
  "printable_bluetooth b = (\<forall>t\<in>{remote_mac b, bt_pin b}. text_ok t \<and> length t < 64)"

lemma reads_text:
  assumes "is_name key" and "\<And>tk rest. tk_str tk = key \<Longrightarrow> handle rest tk s = text_line n store rest tk s" and "text_ok t" and "length t < n"
  shows "reads handle [setting key (quoted t)] s (store t s)"
  using assms by (intro reads_setting) (simp_all add: text_line_quoted text_ok_def)

lemma reads_int:
  assumes "is_name key" and "\<And>tk rest. tk_str tk = key \<Longrightarrow> handle rest tk s = int_line store rest tk s" and "fits_int n"
  shows "reads handle [setting key (show_num n)] s (store n s)"
  using assms by (intro reads_setting) (simp_all add: int_line_num)

lemma reads_tuner:
  assumes "printable_tuner t"
  shows "reads tuner_line (print_tuner t) (set_tuner (\<lambda>t. t\<lparr>tuner_scan := - 1\<rparr>) ts) (ts\<lparr>ts_tuner := t\<rparr>)"
proof -
  have r1: "reads tuner_line [setting ''device'' (quoted (tuner_device t))] s (set_tuner (\<lambda>u. u\<lparr>tuner_device := tuner_device t\<rparr>) s)" for s
    by (rule reads_text [where store = "\<lambda>s. set_tuner (\<lambda>t. t\<lparr>tuner_device := s\<rparr>)" and n = 64])
      (use assms in \<open>simp_all add: key_names tuner_line_def printable_tuner_def\<close>)
  have r2: "reads tuner_line [setting ''freq'' (show_num (tuner_freq t))] s (set_tuner (\<lambda>u. u\<lparr>tuner_freq := tuner_freq t\<rparr>) s)" for s
    by (rule reads_int [where store = "\<lambda>v. set_tuner (\<lambda>t. t\<lparr>tuner_freq := v\<rparr>)"])
      (use assms in \<open>simp_all add: key_names tuner_line_def printable_tuner_def\<close>)
  have r3: "reads tuner_line [setting ''scan_select'' (show_num (tuner_scan t))] s (set_tuner (\<lambda>u. u\<lparr>tuner_scan := tuner_scan t\<rparr>) s)"
    if "fits_int (tuner_scan t)" for s
    by (rule reads_int [where store = "\<lambda>v. set_tuner (\<lambda>t. t\<lparr>tuner_scan := v\<rparr>)"]) (use that in \<open>simp_all add: key_names tuner_line_def\<close>)
  show ?thesis
  proof (cases "tuner_scan t < 0")
    case True
    then have "tuner_scan t = - 1" using assms by (auto simp: printable_tuner_def fits_int_def)
    then show ?thesis using reads_append [OF r1 r2, of "set_tuner (\<lambda>t. t\<lparr>tuner_scan := - 1\<rparr>) ts"]
      by (cases t; cases "ts_tuner ts") (simp add: print_tuner_def set_tuner_def)
  next
    case False
    then have "fits_int (tuner_scan t)" using assms by (auto simp: printable_tuner_def)
    then show ?thesis using False reads_append [OF r1 reads_append [OF r2 r3], of "set_tuner (\<lambda>t. t\<lparr>tuner_scan := - 1\<rparr>) ts"]
      by (cases t; cases "ts_tuner ts") (simp add: print_tuner_def set_tuner_def)
  qed
qed

lemma reads_bluetooth:
  assumes "printable_bluetooth b"
  shows "reads bluetooth_line (print_bluetooth b) ts (ts\<lparr>ts_btaudio := b\<rparr>)"
proof -
  have r1: "reads bluetooth_line [setting ''connect'' (quoted (remote_mac b))] s (set_bluetooth (\<lambda>u. u\<lparr>remote_mac := remote_mac b\<rparr>) s)" for s
    by (rule reads_text [where store = "\<lambda>s. set_bluetooth (\<lambda>b. b\<lparr>remote_mac := s\<rparr>)" and n = 64])
      (use assms in \<open>simp_all add: key_names bluetooth_line_def printable_bluetooth_def\<close>)
  have r2: "reads bluetooth_line [setting ''pin'' (quoted (bt_pin b))] s (set_bluetooth (\<lambda>u. u\<lparr>bt_pin := bt_pin b\<rparr>) s)" for s
    by (rule reads_text [where store = "\<lambda>s. set_bluetooth (\<lambda>b. b\<lparr>bt_pin := s\<rparr>)" and n = 64])
      (use assms in \<open>simp_all add: key_names bluetooth_line_def printable_bluetooth_def\<close>)
  show ?thesis using reads_append [OF r1 r2, of ts] by (cases b; cases "ts_btaudio ts") (simp add: print_bluetooth_def set_bluetooth_def)
qed

end
