(* ===== verification/Alsa_Conf_Roundtrip.thy ===== *)
theory Alsa_Conf_Roundtrip
  imports Alsa_Conf_Print
begin

text \<open>
  A whole configuration written to a file and read back: the printed lines go through the cleaning unchanged, and the section
  loops take them, section by section, to the configuration they were printed from.
\<close>

section \<open>Lines the cleaning leaves alone\<close>

definition piece :: "string \<Rightarrow> bool" where
  "piece w = ((\<forall>s. strip_blanks False (w @ s) = w @ strip_blanks False s) \<and> newline_char \<notin> set w \<and> CHR 0x00 \<notin> set w)"

lemma piece_append: "piece u \<Longrightarrow> piece w \<Longrightarrow> piece (u @ w)"
  by (simp add: piece_def)

lemma piece_plain: "\<forall>c\<in>set w. plain_char c \<Longrightarrow> piece w"
  by (induction w) (auto simp: piece_def plain_char_def Let_def)

lemma strip_in_string: "quote_char \<notin> set t \<Longrightarrow> strip_blanks True (t @ quote_char # s) = t @ quote_char # strip_blanks False s"
  by (induction t) (auto simp: Let_def)

lemma piece_quoted: "text_ok t \<Longrightarrow> piece (quoted t)"
  by (simp add: piece_def quoted_def text_ok_def Let_def strip_in_string)

definition file_line :: "string \<Rightarrow> bool" where
  "file_line l = (piece l \<and> length l < MAX_LINE_LEN \<and> is_kept l \<and> hd l \<noteq> CHR '' '')"

lemma file_line_short: "file_line l \<Longrightarrow> short_line l"
  by (simp add: file_line_def piece_def short_line_def one_line_def)

text \<open>The lines of settings do not look like the tag of a section.\<close>

definition body_line :: "string \<Rightarrow> bool" where
  "body_line l = (file_line l \<and> hd l \<noteq> CHR ''['')"

lemma show_num_plain: "piece (show_num n)"
proof -
  have "is_digit c \<Longrightarrow> plain_char c" for c by (auto simp: is_digit_def plain_char_def)
  then show ?thesis using show_nat_digits [of "nat n"] by (intro piece_plain) (auto simp: show_num_def)
qed

lemma show_num_length: "fits_int n \<Longrightarrow> length (show_num n) \<le> 10"
  using show_nat_length [of "nat n" 10] by (simp add: fits_int_def show_num_def nat_less_iff)

lemma setting_line:
  assumes "\<forall>c\<in>set key. plain_char c" and "key \<noteq> []" and "hd key \<notin> {CHR '' '', CHR ''#'', CHR ''[''}" and "piece val" and "length key + length val < 255"
  shows "body_line (setting key val)"
proof -
  have "piece (CHR '' '' # val)" using assms(4) by (simp add: piece_def Let_def)
  then have "piece (setting key val)" unfolding setting_def using assms(1) by (intro piece_append [OF piece_plain])
  then show ?thesis using assms(2,3,5) by (auto simp: body_line_def file_line_def is_kept_def setting_def MAX_LINE_LEN_def)
qed

lemma number_setting_line:
  assumes "\<forall>c\<in>set key. plain_char c" and "key \<noteq> []" and "hd key \<notin> {CHR '' '', CHR ''#'', CHR ''[''}" and "fits_int n" and "length key \<le> 100"
  shows "body_line (setting key (show_num n))"
  using assms show_num_length [OF assms(4)] by (intro setting_line show_num_plain) auto

lemma text_setting_line:
  assumes "\<forall>c\<in>set key. plain_char c" and "key \<noteq> []" and "hd key \<notin> {CHR '' '', CHR ''#'', CHR ''[''}" and "text_ok t" and "length key + length t < 253"
  shows "body_line (setting key (quoted t))"
  using assms by (intro setting_line piece_quoted) (auto simp: quoted_def)

lemma name_setting_line:
  assumes "\<forall>c\<in>set key. plain_char c" and "key \<noteq> []" and "hd key \<notin> {CHR '' '', CHR ''#'', CHR ''[''}" and "length key \<le> 100"
    and "names_ok table" and "n \<in> snd ` set table"
  shows "body_line (setting key (name_of_value table n))"
proof -
  obtain name where "(name, n) \<in> set table" using assms(6) by auto
  then have "\<forall>c\<in>set (name_of_value table n). plain_char c" "length (name_of_value table n) \<le> 30" using assms(5) by (auto simp: names_ok_def)
  then show ?thesis using assms(1-4) by (intro setting_line piece_plain) auto
qed

lemma print_pcm_lines:
  assumes "printable_pcm ps" and "l \<in> set (print_pcm ps)"
  shows "body_line l"
proof -
  note ok = assms(1) [unfolded printable_pcm_def]
  have link: "body_line (setting ''link'' (setting (show_num n) (show_num m)))" if "fits_int n" "fits_int m" for n m
  proof (rule setting_line)
    have "piece (CHR '' '' # show_num m)" using show_num_plain [of m] by (simp add: piece_def Let_def)
    then show "piece (setting (show_num n) (show_num m))" unfolding setting_def by (intro piece_append show_num_plain)
  qed (use show_num_length [OF that(1)] show_num_length [OF that(2)] in \<open>simp_all add: plain_char_def setting_def\<close>)
  have nums: "body_line (setting ''card'' (show_num n))" "body_line (setting ''device'' (show_num n))" "body_line (setting ''hw_resampling'' (show_num n))"
    "body_line (setting ''channels'' (show_num n))" "body_line (setting ''rates'' (show_num n))" "body_line (setting ''duration'' (show_num n))"
    "body_line (setting ''freq'' (show_num n))" "body_line (setting ''period_size'' (show_num n))" "body_line (setting ''volume'' (show_num n))"
    if "fits_int n" for n
    by (intro number_setting_line; use that in \<open>simp add: plain_char_def\<close>)+
  have names: "n \<in> snd ` set format_values \<Longrightarrow> body_line (setting ''formats'' (format_to_str n))"
    "n \<in> snd ` set access_values \<Longrightarrow> body_line (setting ''access'' (access_to_str n))"
    "n \<in> snd ` set async_values \<Longrightarrow> body_line (setting ''async'' (async_to_str n))" for n
    unfolding converters
    by (intro name_setting_line format_names_ok access_names_ok async_names_ok; simp add: plain_char_def)+
  have "\<forall>l\<in>set (print_nums ''channels'' (ps_channels ps) @ print_nums ''rates'' (ps_rates ps)). body_line l"
    using ok nums(4,5) by (auto simp: print_nums_def)
  moreover have "\<forall>l\<in>set (print_names ''formats'' format_to_str (ps_formats ps)). body_line l"
    "\<forall>l\<in>set (print_names ''access'' access_to_str (ps_access ps)). body_line l"
    "\<forall>l\<in>set (print_names ''async'' async_to_str (ps_async ps)). body_line l"
    using ok names by (auto simp: print_names_def subset_iff)
  moreover have "\<forall>l\<in>set (if ps_link_card ps < 0 then [] else [setting ''link'' (setting (show_num (ps_link_card ps)) (show_num (ps_link_device ps)))]). body_line l"
    using ok link by auto
  moreover have "\<forall>l\<in>set (if ps_period_size ps < 0 then [] else [setting ''period_size'' (show_num (ps_period_size ps))]). body_line l"
    using ok nums(8) by auto
  ultimately have "\<forall>l\<in>set (print_pcm ps). body_line l"
    using ok nums(1-3,6,7,9) unfolding print_pcm_def set_append ball_Un by simp
  then show ?thesis using assms(2) by blast
qed

lemma print_field_piece: "field_ok str n \<Longrightarrow> piece (print_field str n)"
  by (auto simp: print_field_def field_ok_def piece_quoted show_num_plain split: if_splits)

lemma print_control_lines:
  assumes "printable_control cs" and "l \<in> set (print_control cs)"
  shows "body_line l"
proof -
  have "body_line (print_value v)" if "printable_value v" for v
  proof -
    have "piece (CHR '' '' # print_field (str_value v) (cv_value v))"
      using print_field_piece [of "str_value v" "cv_value v"] that by (simp add: printable_value_def piece_def Let_def)
    then have "piece (setting (print_field (control_name v) (control_id v)) (print_field (str_value v) (cv_value v)))"
      unfolding setting_def using that by (intro piece_append print_field_piece) (simp_all add: printable_value_def)
    then show ?thesis
      unfolding print_value_def using that
      by (intro setting_line) (auto simp: plain_char_def printable_value_def print_value_def setting_def MAX_LINE_LEN_def)
  qed
  moreover have "body_line (setting ''card'' (show_num (cs_card cs)))"
    using assms(1) by (intro number_setting_line) (simp_all add: plain_char_def printable_control_def)
  ultimately show ?thesis using assms by (auto simp: print_control_def printable_control_def)
qed

lemma print_tuner_lines:
  assumes "printable_tuner t" and "l \<in> set (print_tuner t)"
  shows "body_line l"
proof -
  have "body_line (setting ''device'' (quoted (tuner_device t)))" "body_line (setting ''freq'' (show_num (tuner_freq t)))"
    using assms(1) by (intro text_setting_line number_setting_line; simp add: plain_char_def printable_tuner_def)+
  moreover have "fits_int (tuner_scan t) \<Longrightarrow> body_line (setting ''scan_select'' (show_num (tuner_scan t)))"
    by (intro number_setting_line) (simp_all add: plain_char_def)
  ultimately show ?thesis using assms by (auto simp: print_tuner_def printable_tuner_def split: if_splits)
qed

lemma print_bluetooth_lines:
  assumes "printable_bluetooth b" and "l \<in> set (print_bluetooth b)"
  shows "body_line l"
proof -
  have "body_line (setting ''connect'' (quoted (remote_mac b)))" "body_line (setting ''pin'' (quoted (bt_pin b)))"
    using assms(1) by (intro text_setting_line; simp add: plain_char_def printable_bluetooth_def)+
  then show ?thesis using assms(2) by (auto simp: print_bluetooth_def)
qed

lemmas print_lines = print_pcm_lines print_control_lines print_tuner_lines print_bluetooth_lines

section \<open>The sections of a test set\<close>

text \<open>The loop gets over these lines, wherever they stand, and takes the test set from \<open>ts\<close> to \<open>ts'\<close>.\<close>

definition testset_reads :: "string list \<Rightarrow> alsa_testset \<Rightarrow> alsa_testset \<Rightarrow> bool" where
  "testset_reads ls ts ts' = (\<forall>pre more end_p line tk. length (pre @ end_lines ls) \<le> end_p \<longrightarrow> (\<exists>line' tk'.
     testset_loop (pre @ end_lines ls @ more) (Some (length pre)) end_p line tk ts
     = testset_loop (pre @ end_lines ls @ more) (Some (length (pre @ end_lines ls))) end_p line' tk' ts'))"

lemma testset_reads_nil: "testset_reads [] ts ts"
  by (auto simp: testset_reads_def)

lemma testset_reads_append:
  assumes "testset_reads ls ts ts'" and "testset_reads ls' ts' ts''"
  shows "testset_reads (ls @ ls') ts ts''"
  unfolding testset_reads_def
proof (intro allI impI)
  fix pre more end_p line tk
  assume "length (pre @ end_lines (ls @ ls')) \<le> end_p"
  then have le: "length (pre @ end_lines ls) \<le> end_p" "length ((pre @ end_lines ls) @ end_lines ls') \<le> end_p" by simp_all
  obtain line1 tk1 where 1: "testset_loop (pre @ end_lines ls @ end_lines ls' @ more) (Some (length pre)) end_p line tk ts
      = testset_loop (pre @ end_lines ls @ end_lines ls' @ more) (Some (length (pre @ end_lines ls))) end_p line1 tk1 ts'"
    using assms(1) le(1) unfolding testset_reads_def by blast
  obtain line2 tk2 where "testset_loop ((pre @ end_lines ls) @ end_lines ls' @ more) (Some (length (pre @ end_lines ls))) end_p line1 tk1 ts'
      = testset_loop ((pre @ end_lines ls) @ end_lines ls' @ more) (Some (length ((pre @ end_lines ls) @ end_lines ls'))) end_p line2 tk2 ts''"
    using assms(2) le(2) unfolding testset_reads_def by blast
  then show "\<exists>line' tk'. testset_loop (pre @ end_lines (ls @ ls') @ more) (Some (length pre)) end_p line tk ts
      = testset_loop (pre @ end_lines (ls @ ls') @ more) (Some (length (pre @ end_lines (ls @ ls')))) end_p line' tk' ts''"
    using 1 by (intro exI [of _ line2] exI [of _ tk2]) simp
qed

text \<open>A line that is no tag.\<close>

lemma testset_reads_line:
  assumes "short_line l" and "map_of testset_tags l = None" and "\<And>tk. \<exists>tk'. description_line l tk ts = Inr (True, tk', ts')"
  shows "testset_reads [l] ts ts'"
  unfolding testset_reads_def
proof (intro allI impI)
  fix pre more end_p line tk
  assume "length (pre @ end_lines [l]) \<le> end_p"
  then have "length pre < end_p" by simp
  moreover obtain tk' where "description_line l tk ts = Inr (True, tk', ts')" using assms(3) by blast
  moreover have "cnfparser_readline (pre @ l @ newline_char # more) (length pre) line = Inr (length l, Some l)"
    using assms(1) by (simp add: readline_line short_line_def)
  ultimately show "\<exists>line' tk'. testset_loop (pre @ end_lines [l] @ more) (Some (length pre)) end_p line tk ts
      = testset_loop (pre @ end_lines [l] @ more) (Some (length (pre @ end_lines [l]))) end_p line' tk' ts'"
    using assms(2) by (intro exI [of _ "Some l"] exI [of _ tk']) (subst testset_loop.simps, simp)
qed

text \<open>A section: the body is parsed, and the end tag is read as a line that says nothing.\<close>

lemma testset_reads_section:
  assumes "short_line tag" and "map_of testset_tags tag = Some end_tag" and "testset_reads [end_tag] ts' ts'" and "short_line end_tag"
    and "\<forall>l\<in>set body. short_line l \<and> l \<noteq> end_tag"
    and "\<And>pre rest. parse_subsection tag ts (pre @ end_lines body @ rest) (length pre) (length (pre @ end_lines body)) = Inr (0, ts')"
  shows "testset_reads (tag # body @ [end_tag]) ts ts'"
proof -
  have "\<exists>line' tk'. testset_loop (pre @ end_lines (tag # body) @ end_lines [end_tag] @ more) (Some (length pre)) end_p line tk ts
      = testset_loop (pre @ end_lines (tag # body) @ end_lines [end_tag] @ more) (Some (length (pre @ end_lines (tag # body)))) end_p line' tk' ts'"
    if "length (pre @ end_lines (tag # body) @ end_lines [end_tag]) \<le> end_p" for pre more end_p line tk
  proof -
    define pre1 where "pre1 = pre @ tag @ [newline_char]"
    define buf where "buf = pre @ end_lines (tag # body) @ end_lines [end_tag] @ more"
    have buf: "buf = pre1 @ end_lines body @ end_tag @ newline_char # more" "buf = pre @ tag @ newline_char # (end_lines body @ end_tag @ newline_char # more)"
      by (simp_all add: buf_def pre1_def)
    have start: "length pre < end_p" "length (pre1 @ end_lines body) < end_p" using that by (simp_all add: pre1_def)
    have next_pos: "Suc (length pre + length tag) = length pre1" by (simp add: pre1_def)
    have "cnfparser_readline buf (length pre) line = Inr (length tag, Some tag)"
      using assms(1) by (simp add: buf(2) readline_line short_line_def)
    moreover have "cnfparser_seek_section_end buf (length pre1) end_p end_tag = Inr (Some (length (pre1 @ end_lines body)))"
      unfolding buf(1) using assms(4,5) start(2) by (intro seek_result) simp_all
    moreover have "parse_subsection tag ts buf (length pre1) (length (pre1 @ end_lines body)) = Inr (0, ts')"
      unfolding buf(1) by (rule assms(6))
    ultimately have "testset_loop buf (Some (length pre)) end_p line tk ts = testset_loop buf (Some (length (pre1 @ end_lines body))) end_p (Some tag) tk ts'"
      using start(1) assms(2) unfolding testset_loop.simps [of buf "Some (length pre)"] by (simp add: next_pos del: length_append)
    then show ?thesis unfolding buf_def by (intro exI [of _ "Some tag"] exI [of _ tk]) (simp add: pre1_def)
  qed
  note step = this
  show ?thesis
    unfolding testset_reads_def
  proof (intro allI impI)
    fix pre more end_p line tk
    define buf where "buf = pre @ end_lines (tag # body @ [end_tag]) @ more"
    assume "length (pre @ end_lines (tag # body @ [end_tag])) \<le> end_p"
    then have le: "length (pre @ end_lines (tag # body) @ end_lines [end_tag]) \<le> end_p" "length ((pre @ end_lines (tag # body)) @ end_lines [end_tag]) \<le> end_p"
      by simp_all
    obtain line1 tk1 where 1: "testset_loop buf (Some (length pre)) end_p line tk ts
        = testset_loop buf (Some (length (pre @ end_lines (tag # body)))) end_p line1 tk1 ts'"
      using step [OF le(1), of more line tk] by (auto simp: buf_def)
    obtain line2 tk2 where "testset_loop buf (Some (length (pre @ end_lines (tag # body)))) end_p line1 tk1 ts'
        = testset_loop buf (Some (length (pre @ end_lines (tag # body @ [end_tag])))) end_p line2 tk2 ts'"
      using assms(3) [unfolded testset_reads_def, rule_format, OF le(2), of more line1 tk1] by (auto simp: buf_def)
    with 1 have "testset_loop buf (Some (length pre)) end_p line tk ts
        = testset_loop buf (Some (length (pre @ end_lines (tag # body @ [end_tag])))) end_p line2 tk2 ts'" by (rule trans)
    then show "\<exists>line' tk'. testset_loop (pre @ end_lines (tag # body @ [end_tag]) @ more) (Some (length pre)) end_p line tk ts
        = testset_loop (pre @ end_lines (tag # body @ [end_tag]) @ more) (Some (length (pre @ end_lines (tag # body @ [end_tag])))) end_p line' tk' ts'"
      unfolding buf_def by (intro exI)
  qed
qed

text \<open>End tags.\<close>

lemma end_tag_line:
  assumes "is_name l" and "take 11 l \<noteq> ''description''"
  shows "\<exists>tk'. description_line l tk ts = Inr (True, tk', ts)"
  using next_token_name [OF assms(1), of "[]" tk] assms(2) by (simp add: description_line_def)

lemma all_tags: "\<forall>(tag, end_tag)\<in>set testset_tags. short_line tag \<and> short_line end_tag \<and> is_name end_tag
    \<and> take 11 end_tag \<noteq> ''description'' \<and> hd end_tag = CHR ''['' \<and> map_of testset_tags end_tag = None \<and> map_of testset_tags tag = Some end_tag"
  by code_simp

lemma tags_short: "(tag, end_tag) \<in> set testset_tags \<Longrightarrow> short_line tag \<and> short_line end_tag \<and> is_name end_tag
    \<and> take 11 end_tag \<noteq> ''description'' \<and> hd end_tag = CHR ''['' \<and> map_of testset_tags end_tag = None \<and> map_of testset_tags tag = Some end_tag"
  using all_tags by blast

lemma testset_reads_body:
  assumes "(tag, end_tag) \<in> set testset_tags" and "\<forall>l\<in>set body. body_line l"
    and "\<And>pre rest. parse_subsection tag ts (pre @ end_lines body @ rest) (length pre) (length (pre @ end_lines body)) = Inr (0, ts')"
  shows "testset_reads (tag # body @ [end_tag]) ts ts'"
proof (rule testset_reads_section [OF _ _ _ _ _ assms(3)])
  note tags = tags_short [OF assms(1)]
  show "testset_reads [end_tag] ts' ts'" using tags end_tag_line [of end_tag] by (intro testset_reads_line) simp_all
  show "\<forall>l\<in>set body. short_line l \<and> l \<noteq> end_tag" using assms(2) tags by (auto simp: body_line_def file_line_short)
qed (use tags_short [OF assms(1)] in simp_all)

end
