(* ===== verification/Alsa_Conf_File.thy ===== *)
theory Alsa_Conf_File
  imports Alsa_Conf_Roundtrip
begin

text \<open>
  The whole file: a configuration printed section by section is read back as it was. The last part shows what happens when
  the end tag of a test set is missing.
\<close>

section \<open>Printing a test set\<close>

definition control_lines_of :: "alsa_control_settings \<Rightarrow> string list" where
  "control_lines_of cs = ''[control]'' # print_control cs @ [''[end_control]'']"

definition pcm_tags :: "nat \<Rightarrow> string \<times> string" where
  "pcm_tags dir = (if dir = STREAM_DIR_OUT then (''[playback]'', ''[end_playback]'')
     else if dir = STREAM_DIR_IN then (''[recording]'', ''[end_recording]'') else (''[wait]'', ''[end_wait]''))"

definition pcm_lines_of :: "alsa_pcm_settings \<Rightarrow> string list" where
  "pcm_lines_of ps = fst (pcm_tags (ps_dir ps)) # print_pcm ps @ [snd (pcm_tags (ps_dir ps))]"

definition print_testset :: "alsa_testset \<Rightarrow> string list" where
  "print_testset ts = [setting ''description'' (quoted (ts_description ts))]
     @ concat (map control_lines_of (ts_ctls ts)) @ concat (map pcm_lines_of (ts_pcms ts))
     @ ''[tuner]'' # print_tuner (ts_tuner ts) @ [''[end_tuner]''] @ ''[bluetooth]'' # print_bluetooth (ts_btaudio ts) @ [''[end_bluetooth]'']"

definition printable_testset :: "alsa_testset \<Rightarrow> bool" where
  "printable_testset ts = (text_ok (ts_description ts) \<and> length (ts_description ts) \<le> 240
     \<and> length (ts_ctls ts) \<le> MAX_STREAMS \<and> (\<forall>cs\<in>set (ts_ctls ts). printable_control cs)
     \<and> length (ts_pcms ts) \<le> MAX_STREAMS \<and> (\<forall>ps\<in>set (ts_pcms ts). printable_pcm ps \<and> ps_dir ps \<le> STREAM_DIR_OUT)
     \<and> printable_tuner (ts_tuner ts) \<and> printable_bluetooth (ts_btaudio ts))"

section \<open>Reading its sections\<close>

lemma parse_control_printed:
  assumes "printable_control cs"
  shows "cnfparser_parse_control (pre @ end_lines (print_control cs) @ rest) (length pre) (length (pre @ end_lines (print_control cs))) = Inr (0, cs)"
proof -
  have "\<forall>l\<in>set (print_control cs). short_line l" using print_control_lines [OF assms] by (auto simp: body_line_def file_line_short)
  then show ?thesis
    unfolding cnfparser_parse_control_def by (simp only: lines_loop_result reads_all [OF reads_control [OF assms]])
qed

lemma parse_pcm_printed:
  assumes "printable_pcm ps"
  shows "cnfparser_parse_pcm (pre @ end_lines (print_pcm ps) @ rest) (length pre) (length (pre @ end_lines (print_pcm ps))) zero_pcm
    = Inr (0, ps\<lparr>ps_dir := 0\<rparr>)"
proof -
  have "print_pcm (ps\<lparr>ps_dir := 0\<rparr>) = print_pcm ps" "printable_pcm (ps\<lparr>ps_dir := 0\<rparr>)" using assms by (simp_all add: print_pcm_def printable_pcm_def)
  then have "reads pcm_line (print_pcm ps) (zero_pcm\<lparr>ps_link_card := - 1, ps_link_device := - 1, ps_period_size := - 1, ps_volume := 100\<rparr>) (ps\<lparr>ps_dir := 0\<rparr>)"
    using reads_pcm [of "ps\<lparr>ps_dir := 0\<rparr>"] by simp
  moreover have "\<forall>l\<in>set (print_pcm ps). short_line l" using print_pcm_lines [OF assms] by (auto simp: body_line_def file_line_short)
  ultimately show ?thesis unfolding cnfparser_parse_pcm_def by (simp only: lines_loop_result reads_all)
qed

lemma tags_of_dir: "pcm_tags dir \<in> set testset_tags"
  by (simp add: pcm_tags_def testset_tags_def)

lemma testset_reads_control:
  assumes "printable_control cs" and "length (ts_ctls ts) < MAX_STREAMS"
  shows "testset_reads (control_lines_of cs) ts (ts\<lparr>ts_ctls := ts_ctls ts @ [cs]\<rparr>)"
  unfolding control_lines_of_def
proof (rule testset_reads_body)
  fix pre rest
  show "parse_subsection ''[control]'' ts (pre @ end_lines (print_control cs) @ rest) (length pre) (length (pre @ end_lines (print_control cs)))
      = Inr (0, ts\<lparr>ts_ctls := ts_ctls ts @ [cs]\<rparr>)"
    using assms(2) by (simp add: parse_subsection_def control_section_def parse_control_printed [OF assms(1)] del: length_append)
qed (use print_control_lines [OF assms(1)] in \<open>simp_all add: testset_tags_def\<close>)

lemma stream_section_printed:
  assumes "printable_pcm ps" and "length (ts_pcms ts) < MAX_STREAMS"
  shows "stream_section (ps_dir ps) ts (pre @ end_lines (print_pcm ps) @ rest) (length pre) (length (pre @ end_lines (print_pcm ps)))
    = Inr (0, ts\<lparr>ts_pcms := ts_pcms ts @ [ps]\<rparr>)"
  using assms(2) by (simp add: stream_section_def cnfparser_parse_config_section_def parse_pcm_printed [OF assms(1)] del: length_append)

lemma testset_reads_pcm:
  assumes "printable_pcm ps" and "ps_dir ps \<le> STREAM_DIR_OUT" and "length (ts_pcms ts) < MAX_STREAMS"
  shows "testset_reads (pcm_lines_of ps) ts (ts\<lparr>ts_pcms := ts_pcms ts @ [ps]\<rparr>)"
  unfolding pcm_lines_of_def
proof (rule testset_reads_body)
  show "(fst (pcm_tags (ps_dir ps)), snd (pcm_tags (ps_dir ps))) \<in> set testset_tags" using tags_of_dir by simp
  fix pre rest
  have "parse_subsection (fst (pcm_tags (ps_dir ps))) = stream_section (ps_dir ps)"
    using assms(2) by (auto simp: fun_eq_iff parse_subsection_def pcm_tags_def STREAM_DIR_OUT_def STREAM_DIR_IN_def STREAM_DIR_NONE_def le_Suc_eq numeral_2_eq_2)
  then show "parse_subsection (fst (pcm_tags (ps_dir ps))) ts (pre @ end_lines (print_pcm ps) @ rest) (length pre) (length (pre @ end_lines (print_pcm ps)))
      = Inr (0, ts\<lparr>ts_pcms := ts_pcms ts @ [ps]\<rparr>)"
    using stream_section_printed [OF assms(1,3)] by simp
qed (use print_pcm_lines [OF assms(1)] in simp)

lemma testset_reads_tuner:
  assumes "printable_tuner t"
  shows "testset_reads (''[tuner]'' # print_tuner t @ [''[end_tuner]'']) ts (ts\<lparr>ts_tuner := t\<rparr>)"
proof (rule testset_reads_body)
  fix pre rest
  have "\<forall>l\<in>set (print_tuner t). short_line l" using print_tuner_lines [OF assms] by (auto simp: body_line_def file_line_short)
  then show "parse_subsection ''[tuner]'' ts (pre @ end_lines (print_tuner t) @ rest) (length pre) (length (pre @ end_lines (print_tuner t)))
      = Inr (0, ts\<lparr>ts_tuner := t\<rparr>)"
    by (simp add: parse_subsection_def cnfparser_parse_tuner_def lines_loop_result reads_all [OF reads_tuner [OF assms]] del: length_append)
qed (use print_tuner_lines [OF assms] in \<open>simp_all add: testset_tags_def\<close>)

lemma testset_reads_bluetooth:
  assumes "printable_bluetooth b"
  shows "testset_reads (''[bluetooth]'' # print_bluetooth b @ [''[end_bluetooth]'']) ts (ts\<lparr>ts_btaudio := b\<rparr>)"
proof (rule testset_reads_body)
  fix pre rest
  have "\<forall>l\<in>set (print_bluetooth b). short_line l" using print_bluetooth_lines [OF assms] by (auto simp: body_line_def file_line_short)
  then show "parse_subsection ''[bluetooth]'' ts (pre @ end_lines (print_bluetooth b) @ rest) (length pre) (length (pre @ end_lines (print_bluetooth b)))
      = Inr (0, ts\<lparr>ts_btaudio := b\<rparr>)"
    by (simp add: parse_subsection_def cnfparser_parse_bluetooth_def lines_loop_result reads_all [OF reads_bluetooth [OF assms]] del: length_append)
qed (use print_bluetooth_lines [OF assms] in \<open>simp_all add: testset_tags_def\<close>)

lemma description_line_body: "text_ok d \<Longrightarrow> length d \<le> 240 \<Longrightarrow> body_line (setting ''description'' (quoted d))"
  by (intro text_setting_line) (simp_all add: plain_char_def)

lemma testset_reads_description:
  assumes "text_ok d" and "length d \<le> 240"
  shows "testset_reads [setting ''description'' (quoted d)] ts (ts\<lparr>ts_description := d\<rparr>)"
proof (rule testset_reads_line)
  have "body_line (setting ''description'' (quoted d))" using assms by (rule description_line_body)
  then show "short_line (setting ''description'' (quoted d))" by (simp add: body_line_def file_line_short)
  show "map_of testset_tags (setting ''description'' (quoted d)) = None" by (simp add: testset_tags_def setting_def)
  fix tk
  have name: "next_token (Some (setting ''description'' (quoted d))) tk
      = Inr (Some (CHR '' '' # quoted d), tk\<lparr>tk_type := CNF_TOKEN_STR, tk_str := ''description''\<rparr>)"
    using next_token_name [of "''description''" "CHR '' '' # quoted d" tk] by (simp add: setting_def key_names)
  show "\<exists>tk'. description_line (setting ''description'' (quoted d)) tk ts = Inr (True, tk', ts\<lparr>ts_description := d\<rparr>)"
    unfolding description_line_def name
    using text_line_quoted [of d MAX_LINE_LEN "\<lambda>s ts. ts\<lparr>ts_description := s\<rparr>" "tk\<lparr>tk_type := CNF_TOKEN_STR, tk_str := ''description''\<rparr>" ts] assms
    by (simp add: text_ok_def MAX_LINE_LEN_def)
qed

lemma testset_reads_controls:
  assumes "\<forall>cs\<in>set css. printable_control cs" and "length (ts_ctls ts) + length css \<le> MAX_STREAMS"
  shows "testset_reads (concat (map control_lines_of css)) ts (ts\<lparr>ts_ctls := ts_ctls ts @ css\<rparr>)"
  using assms
proof (induction css arbitrary: ts)
  case Nil
  then show ?case by (simp add: testset_reads_nil)
next
  case (Cons cs css)
  then show ?case
    using testset_reads_append [OF testset_reads_control [of cs ts] Cons.IH [of "ts\<lparr>ts_ctls := ts_ctls ts @ [cs]\<rparr>"]] by simp
qed

lemma testset_reads_pcms:
  assumes "\<forall>ps\<in>set pss. printable_pcm ps \<and> ps_dir ps \<le> STREAM_DIR_OUT" and "length (ts_pcms ts) + length pss \<le> MAX_STREAMS"
  shows "testset_reads (concat (map pcm_lines_of pss)) ts (ts\<lparr>ts_pcms := ts_pcms ts @ pss\<rparr>)"
  using assms
proof (induction pss arbitrary: ts)
  case Nil
  then show ?case by (simp add: testset_reads_nil)
next
  case (Cons ps pss)
  then show ?case
    using testset_reads_append [OF testset_reads_pcm [of ps ts] Cons.IH [of "ts\<lparr>ts_pcms := ts_pcms ts @ [ps]\<rparr>"]] by simp
qed

lemma testset_reads_printed:
  assumes "printable_testset ts"
  shows "testset_reads (print_testset ts) zero_testset ts"
proof -
  note ok = assms [unfolded printable_testset_def]
  have eq: "zero_testset\<lparr>ts_description := ts_description ts, ts_ctls := ts_ctls ts, ts_pcms := ts_pcms ts, ts_tuner := ts_tuner ts, ts_btaudio := ts_btaudio ts\<rparr> = ts"
    by (cases ts) (simp add: zero_testset_def)
  have r1: "testset_reads [setting ''description'' (quoted (ts_description ts))] zero_testset (zero_testset\<lparr>ts_description := ts_description ts\<rparr>)"
    using ok by (intro testset_reads_description) simp_all
  have r2: "testset_reads (concat (map control_lines_of (ts_ctls ts))) (zero_testset\<lparr>ts_description := ts_description ts\<rparr>)
      (zero_testset\<lparr>ts_description := ts_description ts, ts_ctls := ts_ctls ts\<rparr>)"
    using ok testset_reads_controls [of "ts_ctls ts" "zero_testset\<lparr>ts_description := ts_description ts\<rparr>"] by (simp add: zero_testset_def)
  have r3: "testset_reads (concat (map pcm_lines_of (ts_pcms ts))) (zero_testset\<lparr>ts_description := ts_description ts, ts_ctls := ts_ctls ts\<rparr>)
      (zero_testset\<lparr>ts_description := ts_description ts, ts_ctls := ts_ctls ts, ts_pcms := ts_pcms ts\<rparr>)"
    using ok testset_reads_pcms [of "ts_pcms ts" "zero_testset\<lparr>ts_description := ts_description ts, ts_ctls := ts_ctls ts\<rparr>"] by (simp add: zero_testset_def)
  show ?thesis
    using testset_reads_append [OF r1 testset_reads_append [OF r2 testset_reads_append [OF r3
        testset_reads_append [OF testset_reads_tuner [of "ts_tuner ts"] testset_reads_bluetooth [of "ts_btaudio ts"]]]]] ok
    unfolding eq print_testset_def by simp
qed

section \<open>The lines of a test set\<close>

text \<open>No line but the last is an end tag of the whole test set.\<close>

definition inner_line :: "string \<Rightarrow> bool" where
  "inner_line l = (file_line l \<and> l \<notin> {''[testset]'', ''[end_testset]'', ''[defaults]'', ''[end_defaults]''})"

lemma body_inner: "body_line l \<Longrightarrow> inner_line l"
  by (auto simp: body_line_def inner_line_def)

lemma tag_plain: "\<forall>(tag, end_tag)\<in>set testset_tags. inner_line tag \<and> inner_line end_tag"
proof -
  have "\<forall>(tag, end_tag)\<in>set testset_tags. (\<forall>c\<in>set tag. plain_char c) \<and> (\<forall>c\<in>set end_tag. plain_char c)
      \<and> length tag < 256 \<and> length end_tag < 256 \<and> is_kept tag \<and> is_kept end_tag \<and> hd tag \<noteq> CHR '' '' \<and> hd end_tag \<noteq> CHR '' ''
      \<and> tag \<notin> {''[testset]'', ''[end_testset]'', ''[defaults]'', ''[end_defaults]''} \<and> end_tag \<notin> {''[testset]'', ''[end_testset]'', ''[defaults]'', ''[end_defaults]''}"
    by code_simp
  then show ?thesis by (fastforce simp: inner_line_def file_line_def piece_plain MAX_LINE_LEN_def)
qed

lemma tag_inner: "(tag, end_tag) \<in> set testset_tags \<Longrightarrow> inner_line tag" "(tag, end_tag) \<in> set testset_tags \<Longrightarrow> inner_line end_tag"
  using tag_plain by blast+

lemma tags_inner:
  "inner_line ''[control]''" "inner_line ''[end_control]''" "inner_line ''[tuner]''" "inner_line ''[end_tuner]''"
  "inner_line ''[bluetooth]''" "inner_line ''[end_bluetooth]''" "inner_line (fst (pcm_tags d))" "inner_line (snd (pcm_tags d))"
  by (rule tag_inner [of "''[control]''" "''[end_control]''"] tag_inner [of "''[tuner]''" "''[end_tuner]''"]
      tag_inner [of "''[bluetooth]''" "''[end_bluetooth]''"] tag_inner [of "fst (pcm_tags d)" "snd (pcm_tags d)"];
      simp add: testset_tags_def pcm_tags_def)+

lemma control_lines_inner: "printable_control cs \<Longrightarrow> l \<in> set (control_lines_of cs) \<Longrightarrow> inner_line l"
  using print_control_lines [of cs l] by (auto simp: control_lines_of_def tags_inner body_inner)

lemma pcm_lines_inner: "printable_pcm ps \<Longrightarrow> l \<in> set (pcm_lines_of ps) \<Longrightarrow> inner_line l"
  using print_pcm_lines [of ps l] by (auto simp: pcm_lines_of_def tags_inner body_inner)

lemma testset_lines_inner:
  assumes "printable_testset ts" and "l \<in> set (print_testset ts)"
  shows "inner_line l"
proof -
  note ok = assms(1) [unfolded printable_testset_def]
  have "inner_line (setting ''description'' (quoted (ts_description ts)))" using ok by (intro body_inner description_line_body) simp_all
  moreover have "\<forall>l\<in>set (concat (map control_lines_of (ts_ctls ts))). inner_line l" using ok control_lines_inner by fastforce
  moreover have "\<forall>l\<in>set (concat (map pcm_lines_of (ts_pcms ts))). inner_line l" using ok pcm_lines_inner by fastforce
  moreover have "\<forall>l\<in>set (print_tuner (ts_tuner ts)). inner_line l" using ok print_tuner_lines body_inner by blast
  moreover have "\<forall>l\<in>set (print_bluetooth (ts_btaudio ts)). inner_line l" using ok print_bluetooth_lines body_inner by blast
  ultimately have "\<forall>l\<in>set (print_testset ts). inner_line l" by (simp only: print_testset_def set_append ball_Un list.set ball_simps tags_inner)
  then show ?thesis using assms(2) by blast
qed

section \<open>Default controls\<close>

lemma readline_at: "short_line l \<Longrightarrow> cnfparser_readline (pre @ l @ newline_char # s) (length pre) line = Inr (length l, Some l)"
  by (simp add: readline_line short_line_def)

lemma inner_short: "inner_line l \<Longrightarrow> short_line l"
  by (simp add: inner_line_def file_line_short)

lemma defaults_loop_printed:
  assumes "\<forall>cs\<in>set css. printable_control cs" and "length (cf_def_ctls cf) + length css \<le> MAX_STREAMS"
  shows "defaults_loop (pre @ end_lines (concat (map control_lines_of css)) @ after) (Some (length pre)) (length (pre @ end_lines (concat (map control_lines_of css)))) line cf
    = Inr (0, cf\<lparr>cf_def_ctls := cf_def_ctls cf @ map Some css\<rparr>)"
  using assms
proof (induction css arbitrary: pre line cf)
  case Nil
  then show ?case by (subst defaults_loop.simps) simp
next
  case (Cons cs css)
  define rest where "rest = end_lines (concat (map control_lines_of css))"
  define end_p where "end_p = length (pre @ end_lines (concat (map control_lines_of (cs # css))))"
  define pre1 where "pre1 = pre @ ''[control]'' @ [newline_char]"
  define pre2 where "pre2 = pre1 @ end_lines (print_control cs)"
  define pre3 where "pre3 = pre2 @ ''[end_control]'' @ [newline_char]"
  define buf where "buf = pre @ end_lines (concat (map control_lines_of (cs # css))) @ after"
  have bufs: "buf = pre @ ''[control]'' @ newline_char # end_lines (print_control cs) @ ''[end_control]'' @ newline_char # rest @ after"
    "buf = pre1 @ end_lines (print_control cs) @ ''[end_control]'' @ newline_char # rest @ after"
    "buf = pre2 @ ''[end_control]'' @ newline_char # rest @ after" "buf = pre3 @ rest @ after"
    by (simp_all add: buf_def pre1_def pre2_def pre3_def rest_def control_lines_of_def)
  have ends: "length pre < end_p" "length pre2 < end_p" "end_p = length (pre3 @ rest)" "Suc (length pre + 9) = length pre1" "Suc (length pre2 + 13) = length pre3"
    by (simp_all add: end_p_def pre1_def pre2_def pre3_def rest_def control_lines_of_def)
  have read1: "cnfparser_readline buf (length pre) line = Inr (9, Some ''[control]'')"
    unfolding bufs(1) using readline_at [OF inner_short [OF tags_inner(1)]] by simp
  have read2: "cnfparser_readline buf (length pre2) line' = Inr (13, Some ''[end_control]'')" for line'
    unfolding bufs(3) using readline_at [OF inner_short [OF tags_inner(2)]] by simp
  have "\<forall>l\<in>set (print_control cs). body_line l" using print_control_lines [of cs] Cons.prems(1) by auto
  then have "\<forall>l\<in>set (print_control cs). short_line l \<and> l \<noteq> ''[end_control]''" by (auto simp: body_line_def file_line_short)
  then have seek: "cnfparser_seek_section_end buf (length pre1) end_p ''[end_control]'' = Inr (Some (length pre2))"
    unfolding bufs(2) pre2_def using ends(2) inner_short [OF tags_inner(2)] by (intro seek_result) (simp_all add: pre2_def)
  have parse: "cnfparser_parse_control buf (length pre1) (length pre2) = Inr (0, cs)"
    unfolding bufs(2) pre2_def using Cons.prems(1) by (intro parse_control_printed) simp
  have "defaults_loop buf (Some (length pre)) end_p line cf = defaults_loop buf (Some (length pre2)) end_p (Some ''[control]'') (cf\<lparr>cf_def_ctls := cf_def_ctls cf @ [Some cs]\<rparr>)"
    using Cons.prems(2) ends(1) unfolding defaults_loop.simps [of buf "Some (length pre)"] by (simp add: read1 ends(4) seek parse)
  also have "\<dots> = defaults_loop buf (Some (length pre3)) end_p (Some ''[end_control]'') (cf\<lparr>cf_def_ctls := cf_def_ctls cf @ [Some cs]\<rparr>)"
    using ends(2) unfolding defaults_loop.simps [of buf "Some (length pre2)"] by (simp add: read2 ends(5))
  also have "\<dots> = Inr (0, cf\<lparr>cf_def_ctls := cf_def_ctls cf @ map Some (cs # css)\<rparr>)"
    unfolding bufs(4) ends(3) rest_def using Cons.prems by (subst Cons.IH) simp_all
  finally show ?case unfolding buf_def end_p_def .
qed

section \<open>The file\<close>

definition testset_lines_of :: "alsa_testset \<Rightarrow> string list" where
  "testset_lines_of ts = ''[testset]'' # print_testset ts @ [''[end_testset]'']"

definition config_lines :: "alsa_configuration \<Rightarrow> string list" where
  "config_lines cf = ''[defaults]'' # concat (map (control_lines_of \<circ> the) (cf_def_ctls cf)) @ ''[end_defaults]'' # concat (map testset_lines_of (cf_testsets cf))"

definition print_config :: "alsa_configuration \<Rightarrow> string" where
  "print_config cf = end_lines (config_lines cf)"

definition printable_sections :: "alsa_configuration \<Rightarrow> bool" where
  "printable_sections cf = ((\<forall>ts\<in>set (cf_testsets cf). printable_testset ts)
     \<and> length (cf_def_ctls cf) \<le> MAX_STREAMS \<and> (\<forall>c\<in>set (cf_def_ctls cf). c \<noteq> None \<and> printable_control (the c)))"

definition printable_config :: "alsa_configuration \<Rightarrow> bool" where
  "printable_config cf = (length (cf_testsets cf) \<le> MAGIC_NUMBER \<and> printable_sections cf)"

definition outer_line :: "string \<Rightarrow> bool" where
  "outer_line l = (file_line l)"

lemma outer_tags: "\<forall>l\<in>{''[testset]'', ''[end_testset]'', ''[defaults]'', ''[end_defaults]''}. file_line l"
proof -
  have "\<forall>l\<in>{''[testset]'', ''[end_testset]'', ''[defaults]'', ''[end_defaults]''}. \<forall>c\<in>set l. plain_char c" by (simp add: plain_char_def)
  then have "\<forall>l\<in>{''[testset]'', ''[end_testset]'', ''[defaults]'', ''[end_defaults]''}. piece l" using piece_plain by blast
  then show ?thesis by (simp add: file_line_def MAX_LINE_LEN_def is_kept_def)
qed

text \<open>The number of test sets is not compared with the room in the array: one too many is written behind it.\<close>

lemma sections_loop_testsets:
  assumes "\<forall>ts\<in>set tss. printable_testset ts" and "length (cf_testsets cf) \<le> MAGIC_NUMBER"
    and "buf = pre @ end_lines (concat (map testset_lines_of tss))"
  shows "sections_loop buf (Some (length pre)) line cf =
    (if length (cf_testsets cf) + length tss \<le> MAGIC_NUMBER then Inr (0, cf\<lparr>cf_testsets := cf_testsets cf @ tss\<rparr>)
     else Inl Out_Of_Bounds)"
  using assms
proof (induction tss arbitrary: pre line cf)
  case Nil
  then show ?case by (subst sections_loop.simps) simp
next
  case (Cons ts tss)
  define rest where "rest = end_lines (concat (map testset_lines_of tss))"
  define pre1 where "pre1 = pre @ ''[testset]'' @ [newline_char]"
  define pre2 where "pre2 = pre1 @ end_lines (print_testset ts)"
  define pre3 where "pre3 = pre2 @ ''[end_testset]'' @ [newline_char]"
  have bufs: "buf = pre @ ''[testset]'' @ newline_char # end_lines (print_testset ts) @ ''[end_testset]'' @ newline_char # rest"
    "buf = pre1 @ end_lines (print_testset ts) @ ''[end_testset]'' @ newline_char # rest"
    "buf = pre2 @ ''[end_testset]'' @ newline_char # rest" "buf = pre3 @ rest"
    using Cons.prems(3) by (simp_all add: pre1_def pre2_def pre3_def rest_def testset_lines_of_def [of ts])
  have ends: "length pre < length buf" "length pre2 < length buf" "Suc (length pre + 9) = length pre1" "Suc (length pre2 + 13) = length pre3"
    by (simp_all add: bufs(1) pre1_def pre2_def pre3_def)
  have read1: "cnfparser_readline buf (length pre) line = Inr (9, Some ''[testset]'')"
    unfolding bufs(1) using readline_at [of "''[testset]''"] outer_tags file_line_short by simp
  have read2: "cnfparser_readline buf (length pre2) line' = Inr (13, Some ''[end_testset]'')" for line'
    unfolding bufs(3) using readline_at [of "''[end_testset]''"] outer_tags file_line_short by simp
  have printable: "printable_testset ts" using Cons.prems(1) by simp
  then have "\<forall>l\<in>set (print_testset ts). short_line l \<and> l \<noteq> ''[end_testset]''"
    using testset_lines_inner by (auto simp: inner_line_def file_line_short)
  then have seek: "cnfparser_seek_section_end buf (length pre1) (length buf) ''[end_testset]'' = Inr (Some (length pre2))"
    unfolding pre2_def using ends(2) outer_tags file_line_short by (subst bufs(2), intro seek_result) (simp_all add: pre2_def)
  have "testset_loop buf (Some (length pre1)) (length pre2) None new_token zero_testset = Inr (0, ts)"
  proof -
    obtain line' tk' where "testset_loop buf (Some (length pre1)) (length pre2) None new_token zero_testset = testset_loop buf (Some (length pre2)) (length pre2) line' tk' ts"
      using testset_reads_printed [OF printable] unfolding testset_reads_def bufs(2) pre2_def by blast
    then show ?thesis by (simp add: testset_loop.simps)
  qed
  then have parse: "cnfparser_parse_testset_section cf buf (length pre1) (length pre2)
      = (if length (cf_testsets cf) < MAGIC_NUMBER then Inr (0, cf\<lparr>cf_testsets := cf_testsets cf @ [ts]\<rparr>) else Inl Out_Of_Bounds)"
    by (simp add: cnfparser_parse_testset_section_def not_less)
  show ?case
  proof (cases "length (cf_testsets cf) < MAGIC_NUMBER")
    case False
    then show ?thesis
      using ends(1) unfolding sections_loop.simps [of buf "Some (length pre)"] by (simp add: read1 ends(3) seek parse)
  next
    case True
  have "sections_loop buf (Some (length pre)) line cf = sections_loop buf (Some (length pre2)) (Some ''[testset]'') (cf\<lparr>cf_testsets := cf_testsets cf @ [ts]\<rparr>)"
    using ends(1) True unfolding sections_loop.simps [of buf "Some (length pre)"] by (simp add: read1 ends(3) seek parse)
  also have "\<dots> = sections_loop buf (Some (length pre3)) (Some ''[end_testset]'') (cf\<lparr>cf_testsets := cf_testsets cf @ [ts]\<rparr>)"
    using ends(2) unfolding sections_loop.simps [of buf "Some (length pre2)"] by (simp add: read2 ends(4))
  also have "\<dots> = (if length (cf_testsets cf) + length (ts # tss) \<le> MAGIC_NUMBER
      then Inr (0, cf\<lparr>cf_testsets := cf_testsets cf @ ts # tss\<rparr>) else Inl Out_Of_Bounds)"
    using Cons.prems bufs(4) True by (subst Cons.IH) (simp_all add: rest_def)
  finally show ?thesis .
  qed
qed

lemma sections_loop_config:
  assumes "printable_sections cf"
  shows "sections_loop (print_config cf) (Some 0) None \<lparr>cf_testsets = [], cf_def_ctls = []\<rparr>
    = (if length (cf_testsets cf) \<le> MAGIC_NUMBER then Inr (0, cf) else Inl Out_Of_Bounds)"
proof -
  define css where "css = map the (cf_def_ctls cf)"
  note ok = assms [unfolded printable_sections_def]
  have ctls: "cf_def_ctls cf = map Some css" using ok by (auto simp: css_def map_idI)
  define tsl where "tsl = end_lines (concat (map testset_lines_of (cf_testsets cf)))"
  define pre1 where "pre1 = ''[defaults]'' @ [newline_char]"
  define pre2 where "pre2 = pre1 @ end_lines (concat (map control_lines_of css))"
  define pre3 where "pre3 = pre2 @ ''[end_defaults]'' @ [newline_char]"
  define buf where "buf = print_config cf"
  have bufs: "buf = [] @ ''[defaults]'' @ newline_char # end_lines (concat (map control_lines_of css)) @ ''[end_defaults]'' @ newline_char # tsl"
    "buf = pre1 @ end_lines (concat (map control_lines_of css)) @ ''[end_defaults]'' @ newline_char # tsl"
    "buf = pre2 @ ''[end_defaults]'' @ newline_char # tsl" "buf = pre3 @ tsl"
    by (simp_all add: buf_def print_config_def config_lines_def css_def tsl_def pre1_def pre2_def pre3_def comp_def)
  have ends: "0 < length buf" "length pre2 < length buf" "length pre1 = 11" "Suc (length pre2 + 14) = length pre3"
    by (simp_all add: bufs(1) pre1_def pre2_def pre3_def)
  have read1: "cnfparser_readline buf 0 None = Inr (10, Some ''[defaults]'')"
    unfolding bufs(1) using readline_at [of "''[defaults]''" "[]"] outer_tags file_line_short by simp
  have read2: "cnfparser_readline buf (length pre2) line' = Inr (14, Some ''[end_defaults]'')" for line'
    unfolding bufs(3) using readline_at [of "''[end_defaults]''"] outer_tags file_line_short by simp
  have printable: "\<forall>cs\<in>set css. printable_control cs" using ok by (simp add: css_def)
  then have "\<forall>l\<in>set (concat (map control_lines_of css)). short_line l \<and> l \<noteq> ''[end_defaults]''"
    using control_lines_inner by (fastforce simp: inner_line_def file_line_short)
  then have seek: "cnfparser_seek_section_end buf (length pre1) (length buf) ''[end_defaults]'' = Inr (Some (length pre2))"
    unfolding pre2_def using ends(2) outer_tags file_line_short by (subst bufs(2), intro seek_result) (simp_all add: pre2_def)
  have parse: "cnfparser_parse_defaults_section \<lparr>cf_testsets = [], cf_def_ctls = []\<rparr> buf (length pre1) (length pre2)
      = Inr (0, \<lparr>cf_testsets = [], cf_def_ctls = map Some css\<rparr>)"
    unfolding cnfparser_parse_defaults_section_def bufs(2) pre2_def using printable ok
    by (subst defaults_loop_printed) (simp_all add: ctls)
  have "sections_loop buf (Some 0) None \<lparr>cf_testsets = [], cf_def_ctls = []\<rparr>
      = sections_loop buf (Some (length pre2)) (Some ''[defaults]'') \<lparr>cf_testsets = [], cf_def_ctls = map Some css\<rparr>"
    using ends(1) unfolding sections_loop.simps [of buf "Some 0"] by (simp add: read1 seek [unfolded ends(3)] parse [unfolded ends(3)])
  also have "\<dots> = sections_loop buf (Some (length pre3)) (Some ''[end_defaults]'') \<lparr>cf_testsets = [], cf_def_ctls = map Some css\<rparr>"
    using ends(2) unfolding sections_loop.simps [of buf "Some (length pre2)"] by (simp add: read2 ends(4))
  also have "\<dots> = (if length (cf_testsets cf) \<le> MAGIC_NUMBER then Inr (0, \<lparr>cf_testsets = cf_testsets cf, cf_def_ctls = map Some css\<rparr>)
      else Inl Out_Of_Bounds)"
    using ok by (subst sections_loop_testsets [OF _ _ bufs(4) [unfolded tsl_def]]) simp_all
  also have "\<lparr>cf_testsets = cf_testsets cf, cf_def_ctls = map Some css\<rparr> = cf" using ctls by (cases cf) simp
  finally show ?thesis unfolding buf_def .
qed

section \<open>Cleaning it\<close>

lemma text_lines_end_lines: "\<forall>l\<in>set ls. one_line l \<Longrightarrow> text_lines (end_lines ls) = (ls, [])"
proof (induction ls)
  case (Cons l ls)
  have "text_lines (l @ newline_char # end_lines ls) = (l # ls, [])" if "one_line l" using that
    by (induction l) (use Cons in \<open>auto simp: one_line_def\<close>)
  then show ?case using Cons.prems by simp
qed simp

lemma strip_end_lines: "\<forall>l\<in>set ls. piece l \<Longrightarrow> strip_blanks False (end_lines ls) = end_lines ls"
  by (induction ls) (simp_all add: piece_def Let_def)

lemma trim_file_line: "file_line l \<Longrightarrow> trim l = l"
  by (cases l) (auto simp: file_line_def is_kept_def trim_def)

lemma cleanup_file_lines:
  assumes "\<forall>l\<in>set ls. file_line l"
  shows "cnfparser_cleanup (end_lines ls) = Inr (end_lines ls)"
proof -
  have lines: "text_lines (strip_blanks False (end_lines ls)) = (ls, [])"
    using assms by (simp add: strip_end_lines text_lines_end_lines file_line_def piece_def one_line_def)
  have "map trim ls = ls" using assms trim_file_line by (simp add: map_idI)
  moreover have "filter is_kept ls = ls" using assms by (simp add: filter_id_conv file_line_def)
  moreover have "\<forall>l\<in>set ls. length l < MAX_LINE_LEN" using assms by (simp add: file_line_def)
  ultimately show ?thesis by (simp add: cleanup_result trimmed_lines_def trimmed_rest_def cleaned_def lines trim_def is_kept_def)
qed

lemma config_lines_file:
  assumes "printable_sections cf"
  shows "\<forall>l\<in>set (config_lines cf). file_line l"
proof -
  note ok = assms [unfolded printable_sections_def]
  have "\<forall>l\<in>set (concat (map (control_lines_of \<circ> the) (cf_def_ctls cf))). file_line l"
    using ok control_lines_inner by (fastforce simp: inner_line_def)
  moreover have "file_line l" if "ts \<in> set (cf_testsets cf)" "l \<in> set (testset_lines_of ts)" for ts l
    using that ok testset_lines_inner [of ts l] outer_tags by (auto simp: testset_lines_of_def inner_line_def)
  ultimately show ?thesis using outer_tags by (simp add: config_lines_def ball_Un)
qed

lemma read_printed_sections:
  assumes "printable_sections cf"
  shows "alsa_read_config (Some (print_config cf)) cf0 = (if length (cf_testsets cf) \<le> MAGIC_NUMBER then Inr (0, cf) else Inl Out_Of_Bounds)"
proof -
  have "CHR 0x00 \<notin> set (end_lines ls)" if "\<forall>l\<in>set ls. file_line l" for ls
    using that by (induction ls) (auto simp: file_line_def piece_def)
  then have "CHR 0x00 \<notin> set (print_config cf)" using config_lines_file [OF assms] by (simp add: print_config_def)
  then have "takeWhile (\<lambda>c. c \<noteq> CHR 0x00) (print_config cf) = print_config cf" by (auto simp: takeWhile_eq_all_conv)
  moreover have "cnfparser_cleanup (print_config cf) = Inr (print_config cf)"
    unfolding print_config_def using config_lines_file [OF assms] by (rule cleanup_file_lines)
  ultimately show ?thesis
    by (simp add: alsa_read_config_def cnfparser_parse_sections_def sections_loop_config [OF assms] del: takeWhile_eq_all_conv)
qed

lemma read_printed_config:
  assumes "printable_config cf"
  shows "alsa_read_config (Some (print_config cf)) cf0 = Inr (0, cf)"
  using assms read_printed_sections [of cf cf0] by (simp add: printable_config_def)

section \<open>A test set without an end\<close>

lemma seek_nothing:
  assumes "\<forall>l\<in>set ls. short_line l \<and> l \<noteq> tag" and "one_line r"
  shows "seek_loop (pre @ end_lines ls @ r) (length pre) (length (pre @ end_lines ls @ r)) tag line
    = (if r = [] then Inr None
       else case (if ls = [] then line else Some (last ls)) of None \<Rightarrow> Inl Uninitialised | Some l \<Rightarrow> Inr (if l = tag then Some (length (pre @ end_lines ls)) else None))"
  using assms
proof (induction ls arbitrary: pre line)
  case Nil
  show ?case
    using Nil readline_rest [of r pre line] by (subst seek_loop.simps) (auto simp: seek_loop.simps [of _ "Suc _"] split: option.split)
next
  case (Cons l ls)
  then show ?case
    using Cons.IH [of "pre @ l @ [newline_char]" "Some l"]
    by (subst seek_loop.simps) (simp add: readline_at)
qed

lemma seek_missing:
  assumes "\<forall>l\<in>set ls. short_line l" and "tag \<notin> set ls" and "one_line r"
  shows "cnfparser_seek_section_end (pre @ end_lines ls @ r) (length pre) (length (pre @ end_lines ls @ r)) tag
    = (if ls = [] \<and> r \<noteq> [] then Inl Uninitialised else Inr None)"
proof -
  have "last ls \<noteq> tag" if "ls \<noteq> []" using that assms(2) last_in_set [of ls] by auto
  moreover have "\<forall>l\<in>set ls. short_line l \<and> l \<noteq> tag" using assms(1,2) by blast
  ultimately show ?thesis
    using seek_nothing [of ls tag r pre None] assms(3) by (auto simp: cnfparser_seek_section_end_def)
qed

lemma sections_loop_skip:
  assumes "\<forall>l\<in>set ls. short_line l \<and> l \<notin> {''[testset]'', ''[defaults]''}"
  shows "\<exists>line'. sections_loop (pre @ end_lines ls @ tail) (Some (length pre)) line cf
    = sections_loop (pre @ end_lines ls @ tail) (Some (length (pre @ end_lines ls))) line' cf"
  using assms
proof (induction ls arbitrary: pre line)
  case (Cons l ls)
  obtain line' where "sections_loop ((pre @ l @ [newline_char]) @ end_lines ls @ tail) (Some (length (pre @ l @ [newline_char]))) (Some l) cf
      = sections_loop ((pre @ l @ [newline_char]) @ end_lines ls @ tail) (Some (length ((pre @ l @ [newline_char]) @ end_lines ls))) line' cf"
    using Cons.IH [of "pre @ l @ [newline_char]" "Some l"] Cons.prems by auto
  moreover have "sections_loop (pre @ end_lines (l # ls) @ tail) (Some (length pre)) line cf
      = sections_loop (pre @ end_lines (l # ls) @ tail) (Some (Suc (length pre + length l))) (Some l) cf"
    using Cons.prems unfolding sections_loop.simps [of _ "Some (length pre)"] by (simp add: readline_at)
  ultimately show ?case by (intro exI [of _ line']) simp
qed auto

lemma unended_testset:
  assumes "\<forall>l\<in>set before. short_line l \<and> l \<notin> {''[testset]'', ''[defaults]''}" and "\<forall>l\<in>set after. short_line l" and "''[end_testset]'' \<notin> set after"
    and "one_line r" and "buf = end_lines (before @ ''[testset]'' # after) @ r"
  shows "sections_loop buf (Some 0) None cf = Inl (if after = [] \<and> r \<noteq> [] then Uninitialised else Null_Deref)"
proof -
  define pre where "pre = end_lines before"
  define pre1 where "pre1 = pre @ ''[testset]'' @ [newline_char]"
  have bufs: "buf = pre @ ''[testset]'' @ newline_char # end_lines after @ r" "buf = pre1 @ end_lines after @ r"
    by (simp_all add: assms(5) pre_def pre1_def)
  have start: "length pre < length buf" by (simp add: bufs(1))
  have pos: "Suc (length pre + 9) = length pre1" by (simp add: pre1_def)
  obtain line' where "sections_loop buf (Some 0) None cf = sections_loop buf (Some (length pre)) line' cf"
    using sections_loop_skip [OF assms(1), of "[]" "''[testset]'' @ newline_char # end_lines after @ r" None cf] by (auto simp: bufs(1) pre_def)
  moreover have "cnfparser_readline buf (length pre) line' = Inr (9, Some ''[testset]'')"
    unfolding bufs(1) using readline_at [of "''[testset]''"] outer_tags file_line_short by simp
  moreover have "cnfparser_seek_section_end buf (length pre1) (length buf) ''[end_testset]'' = (if after = [] \<and> r \<noteq> [] then Inl Uninitialised else Inr None)"
    unfolding bufs(2) using assms(2-4) by (rule seek_missing)
  ultimately show ?thesis
    using start unfolding sections_loop.simps [of buf "Some (length pre)"] by (auto simp: pos sections_loop.simps [of buf None])
qed

lemma read_unended_testset:
  assumes "CHR 0x00 \<notin> set s" and "\<forall>l\<in>set (trimmed_lines s). length l < MAX_LINE_LEN"
    and "filter is_kept (trimmed_lines s) = before @ ''[testset]'' # after"
    and "''[testset]'' \<notin> set before" and "''[defaults]'' \<notin> set before" and "''[end_testset]'' \<notin> set after"
  shows "alsa_read_config (Some s) cf = Inl (if after = [] \<and> is_kept (trimmed_rest s) then Uninitialised else Null_Deref)"
proof -
  define r where "r = (if is_kept (trimmed_rest s) then trimmed_rest s else [])"
  have r: "one_line r" "(r \<noteq> []) = is_kept (trimmed_rest s)"
    using text_lines_join [OF surjective_pairing, of "strip_blanks False s"] trim_line
    by (auto simp: r_def trimmed_rest_def is_kept_def one_line_def)
  have kept: "short_line l" if "l \<in> set (before @ ''[testset]'' # after)" for l
  proof -
    have l: "l \<in> set (filter is_kept (trimmed_lines s))" using that assms(3) by simp
    then show ?thesis using assms(2) cleaned_lines [OF l] by (simp add: short_line_def)
  qed
  have "takeWhile (\<lambda>c. c \<noteq> CHR 0x00) s = s" using assms(1) by (auto simp: takeWhile_eq_all_conv)
  moreover have "cnfparser_cleanup s = Inr (end_lines (before @ ''[testset]'' # after) @ r)"
    using assms(2,3) by (simp add: cleanup_result cleaned_def r_def)
  moreover have "sections_loop (end_lines (before @ ''[testset]'' # after) @ r) (Some 0) None \<lparr>cf_testsets = [], cf_def_ctls = []\<rparr>
      = Inl (if after = [] \<and> is_kept (trimmed_rest s) then Uninitialised else Null_Deref)"
    using kept assms(4-6) r by (subst unended_testset [OF _ _ _ _ refl]) auto
  ultimately show ?thesis
    by (simp add: alsa_read_config_def cnfparser_parse_sections_def del: takeWhile_eq_all_conv end_lines_append end_lines_simps)
qed

end
