(* ===== verification/Spec2Isabelle.thy ===== *)
theory Spec2Isabelle
  imports Boxed_Heap Cli_Main Mempool Sync_Reuse Sync_Timed Sync_Daemon Dep_Check Config_Loaded Event_Loop Eapol_Safety Dhcp_Discover
    Alsa_Setup Alsa_Ring Alsa_Control Alsa_Cases Alsa_Conf_File
begin

text \<open>
  The core of the test harness in \<^verbatim>\<open>src/mcts-blts/blts-common/src\<close>, the library every BLTS test program
  is linked with. A test module calls \<^verbatim>\<open>blts_cli_main\<close> with its test cases. The command line picks the
  tests, a configuration file gives parameters with several values, and each selected test is run
  once per combination of values, in a child process with a time limit; results go to the log, the
  console, an XML file and a CSV file. Test processes can wait for each other at named barriers in
  shared memory. Of the test modules, three parts of \<^verbatim>\<open>src/mcts-blts/blts-wlan-core/src\<close> are modelled: the event
  loop, the WPA2 key exchange of the station that a WLAN test plays while it talks to an access point, and
  the search for a DHCP server. Of the sound tests in \<^verbatim>\<open>src/mcts-blts/blts-alsa-core/src\<close>: the configuration file,
  the test cases generated from it, the negotiation with a device, the ring buffer, and setting mixer controls.

  \<^bold>\<open>Theories and the code they model.\<close>
  \<^item> \<open>Prelude\<close>: outcomes of C code (\<open>fault\<close>, \<open>res\<close>), guarded reads, errno values, and the interfaces
    \<open>slot_scan\<close> (a loop that searches an array of slots) and \<open>step_invariant\<close> (an invariant of a step
    relation). \<open>slot_scan\<close> is interpreted on the symbol table, the test cases and the barrier table.
  \<^item> \<open>C_Text\<close>: what the code uses of the C library on text: printing and reading numbers, \<^verbatim>\<open>strchr\<close>,
    \<^verbatim>\<open>strsep\<close>, \<^verbatim>\<open>snprintf\<close>, \<^verbatim>\<open>%lf\<close> on the bits of a double.
  \<^item> \<open>Boxed_Values\<close>, \<open>Boxed_Heap\<close> (\<^verbatim>\<open>blts_params.c\<close>): typed values, their getters and dumps, and the
    linked lists of them in an explicit heap. The other theories use HOL lists for these lists;
    \<open>Boxed_Heap\<close> shows that copying, reversing and freeing do on the heap what the lists say.
  \<^item> \<open>Symbol_Table\<close>, \<open>Symbol_Dump\<close> (\<^verbatim>\<open>blts_params.c\<close>, \<^verbatim>\<open>blts_params_local.h\<close>): the table of symbols, loading
    and freeing a configuration, the getters of global values, and the dump to the trace.
  \<^item> \<open>Permutations\<close>, \<open>Variation\<close> (\<^verbatim>\<open>blts_params.c\<close>): the values of each parameter, the table of
    permutations with its 32-bit sizes, and the list of variants of a test.
  \<^item> \<open>Declare_Tests\<close> (\<^verbatim>\<open>blts_params.c\<close>): declaration of variable tests, registration of generating
    functions, the call of the declared handlers.
  \<^item> \<open>Config_Parser\<close> (\<^verbatim>\<open>param-parser.y\<close>): the semantic actions of the configuration grammar, run in the order a
    bottom-up parser reduces the phrases. \<open>Config_Meaning\<close> states what a configuration means without
    the parser's lists and current symbol, and shows that the actions compute it or count an error; the values
    that globals leave behind, which a parallel test set takes over, are part of the meaning.
    \<open>Config_Loaded\<close> draws the consequences: the table is well formed, and a test has the variants its
    lines say.
  \<^item> \<open>Mempool\<close> (\<^verbatim>\<open>blts_params.c\<close>): the arena of the parser.
  \<^item> \<open>Cli_Text\<close>, \<open>Cli_Run\<close>, \<open>Cli_Main\<close> (\<^verbatim>\<open>blts_cli_frontend.c\<close>): test lists and result lines; waiting for
    a child and running one test with its variants; options, help, listing and the whole command.
  \<^item> \<open>Log_Output\<close> (\<^verbatim>\<open>blts_log.c\<close>), \<open>Csv_Report\<close> (\<^verbatim>\<open>csv_file.c\<close>, \<^verbatim>\<open>blts_reporting.c\<close>), \<open>Results_Xml\<close>
    (\<^verbatim>\<open>blts_results_xml.c\<close>): the outputs.
  \<^item> \<open>Sync_Table\<close>, \<open>Sync_Barrier\<close>, \<open>Sync_Reuse\<close>, \<open>Sync_Timed\<close>, \<open>Sync_Daemon\<close> (\<^verbatim>\<open>blts_sync.c\<close>): the table of named
    barriers; the barrier as interleaved steps of its processes, one step per semaphore operation, with waits that
    are not interrupted; processes that call it again and again, and what an interrupted wait
    (\<^verbatim>\<open>EINTR\<close>) does; the barrier with a time limit; the shared memory with the daemon that owns it and its clients.
  \<^item> \<open>Timing\<close> (\<^verbatim>\<open>blts_timing.c\<close>) and \<open>Dep_Check\<close> (\<^verbatim>\<open>blts_dep_check.c\<close>): the timer and the check of
    dependencies.
  \<^item> \<open>Event_Loop\<close> (\<^verbatim>\<open>wlan-core-eloop.c\<close> of \<^verbatim>\<open>blts-wlan-core\<close>): the event loop of the WLAN tests; its
    counters of signals are 32-bit words.
  \<^item> \<open>Bytes\<close>: memory as lists of bytes, reads and writes that stay inside, numbers in network and host order.
  \<^item> \<open>Dhcp_Packet\<close>, \<open>Dhcp_Options\<close>, \<open>Dhcp_Discover\<close> (\<^verbatim>\<open>wlan-core-dhcp.c\<close>): DHCP in UDP in IP with the checksums, the
    options of messages, and the loop of \<^verbatim>\<open>send_dhcp_discover\<close> as steps, each with what the kernel answers. The local
    variable that messages are received in keeps what it held where a message is too short to cover it.
  \<^item> \<open>Sha1\<close>, \<open>Wpa_Keys\<close>, \<open>Aes_Tables\<close>, \<open>Aes\<close> (\<^verbatim>\<open>wlan-core-crypto.c\<close>): the hash and the keys derived with it; the
    tables, block decryption and unwrapping of keys. \<open>Sha1_Spec\<close> and \<open>Aes_Spec\<close> state FIPS 180 and FIPS 197,
    \<open>Aes_Correct\<close> and \<open>Key_Unwrap\<close> relate the code to FIPS 197 and RFC 3394; the latter is proved for any
    \<open>block_cipher\<close>, an interface interpreted on the code's decryption.
  \<^item> \<open>Eapol_Frames\<close>, \<open>Eapol_Ies\<close>, \<open>Eapol\<close> (\<^verbatim>\<open>wlan-core-eapol.c\<close>, \<^verbatim>\<open>wpa_decrypt_eapol_key_data\<close>): frames as bytes, the
    elements in them, and the state machine of the station. \<open>Eapol_Members\<close> writes and reads frames
    built from values, \<open>Eapol_Handshake\<close> states the access point of IEEE 802.11i and runs the station
    against it, \<open>Eapol_Safety\<close> is about frames from anybody.
  \<^item> \<open>Alsa_Conf\<close>, \<open>Alsa_Sections\<close> (\<^verbatim>\<open>alsa_conf_file.c\<close>, \<^verbatim>\<open>alsa_config.h\<close>, the names in \<^verbatim>\<open>alsa_util.c\<close>): cleaning the text,
    lines and tokens; the sections and the whole file. \<open>Alsa_Conf_Fits\<close> shows that the C structures hold what was
    read without a fault (a store behind an array is one, also where the program has no check and writes on), with the
    interface \<open>line_contract\<close> for the functions that take one line; \<open>Alsa_Conf_Text\<close> gives the
    cleaning a meaning by lines; \<open>Alsa_Conf_Print\<close>, \<open>Alsa_Conf_Roundtrip\<close> write a configuration, with the interface
    \<open>list_field\<close> for lists of values, and \<open>Alsa_Conf_File\<close> reads it back.
  \<^item> \<open>Alsa_Cases\<close> (\<^verbatim>\<open>blts_alsa_core_test.c\<close>): the test cases generated from the configuration.
  \<^item> \<open>Alsa_Params\<close>, \<open>Alsa_Pcm\<close> (\<^verbatim>\<open>alsa_util.c\<close>, \<^verbatim>\<open>alsa_pcm.c\<close>): masks and intervals of the parameters of a device, the
    negotiation, generated samples and the ring buffer. \<open>Alsa_Refine\<close>, \<open>Alsa_Masks\<close> give them the meaning of sets,
    \<open>Alsa_Setup\<close>, \<open>Alsa_Ring\<close> show what the negotiation grants and where written frames go.
  \<^item> \<open>Alsa_Control\<close> (\<^verbatim>\<open>alsa_control.c\<close>, \<^verbatim>\<open>alsa_test_cases.c\<close>): finding a mixer element and setting it.

  \<^bold>\<open>How state and operations correspond.\<close> The static variables of a file are a record, and each
  function takes and returns it. A function that can do what C leaves undefined, or fail an
  \<^verbatim>\<open>assert\<close>, returns a \<open>res\<close>: \<open>Inl\<close> the fault or \<open>Inr\<close> the result. Error codes are the negated errno
  values of Linux. \<^verbatim>\<open>int\<close> and \<^verbatim>\<open>unsigned\<close> have 32 bits and \<^verbatim>\<open>long\<close> 64; arithmetic that can wrap is on
  words or written with \<open>u32\<close>. Pointers to symbol table entries are indices; entries are never moved
  or removed while the table lives. Function pointers are identities, and what they compute is an
  argument. A pointer that may be NULL is an option.

  \<^bold>\<open>What is an argument.\<close> The results of system calls, the clock, the behaviour of child processes, the
  file system, libxml2, the encoder for XML text, the user's handlers and generating functions. Of
  the parser, the scanner and bison's tables are arguments: a configuration is given by its phrases,
  and what the parser does after a syntax error is any function that keeps the count of errors.
  \<^verbatim>\<open>malloc\<close> of small blocks is taken to succeed.

  \<^bold>\<open>Bounds and fuel.\<close> \<open>generate_variations\<close> recurses over the table with a fuel that stands for the depth
  of the C stack; running out of it is \<open>Stack_Overflow\<close>. In a table whose generated parameters refer to
  earlier entries only, a depth above the parameter's index is enough (C6). Loops over linked lists in
  the heap are \<open>partial_function (option)\<close>, where \<open>None\<close> is a loop that does not end. The barrier needs
  no fuel: every run of n processes is at most n (2 n + 11) steps long (C8).

  \<^bold>\<open>What the theorems show.\<close> C1 to C6 and C17: what a command runs and returns, the verdict on a
  test, the values and the number of variants, and what declarations leave in the table. C7 to C11: the
  barrier and its table. C9: it cannot be used
  a second time by three processes or more. C12 and C13: lists in the heap and the arena. C14 to C16: parsing a
  configuration. C18: the shared memory of the test processes. C19 and C20: the event loop. C21 to C24: the hash,
  the master key, the block cipher and the unwrapping of keys compute their standards. C25 to C27: the key exchange
  with an access point, the checks on what it accepts, and a way it goes wrong. C28 to C31: the messages of the
  DHCP client, when its search ends, and a packet that overruns it. C32 to C36: the configuration file of the sound
  tests, where it crashes the program (C32, C34, C35), and the cases made from it. C37 to C40: mixer controls and the parameters of sound devices. The theorems
  without a number state further facts of the same kinds. A property that says the code does
  something it should not is stated as such and is listed among the findings.

  \<^bold>\<open>Not modelled.\<close> The SIGSEGV handler, saving and restoring of SIGCHLD; log messages
  of the components other than the log itself and the dumps. Of the WLAN tests: reading the socket and
  the thread around the key exchange, netlink and scanning. Of the sound tests: the wrappers of \<^verbatim>\<open>ioctl\<close>, timers,
  asynchronous and threaded playing and recording, routing over bluetooth and the tuner, and printing of elements. The
  other packages of the repository call the kernel, a device or a library and look at the answer.
\<close>

section \<open>Sample inputs of the witnesses\<close>

definition sample_tm :: tm where
  "sample_tm = \<lparr>tm_mday = 2, tm_mon = 0, tm_year = 111, tm_hour = 3, tm_min = 4, tm_sec = 5\<rparr>"

text \<open>
  A module with one test, which passes when its only parameter is 7: the argument handler turns the
  value into the user pointer, and the test's child process looks at it.
\<close>

definition sample_handlers :: "nat handlers" where
  "sample_handlers = \<lparr>call_arg_handler = (\<lambda>_ vs p. case vs of [Boxed_Int w] \<Rightarrow> Some (unat w) | _ \<Rightarrow> p),
     call_tagged_handler = (\<lambda>_ _ _ p. p)\<rparr>"

definition sample_env :: "nat cli_env" where
  "sample_env = \<lparr>te_lib = (\<lambda>_. 0), te_enc = Some, te_gen = (\<lambda>_ _. None), te_fuel = 0,
     te_handlers = sample_handlers, te_case = (\<lambda>_ p _. (3, Exits (if p = Some 7 then 0 else 1))),
     te_fork = (\<lambda>_. True), te_clock = (\<lambda>_. sample_tm), ce_parse = (\<lambda>st _. (st, 0)), ce_file = (\<lambda>_. None),
     ce_open_errno = (\<lambda>_. 2), ce_config_dir = ''/etc'', ce_log_fopen = (\<lambda>_. True), ce_log_dir = True,
     ce_xml_writable = (\<lambda>_. False), ce_xml_parsed = (\<lambda>_. None), ce_csv = all_succeed,
     ce_sync_master = (\<lambda>_. 0), ce_sync_client = 0\<rparr>"

definition sample_case :: testcase where
  "sample_case = \<lparr>case_name = ''t'', case_func = 1, case_timeout = 1000\<rparr>"

definition sample_module :: "nat cli_module" where
  "sample_module = \<lparr>m_tests = [sample_case], m_help = False,
     m_process = Some (declares ''t'' 1 [(''p'', D_Int 7)] 0), m_log_file = None, m_timeout = 0\<rparr>"

definition sample_world :: cli_world where
  "sample_world = \<lparr>w_config = initial_config, w_xml = initial_xml, w_stdout = [],
     w_log = initial_log (\<lambda>_. ''''), w_csv = \<lparr>csv_file = None, csv_disk = (\<lambda>_. None)\<rparr>\<rparr>"

lemmas sample_defs = sample_tm_def sample_handlers_def sample_env_def sample_case_def sample_module_def sample_world_def

section \<open>The command line and the tests it runs\<close>

text \<open>
  C1. A module whose argument callback declares one variable test with default values, started
  without arguments and without a configuration file, runs that test once, with exactly those
  defaults handed to its argument handler, and returns 0 if the child passes and 1 if not.
\<close>

theorem main_runs_declared_test:
  assumes "no_config env argv0" and "w_config w = initial_config"
    and "m_process m = Some (declares name h ds u)" and "m_tests m = [tc]" and "case_name tc = name"
    and "ds \<noteq> []" and "distinct (name # map fst ds)" and "length ds < SYMBOL_TABLE_MAX"
    and "\<And>i. te_fork env i"
  shows "\<exists>w'. blts_cli_main env m [argv0] w = Inr (w',
     if variant_passes env (declared_config name (Some h) ds) tc 1 (real_timeout (m_timeout m) tc) (Some u)
          (map (\<lambda>d. default_value (snd d)) ds) then 0 else 1)"
  using assms by (rule main_declared_test)

lemma sample_passes:
  "variant_passes sample_env (declared_config ''t'' (Some 1) [(''p'', D_Int 7)]) sample_case 1 1000 (Some 0)
     [Boxed_Int 7]"
  by (simp add: variant_passes_def run_variant_def mutate_user_params_def declared_config_def
      reverse_declared_def declared_test_def sample_defs wait_for_child)

theorem main_runs_declared_test_witness:
  "\<exists>w'. blts_cli_main sample_env sample_module [''./t''] sample_world = Inr (w', 0)"
proof -
  have "\<exists>w'. blts_cli_main sample_env sample_module [''./t''] sample_world = Inr (w',
     if variant_passes sample_env (declared_config ''t'' (Some 1) [(''p'', D_Int 7)]) sample_case 1
          (real_timeout (m_timeout sample_module) sample_case) (Some 0)
          (map (\<lambda>d. default_value (snd d)) [(''p'', D_Int 7)]) then 0 else 1)"
    by (rule main_runs_declared_test)
      (simp_all add: no_config_def sample_defs SYMBOL_TABLE_MAX_def initial_config_def)
  then show ?thesis using sample_passes by (simp add: real_timeout_def sample_case_def sample_module_def)
qed

text \<open>
  C2. Running a test with variants: every variant is run once, in order; the result is 0 exactly if
  all of them pass, each failed one has its line with its number on the standard output, and the
  line of the test comes last. The configuration is not touched.
\<close>

theorem run_test_runs_all_variants:
  assumes "test_is_variable (w_config w) (case_name tc)"
    and "config_generate_test_variations (te_gen env) (te_fuel env) (w_config w) (case_name tc)
        CONFIG_VARIATION_COMBINATIONS = Inr vs"
    and "config_get_test_param_names (w_config w) (case_name tc) = Inr names"
    and "vs \<noteq> []" and "\<forall>v\<in>set vs. v \<noteq> []" and "\<And>i. te_fork env i"
  shows "\<exists>w'. run_test env manual override bin testnum tc p cmdline w =
      Inr (w', if \<forall>v\<in>set vs. variant_passes env (w_config w) tc testnum (real_timeout override tc) p v then 0 else 1)
    \<and> w_config w' = w_config w
    \<and> w_stdout w' = w_stdout w @ concat (map (\<lambda>k. print_test_case_result manual bin (case_name tc) testnum (int k) 1)
        (failing_numbers (variant_passes env (w_config w) tc testnum (real_timeout override tc) p) vs))
      @ print_test_case_result manual bin (case_name tc) testnum (- 1)
        (if \<forall>v\<in>set vs. variant_passes env (w_config w) tc testnum (real_timeout override tc) p v then 0 else 1)"
  using assms by (rule run_test_verdict)

definition sample_config :: config_state where
  "sample_config = declared_config ''t'' (Some 1) [(''p'', D_Int 7)]"

lemma sample_config_facts:
  "test_is_variable sample_config ''t''"
  "config_generate_test_variations gen fuel sample_config ''t'' CONFIG_VARIATION_COMBINATIONS = Inr [[Boxed_Int 7]]"
  "config_get_test_param_names sample_config ''t'' = Inr [Boxed_String ''p'']"
  using declared_is_variable [of "[(''p'', D_Int 7)]" "''t''" "Some 1"]
    declared_variants [of "[(''p'', D_Int 7)]" gen fuel "''t''" "Some 1"]
    declared_names [of "[(''p'', D_Int 7)]" "''t''" "Some 1"]
  by (simp_all add: sample_config_def SYMBOL_TABLE_MAX_def)

theorem run_test_runs_all_variants_witness:
  "\<exists>w'. run_test sample_env False 0 ''b'' 1 sample_case (Some 0) ''b'' (sample_world\<lparr>w_config := sample_config\<rparr>)
     = Inr (w', 0) \<and> w_stdout w' = [result_line ''b'' ''t'' 1 (- 1) 0 @ ''\<newline>'']"
proof -
  let ?w = "sample_world\<lparr>w_config := sample_config\<rparr>"
  let ?pass = "variant_passes sample_env (w_config ?w) sample_case 1 (real_timeout 0 sample_case) (Some 0)"
  have pass: "?pass [Boxed_Int 7]" using sample_passes by (simp add: sample_config_def real_timeout_def sample_case_def)
  have name: "case_name sample_case = ''t''" by (simp add: sample_case_def)
  have "\<exists>w'. run_test sample_env False 0 ''b'' 1 sample_case (Some 0) ''b'' ?w =
      Inr (w', if \<forall>v\<in>set [[Boxed_Int 7]]. ?pass v then 0 else 1)
    \<and> w_config w' = w_config ?w
    \<and> w_stdout w' = w_stdout ?w @ concat (map (\<lambda>k. print_test_case_result False ''b'' (case_name sample_case) 1 (int k) 1)
        (failing_numbers ?pass [[Boxed_Int 7]]))
      @ print_test_case_result False ''b'' (case_name sample_case) 1 (- 1)
        (if \<forall>v\<in>set [[Boxed_Int 7]]. ?pass v then 0 else 1)"
    by (rule run_test_runs_all_variants [where names = "[Boxed_String ''p'']"])
      (simp_all add: name sample_config_facts sample_env_def)
  then show ?thesis
    using pass by (simp add: failing_numbers_def name print_test_case_result_def sample_world_def) blast
qed

text \<open>
  C3. Waiting for a child that the parent finds running k times: the result is 1 and the child is
  killed if the limit is not 0 and is passed by the time its end is noticed (100 ms after each poll,
  the one that reaps the child included); otherwise it is 0 exactly if the status word is 0.
\<close>

theorem wait_for_completion_verdict:
  assumes "100 * (k + 1) < 2 ^ 32"
  shows "wait_for_test_case_completion (child_polls k e) timeout =
     (if timeout \<noteq> 0 \<and> timeout < 100 * (k + 1) then (1, True)
      else (if wait_status e \<noteq> 0 then 1 else 0, False))"
  using assms by (rule wait_for_child)

theorem wait_for_completion_verdict_witness:
  "wait_for_test_case_completion (child_polls 9 (Exits 0)) 1000 = (0, False)
   \<and> wait_for_test_case_completion (child_polls 10 (Exits 0)) 1000 = (1, True)
   \<and> wait_for_test_case_completion (child_polls 0 (Exits 256)) 0 = (0, False)"
  using wait_for_completion_verdict [of 9 "Exits 0" 1000] wait_for_completion_verdict [of 10 "Exits 0" 1000]
    wait_for_completion_verdict [of 0 "Exits 256" 0] by simp

section \<open>Declaring tests and generating their variants\<close>

text \<open>
  C4. Declaring a test with default values when no configuration was loaded: the call succeeds, the
  test has its parameters under the names given, in order, and, in the style the harness runs tests
  with, exactly one variant: the default values. It counts as variable if it has a handler.
\<close>

theorem declare_without_config_gives_defaults:
  assumes "ds \<noteq> []" and "distinct (name # map fst ds)" and "length ds < SYMBOL_TABLE_MAX"
  shows "\<exists>st. declare_variable_test initial_config (Some name) h (declaration_args ds) = Inr (st, 0)
     \<and> config_generate_test_variations gen fuel st name CONFIG_VARIATION_COMBINATIONS
         = Inr [map (\<lambda>d. default_value (snd d)) ds]
     \<and> config_get_test_param_names st name = Inr (map (\<lambda>d. Boxed_String (fst d)) ds)
     \<and> (test_is_variable st name \<longleftrightarrow> h \<noteq> None)"
  by (intro exI [of _ "declared_config name h ds"] conjI declare_without_config declared_variants declared_names
      declared_is_variable assms)

theorem declare_without_config_gives_defaults_witness:
  "\<exists>st. declare_variable_test initial_config (Some ''t'') (Some 1)
       [VA_Int 0, VA_Str (Some ''n''), VA_Int 5, VA_Int 4, VA_Str (Some ''s''), VA_Str (Some ''x''), VA_Int 6] = Inr (st, 0)
     \<and> config_generate_test_variations (\<lambda>_ _. None) 0 st ''t'' CONFIG_VARIATION_COMBINATIONS
         = Inr [[Boxed_Int 5, Boxed_String ''x'']]"
proof -
  let ?ds = "[(''n'', D_Int 5), (''s'', D_String ''x'')]"
  have args: "declaration_args ?ds = [VA_Int 0, VA_Str (Some ''n''), VA_Int 5, VA_Int 4, VA_Str (Some ''s''),
      VA_Str (Some ''x''), VA_Int 6]" by (simp add: declaration_args_def)
  have vals: "map (\<lambda>d. default_value (snd d)) ?ds = [Boxed_Int 5, Boxed_String ''x'']" by simp
  have "?ds \<noteq> []" and "distinct (''t'' # map fst ?ds)" and "length ?ds < SYMBOL_TABLE_MAX"
    by (simp_all add: SYMBOL_TABLE_MAX_def)
  from declare_without_config_gives_defaults [OF this, of "Some 1" "\<lambda>_ _. None" 0]
  show ?thesis unfolding args vals by blast
qed

text \<open>
  C5. Combining parameters: if no parameter is without values and the table's size fits in 32 bits,
  the variants are the Cartesian product of the parameters' values, each combination exactly once.
\<close>

theorem variants_are_product:
  assumes "table_fits (map (\<lambda>p. length (tp_values p)) params)" and "[] \<notin> tp_values ` set params"
  shows "\<exists>vs. all_variants params = Inr vs
     \<and> mset vs = mset (product_lists (map tp_values params))
     \<and> length vs = prod_list (map (\<lambda>p. length (tp_values p)) params)"
  using all_variants_fits [OF assms(1)] assms(2) by (simp add: mset_odometer length_odometer comp_def)

theorem variants_are_product_witness:
  "\<exists>vs. all_variants [\<lparr>tp_param = 0, tp_values = [Boxed_Int 1, Boxed_Int 2]\<rparr>,
        \<lparr>tp_param = 1, tp_values = [Boxed_Bool 0, Boxed_Bool 1, Boxed_String ''x'']\<rparr>] = Inr vs \<and> length vs = 6"
  using variants_are_product [of "[\<lparr>tp_param = 0, tp_values = [Boxed_Int 1, Boxed_Int 2]\<rparr>,
        \<lparr>tp_param = 1, tp_values = [Boxed_Bool 0, Boxed_Bool 1, Boxed_String ''x'']\<rparr>]"]
  by (auto simp: table_fits_def)

text \<open>
   When the byte size of the permutation table does not fit in an \<^verbatim>\<open>unsigned\<close>, too little is
  allocated and filling the table writes past its end.
\<close>

theorem permutation_table_overflow:
  assumes "length params * 4 < 2 ^ 32"
    and "2 ^ 32 \<le> count_permutations (map (\<lambda>p. length (tp_values p)) params) * (4 * length params)"
  shows "all_variants params = Inl Out_Of_Bounds"
  using assms by (rule all_variants_overflow)

theorem permutation_table_overflow_witness:
  "let p = \<lparr>tp_param = 0, tp_values = replicate 128 (Boxed_Int 0)\<rparr>
   in all_variants [p, p, p, p] = Inl Out_Of_Bounds"
  unfolding Let_def by (rule permutation_table_overflow) (simp_all add: count_permutations_def u32_def)

text \<open>
  C6. Generated parameters recurse over the table. In a table whose generated parameters use only
  earlier entries, a stack of one frame more than the index of the parameter suffices: the recursion
  ends, and more stack gives the same values.
\<close>

theorem generation_terminates:
  assumes "backward_refs st" and "r < fuel"
  shows "generate_variations gen fuel st r style \<noteq> Inl Stack_Overflow
     \<and> generate_variations gen fuel st r style = generate_variations gen (Suc r) st r style"
  using generate_variations_no_overflow [OF assms] generate_variations_fuel [OF assms(1), of r "fuel - 1"] assms(2)
  by simp

definition sample_generated :: config_state where
  "sample_generated = \<lparr>symbol_table = Some
     [\<lparr>sym_key = ''g'', sym_def = SYM_TYPE_GENERATOR_FN 3\<rparr>,
      \<lparr>sym_key = ''n'', sym_def = SYM_TYPE_PARAM \<lparr>pd_type = CONFIG_PARAM_INT,
         pd_mode = PARAM_MODE_CONSTLIST [Boxed_Int 1, Boxed_Int 2]\<rparr>\<rparr>,
      \<lparr>sym_key = ''m'', sym_def = SYM_TYPE_PARAM \<lparr>pd_type = CONFIG_PARAM_INT,
         pd_mode = PARAM_MODE_GENERATED ''g'' [1]\<rparr>\<rparr>], config_load_complete = True\<rparr>"

theorem generation_terminates_witness:
  "generate_variations (\<lambda>_ vs. Some (hd vs)) 10 sample_generated 2 CONFIG_VARIATION_COMBINATIONS
     = generate_variations (\<lambda>_ vs. Some (hd vs)) 3 sample_generated 2 CONFIG_VARIATION_COMBINATIONS"
proof -
  have "backward_refs sample_generated"
    by (auto simp: backward_refs_def sample_generated_def sym_at_def nth_res_def nth_Cons split: if_splits nat.splits)
  from generation_terminates [OF this, of 2 10 "\<lambda>_ vs. Some (hd vs)" CONFIG_VARIATION_COMBINATIONS]
  show ?thesis by (simp add: eval_nat_numeral)
qed

section \<open>Synchronising test processes\<close>

text \<open>
  C7. The barrier is a barrier: for any number of registered processes that each wait once, and any
  interleaving of their steps, when one of them is on its way back every one of them has arrived.
\<close>

theorem barrier_nobody_leaves_early:
  assumes "0 < n" and "barrier_step\<^sup>*\<^sup>* (barrier_start n) s"
    and "r < n" and "returning (pcs s ! r)" and "q < n"
  shows "arrived (pcs s ! q)"
proof -
  have inv: "barrier_inv n s" by (rule barrier_inv_reachable [OF assms(1,2)])
  then have "length (pcs s) = n" by (simp add: barrier_inv_def)
  with assms(3,5) have "pcs s ! r \<in> set (pcs s)" "pcs s ! q \<in> set (pcs s)" by simp_all
  with barrier_inv_safe [OF inv] assms(4) show ?thesis by blast
qed

lemma first_round_pcs: "pcs (run_schedule first_round (barrier_start 3)) = [Left True, Left False, F_Wait]"
  by code_simp

theorem barrier_nobody_leaves_early_witness:
  "returning (pcs (run_schedule first_round (barrier_start 3)) ! 0)
   \<and> arrived (pcs (run_schedule first_round (barrier_start 3)) ! 2)"
  using barrier_nobody_leaves_early [of 3 "run_schedule first_round (barrier_start 3)" 0 2]
  by (simp add: run_schedule_reach first_round_pcs)

text \<open>
  C8. Nobody waits for ever: a run of n processes has at most n (2 n + 11) steps, and one that cannot
  be continued has brought every process back from its call.
\<close>

theorem barrier_all_return:
  assumes "0 < n" and "(barrier_step ^^ k) (barrier_start n) s"
  shows "k \<le> n * (2 * n + 11) \<and> ((\<nexists>t. barrier_step s t) \<longrightarrow> (\<forall>q<n. \<exists>l. pcs s ! q = Left l))"
proof (intro conjI impI allI)
  have "int k \<le> int n * (2 * int n + 11)"
    using barrier_run_length [OF assms] barrier_work_nonneg [of n s] by linarith
  then show "k \<le> n * (2 * n + 11)" by (metis (mono_tags, lifting) of_nat_add of_nat_le_iff of_nat_mult of_nat_numeral)
next
  fix q assume no: "\<nexists>t. barrier_step s t" and "q < n"
  have inv: "barrier_inv n s" using assms barrier_inv_reachable relpowp_imp_rtranclp by metis
  have "stuck s" unfolding stuck_def
  proof (intro allI impI)
    fix p show "proc_step p s = None"
    proof (cases "proc_step p s")
      case (Some t)
      then have "barrier_step s t" by (rule barrier_step.run)
      with no show ?thesis by blast
    qed
  qed
  with stuck_all_left [OF inv] \<open>q < n\<close> inv show "\<exists>l. pcs s ! q = Left l" by (simp add: barrier_inv_def)
qed

theorem barrier_all_return_witness:
  "\<exists>k\<le>13. (barrier_step ^^ k) (barrier_start 1) (run_schedule (replicate 13 0) (barrier_start 1))
     \<and> pcs (run_schedule (replicate 13 0) (barrier_start 1)) = [Left True]"
proof -
  have pc: "pcs (run_schedule (replicate 13 0) (barrier_start 1)) = [Left True]"
    by code_simp
  obtain k where k: "(barrier_step ^^ k) (barrier_start 1) (run_schedule (replicate 13 0) (barrier_start 1))"
    using rtranclp_imp_relpowp [OF run_schedule_reach] by blast
  from barrier_all_return [OF _ k] have "k \<le> 13" by simp
  with k pc show ?thesis by blast
qed

text \<open>
  C9. The same barrier used a second time is not: whatever their number \<open>n\<close>, from three on, \<open>n\<close>
  processes that synchronise twice on the same barrier can lock up for ever. A fast process takes in the
  second round the departure signal that was meant for a slow one in the first. In the state that is
  reached process 0 has returned from both rounds, the last one still waits in the first, those
  between are in the second, one waiting as its leader for the one arrival that never comes and the
  others for its departure signal, and no process can move.
\<close>

theorem barrier_reuse_fails:
  assumes "3 \<le> n"
  shows "\<exists>k s. caller_step\<^sup>*\<^sup>* (callers n 2) (k, s) \<and> (\<forall>x. \<not> caller_step (k, s) x) \<and>
    k ! 0 = 0 \<and> pcs s ! 0 = Left False \<and>
    k ! (n - 1) = 1 \<and> pcs s ! (n - 1) = F_Wait \<and>
    k ! 1 = 0 \<and> pcs s ! 1 = L_Wait 1 \<and>
    (\<forall>p. 2 \<le> p \<longrightarrow> p < n - 1 \<longrightarrow> k ! p = 0 \<and> pcs s ! p = F_Wait)"
  by (rule exI, rule exI, intro conjI, rule second_round_reached [OF assms])
    (use assms second_round_stuck [OF assms] in \<open>auto simp: free_state_def nth_append\<close>)

theorem barrier_reuse_fails_witness:
  "\<exists>k s. caller_step\<^sup>*\<^sup>* (callers 3 2) (k, s) \<and> (\<forall>x. \<not> caller_step (k, s) x) \<and>
    pcs s ! 0 = Left False \<and> pcs s ! 1 = L_Wait 1 \<and> pcs s ! 2 = F_Wait"
  using barrier_reuse_fails [of 3] by auto

text \<open>
   \<^verbatim>\<open>barrier_sync_to\<close> enters with the master semaphore held. If its first wait, for the barrier's
  mutex, times out, it goes on to take the master semaphore again without having given it back:
  from then on, whatever anybody does, that process is blocked for ever.
\<close>

theorem barrier_to_self_deadlock:
  assumes "p < length (pcs s)" and "pcs s ! p = T_Lock_B" and "b_mutex s = 0" and "sync_mutex s = 0"
    and "\<forall>q<length (pcs s). q \<noteq> p \<longrightarrow> \<not> t_holds_sync (pcs s ! q)"
  shows "\<exists>t. timed_step (Some ETIMEDOUT) p s = Some t \<and>
     (\<forall>u. barrier_to_step\<^sup>*\<^sup>* t u \<longrightarrow> pcs u ! p = T_Relock (- ETIMEDOUT) \<and> (\<forall>fail. timed_step fail p u = None))"
  using first_lock_timeout [OF assms] self_blocked_forever by blast

definition sample_timed :: timed_state where
  "sample_timed = \<lparr>sync_mutex = 0, b_mutex = 0, b_arrive = 0, b_depart = 0, b_active = True, b_refcount = 2,
     pcs = [T_Lock_B, TL_Signal 1]\<rparr>"

theorem barrier_to_self_deadlock_witness:
  "\<exists>t. timed_step (Some ETIMEDOUT) 0 sample_timed = Some t \<and>
     (\<forall>u. barrier_to_step\<^sup>*\<^sup>* t u \<longrightarrow> pcs u ! 0 = T_Relock (- ETIMEDOUT) \<and> (\<forall>fail. timed_step fail 0 u = None))"
  by (rule barrier_to_self_deadlock) (auto simp: sample_timed_def nth_Cons split: nat.splits)

text \<open>
  C10. Registering a tag, as long as the names in use are prefix-free in their first 16 characters:
  the result is the index of the slot that holds that name from then on, the first one a search for it finds,
  with the count of the name one up; no other slot changes, and so no other count. (The comment over the
  function promises 0 on success; what it passes on is the index.)
\<close>

theorem add_tag_counts:
  assumes "prefix_free U" and "table_ok U bs" and "t \<in> U"
    and "tag_users bs t \<noteq> 0 \<or> (\<exists>b\<in>set bs. refcount b = 0)" and "tag_users bs t + 1 < 2 ^ 32"
  shows "\<exists>bs' i. sync_add_tag True None t bs = Inr (bs', int i) \<and> i < length bs \<and> length bs' = length bs
     \<and> tb_tag (bs' ! i) = take SYNC_TAG_LEN t \<and> refcount (bs' ! i) = tag_users bs t + 1
     \<and> find_tagged_barrier t bs' = Some i \<and> (\<forall>j. j \<noteq> i \<longrightarrow> bs' ! j = bs ! j)
     \<and> table_ok U bs' \<and> (\<forall>u\<in>U. tag_users bs' u = (if u = t then tag_users bs t + 1 else tag_users bs u))"
  using tagged_barrier_ref_counts [OF assms] by (simp add: sync_add_tag_def)

definition sample_table :: barrier_table where
  "sample_table = [zero_barrier\<lparr>tb_mutex := 1, refcount := 2, tb_tag := ''default''\<rparr>, zero_barrier]"

lemma sample_table_ok: "table_ok {''default'', ''x''} sample_table" "prefix_free {''default'', ''x''}"
  by (auto simp: table_ok_def sample_table_def zero_barrier_def SYNC_TAG_LEN_def prefix_free_def nth_Cons
      split: nat.splits)

lemma sample_table_users: "tag_users sample_table ''x'' = 0" "tag_users sample_table ''default'' = 2"
  by (simp_all add: tag_users_def sample_table_def zero_barrier_def tag_len_def SYNC_TAG_LEN_def strn_eq_def)

theorem add_tag_counts_witness:
  "\<exists>bs' i. sync_add_tag True None ''x'' sample_table = Inr (bs', int i) \<and> find_tagged_barrier ''x'' bs' = Some i
     \<and> tag_users bs' ''x'' = 1 \<and> tag_users bs' ''default'' = 2"
proof -
  have "\<exists>b\<in>set sample_table. refcount b = 0" by (simp add: sample_table_def zero_barrier_def)
  with add_tag_counts [OF sample_table_ok(2,1), of "''x''"] obtain bs' i where
    "sync_add_tag True None ''x'' sample_table = Inr (bs', int i)"
    and "find_tagged_barrier ''x'' bs' = Some i" and "\<forall>u\<in>{''default'', ''x''}. tag_users bs' u =
      (if u = ''x'' then tag_users sample_table ''x'' + 1 else tag_users sample_table u)"
    by (auto simp: sample_table_users)
  then show ?thesis by (intro exI [of _ bs'] exI [of _ i]) (simp add: sample_table_users)
qed

text \<open>
  C11. Deregistering, under the same condition: the count of the name goes down by one, or stays 0,
  and no other count changes.
\<close>

theorem del_tag_counts:
  assumes "prefix_free U" and "table_ok U bs" and "t \<in> U" and "sync_del_tag True t bs = (bs', ret)"
  shows "ret = 0 \<and> table_ok U bs'
     \<and> (\<forall>u\<in>U. tag_users bs' u = (if u = t then tag_users bs t - 1 else tag_users bs u))"
  using tagged_barrier_unref_counts [OF assms(1-3)] assms(4) by (auto simp: sync_del_tag_def)

theorem del_tag_counts_witness:
  "tag_users (fst (sync_del_tag True ''default'' sample_table)) ''default'' = 1"
  using del_tag_counts [OF sample_table_ok(2,1), of "''default''" "fst (sync_del_tag True ''default'' sample_table)"
      "snd (sync_del_tag True ''default'' sample_table)"]
  by (simp add: sample_table_users)

text \<open>
   Without that condition the table mixes names up: a tag that is a prefix of another one is
  found in its place, so that dropping the tag \<^verbatim>\<open>d\<close>, which nobody registered, takes a user away from
  the barrier \<^verbatim>\<open>default\<close>.
\<close>

theorem prefix_tag_drops_other:
  "\<exists>bs. sync_master_table 2 = Inr (bs, 0) \<and> tag_users bs ''default'' = 2
     \<and> tag_users (fst (sync_del_tag True ''d'' bs)) ''default'' = 1"
proof -
  define bs where "bs = (replicate SYNC_TAG_COUNT zero_barrier)
    [0 := zero_barrier\<lparr>tb_mutex := 1, refcount := 2, tb_tag := ''default''\<rparr>]"
  have tbl: "sync_master_table 2 = Inr (bs, 0)"
    by (simp add: sync_master_table_def barrier_init_def bs_def SYNC_TAG_COUNT_def zero_barrier_def SYNC_TAG_LEN_def)
  have bs: "bs = zero_barrier\<lparr>tb_mutex := 1, refcount := 2, tb_tag := ''default''\<rparr> # replicate 63 zero_barrier"
    by (simp add: bs_def SYNC_TAG_COUNT_def numeral_eq_Suc)
  show ?thesis
    by (intro exI [of _ bs] conjI tbl)
      (simp_all add: bs sync_del_tag_def tagged_barrier_unref_def tag_users_def tag_len_def SYNC_TAG_LEN_def
        strn_eq_def zero_barrier_def)
qed

text \<open>
   The deadline of a timed wait is the present time plus the limit, but its nanoseconds are not
  normalised: the wait gets a valid time exactly if the nanoseconds do not carry into a second.
\<close>

theorem deadline_may_be_invalid:
  assumes "0 \<le> msec" and "normalised now"
  shows "ns (abs_timeout now msec) = ns now + msec * 1000000
     \<and> (normalised (abs_timeout now msec) \<longleftrightarrow> tv_nsec now + (msec mod 1000) * 1000000 < 1000000000)"
  using abs_timeout_ns [OF assms(1)] abs_timeout_normalised [OF assms] by blast

theorem deadline_may_be_invalid_witness:
  "\<not> normalised (abs_timeout (Timespec 10 600000000) 500)"
  using deadline_may_be_invalid [of 500 "Timespec 10 600000000"] by (simp add: normalised_def)

section \<open>The symbol table and the values it holds\<close>

text \<open>
   A global value that the parser inserts under a new name is what the getters of its type give,
  cut to the width of the result; a getter of another kind refuses it, and no other name changes.
\<close>

theorem global_value_found:
  assumes "symtab_ok st" and "symbol_table st \<noteq> None" and "find_entry st k = None"
    and "length (entries st) < SYMBOL_TABLE_MAX"
  shows "\<exists>st'. symbol_table_insert st (Some \<lparr>sym_key = k, sym_def = SYM_TYPE_BOXED_VALUE (boxed_value_new_long w)\<rparr>)
      = Inr (st', 0) \<and> symtab_ok st'
    \<and> config_get_value_long st' (Some k) True = (0, Some w)
    \<and> config_get_value_int st' (Some k) True = (0, Some (ucast w))
    \<and> config_get_value_string st' (Some k) True = (- ENOENT, None)
    \<and> (\<forall>k'. k' \<noteq> k \<longrightarrow> config_value st' (Some k') True = config_value st (Some k') True)"
proof -
  let ?e = "\<lparr>sym_key = k, sym_def = SYM_TYPE_BOXED_VALUE (boxed_value_new_long w)\<rparr>"
  from symtab.insert_new [of st ?e] assms obtain st' where
    ins: "symbol_table_insert st (Some ?e) = Inr (st', 0)" "symtab_ok st'"
    and find: "find_entry st' = (find_entry st)(k \<mapsto> ?e)" by auto
  then show ?thesis
    by (intro exI [of _ st']) (simp add: config_get_value_defs config_value_find boxed_value_new_defs)
qed

definition empty_config :: config_state where
  "empty_config = \<lparr>symbol_table = Some [], config_load_complete = True\<rparr>"

lemma empty_config_ok: "symtab_ok empty_config" "symbol_table empty_config \<noteq> None" "find_entry empty_config k = None"
    "length (entries empty_config) < SYMBOL_TABLE_MAX"
  by (simp_all add: empty_config_def symtab_ok_def find_entry_def symbol_table_lookup_def SYMBOL_TABLE_MAX_def)

theorem global_value_found_witness:
  "\<exists>st. symbol_table_insert empty_config
      (Some \<lparr>sym_key = ''n'', sym_def = SYM_TYPE_BOXED_VALUE (boxed_value_new_long 5)\<rparr>) = Inr (st, 0)
    \<and> config_get_value_int st (Some ''n'') True = (0, Some 5)"
  using global_value_found [OF empty_config_ok(1,2), of "''n''" 5] by (auto simp: empty_config_ok)

text \<open>
   The assertion of the integer getters lets floating values through, because the cases of the
  switch fall through, and new doubles are tagged as floats: what comes out are the low bits of the
  binary representation. For 1.0 and 2.5 that is 0.
\<close>

theorem float_read_as_int:
  "boxed_value_get_int (Some (boxed_value_new_float d)) = Inr (ucast d)
   \<and> boxed_value_get_bool (Some (boxed_value_new_double d)) = Inr (ucast d)
   \<and> boxed_value_get_int (Some (boxed_value_new_float 0x3FF0000000000000)) = Inr 0
   \<and> boxed_value_get_int (Some (boxed_value_new_double 0x4004000000000000)) = Inr 0"
  by (simp add: boxed_value_get_defs boxed_value_new_defs)

text \<open>
   Registering a generating function in a table without dangling references succeeds, makes it
  the entry of its name, and changes no other entry.
\<close>

theorem register_function_found:
  assumes "symtab_ok st" and "symbol_table st \<noteq> None" and "refs_ok st" and "find_entry st name = None"
    and "length (entries st) < SYMBOL_TABLE_MAX"
  shows "\<exists>st' trace. register_generating_func ptr_text st name func = Inr (st', 0, trace)
     \<and> find_entry st' = (find_entry st)(name \<mapsto> \<lparr>sym_key = name, sym_def = SYM_TYPE_GENERATOR_FN func\<rparr>)
     \<and> symtab_ok st' \<and> refs_ok st'"
  using assms by (rule register_generating_func_ok)

theorem register_function_found_witness:
  "\<exists>st' trace. register_generating_func (\<lambda>_. []) empty_config ''f'' 9 = Inr (st', 0, trace)
     \<and> find_entry st' ''f'' = Some \<lparr>sym_key = ''f'', sym_def = SYM_TYPE_GENERATOR_FN 9\<rparr>"
proof -
  have "refs_ok empty_config" by (simp add: refs_ok_def empty_config_def)
  from register_function_found [OF empty_config_ok(1,2) this empty_config_ok(3,4), of "\<lambda>_. []" "''f''" 9]
  show ?thesis by auto
qed

text \<open>
   Declaring a test from a loaded configuration whose settings are lists of parameters with a
  type the code can determine: the tags are the names of all parameters, in the order of the
  settings, with one default each, and the handler is stored.
\<close>

theorem declare_dynamic_takes_names:
  assumes "config_load_complete st" and "symbol_table_lookup st name = Some r"
    and "sym_at st r = Inr e" and "sym_def e = SYM_TYPE_TEST td"
    and "settings td = map (\<lambda>g. Some (TEST_SETTING_PARAMLIST (Some g))) gs"
    and "param_tags td = []" and "param_defaults td = []"
    and "\<forall>g\<in>set gs. \<forall>r\<in>set (pgroup_params_syms g). typed_param st r"
  shows "\<exists>st' td'. declare_variable_test_dynamic st (Some name) h = Inr (st', 0) \<and> test_at st' r = Inr td'
    \<and> param_tags td' = map (\<lambda>r. Boxed_String (sym_key (entries st ! r))) (concat (map pgroup_params_syms gs))
    \<and> length (param_defaults td') = length (param_tags td') \<and> arg_handler2 td' = h \<and> settings td' = settings td"
  using assms by (rule declare_dynamic_names)

text \<open>A loaded configuration with two parameters, a group that is not a parameter, and two tests.\<close>

definition sample_loaded :: config_state where
  "sample_loaded = \<lparr>symbol_table = Some
     [\<lparr>sym_key = ''n'', sym_def = SYM_TYPE_PARAM \<lparr>pd_type = CONFIG_PARAM_INT,
         pd_mode = PARAM_MODE_CONSTLIST [Boxed_Int 1]\<rparr>\<rparr>,
      \<lparr>sym_key = ''s'', sym_def = SYM_TYPE_PARAM \<lparr>pd_type = CONFIG_PARAM_STRING,
         pd_mode = PARAM_MODE_CONSTLIST [Boxed_String ''x'']\<rparr>\<rparr>,
      \<lparr>sym_key = ''g'', sym_def = SYM_TYPE_PGROUP None\<rparr>,
      \<lparr>sym_key = ''good'', sym_def = SYM_TYPE_TEST (empty_testdef\<lparr>settings :=
         [Some (TEST_SETTING_PARAMLIST (Some \<lparr>pgroup_params_syms = [0, 1]\<rparr>))]\<rparr>)\<rparr>,
      \<lparr>sym_key = ''bad'', sym_def = SYM_TYPE_TEST (empty_testdef\<lparr>settings :=
         [Some (TEST_SETTING_PARAMLIST (Some \<lparr>pgroup_params_syms = [2]\<rparr>)),
          Some (TEST_SETTING_PARAMLIST (Some \<lparr>pgroup_params_syms = [0]\<rparr>))]\<rparr>)\<rparr>],
     config_load_complete = True\<rparr>"

lemmas sample_loaded_eval = sample_loaded_def symbol_table_lookup_def sym_at_def typed_param_def
  pgroup_param_type_def zero_default_def empty_testdef_def

theorem declare_dynamic_takes_names_witness:
  "\<exists>st' td'. declare_variable_test_dynamic sample_loaded (Some ''good'') (Some 4) = Inr (st', 0)
     \<and> test_at st' 3 = Inr td' \<and> param_tags td' = [Boxed_String ''n'', Boxed_String ''s'']"
proof -
  let ?td = "empty_testdef\<lparr>settings := [Some (TEST_SETTING_PARAMLIST (Some \<lparr>pgroup_params_syms = [0, 1]\<rparr>))]\<rparr>"
  have "\<exists>st' td'. declare_variable_test_dynamic sample_loaded (Some ''good'') (Some 4) = Inr (st', 0)
     \<and> test_at st' 3 = Inr td'
     \<and> param_tags td' = map (\<lambda>r. Boxed_String (sym_key (entries sample_loaded ! r)))
         (concat (map pgroup_params_syms [\<lparr>pgroup_params_syms = [0, 1]\<rparr>]))
     \<and> length (param_defaults td') = length (param_tags td') \<and> arg_handler2 td' = Some 4 \<and> settings td' = settings ?td"
    by (rule declare_dynamic_takes_names [where e = "\<lparr>sym_key = ''good'', sym_def = SYM_TYPE_TEST ?td\<rparr>"])
      (simp_all add: sample_loaded_eval)
  then show ?thesis by (auto simp: sample_loaded_def)
qed

text \<open>
   The same function loses errors: the status of a setting replaces that of the ones before it,
  so a list that fails, here for an entry that is no parameter, followed by one that does not is
  reported as success.
\<close>

theorem declare_dynamic_loses_error:
  "\<exists>td st'. process_pgroup_params sample_loaded (Some \<lparr>pgroup_params_syms = [2]\<rparr>) empty_testdef = Inr (td, - EINVAL)
     \<and> declare_variable_test_dynamic sample_loaded (Some ''bad'') None = Inr (st', 0)"
  by (simp add: sample_loaded_eval process_pgroup_params_def declare_variable_test_dynamic_def boxed_value_new_defs)

text \<open>
   The two dumps of a list of values with labels agree: the string is what the messages to the
  log say, faults included.
\<close>

theorem labelled_dumps_agree:
  "dump_labeled_value_list_to_str labels vs =
     rbind (dump_labeled_value_list_on_log labels vs) (\<lambda>pieces. Inr (concat pieces))"
  by (rule dump_labeled_log_eq_str)

section \<open>Lists in memory\<close>

text \<open>
  C12. Reversing a list of values in place returns, gives the same cells in the opposite order, and
  touches no other cell.
\<close>

theorem list_reverse_in_place:
  assumes "chain (cells h) p as xs" and "distinct as"
  shows "\<exists>h' q. heap_list_reverse h p = Some (Inr (h', q)) \<and> chain (cells h') q (rev as) (rev xs)
     \<and> (\<forall>a. a \<notin> set as \<longrightarrow> cells h' a = cells h a) \<and> dom (cells h') = dom (cells h)"
  using assms by (rule heap_list_reverse_chain)

definition sample_heap :: heap where
  "sample_heap = \<lparr>cells = [0 \<mapsto> Cell (Boxed_Int 1) (Some 1), 1 \<mapsto> Cell (Boxed_Int 2) None], brk = 2\<rparr>"

lemma sample_heap_ok: "chain (cells sample_heap) (Some 0) [0, 1] [Boxed_Int 1, Boxed_Int 2]" "heap_ok sample_heap"
  by (auto simp: sample_heap_def heap_ok_def split: if_splits)

theorem list_reverse_in_place_witness:
  "\<exists>h' q. heap_list_reverse sample_heap (Some 0) = Some (Inr (h', q))
     \<and> chain (cells h') q [1, 0] [Boxed_Int 2, Boxed_Int 1]"
  using list_reverse_in_place [OF sample_heap_ok(1)] by auto

text \<open>
   Copying a list returns a list of the same values in fresh cells and leaves the original as it
  was; NULL is not accepted.
\<close>

theorem list_dup_copies:
  assumes "chain (cells h) p (a # as) (x # xs)" and "heap_ok h"
  shows "heap_list_dup h None = Some (Inl Null_Deref) \<and>
    (\<exists>h' b bs. heap_list_dup h p = Some (Inr (h', Some b)) \<and> chain (cells h') (Some b) (b # bs) (x # xs)
       \<and> chain (cells h') p (a # as) (x # xs) \<and> set (b # bs) \<inter> dom (cells h) = {} \<and> heap_ok h')"
  using heap_list_dup_null heap_list_dup_chain [OF assms] by blast

theorem list_dup_copies_witness:
  "\<exists>h' b bs. heap_list_dup sample_heap (Some 0) = Some (Inr (h', Some b))
     \<and> chain (cells h') (Some b) (b # bs) [Boxed_Int 1, Boxed_Int 2]"
  using list_dup_copies [OF sample_heap_ok] by blast

text \<open> The freeing loop of a list frees each of its cells once, and nothing else.\<close>

theorem list_free_all:
  assumes "chain (cells h) p as xs" and "distinct as" and "as \<noteq> []"
  shows "\<exists>h'. free_all h p = Some (Inr h') \<and> cells h' = (cells h) |` (- set as) \<and> brk h' = brk h"
  using assms by (rule free_all_chain)

theorem list_free_all_witness:
  "\<exists>h'. free_all sample_heap (Some 0) = Some (Inr h') \<and> cells h' = Map.empty"
  using list_free_all [OF sample_heap_ok(1)] by (auto simp: sample_heap_def restrict_map_def fun_eq_iff)

text \<open>
  C13. The parser's arena, if \<^verbatim>\<open>realloc\<close> grows it in place and sizes stay below 4 GB: every request is
  served, and the blocks handed out are disjoint and inside the arena.
\<close>

theorem mempool_blocks_disjoint:
  assumes "mempool_ok mp" and "sum_list szs + pool_top mp + PAGE_SIZE \<le> 2 ^ 32" and "\<forall>n\<in>set szs. 0 < n"
    and "\<And>b n. realloc b n = Some base" and "mp_base mp = None \<or> mp_base mp = Some base"
    and "mempool_allocs realloc mp szs = (mp', bs)"
  shows "map snd bs = szs \<and> mempool_ok mp' \<and> pool_top mp' = pool_top mp + sum_list szs \<and>
    (\<forall>(a, n)\<in>set bs. base + pool_top mp \<le> a \<and> a + n \<le> base + pool_size mp') \<and>
    sorted_wrt (\<lambda>(a, n) (a', n'). a + n \<le> a') bs"
  using assms by (rule mempool_allocs_blocks)

theorem mempool_blocks_disjoint_witness:
  "map snd (snd (mempool_allocs (\<lambda>_ _. Some 1000) empty_mempool [10, 5000])) = [10, 5000]"
proof -
  obtain mp' bs where run: "mempool_allocs (\<lambda>_ _. Some 1000) empty_mempool [10, 5000] = (mp', bs)" by fastforce
  have "map snd bs = [10, 5000]"
    using mempool_blocks_disjoint [of empty_mempool "[10, 5000]" "\<lambda>_ _. Some 1000" 1000 mp' bs] run
    by (simp add: empty_mempool_def mempool_ok_def PAGE_SIZE_def)
  with run show ?thesis by simp
qed

text \<open>
   Nothing makes \<^verbatim>\<open>realloc\<close> grow in place: when it moves the arena, the block handed out before is
  no longer part of it.
\<close>

theorem mempool_move_dangles:
  "let realloc = (\<lambda>b n. if n \<le> 4096 then Some 10000 else Some 90000);
       (mp1, p1) = mempool_alloc realloc empty_mempool 100;
       (mp2, p2) = mempool_alloc realloc mp1 5000
   in p1 = Some 10000 \<and> mp_base mp2 = Some 90000 \<and> pool_size mp2 = 8192 \<and> p2 = Some 90100"
  by (simp add: mempool_alloc_def mempool_stretch_def empty_mempool_def u32_def align_up_def PAGE_SIZE_def Let_def)

section \<open>Loading a configuration\<close>

text \<open>
  C14. Loading a configuration file, with phrases of any kind, succeeds exactly if they have a meaning, in which
  every name is resolved against the entries before it; the table is then that meaning and the
  configuration counts as loaded. The meaning has one oddity of the code in it: a test set that is run
  parallel or in threads and has no \<^verbatim>\<open>fix\<close> line also takes for names of tests the values that earlier
  globals left in the list of values, and has no meaning if one of them names nothing. What the
  parser does after an error is arbitrary, except that it does not take errors back.
\<close>

theorem config_load_builds_meaning:
  assumes "parser_start recover secs (symbol_table_init st) = Inr (parse (symbol_table_init st) text)"
    and "symbol_table st = None" and "keeps_errors recover"
  shows "case config_meaning [] [] secs of
      Some es \<Rightarrow> config_load_from_file parse (Some text) err st
        = (\<lparr>symbol_table = Some es, config_load_complete = True\<rparr>, 0)
    | None \<Rightarrow> snd (config_load_from_file parse (Some text) err st) \<noteq> 0"
proof -
  have "symbol_table (symbol_table_init st) = Some []" using assms(2) by (simp add: symbol_table_init_def)
  from parser_start_cases [OF this assms(3), of secs] assms(1,2) show ?thesis
    by (auto simp: config_load_from_file_def symbol_table_init_def Let_def split: option.splits prod.splits)
qed

definition sample_sections :: "config_section list" where
  "sample_sections = [Sec_Globals [(''g'', T_INT 4)],
     Sec_Parameter ''n'' (Const_Values (T_INT 1) [T_IDENT ''g'']),
     Sec_Test ''t'' [Line_Params [''n'']], Sec_Testset ''s'' [] TESTSET_EXEC_PARALLEL [''t'']]"

definition sample_entries :: "symbol_table_entry list" where
  "sample_entries = [\<lparr>sym_key = ''g'', sym_def = SYM_TYPE_BOXED_VALUE (Boxed_Int 4)\<rparr>,
     \<lparr>sym_key = ''n'', sym_def = SYM_TYPE_PARAM
        \<lparr>pd_type = CONFIG_PARAM_INT, pd_mode = PARAM_MODE_CONSTLIST [Boxed_Int 1, Boxed_Int 4]\<rparr>\<rparr>,
     \<lparr>sym_key = ''t'', sym_def = SYM_TYPE_TEST (empty_testdef\<lparr>settings :=
        [Some (TEST_SETTING_PARAMLIST (Some \<lparr>pgroup_params_syms = [1]\<rparr>))]\<rparr>)\<rparr>,
     \<lparr>sym_key = ''s'', sym_def = SYM_TYPE_TESTSET
        \<lparr>exec_type = TESTSET_EXEC_PARALLEL, ts_settings = [], ts_tests = [2]\<rparr>\<rparr>]"

lemma sample_sections_meaning: "config_meaning [] [] sample_sections = Some sample_entries"
  by (simp add: sample_sections_def sample_entries_def add_entry_def resolve_def all_of_def SYMBOL_TABLE_MAX_def
      names_before_def name_meaning_def)

theorem config_load_builds_meaning_witness:
  "config_load_from_file
     (\<lambda>st _. case parser_start (\<lambda>s _. Inr (s, 1)) sample_sections st of Inr r \<Rightarrow> r | Inl _ \<Rightarrow> (st, 1))
     (Some ''text'') 2 initial_config
   = (\<lparr>symbol_table = Some sample_entries, config_load_complete = True\<rparr>, 0)"
proof -
  let ?parse = "\<lambda>st (_ :: string). case parser_start (\<lambda>s _. Inr (s, 1)) sample_sections st of Inr r \<Rightarrow> r | Inl _ \<Rightarrow> (st, 1)"
  have "symbol_table (symbol_table_init initial_config) = Some []"
    by (simp add: symbol_table_init_def initial_config_def)
  from parser_start_ok [OF this sample_sections_meaning]
  have "parser_start (\<lambda>s _. Inr (s, 1)) sample_sections (symbol_table_init initial_config)
      = Inr (?parse (symbol_table_init initial_config) ''text'')" by simp
  from config_load_builds_meaning [where parse = ?parse and err = 2, OF this _] sample_sections_meaning show ?thesis
    by (simp add: initial_config_def keeps_errors_def)
qed

text \<open>
  C15. A table that was parsed without errors from an empty one, whatever phrases it was made of and with
  any recovery that does not take errors back, is well formed: names are unique, no reference dangles, and references go backwards, so that generating values needs no more stack than
  the index of the parameter, and the dump of the table does not fault.
\<close>

theorem parsed_table_wf:
  assumes "parser_start recover secs c = Inr (c', 0)" and "symbol_table c = Some []"
    and "keeps_errors recover"
  shows "symtab_ok c' \<and> refs_ok c'
     \<and> (\<forall>r fuel. r < fuel \<longrightarrow> generate_variations gen fuel c' r style \<noteq> Inl Stack_Overflow)
     \<and> (\<exists>msgs. dump_symbol_table ptr_text c' = Inr msgs)"
proof -
  from parser_start_cases [OF assms(2,3), of secs] assms(1) obtain es where
    es: "config_meaning [] [] secs = Some es" "symbol_table c' = Some es" by (auto split: option.splits)
  have "table_wf es" by (rule config_wf [OF table_wf_Nil es(1)])
  note wf = table_wf_state [OF es(2) this]
  with generate_variations_no_overflow [OF wf(3)] dump_symbol_table_returns [of c' ptr_text] es(2) show ?thesis by blast
qed

theorem parsed_table_wf_witness:
  "\<exists>msgs. dump_symbol_table (\<lambda>_. []) \<lparr>symbol_table = Some sample_entries, config_load_complete = False\<rparr> = Inr msgs"
proof -
  let ?c = "\<lparr>symbol_table = Some [], config_load_complete = False\<rparr>"
  have "parser_start (\<lambda>s _. Inr (s, 1)) sample_sections ?c
      = Inr (\<lparr>symbol_table = Some sample_entries, config_load_complete = False\<rparr>, 0)"
    using parser_start_ok [OF _ sample_sections_meaning, of ?c] by simp
  from parsed_table_wf [OF this] show ?thesis by (simp add: keeps_errors_def)
qed

text \<open>
  C16. From the configuration text to the variants: parameters with constant values and a test that
  lists some of them and fixes others. After parsing, the variants of the test are the Cartesian
  product, over its parameters, of the fixed value or else all the constants.
\<close>

theorem parsed_test_variants:
  assumes "list_all literals ps" and "list_all (\<lambda>f. literal (snd f)) fxs" and "distinct (name # map fst ps)"
    and "length ps < SYMBOL_TABLE_MAX" and "set ks \<union> fst ` set fxs \<subseteq> fst ` set ps"
    and "table_fits (map (\<lambda>k. length (fixed_or_varied ps fxs k)) ks)" and "symbol_table c = Some []"
  shows "\<exists>c' vs. parser_start recover (map const_section ps @ [Sec_Test name (test_lines ks fxs)]) c = Inr (c', 0)
     \<and> config_generate_test_variations gen fuel c' name CONFIG_VARIATION_COMBINATIONS = Inr vs
     \<and> mset vs = mset (product_lists (map (fixed_or_varied ps fxs) ks))"
proof -
  let ?c = "c\<lparr>symbol_table := Some (const_table name ps ks fxs)\<rparr>"
  have "parser_start recover (map const_section ps @ [Sec_Test name (test_lines ks fxs)]) c = Inr (?c, 0)"
    by (rule parser_start_ok [OF assms(7) const_table_meaning [OF assms(1-5)]])
  moreover have "config_generate_test_variations gen fuel ?c name CONFIG_VARIATION_COMBINATIONS
      = Inr (odometer (map (fixed_or_varied ps fxs) ks))"
    by (rule const_table_variants [OF _ assms(3,5,6)]) simp
  ultimately show ?thesis using mset_odometer by blast
qed

theorem parsed_test_variants_witness:
  "\<exists>c' vs. parser_start (\<lambda>s _. Inr (s, 1)) [Sec_Parameter ''n'' (Const_Values (T_INT 1) [T_INT 2]),
       Sec_Parameter ''m'' (Const_Values (T_BOOL 0) [T_BOOL 1]),
       Sec_Test ''t'' [Line_Params [''n'', ''m''], Line_Fix ''m'' (T_BOOL 1)]]
       \<lparr>symbol_table = Some [], config_load_complete = False\<rparr> = Inr (c', 0)
     \<and> config_generate_test_variations (\<lambda>_ _. None) 0 c' ''t'' CONFIG_VARIATION_COMBINATIONS = Inr vs
     \<and> mset vs = {#[Boxed_Int 1, Boxed_Bool 1], [Boxed_Int 2, Boxed_Bool 1]#}"
  using parsed_test_variants [of "[(''n'', T_INT 1, [T_INT 2]), (''m'', T_BOOL 0, [T_BOOL 1])]" "[(''m'', T_BOOL 1)]"
      "''t''" "[''n'', ''m'']" "\<lparr>symbol_table = Some [], config_load_complete = False\<rparr>"
      "\<lambda>s _. Inr (s, 1)" "\<lambda>_ _. None" 0]
  by (simp add: literals_def literal_def SYMBOL_TABLE_MAX_def fixed_or_varied_def table_fits_def const_values_def
      literal_value_def const_section_def test_lines_def)

text \<open>
   A \<^verbatim>\<open>pgroup\<close> line of a test is not checked to name a group: the parser accepts a parameter
  there, and generating the variants then reads its definition as that of a group.
\<close>

theorem pgroup_line_confuses:
  "\<exists>c'. parser_start recover [Sec_Parameter ''p'' (Const_Values (T_INT 1) []), Sec_Test ''t'' [Line_Pgroup ''p'']]
       \<lparr>symbol_table = Some [], config_load_complete = False\<rparr> = Inr (c', 0)
     \<and> config_generate_test_variations gen fuel c' ''t'' CONFIG_VARIATION_COMBINATIONS = Inl Type_Confusion"
proof -
  let ?secs = "[Sec_Parameter ''p'' (Const_Values (T_INT 1) []), Sec_Test ''t'' [Line_Pgroup ''p'']]"
  let ?es = "[\<lparr>sym_key = ''p'', sym_def = SYM_TYPE_PARAM \<lparr>pd_type = CONFIG_PARAM_INT,
         pd_mode = PARAM_MODE_CONSTLIST [Boxed_Int 1]\<rparr>\<rparr>,
       \<lparr>sym_key = ''t'', sym_def = SYM_TYPE_TEST (empty_testdef\<lparr>settings := [Some (TEST_SETTING_PGROUP 0)]\<rparr>)\<rparr>]"
  have "config_meaning [] [] ?secs = Some ?es"
    by (simp add: add_entry_def resolve_def all_of_def SYMBOL_TABLE_MAX_def)
  from parser_start_ok [OF _ this, of "\<lparr>symbol_table = Some [], config_load_complete = False\<rparr>" recover] show ?thesis
    by (simp add: config_generate_test_variations_def collect_test_params_def symbol_table_lookup_def sym_at_def)
qed

text \<open>
   A global's value stays in the list of values, which only \<^verbatim>\<open>serial\<close> test sets empty before
  reading their tests: a test set that is accepted as serial is an error as parallel or threads, here
  after a section of globals, even if the parser recovers from everything.
\<close>

theorem parallel_after_globals_fails:
  "(let secs = \<lambda>ex. [Sec_Test ''t'' [], Sec_Globals [(''g'', T_INT 4)], Sec_Testset ''s'' [] ex [''t'']];
        run = \<lambda>ex. map_sum id snd (parser_start (\<lambda>s _. Inr (s, 0)) (secs ex)
          \<lparr>symbol_table = Some [], config_load_complete = False\<rparr>)
    in run TESTSET_EXEC_SERIAL = Inr 0 \<and> run TESTSET_EXEC_PARALLEL = Inr 1 \<and> run TESTSET_EXEC_THREADS = Inr 1)"
  by code_simp

text \<open>
   A syntax error on the first line of a parameter group drops the symbol under construction; the
  parser goes on with the next line, and the end of the group then writes through the null pointer.
\<close>

theorem pgroup_error_crashes:
  "parse_pgroup_with_error k [] [] s = Inl Null_Deref"
  by (simp add: parse_pgroup_with_error_def finish_pgroup_def then_do_def update_def act_ok_def yyerror_def
      write_def_def set_definition_def)

text \<open>
   A range accepts floating bounds but not a global with the same value: new doubles are tagged as
  floats, and the check of a global's type lets doubles and longs through only.
\<close>

theorem global_bound_refused:
  "(let run = \<lambda>b. map_sum id snd (parser_start (\<lambda>s _. Inr (s, 0))
          [Sec_Globals [(''g'', T_DOUBLE d)], Sec_Parameter ''p'' (Range_Values DOUBLESPEC b (T_DOUBLE e))]
          \<lparr>symbol_table = Some [], config_load_complete = False\<rparr>)
    in run (T_DOUBLE d) = Inr 0 \<and> run (T_IDENT ''g'') = Inr 1)"
  by code_simp

section \<open>Text in and out\<close>



text \<open>
   A list of at most 255 test numbers, each of up to seven digits, printed with commas between
  them, is read back as it was.
\<close>

theorem test_numbers_read_back:
  assumes "nums \<noteq> []" and "\<forall>n\<in>set nums. n < 10 ^ 7" and "length nums \<le> 255"
  shows "parse_test_list (join_comma (map show_nat nums)) = Inr (map int nums)"
  using assms by (rule parse_test_list_numbers)

theorem test_numbers_read_back_witness:
  "parse_test_list ''1,27,3'' = Inr [1, 27, 3]"
proof -
  have "join_comma (map show_nat [1, 27, 3]) = ''1,27,3''" by code_simp
  with test_numbers_read_back [of "[1, 27, 3]"] show ?thesis by simp
qed

text \<open>
   The local buffer holds seven characters and the terminator: the eighth character of the first
  field puts the terminator behind the buffer.
\<close>

theorem long_test_field_overflows:
  assumes "length field = 8" and "CHR '','' \<notin> set field"
  shows "parse_test_list (field @ rest) = Inl Out_Of_Bounds"
proof -
  obtain ds c where f: "field = ds @ [c]" using assms(1) by (cases field rule: rev_cases) auto
  with assms have ds: "\<forall>c\<in>set ds. c \<noteq> CHR '',''" "length ds = 7" "ds \<noteq> []" "c \<noteq> CHR '',''" by auto
  from parse_test_digits [OF ds(1), of 0 None "c # rest" "[]"] ds show ?thesis
    by (simp add: parse_test_list_def f)
qed

theorem long_test_field_overflows_witness:
  "parse_test_list ''12345678,1'' = Inl Out_Of_Bounds"
  using long_test_field_overflows [of "''12345678''" "'',1''"] by simp

text \<open>
   The line with the result of a test always has the same length: the prefix and as much of the
  name as fits are followed by at least one dot and the verdict, and nothing is written past the
  buffer, whatever the names and numbers are.
\<close>

theorem result_line_fits:
  "\<exists>dots. result_line b name t v r =
     result_prefix b t v @ take (71 - length (result_prefix b t v)) name @ replicate dots (CHR ''.'')
       @ (if r \<noteq> 0 then failed_txt else passed_txt)
   \<and> length (result_line b name t v r) = MAX_LOG_LINE_LEN \<and> 1 \<le> dots"
  by (rule result_line_shape)

text \<open>
   The check of dependencies, if it returns, fails exactly if some line is a rule marked
  \<^verbatim>\<open>required\<close> whose check fails; comments, unknown kinds and lines that are no rule do not count.
\<close>

theorem depcheck_fails_iff:
  assumes "depcheck sys f = Inr r" and "file_text sys f = Some text"
  shows "r = (if \<exists>l\<in>set (getlines text). rule_fails sys l then - 1 else 0)"
  using assms by (rule depcheck_result)

definition sample_system :: system where
  "sample_system = \<lparr>access_errno = (\<lambda>_. Some ENOENT), executable = (\<lambda>_. False),
     file_text = (\<lambda>_. Some ''optional bin x\<newline>required file /y\<newline>''), glob_paths = (\<lambda>_. []), uname_release = ''2.6''\<rparr>"

theorem depcheck_fails_iff_witness:
  "\<exists>l. l = ''required file /y\<newline>'' \<and> rule_fails sample_system l"
proof -
  have "depcheck sample_system ''r'' = Inr (- 1)" by code_simp
  from depcheck_fails_iff [OF this, of "''optional bin x\<newline>required file /y\<newline>''"]
  have "\<exists>l\<in>set (getlines ''optional bin x\<newline>required file /y\<newline>''). rule_fails sample_system l"
    by (simp add: sample_system_def split: if_splits)
  moreover have "getlines ''optional bin x\<newline>required file /y\<newline>''
      = [''optional bin x\<newline>'', ''required file /y\<newline>'']" by code_simp
  moreover have "required_rule ''optional bin x\<newline>'' = None" by code_simp
  then have "\<not> rule_fails sample_system ''optional bin x\<newline>''" by (simp add: rule_fails_def)
  ultimately show ?thesis by auto
qed

section \<open>The shared memory of test processes\<close>

text \<open>
  C18. The daemon's set-up gives the table and the open semaphore. When its \<open>n\<close> clients start after
  that, every run of the daemon and the clients has at most 5 n + 4 steps, and one that cannot be
  continued has let every client leave and has removed the name of the shared memory.
\<close>

theorem daemon_cleans_up:
  assumes "(sync_step n ^^ k) (sync_ready n n) s"
  shows "sync_run n (replicate 8 0) (sync_start n) = sync_ready n n \<and> k \<le> 5 * n + 4
     \<and> ((\<nexists>t. sync_step n s t) \<longrightarrow> shm_name s = None \<and> procs s = M_Exit # replicate n C_Left)"
proof -
  have inv: "sync_inv n s" using assms daemon.inv_reachable relpowp_imp_rtranclp by metis
  have "int k \<le> 5 * int n + 4" using sync_run_length [OF assms] sync_work_nonneg [OF inv] by linarith
  then have "k \<le> 5 * n + 4" by linarith
  with daemon_sets_up sync_stuck_done [OF inv] show ?thesis by blast
qed

theorem daemon_cleans_up_witness:
  "\<exists>k\<le>14. (sync_step 2 ^^ k) (sync_ready 2 2) (sync_run 2 ([1, 1, 1, 2, 2, 2, 1, 2] @ replicate 6 0) (sync_ready 2 2))"
proof -
  obtain k where k: "(sync_step 2 ^^ k) (sync_ready 2 2) (sync_run 2 ([1, 1, 1, 2, 2, 2, 1, 2] @ replicate 6 0) (sync_ready 2 2))"
    using rtranclp_imp_relpowp [OF sync_run_reach] by blast
  from daemon_cleans_up [OF k] have "k \<le> 14" by simp
  with k show ?thesis by blast
qed

text \<open>
   Nothing makes clients wait for the set-up. A client that attaches before the daemon has cleared
  the memory leaves its signal there; the daemon clears it and waits for ever, the name staying
  behind. A second daemon finds the name, fails, and removes it under the feet of the first.
\<close>

theorem early_client_hangs_daemon:
  "procs early_client = [M_Collect 0 0, C_Left] \<and> shm_name early_client = Some 0
   \<and> (\<nexists>t. sync_step 1 early_client t)
   \<and> procs two_daemons = [M_Collect 0 0, M_Exit, C_Open] \<and> shm_name two_daemons = None"
proof -
  have "\<nexists>t. sync_step 1 early_client t"
    using early_client_state by (auto elim!: sync_stepE simp: sync_move_def nth_Cons split: if_splits nat.splits)
  with early_client_state two_daemons_state show ?thesis by blast
qed

section \<open>The event loop of the WLAN tests\<close>

text \<open>
  C19. Whatever calls are made on the loop, its timeouts stay sorted by the time they are due; a new one
  goes behind all that are due no later; and \<^verbatim>\<open>select\<close> is called with the time that is left until the
  first, or 0.
\<close>

theorem timeouts_stay_sorted:
  assumes "eloop_call\<^sup>*\<^sup>* (eloop_init u) e" and "timeval_ok now"
  shows "timeouts_ok (timeouts e)
     \<and> (\<exists>t. due t = usecs now + uint secs * 1000000 + uint us \<and> to_handler t = h \<and>
          eloop_register_timeout True now secs us h a b e =
            (e\<lparr>timeouts := filter (\<lambda>v. due v \<le> due t) (timeouts e) @ t # filter (\<lambda>v. due t < due v) (timeouts e)\<rparr>, 0))
     \<and> (case timeouts e of [] \<Rightarrow> select_limit now e = None
        | t # _ \<Rightarrow> \<exists>l. select_limit now e = Some l \<and> timeval_ok l \<and> usecs l = max 0 (due t - usecs now))"
proof -
  have ok: "timeouts_ok (timeouts e)" using eloop_calls.inv_reachable [OF _ assms(1)] by blast
  let ?t = "\<lparr>to_time = usec_carry (t_sec now + uint secs) (t_usec now + uint us), to_eloop_data = a,
    to_user_data = b, to_handler = h\<rparr>"
  have "0 \<le> t_usec now + uint us" using assms(2) by (simp add: timeval_ok_def)
  then have t: "timeval_ok (to_time ?t)" "due ?t = usecs now + uint secs * 1000000 + uint us"
    by (simp_all add: usec_carry_ok usec_carry_usecs) (simp add: usecs_def algebra_simps)
  have "eloop_register_timeout True now secs us h a b e = (e\<lparr>timeouts := insert_timeout ?t (timeouts e)\<rparr>, 0)"
    by (simp add: eloop_register_timeout_def)
  with insert_timeout_split [OF ok t(1)] t(2)
  have "\<exists>t. due t = usecs now + uint secs * 1000000 + uint us \<and> to_handler t = h \<and>
      eloop_register_timeout True now secs us h a b e =
        (e\<lparr>timeouts := filter (\<lambda>v. due v \<le> due t) (timeouts e) @ t # filter (\<lambda>v. due t < due v) (timeouts e)\<rparr>, 0)"
    by (intro exI [of _ ?t]) simp
  with ok select_limit_due [OF _ ok assms(2)] show ?thesis
    by (auto simp: select_limit_def split: list.splits)
qed

definition sample_loop :: eloop_data where
  "sample_loop = fst (eloop_register_timeout True \<lparr>t_sec = 5, t_usec = 600000\<rparr> 1 500000 7 0 0 (eloop_init 0))"

theorem timeouts_stay_sorted_witness:
  "eloop_register_timeout True \<lparr>t_sec = 6, t_usec = 0\<rparr> 0 0 8 0 0 sample_loop =
     (sample_loop\<lparr>timeouts := [\<lparr>to_time = \<lparr>t_sec = 6, t_usec = 0\<rparr>, to_eloop_data = 0, to_user_data = 0, to_handler = 8\<rparr>,
        \<lparr>to_time = \<lparr>t_sec = 7, t_usec = 100000\<rparr>, to_eloop_data = 0, to_user_data = 0, to_handler = 7\<rparr>]\<rparr>, 0)
   \<and> timeouts_ok (timeouts sample_loop)"
proof -
  have "eloop_call (eloop_init 0) sample_loop"
    unfolding sample_loop_def by (rule register_timeout) (simp add: timeval_ok_def)
  then have "eloop_call\<^sup>*\<^sup>* (eloop_init 0) sample_loop" by simp
  from timeouts_stay_sorted [OF this, of "\<lparr>t_sec = 6, t_usec = 0\<rparr>"]
  have "timeouts_ok (timeouts sample_loop)" by (simp add: timeval_ok_def)
  moreover have "eloop_register_timeout True \<lparr>t_sec = 6, t_usec = 0\<rparr> 0 0 8 0 0 sample_loop =
     (sample_loop\<lparr>timeouts := [\<lparr>to_time = \<lparr>t_sec = 6, t_usec = 0\<rparr>, to_eloop_data = 0, to_user_data = 0, to_handler = 8\<rparr>,
        \<lparr>to_time = \<lparr>t_sec = 7, t_usec = 100000\<rparr>, to_eloop_data = 0, to_user_data = 0, to_handler = 7\<rparr>]\<rparr>, 0)"
    by (simp add: sample_loop_def eloop_register_timeout_def eloop_init_def usec_carry.simps timercmp_less_def)
  ultimately show ?thesis by blast
qed

text \<open>
   A loop with timeouts only, whose handlers leave the loop alone, calls them in order, each once
  and none before it is due; when every pass finds all of them due, it returns after one pass for
  each.
\<close>

theorem timeouts_run_in_order:
  assumes "\<And>h a b e w. on_timeout hs h a b (e, w) = (e, f h a b w)"
    and "readers e = []" and "\<not> terminate e" and "el_signaled e = 0" and "\<forall>wk\<in>set wks. quiet wk"
  shows "\<exists>k\<le>length wks. k \<le> length (timeouts e)
     \<and> eloop_run hs wks e w = Some (if k = length (timeouts e) then Returned else Waiting,
           e\<lparr>timeouts := drop k (timeouts e)\<rparr>, fold (call_timeout f) (take k (timeouts e)) w)
     \<and> (\<forall>t\<in>set (take k (timeouts e)). \<exists>wk\<in>set wks. \<not> timercmp_less (wk_after wk) (to_time t))
     \<and> ((\<forall>wk\<in>set wks. \<forall>t\<in>set (timeouts e). \<not> timercmp_less (wk_after wk) (to_time t)) \<longrightarrow>
          k = min (length wks) (length (timeouts e)))"
  using assms by (rule eloop_run_timers)

definition log_handlers :: "nat list loop_handlers" where
  "log_handlers = \<lparr>on_sock = (\<lambda>h s a b (e, w). (eloop_unregister_read_sock s e, w @ [nat s])),
     on_timeout = (\<lambda>h a b (e, w). (e, w @ [h])), on_signal = (\<lambda>h s a b (e, w). (e, w @ [h]))\<rparr>"

theorem timeouts_run_in_order_witness:
  "eloop_run log_handlers [\<lparr>wk_before = \<lparr>t_sec = 6, t_usec = 0\<rparr>, wk_signals = [], wk_select = Select_Interrupted,
     wk_after = \<lparr>t_sec = 8, t_usec = 0\<rparr>\<rparr>] sample_loop []
   = Some (Returned, sample_loop\<lparr>timeouts := []\<rparr>, [7])"
proof -
  let ?wk = "\<lparr>wk_before = \<lparr>t_sec = 6, t_usec = 0\<rparr>, wk_signals = [], wk_select = Select_Interrupted,
     wk_after = \<lparr>t_sec = 8, t_usec = 0\<rparr>\<rparr>"
  have e: "readers sample_loop = []" "\<not> terminate sample_loop" "el_signaled sample_loop = 0"
    "timeouts sample_loop = [\<lparr>to_time = \<lparr>t_sec = 7, t_usec = 100000\<rparr>, to_eloop_data = 0, to_user_data = 0, to_handler = 7\<rparr>]"
    by (simp_all add: sample_loop_def eloop_register_timeout_def eloop_init_def usec_carry.simps)
  have "on_timeout log_handlers h a b (e, w) = (e, (\<lambda>h a b w. w @ [h]) h a b w)" for h a b e w
    by (simp add: log_handlers_def)
  from timeouts_run_in_order [of log_handlers "\<lambda>h a b w. w @ [h]" sample_loop "[?wk]" "[]", OF this e(1-3)]
  show ?thesis by (auto simp: quiet_def e(4) timercmp_less_def call_timeout_def)
qed

text \<open>
  C20. Signals that arrive before the loop looks, fewer than 2 to the 31st so that the integers that count them do not
  overflow, while none was pending, and whose handlers leave the loop alone but for ending it: for each number that
  arrived the handler of its first entry is called exactly once, however often it arrived, in the order of
  registration; no count is left over, and the loop is told to end if one of these handlers ends it. A
  second entry with the same number is never served.
\<close>

theorem signals_handled_once:
  assumes "\<And>h s a b e w. on_signal hs h s a b (e, w) = (e\<lparr>terminate := terminate e \<or> q h\<rparr>, f h s a b w)"
    and "\<forall>g\<in>set (signals e). sg_signaled g = 0" and "el_signaled e = 0" and "length sigs < 2 ^ 31"
  shows "let handled = filter (\<lambda>g. sg_sig g \<in> set sigs) (signal_heads (signals e))
    in eloop_process_pending_signals hs (fold eloop_handle_signal sigs e) w =
     Some (e\<lparr>terminate := terminate e \<or> (\<exists>g\<in>set handled. q (sg_handler g))\<rparr>,
           fold (call_signal f (el_user_data e)) handled w)"
  using assms by (rule pending_signals)

definition stop_handlers :: "nat list loop_handlers" where
  "stop_handlers = \<lparr>on_sock = (\<lambda>h s a b x. x), on_timeout = (\<lambda>h a b x. x),
     on_signal = (\<lambda>h s a b (e, w). (if h = 9 then eloop_terminate e else e, w @ [h]))\<rparr>"

theorem signals_handled_once_witness:
  "eloop_process_pending_signals stop_handlers (fold eloop_handle_signal [2, 2, 15, 2]
      (fst (eloop_register_signal True 2 5 0 (fst (eloop_register_signal True 15 9 0 (fst (eloop_register_signal True 2 7 0
        (eloop_init 0)))))))) []
    = Some ((fst (eloop_register_signal True 2 5 0 (fst (eloop_register_signal True 15 9 0
        (fst (eloop_register_signal True 2 7 0 (eloop_init 0)))))))\<lparr>terminate := True\<rparr>, [7, 9])"
proof -
  let ?e = "fst (eloop_register_signal True 2 5 0 (fst (eloop_register_signal True 15 9 0
    (fst (eloop_register_signal True 2 7 0 (eloop_init 0))))))"
  have "on_signal stop_handlers h s a b (e, w) = (e\<lparr>terminate := terminate e \<or> h = 9\<rparr>, (\<lambda>h s a b w. w @ [h]) h s a b w)"
    for h s a b e w by (cases e) (simp add: stop_handlers_def eloop_terminate_def)
  from signals_handled_once [of stop_handlers "\<lambda>h. h = 9" "\<lambda>h s a b w. w @ [h]" ?e "[2, 2, 15, 2]" "[]", OF this]
  show ?thesis by (simp add: eloop_register_signal_def eloop_init_def call_signal_def)
qed

text \<open>
   A handler that unregisters its own socket moves the next entry to the place the loop has just
  done: when all sockets are ready and all handlers do that, every other one is passed over.
\<close>

theorem unregister_skips_reader:
  assumes "\<And>h s a b e w. on_sock hs h s a b (e, w) = (eloop_unregister_read_sock s e, w @ [g s])"
    and "distinct (map rd_sock (readers e))"
  shows "readers_loop hs (rd_sock ` set (readers e)) 0 e w = Some
     (e\<lparr>readers := every_other (drop 1 (readers e))\<rparr>, w @ map (g \<circ> rd_sock) (every_other (readers e)))"
  using readers_loop_unregister [OF assms(1), of e "[]" "readers e" "rd_sock ` set (readers e)" w] assms(2) by simp

theorem unregister_skips_reader_witness:
  "\<exists>e'. readers_loop log_handlers {3, 4} 0
      (eloop_init 0\<lparr>readers := [\<lparr>rd_sock = 3, rd_eloop_data = 0, rd_user_data = 0, rd_handler = 0\<rparr>,
         \<lparr>rd_sock = 4, rd_eloop_data = 0, rd_user_data = 0, rd_handler = 0\<rparr>]\<rparr>) [] = Some (e', [3])"
proof -
  let ?e = "eloop_init 0\<lparr>readers := [\<lparr>rd_sock = 3, rd_eloop_data = 0, rd_user_data = 0, rd_handler = 0\<rparr>,
         \<lparr>rd_sock = 4, rd_eloop_data = 0, rd_user_data = 0, rd_handler = 0\<rparr>]\<rparr>"
  have "on_sock log_handlers h s a b (e, w) = (eloop_unregister_read_sock s e, w @ [nat s])" for h s a b e w
    by (simp add: log_handlers_def)
  from unregister_skips_reader [of log_handlers nat ?e "[]", OF this] show ?thesis by simp
qed

section \<open>Hashes and ciphers of the WLAN tests\<close>

text \<open>
  C21. Hashing a vector of pieces of any lengths whose 32-bit arithmetic does not wrap is SHA-1 of their
  concatenation: the buffering, the byte and bit counts, the unrolled rounds on sixteen words that are
  overwritten in turn, and the padding that is appended byte by byte compute FIPS 180.
\<close>

theorem sha1_vector_is_sha1:
  assumes "\<And>d. d \<in> set ds \<Longrightarrow> length d + 64 \<le> 2 ^ 32"
  shows "sha1_vector ds = Inr (sha1 (concat ds))"
  using sha1_vector_pieces [of ds] assms by (simp add: hashable_def list_all_iff)

theorem sha1_vector_is_sha1_witness:
  "sha1_vector [[1, 2], replicate 200 7, []] = Inr (sha1 ([1, 2] @ replicate 200 7))"
proof -
  have "sha1_vector [[1, 2], replicate 200 7, []] = Inr (sha1 (concat [[1, 2], replicate 200 7, []]))"
    by (rule sha1_vector_is_sha1) auto
  then show ?thesis by simp
qed

text \<open>
  C22. The master key that is derived from a passphrase and the name of the network is PBKDF2 with
  HMAC-SHA1, 4096 iterations and 32 bytes, and the call succeeds.
\<close>

theorem pmk_is_pbkdf2:
  assumes "length passphrase + 64 \<le> 2 ^ 32" and "length ssid + 64 \<le> 2 ^ 32"
  shows "wpa_derive_ccmp_pmk passphrase ssid = Inr (0, pbkdf2 passphrase ssid 4096 32)"
  using assms by (intro wpa_derive_ccmp_pmk_computes) (simp_all add: hashable_def)

theorem pmk_is_pbkdf2_witness:
  "wpa_derive_ccmp_pmk (map of_char ''password'') (map of_char ''IEEE'')
     = Inr (0, pbkdf2 (map of_char ''password'') (map of_char ''IEEE'') 4096 32)"
  by (rule pmk_is_pbkdf2) simp_all

text \<open>
  C23. Decryption with the key schedule and the tables of the code inverts the encryption of FIPS 197, in
  both directions, for every key and every block.
\<close>

theorem aes_decrypt_inverts:
  assumes "length block = 16"
  shows "aes_decrypt (rijndaelKeySetupDec key) (aes_encrypt key block) = block
     \<and> aes_encrypt key (aes_decrypt (rijndaelKeySetupDec key) block) = block"
  using assms by (simp add: aes_decrypt_encrypt aes_encrypt_decrypt)

theorem aes_decrypt_inverts_witness:
  "aes_encrypt (replicate 16 7) (aes_decrypt (rijndaelKeySetupDec (replicate 16 7)) (replicate 16 3)) = replicate 16 3"
  using aes_decrypt_inverts [of "replicate 16 3" "replicate 16 7"] by simp

text \<open>
  C24. Unwrapping \<open>n\<close> words, as long as the count of turns fits in a byte, succeeds exactly on what RFC 3394
  makes of a key of that length, and then gives the key; everything else is refused.
\<close>

theorem unwrap_accepts_only_wrapped:
  assumes "16 \<le> length kek" and "length c = 8 * n + 8" and "n \<le> 42"
  shows "(aes_unwrap kek n c = Inr (0, p) \<longleftrightarrow> length p = 8 * n \<and> c = key_wrap (aes_encrypt (take 16 kek)) p)
     \<and> ((\<exists>p. aes_unwrap kek n c = Inr (0, p)) \<or> (\<exists>p. aes_unwrap kek n c = Inr (-1, p)))"
  using aes_unwrap_accepts [OF assms] aes_unwrap_returns [OF assms] by blast

theorem unwrap_accepts_only_wrapped_witness:
  "aes_unwrap (replicate 16 7) 2 (key_wrap (aes_encrypt (replicate 16 7)) (replicate 16 3)) = Inr (0, replicate 16 3)"
proof -
  have "length (key_wrap (aes_encrypt (replicate 16 7)) (replicate 16 3)) = 8 * 2 + 8" by (rule length_wrapped) simp_all
  from unwrap_accepts_only_wrapped [OF _ this, of "replicate 16 7" "replicate 16 3"] show ?thesis by simp
qed

section \<open>The key exchange of the WLAN tests\<close>

definition sample_supplicant :: supplicant_sm where
  "sample_supplicant = \<lparr>sm_Counter = 0, sm_SNonce = replicate 32 0, sm_ANonce = replicate 32 0, sm_PTK = replicate 64 0,
     sm_ptk_len = 0, sm_GTK = replicate 4 (replicate 32 0), sm_gtk_present = 0, sm_PortEnabled = False, sm_PortValid = False\<rparr>"

definition sample_ie :: "byte list" where
  "sample_ie = snd (wpa_gen_wpa_ie_rsn 64 WPA_CIPHER_CCMP WPA_CIPHER_CCMP WPA_KEY_MGMT_PSK)"

definition sample_wlan :: wlan_ctx where
  "sample_wlan = \<lparr>our_addr = replicate 6 1, their_addr = replicate 6 2, associated = True, rsn_ie = Some sample_ie,
     last_ap_rsn_ie = Some sample_ie, wpa_pmk = replicate 32 5\<rparr>"

definition sample_eapol :: eapol_state where
  "sample_eapol = \<lparr>auth_state = AUTH_STATE_PREAUTH, sm = sample_supplicant, ctx = Some sample_wlan, has_callback = True,
     sent_events = []\<rparr>"

definition sample_eapol_env :: eapol_env where
  "sample_eapol_env = \<lparr>on_change_cb = (\<lambda>_. 0), send_frame = (\<lambda>f. int (length f)), set_key_ccmp = (\<lambda>_ _ _ _ _. 0),
     set_supp_port = (\<lambda>_. 0), now_sec = 0x4d000000, now_usec = 1, urandom = Some (replicate 64 9)\<rparr>"

lemma sample_eapol_facts:
  "willing sample_eapol_env" "ctx_ok sample_wlan sample_ie sample_ie" "sm_ok sample_supplicant"
  "ctx sample_eapol = Some sample_wlan" "sm sample_eapol = sample_supplicant" "auth_state sample_eapol = AUTH_STATE_PREAUTH"
  "urandom sample_eapol_env = Some (replicate 64 9)" "associated sample_wlan"
  by (simp_all add: willing_def sample_eapol_env_def ctx_ok_def sample_wlan_def sample_eapol_def sm_ok_def
      sample_supplicant_def sample_ie_def wpa_gen_wpa_ie_rsn_def group_suite_def pairwise_suite_def key_mgmt_suite_def
      suite_defs rsn_selector_def is_rsn_ie_def Let_def)

text \<open>
  C25. The 4-way handshake with an access point that follows the standard, if the driver and the callbacks
  succeed: the station answers message 1 with a message 2 that the access point accepts under the key
  it computes itself, accepts message 3, answers it with a message 4 that is accepted too, gives the driver
  the temporal key both ends have and the group key of message 3, and opens the port. What follows a
  frame in the receive buffer does not matter.
\<close>

theorem handshake_completes:
  assumes "willing env" and "willing env'" and "ctx w = Some c" and "ctx_ok c ie ap_ie" and "sm_ok (sm w)"
    and "auth_state w = AUTH_STATE_PREAUTH" and "urandom env = Some rand" and "length rand = 64"
    and "length anonce = 32" and "length gtk = 16" and "length rsc = 8" and "counter < counter'"
    and "snonce = sta_nonce env (our_addr c) rand"
    and "ptk = ap_ptk (wpa_pmk c) (their_addr c) (our_addr c) anonce snonce"
    and "m1 = ap_msg_1 counter anonce" and "m3 = ap_msg_3 counter' anonce rsc ptk (ap_key_data ap_ie flags gtk)"
    and "m2 = sta_msg_2 counter snonce ptk ie" and "m4 = sta_reply 0x30A counter' ptk"
  shows "\<exists>w'. eapol_frames [(env, frame_of m1 @ junk, length (frame_of m1)), (env', frame_of m3 @ junk', length (frame_of m3))] w
       = Inr (0, w')
     \<and> sent_events w' = sent_events w @ notice w AUTH_STATE_4WAY_1_RCVD @ [Frame_Sent (frame_of m2)]
       @ notice w AUTH_STATE_4WAY_2_SENT @ notice w AUTH_STATE_4WAY_3_RCVD @ [Frame_Sent (frame_of m4)]
       @ notice w AUTH_STATE_4WAY_COMPLETE @ keys_set (their_addr c) ptk rsc flags gtk @ notice w AUTH_STATE_GROUP_HS_READY
     \<and> ap_accepts ptk m2 \<and> m_nonce m2 = snonce \<and> ap_accepts ptk m4
     \<and> auth_state w' = AUTH_STATE_GROUP_HS_READY \<and> sm_PortValid (sm w') \<and> sm_Counter (sm w') = counter'"
proof -
  define w1 where "w1 = w\<lparr>auth_state := AUTH_STATE_4WAY_2_SENT, sm := keyed_sm counter anonce snonce ptk (sm w),
     sent_events := sent_events w @ notice w AUTH_STATE_4WAY_1_RCVD @ [Frame_Sent (frame_of m2)] @ notice w AUTH_STATE_4WAY_2_SENT\<rparr>"
  have "length (frame_of m1) = 99"
    using length_frame_of [OF ap_msg_1_ok [OF assms(9)]] by (simp add: assms(15)) (simp add: ap_msg_1_def)
  then have first: "process_eapol_frame env (frame_of m1 @ junk) (length (frame_of m1)) w = Inr (0, w1)"
    using msg_1_answered [OF assms(1,3-5,7-9) _ assms(13,14)] assms(6) by (simp add: w1_def assms(15,17))
  have "sm_ok (sm w1)" using assms(5,14) by (simp add: w1_def keyed_sm_def sm_ok_def)
  from msg_3_answered [OF assms(2) _ assms(4) this assms(10,11) _ _ _ assms(9) _ _ assms(16), of "drop 48 (sm_PTK (sm w))" junk']
  show ?thesis
    using first assms(3,12,14) sta_accepted(1) [where snonce = snonce] sta_accepted(2,3) length_sta_nonce [of env "our_addr c" rand, folded assms(13)]
    by (auto simp: w1_def keyed_sm_def notice_def assms(17,18))
qed

theorem handshake_completes_witness:
  "\<exists>snonce ptk w'. snonce = sta_nonce sample_eapol_env (replicate 6 1) (replicate 64 9)
     \<and> ptk = ap_ptk (replicate 32 5) (replicate 6 2) (replicate 6 1) (replicate 32 4) snonce
     \<and> eapol_frames [(sample_eapol_env, frame_of (ap_msg_1 1 (replicate 32 4)), 99),
          (sample_eapol_env, frame_of (ap_msg_3 2 (replicate 32 4) (replicate 8 0) ptk (ap_key_data sample_ie 1 (replicate 16 8))),
           length (frame_of (ap_msg_3 2 (replicate 32 4) (replicate 8 0) ptk (ap_key_data sample_ie 1 (replicate 16 8)))))]
        sample_eapol = Inr (0, w')
     \<and> Key_Set (replicate 6 2) 0 True (replicate 6 0) (slice 32 16 ptk) \<in> set (sent_events w')"
proof -
  define snonce where "snonce = sta_nonce sample_eapol_env (our_addr sample_wlan) (replicate 64 9)"
  define ptk where "ptk = ap_ptk (wpa_pmk sample_wlan) (their_addr sample_wlan) (our_addr sample_wlan) (replicate 32 4) snonce"
  let ?fs = "[(sample_eapol_env, frame_of (ap_msg_1 1 (replicate 32 4)), 99),
        (sample_eapol_env, frame_of (ap_msg_3 2 (replicate 32 4) (replicate 8 0) ptk (ap_key_data sample_ie 1 (replicate 16 8))),
         length (frame_of (ap_msg_3 2 (replicate 32 4) (replicate 8 0) ptk (ap_key_data sample_ie 1 (replicate 16 8)))))]"
  have addrs: "our_addr sample_wlan = replicate 6 1" "their_addr sample_wlan = replicate 6 2" "wpa_pmk sample_wlan = replicate 32 5"
    by (simp_all add: sample_wlan_def)
  have len: "length (frame_of (ap_msg_1 1 (replicate 32 4))) = 99"
    using length_frame_of [OF ap_msg_1_ok [of "replicate 32 4" 1]] by (simp add: ap_msg_1_def)
  have "sm_ok (sm sample_eapol)" using sample_eapol_facts by simp
  from handshake_completes [OF sample_eapol_facts(1,1,4,2) this sample_eapol_facts(6,7) _ _ _ _ _ snonce_def ptk_def refl refl refl refl,
      where gtk = "replicate 16 8" and rsc = "replicate 8 0" and counter = 1 and counter' = 2 and flags = 1 and junk = "[]" and junk' = "[]"]
  have "\<exists>w'. eapol_frames ?fs sample_eapol = Inr (0, w') \<and> set (keys_set (their_addr sample_wlan) ptk (replicate 8 0) 1 (replicate 16 8)) \<subseteq> set (sent_events w')"
    by (auto simp: len simp del: eapol_frames.simps)
  then obtain w' where w': "eapol_frames ?fs sample_eapol = Inr (0, w')" "set (keys_set (their_addr sample_wlan) ptk (replicate 8 0) 1 (replicate 16 8)) \<subseteq> set (sent_events w')"
    by blast
  then have "Key_Set (replicate 6 2) 0 True (replicate 6 0) (slice 32 16 ptk) \<in> set (sent_events w')"
    by (simp add: keys_set_def addrs)
  then show ?thesis using w'(1) snonce_def ptk_def unfolding addrs by blast
qed

text \<open>
  C26. While the station waits for message 3, what a frame can do depends on who sent it. A frame below 99 bytes
  gives \<^verbatim>\<open>-EINVAL\<close> and any other frame that is not authentic (a message 3 that fits its length and has the
  integrity code of the pairwise key) gives 0, and both leave the station's state as it was. An authentic
  frame without a replay counter above the last one or without the nonce of message 1 leaves it too,
  with 0 or -1. Only a frame whose key data, if not longer than a wrapped key for which the
  unwrapping is that of the standard, is something wrapped under the key changes anything. The thread that reads
  the frames ends at a negative result, so of those who do not have the key, only short frames end it.
  (A frame has at most the 4096 bytes of the buffer it is read into, and the arrays of the state have their sizes.)
\<close>

theorem message_3_is_checked:
  assumes "process_eapol_frame env f n w = Inr (r, w')" and "auth_state w = AUTH_STATE_4WAY_2_SENT"
    and "sm_ok (sm w)" and "n \<le> 4096"
  shows "let authentic = desc_type f = 2 \<and> info_4way_msg_3 (key_info f) \<and> KEY_FRAME_LEN + key_data_len f \<le> n
           \<and> key_mic f = take 16 (hmac (take 16 (sm_PTK (sm w))) (take n (zero_mic f)));
         fresh = sm_Counter (sm w) < key_replay_counter f \<and> key_nonce f = sm_ANonce (sm w)
     in if n < KEY_FRAME_LEN then r = -22 \<and> w' = w
        else if \<not> authentic then r = 0 \<and> w' = w
        else if \<not> fresh then (r = 0 \<or> r = -1) \<and> w' = w
        else w' \<noteq> w \<longrightarrow> key_data_len f \<le> 344 \<longrightarrow>
          (\<exists>p. slice KEY_FRAME_LEN (key_data_len f) f = key_wrap (aes_encrypt (slice 16 16 (sm_PTK (sm w)))) p)"
  using waiting_for_msg_3 [OF assms]
  by (auto simp: msg_3_authentic_def msg_3_fresh_def mic_valid_def data_wrapped_def Let_def not_less)

definition sample_waiting :: eapol_state where
  "sample_waiting = sample_eapol\<lparr>auth_state := AUTH_STATE_4WAY_2_SENT,
     sm := keyed_sm 1 (replicate 32 4) (replicate 32 3) (replicate 48 6) sample_supplicant\<rparr>"

lemma sample_waiting_facts:
  "ctx sample_waiting = Some sample_wlan" "sm_ok (sm sample_waiting)" "sm_PTK (sm sample_waiting) = replicate 48 6 @ replicate 16 0"
  "sm_ANonce (sm sample_waiting) = replicate 32 4" "sm_Counter (sm sample_waiting) = 1"
  "auth_state sample_waiting = AUTH_STATE_4WAY_2_SENT"
  by (simp_all add: sample_waiting_def sample_eapol_def keyed_sm_def sm_ok_def sample_supplicant_def)

theorem message_3_is_checked_witness:
  "key_mic (frame_of (ap_msg_3 2 (replicate 32 4) (replicate 8 0) (replicate 48 6) (ap_key_data sample_ie 1 (replicate 16 8))))
   = take 16 (hmac (replicate 16 6) (take 155 (zero_mic
      (frame_of (ap_msg_3 2 (replicate 32 4) (replicate 8 0) (replicate 48 6) (ap_key_data sample_ie 1 (replicate 16 8)))))))"
proof -
  let ?m = "ap_msg_3 2 (replicate 32 4) (replicate 8 0) (replicate 48 6) (ap_key_data sample_ie 1 (replicate 16 8))"
  let ?f = "frame_of ?m"
  have "length sample_ie = 22" by (simp add: sample_ie_def wpa_gen_wpa_ie_rsn_def group_suite_def pairwise_suite_def
      key_mgmt_suite_def suite_defs rsn_selector_def Let_def)
  then have len: "length ?f = 155"
    by (subst length_frame_of) (simp_all add: ap_msg_3_def ap_encrypted_ok ap_encrypted_members
      length_wrapped [of _ 6] length_key_data)
  have "\<exists>w'. process_eapol_frame sample_eapol_env ?f 155 sample_waiting = Inr (0, w') \<and> w' \<noteq> sample_waiting"
    using msg_3_answered [OF sample_eapol_facts(1) sample_waiting_facts(1) sample_eapol_facts(2) sample_waiting_facts(2)
        _ _ sample_waiting_facts(3) _ sample_waiting_facts(4) _ _ sample_waiting_facts(6) refl, of "replicate 16 8" "replicate 8 0" 2 1 "[]"] len
    by (auto simp: sample_waiting_facts auth_state_defs dest: arg_cong [where f = auth_state])
  then obtain w' where "process_eapol_frame sample_eapol_env ?f 155 sample_waiting = Inr (0, w')" "w' \<noteq> sample_waiting" by blast
  from message_3_is_checked [OF this(1) sample_waiting_facts(6,2)] this(2) show ?thesis
    by (auto simp: sample_waiting_facts(3) KEY_FRAME_LEN_def Let_def split: if_splits)
qed

text \<open>
   A group key handshake is answered and its key set, but the counter the station then keeps is one above
  the one it answered: the next group key handshake, which has that counter, is taken for a replay, and
  the result ends the thread that reads frames.
\<close>

theorem second_group_rekey_refused:
  assumes "willing env" and "ctx w = Some c" and "associated c" and "sm_ok (sm w)"
    and "sm_PTK (sm w) = ptk @ rest" and "length ptk = 48" and "auth_state w = AUTH_STATE_GROUP_HS_READY"
    and "length gtk = 16" and "length rsc = 8" and "sm_Counter (sm w) < counter"
    and "length gtk' = 16" and "length rsc' = 8"
    and "m = ap_group_msg_1 counter rsc ptk (ap_key_data [] flags gtk)"
    and "m' = ap_group_msg_1 (counter + 1) rsc' ptk (ap_key_data [] flags' gtk')"
  shows "\<exists>w'. process_eapol_frame env (frame_of m @ junk) (length (frame_of m)) w = Inr (0, w')
     \<and> Key_Set (replicate 6 0xff) (unat (flags AND 3)) (bit flags 2) (take 6 rsc) gtk \<in> set (sent_events w')
     \<and> Frame_Sent (frame_of (sta_reply 0x302 counter ptk)) \<in> set (sent_events w')
     \<and> auth_state w' = AUTH_STATE_GROUP_HS_READY \<and> sm_Counter (sm w') = counter + 1
     \<and> eapol_frames [(env', frame_of m' @ junk', length (frame_of m'))] w' = Inr (-1, w')"
proof -
  define w' where "w' = w\<lparr>
     sm := (keep_gtk flags gtk (sm w))\<lparr>sm_Counter := counter + 1, sm_PortEnabled := True, sm_PortValid := True\<rparr>,
     sent_events := sent_events w @ notice w AUTH_STATE_GROUP_HS_1_RCVD
       @ [Key_Set (replicate 6 0xff) (unat (flags AND 3)) (bit flags 2) (take 6 rsc) gtk,
          Frame_Sent (frame_of (sta_reply 0x302 counter ptk)), Port_Set True] @ notice w AUTH_STATE_GROUP_HS_READY\<rparr>"
  have first: "process_eapol_frame env (frame_of m @ junk) (length (frame_of m)) w = Inr (0, w')"
    using group_msg_answered [OF assms(1-4,8,9,5-7,10,13)] by (simp add: w'_def)
  have ok: "sm_ok (sm w')" using keep_gtk_ok [OF assms(4,8), of flags] by (simp add: w'_def sm_ok_def)
  have ptk: "sm_PTK (sm w') = ptk @ rest" using assms(5) by (simp add: w'_def keep_gtk_def Let_def)
  have "process_eapol_frame env' (frame_of m' @ junk') (length (frame_of m')) w' = Inr (-1, w')"
    by (rule group_msg_refused [OF _ assms(3) ok assms(11,12) ptk assms(6) _ _ assms(14)]) (simp_all add: w'_def assms(2,7))
  then show ?thesis using first by (intro exI [of _ w']) (simp add: w'_def assms(7))
qed

definition sample_ready :: eapol_state where
  "sample_ready = sample_waiting\<lparr>auth_state := AUTH_STATE_GROUP_HS_READY\<rparr>"

theorem second_group_rekey_refused_witness:
  "\<exists>w'. process_eapol_frame sample_eapol_env
        (frame_of (ap_group_msg_1 5 (replicate 8 0) (replicate 48 6) (ap_key_data [] 2 (replicate 16 8))))
        (length (frame_of (ap_group_msg_1 5 (replicate 8 0) (replicate 48 6) (ap_key_data [] 2 (replicate 16 8)))))
        sample_ready = Inr (0, w')
     \<and> eapol_frames [(sample_eapol_env,
        frame_of (ap_group_msg_1 6 (replicate 8 0) (replicate 48 6) (ap_key_data [] 1 (replicate 16 9))),
        length (frame_of (ap_group_msg_1 6 (replicate 8 0) (replicate 48 6) (ap_key_data [] 1 (replicate 16 9)))))] w' = Inr (-1, w')"
proof -
  have ready: "ctx sample_ready = Some sample_wlan" "sm_ok (sm sample_ready)"
    "sm_PTK (sm sample_ready) = replicate 48 6 @ replicate 16 0" "auth_state sample_ready = AUTH_STATE_GROUP_HS_READY"
    "sm_Counter (sm sample_ready) < 5"
    using sample_waiting_facts by (simp_all add: sample_ready_def)
  from second_group_rekey_refused [OF sample_eapol_facts(1) ready(1) sample_eapol_facts(8) ready(2,3) _ ready(4) _ _ ready(5) _ _ refl refl,
      of "replicate 16 8" "replicate 8 0" "replicate 16 9" "replicate 8 0" 2 "[]" sample_eapol_env 1 "[]"]
  show ?thesis by (auto simp del: eapol_frames.simps)
qed

text \<open>
  C27. When the keys are installed, a message 1, which nothing authenticates, makes the station throw away the
  pairwise key and wait for message 3, whatever its replay counter is, with the port open; the access
  point's group key handshakes under the key that is still in use are not answered any more.
\<close>

theorem message_1_replaces_key:
  assumes "willing env" and "ctx w = Some c" and "ctx_ok c ie ap_ie" and "sm_ok (sm w)"
    and "urandom env = Some rand" and "length rand = 64" and "length anonce = 32"
    and "auth_state w = AUTH_STATE_GROUP_HS_READY" and "length rsc = 8"
    and "m = ap_msg_1 counter anonce" and "m' = ap_group_msg_1 counter' rsc old_ptk data"
  shows "\<exists>w'. process_eapol_frame env (frame_of m @ junk) (length (frame_of m)) w = Inr (0, w')
     \<and> auth_state w' = AUTH_STATE_4WAY_2_SENT \<and> sm_Counter (sm w') = counter
     \<and> take 48 (sm_PTK (sm w')) = ap_ptk (wpa_pmk c) (their_addr c) (our_addr c) anonce (sta_nonce env (our_addr c) rand)
     \<and> sm_PortValid (sm w') = sm_PortValid (sm w)
     \<and> process_eapol_frame env' (frame_of m' @ junk') (length (frame_of m')) w' = Inr (0, w')"
proof -
  have len: "length (frame_of (ap_msg_1 counter anonce)) = 99"
    using length_frame_of [OF ap_msg_1_ok [OF assms(7)], of counter] by (simp add: ap_msg_1_def)
  have c: "associated c" using assms(3) by (simp add: ctx_ok_def)
  show ?thesis
    unfolding assms(10) len
    by (rule exI, rule conjI, rule msg_1_answered [OF assms(1-7) disjI2 [OF assms(8)] refl refl])
      (simp add: keyed_sm_def group_msg_ignored [OF assms(9) _ c _ assms(11)] assms(2))
qed

theorem message_1_replaces_key_witness:
  "\<exists>w'. process_eapol_frame sample_eapol_env (frame_of (ap_msg_1 0 (replicate 32 1))) 99 sample_ready = Inr (0, w')
     \<and> auth_state w' = AUTH_STATE_4WAY_2_SENT \<and> sm_Counter (sm w') = 0"
proof -
  have ready: "ctx sample_ready = Some sample_wlan" "sm_ok (sm sample_ready)" "auth_state sample_ready = AUTH_STATE_GROUP_HS_READY"
    using sample_waiting_facts by (simp_all add: sample_ready_def)
  have len: "length (frame_of (ap_msg_1 0 (replicate 32 1))) = 99"
    using length_frame_of [OF ap_msg_1_ok [of "replicate 32 1" 0]] by (simp add: ap_msg_1_def)
  from message_1_replaces_key [OF sample_eapol_facts(1) ready(1) sample_eapol_facts(2) ready(2) sample_eapol_facts(7) _ _ ready(3) _ refl refl,
      of "replicate 32 1" "replicate 8 0" 0 "[]"]
  show ?thesis unfolding len by (simp only: length_replicate append_Nil2) blast
qed

section \<open>Finding a DHCP server\<close>

text \<open>A card without a client id, and an offer to it with a type, a server and a lease.\<close>

definition sample_dhcp :: dhcp_config where
  "sample_dhcp = \<lparr>clientid = None, hostname = None, arp = [2, 0, 0, 0, 0, 1]\<rparr>"

definition sample_offer_options :: "(byte \<times> byte list) list" where
  "sample_offer_options = [(DHCP_MESSAGE_TYPE, [DHCPOFFER]), (DHCP_SERVER_ID, [10, 0, 0, 1]), (0x33, [0, 0, 14, 16])]"

definition sample_offer :: dhcp_message where
  "sample_offer = \<lparr>dm_op = 2, dm_htype = 1, dm_hlen = 6, dm_hops = 0, dm_xid = 7, dm_secs = [0, 0], dm_flags = [0, 0],
     dm_ciaddr = [0, 0, 0, 0], dm_yiaddr = [10, 0, 0, 9], dm_siaddr = [10, 0, 0, 1], dm_giaddr = [0, 0, 0, 0],
     dm_chaddr = [2, 0, 0, 0, 0, 1] @ replicate 10 0, dm_sname = replicate 64 0, dm_file = replicate 128 0,
     dm_cookie = DHCP_MAGIC, dm_options = encode_options sample_offer_options @ DHCP_END # replicate 292 0\<rparr>"

text \<open>A pass in which nothing can be read, and one in which the offer can.\<close>

definition sample_silence :: discover_pass where
  "sample_silence = \<lparr>dp_uptime = 100, dp_socket = 3, dp_bind = 0, dp_select = (\<lambda>_. 0), dp_isset = False, dp_now = 100, dp_xid = 7,
     dp_send = \<lparr>se_socket = True, se_bind = True, se_sendto = (\<lambda>_. 576)\<rparr>, dp_read = None, dp_read_eintr = False\<rparr>"

definition sample_answer :: discover_pass where
  "sample_answer = sample_silence\<lparr>dp_select := (\<lambda>_. 1), dp_isset := True,
     dp_read := Some (udp_packet (message_bytes sample_offer) [10, 0, 0, 1] SERVER_PORT (replicate 4 0xff) CLIENT_PORT)\<rparr>"

definition sample_searching :: discover_state where
  "sample_searching = (discover_start (replicate DHCP_MESSAGE_LEN 0))\<lparr>ds_fd := 3, ds_packet_num := 1, ds_timeout := 102, ds_xid := 7\<rparr>"

lemma DHCP_MAGIC_bytes: "DHCP_MAGIC = [0x63, 0x82, 0x53, 0x63]"
  by (simp add: DHCP_MAGIC_def be_bytes_def upt_rec)

lemma sample_offer_is_offer: "offer_message sample_dhcp 7 sample_offer_options sample_offer"
  by (simp add: offer_message_def sample_dhcp_def sample_offer_def message_ok_def DHCP_MAGIC_bytes holds_options_def opt_ok_def
      sample_offer_options_def dhcp_codes encode_option_def)

text \<open>
  C28. The message of \<^verbatim>\<open>send_discover\<close>, when the client id and the host name of the configuration are options with
  a proper code and together at most 200 bytes of data, or missing: it carries the transaction and the address of the
  card, and looking up any option in it finds what was put there first, and nothing else: its type, the client
  id, the host name, the vendor, the address asked for, and a list of requests. The list is empty: the
  comment over \<^verbatim>\<open>add_requests\<close> promises a parameter request list for stubborn servers, but no option of the table
  has the flag that would put it in the list.
\<close>

theorem discover_message_announces:
  assumes "length (arp config) = 6" and "clientid config = map_option encode_option cid"
    and "hostname config = map_option encode_option host" and "own_options_ok cid host"
    and "code \<noteq> DHCP_PADDING" and "code \<noteq> DHCP_END"
  shows "\<exists>m. discover_message config xid requested = Inr m \<and> message_ok m \<and> dm_op m = 1 \<and> dm_xid m = xid
     \<and> take 6 (dm_chaddr m) = arp config \<and> dm_cookie m = DHCP_MAGIC
     \<and> (case map_of (discover_options cid host requested) code of
          None \<Rightarrow> get_option (message_bytes m) code = Inr None
        | Some d \<Rightarrow> \<exists>p. get_option (message_bytes m) code = Inr (Some p) \<and> slice p (length d) (message_bytes m) = d)"
proof -
  obtain m opts where m: "discover_message config xid requested = Inr m" "holds_options opts (discover_options cid host requested)"
    "m = empty_message\<lparr>dm_op := 1, dm_htype := 1, dm_hlen := 6, dm_xid := xid, dm_cookie := DHCP_MAGIC,
       dm_chaddr := arp config @ replicate 10 0, dm_options := opts\<rparr>"
    using discover_message_holds [OF assms(1-4)] by blast
  have ok: "message_ok m" using m(2) assms(1) empty_message_ok by (simp add: m(3) message_ok_def holds_options_def DHCP_MAGIC_bytes)
  have "\<And>x. cid = Some x \<Longrightarrow> fst x \<noteq> DHCP_OPTION_OVER" "\<And>x. host = Some x \<Longrightarrow> fst x \<noteq> DHCP_OPTION_OVER"
    using assms(4) unfolding own_options_ok_def by blast+
  then have "DHCP_OPTION_OVER \<notin> fst ` set (discover_options cid host requested)"
    by (cases cid; cases host) (force simp: discover_options_def dhcp_codes)+
  moreover have "holds_options (slice 240 308 (message_bytes m)) (discover_options cid host requested)"
    using m(2) ok by (simp add: message_options m(3))
  ultimately show ?thesis
    using get_option_finds [OF _ _ _ assms(5,6), of "message_bytes m"] message_of_bytes(2) [OF ok] ok assms(1) m(1)
    by (intro exI [of _ m]) (simp add: m(3) DHCP_MESSAGE_LEN_def)
qed

text \<open>A card with a client id and a host name, of codes 61 and 12.\<close>

definition sample_named :: dhcp_config where
  "sample_named = \<lparr>clientid = Some (encode_option (DHCP_CLIENT_ID, [1, 2, 0, 0, 0, 0, 1])),
     hostname = Some (encode_option (12, [98, 108, 116, 115])), arp = [2, 0, 0, 0, 0, 1]\<rparr>"

theorem discover_message_announces_witness:
  "\<exists>m p. discover_message sample_named 7 0 = Inr m \<and> get_option (message_bytes m) 12 = Inr (Some p)
     \<and> slice p 4 (message_bytes m) = [98, 108, 116, 115]"
proof -
  have "own_options_ok (Some (DHCP_CLIENT_ID, [1, 2, 0, 0, 0, 0, 1])) (Some (12, [98, 108, 116, 115]))"
    by (auto simp: own_options_ok_def opt_ok_def dhcp_codes data_length_def)
  from discover_message_announces [OF _ _ _ this, of sample_named 12 7 0] show ?thesis
    by (auto simp: sample_named_def discover_options_def dhcp_codes) (simp add: eval_nat_numeral)
qed

text \<open>
   An offer ends the search: while the client waits, a packet to its port with a message that has its
  transaction and address, the type of an offer and a server's identity, is received whole, passes all checks, and
  the search returns 0.
\<close>

theorem offer_ends_search:
  assumes "offer_message config (ds_xid s) xs m" and "0 \<le> ds_fd s" and "0 <s ds_timeout s - dp_uptime p"
    and "0 < dp_select p (udhcp_sp_fd_set (ds_fd s))" and "dp_isset p"
    and "dp_read p = Some (udp_packet (message_bytes m) source_ip source_port dest_ip CLIENT_PORT)"
    and "length source_ip = 4" and "length dest_ip = 4" and "length (ds_packet s) = DHCP_MESSAGE_LEN"
  shows "\<exists>s'. discover_loop config (p # ps) s = Inr (Some 0, s') \<and> message_of (ds_packet s') = m"
  using discover_step_offer [OF assms] by auto

theorem offer_ends_search_witness:
  "\<exists>s'. discover_loop sample_dhcp [sample_answer] sample_searching = Inr (Some 0, s') \<and> message_of (ds_packet s') = sample_offer"
  by (rule offer_ends_search [where xs = sample_offer_options and source_ip = "[10, 0, 0, 1]" and dest_ip = "replicate 4 0xff"])
    (simp_all add: sample_offer_is_offer word_sless_alt sample_searching_def discover_start_def sample_answer_def sample_silence_def)

text \<open>
  C29. The search succeeds only when the memory of the message reads as an offer: if the loop, from its
  start, returns 0, then this memory has the magic cookie, the transaction and the address of the card, the
  option for the type of a message, inside one of the fields for options, with the value of an offer, and there
  the option for the identity of a server. But only its first bytes, as many as the IP header of the last packet
  claims for the message, are from that packet; those behind are left from earlier packets, or are what
  the memory held before the search. Never more than five messages were sent. (A packet that is read is not longer
  than \<^verbatim>\<open>read\<close> was asked for.)
\<close>

theorem search_needs_offer:
  assumes "discover_loop config passes (discover_start junk) = Inr (ret, s)" and "list_all reads_fit passes"
  shows "length (ds_sent s) \<le> 5 \<and> (ret = Some 0 \<longrightarrow>
    reads_as_offer config (ds_xid s) (ds_packet s) \<and>
    (\<exists>before p after s0 rd k. passes = before @ p # after \<and> discover_loop config before (discover_start junk) = Inr (None, s0)
       \<and> dp_read p = Some rd \<and> get_be (slice 2 2 rd) = 28 + k \<and> 28 + k \<le> length rd
       \<and> ds_packet s = slice 28 k rd @ drop k (ds_packet s0)))"
proof -
  have "length (ds_sent s) \<le> 5"
    using discover_loop_inv [OF assms(1)] by (simp add: discover_inv_def discover_start_def)
  moreover have "\<exists>before p after s0. passes = before @ p # after \<and> discover_loop config before (discover_start junk) = Inr (None, s0)
     \<and> copied_over (dp_read p) (ds_packet s0) (ds_packet s) \<and> reads_as_offer config (ds_xid s) (ds_packet s)" if "ret = Some 0"
    using discover_loop_zero [OF _ assms(2), of config "discover_start junk" s] assms(1) that by simp
  ultimately show ?thesis unfolding copied_over_def by blast
qed

lemma sample_search:
  "\<exists>s. discover_loop sample_dhcp [sample_silence, sample_answer] (discover_start (replicate DHCP_MESSAGE_LEN 0)) = Inr (Some 0, s)"
proof -
  obtain m where "discover_message sample_dhcp 7 0 = Inr m"
    using discover_message_holds [of sample_dhcp None None 7 0] by (auto simp: sample_dhcp_def own_options_ok_def data_length_def)
  then obtain ret where "send_discover (dp_send sample_silence) sample_dhcp 7 0 = Inr (ret, Some (discover_packet m))"
    by (simp add: send_discover_def raw_packet_def sample_silence_def discover_packet_def Let_def)
  from discover_timeout_sends [OF this, of "(discover_start (replicate DHCP_MESSAGE_LEN 0))\<lparr>ds_fd := 3\<rparr>"]
  have first: "discover_step sample_dhcp sample_silence (discover_start (replicate DHCP_MESSAGE_LEN 0))
      = Inr (None, sample_searching\<lparr>ds_sent := [discover_packet m]\<rparr>)"
    by (simp add: discover_step_def Let_def sample_silence_def discover_start_def raw_socket_def sample_searching_def word_sless_alt)
  have "\<exists>s. discover_step sample_dhcp sample_answer (sample_searching\<lparr>ds_sent := [discover_packet m]\<rparr>) = Inr (Some 0, s)
      \<and> message_of (ds_packet s) = sample_offer"
    by (rule discover_step_offer [where xs = sample_offer_options and source_ip = "[10, 0, 0, 1]" and dest_ip = "replicate 4 0xff"])
      (simp_all add: sample_offer_is_offer word_sless_alt sample_searching_def discover_start_def sample_answer_def sample_silence_def)
  then show ?thesis by (auto simp: first)
qed

theorem search_needs_offer_witness:
  "\<exists>s :: discover_state. length (ds_sent s) \<le> 5 \<and> reads_as_offer sample_dhcp (ds_xid s) (ds_packet s)"
proof -
  have "length (message_bytes sample_offer) = 548" using sample_offer_is_offer message_of_bytes(2) [of sample_offer]
    by (simp add: offer_message_def DHCP_MESSAGE_LEN_def)
  then have "list_all reads_fit [sample_silence, sample_answer]"
    by (simp add: reads_fit_def sample_silence_def sample_answer_def udp_packet_def Let_def ip_header_def udp_header_def packet_lens)
  with sample_search search_needs_offer [of sample_dhcp "[sample_silence, sample_answer]" "replicate DHCP_MESSAGE_LEN 0" "Some 0"]
  show ?thesis by blast
qed

text \<open>
  C30. Without an answer the search gives up: if the message can be built, the sockets work and nothing can be read in six passes, it sends
  five copies of one message, with the transaction drawn at the first, and returns -1.
\<close>

theorem silent_search_gives_up:
  assumes "discover_message config (dp_xid p) 0 = Inr m" and "list_all silent (p # ps)" and "length ps = 5"
  shows "\<exists>s. discover_loop config (p # ps) (discover_start junk) = Inr (Some (-1), s) \<and> ds_sent s = replicate 5 (discover_packet m)"
  by (rule silent_search [OF assms])

theorem silent_search_gives_up_witness:
  "\<exists>m s. discover_loop sample_dhcp (replicate 6 sample_silence) (discover_start []) = Inr (Some (-1), s)
     \<and> ds_sent s = replicate 5 (discover_packet m)"
proof -
  obtain m where m: "discover_message sample_dhcp (dp_xid sample_silence) 0 = Inr m"
    using discover_message_holds [of sample_dhcp None None "dp_xid sample_silence" 0] by (auto simp: sample_dhcp_def own_options_ok_def data_length_def)
  have "silent sample_silence" by (simp add: silent_def sample_silence_def raw_socket_def)
  then have "list_all silent (sample_silence # replicate 5 sample_silence)" by (simp add: numeral_eq_Suc)
  from silent_search_gives_up [OF m this, of "[]"]
  have "\<exists>s. discover_loop sample_dhcp (sample_silence # replicate 5 sample_silence) (discover_start []) = Inr (Some (-1), s)
     \<and> ds_sent s = replicate 5 (discover_packet m)" by simp
  moreover have "replicate 6 sample_silence = sample_silence # replicate 5 sample_silence" by (simp add: numeral_eq_Suc)
  ultimately show ?thesis by metis
qed

text \<open>
  C31. The length that a received packet claims is not compared with that of its headers: one of 20 to 27 bytes,
  with a correct checksum and addressed to the client, makes the number of bytes to copy wrap, and the copy runs
  out of the packet.
\<close>

theorem short_packet_overruns:
  assumes "20 \<le> L" and "L < 28" and "length source_ip = 4" and "length dest_ip = 4" and "length source = 2"
    and "length rest \<le> DHCP_MESSAGE_LEN"
  shows "get_raw_packet (Some (ip_header 0x45 (be16 L) ttl (le16 (checksum (ip_header 0x45 (be16 L) ttl [0, 0] source_ip dest_ip)))
      source_ip dest_ip @ udp_header source (be16 CLIENT_PORT) (be16 (L - 20)) [0, 0] @ rest)) payload = Inl Out_Of_Bounds"
  by (rule short_total_overruns [OF assms])

theorem short_packet_overruns_witness:
  "get_raw_packet (Some (ip_header 0x45 (be16 20) 64 (le16 (checksum (ip_header 0x45 (be16 20) 64 [0, 0] [10, 0, 0, 1] [10, 0, 0, 9])))
      [10, 0, 0, 1] [10, 0, 0, 9] @ udp_header [0, 67] (be16 CLIENT_PORT) (be16 (20 - 20)) [0, 0] @ [])) [] = Inl Out_Of_Bounds"
  by (rule short_packet_overruns) simp_all

section \<open>The configuration of the sound tests\<close>

definition sample_stream :: alsa_pcm_settings where
  "sample_stream = zero_pcm\<lparr>ps_dir := STREAM_DIR_OUT, ps_rates := [8000, 44100], ps_formats := [2], ps_channels := [2], ps_access := [3], ps_async := [0],
     ps_duration := 5, ps_freq := 1000, ps_link_card := - 1, ps_link_device := - 1, ps_period_size := - 1, ps_volume := 100\<rparr>"

definition sample_controls :: alsa_control_settings where
  "sample_controls = \<lparr>cs_card = 0, cs_values = [\<lparr>control_name = ''Master'', control_id = 0, cv_value = 40, str_value = []\<rparr>]\<rparr>"

definition sample_testset :: alsa_testset where
  "sample_testset = zero_testset\<lparr>ts_description := ''front'', ts_pcms := [sample_stream], ts_ctls := [sample_controls]\<rparr>"

definition sample_sound_config :: alsa_configuration where
  "sample_sound_config = \<lparr>cf_testsets = [sample_testset], cf_def_ctls = [Some sample_controls]\<rparr>"

definition no_sound_config :: alsa_configuration where
  "no_sound_config = \<lparr>cf_testsets = [], cf_def_ctls = []\<rparr>"

lemmas sample_sound_defs = sample_stream_def sample_controls_def sample_testset_def sample_sound_config_def zero_pcm_def zero_testset_def

lemma sample_sound_printable: "printable_config sample_sound_config"
proof -
  have "length (print_value \<lparr>control_name = ''Master'', control_id = 0, cv_value = 40, str_value = []\<rparr>) < MAX_LINE_LEN"
    by (simp add: print_value_def setting_def print_field_def quoted_def show_num_def show_nat.simps MAX_LINE_LEN_def)
  then have controls: "printable_control sample_controls"
    by (simp add: printable_control_def sample_controls_def printable_value_def field_ok_def text_ok_def fits_int_def MAGIC_NUMBER_def)
  have "printable_pcm sample_stream"
    by (simp add: printable_pcm_def sample_stream_def zero_pcm_def fits_int_def MAGIC_NUMBER_def format_values_def access_values_def async_values_def)
  then show ?thesis
    using controls
    by (simp add: printable_config_def printable_sections_def sample_sound_config_def printable_testset_def sample_testset_def zero_testset_def text_ok_def MAGIC_NUMBER_def
        MAX_STREAMS_def printable_tuner_def printable_bluetooth_def fits_int_def sample_stream_def zero_pcm_def)
qed

text \<open>
  C32. The number of test sets is not compared with the room for them, \<^verbatim>\<open>alsa_conf_file.c:577\<close>: a file in the syntax of C33 with more than
  256 test sets makes the parser store a pointer behind the array of 256. (That store is the fault
  \<^verbatim>\<open>Out_Of_Bounds\<close> of the model; the program has no check there and writes on. C33 is about up to 256 test sets.)
\<close>

theorem sound_testsets_overflow:
  assumes "printable_sections cf" and "256 < length (cf_testsets cf)"
  shows "alsa_read_config (Some (print_config cf)) old = Inl Out_Of_Bounds"
  using assms(2) read_printed_sections [OF assms(1), of old] by (simp add: MAGIC_NUMBER_def)

definition crowded_sound_config :: alsa_configuration where
  "crowded_sound_config = sample_sound_config\<lparr>cf_testsets := replicate 257 sample_testset\<rparr>"

theorem sound_testsets_overflow_witness:
  "alsa_read_config (Some (print_config crowded_sound_config)) no_sound_config = Inl Out_Of_Bounds"
proof (rule sound_testsets_overflow)
  have "printable_sections sample_sound_config" using sample_sound_printable by (simp add: printable_config_def)
  then show "printable_sections crowded_sound_config"
    by (simp add: printable_sections_def crowded_sound_config_def sample_sound_config_def)
  show "256 < length (cf_testsets crowded_sound_config)" by (simp add: crowded_sound_config_def)
qed

text \<open>
  C33. A configuration that is written in the syntax of the file, section by section and a setting a line, is read
  back as it was: the numbers that are not negative, formats, ways of access and modes by their names, controls by
  number or quoted name, directions of streams, tuner, bluetooth, descriptions and default controls.
\<close>

theorem sound_config_read_back:
  assumes "printable_config cf"
  shows "alsa_read_config (Some (print_config cf)) old = Inr (0, cf)"
  by (rule read_printed_config [OF assms])

theorem sound_config_read_back_witness:
  "alsa_read_config (Some (print_config sample_sound_config)) no_sound_config = Inr (0, sample_sound_config)"
  by (rule sound_config_read_back [OF sample_sound_printable])

text \<open>
  C34. The three passes of the cleaning, which cut pieces out of one buffer, work line by line: tabs outside quotes
  become spaces and carriage returns vanish, leading spaces are dropped, and empty lines and comments are left out.
  A line of 256 characters or more, comments included, is written past the line buffer.
\<close>

theorem cleanup_works_by_lines:
  "cnfparser_cleanup s = (if \<forall>l\<in>set (trimmed_lines s). length l < MAX_LINE_LEN then Inr (cleaned s) else Inl Out_Of_Bounds)"
  by (rule cleanup_result)

theorem cleanup_works_by_lines_witness:
  "cnfparser_cleanup ([CHR 0x09] @ ''card 0'' @ [CHR 0x0D, CHR 0x0A, CHR 0x0A] @ ''# x'' @ [CHR 0x0A]) = Inr (''card 0'' @ [CHR 0x0A])"
  by (simp add: cleanup_works_by_lines trimmed_lines_def trimmed_rest_def cleaned_def trim_def is_kept_def MAX_LINE_LEN_def)

text \<open>
  C35. A first test set whose end tag is missing, or stands on a last line that has no newline, crashes the program.
  The text holds no NUL; its lines are shorter than the line buffer (with a longer one C34 is the first fault); no other
  test set and no default controls come before the tag \<^verbatim>\<open>[testset]\<close>, so everything up to it was passed over; and no
  line behind it is \<^verbatim>\<open>[end_testset]\<close>. The error is then reported, and the search goes on from NULL. If the tag of
  the test set is the last whole line, a line buffer that nothing was read into is compared.
\<close>

theorem unended_testset_crashes:
  assumes "CHR 0x00 \<notin> set s" and "\<forall>l\<in>set (trimmed_lines s). length l < MAX_LINE_LEN"
    and "filter is_kept (trimmed_lines s) = before @ ''[testset]'' # after"
    and "''[testset]'' \<notin> set before" and "''[defaults]'' \<notin> set before" and "''[end_testset]'' \<notin> set after"
  shows "alsa_read_config (Some s) cf = Inl (if after = [] \<and> is_kept (trimmed_rest s) then Uninitialised else Null_Deref)"
  by (rule read_unended_testset [OF assms])

theorem unended_testset_crashes_witness:
  "alsa_read_config (Some (''[testset]'' @ [CHR 0x0A] @ ''x'' @ [CHR 0x0A] @ ''[end_testset]'')) no_sound_config = Inl Null_Deref"
proof -
  define s where "s = ''[testset]'' @ [CHR 0x0A] @ ''x'' @ [CHR 0x0A] @ ''[end_testset]''"
  have lines: "trimmed_lines s = [''[testset]'', ''x'']" by (simp add: s_def trimmed_lines_def trim_def)
  have "alsa_read_config (Some s) no_sound_config = Inl (if [''x''] = [] \<and> is_kept (trimmed_rest s) then Uninitialised else Null_Deref)"
    by (rule unended_testset_crashes [where before = "[]"]) (simp_all add: lines is_kept_def MAX_LINE_LEN_def, simp add: s_def)
  then show ?thesis by (simp add: s_def)
qed

text \<open>
  C36. The generated test cases are all combinations, if every test set has a stream, no stream lacks values but one that
  only waits, and the numbers of combinations, the names and the timeouts fit (\<^verbatim>\<open>buildable\<close>). Behind the fixed cases of
  the program there is, for every test set in order, one case for every choice of one variant of each of its streams, in
  the order of a counter whose first position is the fastest. The name of a case is the text of its test set and choice,
  its function is \<^verbatim>\<open>alsa_play_rec_pcm\<close>, and its timeout is twice the longest of the chosen streams and five seconds,
  with a minute more for a tuner or a bluetooth headset; at the same
  position of the list of parameters are the choice itself, the controls, tuner and bluetooth settings of the test set, and
  the default controls.
\<close>

theorem sound_cases_are_combinations:
  assumes "\<forall>ts\<in>set (cf_testsets conf). buildable ts"
  shows "generate_pcm_testcase_list conf = Inr (Some
      (blts_alsa_cases @ map (\<lambda>(ts, row). \<lparr>case_name_of = case_text (ts_description ts) row, case_func_of = ''alsa_play_rec_pcm'',
          timeout_of = play_time ts row\<rparr>) (testset_rows (cf_testsets conf)),
       map (\<lambda>(ts, row). \<lparr>tc_params = row, tc_control_ref = ts_ctls ts, tc_def_control_ref = cf_def_ctls conf, tc_tuner = ts_tuner ts,
          tc_btaudio = ts_btaudio ts\<rparr>) (testset_rows (cf_testsets conf))))
    \<and> (\<forall>ts row. (ts, row) \<in> set (testset_rows (cf_testsets conf)) \<longleftrightarrow> ts \<in> set (cf_testsets conf) \<and> list_all2 (\<lambda>p variants. p \<in> set variants) row (streams_of ts))"
  using generated_cases [OF assms(1)] testset_rows_set [of _ _ "cf_testsets conf"]
  by (simp add: play_case_def play_params_def case_prod_unfold)

lemma sample_variants: "generate_pcm_params sample_stream = [pcm_case sample_stream 8000 2 2 3 0, pcm_case sample_stream 44100 2 2 3 0]"
  by (simp add: generate_pcm_params_def) (simp add: sample_stream_def)

lemma sample_streams: "streams_of sample_testset = [generate_pcm_params sample_stream]"
  by (simp add: streams_of_def sample_testset_def stream_params_def sample_variants)

lemma sample_case_name:
  assumes "rate \<in> {8000, 44100}"
  shows "length (case_text ''front'' [pcm_case sample_stream rate 2 2 3 0]) < 256"
proof -
  have numbers: "length (show_nat (nat rate)) \<le> 5" using assms by (intro show_nat_length) auto
  have "show_int rate = show_nat (nat rate)" using assms by (auto simp: show_int_def)
  then show ?thesis using numbers
    by (simp add: case_text_def params_text_def pcm_case_def sample_stream_def zero_pcm_def
      STREAM_DIR_OUT_def STREAM_DIR_IN_def STREAM_DIR_NONE_def show_int_def show_nat.simps access_to_str_def access_values_def
      format_to_str_def format_values_def async_to_str_def async_values_def)
qed

lemma sample_play_time: "play_time sample_testset [pcm_case sample_stream rate 2 2 3 0] = 15000"
  by (simp add: play_time_def pcm_case_def sample_sound_defs)

lemma sample_testset_buildable: "buildable sample_testset"
proof -
  have "ts_pcms sample_testset = [sample_stream]" "ts_description sample_testset = ''front''" by (simp_all add: sample_testset_def)
  then show ?thesis using sample_case_name sample_play_time by (simp add: buildable_def sample_streams stream_params_def sample_variants)
qed

theorem sound_cases_are_combinations_witness:
  "\<exists>first second params. generate_pcm_testcase_list sample_sound_config = Inr (Some (blts_alsa_cases @ [first, second], params))
     \<and> timeout_of first = 15000 \<and> map tc_params params = [[pcm_case sample_stream 8000 2 2 3 0], [pcm_case sample_stream 44100 2 2 3 0]]"
  using sound_cases_are_combinations [of sample_sound_config] sample_testset_buildable
  by (simp add: sample_sound_config_def testset_rows_def sample_streams sample_variants sample_play_time)

text \<open>
  C37. Whatever the settings say, no value out of range reaches a card if (\<^verbatim>\<open>card_ok\<close>) the range of an element that
  has one is not empty (minimum and maximum of booleans and integers, a first item of an enumeration), and an element of a
  type the program writes has no more channels than the kernel's array for that type and is read with a value for each;
  elements of other types, IEC958 among them, may be anything. Then a property of the card that every write of
  values in the range of the element keeps holds after the controls are set up, whether that succeeds or not, and
  setting them up always returns.
\<close>

theorem sound_controls_in_range:
  assumes "card_ok io" and "keeps io P" and "P d"
  shows "\<exists>err d' s'. setup_control_settings io cards d cs = Inr (err, d', s') \<and> P d'"
  by (rule setup_controls_keeps [OF assms])

definition sample_element :: elem_info where
  "sample_element = \<lparr>ei_id = \<lparr>numid = 1, id_name = ''Master''\<rparr>, ei_type = TYPE_INTEGER, ei_count = 2, int_min = 0, int_max = 31,
     int64_min = 0, int64_max = 0, enum_items = 1\<rparr>"

definition sample_digital :: elem_info where
  "sample_digital = sample_element\<lparr>ei_id := \<lparr>numid = 2, id_name = ''IEC958 Playback''\<rparr>, ei_type := TYPE_IEC958, ei_count := 1, int_max := 0, enum_items := 0\<rparr>"

definition sample_card :: "int list ctl_ioctls" where
  "sample_card = \<lparr>io_count = \<lambda>d. (0, 2), io_list = \<lambda>d n. (0, [ei_id sample_element, ei_id sample_digital]),
     io_info = \<lambda>d i. (0, if numid i = 2 then sample_digital else sample_element),
     io_item_name = \<lambda>d i n. (- EINVAL, []), io_read = \<lambda>d i. (0, if numid i = 2 then [] else [0, 0]), io_write = \<lambda>d i vs. (0, if numid i = 2 then d else vs)\<rparr>"

theorem sound_controls_in_range_witness:
  "\<exists>err d' s'. setup_control_settings sample_card (\<lambda>n. \<lparr>ca_fd = 3, ca_version_err = 0, ca_protocol = 131078\<rparr>) [0, 0] (Some sample_controls)
     = Inr (err, d', s') \<and> 0 \<le> d' ! 0 \<and> d' ! 0 \<le> 31"
proof (rule sound_controls_in_range [where P = "\<lambda>d. 0 \<le> d ! 0 \<and> d ! 0 \<le> 31"])
  show "card_ok sample_card"
    by (auto simp: card_ok_def sample_card_def sample_digital_def sample_element_def info_ok_def written_type_def channels_of_def)
  show "keeps sample_card (\<lambda>d. 0 \<le> d ! 0 \<and> d ! 0 \<le> 31)"
    by (simp add: keeps_def sample_card_def sample_digital_def sample_element_def value_in_range_def split: if_splits)
qed simp

text \<open>
  C38. Narrowing an interval of a device's parameter by another intersects the sets of numbers they stand for, with
  open and closed ends and with integers only, and the result tells an empty one: as long as an open end is not at
  the end of the 32-bit numbers, where it wraps.
\<close>

theorem sound_intervals_meet:
  assumes "interval_refine i v = (r, i')" and "\<not> iv_empty i" and "\<not> iv_empty v" and "ends_inside i" and "ends_inside v"
  shows "ivl_set i' = ivl_set i \<inter> ivl_set v \<and> (r = - EINVAL \<longleftrightarrow> ivl_set i' = {}) \<and> (iv_empty i' \<longleftrightarrow> r = - EINVAL) \<and> r \<in> {- EINVAL, 0, 1}"
  using interval_refine_meets [OF assms] by simp

theorem sound_intervals_meet_witness:
  "ivl_set \<lparr>iv_min = 3, iv_max = 7, iv_openmin = False, iv_openmax = False, iv_integer = True, iv_empty = False\<rparr>
   = ivl_set interval_any \<inter> ivl_set \<lparr>iv_min = 2, iv_max = 8, iv_openmin = True, iv_openmax = True, iv_integer = True, iv_empty = False\<rparr>"
proof -
  have "interval_refine interval_any \<lparr>iv_min = 2, iv_max = 8, iv_openmin = True, iv_openmax = True, iv_integer = True, iv_empty = False\<rparr>
     = (1, \<lparr>iv_min = 3, iv_max = 7, iv_openmin = False, iv_openmax = False, iv_integer = True, iv_empty = False\<rparr>)"
    by (simp add: interval_refine_def interval_any_def raise_min_def lower_max_def close_min_def close_max_def interval_verdict_def Let_def)
  from sound_intervals_meet [OF this] show ?thesis by (simp add: interval_any_def ends_inside_def)
qed

text \<open>
  C39. A device is asked for what the test case wants, or the call fails: it fails exactly if one of the wanted
  values is not among those the device offers, and otherwise access, format, channels and the size of a period are
  left with the wanted value alone, and the rate with what lies between it and the next number.
  (The wanted numbers are in the ranges of their parameters, and none is negative but a period size that is left out; the
  structure holds all masks and intervals of the kernel's; an interval of integers has closed ends, and an open end is not
  at the end of the 32-bit numbers.)
\<close>

theorem sound_params_negotiated:
  assumes "params_ok params" and "pcm_params_fit p"
  shows "\<exists>r params'. request_params p params = Inr (r, params') \<and> (0 \<le> r \<longleftrightarrow> wanted p params) \<and> (0 \<le> r \<longrightarrow> granted p params params')"
  by (rule request_params_result [OF assms])

lemma any_params_ok: "params_ok pcm_hw_params_any"
  by code_simp

theorem sound_params_negotiated_witness:
  "\<exists>r params'. request_params (pcm_case sample_stream 44100 2 2 3 0) pcm_hw_params_any = Inr (r, params')
     \<and> (0 \<le> r \<longleftrightarrow> wanted (pcm_case sample_stream 44100 2 2 3 0) pcm_hw_params_any)
     \<and> (0 \<le> r \<longrightarrow> granted (pcm_case sample_stream 44100 2 2 3 0) pcm_hw_params_any params')"
  by (rule sound_params_negotiated [OF any_params_ok]) (simp add: pcm_params_fit_def pcm_case_def sample_stream_def zero_pcm_def)

text \<open>
  C40. The software parameters: the threshold is the whole periods in the buffer, and the boundary is the size of
  the buffer doubled as often as a \<^verbatim>\<open>long\<close> has room for it, so the loop ends. A device that answers with an empty
  period makes the program divide by zero, and one with an empty buffer makes it double for ever.
\<close>

theorem sound_boundary_doubles:
  "if period_size hw = 0 then sw_request hw = Inl Division_By_Zero
   else if buffer_size hw = 0 then sw_request hw = Inl Endless_Loop
   else \<exists>b k start. sw_request hw = Inr (hw\<lparr>start_threshold := start\<rparr>, \<lparr>sw_avail_min = unat (period_size hw), sw_start_threshold = start,
        sw_stop_threshold = unat (buffer_size hw), sw_boundary = b\<rparr>)
      \<and> start = unat (buffer_size hw) div unat (period_size hw) * unat (period_size hw)
      \<and> unat b = unat (buffer_size hw) * 2 ^ k \<and> unat b + unat (buffer_size hw) \<le> 2 ^ 63 - 1 \<and> 2 ^ 63 - 1 < 2 * unat b + unat (buffer_size hw)"
proof (cases "period_size hw = 0 \<or> buffer_size hw = 0")
  case True
  then show ?thesis by (auto simp: sw_request_def threshold_def boundary_of_nothing)
next
  case False
  define bs where "bs = (ucast (buffer_size hw) :: 64 word)"
  have "unat (buffer_size hw) < 2 ^ 32" using unsigned_less [of "buffer_size hw"] by simp
  then have bs: "unat bs = unat (buffer_size hw)" and "unat bs < 2 ^ 32" by (simp_all add: bs_def unsigned_ucast_eq take_bit_nat_eq_self)
  then have "0 < unat bs" using False by (simp add: unat_gt_0)
  then obtain k b where "boundary_loop bs bs = Some b" "unat b = unat bs * 2 ^ k" "unat b + unat bs \<le> 2 ^ 63 - 1" "2 ^ 63 - 1 < 2 * unat b + unat bs"
    using boundary_loop_ends [of bs bs] \<open>unat bs < 2 ^ 32\<close> by auto
  then show ?thesis using False bs unfolding bs_def sw_request_def threshold_def by auto
qed

end
